(* ===== verification/Prelude.thy ===== *)
theory Prelude
  imports Complex_Main "HOL-Library.AList" "HOL-Library.Sublist"
begin

text \<open>
  Shared ground of the development: the collections of hints that the component theories fill,
  and the generic facts on lists, association lists and options that several of them need.
  Objects of the source whose key order matters are association lists; \<open>AList.update\<close> is
  JavaScript's property assignment (it overwrites in place and appends a new key at the end).
\<close>

named_theorems guard_defs \<open>definitions of the transition guards\<close>
named_theorems hsm_defs \<open>definitions of the built-in state machines\<close>
named_theorems js_defs \<open>definitions of the JavaScript value helpers\<close>
named_theorems policy_defs \<open>definitions of the gate policy tables\<close>

section \<open>Lists\<close>

text \<open>The last element of a list that satisfies a predicate, as a backward loop finds it.\<close>

definition find_last :: "('a \<Rightarrow> bool) \<Rightarrow> 'a list \<Rightarrow> 'a option" where
  "find_last P xs = find P (rev xs)"

lemma find_last_Nil [simp]: "find_last P [] = None"
  by (simp add: find_last_def)

lemma find_last_snoc [simp]:
  "find_last P (xs @ [x]) = (if P x then Some x else find_last P xs)"
  by (simp add: find_last_def)

lemma find_last_Some: "find_last P xs = Some x \<Longrightarrow> x \<in> set xs \<and> P x"
  by (auto simp: find_last_def find_Some_iff) (metis length_rev nth_mem set_rev)

lemma find_last_None: "find_last P xs = None \<longleftrightarrow> (\<forall>x \<in> set xs. \<not> P x)"
  by (auto simp: find_last_def find_None_iff)

text \<open>The elements after the last one that satisfies a predicate; the whole list if none does.\<close>

definition after_last :: "('a \<Rightarrow> bool) \<Rightarrow> 'a list \<Rightarrow> 'a list" where
  "after_last P xs = rev (takeWhile (\<lambda>x. \<not> P x) (rev xs))"

lemma after_last_Nil [simp]: "after_last P [] = []"
  by (simp add: after_last_def)

lemma after_last_snoc [simp]:
  "after_last P (xs @ [x]) = (if P x then [] else after_last P xs @ [x])"
  by (simp add: after_last_def)

lemma after_last_subset: "set (after_last P xs) \<subseteq> set xs"
  by (auto simp: after_last_def dest: set_takeWhileD)

lemma after_last_not: "x \<in> set (after_last P xs) \<Longrightarrow> \<not> P x"
  by (auto simp: after_last_def dest: set_takeWhileD)

text \<open>Order-preserving removal of elements whose key was seen before.\<close>

fun dedup_from :: "'k set \<Rightarrow> ('a \<Rightarrow> 'k) \<Rightarrow> 'a list \<Rightarrow> 'a list" where
  "dedup_from seen key [] = []"
| "dedup_from seen key (x # xs) =
     (if key x \<in> seen then dedup_from seen key xs
      else x # dedup_from (insert (key x) seen) key xs)"

lemma dedup_from_keys:
  "key ` set (dedup_from seen key xs) = key ` set xs - seen"
  by (induction xs arbitrary: seen) auto

lemma dedup_from_subset: "set (dedup_from seen key xs) \<subseteq> set xs"
  by (induction xs arbitrary: seen) (auto split: if_splits)

lemma dedup_from_distinct: "distinct (map key (dedup_from seen key xs))"
proof (induction xs arbitrary: seen)
  case (Cons x xs)
  have "key x \<notin> key ` set (dedup_from (insert (key x) seen) key xs)"
    by (simp add: dedup_from_keys)
  with Cons show ?case by auto
qed simp

lemma dedup_from_set:
  "inj key \<Longrightarrow> set (dedup_from {} key xs) = set xs"
  using dedup_from_keys [of key "{}" xs] by (simp add: inj_image_eq_iff)

lemma dedup_from_append:
  "dedup_from seen key (xs @ ys) =
   dedup_from seen key xs @ dedup_from (seen \<union> key ` set xs) key ys"
  by (induction xs arbitrary: seen) (auto simp: insert_commute insert_absorb)

section \<open>Association lists\<close>

lemma map_of_update [simp]: "map_of (AList.update k v al) = (map_of al)(k \<mapsto> v)"
  by (rule ext) (simp add: update_conv)

lemma keys_update:
  "fst ` set (AList.update k v al) = insert k (fst ` set al)"
  using dom_update [of k v al] by (simp add: dom_map_of_conv_image_fst)

lemma set_update_subset: "set (AList.update k v al) \<subseteq> insert (k, v) (set al)"
  by (induction al) auto

lemma keys_delete: "fst ` set (AList.delete k al) = fst ` set al - {k}"
  by (induction al) auto

lemma set_delete_subset: "set (AList.delete k al) \<subseteq> set al"
  by (induction al) auto

definition spread :: "('k \<times> 'v) list \<Rightarrow> ('k \<times> 'v) list \<Rightarrow> ('k \<times> 'v) list" where
  "spread al bs = fold (\<lambda>(k, v) acc. AList.update k v acc) bs al"

lemma spread_Nil [simp]: "spread al [] = al"
  by (simp add: spread_def)

lemma spread_Cons [simp]:
  "spread al ((k, v) # bs) = spread (AList.update k v al) bs"
  by (simp add: spread_def)

lemma map_of_spread:
  "distinct (map fst bs) \<Longrightarrow> map_of (spread al bs) = map_of al ++ map_of bs"
proof (induction bs arbitrary: al)
  case (Cons b bs)
  obtain k v where b: "b = (k, v)" by (cases b)
  with Cons.prems have dist: "distinct (map fst bs)" and fresh: "k \<notin> fst ` set bs" by auto
  from fresh have "map_of bs k = None" by (simp add: map_of_eq_None_iff)
  then have "map_of al ++ map_of ((k, v) # bs) = (map_of al)(k \<mapsto> v) ++ map_of bs"
    by (auto simp: map_add_def fun_eq_iff split: option.splits)
  then show ?case using Cons.IH [OF dist] b
    by (simp only: spread_Cons map_of_update)
qed simp

section \<open>Errors as sums\<close>

definition is_ok :: "'e + 'a \<Rightarrow> bool" where
  "is_ok r = (case r of Inl _ \<Rightarrow> False | Inr _ \<Rightarrow> True)"

lemma is_ok_simps [simp]: "is_ok (Inl e) = False" "is_ok (Inr a) = True"
  by (simp_all add: is_ok_def)

text \<open>Sequencing of fallible steps: the first error ends the computation.\<close>

definition bind_result :: "'e + 'a \<Rightarrow> ('a \<Rightarrow> 'e + 'b) \<Rightarrow> 'e + 'b" where
  "bind_result r f = (case r of Inl e \<Rightarrow> Inl e | Inr a \<Rightarrow> f a)"

lemma bind_result_simps [simp]:
  "bind_result (Inl e) f = Inl e"
  "bind_result (Inr a) f = f a"
  by (simp_all add: bind_result_def)

lemma bind_result_Inr_iff:
  "bind_result r f = Inr b \<longleftrightarrow> (\<exists>a. r = Inr a \<and> f a = Inr b)"
  by (cases r) auto

lemma filter_length_mono:
  "(\<And>x. x \<in> set xs \<Longrightarrow> P x \<Longrightarrow> Q x) \<Longrightarrow> length (filter P xs) \<le> length (filter Q xs)"
  by (induction xs) (auto simp: le_SucI)

section \<open>Joins\<close>

text \<open>
  The contract of a join towards code that folds it over contributions: an order, and an operation
  whose result is the least element above both arguments, up to the equivalence of the order.
\<close>

locale upper_join =
  fixes le :: "'a \<Rightarrow> 'a \<Rightarrow> bool"
    and join :: "'a \<Rightarrow> 'a \<Rightarrow> 'a"
  assumes le_refl: "le a a"
    and le_trans: "le a b \<Longrightarrow> le b c \<Longrightarrow> le a c"
    and join_le: "le (join a b) c \<longleftrightarrow> le a c \<and> le b c"
begin

lemma upper: "le a (join a b)" "le b (join a b)"
  using join_le [of a b "join a b"] le_refl by simp_all

lemma fold_le: "le (foldl join z xs) c \<longleftrightarrow> le z c \<and> (\<forall>x \<in> set xs. le x c)"
  by (induction xs arbitrary: z) (auto simp: join_le)

lemma fold_upper: "le z (foldl join z xs)" "x \<in> set xs \<Longrightarrow> le x (foldl join z xs)"
  using fold_le [of z xs "foldl join z xs"] le_refl by simp_all

lemma partner: "list_all2 le xs ys \<Longrightarrow> x \<in> set xs \<Longrightarrow> \<exists>y \<in> set ys. le x y"
  by (induction rule: list_all2_induct) auto

lemma fold_mono:
  assumes "list_all2 le xs ys"
  shows "le (foldl join z xs) (foldl join z ys)"
proof -
  have "le x (foldl join z ys)" if x: "x \<in> set xs" for x
  proof -
    obtain y where "y \<in> set ys" "le x y" using partner [OF assms x] by blast
    then show ?thesis using fold_upper(2) le_trans by blast
  qed
  then show ?thesis using fold_upper(1) by (simp add: fold_le)
qed

end

end
