(* ===== verification/Js_Value.thy ===== *)
theory Js_Value
  imports Prelude
begin

text \<open>
  The JavaScript values that the workflow state and the events hold, and the parts of the
  language that the modelled code uses on them: property reads, \<open>typeof\<close>, plain-object
  tests, \<open>String(x)\<close>, \<open>JSON.stringify\<close>, \<open>trim\<close> and \<open>toLowerCase\<close>.

  A string is the list of its UTF-8 bytes. A finite number is the rational that its decimal
  notation denotes; NaN and the infinities are values of their own. An object is the list of
  its own enumerable properties in insertion order. Properties that an object inherits from
  \<open>Object.prototype\<close> and the reordering of integer-like keys are outside the model.
\<close>

section \<open>Values\<close>

datatype jsnum = NaN | PosInf | NegInf | Fin rat

datatype js =
    JUndef
  | JNull
  | JBool bool
  | JNum jsnum
  | JStr string
  | JArr "js list"
  | JObj "(string \<times> js) list"

type_synonym fields = "(string \<times> js) list"

abbreviation JInt :: "int \<Rightarrow> js" where
  "JInt n \<equiv> JNum (Fin (of_int n))"

text \<open>The error that the JavaScript engine raises for an operation on a value of a wrong type.\<close>

datatype js_exn = TypeError | Thrown string

text \<open>\<open>record[field]\<close>, where a missing property reads as \<open>undefined\<close>.\<close>

definition fget :: "fields \<Rightarrow> string \<Rightarrow> js" where
  "fget fs k = (case map_of fs k of None \<Rightarrow> JUndef | Some v \<Rightarrow> v)"

lemma fget_Nil [simp]: "fget [] k = JUndef"
  by (simp add: fget_def)

lemma fget_Cons [simp]: "fget ((k', v) # fs) k = (if k' = k then v else fget fs k)"
  by (simp add: fget_def)

lemma fget_update [simp]:
  "fget (AList.update k' v fs) k = (if k' = k then v else fget fs k)"
  by (simp add: fget_def)

lemma fget_map_of_cong: "map_of fs k = map_of gs k \<Longrightarrow> fget fs k = fget gs k"
  by (simp add: fget_def)

text \<open>The properties that every object, string and number has from its prototype.\<close>

definition object_names :: "string list" where
  "object_names =
     [''constructor'', ''hasOwnProperty'', ''isPrototypeOf'', ''propertyIsEnumerable'', ''toLocaleString'',
      ''toString'', ''valueOf'', ''__proto__'', ''__defineGetter__'', ''__defineSetter__'',
      ''__lookupGetter__'', ''__lookupSetter__'']"

text \<open>\<open>value?.field\<close> on a value of any type; only a plain object has the fields of the model.\<close>

definition opt_get :: "js \<Rightarrow> string \<Rightarrow> js" where
  "opt_get v k = (case v of JObj fs \<Rightarrow> fget fs k | _ \<Rightarrow> JUndef)"

lemma opt_get_simps [simp]:
  "opt_get JUndef k = JUndef"
  "opt_get JNull k = JUndef"
  "opt_get (JBool b) k = JUndef"
  "opt_get (JNum n) k = JUndef"
  "opt_get (JStr s) k = JUndef"
  "opt_get (JArr xs) k = JUndef"
  "opt_get (JObj fs) k = fget fs k"
  by (simp_all add: opt_get_def)

text \<open>\<open>value.field\<close>, which raises a \<open>TypeError\<close> on \<open>undefined\<close> and \<open>null\<close>.\<close>

definition dot_get :: "js \<Rightarrow> string \<Rightarrow> js_exn + js" where
  "dot_get v k = (if v = JUndef \<or> v = JNull then Inl TypeError else Inr (opt_get v k))"

section \<open>Type tests\<close>

definition is_nullish :: "js \<Rightarrow> bool" where
  "is_nullish v \<longleftrightarrow> v = JUndef \<or> v = JNull"

lemma is_nullish_simps [simp]:
  "is_nullish JUndef" "is_nullish JNull" "\<not> is_nullish (JBool b)" "\<not> is_nullish (JNum n)"
  "\<not> is_nullish (JStr s)" "\<not> is_nullish (JArr xs)" "\<not> is_nullish (JObj fs)"
  by (simp_all add: is_nullish_def)

fun js_typeof :: "js \<Rightarrow> string" where
  "js_typeof JUndef = ''undefined''"
| "js_typeof JNull = ''object''"
| "js_typeof (JBool _) = ''boolean''"
| "js_typeof (JNum _) = ''number''"
| "js_typeof (JStr _) = ''string''"
| "js_typeof (JArr _) = ''object''"
| "js_typeof (JObj _) = ''object''"

definition is_array :: "js \<Rightarrow> bool" where
  "is_array v = (case v of JArr _ \<Rightarrow> True | _ \<Rightarrow> False)"

definition isPlainObject :: "js \<Rightarrow> bool" where
  "isPlainObject v \<longleftrightarrow> js_typeof v = ''object'' \<and> v \<noteq> JNull \<and> \<not> is_array v"

lemma isPlainObject_iff: "isPlainObject v \<longleftrightarrow> (\<exists>fs. v = JObj fs)"
  by (cases v) (simp_all add: isPlainObject_def is_array_def)

lemma isPlainObject_simps [simp]:
  "\<not> isPlainObject JUndef" "\<not> isPlainObject JNull" "\<not> isPlainObject (JBool b)"
  "\<not> isPlainObject (JNum n)" "\<not> isPlainObject (JStr s)" "\<not> isPlainObject (JArr xs)"
  "isPlainObject (JObj fs)"
  by (simp_all add: isPlainObject_iff)

definition as_string :: "js \<Rightarrow> string option" where
  "as_string v = (case v of JStr s \<Rightarrow> Some s | _ \<Rightarrow> None)"

definition as_object :: "js \<Rightarrow> fields option" where
  "as_object v = (case v of JObj fs \<Rightarrow> Some fs | _ \<Rightarrow> None)"

lemma as_string_simps [simp]:
  "as_string JUndef = None" "as_string JNull = None" "as_string (JBool b) = None"
  "as_string (JNum n) = None" "as_string (JStr s) = Some s" "as_string (JArr xs) = None"
  "as_string (JObj fs) = None"
  by (simp_all add: as_string_def)

lemma as_object_simps [simp]:
  "as_object JUndef = None" "as_object JNull = None" "as_object (JBool b) = None"
  "as_object (JNum n) = None" "as_object (JStr s) = None" "as_object (JArr xs) = None"
  "as_object (JObj fs) = Some fs"
  by (simp_all add: as_object_def)

lemma as_string_Some_iff: "as_string v = Some s \<longleftrightarrow> v = JStr s"
  by (cases v) auto

lemma as_object_Some_iff: "as_object v = Some fs \<longleftrightarrow> v = JObj fs"
  by (cases v) auto

section \<open>Numbers\<close>

fun is_finite_num :: "jsnum \<Rightarrow> bool" where
  "is_finite_num (Fin _) = True"
| "is_finite_num _ = False"

fun is_integer_num :: "jsnum \<Rightarrow> bool" where
  "is_integer_num (Fin r) = (of_int (floor r) = r)"
| "is_integer_num _ = False"

text \<open>\<open>a < b\<close> on numbers: every comparison with NaN is false.\<close>

fun num_less :: "jsnum \<Rightarrow> jsnum \<Rightarrow> bool" where
  "num_less NaN _ = False"
| "num_less _ NaN = False"
| "num_less (Fin a) (Fin b) = (a < b)"
| "num_less NegInf y = (y \<noteq> NegInf)"
| "num_less _ NegInf = False"
| "num_less PosInf _ = False"
| "num_less _ PosInf = True"

definition num_ge :: "jsnum \<Rightarrow> jsnum \<Rightarrow> bool" where
  "num_ge a b \<longleftrightarrow> a \<noteq> NaN \<and> b \<noteq> NaN \<and> \<not> num_less a b"

lemma num_less_Fin [simp]: "num_less (Fin a) (Fin b) \<longleftrightarrow> a < b"
  by simp

lemma num_ge_Fin [simp]: "num_ge (Fin a) (Fin b) \<longleftrightarrow> b \<le> a"
  by (auto simp: num_ge_def)

section \<open>Text\<close>

definition em_dash :: string where
  "em_dash = [CHR 0xE2, CHR 0x80, CHR 0x94]"

definition dquote :: string where
  "dquote = [CHR 0x22]"

text \<open>The white space and line terminators that \<open>trim\<close> removes, in UTF-8.\<close>

definition ws_codes :: "string list" where
  "ws_codes =
     [[CHR 0x20], [CHR 0x09], [CHR 0x0A], [CHR 0x0B], [CHR 0x0C], [CHR 0x0D],
      [CHR 0xC2, CHR 0xA0], [CHR 0xE1, CHR 0x9A, CHR 0x80],
      [CHR 0xE2, CHR 0x80, CHR 0x80], [CHR 0xE2, CHR 0x80, CHR 0x81],
      [CHR 0xE2, CHR 0x80, CHR 0x82], [CHR 0xE2, CHR 0x80, CHR 0x83],
      [CHR 0xE2, CHR 0x80, CHR 0x84], [CHR 0xE2, CHR 0x80, CHR 0x85],
      [CHR 0xE2, CHR 0x80, CHR 0x86], [CHR 0xE2, CHR 0x80, CHR 0x87],
      [CHR 0xE2, CHR 0x80, CHR 0x88], [CHR 0xE2, CHR 0x80, CHR 0x89],
      [CHR 0xE2, CHR 0x80, CHR 0x8A], [CHR 0xE2, CHR 0x80, CHR 0xA8],
      [CHR 0xE2, CHR 0x80, CHR 0xA9], [CHR 0xE2, CHR 0x80, CHR 0xAF],
      [CHR 0xE2, CHR 0x81, CHR 0x9F], [CHR 0xE3, CHR 0x80, CHR 0x80],
      [CHR 0xEF, CHR 0xBB, CHR 0xBF]]"

text \<open>Remove codes from the front; every code is non-empty, so the string's length is enough fuel.\<close>

fun strip_front :: "string list \<Rightarrow> nat \<Rightarrow> string \<Rightarrow> string" where
  "strip_front cs 0 s = s"
| "strip_front cs (Suc n) s =
     (case find (\<lambda>c. prefix c s) cs of
        None \<Rightarrow> s
      | Some c \<Rightarrow> strip_front cs n (drop (length c) s))"

definition js_trim :: "string \<Rightarrow> string" where
  "js_trim s =
     (let front = strip_front ws_codes (length s) s
      in rev (strip_front (map rev ws_codes) (length front) (rev front)))"

text \<open>\<open>toLowerCase\<close>, on the ASCII letters; other characters stay as they are.\<close>

definition lower_char :: "char \<Rightarrow> char" where
  "lower_char c =
     (let n = of_char c :: nat in if 65 \<le> n \<and> n \<le> 90 then char_of (n + 32) else c)"

definition js_lower :: "string \<Rightarrow> string" where
  "js_lower s = map lower_char s"

fun join_with :: "string \<Rightarrow> string list \<Rightarrow> string" where
  "join_with sep [] = ''''"
| "join_with sep [x] = x"
| "join_with sep (x # y # ys) = x @ sep @ join_with sep (y # ys)"

text \<open>\<open>s.split(sep)\<close> for a separator of one character: never the empty list.\<close>

fun split_on :: "char \<Rightarrow> string \<Rightarrow> string list" where
  "split_on c [] = [[]]"
| "split_on c (x # xs) =
     (if x = c then [] # split_on c xs
      else (case split_on c xs of [] \<Rightarrow> [[x]] | p # ps \<Rightarrow> (x # p) # ps))"

lemma split_on_nonempty [simp]: "split_on c s \<noteq> []"
  by (induction s) (auto split: list.splits)

lemma split_on_no_sep: "p \<in> set (split_on c s) \<Longrightarrow> c \<notin> set p"
proof (induction s arbitrary: p)
  case (Cons x xs)
  then show ?case by (cases "split_on c xs") (auto split: if_splits)
qed simp

lemma join_split_on: "join_with [c] (split_on c s) = s"
proof (induction s)
  case (Cons x xs)
  obtain p ps where "split_on c xs = p # ps" by (cases "split_on c xs") auto
  with Cons show ?case by (cases ps) auto
qed simp

lemma split_on_single: "c \<notin> set s \<Longrightarrow> split_on c s = [s]"
  by (induction s) auto

section \<open>Printing\<close>

definition digit_char :: "nat \<Rightarrow> char" where
  "digit_char n = char_of (48 + n)"

fun nat_str :: "nat \<Rightarrow> string" where
  "nat_str n = (if n < 10 then [digit_char n] else nat_str (n div 10) @ [digit_char (n mod 10)])"

declare nat_str.simps [simp del]

text \<open>Decimal places of a fraction in \<open>[0, 1)\<close>, up to the 17 that a double distinguishes.\<close>

fun frac_digits :: "nat \<Rightarrow> rat \<Rightarrow> string" where
  "frac_digits 0 r = ''''"
| "frac_digits (Suc k) r =
     (if r = 0 then ''''
      else let d = floor (10 * r) in digit_char (nat d) # frac_digits k (10 * r - of_int d))"

fun num_str :: "jsnum \<Rightarrow> string" where
  "num_str NaN = ''NaN''"
| "num_str PosInf = ''Infinity''"
| "num_str NegInf = ''-Infinity''"
| "num_str (Fin r) =
     (let a = abs r; i = floor a; f = a - of_int i
      in (if r < 0 then ''-'' else '''') @ nat_str (nat i) @
         (if f = 0 then '''' else ''.'' @ frac_digits 17 f))"

text \<open>\<open>String(x)\<close>; an array joins its elements with commas, and \<open>null\<close> elements are empty.\<close>

fun js_string :: "js \<Rightarrow> string" where
  "js_string JUndef = ''undefined''"
| "js_string JNull = ''null''"
| "js_string (JBool b) = (if b then ''true'' else ''false'')"
| "js_string (JNum n) = num_str n"
| "js_string (JStr s) = s"
| "js_string (JArr xs) =
     join_with '','' (map (\<lambda>x. if is_nullish x then '''' else js_string x) xs)"
| "js_string (JObj _) = ''[object Object]''"

text \<open>\<open>JSON.stringify\<close>: \<open>None\<close> is \<open>undefined\<close>, which an array prints as \<open>null\<close> and an object omits.\<close>

definition hex_digit :: "nat \<Rightarrow> char" where
  "hex_digit n = (if n < 10 then char_of (48 + n) else char_of (87 + n))"

definition json_char :: "char \<Rightarrow> string" where
  "json_char c =
     (let n = of_char c :: nat in
      if n = 34 then [CHR 0x5C, CHR 0x22]
      else if n = 92 then [CHR 0x5C, CHR 0x5C]
      else if n = 8 then [CHR 0x5C, CHR ''b'']
      else if n = 9 then [CHR 0x5C, CHR ''t'']
      else if n = 10 then [CHR 0x5C, CHR ''n'']
      else if n = 12 then [CHR 0x5C, CHR ''f'']
      else if n = 13 then [CHR 0x5C, CHR ''r'']
      else if n < 32 then CHR 0x5C # ''u00'' @ [hex_digit (n div 16), hex_digit (n mod 16)]
      else [c])"

definition json_quote :: "string \<Rightarrow> string" where
  "json_quote s = CHR 0x22 # concat (map json_char s) @ [CHR 0x22]"

fun json_stringify :: "js \<Rightarrow> string option" where
  "json_stringify JUndef = None"
| "json_stringify JNull = Some ''null''"
| "json_stringify (JBool b) = Some (if b then ''true'' else ''false'')"
| "json_stringify (JNum n) = Some (if is_finite_num n then num_str n else ''null'')"
| "json_stringify (JStr s) = Some (json_quote s)"
| "json_stringify (JArr xs) =
     Some (''['' @ join_with '',''
       (map (\<lambda>x. case json_stringify x of None \<Rightarrow> ''null'' | Some t \<Rightarrow> t) xs) @ '']'')"
| "json_stringify (JObj fs) =
     Some (''{'' @ join_with '',''
       (concat (map (\<lambda>(k, v). case json_stringify v of
          None \<Rightarrow> [] | Some t \<Rightarrow> [json_quote k @ '':'' @ t]) fs)) @ ''}'')"

text \<open>\<open>`${JSON.stringify(x)}`\<close>, where an omitted result prints as \<open>undefined\<close>.\<close>

definition json_text :: "js \<Rightarrow> string" where
  "json_text v = (case json_stringify v of None \<Rightarrow> ''undefined'' | Some t \<Rightarrow> t)"

section \<open>Blank strings\<close>

lemma strip_front_length: "length (strip_front cs n s) \<le> length s"
proof (induction cs n s rule: strip_front.induct)
  case (2 cs n s)
  then show ?case
    by (auto split: option.splits)
qed simp

lemma js_trim_length: "length (js_trim s) \<le> length s"
proof -
  have "length (js_trim s) \<le> length (strip_front ws_codes (length s) s)"
    unfolding js_trim_def Let_def
    by (metis length_rev strip_front_length)
  also have "\<dots> \<le> length s" by (rule strip_front_length)
  finally show ?thesis .
qed

lemma js_trim_Nil [simp]: "js_trim [] = []"
  using js_trim_length [of "[]"] by simp

end
