(* ===== verification/Plan_Revision.thy ===== *)
theory Plan_Revision
  imports Js_Value
begin

text \<open>
  The plan-revision count of a workflow (\<open>src/projections/shared/plan-revision-count.ts\<close>):
  the tally over the event rows, the cap test that the \<open>revisions-exhausted\<close> guard reads, and
  the test with which \<open>prepare_review\<close> refuses one more dispatch.
\<close>

section \<open>The tally\<close>

definition PLAN_REVIEW_DISPATCHED_EVENT :: string where
  "PLAN_REVIEW_DISPATCHED_EVENT = ''workflow.plan-review-dispatched''"

definition PLAN_REVISION_STORED_EVENT :: string where
  "PLAN_REVISION_STORED_EVENT = ''workflow.plan-revision''"

definition PLAN_REVISION_EVENT_TYPES :: "string list" where
  "PLAN_REVISION_EVENT_TYPES = [''plan-revision'', PLAN_REVISION_STORED_EVENT]"

definition PLAN_REVISION_COUNTED_STORE_TYPES :: "string list" where
  "PLAN_REVISION_COUNTED_STORE_TYPES =
     [PLAN_REVIEW_DISPATCHED_EVENT, PLAN_REVISION_STORED_EVENT]"

lemmas revision_types [policy_defs] =
  PLAN_REVIEW_DISPATCHED_EVENT_def PLAN_REVISION_STORED_EVENT_def
  PLAN_REVISION_EVENT_TYPES_def PLAN_REVISION_COUNTED_STORE_TYPES_def

record tally =
  dispatches :: int
  edgeRevisions :: int
  revisions :: int

definition revisionsFrom :: "int \<Rightarrow> int \<Rightarrow> int" where
  "revisionsFrom d e = max (max (d - 1) e) 0"

definition eventTypeOf :: "js \<Rightarrow> string option" where
  "eventTypeOf entry = as_string (opt_get entry ''type'')"

text \<open>The body of the counting loop, on the pair of its two counters.\<close>

definition tally_step :: "int \<times> int \<Rightarrow> js \<Rightarrow> int \<times> int" where
  "tally_step c entry =
     (case eventTypeOf entry of
        None \<Rightarrow> c
      | Some t \<Rightarrow>
          if t = PLAN_REVIEW_DISPATCHED_EVENT then (fst c + 1, snd c)
          else if t \<in> set PLAN_REVISION_EVENT_TYPES then (fst c, snd c + 1)
          else c)"

definition tallyPlanRevisions :: "js list \<Rightarrow> tally" where
  "tallyPlanRevisions events =
     (let c = foldl tally_step (0, 0) events
      in \<lparr>dispatches = fst c, edgeRevisions = snd c, revisions = revisionsFrom (fst c) (snd c)\<rparr>)"

definition planRevisionCapReached :: "int \<Rightarrow> rat \<Rightarrow> bool" where
  "planRevisionCapReached revs cap \<longleftrightarrow> cap \<le> of_int revs"

definition planReviewDispatchExceedsCap :: "tally \<Rightarrow> rat \<Rightarrow> bool" where
  "planReviewDispatchExceedsCap t cap \<longleftrightarrow>
     cap < of_int (revisionsFrom (dispatches t + 1) (edgeRevisions t))"

section \<open>What the tally counts\<close>

definition count_type :: "(string \<Rightarrow> bool) \<Rightarrow> js list \<Rightarrow> nat" where
  "count_type P events =
     length (filter (\<lambda>e. case eventTypeOf e of None \<Rightarrow> False | Some t \<Rightarrow> P t) events)"

lemma count_type_Nil [simp]: "count_type P [] = 0"
  by (simp add: count_type_def)

lemma count_type_append [simp]: "count_type P (xs @ ys) = count_type P xs + count_type P ys"
  by (simp add: count_type_def)

lemma tally_counters:
  "foldl tally_step (a, b) events =
     (a + int (count_type (\<lambda>t. t = PLAN_REVIEW_DISPATCHED_EVENT) events),
      b + int (count_type (\<lambda>t. t \<in> set PLAN_REVISION_EVENT_TYPES) events))"
proof (induction events arbitrary: a b)
  case (Cons e es)
  have "tally_step (a, b) e =
      (a + int (count_type (\<lambda>t. t = PLAN_REVIEW_DISPATCHED_EVENT) [e]),
       b + int (count_type (\<lambda>t. t \<in> set PLAN_REVISION_EVENT_TYPES) [e]))"
    by (cases "eventTypeOf e") (auto simp: tally_step_def count_type_def revision_types)
  then show ?case
    using Cons count_type_append [of _ "[e]" es] by simp
qed simp

lemma tally_fields:
  "dispatches (tallyPlanRevisions es) = int (count_type (\<lambda>t. t = PLAN_REVIEW_DISPATCHED_EVENT) es)"
  "edgeRevisions (tallyPlanRevisions es) = int (count_type (\<lambda>t. t \<in> set PLAN_REVISION_EVENT_TYPES) es)"
  "revisions (tallyPlanRevisions es) =
     revisionsFrom (dispatches (tallyPlanRevisions es)) (edgeRevisions (tallyPlanRevisions es))"
  by (simp_all add: tallyPlanRevisions_def tally_counters Let_def)

lemma revisionsFrom_nonneg: "0 \<le> revisionsFrom d e"
  by (simp add: revisionsFrom_def)

lemma revisionsFrom_step:
  "revisionsFrom d e \<le> revisionsFrom (d + 1) e" "revisionsFrom (d + 1) e \<le> revisionsFrom d e + 1"
  unfolding revisionsFrom_def by linarith+

lemma tally_mono:
  "revisions (tallyPlanRevisions es) \<le> revisions (tallyPlanRevisions (es @ es'))"
  by (auto simp: tally_fields revisionsFrom_def)

text \<open>
  A refused dispatch over an integer cap is never the end of the road: the cap is then reached,
  so the guard that leads to \<open>blocked\<close> passes.
\<close>

lemma exceeds_imp_reached:
  assumes "planReviewDispatchExceedsCap (tallyPlanRevisions es) (of_int cap)"
  shows "planRevisionCapReached (revisions (tallyPlanRevisions es)) (of_int cap)"
proof -
  let ?t = "tallyPlanRevisions es"
  from assms have "cap < revisionsFrom (dispatches ?t + 1) (edgeRevisions ?t)"
    by (simp add: planReviewDispatchExceedsCap_def)
  also have "\<dots> \<le> revisions ?t + 1"
    using revisionsFrom_step(2) by (simp add: tally_fields(3))
  finally show ?thesis by (simp add: planRevisionCapReached_def)
qed

end
