(* ===== verification/Guards.thy ===== *)
theory Guards
  imports Plan_Revision
begin

text \<open>
  The transition guards of \<open>src/workflow/guards.ts\<close>: the readers that narrow untyped state, the
  review-status collector, the guard combinator and every member of the \<open>guards\<close> table. A guard
  is a function of the state object; its result is the pass value, a failure with its reason,
  expected shape and suggested fix, or an engine error where the source does not catch one.
\<close>

section \<open>Guards and their results\<close>

record suggested_fix =
  fix_tool :: string
  fix_params :: fields

record guard_failure =
  gf_reason :: string
  gf_shape :: "js option"
  gf_fix :: "suggested_fix option"

datatype guard_result = GPass | GFail guard_failure

record guard =
  gid :: string
  gdesc :: string
  gcustom :: bool
  geval :: "fields \<Rightarrow> js_exn + guard_result"

definition mk_fail :: "string \<Rightarrow> js option \<Rightarrow> suggested_fix option \<Rightarrow> guard_result" where
  "mk_fail reason shape sfix = GFail \<lparr>gf_reason = reason, gf_shape = shape, gf_fix = sfix\<rparr>"

lemma mk_fail_not_pass [simp]: "mk_fail r s f \<noteq> GPass" "GPass \<noteq> mk_fail r s f"
  by (simp_all add: mk_fail_def)

lemma mk_fail_inject [simp]:
  "mk_fail r s f = mk_fail r' s' f' \<longleftrightarrow> r = r' \<and> s = s' \<and> f = f'"
  by (simp add: mk_fail_def)

text \<open>A built-in guard whose evaluation raises nothing.\<close>

definition pure_guard :: "string \<Rightarrow> string \<Rightarrow> (fields \<Rightarrow> guard_result) \<Rightarrow> guard" where
  "pure_guard i d f = \<lparr>gid = i, gdesc = d, gcustom = False, geval = (\<lambda>s. Inr (f s))\<rparr>"

lemma pure_guard_simps [simp]:
  "gid (pure_guard i d f) = i" "gdesc (pure_guard i d f) = d"
  "gcustom (pure_guard i d f) = False" "geval (pure_guard i d f) s = Inr (f s)"
  by (simp_all add: pure_guard_def)

definition guard_passes :: "guard \<Rightarrow> fields \<Rightarrow> bool" where
  "guard_passes g s \<longleftrightarrow> geval g s = Inr GPass"

lemma guard_passes_pure [simp]: "guard_passes (pure_guard i d f) s \<longleftrightarrow> f s = GPass"
  by (simp add: guard_passes_def)

text \<open>The loop of \<open>composeGuards\<close>: the first result that is not a pass is the result.\<close>

fun eval_all :: "guard list \<Rightarrow> fields \<Rightarrow> js_exn + guard_result" where
  "eval_all [] s = Inr GPass"
| "eval_all (g # gs) s =
     bind_result (geval g s) (\<lambda>r. if r \<noteq> GPass then Inr r else eval_all gs s)"

definition composeGuards :: "string \<Rightarrow> string \<Rightarrow> guard list \<Rightarrow> guard" where
  "composeGuards i d gs = \<lparr>gid = i, gdesc = d, gcustom = False, geval = eval_all gs\<rparr>"

lemma composeGuards_simps [simp]:
  "gid (composeGuards i d gs) = i" "gdesc (composeGuards i d gs) = d"
  "gcustom (composeGuards i d gs) = False" "geval (composeGuards i d gs) = eval_all gs"
  by (simp_all add: composeGuards_def)

lemma eval_all_pass_iff: "eval_all gs s = Inr GPass \<longleftrightarrow> (\<forall>g \<in> set gs. guard_passes g s)"
  by (induction gs) (auto simp: guard_passes_def bind_result_Inr_iff split: if_splits)

lemma composeGuards_passes:
  "guard_passes (composeGuards i d gs) s \<longleftrightarrow> (\<forall>g \<in> set gs. guard_passes g s)"
  by (simp add: guard_passes_def [of "composeGuards i d gs"] eval_all_pass_iff)

lemma eval_all_prefix:
  "\<forall>g \<in> set gs. guard_passes g s \<Longrightarrow> eval_all (gs @ hs) s = eval_all hs s"
  by (induction gs) (auto simp: guard_passes_def)

section \<open>Readers\<close>

definition readObjectField :: "fields \<Rightarrow> string \<Rightarrow> fields option" where
  "readObjectField state field = as_object (fget state field)"

definition as_record_list :: "js list \<Rightarrow> fields list" where
  "as_record_list xs = List.map_filter as_object xs"

definition readRecordArrayField :: "fields \<Rightarrow> string \<Rightarrow> fields list" where
  "readRecordArrayField state field =
     (case fget state field of JArr xs \<Rightarrow> as_record_list xs | _ \<Rightarrow> [])"

definition readStringField :: "js \<Rightarrow> string \<Rightarrow> string option" where
  "readStringField v field = (case v of JObj fs \<Rightarrow> as_string (fget fs field) | _ \<Rightarrow> None)"

definition isTypedArtifactReference :: "js \<Rightarrow> bool" where
  "isTypedArtifactReference v = (case v of JStr s \<Rightarrow> 0 < length (js_trim s) | _ \<Rightarrow> False)"

text \<open>\<open>typeof state.featureId === 'string' ? state.featureId : '<featureId>'\<close>.\<close>

definition featureId_of :: "fields \<Rightarrow> string" where
  "featureId_of state =
     (case fget state ''featureId'' of JStr s \<Rightarrow> s | _ \<Rightarrow> ''<featureId>'')"

text \<open>The property of an optional record, as \<open>record?.field\<close> reads it.\<close>

definition oget :: "fields option \<Rightarrow> string \<Rightarrow> js" where
  "oget r k = (case r of None \<Rightarrow> JUndef | Some fs \<Rightarrow> fget fs k)"

lemma oget_simps [simp]: "oget None k = JUndef" "oget (Some fs) k = fget fs k"
  by (simp_all add: oget_def)

text \<open>The suggested fix \<open>exarchos_workflow update\<close> with the given updates.\<close>

definition update_fix :: "fields \<Rightarrow> fields \<Rightarrow> suggested_fix option" where
  "update_fix state updates =
     Some \<lparr>fix_tool = ''exarchos_workflow'',
           fix_params = [(''action'', JStr ''update''),
                         (''featureId'', JStr (featureId_of state)),
                         (''updates'', JObj updates)]\<rparr>"

definition obj1 :: "string \<Rightarrow> js \<Rightarrow> js" where
  "obj1 k v = JObj [(k, v)]"

section \<open>Artifact guards\<close>

definition artifact_ok :: "string \<Rightarrow> fields \<Rightarrow> bool" where
  "artifact_ok field state \<longleftrightarrow>
     (case readObjectField state ''artifacts'' of
        None \<Rightarrow> False
      | Some artifacts \<Rightarrow> isTypedArtifactReference (fget artifacts field)) \<or>
     isTypedArtifactReference (fget state field)"

definition makeArtifactGuard :: "string \<Rightarrow> string \<Rightarrow> string option \<Rightarrow> guard" where
  "makeArtifactGuard field description customId =
     (let i = (case customId of None \<Rightarrow> field @ ''-artifact-exists'' | Some c \<Rightarrow> c);
          shape = obj1 ''artifacts'' (obj1 field (JStr ''<path-or-content>''))
      in pure_guard i description (\<lambda>state.
        if artifact_ok field state then GPass
        else mk_fail
          (i @ '' not satisfied: artifacts.'' @ field @ '' must be a non-empty string '' @
           ''(a path or the artifact contents), not a bare boolean/object/whitespace'')
          (Some shape)
          (update_fix state [(''artifacts'', obj1 field (JStr ''<path-or-content>''))])))"

lemma makeArtifactGuard_passes:
  "guard_passes (makeArtifactGuard f d c) s \<longleftrightarrow> artifact_ok f s"
  by (simp add: makeArtifactGuard_def Let_def)

section \<open>Review statuses\<close>

definition PASSED_STATUSES :: "string list" where
  "PASSED_STATUSES = [''pass'', ''passed'', ''approved'', ''fixes-applied'']"

definition FAILED_STATUSES :: "string list" where
  "FAILED_STATUSES = [''fail'', ''failed'', ''needs_fixes'']"

definition REVIEW_EXPECTED_SHAPE :: js where
  "REVIEW_EXPECTED_SHAPE =
     obj1 ''reviews'' (obj1 ''<name>'' (obj1 ''status''
       (JStr (''pass (or verdict: '' @ dquote @ ''pass'' @ dquote @ '')''))))"

definition extractStatus :: "fields \<Rightarrow> string option" where
  "extractStatus entry =
     (case fget entry ''status'' of
        JStr s \<Rightarrow> Some (js_lower s)
      | _ \<Rightarrow> (case fget entry ''verdict'' of JStr v \<Rightarrow> Some (js_lower v) | _ \<Rightarrow> None))"

text \<open>The status of one entry: its status text, else the legacy \<open>passed\<close> flag.\<close>

definition entry_status :: "fields \<Rightarrow> string option" where
  "entry_status entry =
     (case extractStatus entry of
        Some st \<Rightarrow> Some st
      | None \<Rightarrow> (case fget entry ''passed'' of
            JBool b \<Rightarrow> Some (if b then ''passed'' else ''failed'')
          | _ \<Rightarrow> None))"

type_synonym review_status = "string \<times> string"

definition nested_statuses :: "string \<Rightarrow> fields \<Rightarrow> review_status list" where
  "nested_statuses key entry =
     List.map_filter (\<lambda>(subKey, sub).
       Option.bind (as_object sub) (\<lambda>s.
         map_option (\<lambda>st. (key @ ''.'' @ subKey, st)) (entry_status s))) entry"

definition statuses_of :: "string \<times> js \<Rightarrow> review_status list" where
  "statuses_of kv =
     (case as_object (snd kv) of
        None \<Rightarrow> []
      | Some entry \<Rightarrow>
          (case entry_status entry of
             Some st \<Rightarrow> [(fst kv, st)]
           | None \<Rightarrow> nested_statuses (fst kv) entry))"

definition collectReviewStatuses :: "fields \<Rightarrow> review_status list" where
  "collectReviewStatuses reviews = concat (map statuses_of reviews)"

definition not_passed :: "review_status list \<Rightarrow> review_status list" where
  "not_passed statuses = filter (\<lambda>s. snd s \<notin> set PASSED_STATUSES) statuses"

definition UNSAFE_KEYS :: "string list" where
  "UNSAFE_KEYS = [''__proto__'', ''prototype'', ''constructor'']"

definition pass_status :: js where
  "pass_status = obj1 ''status'' (JStr ''pass'')"

text \<open>The cursor walk of \<open>buildFailedReviewsExpectedShape\<close> for the segments of one path.\<close>

fun put_pass :: "string list \<Rightarrow> fields \<Rightarrow> fields" where
  "put_pass [] cursor = cursor"
| "put_pass [leaf] cursor =
     (if leaf \<in> set UNSAFE_KEYS then cursor else AList.update leaf pass_status cursor)"
| "put_pass (key # p # ps) cursor =
     (if key \<in> set UNSAFE_KEYS then cursor
      else AList.update key
             (JObj (put_pass (p # ps)
               (case fget cursor key of JObj branch \<Rightarrow> branch | _ \<Rightarrow> []))) cursor)"

definition failed_review_entries :: "review_status list \<Rightarrow> fields" where
  "failed_review_entries notPassed =
     fold (\<lambda>s entries. put_pass (split_on (CHR ''.'') (fst s)) entries) notPassed []"

definition buildFailedReviewsExpectedShape :: "review_status list \<Rightarrow> js" where
  "buildFailedReviewsExpectedShape notPassed =
     obj1 ''reviews'' (JObj (failed_review_entries notPassed))"

text \<open>The list \<open>path (status: "x"), ...\<close> of the failure messages.\<close>

definition show_statuses :: "review_status list \<Rightarrow> string" where
  "show_statuses ss =
     join_with '', '' (map (\<lambda>s. fst s @ '' (status: '' @ dquote @ snd s @ dquote @ '')'') ss)"

definition DEFAULT_MAX_PLAN_REVISIONS :: rat where
  "DEFAULT_MAX_PLAN_REVISIONS = 1"

definition MAX_SYNTHESIZE_RETRIES :: rat where
  "MAX_SYNTHESIZE_RETRIES = 3"

definition hasSynthesizeRequestEvent :: "fields \<Rightarrow> bool" where
  "hasSynthesizeRequestEvent state \<longleftrightarrow>
     (\<exists>e \<in> set (readRecordArrayField state ''_events'').
        fget e ''type'' = JStr ''synthesize.requested'')"

datatype synthesis_policy = Always | Never | OnRequest

definition readSynthesisPolicy :: "fields \<Rightarrow> synthesis_policy" where
  "readSynthesisPolicy state =
     (let raw = oget (readObjectField state ''oneshot'') ''synthesisPolicy''
      in if raw = JStr ''always'' then Always
         else if raw = JStr ''never'' then Never
         else OnRequest)"

end
