(* ===== verification/Guard_Table.thy ===== *)
theory Guard_Table
  imports Guards
begin

text \<open>
  The members of the \<open>guards\<close> table of \<open>src/workflow/guards.ts\<close>, in the order of the source, with
  the condition under which each passes. The table is the only place that decides a phase edge.
\<close>

section \<open>The table\<close>

definition designArtifactExists :: guard where
  [guard_defs]: "designArtifactExists = makeArtifactGuard ''design'' ''Design artifact must exist'' None"

definition planArtifactExists :: guard where
  [guard_defs]: "planArtifactExists = makeArtifactGuard ''plan'' ''Plan artifact must exist'' None"

definition all_tasks_shape :: js where
  "all_tasks_shape =
     obj1 ''tasks'' (JArr [JObj [(''id'', JStr ''<task-id>''), (''status'', JStr ''complete'')]])"

definition incomplete_tasks :: "js list \<Rightarrow> js list" where
  "incomplete_tasks tasks = filter (\<lambda>t. readStringField t ''status'' \<noteq> Some ''complete'') tasks"

definition allTasksComplete_eval :: "fields \<Rightarrow> guard_result" where
  "allTasksComplete_eval state =
     (let rawTasks = fget state ''tasks'' in
      if is_nullish rawTasks then GPass
      else (case rawTasks of
        JArr tasks \<Rightarrow>
          if tasks = [] then GPass
          else
            (let incomplete = incomplete_tasks tasks in
             if incomplete = [] then GPass
             else
               (let ids = map (\<lambda>t. case readStringField t ''id'' of
                               None \<Rightarrow> ''<task-id>'' | Some i \<Rightarrow> i) incomplete
                in mk_fail
                  (''all-tasks-complete not satisfied: '' @ nat_str (length incomplete) @
                   '' task(s) incomplete ('' @ join_with '', '' ids @
                   ''). Only task_complete or settle marks a task complete. '' @
                   ''Call exarchos_orchestrate task_complete for each task after its gates pass, or settle its batch.'')
                  (Some all_tasks_shape)
                  (Some \<lparr>fix_tool = ''exarchos_orchestrate'',
                         fix_params = [(''action'', JStr ''task_complete''),
                                       (''featureId'', JStr (featureId_of state)),
                                       (''taskId'', JStr (hd ids))]\<rparr>)))
      | _ \<Rightarrow> mk_fail
          (''all-tasks-complete not satisfied: state.tasks must be an array of tasks (got '' @
           js_typeof rawTasks @ '') '' @ em_dash @ '' task completion cannot be verified'')
          (Some all_tasks_shape) None))"

definition allTasksComplete :: guard where
  [guard_defs]: "allTasksComplete =
     pure_guard ''all-tasks-complete'' ''All tasks must be complete'' allTasksComplete_eval"

text \<open>The required dimensions that count as missing, in the order of the requirement.\<close>

definition missing_key :: "fields \<Rightarrow> js \<Rightarrow> string option" where
  "missing_key reviews rawKey =
     (case rawKey of
        JStr key \<Rightarrow>
          if key \<in> set UNSAFE_KEYS then Some key
          else (case fget reviews key of
              JObj entry \<Rightarrow>
                if extractStatus entry = None \<and> js_typeof (fget entry ''passed'') \<noteq> ''boolean''
                then Some key else None
            | _ \<Rightarrow> Some key)
      | _ \<Rightarrow> Some (js_string rawKey))"

definition required_reviews :: "fields \<Rightarrow> js list" where
  "required_reviews state = (case fget state ''_requiredReviews'' of JArr ks \<Rightarrow> ks | _ \<Rightarrow> [])"

definition missing_reviews :: "fields \<Rightarrow> fields \<Rightarrow> string list" where
  "missing_reviews state reviews = List.map_filter (missing_key reviews) (required_reviews state)"

definition missing_reasons :: "string list \<Rightarrow> string list" where
  "missing_reasons missing =
     (if missing = [] then []
      else [''Missing required review dimensions: '' @ join_with '', '' missing @
            ''. Run the review skills for these dimensions before transitioning.''])"

definition not_passed_reasons :: "review_status list \<Rightarrow> string list" where
  "not_passed_reasons np =
     (if np = [] then [] else [''Reviews not passed: '' @ show_statuses np])"

definition block_suffix :: string where
  "block_suffix = ''(review.mutationEnforcement: block)''"

definition mutation_dim :: "fields \<Rightarrow> fields option" where
  "mutation_dim reviews = readObjectField reviews ''mutation-adequacy''"

text \<open>The score axis: it needs \<open>block\<close> mode and a finite threshold.\<close>

definition score_reasons :: "fields \<Rightarrow> fields \<Rightarrow> string list" where
  "score_reasons state reviews =
     (case (fget state ''_mutationEnforcement'', fget state ''_mutationThreshold'') of
        (JStr mode, JNum (Fin threshold)) \<Rightarrow>
          if mode \<noteq> ''block'' then []
          else (case mutation_dim reviews of
              None \<Rightarrow> []
            | Some mdim \<Rightarrow>
                if fget mdim ''degraded'' = JBool True then
                  [''mutation-adequacy gate degraded (runner failed or emitted an unparseable '' @
                   ''report) and produced no verifiable score '' @ block_suffix]
                else if fget mdim ''skipped'' = JBool True then []
                else (case fget mdim ''mutationScore'' of
                    JNum score \<Rightarrow>
                      if \<not> is_finite_num score then
                        [''mutation-adequacy produced a non-finite score (unverifiable) '' @ block_suffix]
                      else if num_less score (Fin threshold) then
                        [''mutation-adequacy score '' @ num_str score @
                         '' is below the enforced threshold '' @ num_str (Fin threshold) @ '' '' @
                         block_suffix]
                      else []
                  | _ \<Rightarrow> []))
      | _ \<Rightarrow> [])"

definition nat_valued :: "js \<Rightarrow> bool" where
  "nat_valued v = (case v of JNum n \<Rightarrow> is_integer_num n \<and> \<not> num_less n (Fin 0) | _ \<Rightarrow> False)"

text \<open>The NoCoverage axis: it needs \<open>block\<close> mode and a non-negative integer budget.\<close>

definition coverage_reasons :: "fields \<Rightarrow> fields \<Rightarrow> string list" where
  "coverage_reasons state reviews =
     (case (fget state ''_mutationEnforcement'', fget state ''_maxNoCoverage'') of
        (JStr mode, JNum budget) \<Rightarrow>
          if mode \<noteq> ''block'' \<or> \<not> nat_valued (JNum budget) then []
          else (case mutation_dim reviews of
              None \<Rightarrow> []
            | Some mdim \<Rightarrow>
                if fget mdim ''skipped'' = JBool True \<or> fget mdim ''degraded'' = JBool True then []
                else (case fget mdim ''noCoverage'' of
                    JNum n \<Rightarrow>
                      if \<not> nat_valued (JNum n) then
                        [''mutation-adequacy produced no verifiable NoCoverage count '' @ block_suffix]
                      else if num_less budget n then
                        [''mutation-adequacy has '' @ num_str n @ '' uncovered (NoCoverage) mutant(s), '' @
                         ''exceeding the enforced budget of '' @ num_str budget @ '' '' @ block_suffix]
                      else []
                  | _ \<Rightarrow> [''mutation-adequacy produced no verifiable NoCoverage count '' @ block_suffix]))
      | _ \<Rightarrow> [])"

text \<open>The expected shape and the fix payload that the failure of \<open>allReviewsPassed\<close> accumulates.\<close>

definition expected_reviews :: "string list \<Rightarrow> review_status list \<Rightarrow> fields" where
  "expected_reviews missing np =
     spread (fold (\<lambda>k acc. if k \<in> set UNSAFE_KEYS then acc else AList.update k pass_status acc) missing [])
       (failed_review_entries np)"

definition review_updates :: "string list \<Rightarrow> review_status list \<Rightarrow> fields" where
  "review_updates missing np =
     fold (\<lambda>s acc.
         if \<exists>seg \<in> set (split_on (CHR ''.'') (fst s)). seg \<in> set UNSAFE_KEYS then acc
         else AList.update (''reviews.'' @ fst s @ ''.status'') (JStr ''pass'') acc) np
       (fold (\<lambda>k acc.
         if k \<in> set UNSAFE_KEYS then acc
         else AList.update (''reviews.'' @ k @ ''.status'') (JStr ''pass'') acc) missing [])"

definition allReviewsPassed_reasons :: "fields \<Rightarrow> fields \<Rightarrow> string list" where
  "allReviewsPassed_reasons state reviews =
     missing_reasons (missing_reviews state reviews) @
     not_passed_reasons (not_passed (collectReviewStatuses reviews)) @
     score_reasons state reviews @ coverage_reasons state reviews"

definition allReviewsPassed_eval :: "fields \<Rightarrow> guard_result" where
  "allReviewsPassed_eval state =
     (case readObjectField state ''reviews'' of
        None \<Rightarrow> mk_fail
          (''state.reviews is missing '' @ em_dash @
           '' set reviews.{name} with status: '' @ dquote @ ''pass'' @ dquote @ '' or '' @ dquote @ ''approved'' @ dquote)
          (Some REVIEW_EXPECTED_SHAPE) None
      | Some reviews \<Rightarrow>
          (let missing = missing_reviews state reviews;
               statuses = collectReviewStatuses reviews;
               np = not_passed statuses;
               reasons = allReviewsPassed_reasons state reviews;
               updates = review_updates missing np
           in if statuses = [] \<and> missing = [] then
                mk_fail
                  (''state.reviews has no recognizable review entries '' @ em_dash @
                   '' each review needs a status field ('' @ dquote @ ''pass'' @ dquote @ '', '' @ dquote @ ''approved'' @ dquote @ '', '' @ dquote @ ''fail'' @ dquote @ '', '' @ dquote @ ''needs_fixes'' @ dquote @ '')'')
                  (Some REVIEW_EXPECTED_SHAPE) None
              else if reasons = [] then GPass
              else mk_fail (join_with '' | '' reasons)
                (Some (obj1 ''reviews'' (JObj (expected_reviews missing np))))
                (if updates = [] then None else update_fix state updates)))"

definition allReviewsPassed :: guard where
  [guard_defs]: "allReviewsPassed =
     pure_guard ''all-reviews-passed'' ''All required reviews must be present and have passed''
       allReviewsPassed_eval"

definition anyReviewFailed_eval :: "fields \<Rightarrow> guard_result" where
  "anyReviewFailed_eval state =
     (case readObjectField state ''reviews'' of
        None \<Rightarrow> mk_fail
          (''state.reviews is missing '' @ em_dash @ '' cannot determine if any review failed'')
          (Some REVIEW_EXPECTED_SHAPE) None
      | Some reviews \<Rightarrow>
          (let statuses = collectReviewStatuses reviews in
           if statuses = [] then
             mk_fail ''state.reviews has no recognizable review entries''
               (Some REVIEW_EXPECTED_SHAPE) None
           else if \<exists>s \<in> set statuses. snd s \<in> set FAILED_STATUSES then GPass
           else mk_fail (''No failed reviews found: '' @ show_statuses statuses) None None))"

definition anyReviewFailed :: guard where
  [guard_defs]: "anyReviewFailed =
     pure_guard ''any-review-failed'' ''At least one review must have failed'' anyReviewFailed_eval"

definition prUrlExists :: guard where
  [guard_defs]: "prUrlExists =
     pure_guard ''pr-url-exists'' ''PR URL must exist'' (\<lambda>state.
       if \<not> is_nullish (oget (readObjectField state ''synthesis'') ''prUrl'') then GPass
       else if \<not> is_nullish (oget (readObjectField state ''artifacts'') ''pr'') then GPass
       else mk_fail ''pr-url-exists not satisfied: synthesis.prUrl or artifacts.pr must be set''
         (Some (obj1 ''synthesis'' (obj1 ''prUrl'' (JStr ''<pr-url>''))))
         (update_fix state [(''synthesis'', obj1 ''prUrl'' (JStr ''<pr-url>''))]))"

definition humanUnblocked :: guard where
  [guard_defs]: "humanUnblocked =
     pure_guard ''human-unblocked'' ''Human must have unblocked the workflow'' (\<lambda>state.
       if fget state ''unblocked'' = JBool True then GPass
       else mk_fail ''human-unblocked not satisfied: set state.unblocked to true''
         (Some (obj1 ''unblocked'' (JBool True)))
         (update_fix state [(''unblocked'', JBool True)]))"

definition triageComplete :: guard where
  [guard_defs]: "triageComplete =
     pure_guard ''triage-complete'' ''Triage must be complete'' (\<lambda>state.
       if \<not> is_nullish (oget (readObjectField state ''triage'') ''symptom'') then GPass
       else mk_fail ''triage-complete not satisfied''
         (Some (obj1 ''triage'' (obj1 ''symptom'' (JStr ''<description>'')))) None)"

definition rootCauseFound :: guard where
  [guard_defs]: "rootCauseFound =
     pure_guard ''root-cause-found'' ''Root cause must be identified'' (\<lambda>state.
       if \<not> is_nullish (oget (readObjectField state ''investigation'') ''rootCause'') then GPass
       else mk_fail ''root-cause-found not satisfied''
         (Some (obj1 ''investigation'' (obj1 ''rootCause'' (JStr ''<description>'')))) None)"

text \<open>The four track guards share one shape, with the track, the id and the description as their data.\<close>

definition trackSelected :: "string \<Rightarrow> string \<Rightarrow> string \<Rightarrow> guard" where
  "trackSelected t i description =
     pure_guard i description (\<lambda>state.
       if fget state ''track'' = JStr t then GPass
       else
         (let raw = fget state ''track'';
              cur = (if is_nullish raw then JUndef else raw)
          in mk_fail
            (i @ '' not satisfied: state.track must be '' @ [CHR 0x27] @ t @ [CHR 0x27] @
             '' (current: '' @ json_text cur @ '')'')
            (Some (obj1 ''track'' (JStr t)))
            (update_fix state [(''track'', JStr t)])))"

definition hotfixTrackSelected :: guard where
  [guard_defs]: "hotfixTrackSelected = trackSelected ''hotfix'' ''hotfix-track-selected'' ''Hotfix track must be selected''"

definition thoroughTrackSelected :: guard where
  [guard_defs]: "thoroughTrackSelected = trackSelected ''thorough'' ''thorough-track-selected'' ''Thorough track must be selected''"

definition rcaDocumentComplete :: guard where
  [guard_defs]: "rcaDocumentComplete = makeArtifactGuard ''rca'' ''RCA document must be complete'' (Some ''rca-document-complete'')"

definition fixDesignComplete :: guard where
  [guard_defs]: "fixDesignComplete = makeArtifactGuard ''fixDesign'' ''Fix design must be complete'' (Some ''fix-design-complete'')"

definition implementationComplete :: guard where
  [guard_defs]: "implementationComplete =
     pure_guard ''implementation-complete'' ''Implementation must be complete'' (\<lambda>_. GPass)"

definition validationPassed :: guard where
  [guard_defs]: "validationPassed =
     pure_guard ''validation-passed'' ''Validation must have passed'' (\<lambda>state.
       if oget (readObjectField state ''validation'') ''testsPass'' = JBool True then GPass
       else mk_fail ''validation-passed not satisfied''
         (Some (obj1 ''validation'' (obj1 ''testsPass'' (JBool True)))) None)"

definition reviewPassed_eval :: "fields \<Rightarrow> guard_result" where
  "reviewPassed_eval state =
     (case readObjectField state ''reviews'' of
        None \<Rightarrow> mk_fail
          (''state.reviews is missing '' @ em_dash @
           '' set reviews.{name} with status: '' @ dquote @ ''pass'' @ dquote @ '' or '' @ dquote @ ''approved'' @ dquote)
          (Some REVIEW_EXPECTED_SHAPE) None
      | Some reviews \<Rightarrow>
          (let statuses = collectReviewStatuses reviews; np = not_passed statuses in
           if statuses = [] then
             mk_fail
               (''state.reviews has no recognizable review entries '' @ em_dash @
                '' each review needs a status field'')
               (Some REVIEW_EXPECTED_SHAPE) None
           else if np \<noteq> [] then
             mk_fail (''Reviews not passed: '' @ show_statuses np)
               (Some (buildFailedReviewsExpectedShape np)) None
           else GPass))"

definition reviewPassed :: guard where
  [guard_defs]: "reviewPassed =
     pure_guard ''review-passed'' ''Review must have passed'' reviewPassed_eval"

definition scopeAssessmentComplete :: guard where
  [guard_defs]: "scopeAssessmentComplete =
     pure_guard ''scope-assessment-complete'' ''Scope assessment must be complete'' (\<lambda>state.
       if \<not> is_nullish (oget (readObjectField state ''explore'') ''scopeAssessment'') then GPass
       else if \<not> is_nullish (fget state ''scopeAssessment'') then GPass
       else mk_fail ''scope-assessment-complete not satisfied''
         (Some (obj1 ''explore'' (obj1 ''scopeAssessment'' (JStr ''<assessment>'')))) None)"

definition briefComplete :: guard where
  [guard_defs]: "briefComplete =
     pure_guard ''brief-complete'' ''Brief must be complete'' (\<lambda>state.
       if \<not> is_nullish (oget (readObjectField state ''brief'') ''goals'') then GPass
       else mk_fail ''brief-complete not satisfied''
         (Some (obj1 ''brief'' (obj1 ''goals'' (JStr ''<goals-array-or-description>'')))) None)"

definition polishTrackSelected :: guard where
  [guard_defs]: "polishTrackSelected = trackSelected ''polish'' ''polish-track-selected'' ''Polish track must be selected''"

definition overhaulTrackSelected :: guard where
  [guard_defs]: "overhaulTrackSelected = trackSelected ''overhaul'' ''overhaul-track-selected'' ''Overhaul track must be selected''"

definition docsUpdated :: guard where
  [guard_defs]: "docsUpdated =
     pure_guard ''docs-updated'' ''Documentation must be updated'' (\<lambda>state.
       if oget (readObjectField state ''validation'') ''docsUpdated'' = JBool True then GPass
       else mk_fail ''docs-updated not satisfied''
         (Some (obj1 ''validation'' (obj1 ''docsUpdated'' (JBool True)))) None)"

definition goalsVerified :: guard where
  [guard_defs]: "goalsVerified =
     pure_guard ''goals-verified'' ''Refactor goals must be verified'' (\<lambda>state.
       if oget (readObjectField state ''validation'') ''testsPass'' = JBool True then GPass
       else mk_fail ''goals-verified not satisfied''
         (Some (obj1 ''validation'' (obj1 ''testsPass'' (JBool True)))) None)"

definition planReviewComplete :: guard where
  [guard_defs]: "planReviewComplete =
     pure_guard ''plan-review-complete'' ''Plan review must be complete with no gaps'' (\<lambda>state.
       if oget (readObjectField state ''planReview'') ''approved'' = JBool True then GPass
       else mk_fail ''plan-review-complete not satisfied: planReview.approved must be true''
         (Some (obj1 ''planReview'' (obj1 ''approved'' (JBool True)))) (update_fix state [(''planReview'', obj1 ''approved'' (JBool True))]))"

definition planReviewGapsFound :: guard where
  [guard_defs]: "planReviewGapsFound =
     pure_guard ''plan-review-gaps-found'' ''Plan review found coverage gaps'' (\<lambda>state.
       if oget (readObjectField state ''planReview'') ''gapsFound'' = JBool True then GPass
       else mk_fail ''plan-review-gaps-found not satisfied: planReview.gapsFound must be true''
         (Some (obj1 ''planReview'' (obj1 ''gapsFound'' (JBool True)))) None)"

definition mergeVerified :: guard where
  [guard_defs]: "mergeVerified =
     pure_guard ''merge-verified'' ''Merge must be verified by the orchestrator before cleanup''
       (\<lambda>state.
         case readObjectField state ''_cleanup'' of
           None \<Rightarrow> mk_fail
             (''Cleanup requires mergeVerified flag '' @ em_dash @
              '' verify PRs are merged via GitHub API before invoking cleanup'') None None
         | Some cleanup \<Rightarrow>
             if fget cleanup ''mergeVerified'' \<noteq> JBool True then
               mk_fail
                 (''Cleanup requires mergeVerified flag '' @ em_dash @
                  '' verify PRs are merged via GitHub API before invoking cleanup'') None None
             else GPass)"

definition has_event :: "fields \<Rightarrow> string \<Rightarrow> bool" where
  "has_event state t \<longleftrightarrow>
     (\<exists>e \<in> set (readRecordArrayField state ''_events''). fget e ''type'' = JStr t)"

definition team_data :: "js \<Rightarrow> js \<Rightarrow> js \<Rightarrow> js" where
  "team_data a b c =
     JObj [(''totalDurationMs'', a), (''tasksCompleted'', b), (''tasksFailed'', c)]"

definition teamDisbandedEmitted :: guard where
  [guard_defs]: "teamDisbandedEmitted =
     pure_guard ''team-disbanded-emitted''
       ''Team must be disbanded before transitioning out of delegation'' (\<lambda>state.
       if \<not> has_event state ''team.spawned'' then GPass
       else if has_event state ''team.disbanded'' then GPass
       else mk_fail ''team-disbanded-emitted not satisfied: team.disbanded event not found in _events''
         (Some (JObj [(''type'', JStr ''team.disbanded''),
                      (''data'', team_data (JStr ''number'') (JStr ''number'') (JStr ''number''))]))
         (Some \<lparr>fix_tool = ''exarchos_event'',
                fix_params = [(''action'', JStr ''append''),
                              (''featureId'', JStr (featureId_of state)),
                              (''type'', JStr ''team.disbanded''),
                              (''data'', team_data (JInt 0) (JInt 0) (JInt 0))]\<rparr>))"

definition one_page_plan :: js where
  "one_page_plan = JStr ''<one-page plan contents or path>''"

definition right_arrow :: string where
  "right_arrow = [CHR 0xE2, CHR 0x86, CHR 0x92]"

definition backtick :: string where
  "backtick = [CHR 0x60]"

definition oneshotPlanSet :: guard where
  [guard_defs]: "oneshotPlanSet =
     pure_guard ''oneshot-plan-set''
       (''Oneshot workflow plan artifact is captured in state.artifacts.plan as a non-empty string '' @
        ''(plan contents or path). '' @ backtick @ ''oneshot.planSummary'' @ backtick @
        '' is a pipeline-view hint, not a plan, and is not sufficient alone to transition plan '' @
        right_arrow @ '' implementing.'') (\<lambda>state.
       if isTypedArtifactReference (oget (readObjectField state ''artifacts'') ''plan'') then GPass
       else mk_fail
         (''oneshot-plan-set not satisfied: state.artifacts.plan is required (a non-empty string of '' @
          ''plan contents or a plan path) before transitioning plan '' @ right_arrow @
          '' implementing. '' @ backtick @ ''oneshot.planSummary'' @ backtick @
          '' alone does not satisfy this guard, and non-string values (true, objects, numbers) '' @
          ''are not accepted.'')
         (Some (obj1 ''artifacts'' (obj1 ''plan'' one_page_plan)))
         (update_fix state [(''artifacts.plan'', one_page_plan)]))"

definition synthesisOptedIn_eval :: "fields \<Rightarrow> guard_result" where
  "synthesisOptedIn_eval state =
     (case readSynthesisPolicy state of
        Always \<Rightarrow> GPass
      | Never \<Rightarrow> mk_fail
          ''synthesis-opted-in not satisfied: synthesisPolicy=never (direct-commit path)'' None None
      | OnRequest \<Rightarrow>
          if hasSynthesizeRequestEvent state then GPass
          else mk_fail
            (''synthesis-opted-in not satisfied: synthesisPolicy=on-request but no '' @
             ''synthesize.requested event in _events'')
            (Some (JObj [(''type'', JStr ''synthesize.requested''),
                         (''data'', JObj [(''featureId'', JStr ''<featureId>''),
                                          (''timestamp'', JStr ''<ISO-8601>'')])]))
            (Some \<lparr>fix_tool = ''exarchos_orchestrate'',
                   fix_params = [(''action'', JStr ''request_synthesize''),
                                 (''featureId'', JStr (featureId_of state))]\<rparr>))"

definition synthesisOptedIn :: guard where
  [guard_defs]: "synthesisOptedIn =
     pure_guard ''synthesis-opted-in''
       (''Oneshot workflow opted into synthesis: synthesisPolicy=always OR a synthesize.requested '' @
        ''event has been emitted on an on-request policy'') synthesisOptedIn_eval"

definition synthesisOptedOut_eval :: "fields \<Rightarrow> guard_result" where
  "synthesisOptedOut_eval state =
     (case readSynthesisPolicy state of
        Never \<Rightarrow> GPass
      | Always \<Rightarrow> mk_fail
          ''synthesis-opted-out not satisfied: synthesisPolicy=always (synthesize path)'' None None
      | OnRequest \<Rightarrow>
          if \<not> hasSynthesizeRequestEvent state then GPass
          else mk_fail
            (''synthesis-opted-out not satisfied: synthesisPolicy=on-request with a '' @
             ''synthesize.requested event present '' @ em_dash @ '' opted into synthesis'') None None)"

definition synthesisOptedOut :: guard where
  [guard_defs]: "synthesisOptedOut =
     pure_guard ''synthesis-opted-out''
       (''Oneshot workflow opted out of synthesis: synthesisPolicy=never OR an on-request policy '' @
        ''with no synthesize.requested event (direct-commit path)'') synthesisOptedOut_eval"

definition escalationRequired :: guard where
  [guard_defs]: "escalationRequired =
     pure_guard ''escalation-required'' ''Investigation determined fix requires architectural redesign'' (\<lambda>state.
       if oget (readObjectField state ''investigation'') ''escalate'' = JBool True then GPass
       else mk_fail ''escalation-required not satisfied''
         (Some (obj1 ''investigation'' (obj1 ''escalate'' (JBool True)))) None)"

definition revision_cap :: "fields \<Rightarrow> rat" where
  "revision_cap state =
     (case fget state ''_maxPlanRevisions'' of
        JNum (Fin cap) \<Rightarrow> cap | _ \<Rightarrow> DEFAULT_MAX_PLAN_REVISIONS)"

definition event_values :: "fields \<Rightarrow> js list" where
  "event_values state = map JObj (readRecordArrayField state ''_events'')"

definition revisionsExhausted :: guard where
  [guard_defs]: "revisionsExhausted =
     pure_guard ''revisions-exhausted'' ''Plan revision count has reached the maximum allowed''
       (\<lambda>state.
         let count = revisions (tallyPlanRevisions (event_values state));
             cap = revision_cap state
         in if planRevisionCapReached count cap then GPass
            else mk_fail
              (''revisions-exhausted not satisfied: '' @ num_str (Fin (of_int count)) @ ''/'' @
               num_str (Fin cap) @ '' revisions'') None None)"

definition prRequested :: guard where
  [guard_defs]: "prRequested =
     pure_guard ''pr-requested'' ''PR creation has been requested'' (\<lambda>state.
       if oget (readObjectField state ''synthesis'') ''requested'' = JBool True then GPass
       else mk_fail ''pr-requested not satisfied''
         (Some (obj1 ''synthesis'' (obj1 ''requested'' (JBool True)))) None)"

definition synthesize_retries :: "fields option \<Rightarrow> rat" where
  "synthesize_retries synthesis =
     (case oget synthesis ''retryCount'' of JNum (Fin n) \<Rightarrow> n | _ \<Rightarrow> 0)"

definition synthesizeRetryable :: guard where
  [guard_defs]: "synthesizeRetryable =
     pure_guard ''synthesize-retryable'' ''Synthesis can be retried (has error and retries remaining)''
       (\<lambda>state.
         let synthesis = readObjectField state ''synthesis'' in
         if is_nullish (oget synthesis ''lastError'') then
           mk_fail ''synthesize-retryable not satisfied: no lastError recorded'' None None
         else
           (let retryCount = synthesize_retries synthesis in
            if MAX_SYNTHESIZE_RETRIES \<le> retryCount then
              mk_fail
                (''synthesize-retryable not satisfied: '' @ num_str (Fin retryCount) @ ''/'' @
                 num_str (Fin MAX_SYNTHESIZE_RETRIES) @ '' retries exhausted'') None None
            else GPass))"

definition fixVerifiedDirectly :: guard where
  [guard_defs]: "fixVerifiedDirectly =
     pure_guard ''fix-verified-directly'' ''Fix was pushed directly to main without PR'' (\<lambda>state.
       let resolution = readObjectField state ''resolution'' in
       if oget resolution ''directPush'' = JBool True \<and> \<not> is_nullish (oget resolution ''commitSha'')
       then GPass
       else mk_fail
         (''fix-verified-directly not satisfied: resolution.directPush and '' @
          ''resolution.commitSha required'')
         (Some (obj1 ''resolution'' (JObj [(''directPush'', JBool True),
                                           (''commitSha'', JStr ''<commit-sha>'')]))) None)"

definition sourcesCollected :: guard where
  [guard_defs]: "sourcesCollected =
     pure_guard ''sources-collected'' ''Research sources must be collected'' (\<lambda>state.
       case oget (readObjectField state ''artifacts'') ''sources'' of
         JArr (x # xs) \<Rightarrow> GPass
       | _ \<Rightarrow> mk_fail ''sources-collected not satisfied: artifacts.sources must be a non-empty array''
           (Some (obj1 ''artifacts'' (obj1 ''sources'' (JArr [JStr ''<source-path-or-url>'']))))
           (update_fix state [(''artifacts.sources'', JArr [JStr ''<source>''])]))"

definition reportArtifactExists :: guard where
  [guard_defs]: "reportArtifactExists = makeArtifactGuard ''report'' ''Report artifact must exist'' None"

definition always :: guard where
  [guard_defs]: "always = pure_guard ''always'' ''Always passes'' (\<lambda>_. GPass)"

end
