(* ===== verification/Verification_Policy.thy ===== *)
theory Verification_Policy
  imports Js_Value
begin

text \<open>
  The gate policy tables and their resolvers: the verification ladder
  (\<open>src/workflow/verification-policy.ts\<close> and \<open>verification-policy-resolver.ts\<close>), the
  plan-depth ladder (\<open>plan-depth-policy.ts\<close>) and the review roster (\<open>review-contract.ts\<close>).
  Two interfaces carry the proofs: \<open>ranked_join\<close> for the joins by danger rank and
  \<open>gate_ladder\<close> for tables whose gate sequence grows along a total order.
\<close>

section \<open>Interfaces\<close>

text \<open>A join that keeps the argument of higher rank, the first one on a tie.\<close>

locale ranked_join =
  fixes rank :: "'a \<Rightarrow> nat"
    and join :: "'a \<Rightarrow> 'a \<Rightarrow> 'a"
  assumes rank_inj: "rank a = rank b \<Longrightarrow> a = b"
    and join_rank: "join a b = (if rank b \<le> rank a then a else b)"
begin

lemma rank_join: "rank (join a b) = max (rank a) (rank b)"
  by (simp add: join_rank)

lemma join_eqI: "rank (join a b) = rank c \<Longrightarrow> join a b = c"
  by (rule rank_inj)

lemma join_idem [simp]: "join a a = a"
  by (rule join_eqI) (simp add: rank_join)

lemma join_comm: "join a b = join b a"
  by (rule join_eqI) (simp add: rank_join max.commute)

lemma join_assoc: "join (join a b) c = join a (join b c)"
  by (rule join_eqI) (simp add: rank_join max.assoc)

lemma join_upper: "rank a \<le> rank (join a b)" "rank b \<le> rank (join a b)"
  by (simp_all add: rank_join)

lemma join_least: "rank a \<le> n \<Longrightarrow> rank b \<le> n \<Longrightarrow> rank (join a b) \<le> n"
  by (simp add: rank_join)

lemma join_cases: "join a b = a \<or> join a b = b"
  by (simp add: join_rank)

lemma join_top: "(\<And>c. rank c \<le> rank t) \<Longrightarrow> join a t = t"
  by (rule join_eqI) (simp add: rank_join)

end

text \<open>The join is a semilattice operation of the library.\<close>

sublocale ranked_join \<subseteq> sl: semilattice join
  by unfold_locales (rule join_assoc, rule join_comm, rule join_idem)

text \<open>A gate sequence that only grows, in order, along a total order of strictness.\<close>

locale gate_ladder =
  fixes seq :: "'r::linorder \<Rightarrow> 'g list"
  assumes seq_distinct: "distinct (seq r)"
    and seq_mono: "r \<le> r' \<Longrightarrow> subseq (seq r) (seq r')"
begin

lemma gates_mono: "r \<le> r' \<Longrightarrow> set (seq r) \<subseteq> set (seq r')"
  using set_nths_subset by (force dest: seq_mono simp: subseq_conv_nths)

lemma gates_max: "set (seq (max r r')) = set (seq r) \<union> set (seq r')"
  using gates_mono [of r r'] gates_mono [of r' r] linear [of r r'] by (auto simp: max_def)

lemma length_mono: "r \<le> r' \<Longrightarrow> length (seq r) \<le> length (seq r')"
  by (meson seq_mono list_emb_length)

end

locale strict_ladder = gate_ladder +
  assumes seq_strict: "r < r' \<Longrightarrow> length (seq r) < length (seq r')"
begin

lemma seq_inj: "seq r = seq r' \<longleftrightarrow> r = r'"
  using seq_strict [of r r'] seq_strict [of r' r] by (cases r r' rule: linorder_cases) auto

lemma gates_strict: "r < r' \<Longrightarrow> set (seq r) \<subset> set (seq r')"
  using seq_strict [of r r'] gates_mono [of r r'] seq_distinct [of r] seq_distinct [of r']
  by (metis card_mono distinct_card less_imp_le linorder_not_le List.finite_set psubsetI subset_refl)

end

section \<open>Risk tiers and boundaries\<close>

datatype risk_tier = Low | Medium | High

definition RISK_TIER_RANK :: "risk_tier \<Rightarrow> nat" where
  "RISK_TIER_RANK t = (case t of Low \<Rightarrow> 0 | Medium \<Rightarrow> 1 | High \<Rightarrow> 2)"

definition risk_tier_str :: "risk_tier \<Rightarrow> string" where
  "risk_tier_str t = (case t of Low \<Rightarrow> ''low'' | Medium \<Rightarrow> ''medium'' | High \<Rightarrow> ''high'')"

text \<open>A tier resolved from untrusted state: a real tier or \<open>unknown\<close>.\<close>

datatype resolved_tier = Tier risk_tier | UnknownTier

definition RESOLVED_RISK_TIERS :: "resolved_tier list" where
  "RESOLVED_RISK_TIERS = [Tier Low, Tier Medium, Tier High, UnknownTier]"

definition RISK_TIER_DANGER_RANK :: "resolved_tier \<Rightarrow> nat" where
  "RISK_TIER_DANGER_RANK t =
     (case t of Tier Low \<Rightarrow> 0 | Tier Medium \<Rightarrow> 1 | Tier High \<Rightarrow> 2 | UnknownTier \<Rightarrow> 3)"

definition resolved_tier_str :: "resolved_tier \<Rightarrow> string" where
  "resolved_tier_str t = (case t of Tier r \<Rightarrow> risk_tier_str r | UnknownTier \<Rightarrow> ''unknown'')"

definition resolveRiskTier :: "js \<Rightarrow> resolved_tier" where
  "resolveRiskTier raw =
     (case raw of
        JStr s \<Rightarrow>
          if s = ''low'' then Tier Low
          else if s = ''medium'' then Tier Medium
          else if s = ''high'' then Tier High
          else UnknownTier
      | _ \<Rightarrow> UnknownTier)"

datatype boundary_status = NotTouching | Touching | Indeterminate

definition BOUNDARY_STATUSES :: "boundary_status list" where
  "BOUNDARY_STATUSES = [NotTouching, Touching, Indeterminate]"

definition BOUNDARY_DANGER_RANK :: "boundary_status \<Rightarrow> nat" where
  "BOUNDARY_DANGER_RANK b = (case b of NotTouching \<Rightarrow> 0 | Touching \<Rightarrow> 1 | Indeterminate \<Rightarrow> 2)"

definition boundary_str :: "boundary_status \<Rightarrow> string" where
  "boundary_str b =
     (case b of NotTouching \<Rightarrow> ''not-touching'' | Touching \<Rightarrow> ''touching''
              | Indeterminate \<Rightarrow> ''indeterminate'')"

definition normalizeBoundaryStatus :: "js \<Rightarrow> boundary_status" where
  "normalizeBoundaryStatus raw =
     (if raw = JBool True \<or> raw = JStr ''touching'' then Touching
      else if raw = JBool False \<or> raw = JStr ''not-touching'' then NotTouching
      else Indeterminate)"

definition boundaryStatusTouches :: "boundary_status \<Rightarrow> bool" where
  "boundaryStatusTouches status \<longleftrightarrow> status \<noteq> NotTouching"

definition resolveBoundaryTouching :: "js \<Rightarrow> bool" where
  "resolveBoundaryTouching raw = boundaryStatusTouches (normalizeBoundaryStatus raw)"

lemmas rank_defs [policy_defs] =
  RISK_TIER_RANK_def RISK_TIER_DANGER_RANK_def BOUNDARY_DANGER_RANK_def

lemma rank_injective:
  "RISK_TIER_RANK a = RISK_TIER_RANK b \<longleftrightarrow> a = b"
  "RISK_TIER_DANGER_RANK x = RISK_TIER_DANGER_RANK y \<longleftrightarrow> x = y"
  "BOUNDARY_DANGER_RANK p = BOUNDARY_DANGER_RANK q \<longleftrightarrow> p = q"
  by (simp_all add: rank_defs split: risk_tier.splits resolved_tier.splits boundary_status.splits)

text \<open>The orders of the source's rank tables, as instances of the library's order class.\<close>

instantiation risk_tier :: linorder
begin

definition less_eq_risk_tier :: "risk_tier \<Rightarrow> risk_tier \<Rightarrow> bool" where
  "a \<le> b \<longleftrightarrow> RISK_TIER_RANK a \<le> RISK_TIER_RANK b"

definition less_risk_tier :: "risk_tier \<Rightarrow> risk_tier \<Rightarrow> bool" where
  "a < b \<longleftrightarrow> RISK_TIER_RANK a < RISK_TIER_RANK b"

instance
  by standard (auto simp: less_eq_risk_tier_def less_risk_tier_def rank_injective)

end

instantiation resolved_tier :: linorder
begin

definition less_eq_resolved_tier :: "resolved_tier \<Rightarrow> resolved_tier \<Rightarrow> bool" where
  "a \<le> b \<longleftrightarrow> RISK_TIER_DANGER_RANK a \<le> RISK_TIER_DANGER_RANK b"

definition less_resolved_tier :: "resolved_tier \<Rightarrow> resolved_tier \<Rightarrow> bool" where
  "a < b \<longleftrightarrow> RISK_TIER_DANGER_RANK a < RISK_TIER_DANGER_RANK b"

instance
  by standard (auto simp: less_eq_resolved_tier_def less_resolved_tier_def rank_injective)

end

instantiation boundary_status :: linorder
begin

definition less_eq_boundary_status :: "boundary_status \<Rightarrow> boundary_status \<Rightarrow> bool" where
  "a \<le> b \<longleftrightarrow> BOUNDARY_DANGER_RANK a \<le> BOUNDARY_DANGER_RANK b"

definition less_boundary_status :: "boundary_status \<Rightarrow> boundary_status \<Rightarrow> bool" where
  "a < b \<longleftrightarrow> BOUNDARY_DANGER_RANK a < BOUNDARY_DANGER_RANK b"

instance
  by standard (auto simp: less_eq_boundary_status_def less_boundary_status_def rank_injective)

end

lemmas tier_order_defs =
  less_eq_risk_tier_def less_risk_tier_def less_eq_resolved_tier_def less_resolved_tier_def
  less_eq_boundary_status_def less_boundary_status_def

section \<open>The verification ladder\<close>

datatype gate_name =
    CheckStaticAnalysis
  | CheckTestAdequacy
  | CheckIntegrationSuite
  | CheckContractDrift
  | CheckMockBoundary

definition gate_name_str :: "gate_name \<Rightarrow> string" where
  "gate_name_str g =
     (case g of CheckStaticAnalysis \<Rightarrow> ''check_static_analysis''
              | CheckTestAdequacy \<Rightarrow> ''check_test_adequacy''
              | CheckIntegrationSuite \<Rightarrow> ''check_integration_suite''
              | CheckContractDrift \<Rightarrow> ''check_contract_drift''
              | CheckMockBoundary \<Rightarrow> ''check_mock_boundary'')"

definition BASE_SEQUENCE_BY_TIER :: "risk_tier \<Rightarrow> gate_name list" where
  "BASE_SEQUENCE_BY_TIER t =
     (case t of
        Low \<Rightarrow> [CheckStaticAnalysis]
      | Medium \<Rightarrow> [CheckStaticAnalysis, CheckTestAdequacy]
      | High \<Rightarrow> [CheckStaticAnalysis, CheckTestAdequacy, CheckIntegrationSuite])"

definition resolveVerificationSequence :: "risk_tier \<Rightarrow> bool \<Rightarrow> gate_name list" where
  "resolveVerificationSequence riskTier boundaryTouching =
     (let base = BASE_SEQUENCE_BY_TIER riskTier in
      if \<not> boundaryTouching then base
      else base @ [CheckContractDrift] @
           (if riskTier = Medium \<or> riskTier = High then [CheckMockBoundary] else []))"

definition deriveWorkflowRiskTier :: "risk_tier option list \<Rightarrow> risk_tier" where
  "deriveWorkflowRiskTier tasks =
     foldl (\<lambda>maxTier task.
       let tier = (case task of None \<Rightarrow> Low | Some t \<Rightarrow> t)
       in if RISK_TIER_RANK tier > RISK_TIER_RANK maxTier then tier else maxTier) Low tasks"

record ladder_cell =
  cell_tier :: risk_tier
  cell_boundary :: bool

definition failSafeLadderCell :: "resolved_tier \<Rightarrow> bool \<Rightarrow> ladder_cell" where
  "failSafeLadderCell riskTier boundaryTouching =
     (case riskTier of
        UnknownTier \<Rightarrow> \<lparr>cell_tier = High, cell_boundary = True\<rparr>
      | Tier t \<Rightarrow> \<lparr>cell_tier = t, cell_boundary = boundaryTouching\<rparr>)"

definition reviewRosterTier :: "resolved_tier \<Rightarrow> risk_tier option" where
  "reviewRosterTier riskTier = (case riskTier of UnknownTier \<Rightarrow> None | Tier t \<Rightarrow> Some t)"

text \<open>
  The overlay \<open>verification.policy\<close> of \<open>.exarchos.yml\<close>: a cell of the plain ladder and a cell of
  the boundary ladder for each tier, absent when the file does not set it.
\<close>

record policy_overlay =
  plain_cell :: "risk_tier \<Rightarrow> gate_name list option"
  boundary_cell :: "risk_tier \<Rightarrow> gate_name list option"

datatype policy_source = Builtin | Config

record verification_policy =
  policy_sequence :: "gate_name list"
  policy_from :: policy_source

definition resolveVerificationPolicy ::
    "resolved_tier \<Rightarrow> bool \<Rightarrow> policy_overlay option \<Rightarrow> verification_policy" where
  "resolveVerificationPolicy riskTier boundaryTouching config =
     (let c = failSafeLadderCell riskTier boundaryTouching;
          cell = Option.bind config (\<lambda>p.
            if cell_boundary c then boundary_cell p (cell_tier c) else plain_cell p (cell_tier c))
      in case cell of
           Some gates \<Rightarrow> \<lparr>policy_sequence = gates, policy_from = Config\<rparr>
         | None \<Rightarrow>
             \<lparr>policy_sequence = resolveVerificationSequence (cell_tier c) (cell_boundary c),
              policy_from = Builtin\<rparr>)"

section \<open>The plan-depth ladder\<close>

datatype plan_gate =
    CheckTaskDecomposition
  | CheckPlanCoverage
  | SpecCoverageCheck
  | CheckProvenanceChain
  | GenerateTraceability
  | CheckExplorationDepth

definition plan_gate_str :: "plan_gate \<Rightarrow> string" where
  "plan_gate_str g =
     (case g of CheckTaskDecomposition \<Rightarrow> ''check_task_decomposition''
              | CheckPlanCoverage \<Rightarrow> ''check_plan_coverage''
              | SpecCoverageCheck \<Rightarrow> ''spec_coverage_check''
              | CheckProvenanceChain \<Rightarrow> ''check_provenance_chain''
              | GenerateTraceability \<Rightarrow> ''generate_traceability''
              | CheckExplorationDepth \<Rightarrow> ''check_exploration_depth'')"

datatype design_depth = Thin | Standard | Deep

definition design_depth_str :: "design_depth \<Rightarrow> string" where
  "design_depth_str d = (case d of Thin \<Rightarrow> ''thin'' | Standard \<Rightarrow> ''standard'' | Deep \<Rightarrow> ''deep'')"

definition BASE_SEQUENCE_BY_DEPTH :: "design_depth \<Rightarrow> plan_gate list" where
  "BASE_SEQUENCE_BY_DEPTH d =
     (case d of
        Thin \<Rightarrow> [CheckTaskDecomposition, CheckPlanCoverage]
      | Standard \<Rightarrow> [CheckTaskDecomposition, CheckPlanCoverage, SpecCoverageCheck,
                    CheckProvenanceChain, GenerateTraceability]
      | Deep \<Rightarrow> [CheckTaskDecomposition, CheckPlanCoverage, SpecCoverageCheck,
                CheckProvenanceChain, GenerateTraceability, CheckExplorationDepth])"

text \<open>The table row that a property key selects.\<close>

definition depth_of_key :: "string \<Rightarrow> design_depth option" where
  "depth_of_key k =
     (if k = ''thin'' then Some Thin
      else if k = ''standard'' then Some Standard
      else if k = ''deep'' then Some Deep
      else None)"

definition resolvePlanDepthPolicy :: "js \<Rightarrow> js_exn + plan_gate list" where
  "resolvePlanDepthPolicy designDepth =
     (case depth_of_key (js_string designDepth) of
        Some d \<Rightarrow> Inr (BASE_SEQUENCE_BY_DEPTH d)
      | None \<Rightarrow> Inl (Thrown
          (''resolvePlanDepthPolicy: unknown designDepth '' @ [CHR 0x27] @ js_string designDepth @
           [CHR 0x27] @ '' (expected one of thin, standard, deep)'')))"

definition DESIGN_DEPTH_RANK :: "design_depth \<Rightarrow> nat" where
  "DESIGN_DEPTH_RANK d = (case d of Thin \<Rightarrow> 0 | Standard \<Rightarrow> 1 | Deep \<Rightarrow> 2)"

instantiation design_depth :: linorder
begin

definition less_eq_design_depth :: "design_depth \<Rightarrow> design_depth \<Rightarrow> bool" where
  "a \<le> b \<longleftrightarrow> DESIGN_DEPTH_RANK a \<le> DESIGN_DEPTH_RANK b"

definition less_design_depth :: "design_depth \<Rightarrow> design_depth \<Rightarrow> bool" where
  "a < b \<longleftrightarrow> DESIGN_DEPTH_RANK a < DESIGN_DEPTH_RANK b"

instance
  by standard
    (auto simp: less_eq_design_depth_def less_design_depth_def DESIGN_DEPTH_RANK_def
      split: design_depth.splits)

end

section \<open>The review roster\<close>

definition REQUIRED_REVIEWS_BY_WORKFLOW_TYPE :: "(string \<times> string list) list" where
  "REQUIRED_REVIEWS_BY_WORKFLOW_TYPE = [(''feature'', [''review''])]"

definition REQUIRED_REVIEWS_BY_TIER :: "(string \<times> string list) list" where
  "REQUIRED_REVIEWS_BY_TIER = [(''low'', []), (''medium'', []), (''high'', [''mutation-adequacy''])]"

definition table_row :: "(string \<times> string list) list \<Rightarrow> string \<Rightarrow> string list" where
  "table_row t k = (case map_of t k of None \<Rightarrow> [] | Some ds \<Rightarrow> ds)"

definition getRequiredReviews :: "string \<Rightarrow> string option \<Rightarrow> string list" where
  "getRequiredReviews workflowType riskTier =
     (let base = table_row REQUIRED_REVIEWS_BY_WORKFLOW_TYPE workflowType;
          tierDimensions = (case riskTier of
            None \<Rightarrow> [] | Some t \<Rightarrow> table_row REQUIRED_REVIEWS_BY_TIER t)
      in if tierDimensions = [] then base
         else base @ filter (\<lambda>d. d \<notin> set base) tierDimensions)"

definition getRequiredReviewsPrerequisite :: "string \<Rightarrow> string option \<Rightarrow> string" where
  "getRequiredReviewsPrerequisite workflowType riskTier =
     (let dimensions = getRequiredReviews workflowType riskTier in
      if dimensions = [] then ''no required reviews''
      else join_with '' AND '' (map (\<lambda>d. ''reviews.'' @ d @ ''.status'') dimensions) @
        '' must be a passing value (pass|passed|approved|fixes-applied, case-insensitive)'')"

section \<open>The tables as ladders\<close>

lemmas ladder_tables [policy_defs] =
  BASE_SEQUENCE_BY_TIER_def resolveVerificationSequence_def BASE_SEQUENCE_BY_DEPTH_def

interpretation plain: strict_ladder "\<lambda>t. resolveVerificationSequence t False"
  by unfold_locales
    (auto simp: ladder_tables tier_order_defs rank_defs split: risk_tier.splits)

interpretation touching: strict_ladder "\<lambda>t. resolveVerificationSequence t True"
  by unfold_locales
    (auto simp: ladder_tables tier_order_defs rank_defs split: risk_tier.splits)

interpretation depth: strict_ladder BASE_SEQUENCE_BY_DEPTH
  by unfold_locales
    (auto simp: ladder_tables less_eq_design_depth_def less_design_depth_def
      DESIGN_DEPTH_RANK_def split: design_depth.splits)

text \<open>The ladder over untrusted tiers with no overlay: an unresolvable tier runs every rung.\<close>

definition builtin_gates :: "bool \<Rightarrow> resolved_tier \<Rightarrow> gate_name list" where
  "builtin_gates b t = policy_sequence (resolveVerificationPolicy t b None)"

lemma builtin_gates_simps [simp]:
  "builtin_gates b (Tier t) = resolveVerificationSequence t b"
  "builtin_gates b UnknownTier = resolveVerificationSequence High True"
  by (simp_all add: builtin_gates_def resolveVerificationPolicy_def failSafeLadderCell_def)

interpretation builtin_plain: gate_ladder "builtin_gates False"
proof
  fix r r' :: resolved_tier
  show "distinct (builtin_gates False r)"
    by (cases r) (simp_all add: plain.seq_distinct touching.seq_distinct)
  show "r \<le> r' \<Longrightarrow> subseq (builtin_gates False r) (builtin_gates False r')"
    by (cases r; cases r')
      (auto simp: ladder_tables tier_order_defs rank_defs split: risk_tier.splits)
qed

interpretation builtin_touching: gate_ladder "builtin_gates True"
proof
  fix r r' :: resolved_tier
  show "distinct (builtin_gates True r)"
    by (cases r) (simp_all add: touching.seq_distinct)
  show "r \<le> r' \<Longrightarrow> subseq (builtin_gates True r) (builtin_gates True r')"
    by (cases r; cases r')
      (auto simp: ladder_tables tier_order_defs rank_defs split: risk_tier.splits)
qed

lemma boundary_adds_gates:
  "set (builtin_gates b t) \<subseteq> set (builtin_gates True t)"
  by (cases t; cases b) (auto simp: resolveVerificationSequence_def)

lemma foldl_max_tier:
  "foldl (\<lambda>m task. let tier = (case task of None \<Rightarrow> Low | Some t \<Rightarrow> t)
      in if RISK_TIER_RANK tier > RISK_TIER_RANK m then tier else m) z ts =
   Max (insert z ((\<lambda>task. case task of None \<Rightarrow> Low | Some t \<Rightarrow> t) ` set ts))"
proof (induction ts arbitrary: z)
  case (Cons a ts)
  let ?f = "\<lambda>task. case task of None \<Rightarrow> Low | Some t \<Rightarrow> t"
  have "(if RISK_TIER_RANK (?f a) > RISK_TIER_RANK z then ?f a else z) = max z (?f a)"
    by (auto simp: max_def tier_order_defs rank_injective)
  moreover have "Max (insert (max z (?f a)) (?f ` set ts)) = Max (insert z (insert (?f a) (?f ` set ts)))"
    by (cases "ts = []") (simp_all add: max.assoc)
  ultimately show ?case
    using Cons.IH [of "max z (?f a)"] by (simp add: Let_def)
qed simp

end
