(* ===== verification/Phase_Kind.thy ===== *)
theory Phase_Kind
  imports Verification_Policy
begin

text \<open>
  Phase kinds and their obligations (\<open>src/workflow/phase-kind.ts\<close>): the closed union of kinds,
  the table that grants a gate resolver and a posture to each kind, the four gate resolvers, the
  fail-closed resolution that the phase boundary uses, and the plan-review rungs. The key of a
  gate is what the boundary deduplicates by; it is injective, so no two gates collapse.
\<close>

section \<open>Kinds, gates and obligations\<close>

datatype phase_kind = IMPLEMENT | PLAN | REVIEW | SYNTHESIZE | MERGE | GATHER

definition kind_str :: "phase_kind \<Rightarrow> string" where
  "kind_str k =
     (case k of IMPLEMENT \<Rightarrow> ''IMPLEMENT'' | PLAN \<Rightarrow> ''PLAN'' | REVIEW \<Rightarrow> ''REVIEW''
              | SYNTHESIZE \<Rightarrow> ''SYNTHESIZE'' | MERGE \<Rightarrow> ''MERGE'' | GATHER \<Rightarrow> ''GATHER'')"

datatype gate_resolver_name =
    VerificationLadder
  | PlanStructure
  | ReviewContract
  | SynthesisReadiness

definition resolver_str :: "gate_resolver_name \<Rightarrow> string" where
  "resolver_str r =
     (case r of VerificationLadder \<Rightarrow> ''verification-ladder'' | PlanStructure \<Rightarrow> ''plan-structure''
              | ReviewContract \<Rightarrow> ''review-contract''
              | SynthesisReadiness \<Rightarrow> ''synthesis-readiness'')"

datatype synthesis_leg = LegTaskCompletion | LegTests | LegTypecheck | LegDocument | LegStack

definition leg_str :: "synthesis_leg \<Rightarrow> string" where
  "leg_str l =
     (case l of LegTaskCompletion \<Rightarrow> ''task-completion'' | LegTests \<Rightarrow> ''tests''
              | LegTypecheck \<Rightarrow> ''typecheck'' | LegDocument \<Rightarrow> ''document'' | LegStack \<Rightarrow> ''stack'')"

datatype gate_family = LadderFamily | PlanFamily | ReviewFamily | SynthesisFamily

definition family_str :: "gate_family \<Rightarrow> string" where
  "family_str f =
     (case f of LadderFamily \<Rightarrow> ''ladder'' | PlanFamily \<Rightarrow> ''plan'' | ReviewFamily \<Rightarrow> ''review''
              | SynthesisFamily \<Rightarrow> ''synthesis'')"

text \<open>
  A gate is its family and its name. A resolver builds it from the vocabulary of the family; a
  gate that is read back from a frozen record may have any name.
\<close>

datatype resolved_gate = Gate (family: gate_family) (gate_str: string)

definition gate_family :: "resolved_gate \<Rightarrow> string" where
  "gate_family g = family_str (family g)"

definition LadderGate :: "gate_name \<Rightarrow> resolved_gate" where
  "LadderGate g = Gate LadderFamily (gate_name_str g)"

definition PlanGate :: "plan_gate \<Rightarrow> resolved_gate" where
  "PlanGate g = Gate PlanFamily (plan_gate_str g)"

definition ReviewGate :: "string \<Rightarrow> resolved_gate" where
  "ReviewGate d = Gate ReviewFamily d"

definition SynthesisGate :: "synthesis_leg \<Rightarrow> resolved_gate" where
  "SynthesisGate l = Gate SynthesisFamily (leg_str l)"

definition ladderGateNames :: "resolved_gate list \<Rightarrow> string list" where
  "ladderGateNames gates = map gate_str (filter (\<lambda>g. family g = LadderFamily) gates)"

datatype posture = ReadOnly | TaskIsolated | SharedMutating

definition posture_str :: "posture \<Rightarrow> string" where
  "posture_str p =
     (case p of ReadOnly \<Rightarrow> ''read-only'' | TaskIsolated \<Rightarrow> ''task-isolated''
              | SharedMutating \<Rightarrow> ''shared-mutating'')"

record phase_obligations =
  ob_resolver :: "gate_resolver_name option"
  ob_posture :: posture

definition KIND_OBLIGATIONS :: "phase_kind \<Rightarrow> phase_obligations" where
  "KIND_OBLIGATIONS k =
     (case k of
        IMPLEMENT \<Rightarrow> \<lparr>ob_resolver = Some VerificationLadder, ob_posture = TaskIsolated\<rparr>
      | PLAN \<Rightarrow> \<lparr>ob_resolver = Some PlanStructure, ob_posture = ReadOnly\<rparr>
      | REVIEW \<Rightarrow> \<lparr>ob_resolver = Some ReviewContract, ob_posture = ReadOnly\<rparr>
      | SYNTHESIZE \<Rightarrow> \<lparr>ob_resolver = Some SynthesisReadiness, ob_posture = SharedMutating\<rparr>
      | MERGE \<Rightarrow> \<lparr>ob_resolver = None, ob_posture = SharedMutating\<rparr>
      | GATHER \<Rightarrow> \<lparr>ob_resolver = None, ob_posture = ReadOnly\<rparr>)"

section \<open>Resolution\<close>

text \<open>The design depth of the context is untrusted: it comes from the state without a check.\<close>

record gate_ctx =
  ctx_tier :: resolved_tier
  ctx_boundary :: bool
  ctx_config :: "policy_overlay option"
  ctx_workflow :: "string option"
  ctx_depth :: js

definition or_else :: "'a option \<Rightarrow> 'a \<Rightarrow> 'a" where
  "or_else x d = (case x of None \<Rightarrow> d | Some v \<Rightarrow> v)"

lemma or_else_simps [simp]: "or_else None d = d" "or_else (Some v) d = v"
  by (simp_all add: or_else_def)

definition GATE_RESOLVERS :: "gate_resolver_name \<Rightarrow> gate_ctx \<Rightarrow> js_exn + resolved_gate list" where
  "GATE_RESOLVERS r ctx =
     (case r of
        VerificationLadder \<Rightarrow>
          Inr (map LadderGate
            (policy_sequence (resolveVerificationPolicy (ctx_tier ctx) (ctx_boundary ctx) (ctx_config ctx))))
      | PlanStructure \<Rightarrow>
          bind_result
            (resolvePlanDepthPolicy (if is_nullish (ctx_depth ctx) then JStr ''standard'' else ctx_depth ctx))
            (\<lambda>sequence. Inr (map PlanGate sequence))
      | ReviewContract \<Rightarrow>
          Inr (map ReviewGate
            (getRequiredReviews (or_else (ctx_workflow ctx) '''')
              (map_option risk_tier_str (reviewRosterTier (ctx_tier ctx)))))
      | SynthesisReadiness \<Rightarrow>
          Inr (map SynthesisGate [LegTaskCompletion, LegTests, LegTypecheck, LegDocument, LegStack]))"

type_synonym gate_resolver = "phase_kind \<Rightarrow> gate_ctx \<Rightarrow> js_exn + resolved_gate list"

text \<open>
  Every resolver name of the table has a resolver, by the exhaustive \<open>case\<close> above, so the throw
  for an unknown resolver name has no counterpart.
\<close>

definition resolveGateSet :: gate_resolver where
  "resolveGateSet kind ctx =
     (case ob_resolver (KIND_OBLIGATIONS kind) of
        None \<Rightarrow> Inr []
      | Some resolver \<Rightarrow> GATE_RESOLVERS resolver ctx)"

text \<open>The message of a caught error. The engine's own text for a \<open>TypeError\<close> stays abstract.\<close>

definition exn_message :: "js_exn \<Rightarrow> string" where
  "exn_message e = (case e of TypeError \<Rightarrow> ''TypeError'' | Thrown m \<Rightarrow> m)"

definition resolveGateSetFailClosed ::
    "phase_kind \<Rightarrow> gate_ctx \<Rightarrow> gate_resolver \<Rightarrow> string + resolved_gate list" where
  "resolveGateSetFailClosed kind ctx resolver =
     (case resolver kind ctx of Inr gates \<Rightarrow> Inr gates | Inl err \<Rightarrow> Inl (exn_message err))"

section \<open>Plan-review rungs\<close>

datatype rung_name = RungLight | RungStandard | RungPanel

record plan_review_rung =
  rung :: rung_name
  voters :: nat

definition PLAN_REVIEW_RUNG_BY_DEPTH :: "design_depth \<Rightarrow> plan_review_rung" where
  "PLAN_REVIEW_RUNG_BY_DEPTH d =
     (case d of
        Thin \<Rightarrow> \<lparr>rung = RungLight, voters = 1\<rparr>
      | Standard \<Rightarrow> \<lparr>rung = RungStandard, voters = 2\<rparr>
      | Deep \<Rightarrow> \<lparr>rung = RungPanel, voters = 3\<rparr>)"

definition resolvePlanReviewDepth :: "js \<Rightarrow> plan_review_rung" where
  "resolvePlanReviewDepth designDepth =
     PLAN_REVIEW_RUNG_BY_DEPTH
       (or_else (depth_of_key (js_string (if is_nullish designDepth then JStr ''standard'' else designDepth)))
         Standard)"

section \<open>Gate keys\<close>

text \<open>The key \<open>`${family}\u0000${gate}`\<close> by which the boundary deduplicates.\<close>

definition gate_key :: "resolved_gate \<Rightarrow> string" where
  "gate_key g = gate_family g @ [CHR 0x00] @ gate_str g"

lemma gate_name_str_inj: "gate_name_str a = gate_name_str b \<Longrightarrow> a = b"
  by (cases a; cases b) (simp_all add: gate_name_str_def)

lemma plan_gate_str_inj: "plan_gate_str a = plan_gate_str b \<Longrightarrow> a = b"
  by (cases a; cases b) (simp_all add: plan_gate_str_def)

lemma leg_str_inj: "leg_str a = leg_str b \<Longrightarrow> a = b"
  by (cases a; cases b) (simp_all add: leg_str_def)

lemma LadderGate_inj [simp]: "LadderGate a = LadderGate b \<longleftrightarrow> a = b"
  by (auto simp: LadderGate_def dest: gate_name_str_inj)

lemma PlanGate_inj [simp]: "PlanGate a = PlanGate b \<longleftrightarrow> a = b"
  by (auto simp: PlanGate_def dest: plan_gate_str_inj)

lemma gate_key_inj: "gate_key a = gate_key b \<longleftrightarrow> a = b"
proof (cases a; cases b)
  fix f f' :: gate_family and n n' :: string
  assume "a = Gate f n" "b = Gate f' n'"
  then show ?thesis
    by (cases f; cases f') (auto simp: gate_key_def gate_family_def family_str_def)
qed

lemma inj_gate_key: "inj gate_key"
  by (rule injI) (simp add: gate_key_inj)

text \<open>The object \<open>{ family, gate }\<close> that an event payload freezes.\<close>

definition gate_js :: "resolved_gate \<Rightarrow> js" where
  "gate_js g = JObj [(''family'', JStr (gate_family g)), (''gate'', JStr (gate_str g))]"

lemma gate_js_inj: "gate_js a = gate_js b \<longleftrightarrow> a = b"
  using gate_key_inj [of a b] by (auto simp: gate_js_def gate_key_def gate_family_def)

text \<open>A frozen gate read back (\<open>src/workflow/admission/freeze-requirements.ts\<close>).\<close>

definition family_of :: "string \<Rightarrow> gate_family option" where
  "family_of s =
     (if s = ''ladder'' then Some LadderFamily
      else if s = ''plan'' then Some PlanFamily
      else if s = ''review'' then Some ReviewFamily
      else if s = ''synthesis'' then Some SynthesisFamily
      else None)"

definition parseFrozenGate :: "js \<Rightarrow> resolved_gate option" where
  "parseFrozenGate raw =
     (case (opt_get raw ''family'', opt_get raw ''gate'') of
        (JStr f, JStr n) \<Rightarrow>
          (case family_of f of
             None \<Rightarrow> None
           | Some fam \<Rightarrow> if n = '''' then None else Some (Gate fam n))
      | _ \<Rightarrow> None)"

fun readFrozenGateSequence :: "js list \<Rightarrow> resolved_gate list option" where
  "readFrozenGateSequence [] = Some []"
| "readFrozenGateSequence (raw # rest) =
     (case parseFrozenGate raw of
        None \<Rightarrow> None
      | Some g \<Rightarrow> map_option (\<lambda>gs. g # gs) (readFrozenGateSequence rest))"

lemma family_of_str [simp]: "family_of (family_str f) = Some f"
  by (cases f) (simp_all add: family_of_def family_str_def)

lemma parse_gate_js: "gate_str g \<noteq> '''' \<Longrightarrow> parseFrozenGate (gate_js g) = Some g"
  by (cases g) (simp add: parseFrozenGate_def gate_js_def gate_family_def)

text \<open>Freezing a gate list and reading it back gives the same list, in the same order.\<close>

lemma frozen_sequence_round_trip:
  "\<forall>g \<in> set gs. gate_str g \<noteq> '''' \<Longrightarrow> readFrozenGateSequence (map gate_js gs) = Some gs"
  by (induction gs) (simp_all add: parse_gate_js)

section \<open>Facts on resolution\<close>

lemma resolveGateSet_simps [simp]:
  "resolveGateSet MERGE ctx = Inr []"
  "resolveGateSet GATHER ctx = Inr []"
  "resolveGateSet IMPLEMENT ctx = GATE_RESOLVERS VerificationLadder ctx"
  "resolveGateSet PLAN ctx = GATE_RESOLVERS PlanStructure ctx"
  "resolveGateSet REVIEW ctx = GATE_RESOLVERS ReviewContract ctx"
  "resolveGateSet SYNTHESIZE ctx = GATE_RESOLVERS SynthesisReadiness ctx"
  by (simp_all add: resolveGateSet_def KIND_OBLIGATIONS_def)

lemma resolve_plan_ok:
  "resolvePlanDepthPolicy d = Inr gs \<longleftrightarrow>
   (\<exists>k. depth_of_key (js_string d) = Some k \<and> gs = BASE_SEQUENCE_BY_DEPTH k)"
  by (auto simp: resolvePlanDepthPolicy_def split: option.splits)

lemma ladderGateNames_map [simp]: "ladderGateNames (map LadderGate gs) = map gate_name_str gs"
  by (induction gs) (simp_all add: ladderGateNames_def LadderGate_def)

lemma ladderGateNames_append [simp]:
  "ladderGateNames (xs @ ys) = ladderGateNames xs @ ladderGateNames ys"
  by (simp add: ladderGateNames_def)

lemma resolveGateSet_throws_only_PLAN:
  "resolveGateSet k ctx = Inl e \<Longrightarrow> k = PLAN \<and> (\<exists>m. e = Thrown m)"
  by (cases k)
    (auto simp: GATE_RESOLVERS_def resolvePlanDepthPolicy_def bind_result_def split: option.splits sum.splits)

end
