(* ===== verification/Hsm_Definitions.thy ===== *)
theory Hsm_Definitions
  imports Guard_Table Phase_Kind
begin

text \<open>
  The types of the state machine (\<open>src/workflow/state-machine.ts\<close>) and the five built-in machines
  of \<open>src/workflow/hsm-definitions.ts\<close> with their two merge guards. The states of a machine are an
  association list in the order of the source, because registry listings and tracks follow it.
\<close>

section \<open>Types\<close>

datatype effect = CheckpointEffect | LogEffect | IncrementFixCycle

datatype state_type = Atomic phase_kind | Compound | Final

record hsm_state =
  st_id :: string
  st_type :: state_type
  st_parent :: "string option"
  st_initial :: "string option"
  st_onEntry :: "effect list option"
  st_onExit :: "effect list option"
  st_maxFixCycles :: "nat option"

record transition =
  tfrom :: string
  tto :: string
  tguard :: "guard option"
  teffects :: "effect list option"
  isFixCycle :: "bool option"
  isRevision :: "bool option"

record hsm =
  hsm_id :: string
  hsm_states :: "(string \<times> hsm_state) list"
  hsm_transitions :: "transition list"

text \<open>\<open>hsm.states[id]\<close>.\<close>

definition state_at :: "hsm \<Rightarrow> string \<Rightarrow> hsm_state option" where
  "state_at h i = map_of (hsm_states h) i"

definition is_final :: "hsm \<Rightarrow> string \<Rightarrow> bool" where
  "is_final h i \<longleftrightarrow> (case state_at h i of None \<Rightarrow> False | Some s \<Rightarrow> st_type s = Final)"

text \<open>A flag that is present and true.\<close>

definition flagged :: "bool option \<Rightarrow> bool" where
  "flagged b \<longleftrightarrow> b = Some True"

text \<open>The literals of the source: an atomic, a compound and a final state, and a guarded edge.\<close>

definition atomic :: "string \<Rightarrow> phase_kind \<Rightarrow> string option \<Rightarrow> hsm_state" where
  [hsm_defs]: "atomic i k p =
     \<lparr>st_id = i, st_type = Atomic k, st_parent = p, st_initial = None, st_onEntry = None,
      st_onExit = None, st_maxFixCycles = None\<rparr>"

definition compound :: "string \<Rightarrow> string \<Rightarrow> nat option \<Rightarrow> hsm_state" where
  [hsm_defs]: "compound i start m =
     \<lparr>st_id = i, st_type = Compound, st_parent = None, st_initial = Some start,
      st_onEntry = Some [LogEffect], st_onExit = Some [LogEffect], st_maxFixCycles = m\<rparr>"

definition final :: "string \<Rightarrow> hsm_state" where
  [hsm_defs]: "final i =
     \<lparr>st_id = i, st_type = Final, st_parent = None, st_initial = None, st_onEntry = None,
      st_onExit = None, st_maxFixCycles = None\<rparr>"

definition edge :: "string \<Rightarrow> string \<Rightarrow> guard \<Rightarrow> transition" where
  [hsm_defs]: "edge a b g =
     \<lparr>tfrom = a, tto = b, tguard = Some g, teffects = None, isFixCycle = None, isRevision = None\<rparr>"

section \<open>The merge guards\<close>

definition EXCLUDED_MERGE_PHASES :: "string list" where
  "EXCLUDED_MERGE_PHASES = [''completed'', ''rolled-back'', ''aborted'']"

text \<open>
  \<open>state._events ?? []\<close>. The guards take it to be an array when it is present; the entry guard
  reads a value of another type as no events, and the exit guard raises.
\<close>

definition has_type :: "string \<Rightarrow> js \<Rightarrow> bool" where
  "has_type t e \<longleftrightarrow> opt_get e ''type'' = JStr t"

definition findLatestTaskCompleted :: "js list \<Rightarrow> js option" where
  "findLatestTaskCompleted events = find_last (has_type ''task.completed'') events"

definition nonblank :: "js \<Rightarrow> bool" where
  "nonblank v \<longleftrightarrow> (case v of JStr s \<Rightarrow> 0 < length (js_trim s) | _ \<Rightarrow> False)"

definition eventDataHasWorktreeAssociation :: "js \<Rightarrow> bool" where
  "eventDataHasWorktreeAssociation data \<longleftrightarrow>
     nonblank (opt_get data ''worktree'') \<or> nonblank (opt_get data ''worktreePath'')"

definition latestTaskCompletedHasWorktree :: "fields \<Rightarrow> bool" where
  "latestTaskCompletedHasWorktree state \<longleftrightarrow>
     (case fget state ''_events'' of
        JArr events \<Rightarrow>
          (case findLatestTaskCompleted events of
             None \<Rightarrow> False
           | Some latest \<Rightarrow> eventDataHasWorktreeAssociation (opt_get latest ''data''))
      | _ \<Rightarrow> False)"

definition merge_phase :: "fields \<Rightarrow> string option" where
  "merge_phase state = as_string (opt_get (fget state ''mergeOrchestrator'') ''phase'')"

definition mergeOrchestratorPhaseNotExcluded :: "fields \<Rightarrow> bool" where
  "mergeOrchestratorPhaseNotExcluded state \<longleftrightarrow>
     (case merge_phase state of None \<Rightarrow> True | Some p \<Rightarrow> p \<notin> set EXCLUDED_MERGE_PHASES)"

definition mergePendingEntry_eval :: "fields \<Rightarrow> guard_result" where
  "mergePendingEntry_eval state =
     (if \<not> latestTaskCompletedHasWorktree state then
        mk_fail
          (''merge-pending-entry not satisfied: latest task.completed event lacks data.worktree / data.worktreePath. '' @
           ''Only task_complete writes task.completed. Give result.worktree when the next task completes. '' @
           ''A repeat task_complete for a task that is complete is deduplicated and writes no row.'')
          None
          (Some \<lparr>fix_tool = ''exarchos_orchestrate'',
                 fix_params = [(''action'', JStr ''task_complete''),
                               (''featureId'', JStr (featureId_of state)),
                               (''taskId'', JStr ''<next-task-id>''),
                               (''result'', obj1 ''worktree'' (JStr ''<worktree-path>''))]\<rparr>)
      else if \<not> mergeOrchestratorPhaseNotExcluded state then
        mk_fail
          (''merge-pending-entry not satisfied: mergeOrchestrator.phase='' @ [CHR 0x27] @
           or_else (merge_phase state) ''<unknown>'' @ [CHR 0x27] @ '' is in EXCLUDED_MERGE_PHASES'')
          None None
      else GPass)"

definition mergePendingEntry :: guard where
  [guard_defs]: "mergePendingEntry =
     pure_guard ''merge-pending-entry''
       ''Most recent task.completed must carry a worktree association and mergeOrchestrator must not already be in a terminal phase''
       mergePendingEntry_eval"

definition MERGE_TERMINAL_EVENTS :: "string list" where
  "MERGE_TERMINAL_EVENTS = [''merge.executed'', ''merge.rollback'', ''merge.recovered'', ''merge.aborted'']"

text \<open>\<open>cycleEvents.some(...)\<close>: \<open>e.type\<close> raises on a nullish element, unless an earlier one matched.\<close>

fun some_terminal :: "js list \<Rightarrow> js_exn + bool" where
  "some_terminal [] = Inr False"
| "some_terminal (e # es) =
     bind_result (dot_get e ''type'') (\<lambda>t.
       if \<exists>m \<in> set MERGE_TERMINAL_EVENTS. t = JStr m then Inr True else some_terminal es)"

definition merge_cycle_events :: "js list \<Rightarrow> js list" where
  "merge_cycle_events events = after_last (has_type ''task.completed'') events"

definition mergePendingExit_eval :: "fields \<Rightarrow> js_exn + guard_result" where
  "mergePendingExit_eval state =
     bind_result
       (case fget state ''_events'' of
          JUndef \<Rightarrow> Inr []
        | JNull \<Rightarrow> Inr []
        | JArr xs \<Rightarrow> Inr xs
        | _ \<Rightarrow> Inl TypeError)
       (\<lambda>events. bind_result (some_terminal (merge_cycle_events events)) (\<lambda>hasTerminalEvent.
          if hasTerminalEvent then Inr GPass
          else if (case merge_phase state of None \<Rightarrow> False | Some p \<Rightarrow> p \<in> set EXCLUDED_MERGE_PHASES)
          then Inr GPass
          else Inr (mk_fail
            ''merge-pending-exit not satisfied: no merge.executed/merge.rollback/merge.recovered/merge.aborted event found after the latest task.completed and mergeOrchestrator.phase is not terminal''
            None None)))"

definition mergePendingExit :: guard where
  [guard_defs]: "mergePendingExit =
     \<lparr>gid = ''merge-pending-exit'',
      gdesc = ''A merge.executed/merge.rollback/merge.recovered/merge.aborted must follow the latest task.completed (or mergeOrchestrator.phase must be terminal)'',
      gcustom = False,
      geval = mergePendingExit_eval\<rparr>"

section \<open>The built-in machines\<close>

definition feature_states :: "(string \<times> hsm_state) list" where
  [hsm_defs]: "feature_states =
     [(''plan'', atomic ''plan'' PLAN None),
      (''plan-review'', atomic ''plan-review'' PLAN None),
      (''implementation'', compound ''implementation'' ''delegate'' (Some 3)),
      (''delegate'', atomic ''delegate'' IMPLEMENT (Some ''implementation'')),
      (''review'', atomic ''review'' REVIEW (Some ''implementation'')),
      (''merge-pending'', atomic ''merge-pending'' MERGE (Some ''implementation'')),
      (''synthesize'', atomic ''synthesize'' SYNTHESIZE None),
      (''completed'', final ''completed''),
      (''cancelled'', final ''cancelled''),
      (''blocked'', atomic ''blocked'' GATHER None)]"

definition feature_transitions :: "transition list" where
  [hsm_defs]: "feature_transitions =
     [edge ''plan'' ''plan-review'' planArtifactExists,
      edge ''plan-review'' ''delegate'' planReviewComplete,
      edge ''plan-review'' ''blocked'' revisionsExhausted,
      (edge ''plan-review'' ''plan'' planReviewGapsFound)\<lparr>isRevision := Some True, teffects := Some [LogEffect]\<rparr>,
      edge ''delegate'' ''review'' (composeGuards ''all-tasks-complete+team-disbanded''
         ''All tasks must be complete and team must be disbanded''
         [allTasksComplete, teamDisbandedEmitted]),
      edge ''delegate'' ''merge-pending'' mergePendingEntry,
      edge ''merge-pending'' ''delegate'' mergePendingExit,
      edge ''review'' ''synthesize'' allReviewsPassed,
      (edge ''review'' ''delegate'' anyReviewFailed)\<lparr>isFixCycle := Some True, teffects := Some [IncrementFixCycle]\<rparr>,
      edge ''synthesize'' ''delegate'' synthesizeRetryable,
      edge ''synthesize'' ''completed'' prUrlExists,
      edge ''blocked'' ''delegate'' humanUnblocked]"

definition createFeatureHSM :: hsm where
  [hsm_defs]: "createFeatureHSM =
     \<lparr>hsm_id = ''feature'', hsm_states = feature_states, hsm_transitions = feature_transitions\<rparr>"

definition debug_states :: "(string \<times> hsm_state) list" where
  [hsm_defs]: "debug_states =
     [(''triage'', atomic ''triage'' GATHER None),
      (''investigate'', atomic ''investigate'' GATHER None),
      (''thorough-track'', compound ''thorough-track'' ''rca'' (Some 2)),
      (''rca'', atomic ''rca'' PLAN (Some ''thorough-track'')),
      (''design'', atomic ''design'' PLAN (Some ''thorough-track'')),
      (''debug-implement'', atomic ''debug-implement'' IMPLEMENT (Some ''thorough-track'')),
      (''debug-validate'', atomic ''debug-validate'' REVIEW (Some ''thorough-track'')),
      (''debug-review'', atomic ''debug-review'' REVIEW (Some ''thorough-track'')),
      (''hotfix-track'', compound ''hotfix-track'' ''hotfix-implement'' None),
      (''hotfix-implement'', atomic ''hotfix-implement'' IMPLEMENT (Some ''hotfix-track'')),
      (''hotfix-validate'', atomic ''hotfix-validate'' REVIEW (Some ''hotfix-track'')),
      (''synthesize'', atomic ''synthesize'' SYNTHESIZE None),
      (''completed'', final ''completed''),
      (''cancelled'', final ''cancelled''),
      (''blocked'', atomic ''blocked'' GATHER None)]"

definition debug_transitions :: "transition list" where
  [hsm_defs]: "debug_transitions =
     [edge ''triage'' ''investigate'' triageComplete,
      edge ''investigate'' ''rca'' thoroughTrackSelected,
      edge ''investigate'' ''hotfix-implement'' hotfixTrackSelected,
      edge ''investigate'' ''cancelled'' escalationRequired,
      edge ''investigate'' ''completed'' fixVerifiedDirectly,
      edge ''rca'' ''design'' rcaDocumentComplete,
      edge ''design'' ''debug-implement'' fixDesignComplete,
      edge ''debug-implement'' ''debug-validate'' implementationComplete,
      edge ''debug-validate'' ''debug-review'' validationPassed,
      edge ''debug-review'' ''synthesize'' reviewPassed,
      edge ''hotfix-implement'' ''hotfix-validate'' implementationComplete,
      edge ''hotfix-validate'' ''synthesize'' (composeGuards ''validation+pr-requested''
         ''Validation must pass and PR must be requested''
         [validationPassed, prRequested]),
      edge ''hotfix-validate'' ''completed'' validationPassed,
      edge ''synthesize'' ''debug-implement'' (composeGuards ''synthesize-retryable+thorough-track''
         ''Synthesis retryable on thorough track''
         [synthesizeRetryable, thoroughTrackSelected]),
      edge ''synthesize'' ''hotfix-implement'' (composeGuards ''synthesize-retryable+hotfix-track''
         ''Synthesis retryable on hotfix track''
         [synthesizeRetryable, hotfixTrackSelected]),
      edge ''synthesize'' ''completed'' prUrlExists]"

definition createDebugHSM :: hsm where
  [hsm_defs]: "createDebugHSM =
     \<lparr>hsm_id = ''debug'', hsm_states = debug_states, hsm_transitions = debug_transitions\<rparr>"

definition oneshot_states :: "(string \<times> hsm_state) list" where
  [hsm_defs]: "oneshot_states =
     [(''plan'', atomic ''plan'' PLAN None),
      (''implementing'', atomic ''implementing'' IMPLEMENT None),
      (''synthesize'', atomic ''synthesize'' SYNTHESIZE None),
      (''completed'', final ''completed''),
      (''cancelled'', final ''cancelled'')]"

definition oneshotTransitions :: "transition list" where
  [hsm_defs]: "oneshotTransitions =
     [edge ''plan'' ''implementing'' oneshotPlanSet,
      edge ''implementing'' ''synthesize'' synthesisOptedIn,
      edge ''implementing'' ''completed'' synthesisOptedOut,
      edge ''synthesize'' ''completed'' mergeVerified]"

definition createOneshotHSM :: hsm where
  [hsm_defs]: "createOneshotHSM =
     \<lparr>hsm_id = ''oneshot'', hsm_states = oneshot_states, hsm_transitions = oneshotTransitions\<rparr>"

definition discovery_states :: "(string \<times> hsm_state) list" where
  [hsm_defs]: "discovery_states =
     [(''gathering'', atomic ''gathering'' GATHER None),
      (''synthesizing'', atomic ''synthesizing'' GATHER None),
      (''completed'', final ''completed''),
      (''cancelled'', final ''cancelled'')]"

definition discovery_transitions :: "transition list" where
  [hsm_defs]: "discovery_transitions =
     [edge ''gathering'' ''synthesizing'' sourcesCollected,
      edge ''synthesizing'' ''completed'' reportArtifactExists]"

definition createDiscoveryHSM :: hsm where
  [hsm_defs]: "createDiscoveryHSM =
     \<lparr>hsm_id = ''discovery'', hsm_states = discovery_states, hsm_transitions = discovery_transitions\<rparr>"

definition refactor_states :: "(string \<times> hsm_state) list" where
  [hsm_defs]: "refactor_states =
     [(''explore'', atomic ''explore'' GATHER None),
      (''brief'', atomic ''brief'' PLAN None),
      (''polish-track'', compound ''polish-track'' ''polish-implement'' None),
      (''polish-implement'', atomic ''polish-implement'' IMPLEMENT (Some ''polish-track'')),
      (''polish-validate'', atomic ''polish-validate'' REVIEW (Some ''polish-track'')),
      (''polish-update-docs'', atomic ''polish-update-docs'' GATHER (Some ''polish-track'')),
      (''overhaul-track'', compound ''overhaul-track'' ''overhaul-plan'' (Some 3)),
      (''overhaul-plan'', atomic ''overhaul-plan'' PLAN (Some ''overhaul-track'')),
      (''overhaul-plan-review'', atomic ''overhaul-plan-review'' PLAN (Some ''overhaul-track'')),
      (''overhaul-delegate'', atomic ''overhaul-delegate'' IMPLEMENT (Some ''overhaul-track'')),
      (''overhaul-review'', atomic ''overhaul-review'' REVIEW (Some ''overhaul-track'')),
      (''overhaul-update-docs'', atomic ''overhaul-update-docs'' GATHER (Some ''overhaul-track'')),
      (''synthesize'', atomic ''synthesize'' SYNTHESIZE None),
      (''completed'', final ''completed''),
      (''cancelled'', final ''cancelled''),
      (''blocked'', atomic ''blocked'' GATHER None)]"

definition refactor_transitions :: "transition list" where
  [hsm_defs]: "refactor_transitions =
     [edge ''explore'' ''brief'' scopeAssessmentComplete,
      edge ''brief'' ''polish-implement'' polishTrackSelected,
      edge ''brief'' ''overhaul-plan'' overhaulTrackSelected,
      edge ''polish-implement'' ''polish-validate'' implementationComplete,
      edge ''polish-validate'' ''polish-update-docs'' goalsVerified,
      edge ''polish-update-docs'' ''completed'' docsUpdated,
      edge ''overhaul-plan'' ''overhaul-plan-review'' planArtifactExists,
      edge ''overhaul-plan-review'' ''overhaul-delegate'' planReviewComplete,
      edge ''overhaul-plan-review'' ''blocked'' revisionsExhausted,
      (edge ''overhaul-plan-review'' ''overhaul-plan'' planReviewGapsFound)\<lparr>isRevision := Some True, teffects := Some [LogEffect]\<rparr>,
      edge ''blocked'' ''overhaul-delegate'' humanUnblocked,
      edge ''overhaul-delegate'' ''overhaul-review'' allTasksComplete,
      edge ''overhaul-review'' ''overhaul-update-docs'' allReviewsPassed,
      (edge ''overhaul-review'' ''overhaul-delegate'' anyReviewFailed)\<lparr>isFixCycle := Some True, teffects := Some [IncrementFixCycle]\<rparr>,
      edge ''overhaul-update-docs'' ''synthesize'' docsUpdated,
      edge ''synthesize'' ''overhaul-delegate'' synthesizeRetryable,
      edge ''synthesize'' ''completed'' prUrlExists]"

definition createRefactorHSM :: hsm where
  [hsm_defs]: "createRefactorHSM =
     \<lparr>hsm_id = ''refactor'', hsm_states = refactor_states, hsm_transitions = refactor_transitions\<rparr>"

definition builtin_machines :: "hsm list" where
  "builtin_machines =
     [createFeatureHSM, createDebugHSM, createRefactorHSM, createOneshotHSM, createDiscoveryHSM]"

end
