(* ===== verification/Guard_Laws.thy ===== *)
theory Guard_Laws
  imports Guard_Table Hsm_Definitions
begin

text \<open>
  What the guards decide. The review guards are characterised over the collected statuses and the
  required dimensions, the failure payloads are shown free of the keys that reach an object's
  prototype, and the guards that compete for one phase are shown to exclude each other.
\<close>

section \<open>Review statuses\<close>

lemma statuses_of_entry:
  "entry_status entry = Some st \<Longrightarrow> statuses_of (k, JObj entry) = [(k, st)]"
  by (simp add: statuses_of_def)

lemma collected_entry:
  assumes "fget reviews k = JObj entry" "entry_status entry = Some st"
  shows "(k, st) \<in> set (collectReviewStatuses reviews)"
proof -
  have "map_of reviews k = Some (JObj entry)"
    using assms(1) by (simp add: fget_def split: option.splits)
  then have "(k, JObj entry) \<in> set reviews" by (rule map_of_SomeD)
  moreover have "(k, st) \<in> set (statuses_of (k, JObj entry))"
    by (simp add: statuses_of_entry [OF assms(2)])
  ultimately show ?thesis unfolding collectReviewStatuses_def set_concat set_map by blast
qed

lemma not_passed_empty: "not_passed ss = [] \<longleftrightarrow> (\<forall>s \<in> set ss. snd s \<in> set PASSED_STATUSES)"
  by (auto simp: not_passed_def filter_empty_conv)

lemma map_filter_empty: "List.map_filter f xs = [] \<longleftrightarrow> (\<forall>x \<in> set xs. f x = None)"
  by (induction xs) (auto simp: List.map_filter_simps split: option.splits)

lemma missing_key_None:
  "missing_key reviews k = None \<longleftrightarrow>
   (\<exists>name entry. k = JStr name \<and> name \<notin> set UNSAFE_KEYS \<and> fget reviews name = JObj entry \<and>
      entry_status entry \<noteq> None)"
  by (auto simp: missing_key_def entry_status_def split: js.splits option.splits)

lemma reasons_empty:
  "allReviewsPassed_reasons s reviews = [] \<longleftrightarrow>
   missing_reviews s reviews = [] \<and> not_passed (collectReviewStatuses reviews) = [] \<and>
   score_reasons s reviews = [] \<and> coverage_reasons s reviews = []"
  by (simp add: allReviewsPassed_reasons_def missing_reasons_def not_passed_reasons_def)

text \<open>When the guard passes, in terms of what the state holds.\<close>

lemma allReviewsPassed_iff:
  "guard_passes allReviewsPassed s \<longleftrightarrow>
   (\<exists>reviews. fget s ''reviews'' = JObj reviews \<and> collectReviewStatuses reviews \<noteq> [] \<and>
      (\<forall>st \<in> set (collectReviewStatuses reviews). snd st \<in> set PASSED_STATUSES) \<and>
      (\<forall>k \<in> set (required_reviews s). missing_key reviews k = None) \<and>
      score_reasons s reviews = [] \<and> coverage_reasons s reviews = [])"
proof (cases "fget s ''reviews''")
  case (JObj reviews)
  have miss: "missing_reviews s reviews = [] \<longleftrightarrow> (\<forall>k \<in> set (required_reviews s). missing_key reviews k = None)"
    by (simp add: missing_reviews_def map_filter_empty)
  show ?thesis
    using JObj
    by (simp add: allReviewsPassed_def allReviewsPassed_eval_def readObjectField_def Let_def reasons_empty
        not_passed_empty miss) blast
qed (simp_all add: allReviewsPassed_def allReviewsPassed_eval_def readObjectField_def)

lemma anyReviewFailed_iff:
  "guard_passes anyReviewFailed s \<longleftrightarrow>
   (\<exists>reviews. fget s ''reviews'' = JObj reviews \<and>
      (\<exists>st \<in> set (collectReviewStatuses reviews). snd st \<in> set FAILED_STATUSES))"
  by (cases "fget s ''reviews''")
    (auto simp: anyReviewFailed_def anyReviewFailed_eval_def readObjectField_def Let_def)

text \<open>
  C39: A pass of all-reviews-passed means that every required dimension is the name of a review
  entry of its own, under a safe key, whose status is one of the passing values, and that no
  collected status is anything else.
\<close>

theorem all_reviews_passed_sound:
  assumes "guard_passes allReviewsPassed s"
  shows "\<exists>reviews. fget s ''reviews'' = JObj reviews \<and>
    (\<forall>k \<in> set (required_reviews s). \<exists>name entry st. k = JStr name \<and> name \<notin> set UNSAFE_KEYS \<and>
       fget reviews name = JObj entry \<and> entry_status entry = Some st \<and> st \<in> set PASSED_STATUSES) \<and>
    collectReviewStatuses reviews \<noteq> [] \<and>
    (\<forall>st \<in> set (collectReviewStatuses reviews). snd st \<in> set PASSED_STATUSES)"
proof -
  obtain reviews where r: "fget s ''reviews'' = JObj reviews" "collectReviewStatuses reviews \<noteq> []"
    "\<forall>st \<in> set (collectReviewStatuses reviews). snd st \<in> set PASSED_STATUSES"
    "\<forall>k \<in> set (required_reviews s). missing_key reviews k = None"
    using assms by (auto simp: allReviewsPassed_iff)
  have "\<exists>name entry st. k = JStr name \<and> name \<notin> set UNSAFE_KEYS \<and> fget reviews name = JObj entry \<and>
      entry_status entry = Some st \<and> st \<in> set PASSED_STATUSES" if "k \<in> set (required_reviews s)" for k
    using r(3,4) that collected_entry by (fastforce simp: missing_key_None)
  with r show ?thesis by blast
qed

text \<open>A feature state with one required dimension, reviewed and approved.\<close>

definition approved_state :: fields where
  "approved_state =
     [(''reviews'', JObj [(''review'', JObj [(''status'', JStr ''APPROVED'')])]),
      (''_requiredReviews'', JArr [JStr ''review''])]"

lemma approved_state_passes: "guard_passes allReviewsPassed approved_state"
  by code_simp

lemma all_reviews_passed_sound_witness:
  "\<exists>reviews. fget approved_state ''reviews'' = JObj reviews \<and> collectReviewStatuses reviews \<noteq> []"
  using all_reviews_passed_sound [OF approved_state_passes] by blast

text \<open>
  In blocking mode with a finite threshold, a pass of all-reviews-passed means that the
  mutation dimension, unless it is marked as skipped, is not degraded, and a numeric score that
  it carries is finite and at or above the threshold.
\<close>

theorem mutation_score_enforced:
  assumes "guard_passes allReviewsPassed s"
    and "fget s ''_mutationEnforcement'' = JStr ''block''" "fget s ''_mutationThreshold'' = JNum (Fin t)"
    and "fget s ''reviews'' = JObj reviews" "fget reviews ''mutation-adequacy'' = JObj m"
    and "fget m ''skipped'' \<noteq> JBool True"
  shows "fget m ''degraded'' \<noteq> JBool True \<and>
    (\<forall>score. fget m ''mutationScore'' = JNum score \<longrightarrow> (\<exists>q. score = Fin q \<and> t \<le> q))"
proof -
  have "score_reasons s reviews = []" using assms(1,4) by (auto simp: allReviewsPassed_iff)
  then show ?thesis
    using assms(2,3,5,6)
    by (cases "fget m ''mutationScore''")
      (auto simp: score_reasons_def mutation_dim_def readObjectField_def split: if_splits jsnum.splits
        elim!: is_finite_num.elims)
qed

definition mutation_state :: fields where
  "mutation_state =
     [(''reviews'', JObj [(''mutation-adequacy'', JObj [(''status'', JStr ''pass''),
        (''mutationScore'', JInt 80)])]),
      (''_mutationEnforcement'', JStr ''block''), (''_mutationThreshold'', JInt 60)]"

lemma mutation_score_enforced_witness:
  "\<exists>q. fget [(''status'', JStr ''pass''), (''mutationScore'', JInt 80)] ''mutationScore'' = JNum (Fin q) \<and>
     60 \<le> q"
proof -
  have "guard_passes allReviewsPassed mutation_state" by code_simp
  from mutation_score_enforced [OF this, of 60 "[(''mutation-adequacy'', JObj [(''status'', JStr ''pass''),
        (''mutationScore'', JInt 80)])]" "[(''status'', JStr ''pass''), (''mutationScore'', JInt 80)]"]
  show ?thesis by (simp add: mutation_state_def)
qed

text \<open>
  The forward guard and the fix-cycle guard of a review phase are never both satisfied, so a
  review state has at most one way to go.
\<close>

theorem review_guards_exclusive:
  "\<not> (guard_passes allReviewsPassed s \<and> guard_passes anyReviewFailed s)"
  by (auto simp: allReviewsPassed_iff anyReviewFailed_iff PASSED_STATUSES_def FAILED_STATUSES_def)
    fastforce+

section \<open>Safe payloads\<close>

text \<open>No key at any depth is one of the keys that reach a prototype.\<close>

fun unsafe_free :: "js \<Rightarrow> bool" where
  "unsafe_free (JObj fs) \<longleftrightarrow> (\<forall>kv \<in> set fs. fst kv \<notin> set UNSAFE_KEYS \<and> unsafe_free (snd kv))"
| "unsafe_free (JArr xs) \<longleftrightarrow> (\<forall>x \<in> set xs. unsafe_free x)"
| "unsafe_free _ = True"

lemma unsafe_free_update:
  "unsafe_free (JObj fs) \<Longrightarrow> k \<notin> set UNSAFE_KEYS \<Longrightarrow> unsafe_free v \<Longrightarrow>
   unsafe_free (JObj (AList.update k v fs))"
  using set_update_subset [of k v fs] by fastforce

lemma unsafe_free_member: "unsafe_free (JObj fs) \<Longrightarrow> (k, v) \<in> set fs \<Longrightarrow> unsafe_free v"
  by auto

lemma unsafe_free_fget: "unsafe_free (JObj fs) \<Longrightarrow> unsafe_free (fget fs k)"
  by (cases "map_of fs k") (simp_all add: fget_def unsafe_free_member [OF _ map_of_SomeD] del: unsafe_free.simps(1))

lemma unsafe_free_pass_status: "unsafe_free pass_status"
  by (simp add: pass_status_def obj1_def UNSAFE_KEYS_def)

lemma put_pass_safe: "unsafe_free (JObj fs) \<Longrightarrow> unsafe_free (JObj (put_pass path fs))"
proof (induction path fs rule: put_pass.induct)
  case (2 leaf cursor)
  then show ?case by (simp add: unsafe_free_update unsafe_free_pass_status del: unsafe_free.simps)
next
  case (3 key p ps cursor)
  have "unsafe_free (JObj (case fget cursor key of JObj branch \<Rightarrow> branch | _ \<Rightarrow> []))"
    using unsafe_free_fget [OF "3.prems", of key] by (cases "fget cursor key") simp_all
  with 3 show ?case by (simp add: unsafe_free_update del: unsafe_free.simps)
qed simp

lemma fold_put_pass_safe:
  "unsafe_free (JObj fs) \<Longrightarrow>
   unsafe_free (JObj (fold (\<lambda>s e. put_pass (split_on (CHR ''.'') (fst s)) e) ss fs))"
  by (induction ss arbitrary: fs) (simp_all add: put_pass_safe del: unsafe_free.simps)

lemma failed_review_entries_safe: "unsafe_free (JObj (failed_review_entries ss))"
  unfolding failed_review_entries_def by (rule fold_put_pass_safe) simp

lemma unsafe_free_spread:
  "unsafe_free (JObj fs) \<Longrightarrow> unsafe_free (JObj gs) \<Longrightarrow> unsafe_free (JObj (spread fs gs))"
proof (induction gs arbitrary: fs)
  case (Cons kv gs)
  obtain k v where kv: "kv = (k, v)" by (cases kv)
  have "unsafe_free (JObj (AList.update k v fs))"
    using Cons.prems kv by (intro unsafe_free_update) simp_all
  moreover have "unsafe_free (JObj gs)" using Cons.prems by simp
  ultimately show ?case using Cons.IH kv by (simp del: unsafe_free.simps(1))
qed simp

lemma missing_fold_safe:
  "unsafe_free (JObj fs) \<Longrightarrow> unsafe_free (JObj (fold
     (\<lambda>k acc. if k \<in> set UNSAFE_KEYS then acc else AList.update k pass_status acc) ks fs))"
  by (induction ks arbitrary: fs)
    (simp_all add: unsafe_free_update unsafe_free_pass_status del: unsafe_free.simps)

lemma unsafe_free_obj1: "unsafe_free (obj1 k v) \<longleftrightarrow> k \<notin> set UNSAFE_KEYS \<and> unsafe_free v"
  by (simp add: obj1_def)

lemma reviews_key_safe: "''reviews'' \<notin> set UNSAFE_KEYS"
  by (simp add: UNSAFE_KEYS_def)

lemma review_shape_safe: "unsafe_free REVIEW_EXPECTED_SHAPE"
  by code_simp

lemma failed_shape_safe: "unsafe_free (buildFailedReviewsExpectedShape np)"
  unfolding buildFailedReviewsExpectedShape_def unsafe_free_obj1
  using failed_review_entries_safe reviews_key_safe by blast

lemma expected_shape_safe: "unsafe_free (obj1 ''reviews'' (JObj (expected_reviews missing np)))"
proof -
  have "unsafe_free (JObj (expected_reviews missing np))"
    unfolding expected_reviews_def
    by (rule unsafe_free_spread [OF missing_fold_safe failed_review_entries_safe]) simp
  then show ?thesis unfolding unsafe_free_obj1 using reviews_key_safe by blast
qed

text \<open>
  The expected shape that a failing all-reviews-passed or review-passed guard reports never
  holds, at any depth, a key through which a client that copies it would write a prototype,
  whatever keys the stored reviews have.
\<close>

theorem review_shapes_safe:
  assumes "geval g s = Inr (GFail f)" "g = allReviewsPassed \<or> g = reviewPassed" "gf_shape f = Some shape"
  shows "unsafe_free shape"
proof -
  have shapes: "unsafe_free REVIEW_EXPECTED_SHAPE"
    "unsafe_free (obj1 ''reviews'' (JObj (expected_reviews missing np)))"
    "unsafe_free (buildFailedReviewsExpectedShape np)" for missing np
    by (simp_all add: review_shape_safe failed_shape_safe expected_shape_safe)
  from assms show ?thesis
    by (auto simp: allReviewsPassed_def reviewPassed_def allReviewsPassed_eval_def reviewPassed_eval_def
        mk_fail_def Let_def shapes split: option.splits if_splits)
qed

definition polluted_state :: fields where
  "polluted_state =
     [(''reviews'', JObj [(''__proto__'', JObj [(''status'', JStr ''fail'')]),
        (''a.constructor.b'', JObj [(''verdict'', JStr ''fail'')])])]"

lemma review_shapes_safe_witness:
  "\<exists>f shape. geval allReviewsPassed polluted_state = Inr (GFail f) \<and> gf_shape f = Some shape \<and>
     unsafe_free shape"
proof -
  obtain f shape where f: "geval allReviewsPassed polluted_state = Inr (GFail f)" "gf_shape f = Some shape"
    by (simp add: allReviewsPassed_def allReviewsPassed_eval_def polluted_state_def readObjectField_def
        mk_fail_def Let_def missing_reviews_def required_reviews_def List.map_filter_simps
        allReviewsPassed_reasons_def missing_reasons_def not_passed_reasons_def not_passed_def
        collectReviewStatuses_def statuses_of_def entry_status_def extractStatus_def js_lower_def
        lower_char_def PASSED_STATUSES_def)
  with review_shapes_safe [OF f(1) _ f(2)] show ?thesis by blast
qed

section \<open>Choice guards\<close>

text \<open>
  In the oneshot workflow exactly one of the two guards on the choice state passes, so the
  workflow is neither stuck nor ambiguous there.
\<close>

theorem synthesis_choice_exact:
  "guard_passes synthesisOptedIn s \<longleftrightarrow> \<not> guard_passes synthesisOptedOut s"
  by (simp add: synthesisOptedIn_def synthesisOptedOut_def synthesisOptedIn_eval_def
      synthesisOptedOut_eval_def split: synthesis_policy.splits)

text \<open>
  The task guard passes exactly when no task list is set, or the list is an array all of whose
  elements are records with the status text complete; a list of any other type is refused.
\<close>

theorem all_tasks_complete_iff:
  "guard_passes allTasksComplete s \<longleftrightarrow>
   is_nullish (fget s ''tasks'') \<or>
   (\<exists>tasks. fget s ''tasks'' = JArr tasks \<and>
      (\<forall>t \<in> set tasks. \<exists>fs. t = JObj fs \<and> fget fs ''status'' = JStr ''complete''))"
proof -
  have "readStringField t ''status'' = Some ''complete'' \<longleftrightarrow>
      (\<exists>fs. t = JObj fs \<and> fget fs ''status'' = JStr ''complete'')" for t
    by (cases t) (auto simp: readStringField_def as_string_Some_iff)
  then show ?thesis
    by (cases "fget s ''tasks''")
      (auto simp: allTasksComplete_def allTasksComplete_eval_def incomplete_tasks_def
        filter_empty_conv Let_def is_nullish_def)
qed

lemma all_tasks_complete_iff_witness:
  "guard_passes allTasksComplete
     [(''tasks'', JArr [JObj [(''id'', JStr ''t1''), (''status'', JStr ''complete'')]])] \<and>
   \<not> guard_passes allTasksComplete [(''tasks'', JStr ''complete'')]"
  unfolding all_tasks_complete_iff by (simp add: is_nullish_def)

section \<open>Merge detour\<close>

lemma some_terminal_iff:
  "\<forall>e \<in> set es. \<not> is_nullish e \<Longrightarrow>
   some_terminal es = Inr (\<exists>e \<in> set es. \<exists>m \<in> set MERGE_TERMINAL_EVENTS. has_type m e)"
  by (induction es) (auto simp: dot_get_def is_nullish_def has_type_def)

text \<open>
  The exit of the merge detour passes exactly when a terminal merge event follows the latest
  completed task, or the orchestrator's phase is terminal; an earlier merge does not count.
\<close>

theorem merge_exit_iff:
  assumes "fget s ''_events'' = JArr es" "\<forall>e \<in> set es. \<not> is_nullish e"
  shows "guard_passes mergePendingExit s \<longleftrightarrow>
    (\<exists>e \<in> set (after_last (has_type ''task.completed'') es). \<exists>m \<in> set MERGE_TERMINAL_EVENTS. has_type m e) \<or>
    (\<exists>p. merge_phase s = Some p \<and> p \<in> set EXCLUDED_MERGE_PHASES)"
proof -
  have "\<forall>e \<in> set (merge_cycle_events es). \<not> is_nullish e"
    using assms(2) after_last_subset [of "has_type ''task.completed''" es]
    by (auto simp: merge_cycle_events_def)
  from some_terminal_iff [OF this] assms(1) show ?thesis
    by (auto simp: guard_passes_def mergePendingExit_def mergePendingExit_eval_def merge_cycle_events_def
        split: option.splits)
qed

lemma merge_exit_iff_witness:
  "\<not> guard_passes mergePendingExit
     [(''_events'', JArr [obj1 ''type'' (JStr ''merge.executed''), obj1 ''type'' (JStr ''task.completed'')])]"
proof -
  let ?es = "[obj1 ''type'' (JStr ''merge.executed''), obj1 ''type'' (JStr ''task.completed'')]"
  have "after_last (has_type ''task.completed'') ?es = []"
    by (simp add: after_last_def has_type_def obj1_def)
  with merge_exit_iff [of "[(''_events'', JArr ?es)]" ?es] show ?thesis
    by (simp add: obj1_def merge_phase_def)
qed

section \<open>Plan revisions\<close>

text \<open>
  Under an integer revision cap, a workflow whose next plan-review dispatch is refused is not
  stuck: the guard of the edge to the blocked phase passes on the same events.
\<close>

theorem refused_dispatch_can_block:
  assumes "planReviewDispatchExceedsCap (tallyPlanRevisions (event_values s)) (of_int cap)"
    and "revision_cap s = of_int cap"
  shows "guard_passes revisionsExhausted s"
  using exceeds_imp_reached [OF assms(1)] assms(2) by (simp add: revisionsExhausted_def Let_def)

lemma refused_dispatch_can_block_witness:
  "guard_passes revisionsExhausted
     [(''_events'', JArr (replicate 2 (obj1 ''type'' (JStr ''workflow.plan-review-dispatched''))))]"
  by (rule refused_dispatch_can_block [of _ 1])
    (simp_all add: numeral_2_eq_2 event_values_def readRecordArrayField_def as_record_list_def obj1_def
      List.map_filter_simps planReviewDispatchExceedsCap_def tallyPlanRevisions_def tally_step_def
      eventTypeOf_def revision_types revisionsFrom_def revision_cap_def DEFAULT_MAX_PLAN_REVISIONS_def)

end
