(* ===== verification/Requirement_Context.thy ===== *)
theory Requirement_Context
  imports Phase_Kind
begin

text \<open>
  The input lattice of requirement resolution
  (\<open>src/workflow/admission/requirement-context.ts\<close>): reliability states, policy floors, the
  normalisation of untrusted input and the joins on the danger axes. The three joins by rank are
  instances of \<open>ranked_join\<close>; the join of coordinates is their product.
\<close>

section \<open>Reliability and floors\<close>

datatype reliability = Reliable | Degraded | UnknownReliability

definition RELIABILITY_STATES :: "reliability list" where
  "RELIABILITY_STATES = [Reliable, Degraded, UnknownReliability]"

definition RELIABILITY_UNCERTAINTY_RANK :: "reliability \<Rightarrow> nat" where
  "RELIABILITY_UNCERTAINTY_RANK r = (case r of Reliable \<Rightarrow> 0 | Degraded \<Rightarrow> 1 | UnknownReliability \<Rightarrow> 2)"

text \<open>A freshness verdict, of which only the \<open>degraded\<close> flag is read here.\<close>

record freshness =
  fresh_degraded :: bool

definition reliabilityFromFreshness :: "freshness option \<Rightarrow> reliability" where
  "reliabilityFromFreshness f =
     (case f of
        None \<Rightarrow> UnknownReliability
      | Some v \<Rightarrow> if fresh_degraded v then Degraded else Reliable)"

record policy_floor =
  minimumApprovals :: rat
  waivable :: bool

definition OPEN_POLICY_FLOOR :: policy_floor where
  "OPEN_POLICY_FLOOR = \<lparr>minimumApprovals = 0, waivable = True\<rparr>"

section \<open>Contexts\<close>

record requirement_context =
  rc_kind :: phase_kind
  rc_risk :: resolved_tier
  rc_boundary :: boundary_status
  rc_reliability :: reliability
  rc_gates :: "resolved_gate list"
  rc_policy :: policy_floor
  rc_workflow :: "string option"
  rc_depth :: "design_depth option"

datatype reliability_input = RState reliability | RVerdict freshness

record requirement_input =
  ri_kind :: phase_kind
  ri_risk :: js
  ri_boundary :: js
  ri_reliability :: "reliability_input option"
  ri_gates :: "resolved_gate list option"
  ri_policy :: "policy_floor option"
  ri_workflow :: "string option"
  ri_depth :: "design_depth option"

definition normalizeReliability :: "reliability_input option \<Rightarrow> reliability" where
  "normalizeReliability v =
     (case v of
        None \<Rightarrow> UnknownReliability
      | Some (RState r) \<Rightarrow> r
      | Some (RVerdict f) \<Rightarrow> reliabilityFromFreshness (Some f))"

definition buildRequirementContext :: "requirement_input \<Rightarrow> requirement_context" where
  "buildRequirementContext input =
     \<lparr>rc_kind = ri_kind input,
      rc_risk = resolveRiskTier (ri_risk input),
      rc_boundary = normalizeBoundaryStatus (ri_boundary input),
      rc_reliability = normalizeReliability (ri_reliability input),
      rc_gates = or_else (ri_gates input) [],
      rc_policy = or_else (ri_policy input) OPEN_POLICY_FLOOR,
      rc_workflow = ri_workflow input,
      rc_depth = ri_depth input\<rparr>"

section \<open>Coordinates and joins\<close>

record danger_coordinate =
  dc_risk :: resolved_tier
  dc_boundary :: boundary_status

definition resolveDangerCoordinate :: "js \<Rightarrow> js \<Rightarrow> danger_coordinate" where
  "resolveDangerCoordinate risk boundary =
     \<lparr>dc_risk = resolveRiskTier risk, dc_boundary = normalizeBoundaryStatus boundary\<rparr>"

definition dangerBoundaryTouching :: "danger_coordinate \<Rightarrow> bool" where
  "dangerBoundaryTouching coordinate = boundaryStatusTouches (dc_boundary coordinate)"

definition strongerBoundary :: "boundary_status \<Rightarrow> boundary_status \<Rightarrow> boundary_status" where
  "strongerBoundary a b = (if BOUNDARY_DANGER_RANK b \<le> BOUNDARY_DANGER_RANK a then a else b)"

definition joinRiskTier :: "resolved_tier \<Rightarrow> resolved_tier \<Rightarrow> resolved_tier" where
  "joinRiskTier a b = (if RISK_TIER_DANGER_RANK b \<le> RISK_TIER_DANGER_RANK a then a else b)"

definition joinDangerCoordinates ::
    "danger_coordinate \<Rightarrow> danger_coordinate \<Rightarrow> danger_coordinate" where
  "joinDangerCoordinates a b =
     \<lparr>dc_risk = joinRiskTier (dc_risk a) (dc_risk b),
      dc_boundary = strongerBoundary (dc_boundary a) (dc_boundary b)\<rparr>"

definition joinReliability :: "reliability \<Rightarrow> reliability \<Rightarrow> reliability" where
  "joinReliability a b =
     (if RELIABILITY_UNCERTAINTY_RANK b \<le> RELIABILITY_UNCERTAINTY_RANK a then a else b)"

definition join_floor :: "policy_floor \<Rightarrow> policy_floor \<Rightarrow> policy_floor" where
  "join_floor a b =
     \<lparr>minimumApprovals = max (minimumApprovals a) (minimumApprovals b),
      waivable = (waivable a \<and> waivable b)\<rparr>"

definition joinRequirementContexts ::
    "requirement_context \<Rightarrow> requirement_context \<Rightarrow> requirement_context" where
  "joinRequirementContexts a b =
     (let coordinate = joinDangerCoordinates
            \<lparr>dc_risk = rc_risk a, dc_boundary = rc_boundary a\<rparr>
            \<lparr>dc_risk = rc_risk b, dc_boundary = rc_boundary b\<rparr>
      in \<lparr>rc_kind = rc_kind a,
          rc_risk = dc_risk coordinate,
          rc_boundary = dc_boundary coordinate,
          rc_reliability = joinReliability (rc_reliability a) (rc_reliability b),
          rc_gates = rc_gates a @ rc_gates b,
          rc_policy = join_floor (rc_policy a) (rc_policy b),
          rc_workflow = (case rc_workflow a of None \<Rightarrow> rc_workflow b | Some w \<Rightarrow> Some w),
          rc_depth = (case rc_depth a of None \<Rightarrow> rc_depth b | Some d \<Rightarrow> Some d)\<rparr>)"

interpretation risk: ranked_join RISK_TIER_DANGER_RANK joinRiskTier
  by unfold_locales (simp_all add: rank_injective joinRiskTier_def)

interpretation bnd: ranked_join BOUNDARY_DANGER_RANK strongerBoundary
  by unfold_locales (simp_all add: rank_injective strongerBoundary_def)

interpretation rel: ranked_join RELIABILITY_UNCERTAINTY_RANK joinReliability
  by unfold_locales
    (auto simp: joinReliability_def RELIABILITY_UNCERTAINTY_RANK_def split: reliability.splits)

lemma join_coordinates_laws:
  "joinDangerCoordinates a a = a"
  "joinDangerCoordinates a b = joinDangerCoordinates b a"
  "joinDangerCoordinates (joinDangerCoordinates a b) c =
   joinDangerCoordinates a (joinDangerCoordinates b c)"
  by (simp_all add: joinDangerCoordinates_def risk.join_assoc bnd.join_assoc
      risk.join_comm [of "dc_risk a"] bnd.join_comm [of "dc_boundary a"])

text \<open>One coordinate is at most as dangerous as another, on both axes.\<close>

definition danger_le :: "danger_coordinate \<Rightarrow> danger_coordinate \<Rightarrow> bool" where
  "danger_le a b \<longleftrightarrow> dc_risk a \<le> dc_risk b \<and> dc_boundary a \<le> dc_boundary b"

lemma danger_le_join:
  "danger_le a (joinDangerCoordinates a b)" "danger_le b (joinDangerCoordinates a b)"
  by (simp_all add: danger_le_def joinDangerCoordinates_def tier_order_defs risk.join_upper bnd.join_upper)

lemma danger_join_le_iff:
  "danger_le (joinDangerCoordinates a b) c \<longleftrightarrow> danger_le a c \<and> danger_le b c"
  by (auto simp: danger_le_def joinDangerCoordinates_def tier_order_defs risk.rank_join bnd.rank_join)

lemma danger_le_refl [simp]: "danger_le a a"
  by (simp add: danger_le_def)

lemma danger_le_trans: "danger_le a b \<Longrightarrow> danger_le b c \<Longrightarrow> danger_le a c"
  by (auto simp: danger_le_def)

lemma touching_mono: "danger_le a b \<Longrightarrow> dangerBoundaryTouching a \<Longrightarrow> dangerBoundaryTouching b"
  by (cases "dc_boundary a"; cases "dc_boundary b")
    (auto simp: danger_le_def dangerBoundaryTouching_def boundaryStatusTouches_def tier_order_defs
      BOUNDARY_DANGER_RANK_def)

text \<open>The gates of the built-in ladder at a coordinate; they only grow with the danger.\<close>

definition ladder_at :: "danger_coordinate \<Rightarrow> gate_name list" where
  "ladder_at c = builtin_gates (dangerBoundaryTouching c) (dc_risk c)"

lemma ladder_at_mono: "danger_le a b \<Longrightarrow> set (ladder_at a) \<subseteq> set (ladder_at b)"
proof -
  assume le: "danger_le a b"
  let ?ta = "dangerBoundaryTouching a" and ?tb = "dangerBoundaryTouching b"
  have r: "dc_risk a \<le> dc_risk b" using le by (simp add: danger_le_def)
  have "set (ladder_at a) \<subseteq> set (builtin_gates ?ta (dc_risk b))"
    using builtin_plain.gates_mono [OF r] builtin_touching.gates_mono [OF r]
    by (cases ?ta) (simp_all add: ladder_at_def)
  also have "\<dots> \<subseteq> set (builtin_gates ?tb (dc_risk b))"
    using touching_mono [OF le] boundary_adds_gates [of False] by (cases ?ta; cases ?tb) auto
  finally show ?thesis by (simp add: ladder_at_def)
qed

end
