(* ===== verification/Policy_Laws.thy ===== *)
theory Policy_Laws
  imports Phase_Kind Requirement_Context
begin

text \<open>
  What the verification policy guarantees across its parts: more danger never means fewer gates, an
  unknown tier fails safe in the two opposite directions of its readers, a workflow takes the worst
  tier of its tasks, and a gate set that was resolved survives its freeze in an event.
\<close>

section \<open>Danger and gates\<close>

text \<open>
  The gates of a join of two danger coordinates include the gates of either: joining a weaker
  claim into a coordinate never removes a gate of the built-in ladder.
\<close>

theorem ladder_of_join_covers:
  "set (ladder_at a) \<union> set (ladder_at b) \<subseteq> set (ladder_at (joinDangerCoordinates a b))"
  using ladder_at_mono [OF danger_le_join(1)] ladder_at_mono [OF danger_le_join(2)] by blast

lemma builtin_sequence:
  "policy_sequence (resolveVerificationPolicy t b None) = builtin_gates b t"
  by (simp add: builtin_gates_def)

lemma unknown_is_top: "set (builtin_gates b t) \<subseteq> set (builtin_gates b' UnknownTier)"
proof -
  have "set (builtin_gates b t) \<subseteq> set (builtin_gates True t)" by (rule boundary_adds_gates)
  also have "\<dots> \<subseteq> set (builtin_gates True UnknownTier)"
    by (rule builtin_touching.gates_mono) (cases t, simp_all add: tier_order_defs rank_defs split: risk_tier.split)
  finally show ?thesis by simp
qed

lemma roster_base: "set (getRequiredReviews w None) \<subseteq> set (getRequiredReviews w t)"
  by (auto simp: getRequiredReviews_def Let_def)

text \<open>
  A task without a tier claim gets every gate that any tier and boundary claim would give it,
  while a workflow without a tier claim gets no review dimension that a tier claim would not.
\<close>

theorem unknown_tier_fails_safe:
  "set (policy_sequence (resolveVerificationPolicy t b None)) \<subseteq>
     set (policy_sequence (resolveVerificationPolicy UnknownTier b' None)) \<and>
   set (getRequiredReviews w (map_option risk_tier_str (reviewRosterTier UnknownTier))) \<subseteq>
     set (getRequiredReviews w (map_option risk_tier_str (reviewRosterTier t)))"
  using unknown_is_top [of b t b'] roster_base [of w] by (simp add: builtin_sequence reviewRosterTier_def)

text \<open>
  The tier of a workflow is the highest tier of its tasks, a task without a tier counting as
  low, and low when there are no tasks.
\<close>

theorem workflow_tier_is_max:
  "deriveWorkflowRiskTier tasks =
   Max (insert Low ((\<lambda>task. case task of None \<Rightarrow> Low | Some t \<Rightarrow> t) ` set tasks))"
  unfolding deriveWorkflowRiskTier_def by (rule foldl_max_tier)

section \<open>Joined contexts\<close>

lemma floor_join_upper:
  "minimumApprovals p \<le> minimumApprovals (join_floor p q)"
  "minimumApprovals q \<le> minimumApprovals (join_floor p q)"
  "waivable (join_floor p q) \<Longrightarrow> waivable p \<and> waivable q"
  by (simp_all add: join_floor_def)

text \<open>
  The join of two requirement contexts is at least as strong as either in every dimension:
  tier, boundary, reliability, declared gates, approvals and waivers; and its tier, boundary and
  reliability are no stronger than the stronger of the two.
\<close>

theorem joined_context_dominates:
  fixes a b :: requirement_context
  defines "j \<equiv> joinRequirementContexts a b"
  shows "rc_risk a \<le> rc_risk j \<and> rc_risk b \<le> rc_risk j \<and>
    rc_boundary a \<le> rc_boundary j \<and> rc_boundary b \<le> rc_boundary j \<and>
    RELIABILITY_UNCERTAINTY_RANK (rc_reliability j) =
      max (RELIABILITY_UNCERTAINTY_RANK (rc_reliability a)) (RELIABILITY_UNCERTAINTY_RANK (rc_reliability b)) \<and>
    set (rc_gates j) = set (rc_gates a) \<union> set (rc_gates b) \<and>
    minimumApprovals (rc_policy j) = max (minimumApprovals (rc_policy a)) (minimumApprovals (rc_policy b)) \<and>
    (waivable (rc_policy j) = (waivable (rc_policy a) \<and> waivable (rc_policy b))) \<and>
    (rc_risk j = rc_risk a \<or> rc_risk j = rc_risk b) \<and>
    (rc_boundary j = rc_boundary a \<or> rc_boundary j = rc_boundary b)"
  by (simp add: j_def joinRequirementContexts_def Let_def joinDangerCoordinates_def join_floor_def
      tier_order_defs risk.join_upper bnd.join_upper rel.rank_join risk.join_cases bnd.join_cases)

section \<open>Frozen gates\<close>

text \<open>The family of the gates of a kind.\<close>

definition kind_family :: "phase_kind \<Rightarrow> gate_family option" where
  "kind_family k =
     (case k of
        IMPLEMENT \<Rightarrow> Some LadderFamily | PLAN \<Rightarrow> Some PlanFamily | REVIEW \<Rightarrow> Some ReviewFamily
      | SYNTHESIZE \<Rightarrow> Some SynthesisFamily | MERGE \<Rightarrow> None | GATHER \<Rightarrow> None)"

lemma gate_texts_nonempty:
  "gate_name_str n \<noteq> ''''" "plan_gate_str p \<noteq> ''''" "leg_str l \<noteq> ''''"
  by (cases n, simp_all add: gate_name_str_def) (cases p, simp_all add: plan_gate_str_def,
      cases l, simp_all add: leg_str_def)

lemma roster_nonempty: "d \<in> set (getRequiredReviews w t) \<Longrightarrow> d \<noteq> ''''"
  by (auto simp: getRequiredReviews_def Let_def table_row_def REQUIRED_REVIEWS_BY_TIER_def
      REQUIRED_REVIEWS_BY_WORKFLOW_TYPE_def split: option.splits if_splits)

lemma resolved_gate_shape:
  assumes "resolveGateSet k ctx = Inr gs" "g \<in> set gs"
  shows "gate_str g \<noteq> '''' \<and> kind_family k = Some (family g)"
  using assms
  by (cases k)
    (auto simp: GATE_RESOLVERS_def kind_family_def bind_result_def gate_texts_nonempty roster_nonempty
      LadderGate_def PlanGate_def ReviewGate_def SynthesisGate_def split: sum.splits)

text \<open>
  Every gate set that a phase kind resolves to holds gates of that kind's family only, and
  the list that an event freezes reads back as the same gates in the same order.
\<close>

theorem resolved_gates_survive_freeze:
  assumes "resolveGateSet k ctx = Inr gs"
  shows "readFrozenGateSequence (map gate_js gs) = Some gs \<and>
    (\<forall>g \<in> set gs. kind_family k = Some (family g))"
  using resolved_gate_shape [OF assms] frozen_sequence_round_trip [of gs] by blast

definition review_ctx :: gate_ctx where
  "review_ctx = \<lparr>ctx_tier = Tier High, ctx_boundary = True, ctx_config = None,
     ctx_workflow = Some ''feature'', ctx_depth = JUndef\<rparr>"

lemma review_ctx_gates:
  "resolveGateSet REVIEW review_ctx = Inr [ReviewGate ''review'', ReviewGate ''mutation-adequacy'']"
  by code_simp

lemma resolved_gates_survive_freeze_witness:
  "readFrozenGateSequence (map gate_js [ReviewGate ''review'', ReviewGate ''mutation-adequacy'']) =
   Some [ReviewGate ''review'', ReviewGate ''mutation-adequacy'']"
  using resolved_gates_survive_freeze [OF review_ctx_gates] by blast

lemma depth_throw_iff:
  "(\<exists>e. resolvePlanDepthPolicy d = Inl e) \<longleftrightarrow> depth_of_key (js_string d) = None"
  by (simp add: resolvePlanDepthPolicy_def split: option.splits)

text \<open>
  Under the real resolver a phase boundary fails closed in one case only: a planning phase
  whose state carries a design depth that is none of thin, standard and deep.
\<close>

theorem boundary_fails_only_on_unknown_depth:
  "(\<exists>reason. resolveGateSetFailClosed k ctx resolveGateSet = Inl reason) \<longleftrightarrow>
   k = PLAN \<and> \<not> is_nullish (ctx_depth ctx) \<and>
   js_string (ctx_depth ctx) \<notin> {''thin'', ''standard'', ''deep''}"
proof -
  have known: "depth_of_key s = None \<longleftrightarrow> s \<notin> {''thin'', ''standard'', ''deep''}" for s
    by (simp add: depth_of_key_def)
  show ?thesis
    by (cases k)
      (auto simp: resolveGateSetFailClosed_def GATE_RESOLVERS_def bind_result_def known [symmetric]
        resolvePlanDepthPolicy_def depth_of_key_def split: option.splits sum.splits)
qed

end
