(* ===== verification/Hsm_Registry.thy ===== *)
theory Hsm_Registry
  imports Hsm_Definitions
begin

text \<open>
  The registry of \<open>src/workflow/state-machine.ts\<close>: built-in and custom workflow types, the
  conversion of a config definition to a machine, the serialised topology, and the queries on the
  structure of a machine. The module state is the pair of registries. The locale \<open>hsm_wf\<close> states
  what the executor relies on of a machine; the five built-in machines satisfy it.
\<close>

section \<open>Structure of a machine\<close>

definition getParentCompound :: "hsm \<Rightarrow> string \<Rightarrow> hsm_state option" where
  "getParentCompound h stateId =
     Option.bind (state_at h stateId) (\<lambda>s. Option.bind (st_parent s) (\<lambda>p.
       if p = '''' then None else state_at h p))"

text \<open>
  The loop of \<open>getCompoundAncestors\<close>. It ends when a state has no parent; on a chain of parents
  without a cycle the number of states is enough fuel.
\<close>

fun ancestors_from :: "nat \<Rightarrow> hsm \<Rightarrow> hsm_state option \<Rightarrow> hsm_state list" where
  "ancestors_from 0 h cur = []"
| "ancestors_from (Suc n) h cur =
     (case Option.bind cur st_parent of
        None \<Rightarrow> []
      | Some p \<Rightarrow>
          if p = '''' then []
          else (case state_at h p of
                  Some parent \<Rightarrow> parent # ancestors_from n h (Some parent)
                | None \<Rightarrow> []))"

definition getCompoundAncestors :: "hsm \<Rightarrow> string \<Rightarrow> hsm_state list" where
  "getCompoundAncestors h stateId =
     ancestors_from (Suc (length (hsm_states h))) h (state_at h stateId)"

record guard_ref =
  gr_id :: string
  gr_description :: string

definition guard_ref_of :: "guard \<Rightarrow> guard_ref" where
  "guard_ref_of g = \<lparr>gr_id = gid g, gr_description = gdesc g\<rparr>"

record valid_target =
  vt_phase :: string
  vt_guard :: "guard_ref option"
  vt_universal :: bool

definition own_targets :: "hsm \<Rightarrow> string \<Rightarrow> transition list" where
  "own_targets h fromPhase = dedup_from {} tto (filter (\<lambda>t. tfrom t = fromPhase) (hsm_transitions h))"

definition getValidTransitions :: "hsm \<Rightarrow> string \<Rightarrow> valid_target list" where
  "getValidTransitions h fromPhase =
     (case state_at h fromPhase of
        None \<Rightarrow> []
      | Some st \<Rightarrow>
          if st_type st = Final then []
          else
            (let own = own_targets h fromPhase; seen = tto ` set own in
             map (\<lambda>t. \<lparr>vt_phase = tto t, vt_guard = map_option guard_ref_of (tguard t),
                        vt_universal = False\<rparr>) own @
             (if ''cancelled'' \<notin> seen \<and> state_at h ''cancelled'' \<noteq> None
              then [\<lparr>vt_phase = ''cancelled'', vt_guard = None, vt_universal = True\<rparr>] else []) @
             (if ''completed'' \<notin> seen \<and> state_at h ''completed'' \<noteq> None
              then [\<lparr>vt_phase = ''completed'', vt_guard = Some (guard_ref_of mergeVerified),
                     vt_universal = True\<rparr>] else [])))"

definition findTransition :: "hsm \<Rightarrow> string \<Rightarrow> string \<Rightarrow> transition option" where
  "findTransition h fromPhase toPhase =
     find (\<lambda>t. tfrom t = fromPhase \<and> tto t = toPhase) (hsm_transitions h)"

section \<open>The registry\<close>

definition BUILT_IN_TYPES :: "string list" where
  "BUILT_IN_TYPES = [''feature'', ''debug'', ''refactor'', ''oneshot'', ''discovery'']"

record registry =
  reg_hsms :: "(string \<times> hsm) list"
  reg_initials :: "(string \<times> string) list"

definition initial_registry :: registry where
  "initial_registry =
     \<lparr>reg_hsms =
        [(''feature'', createFeatureHSM), (''debug'', createDebugHSM),
         (''refactor'', createRefactorHSM), (''oneshot'', createOneshotHSM),
         (''discovery'', createDiscoveryHSM)],
      reg_initials =
        [(''feature'', ''plan''), (''debug'', ''triage''), (''refactor'', ''explore''),
         (''oneshot'', ''plan''), (''discovery'', ''gathering'')]\<rparr>"

definition isBuiltInWorkflowType :: "string \<Rightarrow> bool" where
  "isBuiltInWorkflowType workflowType \<longleftrightarrow> workflowType \<in> set BUILT_IN_TYPES"

definition getHSMDefinition :: "registry \<Rightarrow> string \<Rightarrow> js_exn + hsm" where
  "getHSMDefinition r workflowType =
     (case map_of (reg_hsms r) workflowType of
        Some h \<Rightarrow> Inr h
      | None \<Rightarrow> Inl (Thrown (''Unknown workflow type: '' @ workflowType)))"

definition getInitialPhase :: "registry \<Rightarrow> string \<Rightarrow> js_exn + string" where
  "getInitialPhase r workflowType =
     (case map_of (reg_initials r) workflowType of
        Some p \<Rightarrow>
          if p = '''' then Inl (Thrown (''Unknown workflow type: '' @ workflowType)) else Inr p
      | None \<Rightarrow> Inl (Thrown (''Unknown workflow type: '' @ workflowType)))"

type_synonym tracks = "(string \<times> string list) list"

definition empty_tracks :: "hsm \<Rightarrow> tracks" where
  "empty_tracks h =
     fold (\<lambda>(_, st) tr. if st_type st = Compound then AList.update (st_id st) [] tr else tr)
       (hsm_states h) []"

definition push_child :: "string \<times> hsm_state \<Rightarrow> tracks \<Rightarrow> tracks" where
  "push_child kv tr =
     (case st_parent (snd kv) of
        None \<Rightarrow> tr
      | Some p \<Rightarrow>
          if p = '''' then tr
          else (case map_of tr p of
                  None \<Rightarrow> tr
                | Some children \<Rightarrow> AList.update p (children @ [st_id (snd kv)]) tr))"

definition deriveTracks :: "hsm \<Rightarrow> tracks" where
  "deriveTracks h = fold push_child (hsm_states h) (empty_tracks h)"

definition effect_str :: "effect \<Rightarrow> string" where
  "effect_str e =
     (case e of CheckpointEffect \<Rightarrow> ''checkpoint'' | LogEffect \<Rightarrow> ''log''
              | IncrementFixCycle \<Rightarrow> ''increment-fix-cycle'')"

definition state_type_str :: "state_type \<Rightarrow> string" where
  "state_type_str t =
     (case t of Atomic _ \<Rightarrow> ''atomic'' | Compound \<Rightarrow> ''compound'' | Final \<Rightarrow> ''final'')"

record ser_state =
  ss_id :: string
  ss_type :: string
  ss_parent :: "string option"
  ss_initial :: "string option"
  ss_maxFixCycles :: "nat option"
  ss_onEntry :: "string list option"
  ss_onExit :: "string list option"

record ser_transition =
  sr_from :: string
  sr_to :: string
  sr_guard :: "guard_ref option"
  sr_isFixCycle :: "bool option"
  sr_isRevision :: "bool option"
  sr_effects :: "string list option"

record serialized_topology =
  top_type :: string
  top_initial :: string
  top_states :: "(string \<times> ser_state) list"
  top_transitions :: "ser_transition list"
  top_tracks :: tracks

definition ser_state_of :: "hsm_state \<Rightarrow> ser_state" where
  "ser_state_of st =
     \<lparr>ss_id = st_id st, ss_type = state_type_str (st_type st), ss_parent = st_parent st,
      ss_initial = st_initial st, ss_maxFixCycles = st_maxFixCycles st,
      ss_onEntry = map_option (map effect_str) (st_onEntry st),
      ss_onExit = map_option (map effect_str) (st_onExit st)\<rparr>"

definition ser_transition_of :: "transition \<Rightarrow> ser_transition" where
  "ser_transition_of t =
     \<lparr>sr_from = tfrom t, sr_to = tto t, sr_guard = map_option guard_ref_of (tguard t),
      sr_isFixCycle = isFixCycle t, sr_isRevision = isRevision t,
      sr_effects = map_option (map effect_str) (teffects t)\<rparr>"

definition serializeTopology :: "registry \<Rightarrow> string \<Rightarrow> js_exn + serialized_topology" where
  "serializeTopology r workflowType =
     bind_result (getHSMDefinition r workflowType) (\<lambda>h.
     bind_result (getInitialPhase r workflowType) (\<lambda>initialPhase.
       Inr \<lparr>top_type = workflowType, top_initial = initialPhase,
            top_states = map (\<lambda>(i, st). (i, ser_state_of st)) (hsm_states h),
            top_transitions = map ser_transition_of (hsm_transitions h),
            top_tracks = deriveTracks h\<rparr>))"

record type_summary =
  ts_name :: string
  ts_initial :: string
  ts_phases :: nat
  ts_tracks :: nat

definition listWorkflowTypes :: "registry \<Rightarrow> type_summary list" where
  "listWorkflowTypes r =
     map (\<lambda>(name, h).
       \<lparr>ts_name = name, ts_initial = or_else (map_of (reg_initials r) name) '''',
        ts_phases = length (hsm_states h), ts_tracks = length (deriveTracks h)\<rparr>) (reg_hsms r)"

section \<open>Custom workflow types\<close>

record guard_definition =
  gd_command :: string
  gd_timeout :: "nat option"
  gd_description :: "string option"

record transition_definition =
  td_from :: string
  td_to :: string
  td_event :: string
  td_guard :: "string option"

record workflow_definition =
  wd_extends :: "string option"
  wd_phases :: "string list"
  wd_initialPhase :: string
  wd_transitions :: "transition_definition list"
  wd_guards :: "(string \<times> guard_definition) list"

definition createGuardFromDefinition :: "string \<Rightarrow> guard_definition \<Rightarrow> guard" where
  "createGuardFromDefinition guardId guardDef =
     \<lparr>gid = guardId,
      gdesc = or_else (gd_description guardDef) (''Custom guard: '' @ guardId),
      gcustom = True,
      geval = (\<lambda>_. Inr GPass)\<rparr>"

definition truthy_name :: "string option \<Rightarrow> string option" where
  "truthy_name x = (case x of None \<Rightarrow> None | Some s \<Rightarrow> if s = '''' then None else Some s)"

definition base_machine ::
    "registry \<Rightarrow> workflow_definition \<Rightarrow> js_exn + (string \<times> hsm_state) list \<times> transition list" where
  "base_machine r d =
     (case truthy_name (wd_extends d) of
        None \<Rightarrow> Inr ([], [])
      | Some parentName \<Rightarrow>
          (case map_of (reg_hsms r) parentName of
             None \<Rightarrow> Inl (Thrown (''Cannot extend unknown workflow type: '' @ parentName))
           | Some parent \<Rightarrow> Inr (hsm_states parent, hsm_transitions parent)))"

definition add_state ::
    "string \<Rightarrow> hsm_state \<Rightarrow> (string \<times> hsm_state) list \<Rightarrow> (string \<times> hsm_state) list" where
  "add_state i st states = (if map_of states i = None then AList.update i st states else states)"

definition add_phases :: "string list \<Rightarrow> (string \<times> hsm_state) list \<Rightarrow> (string \<times> hsm_state) list" where
  "add_phases phases states = fold (\<lambda>p acc. add_state p (atomic p GATHER None) acc) phases states"

definition custom_transition ::
    "(string \<times> guard_definition) list \<Rightarrow> transition_definition \<Rightarrow> js_exn + transition" where
  "custom_transition gdefs t =
     (let base = \<lparr>tfrom = td_from t, tto = td_to t, tguard = None, teffects = None,
                  isFixCycle = None, isRevision = None\<rparr>
      in case truthy_name (td_guard t) of
           None \<Rightarrow> Inr base
         | Some g \<Rightarrow>
             (case map_of gdefs g of
                None \<Rightarrow> Inl (Thrown (''Transition '' @ td_from t @ '' '' @ right_arrow @ '' '' @
                          td_to t @ '' references unknown guard '' @ [CHR 0x27] @ g @ [CHR 0x27] @
                          ''. Define it in guards.''))
              | Some gd \<Rightarrow> Inr (base\<lparr>tguard := Some (createGuardFromDefinition g gd)\<rparr>)))"

fun map_result :: "('a \<Rightarrow> 'e + 'b) \<Rightarrow> 'a list \<Rightarrow> 'e + 'b list" where
  "map_result f [] = Inr []"
| "map_result f (x # xs) =
     bind_result (f x) (\<lambda>y. bind_result (map_result f xs) (\<lambda>ys. Inr (y # ys)))"

definition transitionKey :: "transition \<Rightarrow> string" where
  "transitionKey t = tfrom t @ ''->'' @ tto t"

definition merge_transitions :: "transition list \<Rightarrow> transition list" where
  "merge_transitions ts = map snd (fold (\<lambda>t m. AList.update (transitionKey t) t m) ts [])"

definition convertToHSM :: "registry \<Rightarrow> string \<Rightarrow> workflow_definition \<Rightarrow> js_exn + hsm" where
  "convertToHSM r name d =
     bind_result (base_machine r d) (\<lambda>(baseStates, baseTransitions).
     bind_result (map_result (custom_transition (wd_guards d)) (wd_transitions d)) (\<lambda>customTransitions.
       Inr \<lparr>hsm_id = name,
            hsm_states =
              add_state ''completed'' (final ''completed'')
                (add_state ''cancelled'' (final ''cancelled'') (add_phases (wd_phases d) baseStates)),
            hsm_transitions = merge_transitions (baseTransitions @ customTransitions)\<rparr>))"

definition registerWorkflowType ::
    "string \<Rightarrow> workflow_definition \<Rightarrow> registry \<Rightarrow> js_exn + registry" where
  "registerWorkflowType name d r =
     (if name \<in> set BUILT_IN_TYPES then
        Inl (Thrown (''Cannot override built-in workflow type: '' @ name))
      else bind_result (convertToHSM r name d) (\<lambda>h.
        Inr \<lparr>reg_hsms = AList.update name h (reg_hsms r),
             reg_initials = AList.update name (wd_initialPhase d) (reg_initials r)\<rparr>))"

definition unregisterWorkflowType :: "string \<Rightarrow> registry \<Rightarrow> js_exn + registry" where
  "unregisterWorkflowType name r =
     (if name \<in> set BUILT_IN_TYPES then
        Inl (Thrown (''Cannot unregister built-in workflow type: '' @ name))
      else Inr \<lparr>reg_hsms = AList.delete name (reg_hsms r),
                reg_initials = AList.delete name (reg_initials r)\<rparr>)"

end
