(* ===== verification/Hsm_Structure.thy ===== *)
theory Hsm_Structure
  imports Hsm_Registry
begin

text \<open>
  The structural contract of a machine and what follows from it. \<open>hsm_wf\<close> is what the executor
  relies on: state keys agree with the state ids and a parent is a compound state without a parent
  of its own. \<open>hsm_closed\<close> adds that edges join states of the machine, that no edge leaves a final
  state, and that the universal targets are final. Both are interpreted on the built-in machines,
  and every machine that the registry can hold satisfies the first.
\<close>

section \<open>Contracts\<close>

definition parent_ok :: "(string \<times> hsm_state) list \<Rightarrow> hsm_state \<Rightarrow> bool" where
  "parent_ok ss st \<longleftrightarrow>
     (case st_parent st of
        None \<Rightarrow> True
      | Some p \<Rightarrow> p \<noteq> '''' \<and>
          (case map_of ss p of
             None \<Rightarrow> False
           | Some q \<Rightarrow> st_type q = Compound \<and> st_parent q = None))"

definition wf_states :: "(string \<times> hsm_state) list \<Rightarrow> bool" where
  "wf_states ss \<longleftrightarrow>
     distinct (map fst ss) \<and> list_all (\<lambda>(i, st). st_id st = i \<and> parent_ok ss st) ss"

definition wf_machine :: "hsm \<Rightarrow> bool" where
  "wf_machine h \<longleftrightarrow> wf_states (hsm_states h)"

definition closed_machine :: "hsm \<Rightarrow> bool" where
  "closed_machine h \<longleftrightarrow>
     list_all (\<lambda>t. state_at h (tfrom t) \<noteq> None \<and> state_at h (tto t) \<noteq> None \<and>
       \<not> is_final h (tfrom t)) (hsm_transitions h) \<and>
     is_final h ''cancelled'' \<and> is_final h ''completed''"

locale hsm_wf =
  fixes h :: hsm
  assumes state_id: "state_at h i = Some st \<Longrightarrow> st_id st = i"
    and parent_compound:
      "state_at h i = Some st \<Longrightarrow> st_parent st = Some p \<Longrightarrow>
       p \<noteq> '''' \<and> (\<exists>q. state_at h p = Some q \<and> st_type q = Compound \<and> st_parent q = None)"
begin

lemma ancestors_enough_fuel:
  "ancestors_from (Suc (Suc n)) h (state_at h i) =
   (case getParentCompound h i of None \<Rightarrow> [] | Some q \<Rightarrow> [q])"
  using parent_compound [of i]
  by (cases "state_at h i")
    (fastforce simp: getParentCompound_def split: option.splits)+

lemma ancestors_eq:
  "getCompoundAncestors h i = (case getParentCompound h i of None \<Rightarrow> [] | Some q \<Rightarrow> [q])"
proof (cases "hsm_states h")
  case Nil
  then show ?thesis
    by (simp add: getCompoundAncestors_def getParentCompound_def state_at_def)
next
  case (Cons a as)
  then show ?thesis
    using ancestors_enough_fuel [of "length as" i] by (simp add: getCompoundAncestors_def)
qed

lemma parent_is_compound:
  "getParentCompound h i = Some q \<Longrightarrow> st_type q = Compound \<and> st_parent q = None"
  using parent_compound [of i]
  by (force simp: getParentCompound_def split: if_splits bind_splits)

lemma parent_id:
  assumes "getParentCompound h i = Some q"
  shows "\<exists>st. state_at h i = Some st \<and> st_parent st = Some (st_id q) \<and> state_at h (st_id q) = Some q"
  using assms state_id by (auto simp: getParentCompound_def split: if_splits bind_splits)

end

locale hsm_closed = hsm_wf +
  assumes edges_closed: "t \<in> set (hsm_transitions h) \<Longrightarrow>
       state_at h (tfrom t) \<noteq> None \<and> state_at h (tto t) \<noteq> None"
    and edges_leave_nonfinal: "t \<in> set (hsm_transitions h) \<Longrightarrow> \<not> is_final h (tfrom t)"
    and universal_final: "is_final h ''cancelled''" "is_final h ''completed''"
begin

lemma universal_states: "state_at h ''cancelled'' \<noteq> None" "state_at h ''completed'' \<noteq> None"
  using universal_final by (simp_all add: is_final_def split: option.splits)

lemma find_closed:
  "findTransition h a b = Some t \<Longrightarrow>
   t \<in> set (hsm_transitions h) \<and> tfrom t = a \<and> tto t = b \<and> state_at h b \<noteq> None"
  using edges_closed by (auto simp: findTransition_def find_Some_iff)

lemma no_edge_from_final: "is_final h a \<Longrightarrow> findTransition h a b = None"
  using edges_leave_nonfinal by (auto simp: findTransition_def find_None_iff)

end

lemma wf_statesD:
  assumes "wf_states ss" "map_of ss i = Some st"
  shows "st_id st = i" "parent_ok ss st"
  using assms map_of_SomeD [OF assms(2)] by (auto simp: wf_states_def list_all_iff)

lemma hsm_wfI: "wf_machine h \<Longrightarrow> hsm_wf h"
  by unfold_locales
    (auto simp: wf_machine_def state_at_def parent_ok_def dest: wf_statesD split: option.splits)

lemma hsm_closedI: "wf_machine h \<Longrightarrow> closed_machine h \<Longrightarrow> hsm_closed h"
  by (intro hsm_closed.intro hsm_wfI hsm_closed_axioms.intro)
    (auto simp: closed_machine_def list_all_iff)

lemma builtin_wf:
  "wf_machine createFeatureHSM" "wf_machine createDebugHSM" "wf_machine createRefactorHSM"
  "wf_machine createOneshotHSM" "wf_machine createDiscoveryHSM"
  unfolding wf_machine_def createFeatureHSM_def createDebugHSM_def createRefactorHSM_def
    createOneshotHSM_def createDiscoveryHSM_def hsm.simps
  by (simp_all add: wf_states_def parent_ok_def atomic_def compound_def final_def feature_states_def
      debug_states_def refactor_states_def oneshot_states_def discovery_states_def)

text \<open>The graph of a machine: the ends of its edges, and the type of each state.\<close>

definition edge_pairs :: "hsm \<Rightarrow> (string \<times> string) list" where
  "edge_pairs h = map (\<lambda>t. (tfrom t, tto t)) (hsm_transitions h)"

definition state_types :: "hsm \<Rightarrow> (string \<times> state_type) list" where
  "state_types h = map (\<lambda>(i, st). (i, st_type st)) (hsm_states h)"

lemma state_types_lookup: "map_of (state_types h) i = map_option st_type (state_at h i)"
  by (simp add: state_types_def state_at_def map_of_map)

lemma is_final_types: "is_final h i \<longleftrightarrow> map_of (state_types h) i = Some Final"
  by (auto simp: state_types_lookup is_final_def split: option.splits)

lemma edge_pairs_iff:
  "(a, b) \<in> set (edge_pairs h) \<longleftrightarrow> (\<exists>t \<in> set (hsm_transitions h). tfrom t = a \<and> tto t = b)"
  by (auto simp: edge_pairs_def)

definition closed_graph :: "(string \<times> state_type) list \<Rightarrow> (string \<times> string) list \<Rightarrow> bool" where
  "closed_graph types edges \<longleftrightarrow>
     list_all (\<lambda>(a, b). map_of types a \<noteq> None \<and> map_of types b \<noteq> None \<and>
       map_of types a \<noteq> Some Final) edges \<and>
     map_of types ''cancelled'' = Some Final \<and> map_of types ''completed'' = Some Final"

lemma closed_machineI: "closed_graph (state_types h) (edge_pairs h) \<Longrightarrow> closed_machine h"
  by (auto simp: closed_graph_def closed_machine_def edge_pairs_def list_all_iff is_final_types
      state_types_lookup)

lemma builtin_edge_pairs:
  "edge_pairs createFeatureHSM =
     [(''plan'', ''plan-review''), (''plan-review'', ''delegate''), (''plan-review'',
      ''blocked''), (''plan-review'', ''plan''), (''delegate'', ''review''), (''delegate'',
      ''merge-pending''), (''merge-pending'', ''delegate''), (''review'', ''synthesize''),
      (''review'', ''delegate''), (''synthesize'', ''delegate''), (''synthesize'',
      ''completed''), (''blocked'', ''delegate'')]"
  "edge_pairs createDebugHSM =
     [(''triage'', ''investigate''), (''investigate'', ''rca''), (''investigate'',
      ''hotfix-implement''), (''investigate'', ''cancelled''), (''investigate'',
      ''completed''), (''rca'', ''design''), (''design'', ''debug-implement''),
      (''debug-implement'', ''debug-validate''), (''debug-validate'', ''debug-review''),
      (''debug-review'', ''synthesize''), (''hotfix-implement'', ''hotfix-validate''),
      (''hotfix-validate'', ''synthesize''), (''hotfix-validate'', ''completed''),
      (''synthesize'', ''debug-implement''), (''synthesize'', ''hotfix-implement''),
      (''synthesize'', ''completed'')]"
  "edge_pairs createRefactorHSM =
     [(''explore'', ''brief''), (''brief'', ''polish-implement''), (''brief'',
      ''overhaul-plan''), (''polish-implement'', ''polish-validate''), (''polish-validate'',
      ''polish-update-docs''), (''polish-update-docs'', ''completed''), (''overhaul-plan'',
      ''overhaul-plan-review''), (''overhaul-plan-review'', ''overhaul-delegate''),
      (''overhaul-plan-review'', ''blocked''), (''overhaul-plan-review'', ''overhaul-plan''),
      (''blocked'', ''overhaul-delegate''), (''overhaul-delegate'', ''overhaul-review''),
      (''overhaul-review'', ''overhaul-update-docs''), (''overhaul-review'',
      ''overhaul-delegate''), (''overhaul-update-docs'', ''synthesize''), (''synthesize'',
      ''overhaul-delegate''), (''synthesize'', ''completed'')]"
  "edge_pairs createOneshotHSM =
     [(''plan'', ''implementing''), (''implementing'', ''synthesize''), (''implementing'',
      ''completed''), (''synthesize'', ''completed'')]"
  "edge_pairs createDiscoveryHSM =
     [(''gathering'', ''synthesizing''), (''synthesizing'', ''completed'')]"
  by (simp_all add: edge_pairs_def hsm_defs)

lemma builtin_state_types:
  "state_types createFeatureHSM =
     [(''plan'', Atomic PLAN), (''plan-review'', Atomic PLAN), (''implementation'',
      Compound), (''delegate'', Atomic IMPLEMENT), (''review'', Atomic REVIEW),
      (''merge-pending'', Atomic MERGE), (''synthesize'', Atomic SYNTHESIZE), (''completed'',
      Final), (''cancelled'', Final), (''blocked'', Atomic GATHER)]"
  "state_types createDebugHSM =
     [(''triage'', Atomic GATHER), (''investigate'', Atomic GATHER), (''thorough-track'',
      Compound), (''rca'', Atomic PLAN), (''design'', Atomic PLAN), (''debug-implement'',
      Atomic IMPLEMENT), (''debug-validate'', Atomic REVIEW), (''debug-review'', Atomic
      REVIEW), (''hotfix-track'', Compound), (''hotfix-implement'', Atomic IMPLEMENT),
      (''hotfix-validate'', Atomic REVIEW), (''synthesize'', Atomic SYNTHESIZE),
      (''completed'', Final), (''cancelled'', Final), (''blocked'', Atomic GATHER)]"
  "state_types createRefactorHSM =
     [(''explore'', Atomic GATHER), (''brief'', Atomic PLAN), (''polish-track'', Compound),
      (''polish-implement'', Atomic IMPLEMENT), (''polish-validate'', Atomic REVIEW),
      (''polish-update-docs'', Atomic GATHER), (''overhaul-track'', Compound),
      (''overhaul-plan'', Atomic PLAN), (''overhaul-plan-review'', Atomic PLAN),
      (''overhaul-delegate'', Atomic IMPLEMENT), (''overhaul-review'', Atomic REVIEW),
      (''overhaul-update-docs'', Atomic GATHER), (''synthesize'', Atomic SYNTHESIZE),
      (''completed'', Final), (''cancelled'', Final), (''blocked'', Atomic GATHER)]"
  "state_types createOneshotHSM =
     [(''plan'', Atomic PLAN), (''implementing'', Atomic IMPLEMENT), (''synthesize'', Atomic
      SYNTHESIZE), (''completed'', Final), (''cancelled'', Final)]"
  "state_types createDiscoveryHSM =
     [(''gathering'', Atomic GATHER), (''synthesizing'', Atomic GATHER), (''completed'',
      Final), (''cancelled'', Final)]"
  by (simp_all add: state_types_def hsm_defs)

lemma builtin_closed:
  "closed_machine createFeatureHSM" "closed_machine createDebugHSM" "closed_machine createRefactorHSM"
  "closed_machine createOneshotHSM" "closed_machine createDiscoveryHSM"
  by (rule closed_machineI, simp only: builtin_edge_pairs builtin_state_types, code_simp)+

interpretation feature: hsm_closed createFeatureHSM
  by (rule hsm_closedI [OF builtin_wf(1) builtin_closed(1)])

interpretation debug: hsm_closed createDebugHSM
  by (rule hsm_closedI [OF builtin_wf(2) builtin_closed(2)])

interpretation refactor: hsm_closed createRefactorHSM
  by (rule hsm_closedI [OF builtin_wf(3) builtin_closed(3)])

interpretation oneshot: hsm_closed createOneshotHSM
  by (rule hsm_closedI [OF builtin_wf(4) builtin_closed(4)])

interpretation discovery: hsm_closed createDiscoveryHSM
  by (rule hsm_closedI [OF builtin_wf(5) builtin_closed(5)])

section \<open>Queries\<close>

lemma findTransition_Some:
  "findTransition h a b = Some t \<Longrightarrow> t \<in> set (hsm_transitions h) \<and> tfrom t = a \<and> tto t = b"
  by (auto simp: findTransition_def find_Some_iff)

lemma findTransition_None:
  "findTransition h a b = None \<longleftrightarrow> (\<forall>t \<in> set (hsm_transitions h). tfrom t = a \<longrightarrow> tto t \<noteq> b)"
  by (auto simp: findTransition_def find_None_iff)

lemma own_targets_phases:
  "tto ` set (own_targets h a) = {tto t | t. t \<in> set (hsm_transitions h) \<and> tfrom t = a}"
  by (auto simp: own_targets_def dedup_from_keys)

lemma own_targets_subset: "set (own_targets h a) \<subseteq> {t \<in> set (hsm_transitions h). tfrom t = a}"
  using dedup_from_subset [of "{}" tto "filter (\<lambda>t. tfrom t = a) (hsm_transitions h)"]
  by (auto simp: own_targets_def)

lemma dedup_from_find:
  "k \<notin> seen \<Longrightarrow> find (\<lambda>x. key x = k) (dedup_from seen key xs) = find (\<lambda>x. key x = k) xs"
  by (induction xs arbitrary: seen) auto

lemma find_filter: "find P (filter Q xs) = find (\<lambda>x. Q x \<and> P x) xs"
  by (induction xs) auto

text \<open>The advertised edge to a target is the one that the executor would take.\<close>

lemma own_targets_find:
  "find (\<lambda>t. tto t = b) (own_targets h a) = findTransition h a b"
  by (simp add: own_targets_def dedup_from_find find_filter findTransition_def)

lemma dedup_from_first:
  assumes "x \<in> set (dedup_from seen key xs)"
  shows "find (\<lambda>y. key y = key x) xs = Some x"
  using assms
proof (induction xs arbitrary: seen)
  case (Cons y ys)
  have fresh: "key x \<notin> s" if "x \<in> set (dedup_from s key ys)" for s
    using that dedup_from_keys [of key s ys] by blast
  from Cons show ?case
    using fresh [of seen] fresh [of "insert (key y) seen"] by (auto split: if_splits)
qed simp

lemma own_targets_first:
  "t \<in> set (own_targets h a) \<Longrightarrow> findTransition h a (tto t) = Some t"
  by (auto simp: own_targets_def findTransition_def find_filter dest!: dedup_from_first)

lemma getValidTransitions_phases:
  assumes "state_at h a = Some st" "st_type st \<noteq> Final"
    "state_at h ''cancelled'' \<noteq> None" "state_at h ''completed'' \<noteq> None"
  shows "vt_phase ` set (getValidTransitions h a) =
     {tto t | t. t \<in> set (hsm_transitions h) \<and> tfrom t = a} \<union> {''cancelled'', ''completed''}"
  using assms by (auto simp: getValidTransitions_def Let_def image_Un image_image own_targets_phases)

lemma getValidTransitions_distinct: "distinct (map vt_phase (getValidTransitions h a))"
proof -
  let ?own = "own_targets h a"
  have "distinct (map tto ?own)"
    by (simp add: own_targets_def dedup_from_distinct)
  then show ?thesis
    by (auto simp: getValidTransitions_def Let_def comp_def split: option.splits)
qed

section \<open>The registry\<close>

definition wf_registry :: "registry \<Rightarrow> bool" where
  "wf_registry r \<longleftrightarrow>
     list_all (\<lambda>(name, h). wf_machine h \<and> hsm_id h = name) (reg_hsms r) \<and>
     distinct (map fst (reg_hsms r)) \<and>
     fst ` set (reg_hsms r) = fst ` set (reg_initials r)"

lemma initial_registry_wf: "wf_registry initial_registry"
  by (simp add: wf_registry_def initial_registry_def builtin_wf insert_commute)
    (simp add: hsm_defs)

lemma map_of_add_state:
  "map_of (add_state i st ss) j =
   (if map_of ss j = None \<and> j = i then Some st else map_of ss j)"
  by (auto simp: add_state_def)

lemma distinct_add_state:
  "distinct (map fst ss) \<Longrightarrow> distinct (map fst (add_state i st ss))"
  by (simp add: add_state_def distinct_update)

text \<open>Adding a state without a parent keeps a machine well formed.\<close>


lemma parent_ok_add_state: "parent_ok ss st \<Longrightarrow> parent_ok (add_state i q ss) st"
  by (auto simp: parent_ok_def map_of_add_state split: option.splits)

lemma wf_add_state:
  assumes "wf_states ss" "st_id st = i" "st_parent st = None"
  shows "wf_states (add_state i st ss)"
proof -
  have "set (add_state i st ss) \<subseteq> insert (i, st) (set ss)"
    using set_update_subset [of i st ss] by (auto simp: add_state_def)
  moreover have "parent_ok (add_state i st ss) st" using assms(3) by (simp add: parent_ok_def)
  moreover have "\<forall>(j, q) \<in> set ss. st_id q = j \<and> parent_ok (add_state i st ss) q"
    using assms(1) parent_ok_add_state by (fastforce simp: wf_states_def list_all_iff)
  ultimately show ?thesis
    using assms by (auto simp: wf_states_def list_all_iff distinct_add_state)
qed

lemma wf_add_phases: "wf_states ss \<Longrightarrow> wf_states (add_phases ps ss)"
  by (induction ps arbitrary: ss) (simp_all add: add_phases_def wf_add_state atomic_def)

lemma map_of_add_phases:
  "map_of (add_phases ps ss) i =
   (case map_of ss i of
      Some st \<Rightarrow> Some st
    | None \<Rightarrow> if i \<in> set ps then Some (atomic i GATHER None) else None)"
  by (induction ps arbitrary: ss) (auto simp: add_phases_def map_of_add_state split: option.splits)

lemma convertToHSM_wf:
  assumes "wf_registry r" "convertToHSM r name d = Inr h"
  shows "wf_machine h \<and> hsm_id h = name"
proof -
  from assms(2) obtain ss ts where base: "base_machine r d = Inr (ss, ts)" and
    h: "hsm_id h = name" "hsm_states h = add_state ''completed'' (final ''completed'')
      (add_state ''cancelled'' (final ''cancelled'') (add_phases (wd_phases d) ss))"
    by (auto simp: convertToHSM_def bind_result_Inr_iff)
  have "wf_states ss"
    using base assms(1)
    by (auto simp: base_machine_def wf_registry_def list_all_iff wf_machine_def
        wf_states_def [of "[]"] split: option.splits dest!: map_of_SomeD)
  then show ?thesis
    using h by (simp add: wf_machine_def wf_add_state wf_add_phases final_def)
qed

lemma registerWorkflowType_wf:
  assumes "wf_registry r" "registerWorkflowType name d r = Inr r'"
  shows "wf_registry r'"
proof -
  obtain h where h: "convertToHSM r name d = Inr h" and
    r': "r' = \<lparr>reg_hsms = AList.update name h (reg_hsms r),
              reg_initials = AList.update name (wd_initialPhase d) (reg_initials r)\<rparr>"
    using assms(2) by (auto simp: registerWorkflowType_def bind_result_Inr_iff split: if_splits)
  have wf: "wf_machine h \<and> hsm_id h = name" using convertToHSM_wf [OF assms(1) h] .
  then show ?thesis
    using assms(1) set_update_subset [of name h "reg_hsms r"] unfolding r'
    by (auto simp: wf_registry_def list_all_iff keys_update distinct_update)
qed

lemma unregisterWorkflowType_wf:
  assumes "wf_registry r" "unregisterWorkflowType name r = Inr r'"
  shows "wf_registry r'"
proof -
  have r': "r' = \<lparr>reg_hsms = AList.delete name (reg_hsms r),
                   reg_initials = AList.delete name (reg_initials r)\<rparr>"
    using assms(2) by (auto simp: unregisterWorkflowType_def split: if_splits)
  have "fst ` set (reg_hsms r') = fst ` set (reg_initials r')"
    using assms(1) by (simp only: r' wf_registry_def registry.simps keys_delete)
  moreover have "distinct (map fst (reg_hsms r'))"
    using assms(1) by (simp add: r' wf_registry_def distinct_delete)
  ultimately show ?thesis
    using assms(1) set_delete_subset [of name "reg_hsms r"]
    by (auto simp: r' wf_registry_def list_all_iff)
qed

end
