(* ===== verification/State_Machine.thy ===== *)
theory State_Machine
  imports Hsm_Structure Requirement_Context
begin

text \<open>
  The transition algorithm \<open>executeTransition\<close> of \<open>src/workflow/state-machine.ts\<close>, cut at its early
  returns: the universal cancel, the universal cleanup, the guard, the circuit breaker, and the
  advance along an edge with its effects, history and events. The phase and the events are read
  from the state object, a phase being a string and \<open>_events\<close> an array of records as the
  state schema and the injection of the store's events provide them.
\<close>

section \<open>Inputs and results\<close>

record transition_event =
  te_type :: string
  te_from :: string
  te_to :: string
  te_trigger :: string
  te_metadata :: "fields option"

record obligation_floor =
  fl_coordinates :: "danger_coordinate list"
  fl_gates :: "resolved_gate list"

definition no_floor :: obligation_floor where
  "no_floor = \<lparr>fl_coordinates = [], fl_gates = []\<rparr>"

record transition_result =
  tr_success :: bool
  tr_idempotent :: bool
  tr_newPhase :: "string option"
  tr_effects :: "effect list"
  tr_events :: "transition_event list"
  tr_history :: "(string \<times> string) list option"
  tr_errorCode :: "string option"
  tr_errorMessage :: "string option"
  tr_guardDescription :: "string option"
  tr_validTargets :: "valid_target list option"
  tr_expectedShape :: "js option"
  tr_suggestedFix :: "suggested_fix option"
  tr_resolvedGates :: "resolved_gate list option"

definition ok_result :: "string \<Rightarrow> transition_result" where
  "ok_result p =
     \<lparr>tr_success = True, tr_idempotent = False, tr_newPhase = Some p, tr_effects = [],
      tr_events = [], tr_history = None, tr_errorCode = None, tr_errorMessage = None,
      tr_guardDescription = None, tr_validTargets = None, tr_expectedShape = None,
      tr_suggestedFix = None, tr_resolvedGates = None\<rparr>"

definition err_result :: "string \<Rightarrow> string \<Rightarrow> transition_event list \<Rightarrow> transition_result" where
  "err_result code message events =
     (ok_result '''')\<lparr>tr_success := False, tr_newPhase := None, tr_events := events,
       tr_errorCode := Some code, tr_errorMessage := Some message\<rparr>"

lemma ok_result_simps [simp]:
  "tr_success (ok_result p)" "\<not> tr_idempotent (ok_result p)" "tr_newPhase (ok_result p) = Some p"
  "tr_effects (ok_result p) = []" "tr_events (ok_result p) = []" "tr_history (ok_result p) = None"
  "tr_errorCode (ok_result p) = None"
  by (simp_all add: ok_result_def)

lemma err_result_simps [simp]:
  "\<not> tr_success (err_result c m es)" "\<not> tr_idempotent (err_result c m es)"
  "tr_newPhase (err_result c m es) = None" "tr_effects (err_result c m es) = []"
  "tr_events (err_result c m es) = es" "tr_errorCode (err_result c m es) = Some c"
  "tr_errorMessage (err_result c m es) = Some m"
  by (simp_all add: err_result_def)

definition mk_event :: "string \<Rightarrow> string \<Rightarrow> string \<Rightarrow> string \<Rightarrow> fields option \<Rightarrow> transition_event" where
  "mk_event t a b trigger m =
     \<lparr>te_type = t, te_from = a, te_to = b, te_trigger = trigger, te_metadata = m\<rparr>"

lemma mk_event_simps [simp]:
  "te_type (mk_event t a b g m) = t" "te_from (mk_event t a b g m) = a"
  "te_to (mk_event t a b g m) = b" "te_trigger (mk_event t a b g m) = g"
  "te_metadata (mk_event t a b g m) = m"
  by (simp_all add: mk_event_def)

abbreviation exec_trigger :: string where
  "exec_trigger \<equiv> ''execute-transition''"

definition phase_of :: "fields \<Rightarrow> string" where
  "phase_of state = js_string (fget state ''phase'')"

definition state_events :: "fields \<Rightarrow> js list" where
  "state_events state = (case fget state ''_events'' of JArr xs \<Rightarrow> xs | _ \<Rightarrow> [])"

definition attempt_metadata :: "fields \<Rightarrow> fields option" where
  "attempt_metadata state =
     (case fget state ''_pendingPhaseAttemptId'' of
        JStr s \<Rightarrow> if s = '''' then None else Some [(''phaseAttemptId'', JStr s)]
      | _ \<Rightarrow> None)"

section \<open>Counts over the log\<close>

definition is_fix_cycle :: "string \<Rightarrow> js \<Rightarrow> bool" where
  "is_fix_cycle compoundId e \<longleftrightarrow>
     opt_get e ''type'' = JStr ''fix-cycle'' \<and>
     opt_get (opt_get e ''metadata'') ''compoundStateId'' = JStr compoundId"

definition countFixCycles :: "js list \<Rightarrow> string \<Rightarrow> nat" where
  "countFixCycles events compoundId = length (filter (is_fix_cycle compoundId) events)"

definition countPlanRevisions :: "js list \<Rightarrow> nat" where
  "countPlanRevisions events =
     length (filter (\<lambda>e. opt_get e ''type'' = JStr ''plan-revision'' \<or>
                         opt_get e ''type'' = JStr ''workflow.plan-revision'') events)"

section \<open>Universal transitions\<close>

definition opt_list :: "'a list option \<Rightarrow> 'a list" where
  "opt_list x = or_else x []"

definition on_exit :: "hsm_state option \<Rightarrow> effect list" where
  "on_exit s = (case s of None \<Rightarrow> [] | Some st \<Rightarrow> opt_list (st_onExit st))"

definition on_entry :: "hsm_state option \<Rightarrow> effect list" where
  "on_entry s = (case s of None \<Rightarrow> [] | Some st \<Rightarrow> opt_list (st_onEntry st))"

definition record_history ::
    "string \<Rightarrow> hsm_state list \<Rightarrow> (string \<times> string) list \<Rightarrow> (string \<times> string) list" where
  "record_history phase ancestors hist =
     fold (\<lambda>a acc. AList.update (st_id a) phase acc) ancestors hist"

definition history_field :: "(string \<times> string) list \<Rightarrow> (string \<times> string) list option" where
  "history_field hist = (if hist = [] then None else Some hist)"

text \<open>The shared shape of cancel and cleanup: leave every level, emit one event.\<close>

definition leave_machine ::
    "hsm \<Rightarrow> fields \<Rightarrow> string \<Rightarrow> string \<Rightarrow> string \<Rightarrow> transition_result" where
  "leave_machine h state target evType trigger =
     (let cur = phase_of state;
          ancestors = getCompoundAncestors h cur;
          hist = record_history cur ancestors [];
          hist' = (case getParentCompound h cur of
                     None \<Rightarrow> hist | Some p \<Rightarrow> AList.update (st_id p) cur hist)
      in (ok_result target)\<lparr>
           tr_effects := on_exit (state_at h cur) @ concat (map (\<lambda>a. opt_list (st_onExit a)) ancestors),
           tr_events := [mk_event evType cur target trigger (attempt_metadata state)],
           tr_history := history_field hist'\<rparr>)"

section \<open>Guard and circuit breaker\<close>

definition quoted :: "string \<Rightarrow> string" where
  "quoted s = [CHR 0x27] @ s @ [CHR 0x27]"

definition guard_event :: "string \<Rightarrow> string \<Rightarrow> guard \<Rightarrow> transition_event" where
  "guard_event cur target g =
     mk_event ''guard-failed'' cur target exec_trigger (Some [(''guard'', JStr (gid g))])"

text \<open>The refusal of a transition whose guard fails or throws; \<open>None\<close> when it passes.\<close>

definition guard_refusal ::
    "fields \<Rightarrow> string \<Rightarrow> string \<Rightarrow> transition \<Rightarrow> transition_result option" where
  "guard_refusal state cur target t =
     (case tguard t of
        None \<Rightarrow> None
      | Some g \<Rightarrow>
          (case geval g state of
             Inl e \<Rightarrow>
               Some ((err_result ''GUARD_FAILED''
                  (''Guard '' @ quoted (gid g) @ '' threw: '' @ exn_message e) [guard_event cur target g])
                 \<lparr>tr_guardDescription := Some (gdesc g)\<rparr>)
           | Inr GPass \<Rightarrow> None
           | Inr (GFail f) \<Rightarrow>
               Some ((err_result ''GUARD_FAILED''
                  (''Guard '' @ quoted (gid g) @ '' failed: '' @
                    (if gf_reason f \<noteq> '''' then gf_reason f else gdesc g)) [guard_event cur target g])
                 \<lparr>tr_guardDescription := Some (gdesc g),
                  tr_expectedShape := gf_shape f,
                  tr_suggestedFix := gf_fix f\<rparr>)))"

definition circuit_refusal ::
    "hsm \<Rightarrow> fields \<Rightarrow> string \<Rightarrow> string \<Rightarrow> transition \<Rightarrow> transition_result option" where
  "circuit_refusal h state cur target t =
     (if \<not> flagged (isFixCycle t) then None
      else (case getParentCompound h cur of
          None \<Rightarrow> None
        | Some parent \<Rightarrow>
            (case st_maxFixCycles parent of
               None \<Rightarrow> None
             | Some m \<Rightarrow>
                 (let fixCount = countFixCycles (state_events state) (st_id parent) in
                  if m \<le> fixCount then
                    Some (err_result ''CIRCUIT_OPEN''
                      (''Fix cycle limit ('' @ nat_str m @ '') reached for compound '' @ quoted (st_id parent))
                      [mk_event ''circuit-open'' cur target exec_trigger
                        (Some [(''compoundStateId'', JStr (st_id parent)),
                               (''compoundId'', JStr (st_id parent)),
                               (''fixCycleCount'', JInt (int fixCount)),
                               (''maxFixCycles'', JInt (int m))])])
                  else None))))"

section \<open>The gate union of an advance\<close>

text \<open>One pass of the loop that skips gates whose key was seen; the seen keys are those collected.\<close>

definition union_gates :: "resolved_gate list \<Rightarrow> resolved_gate list \<Rightarrow> resolved_gate list" where
  "union_gates acc gates =
     foldl (\<lambda>u g. if gate_key g \<in> gate_key ` set u then u else u @ [g]) acc gates"

definition ctx_at :: "hsm \<Rightarrow> js \<Rightarrow> danger_coordinate \<Rightarrow> gate_ctx" where
  "ctx_at h depth c =
     \<lparr>ctx_tier = dc_risk c, ctx_boundary = dangerBoundaryTouching c, ctx_config = None,
      ctx_workflow = Some (hsm_id h), ctx_depth = depth\<rparr>"

fun resolve_coordinates ::
    "gate_resolver \<Rightarrow> phase_kind \<Rightarrow> (danger_coordinate \<Rightarrow> gate_ctx) \<Rightarrow> resolved_gate list \<Rightarrow>
     danger_coordinate \<Rightarrow> danger_coordinate list \<Rightarrow>
     string + resolved_gate list \<times> danger_coordinate" where
  "resolve_coordinates r k ctx unioned frozen [] = Inr (unioned, frozen)"
| "resolve_coordinates r k ctx unioned frozen (c # cs) =
     (case resolveGateSetFailClosed k (ctx c) r of
        Inl reason \<Rightarrow> Inl reason
      | Inr gates \<Rightarrow>
          resolve_coordinates r k ctx (union_gates unioned gates) (joinDangerCoordinates frozen c) cs)"

definition depth_or_standard :: "fields \<Rightarrow> js" where
  "depth_or_standard state =
     (if is_nullish (fget state ''designDepth'') then JStr ''standard'' else fget state ''designDepth'')"

definition state_coordinate :: "fields \<Rightarrow> danger_coordinate" where
  "state_coordinate state =
     resolveDangerCoordinate (fget state ''riskTier'') (fget state ''boundaryTouching'')"

definition resolve_obligation ::
    "hsm \<Rightarrow> fields \<Rightarrow> gate_resolver \<Rightarrow> obligation_floor \<Rightarrow> phase_kind \<Rightarrow>
     string + resolved_gate list \<times> danger_coordinate" where
  "resolve_obligation h state r flr kind =
     resolve_coordinates r kind (ctx_at h (depth_or_standard state))
       (union_gates [] (fl_gates flr)) (state_coordinate state)
       (state_coordinate state # fl_coordinates flr)"

section \<open>The advance\<close>

definition entered_metadata ::
    "fields \<Rightarrow> string \<Rightarrow> phase_kind \<Rightarrow> resolved_gate list \<Rightarrow> danger_coordinate \<Rightarrow> fields" where
  "entered_metadata state target kind gates c =
     [(''phase'', JStr target),
      (''kind'', JStr (kind_str kind)),
      (''resolver'', (case ob_resolver (KIND_OBLIGATIONS kind) of
                        None \<Rightarrow> JNull | Some r \<Rightarrow> JStr (resolver_str r))),
      (''resolvedGates'', JArr (map gate_js gates)),
      (''riskTier'', JStr (resolved_tier_str (dc_risk c))),
      (''boundaryTouching'', JBool (dangerBoundaryTouching c)),
      (''posture'', JStr (posture_str (ob_posture (KIND_OBLIGATIONS kind)))),
      (''policySource'', JStr ''builtin''),
      (''mode'', JStr ''enforce'')] @
     (if kind = PLAN then [(''designDepth'', depth_or_standard state)] else [])"

definition compound_metadata :: "hsm \<Rightarrow> string \<Rightarrow> fields option" where
  "compound_metadata h cur =
     Some (case getParentCompound h cur of
             None \<Rightarrow> [] | Some p \<Rightarrow> [(''compoundStateId'', JStr (st_id p))])"

text \<open>The ancestors of the first list that are not, by id, among those of the second.\<close>

definition ancestors_minus :: "hsm_state list \<Rightarrow> hsm_state list \<Rightarrow> hsm_state list" where
  "ancestors_minus as bs = filter (\<lambda>a. st_id a \<notin> st_id ` set bs) as"

definition is_standard_revise_edge :: "hsm \<Rightarrow> string \<Rightarrow> string \<Rightarrow> bool" where
  "is_standard_revise_edge h cur target \<longleftrightarrow>
     hsm_id h = ''feature'' \<and> cur = ''plan-review'' \<and> target = ''plan''"

definition advance_events ::
    "hsm \<Rightarrow> fields \<Rightarrow> string \<Rightarrow> string \<Rightarrow> transition \<Rightarrow> transition_event list" where
  "advance_events h state cur target t =
     (let left = ancestors_minus (getCompoundAncestors h cur) (getCompoundAncestors h target);
          entered = ancestors_minus (rev (getCompoundAncestors h target)) (getCompoundAncestors h cur)
      in [mk_event ''transition'' cur target exec_trigger (attempt_metadata state)] @
         map (\<lambda>a. mk_event ''compound-entry'' cur (st_id a) exec_trigger
                    (Some [(''compoundStateId'', JStr (st_id a))])) entered @
         map (\<lambda>a. mk_event ''compound-exit'' (st_id a) target exec_trigger None) left @
         (if flagged (isFixCycle t)
          then [mk_event ''fix-cycle'' cur target exec_trigger (compound_metadata h cur)] else []) @
         (if flagged (isRevision t) \<and> \<not> is_standard_revise_edge h cur target
          then [mk_event ''plan-revision'' cur target exec_trigger (compound_metadata h cur)] else []) @
         [mk_event ''phase.exited'' cur target exec_trigger
            (Some [(''phase'', JStr cur),
                   (''allRequiredGatesPassed'', JBool (\<not> flagged (isFixCycle t)))])])"

definition advance_effects ::
    "hsm \<Rightarrow> string \<Rightarrow> string \<Rightarrow> transition \<Rightarrow> effect list" where
  "advance_effects h cur target t =
     (let left = ancestors_minus (getCompoundAncestors h cur) (getCompoundAncestors h target);
          entered = ancestors_minus (rev (getCompoundAncestors h target)) (getCompoundAncestors h cur)
      in on_exit (state_at h cur) @ concat (map (\<lambda>a. opt_list (st_onExit a)) left) @
         concat (map (\<lambda>a. opt_list (st_onEntry a)) entered) @ on_entry (state_at h target) @
         opt_list (teffects t))"

definition advance_history :: "hsm \<Rightarrow> string \<Rightarrow> string \<Rightarrow> (string \<times> string) list option" where
  "advance_history h cur target =
     history_field (record_history cur
       (ancestors_minus (getCompoundAncestors h cur) (getCompoundAncestors h target)) [])"

definition blocked_result :: "string \<Rightarrow> string \<Rightarrow> phase_kind \<Rightarrow> string \<Rightarrow> transition_result" where
  "blocked_result cur target kind reason =
     err_result ''PHASE_BLOCKED''
       (''Gate-set resolution failed for '' @ kind_str kind @ '' phase '' @ quoted target @ '': '' @ reason)
       [mk_event ''phase.blocked'' cur target exec_trigger
         (Some [(''kind'', JStr (kind_str kind)), (''reason'', JStr reason)])]"

text \<open>The type of the state that an id names.\<close>

definition type_at :: "hsm \<Rightarrow> string \<Rightarrow> state_type option" where
  "type_at h i = (case state_at h i of None \<Rightarrow> None | Some st \<Rightarrow> Some (st_type st))"

text \<open>The result of an advance before the entry of an atomic state adds its part.\<close>

definition advanced :: "hsm \<Rightarrow> fields \<Rightarrow> string \<Rightarrow> transition \<Rightarrow> transition_result" where
  "advanced h state target t =
     (ok_result target)\<lparr>
       tr_effects := advance_effects h (phase_of state) target t,
       tr_events := advance_events h state (phase_of state) target t,
       tr_history := advance_history h (phase_of state) target\<rparr>"

definition enter_atomic ::
    "fields \<Rightarrow> string \<Rightarrow> phase_kind \<Rightarrow> resolved_gate list \<Rightarrow> danger_coordinate \<Rightarrow>
     transition_result \<Rightarrow> transition_result" where
  "enter_atomic state target kind unioned frozen r =
     (let gates = (if kind = IMPLEMENT then [] else unioned)
      in r\<lparr>tr_events := tr_events r @
             [mk_event ''phase.entered'' (phase_of state) target exec_trigger
                (Some (entered_metadata state target kind gates frozen))],
           tr_resolvedGates := Some gates\<rparr>)"

definition advance ::
    "hsm \<Rightarrow> fields \<Rightarrow> string \<Rightarrow> gate_resolver \<Rightarrow> obligation_floor \<Rightarrow> transition \<Rightarrow>
     transition_result" where
  "advance h state target resolver flr t =
     (case type_at h target of
        Some (Atomic kind) \<Rightarrow>
          (case resolve_obligation h state resolver flr kind of
             Inl reason \<Rightarrow> blocked_result (phase_of state) target kind reason
           | Inr (unioned, frozen) \<Rightarrow>
               enter_atomic state target kind unioned frozen (advanced h state target t))
      | _ \<Rightarrow> advanced h state target t)"

section \<open>executeTransition\<close>

definition edge_transition ::
    "hsm \<Rightarrow> fields \<Rightarrow> string \<Rightarrow> gate_resolver \<Rightarrow> obligation_floor \<Rightarrow> transition_result" where
  "edge_transition h state target resolver flr =
     (let cur = phase_of state in
      case findTransition h cur target of
        None \<Rightarrow>
          (err_result ''INVALID_TRANSITION''
             (''No transition from '' @ quoted cur @ '' to '' @ quoted target) [])
            \<lparr>tr_validTargets := Some (getValidTransitions h cur)\<rparr>
      | Some t \<Rightarrow>
          (case guard_refusal state cur target t of
             Some refusal \<Rightarrow> refusal
           | None \<Rightarrow>
               (case circuit_refusal h state cur target t of
                  Some refusal \<Rightarrow> refusal
                | None \<Rightarrow> advance h state target resolver flr t)))"

definition executeTransition ::
    "hsm \<Rightarrow> fields \<Rightarrow> string \<Rightarrow> gate_resolver \<Rightarrow> obligation_floor \<Rightarrow> transition_result" where
  "executeTransition h state target resolver flr =
     (let cur = phase_of state in
      if cur = target then (ok_result cur)\<lparr>tr_idempotent := True\<rparr>
      else if is_final h cur then
        (err_result ''INVALID_TRANSITION'' (''Cannot transition from final state: '' @ cur) [])
          \<lparr>tr_validTargets := Some []\<rparr>
      else if target = ''cancelled'' \<and> is_final h ''cancelled'' then
        leave_machine h state ''cancelled'' ''cancel'' ''user-cancel''
      else if target = ''completed'' \<and> is_final h ''completed'' \<and> guard_passes mergeVerified state then
        leave_machine h state ''completed'' ''cleanup'' ''cleanup''
      else edge_transition h state target resolver flr)"

end
