(* ===== verification/State_Machine_Laws.thy ===== *)
theory State_Machine_Laws
  imports State_Machine
begin

text \<open>
  What \<open>executeTransition\<close> guarantees. The gate union is characterised as a set without
  duplicates; the result of a transition is classified by its branch; and the facts on single
  branches (which events, which code, which new phase) feed the properties of the components that
  call the executor.
\<close>

section \<open>Gate unions\<close>

lemma union_gates_Nil [simp]: "union_gates acc [] = acc"
  by (simp add: union_gates_def)

lemma union_gates_Cons [simp]:
  "union_gates acc (g # gs) =
   union_gates (if gate_key g \<in> gate_key ` set acc then acc else acc @ [g]) gs"
  by (simp add: union_gates_def)

lemma union_gates_dedup:
  "union_gates acc gs = acc @ dedup_from (gate_key ` set acc) gate_key gs"
  by (induction gs arbitrary: acc) simp_all

lemma gate_key_mem: "gate_key g \<in> gate_key ` A \<longleftrightarrow> g \<in> A"
  by (auto simp: gate_key_inj)

lemma union_gates_set [simp]: "set (union_gates acc gs) = set acc \<union> set gs"
  by (induction gs arbitrary: acc) (auto simp: gate_key_mem)

lemma union_gates_distinct [simp]: "distinct (union_gates acc gs) \<longleftrightarrow> distinct acc"
  by (induction gs arbitrary: acc) (auto simp: gate_key_mem)

lemma union_gates_prefix: "prefix acc (union_gates acc gs)"
  by (simp add: union_gates_dedup)

section \<open>Resolution at several coordinates\<close>

definition gates_at ::
    "gate_resolver \<Rightarrow> phase_kind \<Rightarrow> (danger_coordinate \<Rightarrow> gate_ctx) \<Rightarrow> danger_coordinate \<Rightarrow>
     resolved_gate set" where
  "gates_at r k ctx c = (case r k (ctx c) of Inl _ \<Rightarrow> {} | Inr gs \<Rightarrow> set gs)"

lemma resolve_coordinates_ok:
  "resolve_coordinates r k ctx u f cs = Inr (u', f') \<Longrightarrow>
   set u' = set u \<union> (\<Union>c \<in> set cs. gates_at r k ctx c) \<and>
   prefix u u' \<and> distinct u' = distinct u \<and>
   f' = foldl joinDangerCoordinates f cs \<and>
   (\<forall>c \<in> set cs. is_ok (r k (ctx c)))"
proof (induction cs arbitrary: u f)
  case (Cons c cs)
  from Cons.prems obtain gates where gates: "r k (ctx c) = Inr gates"
    and rest: "resolve_coordinates r k ctx (union_gates u gates) (joinDangerCoordinates f c) cs =
      Inr (u', f')"
    by (auto simp: resolveGateSetFailClosed_def split: sum.splits)
  from Cons.IH [OF rest] show ?case
    using gates union_gates_prefix [of u gates]
    by (auto simp: gates_at_def intro: prefix_order.trans)
qed simp

lemma resolve_coordinates_error_iff:
  "(\<exists>reason. resolve_coordinates r k ctx u f cs = Inl reason) \<longleftrightarrow>
   (\<exists>c \<in> set cs. \<not> is_ok (r k (ctx c)))"
  by (induction cs arbitrary: u f)
    (auto simp: resolveGateSetFailClosed_def is_ok_def split: sum.splits)

lemma danger_le_foldl:
  "danger_le (foldl joinDangerCoordinates f cs) c \<longleftrightarrow>
   danger_le f c \<and> (\<forall>c' \<in> set cs. danger_le c' c)"
  by (induction cs arbitrary: f) (auto simp: danger_join_le_iff)

lemma foldl_join_upper:
  "danger_le f (foldl joinDangerCoordinates f cs)"
  "c \<in> set cs \<Longrightarrow> danger_le c (foldl joinDangerCoordinates f cs)"
  using danger_le_foldl [of f cs "foldl joinDangerCoordinates f cs"] by auto

section \<open>Branches of the executor\<close>

lemma leave_machine_simps [simp]:
  "tr_success (leave_machine h s p e g)" "\<not> tr_idempotent (leave_machine h s p e g)"
  "tr_newPhase (leave_machine h s p e g) = Some p" "tr_errorCode (leave_machine h s p e g) = None"
  "tr_events (leave_machine h s p e g) = [mk_event e (phase_of s) p g (attempt_metadata s)]"
  by (simp_all add: leave_machine_def Let_def)

lemma guard_refusal_None_iff:
  "guard_refusal s a b t = None \<longleftrightarrow> (\<forall>g. tguard t = Some g \<longrightarrow> guard_passes g s)"
  by (auto simp: guard_refusal_def guard_passes_def split: option.splits sum.splits guard_result.splits)

lemma guard_refusal_Some:
  assumes "guard_refusal s a b t = Some r"
  shows "\<exists>g. tguard t = Some g \<and> \<not> guard_passes g s \<and> \<not> tr_success r \<and> tr_newPhase r = None \<and>
    tr_errorCode r = Some ''GUARD_FAILED'' \<and> tr_events r = [guard_event a b g] \<and> tr_effects r = [] \<and>
    tr_guardDescription r = Some (gdesc g)"
  using assms
  by (auto simp: guard_refusal_def guard_passes_def split: option.splits sum.splits guard_result.splits)

lemma circuit_refusal_Some:
  assumes "circuit_refusal h s a b t = Some r"
  shows "\<exists>p m. flagged (isFixCycle t) \<and> getParentCompound h a = Some p \<and> st_maxFixCycles p = Some m \<and>
    m \<le> countFixCycles (state_events s) (st_id p) \<and> \<not> tr_success r \<and> tr_newPhase r = None \<and>
    tr_errorCode r = Some ''CIRCUIT_OPEN'' \<and> tr_effects r = [] \<and> map te_type (tr_events r) = [''circuit-open'']"
  using assms by (auto simp: circuit_refusal_def Let_def split: if_splits option.splits)

lemma circuit_refusal_None_iff:
  "circuit_refusal h s a b t = None \<longleftrightarrow>
   \<not> (\<exists>p m. flagged (isFixCycle t) \<and> getParentCompound h a = Some p \<and> st_maxFixCycles p = Some m \<and>
      m \<le> countFixCycles (state_events s) (st_id p))"
  by (auto simp: circuit_refusal_def Let_def split: option.splits)

lemma blocked_result_simps [simp]:
  "\<not> tr_success (blocked_result a b k m)" "tr_newPhase (blocked_result a b k m) = None"
  "tr_errorCode (blocked_result a b k m) = Some ''PHASE_BLOCKED''"
  "tr_effects (blocked_result a b k m) = []"
  "map te_type (tr_events (blocked_result a b k m)) = [''phase.blocked'']"
  by (simp_all add: blocked_result_def)

lemma advanced_simps [simp]:
  "tr_success (advanced h s p t)" "\<not> tr_idempotent (advanced h s p t)"
  "tr_newPhase (advanced h s p t) = Some p"
  "tr_errorCode (advanced h s p t) = None" "tr_resolvedGates (advanced h s p t) = None"
  "tr_effects (advanced h s p t) = advance_effects h (phase_of s) p t"
  "tr_events (advanced h s p t) = advance_events h s (phase_of s) p t"
  by (simp_all add: advanced_def ok_result_def)

lemma enter_atomic_simps [simp]:
  "tr_success (enter_atomic s p k u f r) = tr_success r"
  "tr_idempotent (enter_atomic s p k u f r) = tr_idempotent r"
  "tr_newPhase (enter_atomic s p k u f r) = tr_newPhase r"
  "tr_errorCode (enter_atomic s p k u f r) = tr_errorCode r"
  "tr_effects (enter_atomic s p k u f r) = tr_effects r"
  "tr_resolvedGates (enter_atomic s p k u f r) = Some (if k = IMPLEMENT then [] else u)"
  "tr_events (enter_atomic s p k u f r) = tr_events r @
     [mk_event ''phase.entered'' (phase_of s) p exec_trigger
        (Some (entered_metadata s p k (if k = IMPLEMENT then [] else u) f))]"
  by (simp_all add: enter_atomic_def Let_def)

text \<open>The outcomes of an advance.\<close>

lemma advance_cases:
  obtains (blocked) kind reason where "type_at h p = Some (Atomic kind)"
      "resolve_obligation h s r fl kind = Inl reason"
      "advance h s p r fl t = blocked_result (phase_of s) p kind reason"
  | (entered) kind u f where "type_at h p = Some (Atomic kind)"
      "resolve_obligation h s r fl kind = Inr (u, f)"
      "advance h s p r fl t = enter_atomic s p kind u f (advanced h s p t)"
  | (plain) "\<forall>kind. type_at h p \<noteq> Some (Atomic kind)"
      "advance h s p r fl t = advanced h s p t"
proof (cases "\<exists>kind. type_at h p = Some (Atomic kind)")
  case True
  then obtain kind where k: "type_at h p = Some (Atomic kind)" by blast
  show thesis
  proof (cases "resolve_obligation h s r fl kind")
    case (Inl reason)
    show thesis by (rule blocked [OF k Inl]) (simp add: advance_def k Inl)
  next
    case (Inr uf)
    obtain u f where uf: "uf = (u, f)" by (cases uf)
    show thesis by (rule entered [OF k Inr [unfolded uf]]) (simp add: advance_def k Inr uf)
  qed
next
  case False
  then show thesis
    by (intro plain) (auto simp: advance_def split: option.splits state_type.splits)
qed

lemma advance_success_iff:
  "tr_success (advance h s p r fl t) \<longleftrightarrow>
   (\<forall>kind. type_at h p = Some (Atomic kind) \<longrightarrow> is_ok (resolve_obligation h s r fl kind))"
  by (rule advance_cases [of h p s r fl t]) (auto simp: is_ok_def)

lemma advance_newPhase:
  "tr_newPhase (advance h s p r fl t) = (if tr_success (advance h s p r fl t) then Some p else None)"
  by (rule advance_cases [of h p s r fl t]) simp_all

text \<open>The classification of every call of the executor.\<close>

lemma execute_cases:
  obtains (idempotent) "phase_of s = target"
      "executeTransition h s target r fl = (ok_result target)\<lparr>tr_idempotent := True\<rparr>"
  | (final) "phase_of s \<noteq> target" "is_final h (phase_of s)"
      "\<not> tr_success (executeTransition h s target r fl)"
      "tr_newPhase (executeTransition h s target r fl) = None"
      "tr_events (executeTransition h s target r fl) = []"
      "tr_effects (executeTransition h s target r fl) = []"
      "tr_errorCode (executeTransition h s target r fl) = Some ''INVALID_TRANSITION''"
  | (cancel) "phase_of s \<noteq> target" "\<not> is_final h (phase_of s)" "target = ''cancelled''"
      "is_final h ''cancelled''"
      "executeTransition h s target r fl = leave_machine h s ''cancelled'' ''cancel'' ''user-cancel''"
  | (cleanup) "phase_of s \<noteq> target" "\<not> is_final h (phase_of s)" "target = ''completed''"
      "is_final h ''completed''" "guard_passes mergeVerified s"
      "executeTransition h s target r fl = leave_machine h s ''completed'' ''cleanup'' ''cleanup''"
  | (no_edge) "phase_of s \<noteq> target" "\<not> is_final h (phase_of s)"
      "findTransition h (phase_of s) target = None"
      "\<not> tr_success (executeTransition h s target r fl)"
      "tr_newPhase (executeTransition h s target r fl) = None"
      "tr_events (executeTransition h s target r fl) = []"
      "tr_effects (executeTransition h s target r fl) = []"
      "tr_errorCode (executeTransition h s target r fl) = Some ''INVALID_TRANSITION''"
      "tr_validTargets (executeTransition h s target r fl) = Some (getValidTransitions h (phase_of s))"
  | (guard) t where "phase_of s \<noteq> target" "\<not> is_final h (phase_of s)"
      "findTransition h (phase_of s) target = Some t"
      "guard_refusal s (phase_of s) target t = Some (executeTransition h s target r fl)"
  | (circuit) t where "phase_of s \<noteq> target" "\<not> is_final h (phase_of s)"
      "findTransition h (phase_of s) target = Some t" "guard_refusal s (phase_of s) target t = None"
      "circuit_refusal h s (phase_of s) target t = Some (executeTransition h s target r fl)"
  | (edge) t where "phase_of s \<noteq> target" "\<not> is_final h (phase_of s)"
      "findTransition h (phase_of s) target = Some t" "guard_refusal s (phase_of s) target t = None"
      "circuit_refusal h s (phase_of s) target t = None"
      "executeTransition h s target r fl = advance h s target r fl t"
proof -
  have case_edge: thesis
    if n: "phase_of s \<noteq> target" "\<not> is_final h (phase_of s)"
      and e: "executeTransition h s target r fl = edge_transition h s target r fl"
  proof (cases "findTransition h (phase_of s) target")
    case None
    then show thesis using n e by (intro no_edge) (simp_all add: edge_transition_def Let_def)
  next
    case (Some t)
    show thesis
    proof (cases "guard_refusal s (phase_of s) target t")
      case None
      then show thesis
        using n e Some circuit edge
        by (cases "circuit_refusal h s (phase_of s) target t")
          (simp_all add: edge_transition_def Let_def)
    qed (use n e Some guard in \<open>simp add: edge_transition_def Let_def\<close>)
  qed
  consider "phase_of s = target" | "phase_of s \<noteq> target" "is_final h (phase_of s)"
    | "phase_of s \<noteq> target" "\<not> is_final h (phase_of s)" "target = ''cancelled''" "is_final h ''cancelled''"
    | "phase_of s \<noteq> target" "\<not> is_final h (phase_of s)" "target = ''completed''" "is_final h ''completed''"
        "guard_passes mergeVerified s"
    | "phase_of s \<noteq> target" "\<not> is_final h (phase_of s)"
        "\<not> (target = ''cancelled'' \<and> is_final h ''cancelled'')"
        "\<not> (target = ''completed'' \<and> is_final h ''completed'' \<and> guard_passes mergeVerified s)"
    by blast
  then show thesis
  proof cases
    case 1
    then show thesis by (intro idempotent) (simp_all add: executeTransition_def Let_def)
  next
    case 2
    then show thesis by (intro final) (simp_all add: executeTransition_def Let_def)
  next
    case 3
    then show thesis by (intro cancel) (simp_all add: executeTransition_def Let_def)
  next
    case 4
    then show thesis by (intro cleanup) (simp_all add: executeTransition_def Let_def)
  next
    case 5
    then show thesis by (intro case_edge) (simp_all only: executeTransition_def Let_def if_False simp_thms)
  qed
qed

end
