(* ===== verification/Transition_Laws.thy ===== *)
theory Transition_Laws
  imports State_Machine_Laws
begin

text \<open>
  The contract of \<open>executeTransition\<close> towards its callers: when a transition succeeds, what a
  refusal leaves untouched, which edges are offered, in which order the events come, and that a
  floor can only add obligations.
\<close>

section \<open>Success and refusal\<close>

lemma edge_success_iff:
  "tr_success (edge_transition h s target r fl) \<longleftrightarrow>
   (\<exists>t. findTransition h (phase_of s) target = Some t \<and> guard_refusal s (phase_of s) target t = None \<and>
      circuit_refusal h s (phase_of s) target t = None \<and> tr_success (advance h s target r fl t))"
proof (cases "findTransition h (phase_of s) target")
  case found: (Some t)
  show ?thesis
  proof (cases "guard_refusal s (phase_of s) target t")
    case (Some x)
    moreover have "\<not> tr_success x" using guard_refusal_Some [OF Some] by blast
    ultimately show ?thesis using found by (simp add: edge_transition_def Let_def)
  next
    case passed: None
    show ?thesis
    proof (cases "circuit_refusal h s (phase_of s) target t")
      case (Some x)
      moreover have "\<not> tr_success x" using circuit_refusal_Some [OF Some] by blast
      ultimately show ?thesis using found passed by (simp add: edge_transition_def Let_def)
    qed (simp add: edge_transition_def Let_def found passed)
  qed
qed (simp add: edge_transition_def Let_def)

text \<open>
  C1: A transition succeeds in exactly these cases: the target is the current phase; or the phase
  is not final and the target is the universal cancel, or the universal cleanup with the merge
  verified, or an edge of the machine whose guard passes, whose fix-cycle budget is not spent and
  whose target resolves its gate set.
\<close>

theorem transition_success_iff:
  "tr_success (executeTransition h s target r fl) \<longleftrightarrow>
   phase_of s = target \<or>
   \<not> is_final h (phase_of s) \<and>
   (target = ''cancelled'' \<and> is_final h ''cancelled'' \<or>
    target = ''completed'' \<and> is_final h ''completed'' \<and> guard_passes mergeVerified s \<or>
    (\<exists>t. findTransition h (phase_of s) target = Some t \<and>
      (\<forall>g. tguard t = Some g \<longrightarrow> guard_passes g s) \<and>
      \<not> (\<exists>p m. flagged (isFixCycle t) \<and> getParentCompound h (phase_of s) = Some p \<and>
           st_maxFixCycles p = Some m \<and> m \<le> countFixCycles (state_events s) (st_id p)) \<and>
      (\<forall>kind. type_at h target = Some (Atomic kind) \<longrightarrow> is_ok (resolve_obligation h s r fl kind))))"
proof -
  let ?edge = "\<exists>t. findTransition h (phase_of s) target = Some t \<and>
      (\<forall>g. tguard t = Some g \<longrightarrow> guard_passes g s) \<and>
      \<not> (\<exists>p m. flagged (isFixCycle t) \<and> getParentCompound h (phase_of s) = Some p \<and>
           st_maxFixCycles p = Some m \<and> m \<le> countFixCycles (state_events s) (st_id p)) \<and>
      (\<forall>kind. type_at h target = Some (Atomic kind) \<longrightarrow> is_ok (resolve_obligation h s r fl kind))"
  have edge: "tr_success (edge_transition h s target r fl) \<longleftrightarrow> ?edge"
    unfolding edge_success_iff guard_refusal_None_iff circuit_refusal_None_iff advance_success_iff ..
  show ?thesis
    unfolding edge [symmetric] by (auto simp: executeTransition_def Let_def)
qed

text \<open>The diagnostic event type of an error code.\<close>

definition code_event :: "string \<Rightarrow> string list" where
  "code_event c =
     (if c = ''GUARD_FAILED'' then [''guard-failed'']
      else if c = ''CIRCUIT_OPEN'' then [''circuit-open'']
      else if c = ''PHASE_BLOCKED'' then [''phase.blocked'']
      else [])"

text \<open>
  C37: A refused transition has no new phase and no effects, it carries one of the four error
  codes, and its events are exactly the one diagnostic event that the code names, none for an
  invalid transition.
\<close>

theorem refusal_is_inert:
  assumes "\<not> tr_success (executeTransition h s target r fl)"
  shows "tr_newPhase (executeTransition h s target r fl) = None \<and>
    tr_effects (executeTransition h s target r fl) = [] \<and>
    (\<exists>c \<in> {''INVALID_TRANSITION'', ''GUARD_FAILED'', ''CIRCUIT_OPEN'', ''PHASE_BLOCKED''}.
       tr_errorCode (executeTransition h s target r fl) = Some c \<and>
       map te_type (tr_events (executeTransition h s target r fl)) = code_event c)"
  using assms
proof (cases rule: execute_cases [of s target h r fl])
  case (guard t)
  then show ?thesis by (auto dest!: guard_refusal_Some simp: code_event_def guard_event_def)
next
  case (circuit t)
  then show ?thesis by (auto dest!: circuit_refusal_Some simp: code_event_def)
next
  case (edge t)
  with assms show ?thesis
    by (cases rule: advance_cases [of h target s r fl t]) (simp_all add: code_event_def)
qed (simp_all add: code_event_def)

definition start_state :: "string \<Rightarrow> fields" where
  "start_state p = [(''phase'', JStr p)]"

lemma start_state_phase [simp]: "phase_of (start_state p) = p"
  by (simp add: phase_of_def start_state_def)

lemma start_state_events [simp]: "state_events (start_state p) = []"
  by (simp add: state_events_def start_state_def)

lemma refusal_is_inert_witness:
  "map te_type (tr_events (executeTransition createDiscoveryHSM (start_state ''gathering'')
     ''synthesizing'' resolveGateSet no_floor)) = [''guard-failed'']"
proof -
  let ?x = "executeTransition createDiscoveryHSM (start_state ''gathering'') ''synthesizing'' resolveGateSet no_floor"
  have c: "\<not> tr_success ?x" "tr_errorCode ?x = Some ''GUARD_FAILED''" by code_simp+
  from refusal_is_inert [OF c(1)] c(2) show ?thesis by (auto simp: code_event_def)
qed

lemma transition_success_iff_witness:
  "\<not> tr_success (executeTransition createFeatureHSM (start_state ''plan'') ''review'' resolveGateSet no_floor) \<and>
   tr_success (executeTransition createFeatureHSM (start_state ''plan'') ''cancelled'' resolveGateSet no_floor)"
proof -
  have "findTransition createFeatureHSM ''plan'' ''review'' = None" by code_simp
  moreover have "\<not> is_final createFeatureHSM ''plan''" "is_final createFeatureHSM ''cancelled''" by code_simp+
  ultimately show ?thesis unfolding transition_success_iff by simp
qed

section \<open>Offered targets\<close>

text \<open>
  From a phase of a well-formed closed machine that is not final, the targets that are offered
  are exactly those that are not refused as invalid, apart from the universal cleanup, which is
  refused as invalid while the merge is not verified.
\<close>

theorem offered_targets_exact:
  assumes "hsm_closed h" "state_at h (phase_of s) = Some st" "st_type st \<noteq> Final" "target \<noteq> phase_of s"
    and "target = ''completed'' \<longrightarrow> guard_passes mergeVerified s"
  shows "target \<in> vt_phase ` set (getValidTransitions h (phase_of s)) \<longleftrightarrow>
    tr_errorCode (executeTransition h s target r fl) \<noteq> Some ''INVALID_TRANSITION''"
proof -
  have nf: "\<not> is_final h (phase_of s)" using assms(2,3) by (simp add: is_final_def)
  note universal = hsm_closed.universal_final [OF assms(1)] hsm_closed.universal_states [OF assms(1)]
  have offered: "target \<in> vt_phase ` set (getValidTransitions h (phase_of s)) \<longleftrightarrow>
      findTransition h (phase_of s) target \<noteq> None \<or> target \<in> {''cancelled'', ''completed''}"
    unfolding getValidTransitions_phases [OF assms(2,3) universal(3,4)]
    using findTransition_None [of h "phase_of s" target] by auto
  show ?thesis
  proof (cases rule: execute_cases [of s target h r fl])
    case (no_edge)
    have "target \<noteq> ''cancelled''" "target \<noteq> ''completed''"
      using no_edge nf universal(1,2) assms(4,5)
      by (auto simp: executeTransition_def Let_def)
    with no_edge offered show ?thesis by simp
  next
    case (guard t)
    then show ?thesis using offered by (auto dest!: guard_refusal_Some)
  next
    case (circuit t)
    then show ?thesis using offered by (auto dest!: circuit_refusal_Some)
  next
    case (edge t)
    then show ?thesis
      using offered by (cases rule: advance_cases [of h target s r fl t]) simp_all
  qed (use assms(4) nf offered in simp_all)
qed

lemma offered_targets_exact_witness:
  "''plan-review'' \<in> vt_phase ` set (getValidTransitions createFeatureHSM ''plan'') \<longleftrightarrow>
   tr_errorCode (executeTransition createFeatureHSM (start_state ''plan'') ''plan-review''
     resolveGateSet no_floor) \<noteq> Some ''INVALID_TRANSITION''"
proof -
  have st: "state_at createFeatureHSM (phase_of (start_state ''plan'')) = Some (atomic ''plan'' PLAN None)"
    by code_simp
  show ?thesis
    using offered_targets_exact [OF feature.hsm_closed_axioms st] by (simp add: atomic_def)
qed

section \<open>The events of an advance\<close>

lemma advance_events_shape:
  "\<exists>mid. map te_type (advance_events h s a b t) = ''transition'' # mid @ [''phase.exited''] \<and>
     set mid \<subseteq> {''compound-entry'', ''compound-exit'', ''fix-cycle'', ''plan-revision''} \<and>
     (''fix-cycle'' \<in> set mid \<longleftrightarrow> flagged (isFixCycle t))"
  by (rule exI [of _ "tl (butlast (map te_type (advance_events h s a b t)))"])
    (auto simp: advance_events_def Let_def butlast_append)

lemma refusal_types:
  "\<not> tr_success (executeTransition h s target r fl) \<Longrightarrow>
   ''transition'' \<notin> te_type ` set (tr_events (executeTransition h s target r fl))"
proof
  assume f: "\<not> tr_success (executeTransition h s target r fl)"
    and "''transition'' \<in> te_type ` set (tr_events (executeTransition h s target r fl))"
  then have t: "''transition'' \<in> set (map te_type (tr_events (executeTransition h s target r fl)))" by simp
  from f show False
  proof (cases rule: execute_cases [of s target h r fl])
    case (guard t')
    then obtain g where "tr_events (executeTransition h s target r fl) = [guard_event (phase_of s) target g]"
      by (auto dest!: guard_refusal_Some)
    with t show False by (simp add: guard_event_def)
  next
    case (circuit t')
    then obtain "map te_type (tr_events (executeTransition h s target r fl)) = [''circuit-open'']"
      by (auto dest!: circuit_refusal_Some)
    with t show False by simp
  next
    case (edge t')
    with f t show False by (cases rule: advance_cases [of h target s r fl t']) simp_all
  qed (use t in simp_all)
qed

text \<open>An emitted transition event means that an edge was taken.\<close>

lemma transition_event_edge:
  assumes "''transition'' \<in> te_type ` set (tr_events (executeTransition h s target r fl))"
  obtains t where "phase_of s \<noteq> target" "findTransition h (phase_of s) target = Some t"
    "executeTransition h s target r fl = advance h s target r fl t"
    "tr_success (advance h s target r fl t)" "guard_refusal s (phase_of s) target t = None"
    "circuit_refusal h s (phase_of s) target t = None"
proof -
  have ok: "tr_success (executeTransition h s target r fl)" using refusal_types assms by blast
  show thesis
  proof (cases rule: execute_cases [of s target h r fl])
    case (guard t)
    then show thesis using ok guard_refusal_Some [OF guard(4)] by blast
  next
    case (circuit t)
    then show thesis using ok circuit_refusal_Some [OF circuit(5)] by blast
  next
    case (edge t)
    then show thesis using ok that by simp
  qed (use assms ok in simp_all)
qed

text \<open>
  The events of a walk along an edge start with the one transition event; then come the
  compound, fix-cycle and revision events; then the exit of the old phase with the statement that
  all gates passed, which is false exactly on a fix cycle; and last, for an atomic target, the entry
  with the obligation that the result carries.
\<close>

theorem advance_event_order:
  fixes h s target r fl
  defines "res \<equiv> executeTransition h s target r fl"
  assumes "''transition'' \<in> te_type ` set (tr_events res)"
  shows "\<exists>t mid entry. findTransition h (phase_of s) target = Some t \<and>
    tr_events res = mk_event ''transition'' (phase_of s) target exec_trigger (attempt_metadata s) # mid @
      [mk_event ''phase.exited'' (phase_of s) target exec_trigger
        (Some [(''phase'', JStr (phase_of s)),
               (''allRequiredGatesPassed'', JBool (\<not> flagged (isFixCycle t)))])] @ entry \<and>
    te_type ` set mid \<subseteq> {''compound-entry'', ''compound-exit'', ''fix-cycle'', ''plan-revision''} \<and>
    (''fix-cycle'' \<in> te_type ` set mid \<longleftrightarrow> flagged (isFixCycle t)) \<and>
    (case type_at h target of
       Some (Atomic kind) \<Rightarrow> \<exists>gates c. tr_resolvedGates res = Some gates \<and>
         entry = [mk_event ''phase.entered'' (phase_of s) target exec_trigger
           (Some (entered_metadata s target kind gates c))]
     | _ \<Rightarrow> entry = [])"
proof -
  obtain t where t: "findTransition h (phase_of s) target = Some t"
    "res = advance h s target r fl t" "tr_success (advance h s target r fl t)"
    using assms(2) unfolding res_def by (rule transition_event_edge)
  obtain mid where mid: "advance_events h s (phase_of s) target t =
      mk_event ''transition'' (phase_of s) target exec_trigger (attempt_metadata s) # mid @
      [mk_event ''phase.exited'' (phase_of s) target exec_trigger
        (Some [(''phase'', JStr (phase_of s)),
               (''allRequiredGatesPassed'', JBool (\<not> flagged (isFixCycle t)))])]"
    "te_type ` set mid \<subseteq> {''compound-entry'', ''compound-exit'', ''fix-cycle'', ''plan-revision''}"
    "''fix-cycle'' \<in> te_type ` set mid \<longleftrightarrow> flagged (isFixCycle t)"
    by (rule that [of "tl (butlast (advance_events h s (phase_of s) target t))"])
      (auto simp: advance_events_def Let_def butlast_append)
  show ?thesis
    using t(3) mid unfolding t(2)
    by (cases rule: advance_cases [of h target s r fl t])
      (auto simp: t(1) split: option.splits state_type.splits)
qed

text \<open>A blocked feature that a human has released.\<close>

definition released_state :: fields where
  "released_state = [(''phase'', JStr ''blocked''), (''unblocked'', JBool True), (''riskTier'', JStr ''high'')]"

definition released_result :: transition_result where
  "released_result = executeTransition createFeatureHSM released_state ''delegate'' resolveGateSet no_floor"

lemma released_types:
  "map te_type (tr_events released_result) =
   [''transition'', ''compound-entry'', ''phase.exited'', ''phase.entered'']"
  by code_simp

lemma advance_event_order_witness:
  "\<exists>e es. tr_events released_result = e # es \<and> te_type e = ''transition''"
proof -
  have "''transition'' \<in> set (map te_type (tr_events released_result))"
    unfolding released_types by simp
  then have "''transition'' \<in> te_type ` set (tr_events released_result)" by simp
  from advance_event_order [OF this [unfolded released_result_def]]
  show ?thesis unfolding released_result_def by force
qed

section \<open>The obligation of an entry\<close>

lemma resolved_gates_edge:
  assumes "tr_resolvedGates (executeTransition h s target r fl) = Some gates"
    and "type_at h target = Some (Atomic kind)"
  obtains u f where "resolve_obligation h s r fl kind = Inr (u, f)" "gates = (if kind = IMPLEMENT then [] else u)"
    "last (tr_events (executeTransition h s target r fl)) =
       mk_event ''phase.entered'' (phase_of s) target exec_trigger (Some (entered_metadata s target kind gates f))"
proof -
  have none: "tr_resolvedGates (leave_machine h s p e g) = None"
    "tr_resolvedGates (err_result c m es) = None" "tr_resolvedGates (ok_result p) = None" for p e g c m es
    by (simp_all add: leave_machine_def ok_result_def err_result_def Let_def)
  have refused: "guard_refusal s a b t = Some x \<Longrightarrow> tr_resolvedGates x = None"
    "circuit_refusal h s a b t = Some x \<Longrightarrow> tr_resolvedGates x = None" for a b t x
    by (auto simp: guard_refusal_def circuit_refusal_def Let_def none
        split: option.splits sum.splits guard_result.splits if_splits)
  show thesis
  proof (cases rule: execute_cases [of s target h r fl])
    case (edge t)
    show thesis
    proof (cases rule: advance_cases [of h target s r fl t])
      case (blocked k m)
      then show thesis using assms edge by (simp add: blocked_result_def none)
    next
      case (entered k u f)
      then show thesis using assms edge that by simp
    next
      case plain
      then show thesis using assms by simp
    qed
  next
    case (guard t)
    then show thesis using assms(1) refused(1) by fastforce
  next
    case (circuit t)
    then show thesis using assms(1) refused(2) by fastforce
  qed (use assms(1) in \<open>simp_all add: executeTransition_def edge_transition_def Let_def none split: if_splits\<close>)
qed

text \<open>
  C9: The entry of an atomic phase other than an implementation phase owes, without duplicates,
  exactly the gates of the floor together with the gates that resolve at the coordinate of the state
  and at every coordinate of the floor, the gates of the floor first; and the danger coordinate that
  the entry freezes dominates all of these coordinates.
\<close>

theorem entry_obligation_dominates:
  assumes "tr_resolvedGates (executeTransition h s target r flr) = Some gates"
    and "type_at h target = Some (Atomic kind)" "kind \<noteq> IMPLEMENT"
  shows "set gates = set (fl_gates flr) \<union>
      (\<Union>c \<in> set (state_coordinate s # fl_coordinates flr).
         gates_at r kind (ctx_at h (depth_or_standard s)) c) \<and>
    distinct gates \<and> prefix (union_gates [] (fl_gates flr)) gates \<and>
    (\<exists>f. te_metadata (last (tr_events (executeTransition h s target r flr))) =
         Some (entered_metadata s target kind gates f) \<and>
       (\<forall>c \<in> set (state_coordinate s # fl_coordinates flr). danger_le c f))"
proof -
  obtain u f where u: "resolve_obligation h s r flr kind = Inr (u, f)" "gates = u"
    "last (tr_events (executeTransition h s target r flr)) =
       mk_event ''phase.entered'' (phase_of s) target exec_trigger (Some (entered_metadata s target kind gates f))"
    using resolved_gates_edge [OF assms(1,2)] assms(3) by metis
  note ok = resolve_coordinates_ok [OF u(1) [unfolded resolve_obligation_def]]
  have "danger_le c f" if "c \<in> set (state_coordinate s # fl_coordinates flr)" for c
    using ok foldl_join_upper(2) [OF that, of "state_coordinate s"] by simp
  with ok u show ?thesis by auto
qed

definition review_state :: fields where
  "review_state =
     [(''phase'', JStr ''delegate''), (''tasks'', JArr [JObj [(''status'', JStr ''complete'')]]),
      (''riskTier'', JStr ''low''), (''boundaryTouching'', JBool False)]"

definition risky_floor :: obligation_floor where
  "risky_floor = \<lparr>fl_coordinates = [\<lparr>dc_risk = Tier High, dc_boundary = NotTouching\<rparr>], fl_gates = []\<rparr>"

lemma entry_obligation_dominates_witness:
  "\<exists>gates. tr_resolvedGates (executeTransition createFeatureHSM review_state ''review'' resolveGateSet risky_floor)
       = Some gates \<and> gates = [ReviewGate ''review'', ReviewGate ''mutation-adequacy''] \<and> distinct gates"
proof -
  let ?x = "executeTransition createFeatureHSM review_state ''review'' resolveGateSet risky_floor"
  have a: "tr_resolvedGates ?x = Some [ReviewGate ''review'', ReviewGate ''mutation-adequacy'']"
    "type_at createFeatureHSM ''review'' = Some (Atomic REVIEW)" by code_simp+
  from entry_obligation_dominates [OF a] show ?thesis using a(1) by blast
qed

end
