(* ===== verification/Phase_Skip.thy ===== *)
theory Phase_Skip
  imports Hsm_Structure
begin

text \<open>
  Routing around skipped phases (\<open>src/workflow/phase-skip.ts\<close>): the validation of the requested
  skips and the rewriting of the transitions, one skipped phase after the other. The registry is
  an argument, because the initial phase comes from it.
\<close>

definition or_opt :: "'a option \<Rightarrow> 'a option \<Rightarrow> 'a option" where
  "or_opt a b = (case a of None \<Rightarrow> b | Some x \<Rightarrow> Some x)"

definition has_incoming :: "hsm \<Rightarrow> string \<Rightarrow> bool" where
  "has_incoming h skip \<longleftrightarrow> (\<exists>t \<in> set (hsm_transitions h). tto t = skip)"

definition registry_initial :: "registry \<Rightarrow> hsm \<Rightarrow> string option" where
  "registry_initial r h = (case getInitialPhase r (hsm_id h) of Inl _ \<Rightarrow> None | Inr p \<Rightarrow> Some p)"

definition check_skip :: "registry \<Rightarrow> hsm \<Rightarrow> string \<Rightarrow> js_exn option" where
  "check_skip r h skip =
     (case state_at h skip of
        None \<Rightarrow> None
      | Some st \<Rightarrow>
          if st_type st = Final then
            Some (Thrown (''Cannot skip final phase '' @ [CHR 0x27] @ skip @ [CHR 0x27]))
          else if registry_initial r h = Some skip \<or> \<not> has_incoming h skip then
            Some (Thrown (''Cannot skip initial phase '' @ [CHR 0x27] @ skip @ [CHR 0x27]))
          else None)"

fun first_error :: "('a \<Rightarrow> js_exn option) \<Rightarrow> 'a list \<Rightarrow> js_exn option" where
  "first_error f [] = None"
| "first_error f (x # xs) = (case f x of Some e \<Rightarrow> Some e | None \<Rightarrow> first_error f xs)"

text \<open>One incoming transition, continued along one outgoing transition of the skipped phase.\<close>

definition splice :: "transition \<Rightarrow> transition \<Rightarrow> transition" where
  "splice t outgoing =
     t\<lparr>tto := tto outgoing, tguard := or_opt (tguard outgoing) (tguard t),
       teffects := or_opt (teffects outgoing) (teffects t),
       isFixCycle := or_opt (isFixCycle outgoing) (isFixCycle t)\<rparr>"

definition reroute :: "string \<Rightarrow> transition list \<Rightarrow> transition list \<Rightarrow> transition list" where
  "reroute skip outgoings ts =
     concat (map (\<lambda>t. if tto t = skip then map (splice t) outgoings
                      else if tfrom t \<noteq> skip then [t] else []) ts)"

definition child_ids :: "hsm \<Rightarrow> string \<Rightarrow> string set" where
  "child_ids h skip = st_id ` {st \<in> snd ` set (hsm_states h). st_parent st = Some skip}"

definition drop_children :: "hsm \<Rightarrow> string \<Rightarrow> transition list \<Rightarrow> transition list" where
  "drop_children h skip ts =
     (let ids = child_ids h skip
      in filter (\<lambda>t. tfrom t \<notin> ids \<and> tto t \<notin> ids) ts)"

definition skip_one :: "hsm \<Rightarrow> string \<Rightarrow> transition list \<Rightarrow> transition list" where
  "skip_one h skip ts =
     (if state_at h skip = None then ts
      else
        (let outgoings = filter (\<lambda>t. tfrom t = skip) ts in
         if outgoings = [] then ts
         else drop_children h skip (reroute skip outgoings ts)))"

definition applyPhaseSkips :: "registry \<Rightarrow> hsm \<Rightarrow> string list \<Rightarrow> js_exn + hsm" where
  "applyPhaseSkips r h skipPhases =
     (if skipPhases = [] then Inr h
      else (case first_error (check_skip r h) skipPhases of
          Some e \<Rightarrow> Inl e
        | None \<Rightarrow>
            Inr (h\<lparr>hsm_transitions := fold (skip_one h) skipPhases (hsm_transitions h)\<rparr>)))"

section \<open>Laws\<close>

lemma splice_simps [simp]:
  "tfrom (splice t u) = tfrom t" "tto (splice t u) = tto u" "isRevision (splice t u) = isRevision t"
  "tguard (splice t u) = or_opt (tguard u) (tguard t)"
  by (simp_all add: splice_def)

lemma first_error_None: "first_error f xs = None \<longleftrightarrow> (\<forall>x \<in> set xs. f x = None)"
  by (induction xs) (auto split: option.splits)

lemma set_reroute:
  "set (reroute skip outs ts) =
   {splice t u | t u. t \<in> set ts \<and> tto t = skip \<and> u \<in> set outs} \<union>
   {t \<in> set ts. tto t \<noteq> skip \<and> tfrom t \<noteq> skip}"
  by (auto simp: reroute_def split: if_splits)

text \<open>
  A phase without an edge to itself disappears: no transition of the result ends in it or
  leaves it.
\<close>

lemma skip_one_removes:
  assumes "state_at h skip \<noteq> None" "\<exists>t \<in> set ts. tfrom t = skip"
    "\<forall>t \<in> set ts. \<not> (tfrom t = skip \<and> tto t = skip)" "t \<in> set (skip_one h skip ts)"
  shows "tfrom t \<noteq> skip \<and> tto t \<noteq> skip"
proof -
  have "filter (\<lambda>t. tfrom t = skip) ts \<noteq> []" using assms(2) by (auto simp: filter_empty_conv)
  then have "skip_one h skip ts = drop_children h skip (reroute skip (filter (\<lambda>t. tfrom t = skip) ts) ts)"
    using assms(1) by (auto simp add: skip_one_def Let_def)
  then have "t \<in> set (reroute skip (filter (\<lambda>t. tfrom t = skip) ts) ts)"
    using assms(4) by (simp add: drop_children_def Let_def)
  then show ?thesis using assms(3) by (auto simp: set_reroute)
qed

text \<open>An edge of the result is an old edge, or an incoming edge joined to an outgoing one.\<close>

lemma skip_one_edges:
  assumes "t \<in> set (skip_one h skip ts)"
  shows "t \<in> set ts \<or>
    (\<exists>a \<in> set ts. \<exists>b \<in> set ts. tto a = skip \<and> tfrom b = skip \<and> t = splice a b)"
  using assms
  by (auto simp: skip_one_def Let_def drop_children_def set_reroute split: if_splits)

text \<open>Every path through the skipped phase survives as a direct edge, unless it touches a child of it.\<close>

lemma skip_one_keeps_paths:
  assumes "state_at h skip \<noteq> None" "a \<in> set ts" "b \<in> set ts" "tto a = skip" "tfrom b = skip"
    "tfrom a \<notin> child_ids h skip" "tto b \<notin> child_ids h skip"
  shows "splice a b \<in> set (skip_one h skip ts)"
  using assms by (auto simp: skip_one_def Let_def drop_children_def set_reroute filter_empty_conv)

lemma skip_one_keeps_others:
  assumes "t \<in> set ts" "tfrom t \<noteq> skip" "tto t \<noteq> skip"
    "tfrom t \<notin> child_ids h skip" "tto t \<notin> child_ids h skip"
  shows "t \<in> set (skip_one h skip ts)"
  using assms by (auto simp: skip_one_def Let_def drop_children_def set_reroute)

lemma applyPhaseSkips_states:
  "applyPhaseSkips r h skips = Inr h' \<Longrightarrow> hsm_states h' = hsm_states h \<and> hsm_id h' = hsm_id h"
  by (auto simp: applyPhaseSkips_def split: if_splits option.splits)

lemma skip_fold_endpoints:
  assumes "t \<in> set (fold (skip_one h) skips ts)"
  shows "tfrom t \<in> tfrom ` set ts \<and> tto t \<in> tto ` set ts"
  using assms
proof (induction skips arbitrary: ts)
  case (Cons s skips)
  have "tfrom t \<in> tfrom ` set (skip_one h s ts)" "tto t \<in> tto ` set (skip_one h s ts)"
    using Cons.IH [of "skip_one h s ts"] Cons.prems by auto
  moreover have "tfrom ` set (skip_one h s ts) \<subseteq> tfrom ` set ts" "tto ` set (skip_one h s ts) \<subseteq> tto ` set ts"
    using skip_one_edges [of _ h s ts] by fastforce+
  ultimately show ?case by blast
qed auto

text \<open>Routing around phases keeps a closed machine closed.\<close>

lemma applyPhaseSkips_closed:
  assumes "hsm_closed h" "applyPhaseSkips r h skips = Inr h'"
  shows "hsm_closed h'"
proof -
  have same: "state_at h' i = state_at h i" "is_final h' i = is_final h i" for i
    using applyPhaseSkips_states [OF assms(2)] by (simp_all add: state_at_def is_final_def)
  have "tfrom t \<in> tfrom ` set (hsm_transitions h) \<and> tto t \<in> tto ` set (hsm_transitions h)"
    if "t \<in> set (hsm_transitions h')" for t
    using assms(2) that skip_fold_endpoints [of t h skips "hsm_transitions h"]
    by (auto simp: applyPhaseSkips_def split: if_splits option.splits)
  then have ends: "\<exists>a \<in> set (hsm_transitions h). \<exists>b \<in> set (hsm_transitions h). tfrom t = tfrom a \<and> tto t = tto b"
    if "t \<in> set (hsm_transitions h')" for t using that by fastforce
  have edges: "state_at h (tfrom t) \<noteq> None \<and> state_at h (tto t) \<noteq> None \<and> \<not> is_final h (tfrom t)"
    if t: "t \<in> set (hsm_transitions h')" for t
  proof -
    from ends [OF t] obtain a b where "a \<in> set (hsm_transitions h)" "b \<in> set (hsm_transitions h)"
      "tfrom t = tfrom a" "tto t = tto b" by blast
    then show ?thesis
      using hsm_closed.edges_closed [OF assms(1)] hsm_closed.edges_leave_nonfinal [OF assms(1)] by simp
  qed
  have wf: "hsm_wf h" using assms(1) by (rule hsm_closed.axioms(1))
  have "hsm_wf h'"
    by (rule hsm_wf.intro)
      (use hsm_wf.state_id [OF wf] hsm_wf.parent_compound [OF wf] in \<open>simp_all add: same\<close>)
  moreover have "hsm_closed_axioms h'"
    by (rule hsm_closed_axioms.intro)
      (use edges hsm_closed.universal_final [OF assms(1)] in \<open>simp_all add: same\<close>)
  ultimately show ?thesis by (rule hsm_closed.intro)
qed

end
