(* ===== verification/Event_Log.thy ===== *)
theory Event_Log
  imports Js_Value
begin

text \<open>
  Stored events and the filters of a stream query (\<open>src/events/schemas.ts\<close> for the fields,
  \<open>src/events/store.ts\<close> for \<open>QueryFilters\<close>), with the interface \<open>event_stream\<close> that both storage
  backends satisfy: an append extends one stream by one event at its end and changes no other. A
  backend keeps the data of the event as it is or as its text reads back; that is a parameter.
\<close>

section \<open>Events\<close>

record wf_event =
  we_stream :: string
  we_sequence :: nat
  we_timestamp :: string
  we_type :: string
  we_eventId :: "string option"
  we_key :: "string option"
  we_operation :: "string option"
  we_correlation :: "string option"
  we_causation :: "string option"
  we_data :: js

text \<open>\<open>e.data\<close> is a record or absent; \<open>e.data?.field\<close> reads one of its fields.\<close>

definition data_get :: "wf_event \<Rightarrow> string \<Rightarrow> js" where
  "data_get e k = opt_get (we_data e) k"

text \<open>
  The order of timestamps: JavaScript compares strings code unit by code unit, which on the
  ASCII text of an ISO-8601 timestamp is the order of the bytes.
\<close>

fun str_less :: "string \<Rightarrow> string \<Rightarrow> bool" where
  "str_less _ [] = False"
| "str_less [] (_ # _) = True"
| "str_less (x # xs) (y # ys) =
     (let a = of_char x :: nat; b = of_char y :: nat in a < b \<or> (a = b \<and> str_less xs ys))"

lemma of_char_eq: "(of_char x :: nat) = of_char y \<longleftrightarrow> x = y"
  by (simp add: of_char_eq_iff)

lemma str_less_irrefl [simp]: "\<not> str_less s s"
  by (induction s) simp_all

lemma str_less_trans: "str_less a b \<Longrightarrow> str_less b c \<Longrightarrow> str_less a c"
proof (induction a b arbitrary: c rule: str_less.induct)
  case (3 x xs y ys)
  then show ?case by (cases c) (auto simp: Let_def)
next
  case (2 y ys)
  then show ?case by (cases c) auto
qed simp

lemma str_less_linear: "str_less a b \<or> a = b \<or> str_less b a"
proof (induction a b rule: str_less.induct)
  case (1 a)
  then show ?case by (cases a) auto
next
  case (3 x xs y ys)
  then show ?case by (auto simp: Let_def of_char_eq)
qed simp

abbreviation str_le :: "string \<Rightarrow> string \<Rightarrow> bool" where
  "str_le a b \<equiv> \<not> str_less b a"

section \<open>Filters\<close>

record query_filters =
  qf_type :: "string option"
  qf_sinceSequence :: "nat option"
  qf_since :: "string option"
  qf_until :: "string option"
  qf_limit :: "nat option"
  qf_offset :: "nat option"
  qf_operation :: "string option"
  qf_correlation :: "string option"
  qf_causation :: "string option"

definition no_filters :: query_filters where
  "no_filters =
     \<lparr>qf_type = None, qf_sinceSequence = None, qf_since = None, qf_until = None, qf_limit = None,
      qf_offset = None, qf_operation = None, qf_correlation = None, qf_causation = None\<rparr>"

definition type_filter :: "string \<Rightarrow> query_filters" where
  "type_filter t = no_filters\<lparr>qf_type := Some t\<rparr>"

text \<open>A text filter that the code tests with \<open>if (filters.x)\<close>: the empty string filters nothing.\<close>

definition when_text :: "string option \<Rightarrow> (string \<Rightarrow> bool) \<Rightarrow> bool" where
  "when_text x P = (case x of None \<Rightarrow> True | Some s \<Rightarrow> s = '''' \<or> P s)"

definition when_given :: "'a option \<Rightarrow> ('a \<Rightarrow> bool) \<Rightarrow> bool" where
  "when_given x P = (case x of None \<Rightarrow> True | Some s \<Rightarrow> P s)"

lemma when_simps [simp]:
  "when_text None P" "when_given None Q" "when_given (Some a) Q = Q a"
  "when_text (Some s) P \<longleftrightarrow> s = '''' \<or> P s"
  by (simp_all add: when_text_def when_given_def)

definition matches :: "query_filters \<Rightarrow> wf_event \<Rightarrow> bool" where
  "matches f e \<longleftrightarrow>
     when_given (qf_sinceSequence f) (\<lambda>n. n < we_sequence e) \<and>
     when_text (qf_type f) (\<lambda>t. we_type e = t) \<and>
     when_text (qf_since f) (\<lambda>t. str_le t (we_timestamp e)) \<and>
     when_text (qf_until f) (\<lambda>t. str_le (we_timestamp e) t) \<and>
     when_given (qf_operation f) (\<lambda>i. we_operation e = Some i) \<and>
     when_given (qf_correlation f) (\<lambda>i. we_correlation e = Some i) \<and>
     when_given (qf_causation f) (\<lambda>i. we_causation e = Some i)"

definition or_zero :: "nat option \<Rightarrow> nat" where
  "or_zero n = (case n of None \<Rightarrow> 0 | Some k \<Rightarrow> k)"

definition page :: "query_filters \<Rightarrow> 'a list \<Rightarrow> 'a list" where
  "page f es =
     (let skipped = drop (or_zero (qf_offset f)) es
      in case qf_limit f of None \<Rightarrow> skipped | Some n \<Rightarrow> take n skipped)"

definition run_query :: "query_filters \<Rightarrow> wf_event list \<Rightarrow> wf_event list" where
  "run_query f es = page f (filter (matches f) es)"

lemma run_query_none [simp]: "run_query no_filters es = es"
  by (simp add: run_query_def page_def no_filters_def matches_def or_zero_def)

lemma run_query_type:
  "t \<noteq> '''' \<Longrightarrow> run_query (type_filter t) es = filter (\<lambda>e. we_type e = t) es"
  by (auto simp: run_query_def page_def type_filter_def no_filters_def matches_def or_zero_def
      intro!: filter_cong)

lemma page_subset: "set (page f es) \<subseteq> set es"
  by (auto simp: page_def Let_def dest: in_set_dropD in_set_takeD split: option.splits)

lemma run_query_sound: "e \<in> set (run_query f es) \<Longrightarrow> e \<in> set es \<and> matches f e"
  using page_subset [of f "filter (matches f) es"] by (auto simp: run_query_def)

lemma page_sublist: "subseq (page f es) es"
proof -
  have d: "subseq (drop n es) es" for n by (simp add: suffix_drop suffix_imp_subseq)
  have t: "subseq (take m (drop n es)) es" for m n
    by (rule subseq_order.order_trans [OF prefix_imp_subseq [OF take_is_prefix] d])
  show ?thesis using d t by (simp add: page_def Let_def split: option.splits)
qed

section \<open>The stream interface\<close>

text \<open>Sequences of a stream strictly increase.\<close>

definition seq_sorted :: "wf_event list \<Rightarrow> bool" where
  "seq_sorted es \<longleftrightarrow> sorted_wrt (\<lambda>a b. we_sequence a < we_sequence b) es"

definition tail_seq :: "wf_event list \<Rightarrow> nat" where
  "tail_seq es = (if es = [] then 0 else we_sequence (last es))"

lemma tail_seq_simps [simp]: "tail_seq [] = 0" "tail_seq (es @ [e]) = we_sequence e"
  by (simp_all add: tail_seq_def)

lemma seq_sorted_snoc:
  "seq_sorted es \<Longrightarrow> tail_seq es < we_sequence e \<Longrightarrow> seq_sorted (es @ [e])"
  by (cases es rule: rev_cases) (auto simp: seq_sorted_def sorted_wrt_append intro: less_trans)

lemma seq_sorted_filter: "seq_sorted es \<Longrightarrow> seq_sorted (filter P es)"
  by (simp add: seq_sorted_def sorted_wrt_filter)

text \<open>An event whose data went through a conversion.\<close>

definition with_data :: "(js \<Rightarrow> js) \<Rightarrow> wf_event \<Rightarrow> wf_event" where
  "with_data f e = e\<lparr>we_data := f (we_data e)\<rparr>"

lemma with_data_simps [simp]:
  "we_stream (with_data f e) = we_stream e" "we_sequence (with_data f e) = we_sequence e"
  "we_timestamp (with_data f e) = we_timestamp e" "we_type (with_data f e) = we_type e"
  "we_eventId (with_data f e) = we_eventId e" "we_key (with_data f e) = we_key e"
  "we_operation (with_data f e) = we_operation e" "we_correlation (with_data f e) = we_correlation e"
  "we_causation (with_data f e) = we_causation e" "we_data (with_data f e) = f (we_data e)"
  by (simp_all add: with_data_def)

lemma with_data_same: "f (we_data e) = we_data e \<Longrightarrow> with_data f e = e"
  by (simp add: with_data_def)

text \<open>No filter looks at the data.\<close>

lemma run_query_with_data: "run_query f (map (with_data g) es) = map (with_data g) (run_query f es)"
proof -
  have "matches f (with_data g e) = matches f e" for e by (simp add: matches_def)
  then show ?thesis
    by (simp add: run_query_def page_def filter_map comp_def drop_map take_map Let_def split: option.split)
qed

locale event_stream =
  fixes events_of :: "'st \<Rightarrow> string \<Rightarrow> wf_event list"
    and kept :: "js \<Rightarrow> js"
    and append_one :: "string \<Rightarrow> wf_event \<Rightarrow> 'st \<Rightarrow> 'st"
    and tail :: "'st \<Rightarrow> string \<Rightarrow> nat"
    and inv :: "'st \<Rightarrow> bool"
  assumes append_same:
      "inv st \<Longrightarrow> tail st s < we_sequence e \<Longrightarrow> events_of (append_one s e st) s = events_of st s @ [with_data kept e]"
    and append_other: "s' \<noteq> s \<Longrightarrow> events_of (append_one s e st) s' = events_of st s'"
    and append_inv: "inv st \<Longrightarrow> tail st s < we_sequence e \<Longrightarrow> inv (append_one s e st)"
    and append_tail: "tail (append_one s e st) s = we_sequence e"
    and tail_bound: "inv st \<Longrightarrow> e \<in> set (events_of st s) \<Longrightarrow> we_sequence e \<le> tail st s"
    and stream_sorted: "inv st \<Longrightarrow> seq_sorted (events_of st s)"
begin

text \<open>Appending the events one after the other, each above the tail it meets.\<close>

fun in_order :: "nat \<Rightarrow> wf_event list \<Rightarrow> bool" where
  "in_order n [] = True"
| "in_order n (e # es) \<longleftrightarrow> n < we_sequence e \<and> in_order (we_sequence e) es"

lemma append_all:
  assumes "inv st" "in_order (tail st s) es"
  shows "inv (fold (append_one s) es st)"
    and "events_of (fold (append_one s) es st) s = events_of st s @ map (with_data kept) es"
    and "s' \<noteq> s \<Longrightarrow> events_of (fold (append_one s) es st) s' = events_of st s'"
proof -
  have "inv (fold (append_one s) es st) \<and>
    events_of (fold (append_one s) es st) s = events_of st s @ map (with_data kept) es \<and>
    (s' \<noteq> s \<longrightarrow> events_of (fold (append_one s) es st) s' = events_of st s')"
    using assms
    by (induction es arbitrary: st) (simp_all add: append_same append_other append_inv append_tail)
  then show "inv (fold (append_one s) es st)"
    "events_of (fold (append_one s) es st) s = events_of st s @ map (with_data kept) es"
    "s' \<noteq> s \<Longrightarrow> events_of (fold (append_one s) es st) s' = events_of st s'" by auto
qed

lemma appended_is_last:
  "inv st \<Longrightarrow> tail st s < we_sequence e \<Longrightarrow> last (events_of (append_one s e st) s) = with_data kept e"
  by (simp add: append_same)

lemma no_sequence_reuse:
  "inv st \<Longrightarrow> tail st s < we_sequence e \<Longrightarrow> e' \<in> set (events_of st s) \<Longrightarrow> we_sequence e' \<noteq> we_sequence e"
  using tail_bound [of st e' s] by auto

text \<open>A query by type after an append sees the new event exactly when it has the type.\<close>

lemma query_after_append:
  assumes "inv st" "tail st s < we_sequence e" "t \<noteq> ''''"
  shows "run_query (type_filter t) (events_of (append_one s e st) s) =
    run_query (type_filter t) (events_of st s) @ (if we_type e = t then [with_data kept e] else [])"
  using assms by (simp add: append_same run_query_type)

end

end
