(* ===== verification/Workflow_Events.thy ===== *)
theory Workflow_Events
  imports Event_Log State_Machine
begin

text \<open>
  The event log of a workflow (\<open>src/workflow/events.ts\<close>), the circuit breaker that reads it
  (\<open>circuit-breaker.ts\<close>), the mapping between internal and stored event types, and the hydration
  of stored events for the guards (\<open>hydrateEventsFromStore\<close> of \<open>state-store.ts\<close>). The environment
  variables that the code parses are arguments: the parsed value, or none.
\<close>

section \<open>The in-state log\<close>

record log_event =
  lg_sequence :: nat
  lg_version :: string
  lg_timestamp :: string
  lg_type :: string
  lg_trigger :: string
  lg_from :: "string option"
  lg_to :: "string option"
  lg_metadata :: "fields option"

text \<open>\<open>Number.isFinite(n) && n > 0 ? n : default\<close> on the parsed environment variable.\<close>

definition env_positive :: "int option \<Rightarrow> nat \<Rightarrow> nat" where
  "env_positive parsed dflt = (case parsed of Some n \<Rightarrow> if 0 < n then nat n else dflt | None \<Rightarrow> dflt)"

definition EVENT_LOG_MAX :: "int option \<Rightarrow> nat" where
  "EVENT_LOG_MAX env = env_positive env 100"

record append_outcome =
  ao_events :: "log_event list"
  ao_sequence :: nat
  ao_event :: log_event

definition log_append ::
    "int option \<Rightarrow> string \<Rightarrow> log_event list \<Rightarrow> nat \<Rightarrow> string \<Rightarrow> string \<Rightarrow> string option \<Rightarrow>
     string option \<Rightarrow> fields option \<Rightarrow> append_outcome" where
  "log_append env now events eventSequence t trigger fromPhase toPhase metadata =
     (let nextSequence = eventSequence + 1;
          event = \<lparr>lg_sequence = nextSequence, lg_version = ''1.0'', lg_timestamp = now,
                   lg_type = t, lg_trigger = trigger, lg_from = fromPhase, lg_to = toPhase,
                   lg_metadata = metadata\<rparr>;
          newEvents = events @ [event];
          kept = (if EVENT_LOG_MAX env < length newEvents
                  then drop (length newEvents - EVENT_LOG_MAX env) newEvents else newEvents)
      in \<lparr>ao_events = kept, ao_sequence = nextSequence, ao_event = event\<rparr>)"

definition scoped :: "string \<Rightarrow> string \<Rightarrow> log_event \<Rightarrow> bool" where
  "scoped t compoundStateId e \<longleftrightarrow>
     lg_type e = t \<and>
     (case lg_metadata e of
        None \<Rightarrow> False
      | Some m \<Rightarrow> fget m ''compoundStateId'' = JStr compoundStateId)"

definition getFixCycleCount :: "log_event list \<Rightarrow> string \<Rightarrow> nat" where
  "getFixCycleCount events compoundStateId =
     (if find_last (scoped ''compound-entry'' compoundStateId) events = None then 0
      else length (filter (scoped ''fix-cycle'' compoundStateId)
             (after_last (scoped ''compound-entry'' compoundStateId) events)))"

definition last_n :: "nat \<Rightarrow> 'a list \<Rightarrow> 'a list" where
  "last_n n xs = drop (length xs - n) xs"

definition getRecentEvents :: "log_event list \<Rightarrow> int \<Rightarrow> log_event list" where
  "getRecentEvents events count = (if count \<le> 0 then [] else last_n (nat count) events)"

text \<open>The instant in milliseconds that a timestamp denotes is an argument.\<close>

definition getPhaseDuration :: "(string \<Rightarrow> int) \<Rightarrow> log_event list \<Rightarrow> string \<Rightarrow> int option" where
  "getPhaseDuration millis events phase =
     (case find_last (\<lambda>e. lg_type e = ''transition'' \<and> lg_from e = Some phase) events of
        None \<Rightarrow> None
      | Some x \<Rightarrow>
          (case find_last (\<lambda>e. lg_type e = ''transition'' \<and> lg_to e = Some phase \<and>
                   str_le (lg_timestamp e) (lg_timestamp x)) events of
             None \<Rightarrow> None
           | Some e \<Rightarrow> Some (millis (lg_timestamp x) - millis (lg_timestamp e))))"

section \<open>Circuit breaker\<close>

record breaker =
  cb_fixCycleCount :: nat
  cb_maxFixCycles :: nat
  cb_open :: bool
  cb_compoundStateId :: string
  cb_lastTrippedAt :: "string option"

definition resolveMaxFixCycles :: "int option \<Rightarrow> nat \<Rightarrow> nat" where
  "resolveMaxFixCycles env defaultMax = env_positive env defaultMax"

definition checkCircuitBreaker :: "int option \<Rightarrow> log_event list \<Rightarrow> string \<Rightarrow> nat \<Rightarrow> breaker" where
  "checkCircuitBreaker env events compoundStateId maxFixCycles =
     (let effectiveMax = resolveMaxFixCycles env maxFixCycles;
          n = getFixCycleCount events compoundStateId;
          isOpen = (effectiveMax \<le> n)
      in \<lparr>cb_fixCycleCount = n, cb_maxFixCycles = effectiveMax, cb_open = isOpen,
          cb_compoundStateId = compoundStateId,
          cb_lastTrippedAt = (if isOpen
            then map_option lg_timestamp (find_last (scoped ''fix-cycle'' compoundStateId) events)
            else None)\<rparr>)"

definition getCircuitBreakerState :: "int option \<Rightarrow> log_event list \<Rightarrow> string \<Rightarrow> nat \<Rightarrow> breaker" where
  "getCircuitBreakerState = checkCircuitBreaker"

text \<open>The same count and check on the rows of a stream in the store.\<close>

definition getFixCycleCountFromStore :: "wf_event list \<Rightarrow> string \<Rightarrow> nat" where
  "getFixCycleCountFromStore stream compoundStateId =
     (let fixCycleEvents = run_query (type_filter ''workflow.fix-cycle'') stream;
          compoundEntries = run_query (type_filter ''workflow.compound-entry'') stream;
          mine = (\<lambda>e. data_get e ''compoundStateId'' = JStr compoundStateId)
      in case find_last mine compoundEntries of
           None \<Rightarrow> 0
         | Some lastEntry \<Rightarrow>
             length (filter (\<lambda>e. we_sequence lastEntry < we_sequence e \<and> mine e) fixCycleEvents))"

definition checkCircuitBreakerFromStore :: "int option \<Rightarrow> wf_event list \<Rightarrow> string \<Rightarrow> nat \<Rightarrow> breaker" where
  "checkCircuitBreakerFromStore env stream compoundStateId maxFixCycles =
     (let effectiveMax = resolveMaxFixCycles env maxFixCycles;
          n = getFixCycleCountFromStore stream compoundStateId
      in \<lparr>cb_fixCycleCount = n, cb_maxFixCycles = effectiveMax, cb_open = (effectiveMax \<le> n),
          cb_compoundStateId = compoundStateId, cb_lastTrippedAt = None\<rparr>)"

definition getRecentEventsFromStore :: "wf_event list \<Rightarrow> int \<Rightarrow> (string \<times> string) list" where
  "getRecentEventsFromStore stream count =
     (if count \<le> 0 then []
      else map (\<lambda>e. (we_type e, we_timestamp e)) (last_n (nat count) (run_query no_filters stream)))"

section \<open>Internal and stored event types\<close>

definition ADMISSION_EVENT_TYPE_VALUES :: "string list" where
  "ADMISSION_EVENT_TYPE_VALUES =
     [''admission.requirement-resolved'', ''admission.evidence-recorded'',
      ''admission.transition-decided'', ''admission.waiver-recorded'',
      ''admission.contradiction-recorded'', ''admission.reassessment-requested'',
      ''admission.reassessment-completed'', ''admission.shadow-attempt'',
      ''admission.disagreement-disposition'', ''admission.rollout-decision'',
      ''admission.enforcement-enabled'', ''admission.cutover-ready'']"

definition typeMap :: "(string \<times> string) list" where
  "typeMap =
     [(''transition'', ''workflow.transition''), (''fix-cycle'', ''workflow.fix-cycle''),
      (''guard-failed'', ''workflow.guard-failed''), (''checkpoint'', ''workflow.checkpoint''),
      (''compound-entry'', ''workflow.compound-entry''), (''compound-exit'', ''workflow.compound-exit''),
      (''circuit-open'', ''workflow.circuit-open''), (''cancel'', ''workflow.cancel''),
      (''cleanup'', ''workflow.cleanup''), (''phase.entered'', ''phase.entered''),
      (''phase.exited'', ''phase.exited''), (''phase.blocked'', ''phase.blocked'')] @
     map (\<lambda>t. (t, t)) ADMISSION_EVENT_TYPE_VALUES"

definition mapInternalToExternalType :: "string \<Rightarrow> string" where
  "mapInternalToExternalType t =
     (case map_of typeMap t of Some x \<Rightarrow> x | None \<Rightarrow> ''workflow.'' @ t)"

definition reverseMap :: "(string \<times> string) list" where
  "reverseMap =
     [(''workflow.transition'', ''transition''), (''workflow.fix-cycle'', ''fix-cycle''),
      (''workflow.guard-failed'', ''guard-failed''), (''workflow.checkpoint'', ''checkpoint''),
      (''workflow.compound-entry'', ''compound-entry''), (''workflow.compound-exit'', ''compound-exit''),
      (''workflow.circuit-open'', ''circuit-open''), (''workflow.cancel'', ''cancel''),
      (''workflow.cleanup'', ''cleanup''), (''phase.entered'', ''phase.entered''),
      (''phase.exited'', ''phase.exited''), (''phase.blocked'', ''phase.blocked'')] @
     map (\<lambda>t. (t, t)) ADMISSION_EVENT_TYPE_VALUES"

definition mapExternalToInternalType :: "string \<Rightarrow> string" where
  "mapExternalToInternalType t = (case map_of reverseMap t of Some x \<Rightarrow> x | None \<Rightarrow> t)"

text \<open>The internal types that the reverse map covers.\<close>

definition internal_types :: "string list" where
  "internal_types = map fst typeMap"

lemma map_of_typeMap_reverse:
  "list_all (\<lambda>(i, x). map_of reverseMap x = Some i) typeMap"
  unfolding typeMap_def reverseMap_def ADMISSION_EVENT_TYPE_VALUES_def by code_simp

lemma map_type_round_trip:
  assumes "t \<in> set internal_types"
  shows "mapExternalToInternalType (mapInternalToExternalType t) = t"
proof -
  obtain x where x: "map_of typeMap t = Some x" "(t, x) \<in> set typeMap"
  proof -
    from assms have "map_of typeMap t \<noteq> None" by (auto simp: internal_types_def map_of_eq_None_iff)
    then obtain x where "map_of typeMap t = Some x" by blast
    from that [OF this map_of_SomeD [OF this]] show thesis .
  qed
  then have "map_of reverseMap x = Some t"
    using map_of_typeMap_reverse by (auto simp: list_all_iff)
  with x show ?thesis by (simp add: mapInternalToExternalType_def mapExternalToInternalType_def)
qed

section \<open>Hydration\<close>

definition data_fields :: "wf_event \<Rightarrow> fields" where
  "data_fields e = (case we_data e of JObj fs \<Rightarrow> fs | _ \<Rightarrow> [])"

definition hydrate_event :: "wf_event \<Rightarrow> js" where
  "hydrate_event e =
     JObj (AList.update ''metadata'' (JObj (data_fields e))
       (spread [(''type'', JStr (mapExternalToInternalType (we_type e))),
                (''timestamp'', JStr (we_timestamp e))] (data_fields e)))"

definition hydrateEventsFromStore :: "wf_event list \<Rightarrow> js list" where
  "hydrateEventsFromStore stream = map hydrate_event (run_query no_filters stream)"

text \<open>Data whose keys are those of a record, and which does not overwrite the envelope's type.\<close>

definition plain_data :: "wf_event \<Rightarrow> bool" where
  "plain_data e \<longleftrightarrow> distinct (map fst (data_fields e)) \<and> ''type'' \<notin> fst ` set (data_fields e)"

lemma fget_spread:
  "distinct (map fst bs) \<Longrightarrow>
   fget (spread al bs) k = (case map_of bs k of Some v \<Rightarrow> v | None \<Rightarrow> fget al k)"
  by (simp add: fget_def map_of_spread map_add_def split: option.splits)

lemma hydrate_event_get:
  assumes "plain_data e"
  shows "opt_get (hydrate_event e) ''type'' = JStr (mapExternalToInternalType (we_type e))"
    and "opt_get (hydrate_event e) ''metadata'' = JObj (data_fields e)"
proof -
  have "map_of (data_fields e) ''type'' = None" using assms by (simp add: plain_data_def map_of_eq_None_iff)
  then show "opt_get (hydrate_event e) ''type'' = JStr (mapExternalToInternalType (we_type e))"
    using assms by (simp add: hydrate_event_def plain_data_def fget_spread)
qed (simp add: hydrate_event_def)

text \<open>A key other than those of the envelope reads the same key of the data.\<close>

lemma hydrate_event_data:
  assumes "distinct (map fst (data_fields e))" "k \<notin> {''type'', ''timestamp'', ''metadata''}"
  shows "opt_get (hydrate_event e) k = fget (data_fields e) k"
proof -
  have "fget (data_fields e) k = (case map_of (data_fields e) k of None \<Rightarrow> JUndef | Some v \<Rightarrow> v)"
    by (simp add: fget_def)
  moreover have "k \<noteq> ''type''" "k \<noteq> ''timestamp''" "''metadata'' \<noteq> k" using assms(2) by auto
  ultimately show ?thesis
    using assms(1) by (cases "map_of (data_fields e) k") (simp_all add: hydrate_event_def fget_spread)
qed

end
