(* ===== verification/Memory_Backend.thy ===== *)
theory Memory_Backend
  imports Event_Log
begin

text \<open>
  The in-memory storage backend (\<open>src/storage/memory-backend.ts\<close>, with the pure helpers of
  \<open>backend.ts\<close> and \<open>snapshot-retention.ts\<close>): append-only streams, versioned states with
  compare-and-set, the FIFO outbox, the view cache and the projection snapshots. Maps of the
  source are association lists, because listings follow insertion order. \<open>localeCompare\<close> is
  an argument, since its order depends on the engine's locale data.
\<close>

section \<open>State\<close>

record outbox_item =
  ob_id :: nat
  ob_event :: wf_event

record view_entry =
  ve_state :: js
  ve_highWaterMark :: nat

record snapshot =
  sn_projection :: string
  sn_version :: string
  sn_sequence :: nat
  sn_state :: js
  sn_timestamp :: string

record state_entry =
  en_state :: fields
  en_version :: jsnum

record memory =
  m_events :: "(string \<times> wf_event list) list"
  m_states :: "(string \<times> state_entry) list"
  m_outbox :: "(string \<times> outbox_item list) list"
  m_views :: "(string \<times> view_entry) list"
  m_snapshots :: "(string \<times> snapshot list) list"
  m_outboxCounter :: nat
  m_appendVersion :: nat

definition empty_memory :: memory where
  "empty_memory =
     \<lparr>m_events = [], m_states = [], m_outbox = [], m_views = [], m_snapshots = [],
      m_outboxCounter = 0, m_appendVersion = 0\<rparr>"

definition list_at :: "(string \<times> 'a list) list \<Rightarrow> string \<Rightarrow> 'a list" where
  "list_at al k = (case map_of al k of None \<Rightarrow> [] | Some xs \<Rightarrow> xs)"

lemma list_at_update [simp]: "list_at (AList.update k v al) k' = (if k' = k then v else list_at al k')"
  by (simp add: list_at_def)

lemma list_at_delete [simp]: "list_at (AList.delete k al) k' = (if k' = k then [] else list_at al k')"
  by (simp add: list_at_def delete_conv')

section \<open>Streams\<close>

definition m_appendEvent :: "string \<Rightarrow> wf_event \<Rightarrow> memory \<Rightarrow> memory" where
  "m_appendEvent s e m =
     m\<lparr>m_events := AList.update s (list_at (m_events m) s @ [e]) (m_events m),
       m_appendVersion := m_appendVersion m + 1\<rparr>"

definition m_dataVersion :: "memory \<Rightarrow> nat" where
  "m_dataVersion m = m_appendVersion m"

definition m_queryEvents :: "memory \<Rightarrow> string \<Rightarrow> query_filters \<Rightarrow> wf_event list" where
  "m_queryEvents m s f =
     (case map_of (m_events m) s of None \<Rightarrow> [] | Some stream \<Rightarrow> run_query f stream)"

definition m_getSequence :: "memory \<Rightarrow> string \<Rightarrow> nat" where
  "m_getSequence m s = tail_seq (list_at (m_events m) s)"

definition m_listStreams :: "memory \<Rightarrow> string list" where
  "m_listStreams m = map fst (m_events m)"

text \<open>A stable sort by a comparator, as \<open>Array.prototype.sort\<close> gives.\<close>

fun insert_by :: "('a \<Rightarrow> 'a \<Rightarrow> bool) \<Rightarrow> 'a \<Rightarrow> 'a list \<Rightarrow> 'a list" where
  "insert_by le x [] = [x]"
| "insert_by le x (y # ys) = (if le x y then x # y # ys else y # insert_by le x ys)"

definition sort_by :: "('a \<Rightarrow> 'a \<Rightarrow> bool) \<Rightarrow> 'a list \<Rightarrow> 'a list" where
  "sort_by le xs = foldr (insert_by le) xs []"

lemma set_insert_by [simp]: "set (insert_by le x xs) = insert x (set xs)"
  by (induction xs) auto

lemma set_sort_by [simp]: "set (sort_by le xs) = set xs"
  by (induction xs) (simp_all add: sort_by_def)

lemma length_insert_by [simp]: "length (insert_by le x xs) = Suc (length xs)"
  by (induction xs) auto

lemma length_sort_by [simp]: "length (sort_by le xs) = length xs"
  by (induction xs) (simp_all add: sort_by_def)

type_synonym collation = "string \<Rightarrow> string \<Rightarrow> int"

definition by_time_then_sequence :: "collation \<Rightarrow> wf_event \<Rightarrow> wf_event \<Rightarrow> bool" where
  "by_time_then_sequence localeCompare a b =
     (let byTs = localeCompare (we_timestamp a) (we_timestamp b)
      in if byTs \<noteq> 0 then byTs \<le> 0 else we_sequence a \<le> we_sequence b)"

definition under_prefix :: "string \<Rightarrow> string \<Rightarrow> bool" where
  "under_prefix streamPrefix s \<longleftrightarrow> s = streamPrefix \<or> prefix (streamPrefix @ ''/'') s"

text \<open>The event type is matched first; the other filters are those of one stream, without a type.\<close>

definition m_queryEventsByType ::
    "collation \<Rightarrow> memory \<Rightarrow> string \<Rightarrow> string \<Rightarrow> query_filters \<Rightarrow> wf_event list" where
  "m_queryEventsByType localeCompare m eventType streamPrefix f =
     page f (sort_by (by_time_then_sequence localeCompare)
       (concat (map (\<lambda>(s, stream).
          if under_prefix streamPrefix s
          then filter (\<lambda>e. we_type e = eventType \<and> matches (f\<lparr>qf_type := None\<rparr>) e) stream
          else []) (m_events m))))"

definition m_pruneEvents :: "string \<Rightarrow> string \<Rightarrow> memory \<Rightarrow> memory \<times> nat" where
  "m_pruneEvents s before m =
     (case map_of (m_events m) s of
        None \<Rightarrow> (m, 0)
      | Some stream \<Rightarrow>
          (let kept = filter (\<lambda>e. str_le before (we_timestamp e)) stream;
               pruned = length stream - length kept
           in if kept = [] then (m\<lparr>m_events := AList.delete s (m_events m)\<rparr>, pruned)
              else (m\<lparr>m_events := AList.update s kept (m_events m)\<rparr>, pruned)))"

section \<open>States\<close>

datatype storage_error = VersionConflict string jsnum jsnum

fun num_add1 :: "jsnum \<Rightarrow> jsnum" where
  "num_add1 (Fin r) = Fin (r + 1)"
| "num_add1 n = n"

definition num_eq :: "jsnum \<Rightarrow> jsnum \<Rightarrow> bool" where
  "num_eq a b \<longleftrightarrow> a = b \<and> a \<noteq> NaN"

definition m_getState :: "memory \<Rightarrow> string \<Rightarrow> fields option" where
  "m_getState m i = map_option en_state (map_of (m_states m) i)"

definition current_version :: "state_entry option \<Rightarrow> jsnum" where
  "current_version entry = (case entry of None \<Rightarrow> Fin 0 | Some e \<Rightarrow> en_version e)"

definition next_version :: "state_entry option \<Rightarrow> fields \<Rightarrow> jsnum option \<Rightarrow> jsnum" where
  "next_version entry state expected =
     (if entry = None \<and> expected = None then
        (case fget state ''_version'' of
           JNum n \<Rightarrow> n
         | _ \<Rightarrow> num_add1 (current_version entry))
      else num_add1 (current_version entry))"

definition m_setState ::
    "string \<Rightarrow> fields \<Rightarrow> jsnum option \<Rightarrow> memory \<Rightarrow> storage_error + memory" where
  "m_setState i state expected m =
     (let entry = map_of (m_states m) i; current = current_version entry in
      case expected of
        Some x \<Rightarrow>
          if \<not> num_eq current x then Inl (VersionConflict i x current)
          else Inr (m\<lparr>m_states := AList.update i
                 \<lparr>en_state = state, en_version = next_version entry state expected\<rparr> (m_states m)\<rparr>)
      | None \<Rightarrow>
          Inr (m\<lparr>m_states := AList.update i
                 \<lparr>en_state = state, en_version = next_version entry state expected\<rparr> (m_states m)\<rparr>))"

definition m_listStates :: "memory \<Rightarrow> (string \<times> fields) list" where
  "m_listStates m = map (\<lambda>(i, e). (i, en_state e)) (m_states m)"

definition m_deleteState :: "string \<Rightarrow> memory \<Rightarrow> memory" where
  "m_deleteState i m = m\<lparr>m_states := AList.delete i (m_states m)\<rparr>"

section \<open>Workflow summaries\<close>

datatype lifecycle = Active | Completed | Cancelled | Blocked

definition deriveWorkflowStatus :: "string \<Rightarrow> lifecycle" where
  "deriveWorkflowStatus phase =
     (if phase = ''completed'' then Completed
      else if phase = ''cancelled'' then Cancelled
      else if phase = ''blocked'' then Blocked
      else Active)"

definition TERMINAL_WORKFLOW_STATUSES :: "lifecycle list" where
  "TERMINAL_WORKFLOW_STATUSES = [Completed, Cancelled]"

definition isTerminalWorkflowStatus :: "lifecycle \<Rightarrow> bool" where
  "isTerminalWorkflowStatus st \<longleftrightarrow> st \<in> set TERMINAL_WORKFLOW_STATUSES"

record summary_filter =
  sf_workflowType :: "string option"
  sf_status :: "lifecycle option"
  sf_phase :: "string option"
  sf_includeTerminal :: bool

record workflow_summary =
  su_feature :: string
  su_workflowType :: string
  su_phase :: string
  su_status :: lifecycle
  su_createdAt :: "string option"

definition matchesWorkflowSummaryFilter :: "workflow_summary \<Rightarrow> summary_filter \<Rightarrow> bool" where
  "matchesWorkflowSummaryFilter s f \<longleftrightarrow>
     (if \<not> when_given (sf_phase f) (\<lambda>p. su_phase s = p) then False
      else (case sf_status f of
          Some st \<Rightarrow> su_status s = st
        | None \<Rightarrow> sf_includeTerminal f \<or> \<not> isTerminalWorkflowStatus (su_status s)))"

definition text_or_empty :: "js \<Rightarrow> string" where
  "text_or_empty v = (case v of JStr s \<Rightarrow> s | _ \<Rightarrow> '''')"

fun earliest :: "string \<Rightarrow> wf_event list \<Rightarrow> string" where
  "earliest t [] = t"
| "earliest t (e # es) = earliest (if str_less (we_timestamp e) t then we_timestamp e else t) es"

definition created_at :: "wf_event list \<Rightarrow> string option" where
  "created_at es = (case es of [] \<Rightarrow> None | e # _ \<Rightarrow> Some (earliest (we_timestamp e) es))"

definition summary_of :: "memory \<Rightarrow> string \<times> state_entry \<Rightarrow> workflow_summary" where
  "summary_of m kv =
     (let phase = text_or_empty (fget (en_state (snd kv)) ''phase'')
      in \<lparr>su_feature = fst kv,
          su_workflowType = text_or_empty (fget (en_state (snd kv)) ''workflowType''),
          su_phase = phase, su_status = deriveWorkflowStatus phase,
          su_createdAt = created_at (list_at (m_events m) (fst kv))\<rparr>)"

definition m_listWorkflowSummaries ::
    "collation \<Rightarrow> memory \<Rightarrow> summary_filter \<Rightarrow> workflow_summary list" where
  "m_listWorkflowSummaries localeCompare m f =
     filter (\<lambda>s. when_given (sf_workflowType f) (\<lambda>t. su_workflowType s = t) \<and>
                 matchesWorkflowSummaryFilter s f)
       (sort_by (\<lambda>a b. localeCompare (su_feature a) (su_feature b) \<le> 0)
          (map (summary_of m) (m_states m)))"

section \<open>Outbox\<close>

definition m_addOutboxEntry :: "string \<Rightarrow> wf_event \<Rightarrow> memory \<Rightarrow> memory \<times> nat" where
  "m_addOutboxEntry s e m =
     (let i = m_outboxCounter m + 1
      in (m\<lparr>m_outbox := AList.update s (list_at (m_outbox m) s @ [\<lparr>ob_id = i, ob_event = e\<rparr>]) (m_outbox m),
            m_outboxCounter := i\<rparr>, i))"

fun remove_id :: "nat \<Rightarrow> outbox_item list \<Rightarrow> outbox_item list" where
  "remove_id i [] = []"
| "remove_id i (x # xs) = (if ob_id x = i then xs else x # remove_id i xs)"

text \<open>The drain loop over the batch: the sender accepts an event or throws, and a throw ends it.\<close>

fun drain_loop ::
    "(wf_event \<Rightarrow> bool) \<Rightarrow> outbox_item list \<Rightarrow> outbox_item list \<Rightarrow> nat \<Rightarrow> outbox_item list \<times> nat \<times> nat" where
  "drain_loop accepts [] items sent = (items, sent, 0)"
| "drain_loop accepts (x # batch) items sent =
     (if accepts (ob_event x) then drain_loop accepts batch (remove_id (ob_id x) items) (sent + 1)
      else (items, sent, 1))"

definition m_drainOutbox ::
    "string \<Rightarrow> (wf_event \<Rightarrow> bool) \<Rightarrow> nat option \<Rightarrow> memory \<Rightarrow> memory \<times> nat \<times> nat" where
  "m_drainOutbox s accepts batchSize m =
     (let items = list_at (m_outbox m) s in
      if items = [] then (m, 0, 0)
      else
        (let batch = (case batchSize of None \<Rightarrow> items | Some n \<Rightarrow> take n items) in
         case drain_loop accepts batch items 0 of
           (rest, sent, failed) \<Rightarrow>
             (m\<lparr>m_outbox := if rest = [] then AList.delete s (m_outbox m)
                            else AList.update s rest (m_outbox m)\<rparr>, sent, failed)))"

section \<open>View cache and snapshots\<close>

definition view_key :: "string \<Rightarrow> string \<Rightarrow> string" where
  "view_key s v = s @ '':'' @ v"

definition m_getViewCache :: "memory \<Rightarrow> string \<Rightarrow> string \<Rightarrow> view_entry option" where
  "m_getViewCache m s v = map_of (m_views m) (view_key s v)"

definition m_setViewCache :: "string \<Rightarrow> string \<Rightarrow> js \<Rightarrow> nat \<Rightarrow> memory \<Rightarrow> memory" where
  "m_setViewCache s v state hwm m =
     m\<lparr>m_views := AList.update (view_key s v) \<lparr>ve_state = state, ve_highWaterMark = hwm\<rparr> (m_views m)\<rparr>"

definition snapshot_key :: "string \<Rightarrow> string \<Rightarrow> string \<Rightarrow> string" where
  "snapshot_key s p v = s @ '':'' @ p @ '':'' @ v"

fun latest_snapshot :: "snapshot \<Rightarrow> snapshot list \<Rightarrow> snapshot" where
  "latest_snapshot best [] = best"
| "latest_snapshot best (r # rs) =
     latest_snapshot (if sn_sequence best < sn_sequence r then r else best) rs"

definition m_readLatestSnapshot :: "memory \<Rightarrow> string \<Rightarrow> string \<Rightarrow> string \<Rightarrow> snapshot option" where
  "m_readLatestSnapshot m s p v =
     (case list_at (m_snapshots m) (snapshot_key s p v) of
        [] \<Rightarrow> None
      | r # rs \<Rightarrow> Some (latest_snapshot r rs))"

definition DEFAULT_SNAPSHOT_MAX_RECORDS :: nat where
  "DEFAULT_SNAPSHOT_MAX_RECORDS = 500"

definition is_digit :: "char \<Rightarrow> bool" where
  "is_digit c \<longleftrightarrow> (48::nat) \<le> of_char c \<and> of_char c \<le> (57::nat)"

definition parse_digits :: "string \<Rightarrow> nat" where
  "parse_digits s = foldl (\<lambda>n c. 10 * n + (of_char c - 48)) 0 s"

definition MAX_SAFE_INTEGER :: nat where
  "MAX_SAFE_INTEGER = 2 ^ 53 - 1"

definition resolveMaxRecords :: "string option \<Rightarrow> nat" where
  "resolveMaxRecords raw =
     (case raw of
        None \<Rightarrow> DEFAULT_SNAPSHOT_MAX_RECORDS
      | Some s \<Rightarrow>
          if s = '''' \<or> \<not> list_all is_digit s then DEFAULT_SNAPSHOT_MAX_RECORDS
          else
            (let parsed = parse_digits s in
             if MAX_SAFE_INTEGER < parsed \<or> parsed = 0 then DEFAULT_SNAPSHOT_MAX_RECORDS else parsed))"

text \<open>The cap of a call: the option when it is a positive integer, else the environment's.\<close>

definition snapshot_cap :: "string option \<Rightarrow> int option \<Rightarrow> nat" where
  "snapshot_cap env maxRecords =
     (case maxRecords of
        Some n \<Rightarrow> if 0 < n then nat n else resolveMaxRecords env
      | None \<Rightarrow> resolveMaxRecords env)"

definition prune_snapshots :: "nat \<Rightarrow> snapshot list \<Rightarrow> snapshot list" where
  "prune_snapshots cap rs =
     (if cap < length rs
      then drop (length rs - cap) (sort_by (\<lambda>a b. sn_sequence a \<le> sn_sequence b) rs)
      else rs)"

definition m_appendSnapshot ::
    "string option \<Rightarrow> int option \<Rightarrow> string \<Rightarrow> snapshot \<Rightarrow> memory \<Rightarrow> memory" where
  "m_appendSnapshot env maxRecords s r m =
     (let key = snapshot_key s (sn_projection r) (sn_version r);
          records = list_at (m_snapshots m) key
      in if \<exists>x \<in> set records. sn_sequence x = sn_sequence r
         then m\<lparr>m_snapshots := AList.update key records (m_snapshots m)\<rparr>
         else m\<lparr>m_snapshots := AList.update key
                  (prune_snapshots (snapshot_cap env maxRecords) (records @ [r])) (m_snapshots m)\<rparr>)"

definition m_deleteStream :: "string \<Rightarrow> memory \<Rightarrow> memory" where
  "m_deleteStream s m =
     m\<lparr>m_events := AList.delete s (m_events m),
       m_outbox := AList.delete s (m_outbox m),
       m_views := filter (\<lambda>kv. \<not> prefix (s @ '':'') (fst kv)) (m_views m),
       m_snapshots := filter (\<lambda>kv. \<not> prefix (s @ '':'') (fst kv)) (m_snapshots m)\<rparr>"

section \<open>Streams satisfy the interface\<close>

definition memory_inv :: "memory \<Rightarrow> bool" where
  "memory_inv m \<longleftrightarrow> (\<forall>s. seq_sorted (list_at (m_events m) s))"

lemma seq_sorted_tail_bound: "seq_sorted es \<Longrightarrow> e \<in> set es \<Longrightarrow> we_sequence e \<le> tail_seq es"
  by (cases es rule: rev_cases) (auto simp: seq_sorted_def sorted_wrt_append)

lemma m_events_append:
  "list_at (m_events (m_appendEvent s e m)) s' =
   (if s' = s then list_at (m_events m) s @ [e] else list_at (m_events m) s')"
  by (simp add: m_appendEvent_def)

interpretation mem: event_stream "\<lambda>m. list_at (m_events m)" "\<lambda>v. v" m_appendEvent m_getSequence memory_inv
  by unfold_locales
    (auto simp: m_events_append m_getSequence_def memory_inv_def seq_sorted_snoc seq_sorted_tail_bound with_data_same)

lemma m_queryEvents_eq: "m_queryEvents m s f = run_query f (list_at (m_events m) s)"
  by (auto simp: m_queryEvents_def list_at_def run_query_def page_def split: option.splits)

lemma empty_memory_inv: "memory_inv empty_memory"
  by (simp add: memory_inv_def empty_memory_def list_at_def seq_sorted_def)

lemma m_pruneEvents_events:
  "list_at (m_events (fst (m_pruneEvents s before m))) s' =
   (if s' = s then filter (\<lambda>e. str_le before (we_timestamp e)) (list_at (m_events m) s)
    else list_at (m_events m) s')"
  by (auto simp: m_pruneEvents_def Let_def list_at_def [of "m_events m" s] split: option.splits)

lemma m_pruneEvents_inv: "memory_inv m \<Longrightarrow> memory_inv (fst (m_pruneEvents s before m))"
  by (simp add: memory_inv_def m_pruneEvents_events seq_sorted_filter)

section \<open>Outbox laws\<close>

lemma drain_loop_eq:
  "drain_loop accepts batch (batch @ rest) sent =
   (let k = length (takeWhile (\<lambda>x. accepts (ob_event x)) batch)
    in (drop k (batch @ rest), sent + k, if k < length batch then 1 else 0))"
  by (induction batch arbitrary: sent) (simp_all add: Let_def)

text \<open>What a drain sends: the longest accepted prefix of the batch.\<close>

definition drain_count :: "(wf_event \<Rightarrow> bool) \<Rightarrow> nat option \<Rightarrow> outbox_item list \<Rightarrow> nat" where
  "drain_count accepts batchSize items =
     length (takeWhile (\<lambda>x. accepts (ob_event x))
       (case batchSize of None \<Rightarrow> items | Some n \<Rightarrow> take n items))"

lemma m_drainOutbox_eq:
  "list_at (m_outbox (fst (m_drainOutbox s accepts bs m))) s =
     drop (drain_count accepts bs (list_at (m_outbox m) s)) (list_at (m_outbox m) s)"
  "fst (snd (m_drainOutbox s accepts bs m)) = drain_count accepts bs (list_at (m_outbox m) s)"
proof -
  let ?items = "list_at (m_outbox m) s"
  let ?batch = "case bs of None \<Rightarrow> ?items | Some n \<Rightarrow> take n ?items"
  obtain rest where split: "?items = ?batch @ rest"
    by (cases bs) (auto, metis append_take_drop_id)
  have loop: "drain_loop accepts ?batch ?items 0 =
    (drop (drain_count accepts bs ?items) ?items, drain_count accepts bs ?items,
     if drain_count accepts bs ?items < length ?batch then 1 else 0)"
    using drain_loop_eq [of accepts ?batch rest 0] unfolding split [symmetric]
    by (simp add: drain_count_def Let_def)
  show "list_at (m_outbox (fst (m_drainOutbox s accepts bs m))) s =
      drop (drain_count accepts bs ?items) ?items"
    using loop by (auto simp: m_drainOutbox_def Let_def)
  show "fst (snd (m_drainOutbox s accepts bs m)) = drain_count accepts bs ?items"
    using loop by (auto simp: m_drainOutbox_def Let_def drain_count_def split: option.splits)
qed

section \<open>Compare-and-set\<close>

lemma m_setState_cases:
  "m_setState i st expected m =
   (let entry = map_of (m_states m) i in
    case expected of
      Some x \<Rightarrow> if num_eq (current_version entry) x
        then Inr (m\<lparr>m_states := AList.update i
               \<lparr>en_state = st, en_version = num_add1 (current_version entry)\<rparr> (m_states m)\<rparr>)
        else Inl (VersionConflict i x (current_version entry))
    | None \<Rightarrow> Inr (m\<lparr>m_states := AList.update i
               \<lparr>en_state = st, en_version = next_version entry st None\<rparr> (m_states m)\<rparr>))"
  by (simp add: m_setState_def next_version_def Let_def split: option.splits)

section \<open>Snapshot laws\<close>

lemma sorted_insert_by:
  assumes "sorted_wrt le xs" "\<And>a b. le a b \<or> le b a" "\<And>a b c. le a b \<Longrightarrow> le b c \<Longrightarrow> le a c"
  shows "sorted_wrt le (insert_by le x xs)"
  using assms(1)
proof (induction xs)
  case (Cons y ys)
  show ?case
  proof (cases "le x y")
    case True
    then have "\<forall>z \<in> set ys. le x z" using Cons.prems assms(3) by auto
    with True Cons.prems show ?thesis by simp
  next
    case False
    then have "le y x" using assms(2) by blast
    with False Cons show ?thesis by simp
  qed
qed simp

lemma sorted_sort_by:
  assumes "\<And>a b. le a b \<or> le b a" "\<And>a b c. le a b \<Longrightarrow> le b c \<Longrightarrow> le a c"
  shows "sorted_wrt le (sort_by le xs)"
  by (induction xs) (simp_all add: sort_by_def sorted_insert_by [OF _ assms])

lemma latest_snapshot_max:
  "latest_snapshot best rs \<in> insert best (set rs) \<and>
   (\<forall>r \<in> insert best (set rs). sn_sequence r \<le> sn_sequence (latest_snapshot best rs))"
proof (induction rs arbitrary: best)
  case (Cons r rs)
  show ?case
    using Cons.IH [of "if sn_sequence best < sn_sequence r then r else best"]
    by (auto split: if_splits)
qed simp

lemma prune_snapshots_length: "0 < cap \<Longrightarrow> length (prune_snapshots cap rs) \<le> max cap (length rs)"
  by (simp add: prune_snapshots_def)

lemma prune_snapshots_cap: "length (prune_snapshots cap rs) \<le> cap"
  by (simp add: prune_snapshots_def)

lemma prune_snapshots_subset: "set (prune_snapshots cap rs) \<subseteq> set rs"
  by (auto simp: prune_snapshots_def dest: in_set_dropD)

text \<open>The pruning keeps a record of the highest sequence.\<close>

lemma prune_snapshots_keeps_max:
  assumes "0 < cap" "r \<in> set rs" "\<forall>x \<in> set rs. sn_sequence x \<le> sn_sequence r"
  shows "\<exists>x \<in> set (prune_snapshots cap rs). sn_sequence x = sn_sequence r"
proof (cases "cap < length rs")
  case True
  let ?le = "\<lambda>a b :: snapshot. sn_sequence a \<le> sn_sequence b"
  let ?s = "sort_by ?le rs"
  have ne: "?s \<noteq> []" using assms(2) by (metis length_pos_if_in_set length_sort_by list.size(3) not_less0)
  have "sorted_wrt ?le ?s" by (rule sorted_sort_by) auto
  then have "sn_sequence r \<le> sn_sequence (last ?s)"
    using assms(2) ne by (cases ?s rule: rev_cases) (auto simp: sorted_wrt_append simp flip: set_sort_by [of ?le rs])
  moreover have "last ?s \<in> set rs" using ne by (metis last_in_set set_sort_by)
  moreover have "last ?s \<in> set (prune_snapshots cap rs)"
  proof -
    have k: "length rs - cap < length ?s" using True assms(1) by simp
    then have "last (drop (length rs - cap) ?s) = last ?s" by (rule last_drop)
    moreover have "drop (length rs - cap) ?s \<noteq> []" using k by simp
    ultimately show ?thesis
      using True last_in_set [of "drop (length rs - cap) ?s"] by (simp add: prune_snapshots_def)
  qed
  ultimately show ?thesis using assms(3) by (metis le_antisym)
qed (use assms in \<open>auto simp: prune_snapshots_def\<close>)

lemma resolveMaxRecords_bounds: "0 < resolveMaxRecords env \<and> resolveMaxRecords env \<le> MAX_SAFE_INTEGER"
  by (auto simp: resolveMaxRecords_def DEFAULT_SNAPSHOT_MAX_RECORDS_def MAX_SAFE_INTEGER_def Let_def
      split: option.splits)

lemma snapshot_cap_pos: "0 < snapshot_cap env n"
  using resolveMaxRecords_bounds [of env] by (auto simp: snapshot_cap_def split: option.splits)

end
