(* ===== verification/Sqlite_Store.thy ===== *)
theory Sqlite_Store
  imports Memory_Backend
begin

text \<open>
  The SQLite backend (\<open>src/storage/sqlite-backend.ts\<close>) as operations on its tables: the event rows
  under the primary key (stream, sequence), the sequence gate, the idempotency claims and the
  versioned states. A statement of the source is the map operation that its SQL text denotes, a
  transaction that throws leaves the tables as they were, and the outcome of each attempt to take
  the write lock (\<open>SQLITE_BUSY\<close> or not) is an argument. Schema, pragmas and migrations are not
  modelled, and neither are the outbox and snapshot tables, which the memory backend covers.
\<close>

section \<open>JSON texts\<close>

text \<open>\<open>JSON.parse(JSON.stringify(v))\<close>: \<open>None\<close> when the value has no JSON text.\<close>

fun json_clone :: "js \<Rightarrow> js option" where
  "json_clone JUndef = None"
| "json_clone (JNum n) = Some (if is_finite_num n then JNum n else JNull)"
| "json_clone (JArr xs) = Some (JArr (map (\<lambda>x. case json_clone x of None \<Rightarrow> JNull | Some y \<Rightarrow> y) xs))"
| "json_clone (JObj fs) =
     Some (JObj (concat (map (\<lambda>(k, v). case json_clone v of None \<Rightarrow> [] | Some w \<Rightarrow> [(k, w)]) fs)))"
| "json_clone v = Some v"

text \<open>
  A payload or a state as a reader gets it: through the JSON text of its row. A payload without a text,
  which is \<open>undefined\<close>, is left out of the row and reads as \<open>undefined\<close> again.
\<close>

definition stored_data :: "js \<Rightarrow> js" where
  "stored_data v = (case json_clone v of None \<Rightarrow> JUndef | Some w \<Rightarrow> w)"

definition json_fields :: "fields \<Rightarrow> fields" where
  "json_fields fs = (case stored_data (JObj fs) of JObj gs \<Rightarrow> gs | _ \<Rightarrow> [])"

text \<open>The values that their JSON text gives back: no \<open>undefined\<close> inside and no number that is not finite.\<close>

fun json_plain :: "js \<Rightarrow> bool" where
  "json_plain JUndef = False"
| "json_plain (JNum n) = is_finite_num n"
| "json_plain (JArr xs) = (\<forall>x \<in> set xs. json_plain x)"
| "json_plain (JObj fs) = (\<forall>x \<in> set fs. json_plain (snd x))"
| "json_plain v = True"

section \<open>Tables\<close>

record claim =
  cl_eventIds :: "string list"
  cl_sequences :: "nat list"
  cl_timestamps :: "string list"
  cl_events :: "wf_event list"

record op_claim =
  oc_stream :: string
  oc_digest :: string
  oc_result :: js
  oc_eventIds :: "string list"
  oc_sequences :: "nat list"
  oc_timestamps :: "string list"

datatype claim_row = BatchClaim claim | OperationClaim op_claim

record db =
  db_events :: "(string \<times> wf_event list) list"
  db_sequences :: "(string \<times> nat) list"
  db_claims :: "((string \<times> string) \<times> claim_row) list"
  db_states :: "(string \<times> state_entry) list"

definition empty_db :: db where
  "empty_db = \<lparr>db_events = [], db_sequences = [], db_claims = [], db_states = []\<rparr>"

datatype db_error =
    SequenceGateConflict nat nat
  | ClaimConflict
  | EventConflict
  | BusyExhausted nat
  | OperationDigestConflict string string string
  | DbFailure string

type_synonym 'a txn = "db \<Rightarrow> db_error + 'a \<times> db"

text \<open>The rows of a stream \<open>ORDER BY sequence\<close>.\<close>

definition rows_of :: "db \<Rightarrow> string \<Rightarrow> wf_event list" where
  "rows_of d s = list_at (db_events d) s"

definition by_sequence :: "wf_event \<Rightarrow> wf_event \<Rightarrow> bool" where
  "by_sequence a b \<longleftrightarrow> we_sequence a \<le> we_sequence b"

definition has_sequence :: "wf_event list \<Rightarrow> nat \<Rightarrow> bool" where
  "has_sequence es n \<longleftrightarrow> (\<exists>e \<in> set es. we_sequence e = n)"

definition put_row :: "string \<Rightarrow> wf_event \<Rightarrow> db \<Rightarrow> db" where
  "put_row s e d = d\<lparr>db_events := AList.update s (insert_by by_sequence e (rows_of d s)) (db_events d)\<rparr>"

text \<open>\<open>INSERT OR IGNORE\<close> and the strict \<open>INSERT\<close>, which throws on a taken primary key.\<close>

definition insertEvent :: "string \<Rightarrow> wf_event \<Rightarrow> db \<Rightarrow> db" where
  "insertEvent s e d = (if has_sequence (rows_of d s) (we_sequence e) then d else put_row s e d)"

definition insertEventStrict :: "string \<Rightarrow> wf_event \<Rightarrow> db \<Rightarrow> db_error + db" where
  "insertEventStrict s e d =
     (if has_sequence (rows_of d s) (we_sequence e) then Inl EventConflict else Inr (put_row s e d))"

definition upsertSequence :: "string \<Rightarrow> nat \<Rightarrow> db \<Rightarrow> db" where
  "upsertSequence s n d = d\<lparr>db_sequences := AList.update s n (db_sequences d)\<rparr>"

definition readSequenceHighWaterMark :: "db \<Rightarrow> string \<Rightarrow> nat" where
  "readSequenceHighWaterMark d s = (case map_of (db_sequences d) s of None \<Rightarrow> 0 | Some n \<Rightarrow> n)"

definition upsertSequenceMonotonic :: "string \<Rightarrow> nat \<Rightarrow> db \<Rightarrow> db" where
  "upsertSequenceMonotonic s n d = upsertSequence s (max (readSequenceHighWaterMark d s) n) d"

text \<open>The payload column holds the JSON text of the event, and a row is read from it.\<close>

definition db_appendEvent :: "string \<Rightarrow> wf_event \<Rightarrow> db \<Rightarrow> db" where
  "db_appendEvent s e d =
     upsertSequence s (we_sequence e) (insertEvent s (with_data stored_data e) d)"

definition db_queryEvents :: "db \<Rightarrow> string \<Rightarrow> query_filters \<Rightarrow> wf_event list" where
  "db_queryEvents d s f = run_query f (rows_of d s)"

definition db_getSequence :: "db \<Rightarrow> string \<Rightarrow> nat" where
  "db_getSequence d s = readSequenceHighWaterMark d s"

definition db_deleteStream :: "string \<Rightarrow> db \<Rightarrow> db" where
  "db_deleteStream s d =
     d\<lparr>db_events := AList.delete s (db_events d),
       db_sequences := AList.delete s (db_sequences d),
       db_claims := filter (\<lambda>kv. fst (fst kv) \<noteq> s) (db_claims d)\<rparr>"

definition db_pruneEvents :: "string \<Rightarrow> string \<Rightarrow> db \<Rightarrow> db \<times> nat" where
  "db_pruneEvents s before d =
     (let kept = filter (\<lambda>e. str_le before (we_timestamp e)) (rows_of d s)
      in (d\<lparr>db_events := AList.update s kept (db_events d)\<rparr>, length (rows_of d s) - length kept))"

section \<open>States\<close>

definition db_setState :: "string \<Rightarrow> fields \<Rightarrow> jsnum option \<Rightarrow> db \<Rightarrow> storage_error + db" where
  "db_setState i st expected d =
     (let existing = map_of (db_states d) i; current = current_version existing in
      if (case expected of None \<Rightarrow> False | Some x \<Rightarrow> \<not> num_eq current x) then
        Inl (VersionConflict i (case expected of None \<Rightarrow> current | Some x \<Rightarrow> x) current)
      else Inr (d\<lparr>db_states := AList.update i
             \<lparr>en_state = json_fields st, en_version = next_version existing st expected\<rparr> (db_states d)\<rparr>))"

section \<open>Queries across streams\<close>

text \<open>
  The operator \<open>LIKE\<close> of SQLite: \<open>%\<close> matches any text, \<open>_\<close> matches one character, and the other
  characters match without regard to the case of ASCII letters.
\<close>

fun sql_like :: "string \<Rightarrow> string \<Rightarrow> bool" where
  "sql_like [] [] = True"
| "sql_like [] (_ # _) = False"
| "sql_like (p # ps) [] = (p = CHR ''%'' \<and> sql_like ps [])"
| "sql_like (p # ps) (c # cs) =
     (if p = CHR ''%'' then sql_like ps (c # cs) \<or> sql_like (p # ps) cs
      else (p = CHR ''_'' \<or> lower_char p = lower_char c) \<and> sql_like ps cs)"

definition db_stream_matches :: "string \<Rightarrow> string \<Rightarrow> bool" where
  "db_stream_matches streamPrefix s \<longleftrightarrow> sql_like (streamPrefix @ ''/%'') s \<or> s = streamPrefix"

definition by_time_stream_sequence :: "wf_event \<Rightarrow> wf_event \<Rightarrow> bool" where
  "by_time_stream_sequence a b \<longleftrightarrow>
     str_less (we_timestamp a) (we_timestamp b) \<or>
     (we_timestamp a = we_timestamp b \<and>
       (str_less (we_stream a) (we_stream b) \<or>
        (we_stream a = we_stream b \<and> we_sequence a \<le> we_sequence b)))"

definition db_queryEventsByType :: "db \<Rightarrow> string \<Rightarrow> string \<Rightarrow> query_filters \<Rightarrow> wf_event list" where
  "db_queryEventsByType d eventType streamPrefix f =
     page f (sort_by by_time_stream_sequence
       (concat (map (\<lambda>(s, rows).
          if db_stream_matches streamPrefix s
          then filter (\<lambda>e. we_type e = eventType \<and> matches (f\<lparr>qf_type := None\<rparr>) e) rows
          else []) (db_events d))))"

section \<open>Claims\<close>

definition DECIDE_ONCE_CLAIM_STREAM :: string where
  "DECIDE_ONCE_CLAIM_STREAM = ''__decide_once_operations__''"

definition lookupIdempotencyClaim :: "db \<Rightarrow> string \<Rightarrow> string \<Rightarrow> claim option" where
  "lookupIdempotencyClaim d s k =
     (case map_of (db_claims d) (s, k) of Some (BatchClaim c) \<Rightarrow> Some c | _ \<Rightarrow> None)"

definition lookupOperationClaim :: "db \<Rightarrow> string \<Rightarrow> op_claim option" where
  "lookupOperationClaim d operationId =
     (case map_of (db_claims d) (DECIDE_ONCE_CLAIM_STREAM, operationId) of
        Some (OperationClaim c) \<Rightarrow> Some c | _ \<Rightarrow> None)"

definition insertClaim :: "string \<Rightarrow> string \<Rightarrow> claim_row \<Rightarrow> db \<Rightarrow> db_error + db" where
  "insertClaim s k c d =
     (if map_of (db_claims d) (s, k) \<noteq> None then Inl ClaimConflict
      else Inr (d\<lparr>db_claims := AList.update (s, k) c (db_claims d)\<rparr>))"

section \<open>The gated append\<close>

definition allocateSequence :: "string \<Rightarrow> nat \<Rightarrow> nat option \<Rightarrow> nat txn" where
  "allocateSequence s n expected d =
     (let current = readSequenceHighWaterMark d s in
      if when_given expected (\<lambda>x. current = x) then Inr (current, upsertSequence s (current + n) d)
      else Inl (SequenceGateConflict (or_zero expected) current))"

fun insert_rows :: "string \<Rightarrow> wf_event list \<Rightarrow> db \<Rightarrow> db_error + db" where
  "insert_rows s [] d = Inr d"
| "insert_rows s (e # es) d = bind_result (insertEventStrict s e d) (insert_rows s es)"

type_synonym finalizer = "nat \<Rightarrow> wf_event list \<times> claim option"

definition append_txn ::
    "string \<Rightarrow> string option \<Rightarrow> nat \<Rightarrow> nat option \<Rightarrow> finalizer \<Rightarrow> (nat \<times> nat list) txn" where
  "append_txn s key n expected finalize d =
     bind_result (allocateSequence s n expected d) (\<lambda>(base, d1).
       case finalize base of (events, cl) \<Rightarrow>
         bind_result
           (case (key, cl) of
              (Some k, Some c) \<Rightarrow> insertClaim s k (BatchClaim c) d1
            | _ \<Rightarrow> Inr d1)
           (\<lambda>d2. bind_result (insert_rows s events d2) (\<lambda>d3.
              Inr ((base, map we_sequence events), d3))))"

text \<open>The bounded retry on \<open>SQLITE_BUSY\<close>: one flag per attempt, absent flags meaning the lock is free.\<close>

definition MAX_ATTEMPTS :: nat where
  "MAX_ATTEMPTS = 5"

fun with_busy_retry :: "nat \<Rightarrow> bool list \<Rightarrow> (db_error + 'a) \<Rightarrow> db_error + 'a" where
  "with_busy_retry 0 busy result = Inl (BusyExhausted MAX_ATTEMPTS)"
| "with_busy_retry (Suc k) busy result =
     (case busy of
        True # bs \<Rightarrow> with_busy_retry k bs result
      | _ \<Rightarrow> result)"

definition atomicAppend ::
    "bool list \<Rightarrow> string \<Rightarrow> string option \<Rightarrow> nat \<Rightarrow> nat option \<Rightarrow> finalizer \<Rightarrow> (nat \<times> nat list) txn" where
  "atomicAppend busy s key n expected finalize d =
     (if n = 0 then Inl (DbFailure ''atomicAppend requires n >= 1'')
      else with_busy_retry MAX_ATTEMPTS busy (append_txn s key n expected finalize d))"

section \<open>decideOnce\<close>

definition text_or_none :: "string option \<Rightarrow> string" where
  "text_or_none x = (case x of None \<Rightarrow> '''' | Some s \<Rightarrow> s)"

record decision =
  de_stream :: string
  de_expected :: "nat option"
  de_n :: nat
  de_result :: js
  de_finalize :: "nat \<Rightarrow> wf_event list"

datatype once_kind = OnceCommitted | OnceCacheHit

record once_outcome =
  on_kind :: once_kind
  on_claim :: op_claim

definition decide_once_txn ::
    "string \<Rightarrow> string \<Rightarrow> (db \<Rightarrow> decision) \<Rightarrow> once_outcome txn" where
  "decide_once_txn operationId requestDigest decide d =
     (case lookupOperationClaim d operationId of
        Some existing \<Rightarrow>
          if oc_digest existing \<noteq> requestDigest then
            Inl (OperationDigestConflict operationId (oc_digest existing) requestDigest)
          else Inr (\<lparr>on_kind = OnceCacheHit, on_claim = existing\<rparr>, d)
      | None \<Rightarrow>
          (let dec = decide d in
           if de_stream dec = '''' then Inl (DbFailure ''decideOnce decision requires streamId'')
           else if de_n dec = 0 then
             Inl (DbFailure ''decideOnce decision requires at least one event'')
           else
             bind_result (allocateSequence (de_stream dec) (de_n dec) (de_expected dec) d) (\<lambda>(base, d1).
               let events = de_finalize dec base in
               if length events \<noteq> de_n dec then
                 Inl (DbFailure (''decideOnce finalized '' @ nat_str (length events) @
                   '' events; expected '' @ nat_str (de_n dec)))
               else (case json_clone (de_result dec) of
                   None \<Rightarrow> Inl (DbFailure ''decideOnce result must be JSON-serializable'')
                 | Some result \<Rightarrow>
                     (let c = \<lparr>oc_stream = de_stream dec, oc_digest = requestDigest,
                               oc_result = result,
                               oc_eventIds = map (\<lambda>e. text_or_none (we_eventId e)) events,
                               oc_sequences = map we_sequence events,
                               oc_timestamps = map we_timestamp events\<rparr>
                      in bind_result
                           (insertClaim DECIDE_ONCE_CLAIM_STREAM operationId (OperationClaim c) d1)
                           (\<lambda>d2. bind_result (insert_rows (de_stream dec) events d2) (\<lambda>d3.
                              Inr (\<lparr>on_kind = OnceCommitted, on_claim = c\<rparr>, d3))))))))"

definition atomicDecideOnce ::
    "bool list \<Rightarrow> string \<Rightarrow> string \<Rightarrow> (db \<Rightarrow> decision) \<Rightarrow> once_outcome txn" where
  "atomicDecideOnce busy operationId requestDigest decide d =
     with_busy_retry MAX_ATTEMPTS busy (decide_once_txn operationId requestDigest decide d)"

section \<open>Repair of the gate at start-up\<close>

record sequence_repair =
  sr_stream :: string
  sr_gate :: nat
  sr_tail :: nat

definition divergences :: "db \<Rightarrow> sequence_repair list" where
  "divergences d =
     List.map_filter (\<lambda>(s, rows).
       let tail = foldl max 0 (map we_sequence rows); gate = readSequenceHighWaterMark d s in
       if rows \<noteq> [] \<and> tail \<noteq> gate
       then Some \<lparr>sr_stream = s, sr_gate = gate, sr_tail = tail\<rparr> else None) (db_events d)"

definition repairSequenceHighWaterMarks ::
    "db \<Rightarrow> db \<times> sequence_repair list \<times> sequence_repair list" where
  "repairSequenceHighWaterMarks d =
     (let rows = divergences d;
          repaired = filter (\<lambda>r. sr_gate r < sr_tail r) rows;
          gaps = filter (\<lambda>r. \<not> sr_gate r < sr_tail r) rows
      in (fold (\<lambda>r. upsertSequenceMonotonic (sr_stream r) (sr_tail r)) repaired d, repaired, gaps))"

section \<open>The tables satisfy the stream interface\<close>

definition db_inv :: "db \<Rightarrow> bool" where
  "db_inv d \<longleftrightarrow>
     (\<forall>s. seq_sorted (rows_of d s) \<and>
          (\<forall>e \<in> set (rows_of d s). we_sequence e \<le> readSequenceHighWaterMark d s))"

lemma plain_clone: "json_plain v \<Longrightarrow> json_clone v = Some v"
proof (induction v rule: json_plain.induct)
  case (3 xs)
  then have "map (\<lambda>x. case json_clone x of None \<Rightarrow> JNull | Some y \<Rightarrow> y) xs = xs" by (simp add: map_idI)
  then show ?case by simp
next
  case (4 fs)
  then have "\<forall>x \<in> set fs. json_clone (snd x) = Some (snd x)" by auto
  then have "concat (map (\<lambda>(k, v). case json_clone v of None \<Rightarrow> [] | Some w \<Rightarrow> [(k, w)]) fs) = fs"
    by (induction fs) auto
  then show ?case by simp
qed auto

lemma stored_plain: "json_plain v \<Longrightarrow> stored_data v = v"
  by (simp add: stored_data_def plain_clone)

lemma empty_db_inv: "db_inv empty_db"
  by (simp add: db_inv_def empty_db_def rows_of_def list_at_def seq_sorted_def)

lemma rows_of_put_row:
  "rows_of (put_row s e d) s' = (if s' = s then insert_by by_sequence e (rows_of d s) else rows_of d s')"
  by (simp add: put_row_def rows_of_def)

lemma rows_of_upsert [simp]: "rows_of (upsertSequence s n d) s' = rows_of d s'"
  by (simp add: upsertSequence_def rows_of_def)

lemma gate_upsert [simp]:
  "readSequenceHighWaterMark (upsertSequence s n d) s' = (if s' = s then n else readSequenceHighWaterMark d s')"
  by (simp add: upsertSequence_def readSequenceHighWaterMark_def)

lemma gate_put_row [simp]: "readSequenceHighWaterMark (put_row s e d) s' = readSequenceHighWaterMark d s'"
  by (simp add: put_row_def readSequenceHighWaterMark_def)

lemma claims_put_row [simp]: "db_claims (put_row s e d) = db_claims d"
  by (simp add: put_row_def)

lemma claims_upsert [simp]: "db_claims (upsertSequence s n d) = db_claims d"
  by (simp add: upsertSequence_def)

lemma insert_by_last:
  "\<forall>x \<in> set es. we_sequence x < we_sequence e \<Longrightarrow> insert_by by_sequence e es = es @ [e]"
  by (induction es) (auto simp: by_sequence_def)

lemma rows_appendEvent:
  assumes "db_inv d" "readSequenceHighWaterMark d s < we_sequence e"
  shows "rows_of (db_appendEvent s e d) s = rows_of d s @ [with_data stored_data e]"
proof -
  have "\<forall>x \<in> set (rows_of d s). we_sequence x < we_sequence e"
    using assms by (force simp: db_inv_def)
  then show ?thesis
    by (auto simp: db_appendEvent_def insertEvent_def has_sequence_def rows_of_put_row insert_by_last)
qed

interpretation sqlite: event_stream rows_of stored_data db_appendEvent readSequenceHighWaterMark db_inv
proof
  fix d :: db and s s' :: string and e :: wf_event
  show other: "s' \<noteq> s \<Longrightarrow> rows_of (db_appendEvent s e d) s' = rows_of d s'" for s'
    by (simp add: db_appendEvent_def insertEvent_def rows_of_put_row)
  show tl: "readSequenceHighWaterMark (db_appendEvent s e d) s = we_sequence e"
    by (simp add: db_appendEvent_def)
  show "e \<in> set (rows_of d s) \<Longrightarrow> we_sequence e \<le> readSequenceHighWaterMark d s" if "db_inv d"
    using that by (simp add: db_inv_def)
  show "seq_sorted (rows_of d s)" if "db_inv d" using that by (simp add: db_inv_def)
  assume inv: "db_inv d" and lt: "readSequenceHighWaterMark d s < we_sequence e"
  show same: "rows_of (db_appendEvent s e d) s = rows_of d s @ [with_data stored_data e]"
    by (rule rows_appendEvent [OF inv lt])
  have below: "\<forall>x \<in> set (rows_of d s). we_sequence x < we_sequence e"
    using inv lt by (force simp: db_inv_def)
  have "seq_sorted (rows_of d s @ [with_data stored_data e])"
    using inv below by (auto simp: db_inv_def seq_sorted_def sorted_wrt_append)
  moreover have "readSequenceHighWaterMark (db_appendEvent s e d) t = readSequenceHighWaterMark d t"
    if "t \<noteq> s" for t
    using that by (simp add: db_appendEvent_def insertEvent_def)
  ultimately show "db_inv (db_appendEvent s e d)"
    using inv below same other tl unfolding db_inv_def by (metis Un_iff le_eq_less_or_eq set_append
      empty_iff insert_iff list.set with_data_simps(2))
qed

section \<open>The gated append in full\<close>

text \<open>The finalizer numbers its rows from the base it is given.\<close>

definition numbered :: "nat \<Rightarrow> nat \<Rightarrow> wf_event list \<Rightarrow> bool" where
  "numbered base n events \<longleftrightarrow> map we_sequence events = [Suc base ..< Suc base + n]"

lemma numbered_Cons:
  "numbered base n (e # es) \<longleftrightarrow>
   (\<exists>m. n = Suc m \<and> we_sequence e = Suc base \<and> numbered (Suc base) m es)"
  by (cases n) (simp_all add: numbered_def upt_conv_Cons del: upt_Suc)

lemma insert_rows_above:
  assumes "\<forall>x \<in> set (rows_of d s). we_sequence x \<le> base" "numbered base n events"
  shows "\<exists>d'. insert_rows s events d = Inr d' \<and> rows_of d' s = rows_of d s @ events \<and>
    (\<forall>t. t \<noteq> s \<longrightarrow> rows_of d' t = rows_of d t) \<and>
    (\<forall>t. readSequenceHighWaterMark d' t = readSequenceHighWaterMark d t) \<and>
    db_claims d' = db_claims d"
  using assms
proof (induction events arbitrary: d base n)
  case (Cons e es)
  from Cons.prems(2) obtain m where n: "n = Suc m" and seq: "we_sequence e = Suc base"
    and rest: "numbered (Suc base) m es"
    by (auto simp: numbered_Cons)
  have put: "insertEventStrict s e d = Inr (put_row s e d)"
    using Cons.prems(1) seq by (force simp: insertEventStrict_def has_sequence_def)
  have "insert_by by_sequence e (rows_of d s) = rows_of d s @ [e]"
    using Cons.prems(1) seq by (intro insert_by_last) force
  then have rows: "rows_of (put_row s e d) s = rows_of d s @ [e]" by (simp add: rows_of_put_row)
  have "\<forall>x \<in> set (rows_of (put_row s e d) s). we_sequence x \<le> Suc base"
    using Cons.prems(1) seq rows by force
  from Cons.IH [OF this rest] obtain d' where "insert_rows s es (put_row s e d) = Inr d'"
    "rows_of d' s = rows_of (put_row s e d) s @ es"
    "\<forall>t. t \<noteq> s \<longrightarrow> rows_of d' t = rows_of (put_row s e d) t"
    "\<forall>t. readSequenceHighWaterMark d' t = readSequenceHighWaterMark (put_row s e d) t"
    "db_claims d' = db_claims (put_row s e d)" by blast
  then show ?case using put rows by (auto simp: rows_of_put_row)
qed simp

lemma numbered_bounds:
  "numbered base n events \<Longrightarrow> e \<in> set events \<Longrightarrow> base < we_sequence e \<and> we_sequence e \<le> base + n"
proof -
  assume "numbered base n events" "e \<in> set events"
  then have "we_sequence e \<in> set [Suc base ..< Suc base + n]"
    unfolding numbered_def by (metis image_eqI set_map)
  then show ?thesis by auto
qed

lemma numbered_sorted: "numbered base n events \<Longrightarrow> seq_sorted events"
  unfolding numbered_def seq_sorted_def
  by (metis sorted_wrt_map sorted_wrt_upt)

definition claim_free :: "db \<Rightarrow> string \<Rightarrow> string option \<Rightarrow> bool" where
  "claim_free d s key \<longleftrightarrow> (case key of None \<Rightarrow> True | Some k \<Rightarrow> map_of (db_claims d) (s, k) = None)"

text \<open>What a committed append leaves behind.\<close>

definition appended :: "db \<Rightarrow> string \<Rightarrow> string option \<Rightarrow> wf_event list \<Rightarrow> claim option \<Rightarrow> db \<Rightarrow> bool" where
  "appended d s key events cl d' \<longleftrightarrow>
     rows_of d' s = rows_of d s @ events \<and>
     (\<forall>t. t \<noteq> s \<longrightarrow> rows_of d' t = rows_of d t) \<and>
     readSequenceHighWaterMark d' s = readSequenceHighWaterMark d s + length events \<and>
     (\<forall>t. t \<noteq> s \<longrightarrow> readSequenceHighWaterMark d' t = readSequenceHighWaterMark d t) \<and>
     (\<forall>r. map_of (db_claims d') r =
        (case (key, cl) of
           (Some k, Some c) \<Rightarrow> if r = (s, k) then Some (BatchClaim c) else map_of (db_claims d) r
         | _ \<Rightarrow> map_of (db_claims d) r)) \<and>
     db_inv d'"

lemma append_txn_commit:
  assumes inv: "db_inv d" and gate: "when_given expected (\<lambda>x. readSequenceHighWaterMark d s = x)"
    and fin: "finalize (readSequenceHighWaterMark d s) = (events, cl)"
    and num: "numbered (readSequenceHighWaterMark d s) n events"
    and free: "claim_free d s key"
  shows "\<exists>d'. append_txn s key n expected finalize d =
      Inr ((readSequenceHighWaterMark d s, map we_sequence events), d') \<and> appended d s key events cl d'"
proof -
  let ?base = "readSequenceHighWaterMark d s"
  let ?d1 = "upsertSequence s (?base + n) d"
  have len: "length events = n" using num by (metis numbered_def add_diff_cancel_left' length_map length_upt)
  have alloc: "allocateSequence s n expected d = Inr (?base, ?d1)"
    using gate by (simp add: allocateSequence_def Let_def)
  define claims where "claims = (case (key, cl) of
      (Some k, Some c) \<Rightarrow> AList.update (s, k) (BatchClaim c) (db_claims d) | _ \<Rightarrow> db_claims d)"
  define d2 where "d2 = ?d1\<lparr>db_claims := claims\<rparr>"
  have ins: "(case (key, cl) of (Some k, Some c) \<Rightarrow> insertClaim s k (BatchClaim c) ?d1 | _ \<Rightarrow> Inr ?d1) = Inr d2"
    using free by (auto simp: d2_def claims_def claim_free_def insertClaim_def upsertSequence_def split: option.splits)
  have same: "rows_of d2 t = rows_of d t"
    "readSequenceHighWaterMark d2 t = (if t = s then ?base + n else readSequenceHighWaterMark d t)" for t
    by (simp_all add: d2_def rows_of_def upsertSequence_def readSequenceHighWaterMark_def)
  have "\<forall>x \<in> set (rows_of d2 s). we_sequence x \<le> ?base" using inv by (simp add: same db_inv_def)
  from insert_rows_above [OF this num] obtain d' where d': "insert_rows s events d2 = Inr d'"
    "rows_of d' s = rows_of d2 s @ events" "\<forall>t. t \<noteq> s \<longrightarrow> rows_of d' t = rows_of d2 t"
    "\<forall>t. readSequenceHighWaterMark d' t = readSequenceHighWaterMark d2 t" "db_claims d' = db_claims d2"
    by blast
  have "seq_sorted (rows_of d s @ events)"
    using inv numbered_sorted [OF num] numbered_bounds [OF num]
    by (fastforce simp: seq_sorted_def sorted_wrt_append db_inv_def)
  moreover have "\<forall>e \<in> set (rows_of d s @ events). we_sequence e \<le> ?base + n"
    using inv numbered_bounds [OF num] by (auto simp: db_inv_def intro: trans_le_add1)
  ultimately have "db_inv d'"
    using inv d' same unfolding db_inv_def by (metis (no_types, lifting))
  moreover have "map_of (db_claims d') r = (case (key, cl) of
      (Some k, Some c) \<Rightarrow> if r = (s, k) then Some (BatchClaim c) else map_of (db_claims d) r
    | _ \<Rightarrow> map_of (db_claims d) r)" for r
    using d'(5) by (auto simp: d2_def claims_def split: option.splits)
  ultimately have "appended d s key events cl d'"
    unfolding appended_def using d' same len by simp
  moreover have "append_txn s key n expected finalize d = Inr ((?base, map we_sequence events), d')"
    using ins d'(1) by (simp only: append_txn_def alloc bind_result_simps prod.case fin)
  ultimately show ?thesis by blast
qed

lemma append_txn_gate_conflict:
  "\<not> when_given expected (\<lambda>x. readSequenceHighWaterMark d s = x) \<Longrightarrow>
   append_txn s key n expected finalize d =
   Inl (SequenceGateConflict (or_zero expected) (readSequenceHighWaterMark d s))"
  by (simp add: append_txn_def allocateSequence_def Let_def)

lemma append_txn_claim_conflict:
  "when_given expected (\<lambda>x. readSequenceHighWaterMark d s = x) \<Longrightarrow>
   finalize (readSequenceHighWaterMark d s) = (events, Some c) \<Longrightarrow>
   \<not> claim_free d s (Some k) \<Longrightarrow>
   append_txn s (Some k) n expected finalize d = Inl ClaimConflict"
  by (simp add: append_txn_def allocateSequence_def Let_def claim_free_def insertClaim_def upsertSequence_def)

text \<open>The retry gives the result of the transaction unless the lock stays taken for every attempt.\<close>

lemma with_busy_retry_cases:
  "with_busy_retry k busy r =
   (if length busy < k \<or> \<not> list_all id (take k busy) then r else Inl (BusyExhausted MAX_ATTEMPTS))"
proof (induction k busy r rule: with_busy_retry.induct)
  case (2 k busy r)
  then show ?case by (cases busy; cases "hd busy") auto
qed simp

end
