(* ===== verification/Atomic_Appender.thy ===== *)
theory Atomic_Appender
  imports Sqlite_Store
begin

text \<open>
  The append primitive (\<open>src/events/atomic-appender.ts\<close>): the locked append with its idempotency
  cache, the translation of storage failures, and the decision operations \<open>decide\<close>,
  \<open>withSession\<close>, \<open>decideOnce\<close> and \<open>aggregateStream\<close>. The promise mutex serialises the calls of one
  process, but another process can commit between two steps of one call; so an operation takes
  the tables as each step sees them: at its fold, at its claim lookup and in its transaction.
  Fresh event ids and the clock are arguments.
\<close>

section \<open>Inputs and results\<close>

record event_input =
  ei_type :: string
  ei_data :: js
  ei_timestamp :: "string option"
  ei_operation :: "string option"
  ei_correlation :: "string option"
  ei_causation :: "string option"

record stamps =
  fresh_id :: "nat \<Rightarrow> string"
  clock :: string

datatype failure =
    IdempotencyClaimed
  | SequenceConflict nat nat
  | IoError string
  | StorageBusy

datatype append_result =
    Committed "nat list" "string list" "string list"
  | CacheHit "nat list" "string list" "string list" "wf_event list"
  | Failed failure

definition safe_char :: "char \<Rightarrow> bool" where
  "safe_char c \<longleftrightarrow>
     (let n = of_char c :: nat in
      (97 \<le> n \<and> n \<le> 122) \<or> (65 \<le> n \<and> n \<le> 90) \<or> (48 \<le> n \<and> n \<le> 57) \<or>
      c = CHR ''.'' \<or> c = CHR ''_'' \<or> c = CHR ''-'')"

text \<open>\<open>validateStreamId\<close>: one safe segment, or two joined by a slash, and no dot segments.\<close>

definition validateStreamId :: "string \<Rightarrow> bool" where
  "validateStreamId s \<longleftrightarrow>
     (let segments = split_on (CHR ''/'') s in
      length segments \<le> 2 \<and>
      list_all (\<lambda>g. g \<noteq> '''' \<and> list_all safe_char g \<and> g \<noteq> ''.'' \<and> g \<noteq> ''..'') segments)"

definition persist_one :: "string \<Rightarrow> string option \<Rightarrow> stamps \<Rightarrow> nat \<Rightarrow> nat \<Rightarrow> event_input \<Rightarrow> wf_event" where
  "persist_one s key st base i ev =
     \<lparr>we_stream = s, we_sequence = base + i + 1,
      we_timestamp = (case ei_timestamp ev of None \<Rightarrow> clock st | Some t \<Rightarrow> t),
      we_type = ei_type ev, we_eventId = Some (fresh_id st i), we_key = key,
      we_operation = ei_operation ev, we_correlation = ei_correlation ev,
      we_causation = ei_causation ev, we_data = stored_data (ei_data ev)\<rparr>"

definition persist :: "string \<Rightarrow> string option \<Rightarrow> stamps \<Rightarrow> event_input list \<Rightarrow> nat \<Rightarrow> wf_event list" where
  "persist s key st events base = map (\<lambda>(i, ev). persist_one s key st base i ev) (enumerate 0 events)"

definition claim_of :: "wf_event list \<Rightarrow> claim" where
  "claim_of persisted =
     \<lparr>cl_eventIds = map (\<lambda>e. text_or_none (we_eventId e)) persisted,
      cl_sequences = map we_sequence persisted,
      cl_timestamps = map we_timestamp persisted,
      cl_events = persisted\<rparr>"

definition finalize_batch ::
    "string \<Rightarrow> string option \<Rightarrow> stamps \<Rightarrow> event_input list \<Rightarrow> finalizer" where
  "finalize_batch s key st events base =
     (let persisted = persist s key st events base
      in (persisted, case key of None \<Rightarrow> None | Some _ \<Rightarrow> Some (claim_of persisted)))"

definition cache_hit :: "claim \<Rightarrow> append_result" where
  "cache_hit c = CacheHit (cl_sequences c) (cl_eventIds c) (cl_timestamps c) (cl_events c)"

definition committed :: "wf_event list \<Rightarrow> append_result" where
  "committed es = Committed (map we_sequence es) (map (\<lambda>e. text_or_none (we_eventId e)) es) (map we_timestamp es)"

section \<open>The locked append\<close>

definition translateAtomicAppendError ::
    "db_error \<Rightarrow> db \<Rightarrow> string \<Rightarrow> string option \<Rightarrow> append_result" where
  "translateAtomicAppendError err d s key =
     (case (err, key) of
        (ClaimConflict, Some k) \<Rightarrow>
          (case lookupIdempotencyClaim d s k of
             Some c \<Rightarrow> cache_hit c
           | None \<Rightarrow> Failed IdempotencyClaimed)
      | _ \<Rightarrow> Failed (IoError ''append failed''))"

text \<open>The claim lookup sees \<open>dl\<close>; the transaction runs on \<open>d\<close>, which a racing process may have extended.\<close>

definition appendSqliteLocked ::
    "bool list \<Rightarrow> stamps \<Rightarrow> string \<Rightarrow> event_input list \<Rightarrow> string option \<Rightarrow> nat option \<Rightarrow> db \<Rightarrow> db \<Rightarrow>
     append_result \<times> db" where
  "appendSqliteLocked busy st s events key expected dl d =
     (if s = '''' then (Failed (IoError ''streamId required''), d)
      else if \<not> validateStreamId s then (Failed (IoError (''Invalid streamId '' @ s)), d)
      else if events = [] then (Failed (IoError ''events must be non-empty array''), d)
      else if key = Some '''' then (Failed (IoError ''idempotencyKey required''), d)
      else (case Option.bind key (lookupIdempotencyClaim dl s) of
          Some c \<Rightarrow> (cache_hit c, d)
        | None \<Rightarrow>
            (case atomicAppend busy s key (length events) expected (finalize_batch s key st events) d of
               Inr ((base, _), d') \<Rightarrow> (committed (persist s key st events base), d')
             | Inl (BusyExhausted _) \<Rightarrow> (Failed StorageBusy, d)
             | Inl (SequenceGateConflict x a) \<Rightarrow> (Failed (SequenceConflict x a), d)
             | Inl err \<Rightarrow> (translateAtomicAppendError err d s key, d))))"

definition append_keyed where
  "append_keyed busy st s events k expected dl d =
     appendSqliteLocked busy st s events (Some k) expected dl d"

definition appendUnkeyed where
  "appendUnkeyed busy st s events expected d = appendSqliteLocked busy st s events None expected d d"

section \<open>Decisions\<close>

datatype decide_kind = KCommitted | KCacheHit | KNoOp

record decide_result =
  dr_kind :: decide_kind
  dr_sequences :: "nat list"
  dr_eventIds :: "string list"
  dr_timestamps :: "string list"

datatype decide_error =
    ConcurrencyError string string nat nat "string option"
  | StorageBusyError string nat
  | DecideFailed failure
  | InvalidSessionOptions
  | UnknownProjection string
  | OperationDigestMismatch string string string
  | DecideOnceFailed string

record 's reducer =
  rd_id :: string
  rd_initial :: 's
  rd_apply :: "'s \<Rightarrow> wf_event \<Rightarrow> 's"

type_synonym 's reducers = "(string \<times> 's reducer) list"

definition resolveStreamReducer :: "'s reducers \<Rightarrow> string \<Rightarrow> decide_error + 's reducer" where
  "resolveStreamReducer reg i =
     (case map_of reg i of None \<Rightarrow> Inl (UnknownProjection i) | Some r \<Rightarrow> Inr r)"

definition fold_stream :: "'s reducer \<Rightarrow> wf_event list \<Rightarrow> 's" where
  "fold_stream r es = foldl (rd_apply r) (rd_initial r) es"

text \<open>The version of a fold is the sequence of the last row it read.\<close>

definition tail_version :: "wf_event list \<Rightarrow> nat" where
  "tail_version es = (if es = [] then 0 else we_sequence (last es))"

definition translateDecideResult ::
    "append_result \<Rightarrow> string \<Rightarrow> string \<Rightarrow> string option \<Rightarrow> decide_error + decide_result" where
  "translateDecideResult r s reducerId operationId =
     (case r of
        Committed seqs ids ts \<Rightarrow>
          Inr \<lparr>dr_kind = KCommitted, dr_sequences = seqs, dr_eventIds = ids, dr_timestamps = ts\<rparr>
      | CacheHit seqs ids ts _ \<Rightarrow>
          Inr \<lparr>dr_kind = KCacheHit, dr_sequences = seqs, dr_eventIds = ids, dr_timestamps = ts\<rparr>
      | Failed (SequenceConflict x a) \<Rightarrow> Inl (ConcurrencyError s reducerId x a operationId)
      | Failed StorageBusy \<Rightarrow> Inl (StorageBusyError s MAX_ATTEMPTS)
      | Failed f \<Rightarrow> Inl (DecideFailed f))"

definition no_op :: decide_result where
  "no_op = \<lparr>dr_kind = KNoOp, dr_sequences = [], dr_eventIds = [], dr_timestamps = []\<rparr>"

record decide_options =
  do_operationId :: "string option"
  do_enforce :: bool

definition decide_key :: "string \<Rightarrow> string \<Rightarrow> string \<Rightarrow> stamps \<Rightarrow> nat \<Rightarrow> string option \<Rightarrow> string" where
  "decide_key p s reducerId st n operationId =
     (case operationId of
        Some i \<Rightarrow> s @ '':'' @ reducerId @ '':'' @ i
      | None \<Rightarrow> p @ '':'' @ s @ '':'' @ reducerId @ '':'' @ fresh_id st n)"

text \<open>The part that \<open>decide\<close> and \<open>withSession\<close> share: what follows the closure.\<close>

definition commit_decision ::
    "string \<Rightarrow> bool list \<Rightarrow> stamps \<Rightarrow> string \<Rightarrow> string \<Rightarrow> decide_options \<Rightarrow> nat \<Rightarrow> event_input list \<Rightarrow>
     db \<Rightarrow> db \<Rightarrow> (decide_error + decide_result) \<times> db" where
  "commit_decision p busy st s reducerId opts version produced dl d =
     (if produced = [] then
        (if do_enforce opts \<and> readSequenceHighWaterMark d s \<noteq> version
         then Inl (ConcurrencyError s reducerId version (readSequenceHighWaterMark d s) (do_operationId opts))
         else Inr no_op, d)
      else
        (case append_keyed busy st s produced
                (decide_key p s reducerId st (length produced) (do_operationId opts)) (Some version) dl d of
           (r, d') \<Rightarrow> (translateDecideResult r s reducerId (do_operationId opts), d')))"

definition decide ::
    "'s reducers \<Rightarrow> bool list \<Rightarrow> stamps \<Rightarrow> string \<Rightarrow> string \<Rightarrow> ('s \<Rightarrow> nat \<Rightarrow> event_input list) \<Rightarrow>
     decide_options \<Rightarrow> db \<Rightarrow> db \<Rightarrow> db \<Rightarrow> (decide_error + decide_result) \<times> db" where
  "decide reg busy st s reducerId fn opts dr dl d =
     (case resolveStreamReducer reg reducerId of
        Inl e \<Rightarrow> (Inl e, d)
      | Inr r \<Rightarrow>
          (let events = rows_of dr s; version = tail_version events
           in commit_decision ''decide'' busy st s reducerId opts version
                (fn (fold_stream r events) version) dl d))"

text \<open>
  A session closure queues events and may throw; the queue is what it appended before it resolved,
  and an append through a captured session after that throws \<open>SessionClosedError\<close>.
\<close>

definition withSession ::
    "'s reducers \<Rightarrow> bool list \<Rightarrow> stamps \<Rightarrow> string \<Rightarrow> string \<Rightarrow>
     ('s \<Rightarrow> nat \<Rightarrow> decide_error + event_input list) \<Rightarrow> decide_options \<Rightarrow> bool \<Rightarrow> db \<Rightarrow> db \<Rightarrow> db \<Rightarrow>
     (decide_error + decide_result) \<times> db" where
  "withSession reg busy st s reducerId fn opts allowNonIdempotent dr dl d =
     (if do_operationId opts = None \<and> \<not> allowNonIdempotent then (Inl InvalidSessionOptions, d)
      else (case resolveStreamReducer reg reducerId of
          Inl e \<Rightarrow> (Inl e, d)
        | Inr r \<Rightarrow>
            (let events = rows_of dr s; version = tail_version events in
             case fn (fold_stream r events) version of
               Inl e \<Rightarrow> (Inl e, d)
             | Inr pending \<Rightarrow>
                 commit_decision ''with-session'' busy st s reducerId opts version pending dl d)))"

definition aggregateStream :: "'s reducers \<Rightarrow> string \<Rightarrow> string \<Rightarrow> db \<Rightarrow> decide_error + 's \<times> nat" where
  "aggregateStream reg s reducerId d =
     bind_result (resolveStreamReducer reg reducerId) (\<lambda>r.
       Inr (fold_stream r (rows_of d s), tail_version (rows_of d s)))"

section \<open>decideOnce\<close>

record once_decision =
  od_stream :: string
  od_events :: "event_input list"
  od_result :: js
  od_expected :: "nat option"

definition to_decision :: "stamps \<Rightarrow> once_decision \<Rightarrow> decision" where
  "to_decision st od =
     \<lparr>de_stream = od_stream od, de_expected = od_expected od, de_n = length (od_events od),
      de_result = od_result od, de_finalize = persist (od_stream od) None st (od_events od)\<rparr>"

definition once_error :: "string \<Rightarrow> db \<Rightarrow> (db \<Rightarrow> once_decision) \<Rightarrow> db_error \<Rightarrow> decide_error" where
  "once_error operationId d closure err =
     (case err of
        OperationDigestConflict i x a \<Rightarrow> OperationDigestMismatch i x a
      | SequenceGateConflict x a \<Rightarrow>
          ConcurrencyError (od_stream (closure d)) ''decideOnce'' x a (Some operationId)
      | BusyExhausted n \<Rightarrow> StorageBusyError ''<unknown>'' n
      | DbFailure m \<Rightarrow> DecideOnceFailed m
      | _ \<Rightarrow> DecideOnceFailed ''constraint failed'')"

definition decideOnce ::
    "bool list \<Rightarrow> stamps \<Rightarrow> string \<Rightarrow> string \<Rightarrow> (db \<Rightarrow> once_decision) \<Rightarrow> db \<Rightarrow> db \<Rightarrow>
     (decide_error + js) \<times> db" where
  "decideOnce busy st operationId requestDigest closure dl d =
     (if operationId = '''' then (Inl (DecideOnceFailed ''decideOnce requires operationId''), d)
      else if requestDigest = '''' then (Inl (DecideOnceFailed ''decideOnce requires requestDigest''), d)
      else (case lookupOperationClaim dl operationId of
          Some c \<Rightarrow>
            (if oc_digest c \<noteq> requestDigest
             then Inl (OperationDigestMismatch operationId (oc_digest c) requestDigest)
             else Inr (oc_result c), d)
        | None \<Rightarrow>
            (case atomicDecideOnce busy operationId requestDigest (\<lambda>x. to_decision st (closure x)) d of
               Inr (outcome, d') \<Rightarrow> (Inr (oc_result (on_claim outcome)), d')
             | Inl err \<Rightarrow> (Inl (once_error operationId d closure err), d))))"

section \<open>Laws\<close>

lemma persist_length [simp]: "length (persist s key st events base) = length events"
  by (simp add: persist_def)

lemma persist_numbered: "numbered base (length events) (persist s key st events base)"
proof -
  have "map we_sequence (persist s key st events base) = map (\<lambda>p. base + fst p + 1) (enumerate 0 events)"
    by (simp add: persist_def persist_one_def comp_def case_prod_unfold)
  also have "\<dots> = map (\<lambda>i. base + i + 1) (map fst (enumerate 0 events))"
    by (simp only: map_map comp_def)
  also have "\<dots> = map (\<lambda>i. i + Suc base) [0 ..< length events]"
    by (simp only: map_fst_enumerate) (simp add: add.commute)
  also have "\<dots> = [Suc base ..< Suc base + length events]"
    using map_add_upt [of "Suc base" "length events"] by (simp add: add.commute)
  finally show ?thesis by (simp add: numbered_def)
qed

lemma finalize_batch_parts:
  "finalize_batch s key st events base =
   (persist s key st events base,
    case key of None \<Rightarrow> None | Some _ \<Rightarrow> Some (claim_of (persist s key st events base)))"
  by (simp add: finalize_batch_def Let_def)

lemma cache_hit_claim_of: "cache_hit (claim_of es) =
    CacheHit (map we_sequence es) (map (\<lambda>e. text_or_none (we_eventId e)) es) (map we_timestamp es) es"
  by (simp add: cache_hit_def claim_of_def)

lemma tail_version_le_gate: "db_inv d \<Longrightarrow> tail_version (rows_of d s) \<le> readSequenceHighWaterMark d s"
  by (auto simp: tail_version_def db_inv_def)

text \<open>The result of a locked append that reaches the transaction.\<close>

lemma append_locked_commit:
  fixes st :: stamps
  assumes inv: "db_inv d" and ok: "s \<noteq> ''''" "validateStreamId s" "events \<noteq> []" "key \<noteq> Some ''''"
    and miss: "Option.bind key (lookupIdempotencyClaim dl s) = None"
    and free: "claim_free d s key"
    and gate: "when_given expected (\<lambda>x. readSequenceHighWaterMark d s = x)"
    and lock: "\<not> (MAX_ATTEMPTS \<le> length busy \<and> list_all id (take MAX_ATTEMPTS busy))"
  defines "es \<equiv> persist s key st events (readSequenceHighWaterMark d s)"
  shows "\<exists>d'. appendSqliteLocked busy st s events key expected dl d = (committed es, d') \<and>
    appended d s key es (case key of None \<Rightarrow> None | Some _ \<Rightarrow> Some (claim_of es)) d'"
proof -
  obtain d' where txn: "append_txn s key (length events) expected (finalize_batch s key st events) d =
      Inr ((readSequenceHighWaterMark d s, map we_sequence es), d')"
    and app: "appended d s key es (case key of None \<Rightarrow> None | Some _ \<Rightarrow> Some (claim_of es)) d'"
    using append_txn_commit [OF inv gate, of "finalize_batch s key st events",
        OF finalize_batch_parts persist_numbered free]
    unfolding es_def by blast
  have "atomicAppend busy s key (length events) expected (finalize_batch s key st events) d =
      Inr ((readSequenceHighWaterMark d s, map we_sequence es), d')"
    using lock ok(3) by (auto simp: atomicAppend_def txn with_busy_retry_cases)
  then show ?thesis using ok miss app by (auto simp: appendSqliteLocked_def es_def)
qed

text \<open>A failure or a cache hit leaves the tables as they were.\<close>

lemma append_locked_unchanged:
  "appendSqliteLocked busy st s events key expected dl d = (r, d') \<Longrightarrow>
   (\<forall>a b c. r \<noteq> Committed a b c) \<Longrightarrow> d' = d"
  by (auto simp: appendSqliteLocked_def committed_def split: if_splits option.splits sum.splits db_error.splits)

end
