(* ===== verification/Transition_Guard.thy ===== *)
theory Transition_Guard
  imports State_Machine_Laws Phase_Skip Workflow_Events Atomic_Appender
begin

text \<open>
  The guarded transition primitive (\<open>src/workflow/hsm-transition-guard.ts\<close>) over the event store:
  it looks up the edge, runs a registered custom guard, raises the obligation floor from the prior
  state and the frozen record, runs the executor, and appends the events of the outcome. Custom
  guard commands, the schema check of \<open>buildValidatedEvent\<close> and the clock are arguments in
  \<open>genv\<close>. The shadow observer cannot change the outcome and is left out.
\<close>

section \<open>Payloads\<close>

record payload_opts =
  po_guardId :: "string option"
  po_fixCycleOrdinal :: "nat option"
  po_planRevisionOrdinal :: "nat option"

definition meta :: "transition_event \<Rightarrow> string \<Rightarrow> js" where
  "meta evt k = fget (or_else (te_metadata evt) []) k"

definition nullish_or :: "js \<Rightarrow> js \<Rightarrow> js" where
  "nullish_or v d = (if is_nullish v then d else v)"

text \<open>A field that is spread in only when its value satisfies a test.\<close>

definition when_field :: "bool \<Rightarrow> string \<Rightarrow> js \<Rightarrow> fields" where
  "when_field c k v = (if c then [(k, v)] else [])"

definition ordinal_payload :: "transition_event \<Rightarrow> string \<Rightarrow> nat option \<Rightarrow> fields" where
  "ordinal_payload evt featureId n =
     when_field (as_string (meta evt ''compoundStateId'') \<noteq> None) ''compoundStateId'' (meta evt ''compoundStateId'') @
     [(''count'', JInt (int (or_else n 1))), (''featureId'', JStr featureId)]"

definition circuit_payload :: "transition_event \<Rightarrow> string \<Rightarrow> fields" where
  "circuit_payload evt featureId =
     [(''featureId'', JStr featureId),
      (''compoundId'',
        (case (meta evt ''compoundId'', meta evt ''compoundStateId'') of
           (JStr c, _) \<Rightarrow> JStr c
         | (_, JStr c) \<Rightarrow> JStr c
         | _ \<Rightarrow> JStr (te_from evt)))] @
     when_field (js_typeof (meta evt ''fixCycleCount'') = ''number'') ''fixCycleCount'' (meta evt ''fixCycleCount'') @
     when_field (js_typeof (meta evt ''maxFixCycles'') = ''number'') ''maxFixCycles'' (meta evt ''maxFixCycles'')"

definition entered_payload :: "transition_event \<Rightarrow> fields" where
  "entered_payload evt =
     [(''phase'', nullish_or (meta evt ''phase'') (JStr (te_to evt))),
      (''kind'', meta evt ''kind''),
      (''resolver'', nullish_or (meta evt ''resolver'') JNull),
      (''resolvedGates'', nullish_or (meta evt ''resolvedGates'') (JArr [])),
      (''policySource'', nullish_or (meta evt ''policySource'') (JStr ''builtin'')),
      (''mode'', nullish_or (meta evt ''mode'') (JStr ''enforce'')),
      (''posture'', meta evt ''posture'')] @
     when_field (meta evt ''riskTier'' \<noteq> JUndef) ''riskTier'' (meta evt ''riskTier'') @
     when_field (js_typeof (meta evt ''boundaryTouching'') = ''boolean'') ''boundaryTouching''
       (meta evt ''boundaryTouching'')"

definition blocked_payload :: "transition_event \<Rightarrow> fields" where
  "blocked_payload evt =
     (let rawReason = (case meta evt ''reason'' of
            JStr r \<Rightarrow> if r \<noteq> '''' then r else ''gate-set resolution failed''
          | _ \<Rightarrow> ''gate-set resolution failed'')
      in [(''phase'', (case meta evt ''phase'' of JStr p \<Rightarrow> JStr p | _ \<Rightarrow> JStr (te_to evt))),
          (''kind'', meta evt ''kind''),
          (''reason'', JStr (''phase transition blocked: '' @ js_string (meta evt ''kind'') @
             '' gate-set resolution failed '' @ em_dash @ '' '' @ rawReason)),
          (''error'', JObj [(''code'', JStr ''PHASE_BLOCKED''), (''message'', JStr rawReason)])])"

definition exited_payload :: "transition_event \<Rightarrow> fields" where
  "exited_payload evt =
     [(''phase'', nullish_or (meta evt ''phase'') (JStr (te_from evt))),
      (''allRequiredGatesPassed'',
        (case meta evt ''allRequiredGatesPassed'' of JBool b \<Rightarrow> JBool b | _ \<Rightarrow> JUndef))]"

definition buildHsmEventData :: "transition_event \<Rightarrow> string \<Rightarrow> payload_opts \<Rightarrow> fields" where
  "buildHsmEventData evt featureId opts =
     (if te_type evt = ''fix-cycle'' then ordinal_payload evt featureId (po_fixCycleOrdinal opts)
      else if te_type evt = ''plan-revision'' then
        ordinal_payload evt featureId (po_planRevisionOrdinal opts)
      else if te_type evt = ''compound-entry'' then
        [(''compoundStateId'', meta evt ''compoundStateId''), (''featureId'', JStr featureId)]
      else if te_type evt = ''compound-exit'' then
        [(''compoundStateId'', nullish_or (meta evt ''compoundStateId'') (JStr (te_from evt))),
         (''featureId'', JStr featureId), (''from'', JStr (te_from evt)), (''to'', JStr (te_to evt)),
         (''trigger'', JStr (te_trigger evt))]
      else if te_type evt = ''circuit-open'' then circuit_payload evt featureId
      else if te_type evt = ''guard-failed'' then
        [(''guard'', JStr (or_else (po_guardId opts) ''unknown'')), (''from'', JStr (te_from evt)),
         (''to'', JStr (te_to evt)), (''featureId'', JStr featureId)]
      else if te_type evt = ''phase.entered'' then entered_payload evt
      else if te_type evt = ''phase.blocked'' then blocked_payload evt
      else if te_type evt = ''phase.exited'' then exited_payload evt
      else
        spread [(''from'', JStr (te_from evt)), (''to'', JStr (te_to evt)),
                (''trigger'', JStr (te_trigger evt)), (''featureId'', JStr featureId)]
          (or_else (te_metadata evt) []))"

section \<open>The store adapter\<close>

record custom_result =
  cr_passed :: bool
  cr_error :: "string option"

text \<open>
  What the primitive gets from outside: the registered custom guards and what running their
  command gives, the schema check on a type and its data, and the stamps of each append.
\<close>

record genv =
  ge_registered :: "string \<Rightarrow> guard_definition option"
  ge_run :: "guard_definition \<Rightarrow> custom_result"
  ge_valid :: "string \<Rightarrow> fields \<Rightarrow> bool"
  ge_stamp :: "nat \<Rightarrow> stamps"

text \<open>\<open>buildValidatedEvent\<close> and \<open>EventStore.appendValidated\<close> for an event of the workflow source.\<close>

definition event_input_of :: "string \<Rightarrow> string \<Rightarrow> fields \<Rightarrow> event_input" where
  "event_input_of featureId t data =
     \<lparr>ei_type = t, ei_data = JObj data, ei_timestamp = None, ei_operation = None,
      ei_correlation = Some featureId, ei_causation = None\<rparr>"

definition truthy_key :: "string option \<Rightarrow> string option" where
  "truthy_key k = (if k = Some '''' then None else k)"

definition append_validated ::
    "genv \<Rightarrow> nat \<Rightarrow> string \<Rightarrow> string \<Rightarrow> fields \<Rightarrow> string option \<Rightarrow> db \<Rightarrow> (js_exn + nat) \<times> db" where
  "append_validated env n featureId t data key d =
     (if \<not> ge_valid env t data then (Inl (Thrown (''Invalid data for event type '' @ t)), d)
      else (case appendSqliteLocked [] (ge_stamp env n) featureId [event_input_of featureId t data]
                   (truthy_key key) None d d of
          (Committed seqs _ _, d') \<Rightarrow> (Inr (hd seqs), d')
        | (CacheHit _ _ _ es, d') \<Rightarrow>
            ((case es of [] \<Rightarrow> Inl (Thrown ''Append cache-hit reported no persisted event'')
              | e # _ \<Rightarrow> Inr (we_sequence e)), d')
        | (Failed _, d') \<Rightarrow> (Inl (Thrown ''Append failed''), d')))"

definition nextFixCycleOrdinal :: "db \<Rightarrow> string \<Rightarrow> js \<Rightarrow> nat" where
  "nextFixCycleOrdinal d featureId compoundStateId =
     (let prior = db_queryEvents d featureId (type_filter ''workflow.fix-cycle'') in
      case compoundStateId of
        JStr c \<Rightarrow> length (filter (\<lambda>e. data_get e ''compoundStateId'' = JStr c) prior) + 1
      | _ \<Rightarrow> length prior + 1)"

definition nextPlanRevisionOrdinal :: "db \<Rightarrow> string \<Rightarrow> nat" where
  "nextPlanRevisionOrdinal d featureId =
     length (db_queryEvents d featureId (type_filter ''workflow.plan-revision'')) + 1"

section \<open>Context\<close>

record guard_context =
  gc_state :: fields
  gc_workflowType :: string
  gc_skipPhases :: "string list"
  gc_suffix :: "string option"
  gc_store :: bool
  gc_resolver :: gate_resolver
  gc_universal :: bool
  gc_prior :: "fields option"

definition resolveHSM :: "registry \<Rightarrow> string \<Rightarrow> string list \<Rightarrow> js_exn + hsm" where
  "resolveHSM r workflowType skips =
     bind_result (getHSMDefinition r workflowType) (\<lambda>base.
       if skips = [] then Inr base else applyPhaseSkips r base skips)"

definition isUniversalFinalTarget :: "hsm \<Rightarrow> string \<Rightarrow> bool" where
  "isUniversalFinalTarget h target \<longleftrightarrow>
     (target = ''cancelled'' \<or> target = ''completed'') \<and> is_final h target"

section \<open>Floors\<close>

definition coordinate_of :: "fields \<Rightarrow> danger_coordinate option" where
  "coordinate_of fs =
     (if fget fs ''riskTier'' = JUndef \<and> fget fs ''boundaryTouching'' = JUndef then None
      else Some (resolveDangerCoordinate (fget fs ''riskTier'') (fget fs ''boundaryTouching'')))"

definition statedCoordinate :: "fields option \<Rightarrow> danger_coordinate option" where
  "statedCoordinate state = Option.bind state coordinate_of"

definition option_list :: "'a option \<Rightarrow> 'a list" where
  "option_list x = (case x of None \<Rightarrow> [] | Some a \<Rightarrow> [a])"

definition frozen_floor_of :: "fields \<Rightarrow> obligation_floor option" where
  "frozen_floor_of latest =
     (let coordinate = coordinate_of latest;
          gates = (case fget latest ''resolvedGates'' of JArr xs \<Rightarrow> readFrozenGateSequence xs | _ \<Rightarrow> None)
      in if coordinate = None \<and> (gates = None \<or> gates = Some []) then None
         else Some \<lparr>fl_coordinates = option_list coordinate, fl_gates = or_else gates []\<rparr>)"

definition readFrozenFloorForPhase :: "db \<Rightarrow> string \<Rightarrow> string \<Rightarrow> obligation_floor option" where
  "readFrozenFloorForPhase d featureId target =
     (case find_last (\<lambda>e. data_get e ''phase'' = JStr target)
             (db_queryEvents d featureId (type_filter ''phase.entered'')) of
        None \<Rightarrow> None
      | Some e \<Rightarrow> frozen_floor_of (data_fields e))"

definition mergeFloors :: "obligation_floor option list \<Rightarrow> obligation_floor" where
  "mergeFloors parts =
     foldl (\<lambda>acc part.
       case part of
         None \<Rightarrow> acc
       | Some f \<Rightarrow> \<lparr>fl_coordinates = fl_coordinates acc @ fl_coordinates f,
                   fl_gates = union_gates (fl_gates acc) (fl_gates f)\<rparr>) no_floor parts"

definition floor_for :: "guard_context \<Rightarrow> db \<Rightarrow> string \<Rightarrow> string \<Rightarrow> obligation_floor" where
  "floor_for c d featureId target =
     mergeFloors
       [map_option (\<lambda>x. \<lparr>fl_coordinates = [x], fl_gates = []\<rparr>) (statedCoordinate (gc_prior c)),
        if gc_store c then readFrozenFloorForPhase d featureId target else None]"

section \<open>Attempts\<close>

record attempt_ok =
  ao_idempotent :: bool
  ao_newPhase :: string
  ao_history :: "(string \<times> string) list"
  ao_emitted :: "transition_event list"
  ao_to :: string
  ao_seq :: int

record attempt_refusal =
  ar_failure :: guard_failure
  ar_guardId :: string
  ar_code :: string
  ar_message :: string

datatype attempt_result =
    AOk attempt_ok
  | AGuardFailed attempt_refusal
  | ANoTransition "valid_target list" string

definition plain_failure :: "string \<Rightarrow> guard_failure" where
  "plain_failure m = \<lparr>gf_reason = m, gf_shape = None, gf_fix = None\<rparr>"

definition no_edge_message :: "string \<Rightarrow> string \<Rightarrow> string" where
  "no_edge_message a b = ''No transition from '' @ quoted a @ '' to '' @ quoted b"

text \<open>\<open>emitGuardFailed\<close>: a failure to persist the diagnostic is ignored.\<close>

definition emitGuardFailed ::
    "genv \<Rightarrow> guard_context \<Rightarrow> string \<Rightarrow> string \<Rightarrow> string \<Rightarrow> string \<Rightarrow> db \<Rightarrow> db" where
  "emitGuardFailed env c featureId a b g d =
     (if \<not> gc_store c then d
      else snd (append_validated env 0 featureId ''workflow.guard-failed''
             [(''from'', JStr a), (''to'', JStr b), (''guard'', JStr g), (''featureId'', JStr featureId)]
             None d))"

text \<open>The custom guard of the edge: \<open>None\<close> when there is nothing to refuse.\<close>

definition custom_guard_check ::
    "genv \<Rightarrow> guard_context \<Rightarrow> string \<Rightarrow> string \<Rightarrow> string \<Rightarrow> transition option \<Rightarrow> db \<Rightarrow>
     (attempt_result \<times> db) option" where
  "custom_guard_check env c featureId a b tr d =
     (case Option.bind tr tguard of
        None \<Rightarrow> None
      | Some g \<Rightarrow>
          (case ge_registered env (gc_workflowType c @ '':'' @ gid g) of
             Some gd \<Rightarrow>
               (let res = ge_run env gd in
                if cr_passed res then None
                else Some
                  (AGuardFailed
                     \<lparr>ar_failure = plain_failure (or_else (cr_error res)
                        (''Custom guard '' @ quoted (gid g) @ '' failed'')),
                      ar_guardId = gid g, ar_code = ''GUARD_FAILED'',
                      ar_message = ''Custom guard '' @ quoted (gid g) @ '' failed: '' @
                        or_else (cr_error res) ''command exited non-zero''\<rparr>,
                   emitGuardFailed env c featureId a b (gid g) d))
           | None \<Rightarrow>
               if gcustom g then
                 Some
                   (AGuardFailed
                      \<lparr>ar_failure = plain_failure (''Custom guard '' @ quoted (gid g) @ '' is not registered''),
                       ar_guardId = gid g, ar_code = ''GUARD_FAILED'',
                       ar_message = ''Custom guard '' @ quoted (gid g) @
                         '' is not registered. Ensure registerCustomWorkflows() was called.''\<rparr>, d)
               else None))"

definition no_ordinals :: "string option \<Rightarrow> payload_opts" where
  "no_ordinals g = \<lparr>po_guardId = g, po_fixCycleOrdinal = None, po_planRevisionOrdinal = None\<rparr>"

text \<open>The diagnostic events of a refused walk, appended without a key.\<close>

fun emit_failures ::
    "genv \<Rightarrow> nat \<Rightarrow> string \<Rightarrow> string option \<Rightarrow> transition_event list \<Rightarrow> db \<Rightarrow> (js_exn + unit) \<times> db" where
  "emit_failures env n featureId g [] d = (Inr (), d)"
| "emit_failures env n featureId g (e # es) d =
     (case append_validated env n featureId (mapInternalToExternalType (te_type e))
             (buildHsmEventData e featureId (no_ordinals g)) None d of
        (Inl err, d') \<Rightarrow> (Inl err, d')
      | (Inr _, d') \<Rightarrow> emit_failures env (n + 1) featureId g es d')"

definition event_key :: "string \<Rightarrow> transition_event \<Rightarrow> string option \<Rightarrow> string option" where
  "event_key featureId e suf =
     (case suf of
        None \<Rightarrow> None
      | Some x \<Rightarrow>
          if x = '''' then None
          else Some (featureId @ '':'' @ te_type e @ '':'' @ te_from e @ '':'' @ te_to e @ '':'' @ x))"

definition ordinals_for :: "db \<Rightarrow> string \<Rightarrow> string option \<Rightarrow> transition_event \<Rightarrow> payload_opts" where
  "ordinals_for d featureId g e =
     \<lparr>po_guardId = g,
      po_fixCycleOrdinal =
        (if te_type e = ''fix-cycle''
         then Some (nextFixCycleOrdinal d featureId (meta e ''compoundStateId'')) else None),
      po_planRevisionOrdinal =
        (if te_type e = ''plan-revision'' then Some (nextPlanRevisionOrdinal d featureId) else None)\<rparr>"

definition LIFECYCLE_TYPES :: "string list" where
  "LIFECYCLE_TYPES = [''transition'', ''cancel'', ''cleanup'', ''phase.entered'', ''phase.exited'']"

text \<open>The events of a successful walk, one at a time; the sequence is the highest lifecycle one.\<close>

fun emit_events ::
    "genv \<Rightarrow> nat \<Rightarrow> string \<Rightarrow> string option \<Rightarrow> string option \<Rightarrow> int \<Rightarrow> transition_event list \<Rightarrow> db \<Rightarrow>
     (js_exn + int) \<times> db" where
  "emit_events env n featureId g suf sq [] d = (Inr sq, d)"
| "emit_events env n featureId g suf sq (e # es) d =
     (case append_validated env n featureId (mapInternalToExternalType (te_type e))
             (buildHsmEventData e featureId (ordinals_for d featureId g e))
             (event_key featureId e suf) d of
        (Inl err, d') \<Rightarrow> (Inl err, d')
      | (Inr q, d') \<Rightarrow>
          emit_events env (n + 1) featureId g suf
            (if te_type e \<in> set LIFECYCLE_TYPES then max sq (int q) else sq) es d')"

definition refusal_code :: "string option \<Rightarrow> string" where
  "refusal_code code =
     (if code = Some ''PHASE_BLOCKED'' then ''PHASE_BLOCKED''
      else if code = Some ''CIRCUIT_OPEN'' then ''CIRCUIT_OPEN''
      else ''GUARD_FAILED'')"

definition failed_walk ::
    "genv \<Rightarrow> guard_context \<Rightarrow> string \<Rightarrow> string \<Rightarrow> string option \<Rightarrow> transition_result \<Rightarrow> db \<Rightarrow>
     (js_exn + attempt_result) \<times> db" where
  "failed_walk env c featureId target g res d =
     (case (if gc_store c then emit_failures env 0 featureId g (tr_events res) d else (Inr (), d)) of
        (Inl err, d') \<Rightarrow> (Inl err, d')
      | (Inr _, d') \<Rightarrow>
          (Inr (AGuardFailed
             \<lparr>ar_failure = \<lparr>gf_reason = or_else (tr_errorMessage res) ''guard failed'',
                            gf_shape = tr_expectedShape res, gf_fix = tr_suggestedFix res\<rparr>,
              ar_guardId = or_else g ''unknown'',
              ar_code = refusal_code (tr_errorCode res),
              ar_message = or_else (tr_errorMessage res)
                (''Transition failed to '' @ quoted target)\<rparr>), d'))"

definition successful_walk ::
    "genv \<Rightarrow> guard_context \<Rightarrow> string \<Rightarrow> string \<Rightarrow> string option \<Rightarrow> transition_result \<Rightarrow> db \<Rightarrow>
     (js_exn + attempt_result) \<times> db" where
  "successful_walk env c featureId target g res d =
     (case (if gc_store c then emit_events env 0 featureId g (gc_suffix c) (- 1) (tr_events res) d
            else (Inr (- 1), d)) of
        (Inl err, d') \<Rightarrow> (Inl err, d')
      | (Inr sq, d') \<Rightarrow>
          (Inr (AOk
             \<lparr>ao_idempotent = tr_idempotent res, ao_newPhase = or_else (tr_newPhase res) target,
              ao_history = or_else (tr_history res) [], ao_emitted = tr_events res,
              ao_to = or_else (tr_newPhase res) target, ao_seq = sq\<rparr>), d'))"

definition attempt ::
    "registry \<Rightarrow> genv \<Rightarrow> string \<Rightarrow> string \<Rightarrow> string \<Rightarrow> guard_context \<Rightarrow> db \<Rightarrow>
     (js_exn + attempt_result) \<times> db" where
  "attempt reg env featureId cur target c d =
     (case resolveHSM reg (gc_workflowType c) (gc_skipPhases c) of
        Inl e \<Rightarrow> (Inl e, d)
      | Inr h \<Rightarrow>
          if cur = target then
            (Inr (AOk \<lparr>ao_idempotent = True, ao_newPhase = cur, ao_history = [], ao_emitted = [],
                       ao_to = cur, ao_seq = - 1\<rparr>), d)
          else
            (let tr = findTransition h cur target;
                 universalFinal = (tr = None \<and> gc_universal c \<and> isUniversalFinalTarget h target);
                 g = map_option gid (Option.bind tr tguard)
             in if tr = None \<and> \<not> universalFinal then
                  (Inr (ANoTransition (getValidTransitions h cur) (no_edge_message cur target)), d)
                else (case custom_guard_check env c featureId cur target tr d of
                    Some (refusal, d') \<Rightarrow> (Inr refusal, d')
                  | None \<Rightarrow>
                      (let res = executeTransition h (gc_state c) target (gc_resolver c)
                                   (floor_for c d featureId target)
                       in if tr_success res then successful_walk env c featureId target g res d
                          else if universalFinal \<and> tr_errorCode res = Some ''INVALID_TRANSITION'' then
                            (Inr (ANoTransition (or_else (tr_validTargets res) (getValidTransitions h cur))
                               (or_else (tr_errorMessage res) (no_edge_message cur target))), d)
                          else failed_walk env c featureId target g res d))))"

end
