(* ===== verification/Machine_Runs.thy ===== *)
theory Machine_Runs
  imports State_Machine_Laws Transition_Guard Workflow_Events
begin

text \<open>
  Runs of a workflow: the executor decides a transition, its events are stored through
  \<open>buildHsmEventData\<close> and come back through the hydration into the \<open>_events\<close> of the next state, and
  between transitions other events arrive. The fix-cycle budget is an invariant of these runs, final
  phases absorb them, and the graphs of the built-in machines have no dead ends.
\<close>

section \<open>The stored form of an event of the executor\<close>

definition stored_event :: "string \<Rightarrow> payload_opts \<Rightarrow> string \<Rightarrow> nat \<Rightarrow> transition_event \<Rightarrow> wf_event" where
  "stored_event featureId opts now n e =
     \<lparr>we_stream = featureId, we_sequence = n, we_timestamp = now,
      we_type = mapInternalToExternalType (te_type e), we_eventId = None, we_key = None,
      we_operation = None, we_correlation = Some featureId, we_causation = None,
      we_data = stored_data (JObj (buildHsmEventData e featureId opts))\<rparr>"

text \<open>The types that the executor emits on success, and metadata that it puts on the plain ones.\<close>

definition walk_types :: "string list" where
  "walk_types =
     [''transition'', ''cancel'', ''cleanup'', ''compound-entry'', ''compound-exit'', ''fix-cycle'',
      ''plan-revision'', ''phase.exited'', ''phase.entered'']"

definition plain_event :: "transition_event \<Rightarrow> bool" where
  "plain_event e \<longleftrightarrow>
     te_type e \<in> set walk_types \<and>
     (te_type e \<in> {''transition'', ''cancel'', ''cleanup''} \<longrightarrow>
        te_metadata e = None \<or> (\<exists>v. te_metadata e = Some [(''phaseAttemptId'', v)]))"

lemma attempt_metadata_plain:
  "attempt_metadata s = None \<or> (\<exists>v. attempt_metadata s = Some [(''phaseAttemptId'', v)])"
  by (simp add: attempt_metadata_def split: js.split)

lemma walk_events_plain:
  assumes "tr_success (executeTransition h s target r fl)"
    "e \<in> set (tr_events (executeTransition h s target r fl))"
  shows "plain_event e"
proof (cases rule: execute_cases [of s target h r fl])
  case (guard t)
  then show ?thesis using assms guard_refusal_Some [OF guard(4)] by blast
next
  case (circuit t)
  then show ?thesis using assms circuit_refusal_Some [OF circuit(5)] by blast
next
  case (edge t)
  have adv: "e \<in> set (advance_events h s (phase_of s) target t) \<Longrightarrow> plain_event e"
    using attempt_metadata_plain [of s]
    by (auto simp: advance_events_def Let_def plain_event_def walk_types_def split: if_splits)
  show ?thesis
    using assms adv unfolding edge(6)
    by (cases rule: advance_cases [of h target s r fl t]) (auto simp: plain_event_def walk_types_def)
qed (use assms attempt_metadata_plain [of s] in \<open>auto simp: plain_event_def walk_types_def\<close>)

lemma fst_clone: "map fst (concat (map (\<lambda>(k, v). case json_clone v of None \<Rightarrow> [] | Some w \<Rightarrow> [(k, w)]) fs)) =
    map fst (filter (\<lambda>(k, v). json_clone v \<noteq> None) fs)"
  by (induction fs) (auto split: option.splits)

lemma distinct_clone:
  "distinct (map fst fs) \<Longrightarrow>
   distinct (map fst (concat (map (\<lambda>(k, v). case json_clone v of None \<Rightarrow> [] | Some w \<Rightarrow> [(k, w)]) fs)))"
  unfolding fst_clone by (rule distinct_map_filter)

lemma fget_clone_str:
  "distinct (map fst fs) \<Longrightarrow>
   fget (concat (map (\<lambda>(k, v). case json_clone v of None \<Rightarrow> [] | Some w \<Rightarrow> [(k, w)]) fs)) k = JStr c \<longleftrightarrow>
   fget fs k = JStr c"
proof (induction fs)
  case (Cons kv fs)
  obtain k' v where kv: "kv = (k', v)" by (cases kv)
  have "k' \<notin> fst ` set fs" using Cons.prems kv by simp
  then have "fget fs k' = JUndef" by (simp add: fget_def map_of_eq_None_iff [symmetric] split: option.split)
  then show ?case using Cons kv
    by (cases v) (auto simp: fget_def split: option.splits if_splits)
qed simp

lemma payload_plain:
  assumes "plain_event e"
  shows "distinct (map fst (buildHsmEventData e f opts)) \<and> ''type'' \<notin> fst ` set (buildHsmEventData e f opts)"
proof -
  from assms consider
      (base) "te_type e = ''transition'' \<or> te_type e = ''cancel'' \<or> te_type e = ''cleanup''"
        "te_metadata e = None \<or> (\<exists>v. te_metadata e = Some [(''phaseAttemptId'', v)])"
    | "te_type e = ''compound-entry''" | "te_type e = ''compound-exit''" | "te_type e = ''fix-cycle''"
    | "te_type e = ''plan-revision''" | "te_type e = ''phase.exited''" | "te_type e = ''phase.entered''"
    unfolding plain_event_def walk_types_def by (simp only: list.set insert_iff empty_iff) blast
  then show ?thesis
  proof cases
    case base
    then have "buildHsmEventData e f opts =
        spread [(''from'', JStr (te_from e)), (''to'', JStr (te_to e)), (''trigger'', JStr (te_trigger e)),
          (''featureId'', JStr f)] (or_else (te_metadata e) [])"
      by (elim disjE) (simp_all add: buildHsmEventData_def)
    with base(2) show ?thesis by auto
  qed (simp_all add: buildHsmEventData_def ordinal_payload_def entered_payload_def exited_payload_def
      when_field_def)
qed

lemma stored_event_fields:
  "data_fields (stored_event f opts now n e) =
   concat (map (\<lambda>(k, v). case json_clone v of None \<Rightarrow> [] | Some w \<Rightarrow> [(k, w)]) (buildHsmEventData e f opts))"
  by (simp add: data_fields_def stored_event_def stored_data_def)

lemma stored_event_plain: "plain_event e \<Longrightarrow> plain_data (stored_event f opts now n e)"
proof -
  assume "plain_event e"
  note p = payload_plain [OF this, of f opts]
  have "fst ` set (data_fields (stored_event f opts now n e)) =
      set (map fst (filter (\<lambda>(k, v). json_clone v \<noteq> None) (buildHsmEventData e f opts)))"
    unfolding stored_event_fields fst_clone [symmetric] by simp
  then have "fst ` set (data_fields (stored_event f opts now n e)) \<subseteq> fst ` set (buildHsmEventData e f opts)"
    by auto
  then show ?thesis
    using p distinct_clone unfolding plain_data_def stored_event_fields by blast
qed

lemma walk_type_fix_cycle:
  "t \<in> set walk_types \<Longrightarrow>
   mapExternalToInternalType (mapInternalToExternalType t) = ''fix-cycle'' \<longleftrightarrow> t = ''fix-cycle''"
proof -
  have "list_all (\<lambda>t. (mapExternalToInternalType (mapInternalToExternalType t) = ''fix-cycle'') =
      (t = ''fix-cycle'')) walk_types" by code_simp
  then show "t \<in> set walk_types \<Longrightarrow> ?thesis" by (simp add: list_all_iff)
qed

text \<open>A stored event of a walk counts as a fix cycle of a compound exactly when the executor meant it.\<close>

lemma stored_fix_cycle_iff:
  assumes "plain_event e"
  shows "is_fix_cycle c (hydrate_event (stored_event f opts now n e)) \<longleftrightarrow>
    te_type e = ''fix-cycle'' \<and> meta e ''compoundStateId'' = JStr c"
proof -
  let ?w = "stored_event f opts now n e"
  note get = hydrate_event_get [OF stored_event_plain [OF assms, of f opts now n]]
  have ty: "mapExternalToInternalType (we_type ?w) = ''fix-cycle'' \<longleftrightarrow> te_type e = ''fix-cycle''"
    using walk_type_fix_cycle assms by (simp add: stored_event_def plain_event_def)
  have "opt_get (opt_get (hydrate_event ?w) ''metadata'') ''compoundStateId'' = JStr c \<longleftrightarrow>
      fget (buildHsmEventData e f opts) ''compoundStateId'' = JStr c"
    unfolding get(2) using fget_clone_str payload_plain [OF assms, of f opts]
    by (simp add: opt_get_def stored_event_fields)
  moreover have "te_type e = ''fix-cycle'' \<Longrightarrow>
      fget (buildHsmEventData e f opts) ''compoundStateId'' = JStr c \<longleftrightarrow> meta e ''compoundStateId'' = JStr c"
    by (cases "meta e ''compoundStateId''")
      (simp_all add: buildHsmEventData_def ordinal_payload_def when_field_def as_string_def)
  ultimately show ?thesis unfolding is_fix_cycle_def get(1) using ty by auto
qed

section \<open>Steps\<close>

text \<open>
  A step of a workflow: a successful walk, whose stored events extend the log that the next state
  reads, or an update that keeps the phase and brings events of other kinds.
\<close>

inductive machine_step :: "hsm \<Rightarrow> gate_resolver \<Rightarrow> string \<Rightarrow> fields \<Rightarrow> fields \<Rightarrow> bool" for h r f where
  walk: "tr_success (executeTransition h s target r flr) \<Longrightarrow>
    phase_of s' = or_else (tr_newPhase (executeTransition h s target r flr)) target \<Longrightarrow>
    list_all2 (\<lambda>e j. \<exists>opts now n. j = hydrate_event (stored_event f opts now n e))
      (tr_events (executeTransition h s target r flr)) new \<Longrightarrow>
    state_events s' = state_events s @ new \<Longrightarrow> machine_step h r f s s'"
| update: "phase_of s' = phase_of s \<Longrightarrow> state_events s' = state_events s @ new \<Longrightarrow>
    \<forall>j \<in> set new. opt_get j ''type'' \<noteq> JStr ''fix-cycle'' \<Longrightarrow> machine_step h r f s s'"

inductive_cases step_elim: "machine_step h r f s s'"

lemmas machine_stepE = step_elim [consumes 1, case_names walk update]

abbreviation machine_run :: "hsm \<Rightarrow> gate_resolver \<Rightarrow> string \<Rightarrow> fields \<Rightarrow> fields \<Rightarrow> bool" where
  "machine_run h r f \<equiv> (machine_step h r f)\<^sup>*\<^sup>*"

lemma count_append: "countFixCycles (xs @ ys) c = countFixCycles xs c + countFixCycles ys c"
  by (simp add: countFixCycles_def)

lemma count_stored:
  assumes "list_all2 (\<lambda>e j. \<exists>opts now n. j = hydrate_event (stored_event f opts now n e)) es new"
    "\<forall>e \<in> set es. plain_event e"
  shows "countFixCycles new c =
    length (filter (\<lambda>e. te_type e = ''fix-cycle'' \<and> meta e ''compoundStateId'' = JStr c) es)"
  using assms
  by (induction rule: list_all2_induct) (auto simp: countFixCycles_def stored_fix_cycle_iff)

text \<open>How many fix cycles of a compound the events of a successful walk hold.\<close>

lemma walk_fix_cycles:
  assumes "tr_success (executeTransition h s target r fl)"
  shows "length (filter (\<lambda>e. te_type e = ''fix-cycle'' \<and> meta e ''compoundStateId'' = JStr c)
      (tr_events (executeTransition h s target r fl))) \<le> 1 \<and>
    (length (filter (\<lambda>e. te_type e = ''fix-cycle'' \<and> meta e ''compoundStateId'' = JStr c)
      (tr_events (executeTransition h s target r fl))) = 1 \<longrightarrow>
     (\<exists>p. getParentCompound h (phase_of s) = Some p \<and> st_id p = c \<and>
        (\<forall>m. st_maxFixCycles p = Some m \<longrightarrow> countFixCycles (state_events s) c < m)))"
proof (cases rule: execute_cases [of s target h r fl])
  case (guard t)
  then show ?thesis using assms guard_refusal_Some [OF guard(4)] by blast
next
  case (circuit t)
  then show ?thesis using assms circuit_refusal_Some [OF circuit(5)] by blast
next
  case (edge t)
  let ?P = "\<lambda>e. te_type e = ''fix-cycle'' \<and> meta e ''compoundStateId'' = JStr c"
  have none: "filter ?P (map (\<lambda>a. mk_event ''compound-entry'' x (g a) y (m a)) as) = []"
    "filter ?P (map (\<lambda>a. mk_event ''compound-exit'' (g a) x y z) as) = []" for x g y m z as
    by (simp_all add: filter_empty_conv)
  have adv: "filter ?P (advance_events h s (phase_of s) target t) =
      (if flagged (isFixCycle t) \<and> (\<exists>p. getParentCompound h (phase_of s) = Some p \<and> st_id p = c)
       then [mk_event ''fix-cycle'' (phase_of s) target exec_trigger (compound_metadata h (phase_of s))] else [])"
    by (simp add: advance_events_def Let_def none) (auto simp: meta_def compound_metadata_def split: option.splits)
  have all: "filter ?P (tr_events (executeTransition h s target r fl)) = filter ?P (advance_events h s (phase_of s) target t)"
    using assms unfolding edge(6) by (cases rule: advance_cases [of h target s r fl t]) simp_all
  show ?thesis
    unfolding all adv using edge(5) by (auto simp: circuit_refusal_None_iff not_le)
qed simp_all

section \<open>The fix-cycle budget\<close>

lemma step_keeps_budget:
  assumes "hsm_closed h" "state_at h c = Some p" "st_maxFixCycles p = Some m"
    and "machine_step h r f s s'" "countFixCycles (state_events s) c \<le> m"
  shows "countFixCycles (state_events s') c \<le> m"
  using assms(4)
proof (cases rule: machine_stepE)
  case (walk target flr new)
  have plain: "\<forall>e \<in> set (tr_events (executeTransition h s target r flr)). plain_event e"
    using walk_events_plain [OF walk(1)] by blast
  have same: "q = p" if "getParentCompound h (phase_of s) = Some q" "st_id q = c" for q
  proof -
    have wf: "hsm_wf h" using assms(1) by (simp add: hsm_closed_def)
    from hsm_wf.parent_id [OF wf that(1)] show ?thesis using that(2) assms(2) by auto
  qed
  show ?thesis
    using walk_fix_cycles [OF walk(1), of c] same assms(3,5)
    unfolding walk(4) count_append count_stored [OF walk(3) plain] by (fastforce simp: le_Suc_eq)
next
  case (update new)
  have "countFixCycles new c = 0"
    using update(3) by (simp add: countFixCycles_def filter_empty_conv is_fix_cycle_def)
  with assms(5) update(2) show ?thesis by (simp add: count_append)
qed

text \<open>
  C2: Along every run of a well-formed closed machine the log never counts more fix cycles of a
  compound state than its budget, whatever targets, floors and resolvers the calls use and
  whatever other events arrive in between.
\<close>

theorem fix_cycles_bounded:
  assumes "hsm_closed h" "state_at h c = Some p" "st_maxFixCycles p = Some m"
    and "machine_run h r f s s'" "countFixCycles (state_events s) c \<le> m"
  shows "countFixCycles (state_events s') c \<le> m"
  using assms(4,5) by (induction rule: rtranclp_induct) (use step_keeps_budget [OF assms(1-3)] in blast)+

lemma feature_budget:
  "state_at createFeatureHSM ''implementation'' = Some (compound ''implementation'' ''delegate'' (Some 3))"
  by code_simp

text \<open>A run of the feature machine: a failed review sends the work back.\<close>

definition failing_state :: "js list \<Rightarrow> fields" where
  "failing_state es =
     [(''phase'', JStr ''review''), (''_events'', JArr es),
      (''reviews'', JObj [(''review'', JObj [(''status'', JStr ''fail'')])])]"

definition fix_events :: "js list" where
  "fix_events = map (\<lambda>e. hydrate_event (stored_event ''f'' (no_ordinals None) ''2026-01-01'' 1 e))
     (tr_events (executeTransition createFeatureHSM (failing_state []) ''delegate'' resolveGateSet no_floor))"

lemma fix_step:
  "machine_step createFeatureHSM resolveGateSet ''f'' (failing_state [])
     [(''phase'', JStr ''delegate''), (''_events'', JArr fix_events)]"
proof (rule walk)
  show "tr_success (executeTransition createFeatureHSM (failing_state []) ''delegate'' resolveGateSet no_floor)"
    by code_simp
  show "phase_of [(''phase'', JStr ''delegate''), (''_events'', JArr fix_events)] =
    or_else (tr_newPhase (executeTransition createFeatureHSM (failing_state []) ''delegate'' resolveGateSet no_floor))
      ''delegate''"
    by code_simp
  show "list_all2 (\<lambda>e j. \<exists>opts now n. j = hydrate_event (stored_event ''f'' opts now n e))
      (tr_events (executeTransition createFeatureHSM (failing_state []) ''delegate'' resolveGateSet no_floor)) fix_events"
    unfolding fix_events_def by (auto simp: list_all2_map2 intro!: list.rel_refl_strong)
  show "state_events [(''phase'', JStr ''delegate''), (''_events'', JArr fix_events)] =
      state_events (failing_state []) @ fix_events"
    by (simp add: state_events_def failing_state_def)
qed

lemma fix_run:
  "machine_run createFeatureHSM resolveGateSet ''f'' (failing_state [])
     [(''phase'', JStr ''delegate''), (''_events'', JArr fix_events)]"
  by (rule r_into_rtranclp) (rule fix_step)

lemma fix_cycles_bounded_witness:
  "countFixCycles (state_events [(''phase'', JStr ''delegate''), (''_events'', JArr fix_events)])
     ''implementation'' \<le> 3"
  by (rule fix_cycles_bounded [OF feature.hsm_closed_axioms feature_budget _ fix_run])
    (simp_all add: compound_def state_events_def failing_state_def countFixCycles_def)

section \<open>Declared and final phases\<close>

lemma step_phase:
  assumes "hsm_closed h" "machine_step h r f s s'" "state_at h (phase_of s) \<noteq> None"
  shows "state_at h (phase_of s') \<noteq> None \<and> (is_final h (phase_of s) \<longrightarrow> phase_of s' = phase_of s)"
  using assms(2)
proof (cases rule: machine_stepE)
  case (walk target flr new)
  show ?thesis
  proof (cases rule: execute_cases [of s target h r flr])
    case cancel
    then show ?thesis using walk hsm_closed.universal_states [OF assms(1)] by simp
  next
    case cleanup
    then show ?thesis using walk hsm_closed.universal_states [OF assms(1)] by simp
  next
    case (guard t)
    then show ?thesis using walk(1) guard_refusal_Some [OF guard(4)] by blast
  next
    case (circuit t)
    then show ?thesis using walk(1) circuit_refusal_Some [OF circuit(5)] by blast
  next
    case (edge t)
    then show ?thesis
      using walk hsm_closed.find_closed [OF assms(1) edge(3)] advance_newPhase [of h s target r flr t] by auto
  qed (use walk assms(3) in simp_all)
qed (use assms(3) in simp)

text \<open>
  A run that starts in a phase that its machine declares only visits declared phases, and once
  it is in a final phase it stays in that phase.
\<close>

theorem runs_stay_declared:
  assumes "hsm_closed h" "machine_run h r f s s'" "state_at h (phase_of s) \<noteq> None"
  shows "state_at h (phase_of s') \<noteq> None \<and> (is_final h (phase_of s) \<longrightarrow> phase_of s' = phase_of s)"
  using assms(2)
proof (induction rule: rtranclp_induct)
  case (step y z)
  then show ?case using step_phase [OF assms(1) step(2)] by auto
qed (use assms(3) in simp)

lemma runs_stay_declared_witness:
  "state_at createFeatureHSM (phase_of [(''phase'', JStr ''delegate''), (''_events'', JArr fix_events)]) \<noteq> None"
proof -
  have "state_at createFeatureHSM (phase_of (failing_state [])) \<noteq> None" by code_simp
  from runs_stay_declared [OF feature.hsm_closed_axioms fix_run this]
  show ?thesis by blast
qed

end
