(* ===== verification/Machine_Graphs.thy ===== *)
theory Machine_Graphs
  imports State_Machine
begin

text \<open>
  The graphs of the machines: from every phase that the initial phase of a built-in workflow type
  leads to, some path completes the workflow; and the operations on the registry keep every machine
  well formed and the built-in types as they are.
\<close>

section \<open>Paths\<close>

fun reach_in :: "nat \<Rightarrow> (string \<times> string) list \<Rightarrow> string \<Rightarrow> string \<Rightarrow> bool" where
  "reach_in 0 es a b = (a = b)"
| "reach_in (Suc n) es a b \<longleftrightarrow> a = b \<or> list_ex (\<lambda>(x, y). x = a \<and> reach_in n es y b) es"

lemma reach_in_path: "reach_in n es a b \<Longrightarrow> (a, b) \<in> (set es)\<^sup>*"
proof (induction n arbitrary: a)
  case (Suc n)
  then show ?case
    by (auto simp: list_ex_iff intro: converse_rtrancl_into_rtrancl)
qed simp

definition stays_in :: "string list \<Rightarrow> (string \<times> string) list \<Rightarrow> bool" where
  "stays_in ps es \<longleftrightarrow> list_all (\<lambda>(a, b). a \<in> set ps \<longrightarrow> b \<in> set ps) es"

lemma stays_in_path: "(a, b) \<in> (set es)\<^sup>* \<Longrightarrow> stays_in ps es \<Longrightarrow> a \<in> set ps \<Longrightarrow> b \<in> set ps"
  by (induction rule: rtrancl_induct) (auto simp: stays_in_def list_all_iff)

text \<open>The phases of a machine and the phase it starts in, with every non-final one completing.\<close>

definition completes :: "string \<Rightarrow> string list \<Rightarrow> (string \<times> state_type) list \<Rightarrow> (string \<times> string) list \<Rightarrow> bool" where
  "completes start ps types es \<longleftrightarrow>
     start \<in> set ps \<and> stays_in ps es \<and>
     list_all (\<lambda>p. map_of types p = Some Final \<or> reach_in (length ps) es p ''completed'') ps"

lemma completesD:
  assumes "completes start ps (state_types h) (edge_pairs h)" "(start, p) \<in> (set (edge_pairs h))\<^sup>*"
    "\<not> is_final h p"
  shows "(p, ''completed'') \<in> (set (edge_pairs h))\<^sup>*"
proof -
  have "p \<in> set ps" using stays_in_path assms(1,2) unfolding completes_def by blast
  then have "reach_in (length ps) (edge_pairs h) p ''completed''"
    using assms(1,3) by (auto simp: completes_def list_all_iff is_final_types)
  then show ?thesis by (rule reach_in_path)
qed

lemma feature_completes:
  "completes ''plan'' [''plan'', ''plan-review'', ''delegate'', ''blocked'', ''review'', ''merge-pending'',
     ''synthesize'', ''completed''] (state_types createFeatureHSM) (edge_pairs createFeatureHSM)"
  unfolding builtin_edge_pairs builtin_state_types by code_simp

lemma debug_completes:
  "completes ''triage'' [''triage'', ''investigate'', ''rca'', ''hotfix-implement'', ''cancelled'', ''completed'',
     ''design'', ''debug-implement'', ''debug-validate'', ''debug-review'', ''synthesize'', ''hotfix-validate'']
     (state_types createDebugHSM) (edge_pairs createDebugHSM)"
  unfolding builtin_edge_pairs builtin_state_types by code_simp

lemma refactor_completes:
  "completes ''explore'' [''explore'', ''brief'', ''polish-implement'', ''overhaul-plan'', ''polish-validate'',
     ''polish-update-docs'', ''completed'', ''overhaul-plan-review'', ''overhaul-delegate'', ''blocked'',
     ''overhaul-review'', ''overhaul-update-docs'', ''synthesize'']
     (state_types createRefactorHSM) (edge_pairs createRefactorHSM)"
  unfolding builtin_edge_pairs builtin_state_types by code_simp

lemma oneshot_completes:
  "completes ''plan'' [''plan'', ''implementing'', ''synthesize'', ''completed'']
     (state_types createOneshotHSM) (edge_pairs createOneshotHSM)"
  unfolding builtin_edge_pairs builtin_state_types by code_simp

lemma discovery_completes:
  "completes ''gathering'' [''gathering'', ''synthesizing'', ''completed'']
     (state_types createDiscoveryHSM) (edge_pairs createDiscoveryHSM)"
  unfolding builtin_edge_pairs builtin_state_types by code_simp

lemmas builtin_completes =
  feature_completes debug_completes refactor_completes oneshot_completes discovery_completes

lemma builtin_registry_cases:
  assumes "getHSMDefinition initial_registry w = Inr h" "getInitialPhase initial_registry w = Inr start"
  shows "(h, start) \<in> {(createFeatureHSM, ''plan''), (createDebugHSM, ''triage''),
    (createRefactorHSM, ''explore''), (createOneshotHSM, ''plan''), (createDiscoveryHSM, ''gathering'')}"
  using assms
  by (auto simp: getHSMDefinition_def getInitialPhase_def initial_registry_def split: if_splits option.splits)

text \<open>
  C38: In every built-in workflow type, each phase that is not final and that some path from the
  initial phase reaches has a path of edges to the completed phase.
\<close>

theorem no_dead_ends:
  assumes "getHSMDefinition initial_registry w = Inr h" "getInitialPhase initial_registry w = Inr start"
    and "(start, p) \<in> (set (edge_pairs h))\<^sup>*" "\<not> is_final h p"
  shows "(p, ''completed'') \<in> (set (edge_pairs h))\<^sup>*"
  using builtin_registry_cases [OF assms(1,2)] completesD [OF _ assms(3,4)] builtin_completes by auto

lemma no_dead_ends_witness:
  "(''blocked'', ''completed'') \<in> (set (edge_pairs createFeatureHSM))\<^sup>*"
proof (rule no_dead_ends [of "''feature''" _ "''plan''"])
  show "getHSMDefinition initial_registry ''feature'' = Inr createFeatureHSM"
    by (simp add: getHSMDefinition_def initial_registry_def)
  show "getInitialPhase initial_registry ''feature'' = Inr ''plan''"
    by (simp add: getInitialPhase_def initial_registry_def)
  have "reach_in 2 (edge_pairs createFeatureHSM) ''plan'' ''blocked''"
    unfolding builtin_edge_pairs by code_simp
  then show "(''plan'', ''blocked'') \<in> (set (edge_pairs createFeatureHSM))\<^sup>*" by (rule reach_in_path)
  show "\<not> is_final createFeatureHSM ''blocked''" by code_simp
qed

section \<open>The registry\<close>

text \<open>
  Registering or removing a custom workflow type keeps the registry well formed (each machine
  is filed under its own id, its states are keyed by their ids, and every parent is a declared
  top-level compound) and leaves the machines and the initial phases of the built-in types alone.
\<close>

theorem registry_operations_safe:
  assumes "wf_registry r"
    and "registerWorkflowType name d r = Inr r' \<or> unregisterWorkflowType name r = Inr r'"
  shows "wf_registry r' \<and>
    (\<forall>w \<in> set BUILT_IN_TYPES. map_of (reg_hsms r') w = map_of (reg_hsms r) w \<and>
       map_of (reg_initials r') w = map_of (reg_initials r) w)"
proof
  show "wf_registry r'"
    using assms registerWorkflowType_wf unregisterWorkflowType_wf by blast
  have "name \<notin> set BUILT_IN_TYPES"
    using assms(2) by (auto simp: registerWorkflowType_def unregisterWorkflowType_def split: if_splits)
  then show "\<forall>w \<in> set BUILT_IN_TYPES. map_of (reg_hsms r') w = map_of (reg_hsms r) w \<and>
       map_of (reg_initials r') w = map_of (reg_initials r) w"
    using assms(2)
    by (auto simp: registerWorkflowType_def unregisterWorkflowType_def bind_result_def map_of_update
        delete_conv' split: if_splits sum.splits)
qed

definition spike_definition :: workflow_definition where
  "spike_definition = \<lparr>wd_extends = Some ''discovery'', wd_phases = [''spike''], wd_initialPhase = ''gathering'',
     wd_transitions = [\<lparr>td_from = ''gathering'', td_to = ''spike'', td_event = ''go'', td_guard = None\<rparr>],
     wd_guards = []\<rparr>"

lemma registry_operations_safe_witness:
  "\<exists>r'. registerWorkflowType ''spike'' spike_definition initial_registry = Inr r' \<and> wf_registry r'"
proof -
  obtain r' where r: "registerWorkflowType ''spike'' spike_definition initial_registry = Inr r'"
    by (auto simp: registerWorkflowType_def convertToHSM_def base_machine_def spike_definition_def
        truthy_name_def bind_result_def initial_registry_def custom_transition_def BUILT_IN_TYPES_def)
  from registry_operations_safe [OF initial_registry_wf, of "''spike''" spike_definition r'] r show ?thesis by blast
qed

definition shadowing_definition :: workflow_definition where
  "shadowing_definition = \<lparr>wd_extends = None, wd_phases = [''start'', ''cancelled''], wd_initialPhase = ''start'',
     wd_transitions = [], wd_guards = []\<rparr>"

lemma shadowing_machine:
  "convertToHSM initial_registry ''x'' shadowing_definition =
   Inr \<lparr>hsm_id = ''x'',
        hsm_states = [(''start'', atomic ''start'' GATHER None), (''cancelled'', atomic ''cancelled'' GATHER None),
          (''completed'', final ''completed'')],
        hsm_transitions = []\<rparr>"
  by (simp add: convertToHSM_def base_machine_def shadowing_definition_def truthy_name_def bind_result_def
      add_phases_def add_state_def merge_transitions_def)

text \<open>
  A custom workflow type may list a phase called cancelled; that phase is then not final, and
  the universal cancel does not exist for the workflow: from its start a cancel is refused.
\<close>

theorem shadowed_cancel_refused:
  "\<exists>h. convertToHSM initial_registry ''x'' shadowing_definition = Inr h \<and>
     \<not> is_final h ''cancelled'' \<and>
     tr_errorCode (executeTransition h [(''phase'', JStr ''start'')] ''cancelled'' resolveGateSet no_floor) =
       Some ''INVALID_TRANSITION''"
  unfolding shadowing_machine by (rule exI, rule conjI, rule refl) (rule conjI; code_simp)

end
