(* ===== verification/Skip_Laws.thy ===== *)
theory Skip_Laws
  imports Phase_Skip
begin

text \<open>
  What skipping phases does to a machine: one skip removes the phase and joins the edges around it,
  the result is again a closed machine with the same states, and two skips on one cycle do not
  compose.
\<close>

lemma apply_one:
  assumes "applyPhaseSkips r h [p] = Inr h'"
  shows "hsm_transitions h' = skip_one h p (hsm_transitions h)" "hsm_states h' = hsm_states h"
    "check_skip r h p = None"
  using assms by (auto simp: applyPhaseSkips_def split: option.splits)

text \<open>
  Skipping one declared phase that has an outgoing edge and no edge to itself leaves no edge
  into or out of it. Every pair of edges through it whose ends are not its children becomes one edge
  with the guard of the second, or of the first when the second has none; every edge away from the
  phase and its children stays; and the result is a closed machine with the same states.
\<close>

theorem skip_removes_and_joins:
  assumes "hsm_closed h" "applyPhaseSkips r h [p] = Inr h'" "state_at h p \<noteq> None"
    and "\<exists>t \<in> set (hsm_transitions h). tfrom t = p" "\<forall>t \<in> set (hsm_transitions h). \<not> (tfrom t = p \<and> tto t = p)"
  shows "hsm_closed h' \<and> hsm_states h' = hsm_states h \<and>
    (\<forall>t \<in> set (hsm_transitions h'). tfrom t \<noteq> p \<and> tto t \<noteq> p) \<and>
    (\<forall>a \<in> set (hsm_transitions h). \<forall>b \<in> set (hsm_transitions h).
       tto a = p \<and> tfrom b = p \<and> tfrom a \<notin> child_ids h p \<and> tto b \<notin> child_ids h p \<longrightarrow>
       (\<exists>t \<in> set (hsm_transitions h'). tfrom t = tfrom a \<and> tto t = tto b \<and>
          tguard t = (case tguard b of None \<Rightarrow> tguard a | Some g \<Rightarrow> Some g))) \<and>
    (\<forall>t \<in> set (hsm_transitions h). {tfrom t, tto t} \<inter> insert p (child_ids h p) = {} \<longrightarrow>
       t \<in> set (hsm_transitions h'))"
proof -
  note h' = apply_one [OF assms(2)]
  have "\<exists>t \<in> set (hsm_transitions h'). tfrom t = tfrom a \<and> tto t = tto b \<and>
          tguard t = (case tguard b of None \<Rightarrow> tguard a | Some g \<Rightarrow> Some g)"
    if "a \<in> set (hsm_transitions h)" "b \<in> set (hsm_transitions h)"
      "tto a = p" "tfrom b = p" "tfrom a \<notin> child_ids h p" "tto b \<notin> child_ids h p" for a b
    using skip_one_keeps_paths [OF assms(3) that] unfolding h'(1)
    by (intro bexI [of _ "splice a b"]) (simp_all add: or_opt_def)
  moreover have "\<forall>t \<in> set (hsm_transitions h'). tfrom t \<noteq> p \<and> tto t \<noteq> p"
    unfolding h'(1) using skip_one_removes [OF assms(3-5)] by blast
  moreover have "t \<in> set (hsm_transitions h')"
    if "t \<in> set (hsm_transitions h)" "{tfrom t, tto t} \<inter> insert p (child_ids h p) = {}" for t
    unfolding h'(1) using that by (intro skip_one_keeps_others) auto
  ultimately show ?thesis using applyPhaseSkips_closed [OF assms(1,2)] h'(2) by blast
qed

lemma skip_review_edges:
  "map_option edge_pairs (case applyPhaseSkips initial_registry createOneshotHSM [''implementing''] of
     Inl _ \<Rightarrow> None | Inr h' \<Rightarrow> Some h') =
   Some [(''plan'', ''synthesize''), (''plan'', ''completed''), (''synthesize'', ''completed'')]"
  by code_simp

lemma skip_removes_and_joins_witness:
  "\<exists>h'. applyPhaseSkips initial_registry createOneshotHSM [''implementing''] = Inr h' \<and> hsm_closed h' \<and>
     (\<forall>t \<in> set (hsm_transitions h'). tfrom t \<noteq> ''implementing'' \<and> tto t \<noteq> ''implementing'')"
proof -
  obtain h' where h': "applyPhaseSkips initial_registry createOneshotHSM [''implementing''] = Inr h'"
    using skip_review_edges by (auto split: sum.splits)
  have st: "state_at createOneshotHSM ''implementing'' \<noteq> None" by code_simp
  have out: "\<exists>t \<in> set (hsm_transitions createOneshotHSM). tfrom t = ''implementing''"
    "\<forall>t \<in> set (hsm_transitions createOneshotHSM). \<not> (tfrom t = ''implementing'' \<and> tto t = ''implementing'')"
    by (simp_all add: createOneshotHSM_def oneshotTransitions_def edge_def)
  from skip_removes_and_joins [OF oneshot.hsm_closed_axioms h' st out] h' show ?thesis by blast
qed

text \<open>
  Skipping the plan review and then the plan of the refactor workflow does not skip the plan: the
  first skip turns the revise edge into a loop on the plan, and the second keeps an edge from the brief
  into the plan.
\<close>

theorem second_skip_on_cycle_fails:
  "\<exists>h'. applyPhaseSkips initial_registry createRefactorHSM [''overhaul-plan-review'', ''overhaul-plan''] = Inr h' \<and>
     (''brief'', ''overhaul-plan'') \<in> set (edge_pairs h')"
proof -
  have "(case applyPhaseSkips initial_registry createRefactorHSM [''overhaul-plan-review'', ''overhaul-plan''] of
      Inl _ \<Rightarrow> False | Inr h' \<Rightarrow> list_ex (\<lambda>e. e = (''brief'', ''overhaul-plan'')) (edge_pairs h'))"
    by code_simp
  then show ?thesis by (auto simp: list_ex_iff split: sum.splits)
qed

end
