(* ===== verification/Event_Laws.thy ===== *)
theory Event_Laws
  imports State_Machine Workflow_Events
begin

text \<open>
  The event log as its readers see it: type names survive the store, the hydrated log counts every
  fix cycle that was stored, the in-state log is bounded, and two places where a reader sees
  something else than the writer meant.
\<close>

section \<open>Type names\<close>

lemma typeMap_externals: "distinct (map snd typeMap) \<and> distinct (map fst typeMap)"
  by code_simp

text \<open>
  The store's name of every internal event type maps back to that type, and no two internal types
  share a name in the store.
\<close>

theorem internal_types_survive_store:
  assumes "t \<in> set internal_types"
  shows "mapExternalToInternalType (mapInternalToExternalType t) = t \<and>
    (\<forall>u \<in> set internal_types. mapInternalToExternalType u = mapInternalToExternalType t \<longrightarrow> u = t)"
  using map_type_round_trip assms by metis

lemma internal_types_survive_store_witness:
  "mapExternalToInternalType (mapInternalToExternalType ''fix-cycle'') = ''fix-cycle''"
proof -
  have "''fix-cycle'' \<in> set internal_types" by code_simp
  from internal_types_survive_store [OF this] show ?thesis by blast
qed

section \<open>Fix cycles in the hydrated log\<close>

lemma hydrated_fix_cycle_iff:
  assumes "plain_data e"
  shows "is_fix_cycle c (hydrate_event e) \<longleftrightarrow>
    we_type e \<in> {''workflow.fix-cycle'', ''fix-cycle''} \<and> fget (data_fields e) ''compoundStateId'' = JStr c"
proof -
  have inv: "map_of reverseMap x = Some ''fix-cycle'' \<longleftrightarrow> x = ''workflow.fix-cycle''" for x
  proof
    assume "map_of reverseMap x = Some ''fix-cycle''"
    then have "(x, ''fix-cycle'') \<in> set reverseMap" by (rule map_of_SomeD)
    moreover have "list_all (\<lambda>(a, b). b = ''fix-cycle'' \<longrightarrow> a = ''workflow.fix-cycle'') reverseMap" by code_simp
    ultimately show "x = ''workflow.fix-cycle''" by (auto simp: list_all_iff)
  qed (simp add: reverseMap_def)
  have own: "map_of reverseMap ''fix-cycle'' = None" by code_simp
  have "mapExternalToInternalType (we_type e) = ''fix-cycle'' \<longleftrightarrow>
      we_type e \<in> {''workflow.fix-cycle'', ''fix-cycle''}"
    using inv [of "we_type e"] own by (auto simp: mapExternalToInternalType_def split: option.splits)
  then show ?thesis
    unfolding is_fix_cycle_def hydrate_event_get [OF assms] by (simp add: opt_get_def)
qed

lemma data_get_fields: "data_get e k = JStr c \<longleftrightarrow> fget (data_fields e) k = JStr c"
  by (cases "we_data e") (simp_all add: data_get_def data_fields_def opt_get_def)

text \<open>
  On a stream whose event data does not override the type, the executor's count of fix cycles of
  a compound is at least the count that the circuit breaker reports from the store, so the executor
  stops no later than the breaker says.
\<close>

theorem executor_counts_no_less:
  assumes "\<forall>e \<in> set stream. plain_data e"
  shows "getFixCycleCountFromStore stream c \<le> countFixCycles (hydrateEventsFromStore stream) c"
proof -
  let ?P = "\<lambda>e. we_type e = ''workflow.fix-cycle'' \<and> data_get e ''compoundStateId'' = JStr c"
  have "getFixCycleCountFromStore stream c \<le> length (filter ?P stream)"
    by (auto simp: getFixCycleCountFromStore_def Let_def run_query_type conj_commute
        intro!: filter_length_mono split: option.split)
  also have "\<dots> \<le> length (filter (\<lambda>e. is_fix_cycle c (hydrate_event e)) stream)"
    using assms by (intro filter_length_mono) (auto simp: hydrated_fix_cycle_iff data_get_fields)
  also have "\<dots> = countFixCycles (hydrateEventsFromStore stream) c"
    by (simp add: countFixCycles_def hydrateEventsFromStore_def filter_map comp_def)
  finally show ?thesis .
qed

definition log_entry :: "nat \<Rightarrow> string \<Rightarrow> string \<Rightarrow> wf_event" where
  "log_entry n t c =
     \<lparr>we_stream = ''f'', we_sequence = n, we_timestamp = ''2026-01-01'', we_type = t, we_eventId = None,
      we_key = None, we_operation = None, we_correlation = None, we_causation = None,
      we_data = JObj [(''compoundStateId'', JStr c)]\<rparr>"

definition reentered_stream :: "wf_event list" where
  "reentered_stream =
     [log_entry 1 ''workflow.compound-entry'' ''implementation'', log_entry 2 ''workflow.fix-cycle'' ''implementation'',
      log_entry 3 ''workflow.compound-exit'' ''implementation'', log_entry 4 ''workflow.compound-entry'' ''implementation'']"

lemma executor_counts_no_less_witness:
  "getFixCycleCountFromStore reentered_stream ''implementation'' \<le>
   countFixCycles (hydrateEventsFromStore reentered_stream) ''implementation''"
proof -
  have "\<forall>e \<in> set reentered_stream. plain_data e"
    by (simp add: reentered_stream_def log_entry_def plain_data_def data_fields_def)
  then show ?thesis by (rule executor_counts_no_less)
qed

text \<open>
  The two counts differ after a compound is entered again: the circuit breaker of the store starts
  over at zero, while the executor still counts the fix cycle of the earlier visit.
\<close>

theorem breaker_forgets_executor_remembers:
  "cb_fixCycleCount (checkCircuitBreakerFromStore None reentered_stream ''implementation'' 1) = 0 \<and>
   \<not> cb_open (checkCircuitBreakerFromStore None reentered_stream ''implementation'' 1) \<and>
   countFixCycles (hydrateEventsFromStore reentered_stream) ''implementation'' = 1"
  by code_simp

section \<open>The merge detour on hydrated events\<close>

text \<open>
  C40: on the events that the store hydrates, the guard into the merge detour reads the wrong place: it looks
  for the worktree under data of the latest completed task, while a hydrated event has its payload spread at
  the top and under metadata. So it passes only when some payload has a field of its own named data that
  holds the worktree; a payload that names its worktree in the usual way, and has no field named data, never
  opens the detour.
\<close>

theorem merge_detour_unreachable_after_hydration:
  assumes "fget s ''_events'' = JArr (hydrateEventsFromStore stream)"
    and "\<forall>e \<in> set stream. distinct (map fst (data_fields e))"
  shows "(guard_passes mergePendingEntry s \<longrightarrow>
      (\<exists>e \<in> set stream. eventDataHasWorktreeAssociation (fget (data_fields e) ''data''))) \<and>
    ((\<forall>e \<in> set stream. ''data'' \<notin> fst ` set (data_fields e)) \<longrightarrow> \<not> guard_passes mergePendingEntry s)"
proof -
  have passes: "\<exists>e \<in> set stream. eventDataHasWorktreeAssociation (fget (data_fields e) ''data'')"
    if "guard_passes mergePendingEntry s"
  proof -
    have "latestTaskCompletedHasWorktree s"
      using that by (auto simp: guard_passes_def mergePendingEntry_def pure_guard_def mergePendingEntry_eval_def
          mk_fail_def split: if_splits)
    then obtain latest where latest: "findLatestTaskCompleted (hydrateEventsFromStore stream) = Some latest"
      and worktree: "eventDataHasWorktreeAssociation (opt_get latest ''data'')"
      using assms(1) by (auto simp: latestTaskCompletedHasWorktree_def split: option.splits)
    then have "latest \<in> set (hydrateEventsFromStore stream)"
      by (auto simp: findLatestTaskCompleted_def dest: find_last_Some)
    then obtain e where e: "e \<in> set stream" "latest = hydrate_event e" by (auto simp: hydrateEventsFromStore_def)
    have "opt_get (hydrate_event e) ''data'' = fget (data_fields e) ''data''"
      using assms(2) e(1) by (intro hydrate_event_data) auto
    with worktree e show ?thesis by auto
  qed
  have "fget (data_fields e) ''data'' = JUndef" if "''data'' \<notin> fst ` set (data_fields e)" for e
    using that by (auto simp: fget_def map_of_eq_None_iff [symmetric] split: option.split)
  then have "\<not> eventDataHasWorktreeAssociation (fget (data_fields e) ''data'')"
    if "''data'' \<notin> fst ` set (data_fields e)" for e
    using that by (simp add: eventDataHasWorktreeAssociation_def nonblank_def opt_get_def)
  with passes show ?thesis by blast
qed

definition completed_task :: wf_event where
  "completed_task = (log_entry 1 ''task.completed'' ''implementation'')\<lparr>we_data :=
     JObj [(''taskId'', JStr ''t1''), (''worktree'', JStr ''/work/t1'')]\<rparr>"

lemma merge_detour_unreachable_after_hydration_witness:
  "eventDataHasWorktreeAssociation (we_data completed_task) \<and>
   \<not> guard_passes mergePendingEntry [(''_events'', JArr (hydrateEventsFromStore [completed_task]))]"
proof
  show "eventDataHasWorktreeAssociation (we_data completed_task)" by code_simp
  show "\<not> guard_passes mergePendingEntry [(''_events'', JArr (hydrateEventsFromStore [completed_task]))]"
    using merge_detour_unreachable_after_hydration [of "[(''_events'', JArr (hydrateEventsFromStore [completed_task]))]"
        "[completed_task]"]
    by (simp add: completed_task_def log_entry_def data_fields_def)
qed

text \<open>A payload with a field named \<open>data\<close> does open the detour.\<close>

lemma nested_data_opens_detour:
  "guard_passes mergePendingEntry
     [(''_events'', JArr (hydrateEventsFromStore [(log_entry 1 ''task.completed'' ''implementation'')\<lparr>we_data :=
        JObj [(''data'', JObj [(''worktree'', JStr ''/work/t1'')])]\<rparr>]))]"
  by code_simp

section \<open>The in-state log\<close>

lemma EVENT_LOG_MAX_pos: "0 < EVENT_LOG_MAX env"
  by (simp add: EVENT_LOG_MAX_def env_positive_def split: option.split)

text \<open>
  Appending to the in-state log numbers the event one above the given sequence, keeps the newest
  events in order with the new one last, drops only the oldest ones, and leaves at most as many events
  as the cap, which the environment cannot set to zero.
\<close>

theorem log_append_bounded:
  fixes env now events n t g a b m
  defines "out \<equiv> log_append env now events n t g a b m"
  shows "lg_sequence (ao_event out) = n + 1 \<and> ao_sequence out = n + 1 \<and>
    suffix (ao_events out) (events @ [ao_event out]) \<and> last (ao_events out) = ao_event out \<and>
    length (ao_events out) = min (EVENT_LOG_MAX env) (length events + 1)"
proof -
  have "suffix (drop k xs) xs" for k and xs :: "log_event list" by (rule suffix_drop)
  moreover have "last (drop k (xs @ [x])) = x" if "k \<le> length xs" for k and xs :: "log_event list" and x
    using that by simp
  ultimately show ?thesis
    using EVENT_LOG_MAX_pos [of env] by (auto simp: out_def log_append_def Let_def min_def)
qed

end
