(* ===== verification/Append_Laws.thy ===== *)
theory Append_Laws
  imports Atomic_Appender
begin

text \<open>
  The contract of the append primitive and of the decisions on top of it: gapless numbering under
  one gate, retries that find what the first call wrote, optimistic concurrency that commits exactly
  on the version it folded, operations that are decided once, and the repair of the gate.
\<close>

section \<open>Committed appends\<close>

abbreviation gate :: "db \<Rightarrow> string \<Rightarrow> nat" where
  "gate d s \<equiv> readSequenceHighWaterMark d s"

abbreviation lock_held :: "bool list \<Rightarrow> bool" where
  "lock_held busy \<equiv> MAX_ATTEMPTS \<le> length busy \<and> list_all id (take MAX_ATTEMPTS busy)"

lemma txn_commit_conditions:
  assumes "append_txn s key n expected (finalize_batch s key st events) d = Inr x"
  shows "when_given expected (\<lambda>x. gate d s = x) \<and> claim_free d s key"
proof (rule conjI; rule ccontr)
  assume "\<not> when_given expected (\<lambda>x. gate d s = x)"
  from append_txn_gate_conflict [OF this] assms show False by simp
next
  assume busy: "\<not> claim_free d s key"
  then obtain k where k: "key = Some k" by (cases key) (simp_all add: claim_free_def)
  show False
  proof (cases "when_given expected (\<lambda>x. gate d s = x)")
    case True
    have "finalize_batch s (Some k) st events (gate d s) =
        (persist s (Some k) st events (gate d s), Some (claim_of (persist s (Some k) st events (gate d s))))"
      by (simp add: finalize_batch_parts)
    from append_txn_claim_conflict [of expected d s "finalize_batch s (Some k) st events", OF True this busy [unfolded k]]
    show False using assms k by simp
  next
    case False
    from append_txn_gate_conflict [OF False] assms show False by simp
  qed
qed

text \<open>The one commit: what the calls checked and what the tables hold afterwards.\<close>

lemma append_committed:
  assumes "db_inv d" "appendSqliteLocked busy st s events key expected dl d = (Committed seqs ids ts, d')"
  defines "es \<equiv> persist s key st events (gate d s)"
  shows "Committed seqs ids ts = committed es"
    and "appended d s key es (case key of None \<Rightarrow> None | Some _ \<Rightarrow> Some (claim_of es)) d'"
    and "when_given expected (\<lambda>x. gate d s = x)" and "s \<noteq> ''''" "validateStreamId s" "events \<noteq> []" "key \<noteq> Some ''''"
    and "Option.bind key (lookupIdempotencyClaim dl s) = None" "claim_free d s key" "\<not> lock_held busy"
proof -
  have pre: "s \<noteq> ''''" "validateStreamId s" "events \<noteq> []" "key \<noteq> Some ''''"
    "Option.bind key (lookupIdempotencyClaim dl s) = None"
    using assms(2) by (auto simp: appendSqliteLocked_def cache_hit_def split: if_splits option.splits)
  then obtain b q d1 where at: "atomicAppend busy s key (length events) expected (finalize_batch s key st events) d =
      Inr ((b, q), d1)"
    using assms(2)
    by (auto simp: appendSqliteLocked_def translateAtomicAppendError_def cache_hit_def
        split: sum.splits prod.splits db_error.splits option.splits)
  then have lock: "\<not> lock_held busy"
    and txn: "append_txn s key (length events) expected (finalize_batch s key st events) d = Inr ((b, q), d1)"
    using pre(3) by (auto simp: atomicAppend_def with_busy_retry_cases split: if_splits)
  have cond: "when_given expected (\<lambda>x. gate d s = x)" "claim_free d s key"
    using txn_commit_conditions [OF txn] by auto
  show "s \<noteq> ''''" "validateStreamId s" "events \<noteq> []" "key \<noteq> Some ''''"
    "Option.bind key (lookupIdempotencyClaim dl s) = None" "\<not> lock_held busy"
    "when_given expected (\<lambda>x. gate d s = x)" "claim_free d s key"
    by fact+
  from append_locked_commit [OF assms(1) pre cond(2,1) lock, of st] assms(2)
  show "Committed seqs ids ts = committed es"
    "appended d s key es (case key of None \<Rightarrow> None | Some _ \<Rightarrow> Some (claim_of es)) d'"
    unfolding es_def by auto
qed

lemma persist_types [simp]: "map we_type (persist s key st events base) = map ei_type events"
proof -
  have "map we_type (persist s key st events base) = map ei_type (map snd (enumerate 0 events))"
    by (simp add: persist_def persist_one_def comp_def case_prod_unfold del: map_snd_enumerate)
  then show ?thesis by (simp only: map_snd_enumerate)
qed

text \<open>
  What the row of the i-th event of a call holds, field by field: the caller's type, ids and time (the clock
  when it gave none), the fresh event id, the key of the call, the next sequence, and the data as its JSON
  text reads back, which for a value without \<open>undefined\<close>, NaN and infinities is the value itself.
\<close>

definition records ::
    "string \<Rightarrow> string option \<Rightarrow> stamps \<Rightarrow> nat \<Rightarrow> nat \<Rightarrow> event_input \<Rightarrow> wf_event \<Rightarrow> bool" where
  "records s key st base i ev r \<longleftrightarrow>
     we_stream r = s \<and> we_sequence r = base + i + 1 \<and> we_type r = ei_type ev \<and> we_key r = key \<and>
     we_eventId r = Some (fresh_id st i) \<and>
     Some (we_timestamp r) = (if ei_timestamp ev = None then Some (clock st) else ei_timestamp ev) \<and>
     we_operation r = ei_operation ev \<and> we_correlation r = ei_correlation ev \<and>
     we_causation r = ei_causation ev \<and>
     (json_clone (ei_data ev) = None \<longrightarrow> we_data r = JUndef) \<and>
     (\<forall>w. json_clone (ei_data ev) = Some w \<longrightarrow> we_data r = w) \<and>
     (json_plain (ei_data ev) \<longrightarrow> we_data r = ei_data ev)"

definition record_all ::
    "string \<Rightarrow> string option \<Rightarrow> stamps \<Rightarrow> nat \<Rightarrow> event_input list \<Rightarrow> wf_event list \<Rightarrow> bool" where
  "record_all s key st base events rows \<longleftrightarrow>
     length rows = length events \<and> (\<forall>i < length events. records s key st base i (events ! i) (rows ! i))"

lemma persist_records: "record_all s key st base events (persist s key st events base)"
proof -
  have "records s key st base i ev (persist_one s key st base i ev)" for i ev
    by (auto simp: records_def persist_one_def stored_data_def plain_clone split: option.split)
  then show ?thesis
    by (simp add: record_all_def persist_def nth_enumerate_eq)
qed

lemma record_all_ids: "map we_eventId (persist s key st events base) = map (\<lambda>i. Some (fresh_id st i)) [0 ..< length events]"
  by (rule nth_equalityI) (simp_all add: persist_def nth_enumerate_eq persist_one_def)

lemma persist_ids:
  "map (\<lambda>e. text_or_none (we_eventId e)) (persist s key st events base) = map (fresh_id st) [0 ..< length events]"
proof -
  have "map (\<lambda>e. text_or_none (we_eventId e)) (persist s key st events base) =
      map text_or_none (map we_eventId (persist s key st events base))" by simp
  then show ?thesis unfolding record_all_ids by (simp add: text_or_none_def)
qed

text \<open>
  C7: a committed append writes exactly the events of the call. The stream gains one row for each, in order
  and behind its old rows, and each row holds its event field by field (type, data as JSON gives it back,
  time, event id, key, operation, correlation and causation), numbered from the gate upwards without a gap;
  the answer names these sequences, ids and times. The gate advances by their number, no other stream
  changes, every stream stays sorted and below its gate, and the append only commits when the expected
  sequence, if there is one, is the gate.
\<close>

theorem committed_append_gapless:
  assumes "db_inv d" "appendSqliteLocked busy st s events key expected dl d = (Committed seqs ids ts, d')"
  shows "(\<exists>new. rows_of d' s = rows_of d s @ new \<and> record_all s key st (gate d s) events new \<and>
      ts = map we_timestamp new) \<and>
    seqs = [Suc (gate d s) ..< Suc (gate d s) + length events] \<and>
    ids = map (fresh_id st) [0 ..< length events] \<and>
    gate d' s = gate d s + length events \<and>
    (\<forall>t. t \<noteq> s \<longrightarrow> rows_of d' t = rows_of d t \<and> gate d' t = gate d t) \<and>
    db_inv d' \<and> when_given expected (\<lambda>x. x = gate d s)"
proof -
  let ?es = "persist s key st events (gate d s)"
  note c = append_committed [OF assms]
  have "seqs = map we_sequence ?es" "ids = map (fresh_id st) [0 ..< length events]" "ts = map we_timestamp ?es"
    using c(1) persist_ids [of s key st events "gate d s"] by (simp_all add: committed_def)
  then show ?thesis
    using c(2,3) persist_numbered [of "gate d s" events s key st] persist_records [of s key st "gate d s" events]
    by (auto simp: appended_def numbered_def when_given_def split: option.splits)
qed

definition plain_input :: "string \<Rightarrow> event_input" where
  "plain_input t = \<lparr>ei_type = t, ei_data = JUndef, ei_timestamp = None, ei_operation = None,
     ei_correlation = None, ei_causation = None\<rparr>"

definition some_stamps :: stamps where
  "some_stamps = \<lparr>fresh_id = (\<lambda>i. ''id'' @ nat_str i), clock = ''2026-01-01''\<rparr>"

definition two_inputs :: "event_input list" where
  "two_inputs = [plain_input ''task.created'', plain_input ''task.completed'']"

lemma first_commit:
  "\<exists>d'. appendSqliteLocked [] some_stamps ''f'' two_inputs (Some ''k'') None empty_db empty_db =
     (committed (persist ''f'' (Some ''k'') some_stamps two_inputs 0), d')"
proof -
  have v: "validateStreamId ''f''" by code_simp
  have "two_inputs \<noteq> []" by (simp add: two_inputs_def)
  from append_locked_commit [OF empty_db_inv _ v this, of "Some ''k''" empty_db None "[]" some_stamps]
  show ?thesis
    by (auto simp: lookupIdempotencyClaim_def empty_db_def claim_free_def MAX_ATTEMPTS_def
        readSequenceHighWaterMark_def)
qed

lemma committed_append_gapless_witness:
  "\<exists>ids ts d'. appendSqliteLocked [] some_stamps ''f'' two_inputs (Some ''k'') None empty_db empty_db =
     (Committed [1, 2] ids ts, d') \<and> db_inv d' \<and> gate d' ''f'' = 2"
proof -
  obtain seqs ids ts d' where a: "appendSqliteLocked [] some_stamps ''f'' two_inputs (Some ''k'') None empty_db empty_db =
      (Committed seqs ids ts, d')" using first_commit unfolding committed_def by blast
  have g: "gate empty_db ''f'' = 0" "length two_inputs = 2"
    by (simp_all add: readSequenceHighWaterMark_def empty_db_def two_inputs_def)
  from committed_append_gapless [OF empty_db_inv a] show ?thesis unfolding g by (auto simp: a upt_rec)
qed

section \<open>Retries\<close>

lemma claim_after_commit:
  assumes "db_inv d" "appendSqliteLocked busy st s events (Some k) expected dl d = (Committed seqs ids ts, d')"
  shows "lookupIdempotencyClaim d' s k = Some (claim_of (persist s (Some k) st events (gate d s)))"
  using append_committed(2) [OF assms] by (simp add: appended_def lookupIdempotencyClaim_def)

text \<open>
  C8: After a keyed append committed, a call with the same key returns the sequences, ids and
  timestamps of the first call and writes nothing, whatever events and expectation it brings. This
  holds also for a call that looked the key up before the first one committed and loses the race in
  its own transaction, when it expects no sequence and gets the lock.
\<close>

theorem keyed_retry_returns_first:
  assumes "db_inv d" "appendSqliteLocked busy st s events (Some k) expected dl d = (Committed seqs ids ts, d')"
    and "lookupIdempotencyClaim d'' s k = lookupIdempotencyClaim d' s k" "events' \<noteq> []"
  shows "appendSqliteLocked busy' st' s events' (Some k) expected' d'' d'' =
      (CacheHit seqs ids ts (persist s (Some k) st events (gate d s)), d'') \<and>
    (\<not> lock_held busy' \<longrightarrow>
      appendSqliteLocked busy' st' s events' (Some k) None dl d'' =
        (CacheHit seqs ids ts (persist s (Some k) st events (gate d s)), d''))"
proof -
  let ?c = "claim_of (persist s (Some k) st events (gate d s))"
  note c = append_committed [OF assms(1,2)]
  have claim: "lookupIdempotencyClaim d'' s k = Some ?c"
    unfolding assms(3) by (rule claim_after_commit [OF assms(1,2)])
  have hit: "cache_hit ?c = CacheHit seqs ids ts (persist s (Some k) st events (gate d s))"
    using c(1) by (simp add: cache_hit_claim_of committed_def)
  have taken: "\<not> claim_free d'' s (Some k)"
    using claim by (auto simp: lookupIdempotencyClaim_def claim_free_def split: option.splits)
  have fin: "finalize_batch s (Some k) st' events' (gate d'' s) =
      (persist s (Some k) st' events' (gate d'' s), Some (claim_of (persist s (Some k) st' events' (gate d'' s))))"
    by (simp add: finalize_batch_parts)
  have lost: "append_txn s (Some k) (length events') None (finalize_batch s (Some k) st' events') d'' = Inl ClaimConflict"
    by (rule append_txn_claim_conflict [of None d'' s "finalize_batch s (Some k) st' events'", OF _ fin taken]) simp
  have "atomicAppend busy' s (Some k) (length events') None (finalize_batch s (Some k) st' events') d'' = Inl ClaimConflict"
    if "\<not> lock_held busy'"
    using that assms(4) by (auto simp: atomicAppend_def with_busy_retry_cases lost)
  then show ?thesis
    using c(4-8) assms(4) claim hit by (simp add: appendSqliteLocked_def translateAtomicAppendError_def)
qed

lemma keyed_retry_returns_first_witness:
  "\<exists>d' ids ts es. appendSqliteLocked [] some_stamps ''f'' [plain_input ''other''] (Some ''k'') (Some 7) d' d' =
     (CacheHit [1, 2] ids ts es, d')"
proof -
  obtain d' where a: "appendSqliteLocked [] some_stamps ''f'' two_inputs (Some ''k'') None empty_db empty_db =
      (committed (persist ''f'' (Some ''k'') some_stamps two_inputs 0), d')" using first_commit by blast
  have seqs: "map we_sequence (persist ''f'' (Some ''k'') some_stamps two_inputs 0) = [1, 2]"
    using persist_numbered [of 0 two_inputs "''f''" "Some ''k''" some_stamps]
    by (simp add: numbered_def two_inputs_def upt_rec)
  from keyed_retry_returns_first [OF empty_db_inv a [unfolded committed_def seqs], of d' "[plain_input ''other'']"
      "[]" some_stamps "Some 7"]
  show ?thesis by auto
qed

section \<open>Optimistic concurrency\<close>

lemma decide_unfold:
  assumes "resolveStreamReducer reg i = Inr r" "fn (fold_stream r (rows_of dr s)) (tail_version (rows_of dr s)) = p" "p \<noteq> []"
  shows "decide reg busy st s i fn opts dr dl d =
    (case append_keyed busy st s p (decide_key ''decide'' s i st (length p) (do_operationId opts))
            (Some (tail_version (rows_of dr s))) dl d of
       (x, d') \<Rightarrow> (translateDecideResult x s i (do_operationId opts), d'))"
  using assms by (simp add: decide_def commit_decision_def Let_def)

text \<open>
  C11: A decision that produces events for a valid stream, under a fresh key and with the lock free,
  commits exactly when the gate at the time of its transaction is the version of the rows that it
  folded; it then appends exactly its events, each row holding its event field by field under that key, and
  changes no other stream. Otherwise it raises a concurrency error with the two versions and writes nothing.
\<close>

theorem decide_commits_iff_current:
  assumes inv: "db_inv d" and r: "resolveStreamReducer reg i = Inr r" and s: "s \<noteq> ''''" "validateStreamId s"
    and p: "fn (fold_stream r (rows_of dr s)) (tail_version (rows_of dr s)) = p" "p \<noteq> []"
    and key: "decide_key ''decide'' s i st (length p) (do_operationId opts) = k" "k \<noteq> ''''"
    and miss: "lookupIdempotencyClaim dl s k = None" and free: "claim_free d s (Some k)" and lock: "\<not> lock_held busy"
  shows "if gate d s = tail_version (rows_of dr s)
    then \<exists>res d'. decide reg busy st s i fn opts dr dl d = (Inr res, d') \<and> dr_kind res = KCommitted \<and>
      (\<exists>new. rows_of d' s = rows_of d s @ new \<and> record_all s (Some k) st (gate d s) p new \<and>
        dr_sequences res = map we_sequence new \<and> dr_timestamps res = map we_timestamp new) \<and>
      (\<forall>t. t \<noteq> s \<longrightarrow> rows_of d' t = rows_of d t)
    else decide reg busy st s i fn opts dr dl d =
      (Inl (ConcurrencyError s i (tail_version (rows_of dr s)) (gate d s) (do_operationId opts)), d)"
proof (cases "gate d s = tail_version (rows_of dr s)")
  case True
  let ?es = "persist s (Some k) st p (gate d s)"
  obtain d' where a: "appendSqliteLocked busy st s p (Some k) (Some (gate d s)) dl d = (committed ?es, d')"
    using append_locked_commit [OF inv s p(2) _ _ free _ lock, of dl "Some (gate d s)" st] key(2) miss by auto
  have new: "rows_of d' s = rows_of d s @ ?es" "\<forall>t. t \<noteq> s \<longrightarrow> rows_of d' t = rows_of d t"
    using append_committed(2) [OF inv a [unfolded committed_def]] by (simp_all add: appended_def)
  have "decide reg busy st s i fn opts dr dl d =
      (translateDecideResult (committed ?es) s i (do_operationId opts), d')"
    unfolding decide_unfold [where reg = reg and fn = fn, OF r p] key(1) append_keyed_def True [symmetric] a by simp
  then show ?thesis using True new persist_records [of s "Some k" st "gate d s" p]
    by (simp add: translateDecideResult_def committed_def)
next
  case False
  have "append_txn s (Some k) (length p) (Some (tail_version (rows_of dr s))) (finalize_batch s (Some k) st p) d =
      Inl (SequenceGateConflict (tail_version (rows_of dr s)) (gate d s))"
    using append_txn_gate_conflict [of "Some (tail_version (rows_of dr s))" d s] False
    by (simp add: or_zero_def)
  then have "atomicAppend busy s (Some k) (length p) (Some (tail_version (rows_of dr s))) (finalize_batch s (Some k) st p) d =
      Inl (SequenceGateConflict (tail_version (rows_of dr s)) (gate d s))"
    using lock p(2) by (auto simp: atomicAppend_def with_busy_retry_cases)
  then have "appendSqliteLocked busy st s p (Some k) (Some (tail_version (rows_of dr s))) dl d =
      (Failed (SequenceConflict (tail_version (rows_of dr s)) (gate d s)), d)"
    using s p(2) key(2) miss by (simp add: appendSqliteLocked_def)
  then have "decide reg busy st s i fn opts dr dl d =
      (Inl (ConcurrencyError s i (tail_version (rows_of dr s)) (gate d s) (do_operationId opts)), d)"
    unfolding decide_unfold [where reg = reg and fn = fn, OF r p] key(1) append_keyed_def
    by (simp add: translateDecideResult_def)
  with False show ?thesis by simp
qed

definition count_reducer :: "nat reducer" where
  "count_reducer = \<lparr>rd_id = ''count@v1'', rd_initial = 0, rd_apply = (\<lambda>n _. n + 1)\<rparr>"

definition once_options :: "string \<Rightarrow> decide_options" where
  "once_options i = \<lparr>do_operationId = Some i, do_enforce = True\<rparr>"

lemma decide_commits_iff_current_witness:
  "\<exists>res d'. decide [(''count@v1'', count_reducer)] [] some_stamps ''f'' ''count@v1''
     (\<lambda>n v. [plain_input ''task.created'']) (once_options ''op'') empty_db empty_db empty_db = (Inr res, d') \<and>
     dr_kind res = KCommitted"
proof -
  have v: "validateStreamId ''f''" by code_simp
  have e: "gate empty_db ''f'' = tail_version (rows_of empty_db ''f'')"
    by (simp add: readSequenceHighWaterMark_def empty_db_def rows_of_def list_at_def tail_version_def)
  from decide_commits_iff_current [OF empty_db_inv, of "[(''count@v1'', count_reducer)]" "''count@v1''" count_reducer
      "''f''" "\<lambda>n v. [plain_input ''task.created'']" empty_db "[plain_input ''task.created'']" some_stamps
      "once_options ''op''" "''f:count@v1:op''" empty_db "[]"] v e
  show ?thesis
    by (auto simp: resolveStreamReducer_def decide_key_def once_options_def lookupIdempotencyClaim_def empty_db_def
        claim_free_def MAX_ATTEMPTS_def)
qed

text \<open>
  Once every row of a stream with a positive gate is pruned, the stream takes no decision any
  more: every decision that produces events on the pruned tables fails with a concurrency error
  against version zero, because the gate keeps its mark while the fold sees no rows.
\<close>

theorem pruned_stream_takes_no_decision:
  assumes inv: "db_inv d" and pos: "0 < gate d s" and s: "s \<noteq> ''''" "validateStreamId s"
    and all: "\<forall>e \<in> set (rows_of d s). \<not> str_le before (we_timestamp e)"
    and r: "resolveStreamReducer reg i = Inr r" and p: "fn (rd_initial r) 0 \<noteq> []"
    and key: "decide_key ''decide'' s i st (length (fn (rd_initial r) 0)) (do_operationId opts) = k" "k \<noteq> ''''"
    and miss: "lookupIdempotencyClaim d s k = None" and lock: "\<not> lock_held busy"
  defines "x \<equiv> fst (db_pruneEvents s before d)"
  shows "decide reg busy st s i fn opts x x x = (Inl (ConcurrencyError s i 0 (gate d s) (do_operationId opts)), x)"
proof -
  have rows: "rows_of x s = []"
    using all by (simp add: x_def db_pruneEvents_def Let_def rows_of_def)
  have keep: "gate x s = gate d s" "lookupIdempotencyClaim x s k = None"
    using miss by (simp_all add: x_def db_pruneEvents_def Let_def readSequenceHighWaterMark_def lookupIdempotencyClaim_def)
  have v: "tail_version (rows_of x s) = 0" "fold_stream r (rows_of x s) = rd_initial r"
    by (simp_all add: rows tail_version_def fold_stream_def)
  let ?p = "fn (rd_initial r) 0"
  have "append_txn s (Some k) (length ?p) (Some 0) (finalize_batch s (Some k) st ?p) x =
      Inl (SequenceGateConflict 0 (gate d s))"
    using append_txn_gate_conflict [of "Some 0" x s] pos keep(1) by (simp add: or_zero_def)
  then have "atomicAppend busy s (Some k) (length ?p) (Some 0) (finalize_batch s (Some k) st ?p) x =
      Inl (SequenceGateConflict 0 (gate d s))"
    using lock p by (auto simp: atomicAppend_def with_busy_retry_cases)
  then have a: "appendSqliteLocked busy st s ?p (Some k) (Some 0) x x = (Failed (SequenceConflict 0 (gate d s)), x)"
    using s p key(2) keep(2) by (simp add: appendSqliteLocked_def)
  have "fn (fold_stream r (rows_of x s)) (tail_version (rows_of x s)) = ?p" by (simp add: v)
  from decide_unfold [where reg = reg and fn = fn, OF r this p] show ?thesis
    using a key(1) by (simp add: v append_keyed_def translateDecideResult_def)
qed

definition old_row :: wf_event where
  "old_row =
     \<lparr>we_stream = ''f'', we_sequence = 1, we_timestamp = ''2025-01-01'', we_type = ''task.created'',
      we_eventId = None, we_key = None, we_operation = None, we_correlation = None, we_causation = None,
      we_data = JUndef\<rparr>"

definition one_row_db :: db where
  "one_row_db = \<lparr>db_events = [(''f'', [old_row])], db_sequences = [(''f'', 1)], db_claims = [], db_states = []\<rparr>"

lemma one_row_inv: "db_inv one_row_db"
  by (simp add: db_inv_def one_row_db_def rows_of_def list_at_def seq_sorted_def readSequenceHighWaterMark_def
      old_row_def)

lemma pruned_stream_takes_no_decision_witness:
  "\<exists>x. x = fst (db_pruneEvents ''f'' ''2026-01-01'' one_row_db) \<and>
     decide [(''count@v1'', count_reducer)] [] some_stamps ''f'' ''count@v1'' (\<lambda>n v. [plain_input ''task.created''])
       (once_options ''op'') x x x =
     (Inl (ConcurrencyError ''f'' ''count@v1'' 0 1 (Some ''op'')), x)"
proof -
  have v: "validateStreamId ''f''" by code_simp
  have g: "gate one_row_db ''f'' = 1" by (simp add: one_row_db_def readSequenceHighWaterMark_def)
  have old: "\<forall>e \<in> set (rows_of one_row_db ''f''). \<not> str_le ''2026-01-01'' (we_timestamp e)"
    by (simp add: one_row_db_def rows_of_def list_at_def old_row_def Let_def)
  from pruned_stream_takes_no_decision [OF one_row_inv _ _ v old, of "[(''count@v1'', count_reducer)]" "''count@v1''"
      count_reducer "\<lambda>n v. [plain_input ''task.created'']" some_stamps "once_options ''op''" "''f:count@v1:op''" "[]"] g
  show ?thesis
    by (auto simp: resolveStreamReducer_def decide_key_def once_options_def lookupIdempotencyClaim_def one_row_db_def
        MAX_ATTEMPTS_def)
qed

section \<open>Operations decided once\<close>

lemma insert_rows_claims: "insert_rows s es d = Inr d' \<Longrightarrow> db_claims d' = db_claims d"
  by (induction es arbitrary: d) (auto simp: bind_result_def insertEventStrict_def split: sum.splits if_splits)

lemma once_txn_claim:
  assumes "decide_once_txn operationId digest dec d = Inr (out, d')"
  shows "lookupOperationClaim d' operationId = Some (on_claim out) \<and> oc_digest (on_claim out) = digest"
proof (cases "lookupOperationClaim d operationId")
  case (Some c)
  then show ?thesis using assms by (auto simp: decide_once_txn_def split: if_splits)
next
  case None
  then show ?thesis
    using assms
    by (auto simp: decide_once_txn_def Let_def bind_result_def insertClaim_def lookupOperationClaim_def
        dest!: insert_rows_claims split: if_splits sum.splits prod.splits option.splits)
qed

text \<open>
  After an operation was decided, every later call under the same operation id returns the
  result of the first one without running its closure and without a write, when it brings the same
  request digest; with another digest it is refused, also without a write.
\<close>

theorem operation_decided_once:
  assumes "decideOnce busy st operationId digest closure d d = (Inr res, d')" "digest' \<noteq> ''''"
    and "lookupOperationClaim d'' operationId = lookupOperationClaim d' operationId"
  shows "decideOnce busy' st' operationId digest' closure' d'' d'' =
    (if digest' = digest then Inr res else Inl (OperationDigestMismatch operationId digest digest'), d'')"
proof -
  have ids: "operationId \<noteq> ''''" "digest \<noteq> ''''" using assms(1) by (auto simp: decideOnce_def split: if_splits)
  have "\<exists>c. lookupOperationClaim d' operationId = Some c \<and> oc_digest c = digest \<and> oc_result c = res"
  proof (cases "lookupOperationClaim d operationId")
    case (Some c)
    then show ?thesis using assms(1) ids by (auto simp: decideOnce_def split: if_splits)
  next
    case None
    then obtain out where "atomicDecideOnce busy operationId digest (\<lambda>x. to_decision st (closure x)) d = Inr (out, d')"
      "res = oc_result (on_claim out)"
      using assms(1) ids by (auto simp: decideOnce_def split: sum.splits prod.splits)
    then show ?thesis
      using once_txn_claim by (auto simp: atomicDecideOnce_def with_busy_retry_cases split: if_splits)
  qed
  then show ?thesis using ids assms(2,3) by (auto simp: decideOnce_def)
qed

definition create_once :: "db \<Rightarrow> once_decision" where
  "create_once d = \<lparr>od_stream = ''f'', od_events = [plain_input ''workflow.started''], od_result = JStr ''done'',
     od_expected = Some 0\<rparr>"

lemma create_once_commits: "\<exists>d'. decideOnce [] some_stamps ''op'' ''sha'' create_once empty_db empty_db = (Inr (JStr ''done''), d')"
proof -
  have "fst (decideOnce [] some_stamps ''op'' ''sha'' create_once empty_db empty_db) = Inr (JStr ''done'')"
    by code_simp
  then show ?thesis by (metis prod.collapse)
qed

lemma operation_decided_once_witness:
  "\<exists>d'. decideOnce [] some_stamps ''op'' ''other'' create_once d' d' =
     (Inl (OperationDigestMismatch ''op'' ''sha'' ''other''), d')"
proof -
  obtain d' where "decideOnce [] some_stamps ''op'' ''sha'' create_once empty_db empty_db = (Inr (JStr ''done''), d')"
    using create_once_commits by blast
  from operation_decided_once [OF this, of "''other''" d' "[]" some_stamps create_once] show ?thesis by auto
qed

section \<open>Repair of the gate\<close>

lemma fold_repair:
  defines "step \<equiv> \<lambda>r. upsertSequenceMonotonic (sr_stream r) (sr_tail r)"
  shows "rows_of (fold step rs d) s = rows_of d s"
    and "gate d s \<le> gate (fold step rs d) s"
    and "r \<in> set rs \<Longrightarrow> sr_tail r \<le> gate (fold step rs d) (sr_stream r)"
proof -
  have one: "gate d s \<le> gate (step a d) s" for a d s
    by (simp add: step_def upsertSequenceMonotonic_def)
  have mono: "gate d s \<le> gate (fold step rs d) s" for rs d s
    by (induction rs arbitrary: d) (auto intro: order_trans [OF one])
  show "gate d s \<le> gate (fold step rs d) s" by (rule mono)
  show "rows_of (fold step rs d) s = rows_of d s"
    by (induction rs arbitrary: d) (simp_all add: step_def upsertSequenceMonotonic_def)
  show "r \<in> set rs \<Longrightarrow> sr_tail r \<le> gate (fold step rs d) (sr_stream r)"
  proof (induction rs arbitrary: d)
    case (Cons a rs)
    have "sr_tail a \<le> gate (step a d) (sr_stream a)" by (simp add: step_def upsertSequenceMonotonic_def)
    with Cons mono [where rs = rs and d = "step a d" and s = "sr_stream a"] show ?case by (auto intro: order_trans)
  qed simp
qed

lemma foldl_max_bound: "x \<in> set xs \<Longrightarrow> x \<le> foldl max (z::nat) xs"
proof (induction xs arbitrary: z)
  case (Cons a xs)
  have up: "z' \<le> foldl max z' ys" for z' :: nat and ys
    by (induction ys arbitrary: z') (auto intro: order_trans [OF max.cobounded1])
  show ?case
  proof (cases "x = a")
    case True
    then show ?thesis using order_trans [OF max.cobounded2 up [of "max z a" xs]] by simp
  qed (use Cons in simp)
qed simp

text \<open>
  The repair at start-up leaves no stored event above the gate of its stream, never lowers a
  gate and changes no row, whatever the tables held before.
\<close>

theorem repair_raises_gates:
  fixes d
  defines "d' \<equiv> fst (repairSequenceHighWaterMarks d)"
  shows "(\<forall>s. \<forall>e \<in> set (rows_of d' s). we_sequence e \<le> gate d' s) \<and>
    (\<forall>s. gate d s \<le> gate d' s) \<and> (\<forall>s. rows_of d' s = rows_of d s)"
proof -
  let ?rs = "filter (\<lambda>r. sr_gate r < sr_tail r) (divergences d)"
  have d': "d' = fold (\<lambda>r. upsertSequenceMonotonic (sr_stream r) (sr_tail r)) ?rs d"
    by (simp add: d'_def repairSequenceHighWaterMarks_def Let_def)
  have rows: "rows_of d' s = rows_of d s" and mono: "gate d s \<le> gate d' s" for s
    unfolding d' by (rule fold_repair(1), rule fold_repair(2))
  have "we_sequence e \<le> gate d' s" if e: "e \<in> set (rows_of d s)" for e s
  proof -
    let ?tail = "foldl max 0 (map we_sequence (rows_of d s))"
    have le: "we_sequence e \<le> ?tail" using e by (intro foldl_max_bound) simp
    show ?thesis
    proof (cases "gate d s < ?tail")
      case True
      have "(s, rows_of d s) \<in> set (db_events d)"
        using e by (auto simp: rows_of_def list_at_def dest: map_of_SomeD split: option.splits)
      then have "\<lparr>sr_stream = s, sr_gate = gate d s, sr_tail = ?tail\<rparr> \<in> set ?rs"
        using True e by (force simp: divergences_def List.map_filter_def Let_def)
      from fold_repair(3) [OF this, of d] le show ?thesis unfolding d' by simp
    next
      case False
      then show ?thesis using le mono [of s] by linarith
    qed
  qed
  with rows mono show ?thesis by simp
qed

lemma repair_raises_gates_witness:
  "6 \<le> gate (fst (repairSequenceHighWaterMarks
     \<lparr>db_events = [(''f'', [old_row\<lparr>we_sequence := 6\<rparr>])], db_sequences = [(''f'', 2)], db_claims = [], db_states = []\<rparr>)) ''f''"
  (is "6 \<le> gate (fst (repairSequenceHighWaterMarks ?d)) ''f''")
proof -
  have "old_row\<lparr>we_sequence := 6\<rparr> \<in> set (rows_of (fst (repairSequenceHighWaterMarks ?d)) ''f'')"
    using repair_raises_gates [of ?d] by (simp add: rows_of_def list_at_def)
  then show ?thesis using repair_raises_gates [of ?d] by fastforce
qed

end
