(* ===== verification/Backend_Laws.thy ===== *)
theory Backend_Laws
  imports Sqlite_Store
begin

text \<open>
  The two storage backends side by side: the same appends leave the same streams, and the places
  where they part (pruning and prefix queries); and the memory backend's own contracts: the outbox
  drains in order, states change by compare-and-set, and snapshots keep the latest.
\<close>

section \<open>Agreement\<close>

definition agree :: "memory \<Rightarrow> db \<Rightarrow> bool" where
  "agree m d \<longleftrightarrow>
     memory_inv m \<and> db_inv d \<and>
     (\<forall>s. rows_of d s = map (with_data stored_data) (list_at (m_events m) s) \<and>
       m_getSequence m s = readSequenceHighWaterMark d s)"

lemma agree_empty: "agree empty_memory empty_db"
  unfolding agree_def
  by (intro conjI allI empty_memory_inv empty_db_inv)
    (simp_all add: empty_memory_def empty_db_def rows_of_def list_at_def m_getSequence_def
      readSequenceHighWaterMark_def)

lemma agree_append:
  assumes "agree m d" "m_getSequence m s < we_sequence e"
  shows "agree (m_appendEvent s e m) (db_appendEvent s e d)"
proof -
  have inv: "memory_inv m" "db_inv d" and same: "\<And>t. rows_of d t = map (with_data stored_data) (list_at (m_events m) t)"
    and tails: "\<And>t. m_getSequence m t = readSequenceHighWaterMark d t"
    using assms(1) by (auto simp: agree_def)
  have lt: "readSequenceHighWaterMark d s < we_sequence e" using assms(2) tails by simp
  have other: "readSequenceHighWaterMark (db_appendEvent s e d) t = readSequenceHighWaterMark d t" if "t \<noteq> s" for t
    using that by (simp add: db_appendEvent_def insertEvent_def)
  have "rows_of (db_appendEvent s e d) t = map (with_data stored_data) (list_at (m_events (m_appendEvent s e m)) t)" for t
    using mem.append_same [OF inv(1) assms(2)] sqlite.append_same [OF inv(2) lt] same
      mem.append_other [of t s e m] sqlite.append_other [of t s e d]
    by (cases "t = s") (simp_all add: with_data_same)
  moreover have "m_getSequence (m_appendEvent s e m) t = readSequenceHighWaterMark (db_appendEvent s e d) t" for t
    using mem.append_tail [of s e m] sqlite.append_tail [of s e d] other [of t] tails [of t]
    by (cases "t = s") (simp_all add: m_getSequence_def m_appendEvent_def)
  ultimately show ?thesis
    using mem.append_inv [OF inv(1) assms(2)] sqlite.append_inv [OF inv(2) lt] by (simp add: agree_def)
qed

text \<open>A list of appends, each above the tail that its stream then has.\<close>

fun fresh_appends :: "memory \<Rightarrow> (string \<times> wf_event) list \<Rightarrow> bool" where
  "fresh_appends m [] = True"
| "fresh_appends m ((s, e) # es) \<longleftrightarrow>
     m_getSequence m s < we_sequence e \<and> fresh_appends (m_appendEvent s e m) es"

lemma agree_fold:
  "agree m d \<Longrightarrow> fresh_appends m es \<Longrightarrow>
   agree (fold (\<lambda>(s, e). m_appendEvent s e) es m) (fold (\<lambda>(s, e). db_appendEvent s e) es d)"
  by (induction m es arbitrary: d rule: fresh_appends.induct) (simp_all add: agree_append)

text \<open>
  C10: after any interleaving of appends to any streams, each with a sequence above its stream's tail, the
  memory backend and the SQLite backend answer every filtered query of one stream with the same events, where
  SQLite gives the data of each as its JSON text reads back, and report the same last sequences. When every
  payload of the stream is absent or a value that JSON keeps, the two answers are equal.
\<close>

theorem backends_agree:
  assumes "agree m d" "fresh_appends m es"
  defines "m' \<equiv> fold (\<lambda>(s, e). m_appendEvent s e) es m"
    and "d' \<equiv> fold (\<lambda>(s, e). db_appendEvent s e) es d"
  shows "db_queryEvents d' t f = map (with_data stored_data) (m_queryEvents m' t f) \<and>
    m_getSequence m' t = db_getSequence d' t \<and>
    ((\<forall>e \<in> set (list_at (m_events m') t). we_data e = JUndef \<or> json_plain (we_data e)) \<longrightarrow>
      m_queryEvents m' t f = db_queryEvents d' t f)"
proof -
  have "agree m' d'" unfolding m'_def d'_def by (rule agree_fold [OF assms(1,2)])
  then have rows: "rows_of d' t = map (with_data stored_data) (list_at (m_events m') t)"
    and tails: "m_getSequence m' t = readSequenceHighWaterMark d' t" by (simp_all add: agree_def)
  have "map (with_data stored_data) (list_at (m_events m') t) = list_at (m_events m') t"
    if "\<forall>e \<in> set (list_at (m_events m') t). we_data e = JUndef \<or> json_plain (we_data e)"
  proof (intro map_idI with_data_same)
    fix e assume "e \<in> set (list_at (m_events m') t)"
    then have "we_data e = JUndef \<or> json_plain (we_data e)" using that by blast
    then show "stored_data (we_data e) = we_data e"
    proof
      assume "we_data e = JUndef"
      then show ?thesis by (simp add: stored_data_def)
    qed (rule stored_plain)
  qed
  with rows tails show ?thesis
    by (simp add: m_queryEvents_eq db_queryEvents_def db_getSequence_def run_query_with_data)
qed

definition row :: "string \<Rightarrow> nat \<Rightarrow> string \<Rightarrow> wf_event" where
  "row s n t =
     \<lparr>we_stream = s, we_sequence = n, we_timestamp = t, we_type = ''task.created'', we_eventId = None,
      we_key = None, we_operation = None, we_correlation = None, we_causation = None, we_data = JUndef\<rparr>"

lemma backends_agree_witness:
  "m_queryEvents (m_appendEvent ''f'' (row ''f'' 3 ''t'') empty_memory) ''f'' (type_filter ''task.created'') =
   db_queryEvents (db_appendEvent ''f'' (row ''f'' 3 ''t'') empty_db) ''f'' (type_filter ''task.created'')"
proof -
  have fresh: "fresh_appends empty_memory [(''f'', row ''f'' 3 ''t'')]"
    by (simp add: m_getSequence_def empty_memory_def list_at_def row_def)
  have plain: "\<forall>e \<in> set (list_at (m_events (m_appendEvent ''f'' (row ''f'' 3 ''t'') empty_memory)) ''f'').
      we_data e = JUndef \<or> json_plain (we_data e)"
    by (simp only: m_events_append) (simp add: empty_memory_def list_at_def row_def)
  show ?thesis
    by (rule backends_agree [OF agree_empty fresh, unfolded fold_simps id_apply prod.case, THEN conjunct2, THEN conjunct2,
        rule_format, OF plain [rule_format]])
qed

text \<open>A payload that JSON does not keep: memory answers with it, SQLite with \<open>null\<close> in the place of NaN.\<close>

lemma backends_differ_on_nan:
  "map we_data (m_queryEvents (m_appendEvent ''f'' ((row ''f'' 1 ''t'')\<lparr>we_data := JObj [(''n'', JNum NaN)]\<rparr>)
     empty_memory) ''f'' no_filters) = [JObj [(''n'', JNum NaN)]] \<and>
   map we_data (db_queryEvents (db_appendEvent ''f'' ((row ''f'' 1 ''t'')\<lparr>we_data := JObj [(''n'', JNum NaN)]\<rparr>)
     empty_db) ''f'' no_filters) = [JObj [(''n'', JNull)]]"
  by code_simp

section \<open>Where they part\<close>

text \<open>
  Pruning every event of a stream makes the two backends disagree on its last sequence: memory
  starts over at zero and would hand out sequence numbers again, SQLite keeps the mark.
\<close>

theorem prune_splits_backends:
  "let m = m_appendEvent ''f'' (row ''f'' 1 ''2025'') empty_memory;
       d = db_appendEvent ''f'' (row ''f'' 1 ''2025'') empty_db
   in agree m d \<and>
      m_getSequence (fst (m_pruneEvents ''f'' ''2026'' m)) ''f'' = 0 \<and>
      db_getSequence (fst (db_pruneEvents ''f'' ''2026'' d)) ''f'' = 1"
proof -
  have "agree (m_appendEvent ''f'' (row ''f'' 1 ''2025'') empty_memory) (db_appendEvent ''f'' (row ''f'' 1 ''2025'') empty_db)"
    by (rule agree_append [OF agree_empty]) (simp add: m_getSequence_def empty_memory_def list_at_def row_def)
  moreover have "m_getSequence (fst (m_pruneEvents ''f'' ''2026'' (m_appendEvent ''f'' (row ''f'' 1 ''2025'') empty_memory))) ''f'' = 0"
    "db_getSequence (fst (db_pruneEvents ''f'' ''2026'' (db_appendEvent ''f'' (row ''f'' 1 ''2025'') empty_db))) ''f'' = 1"
    by code_simp+
  ultimately show ?thesis by (simp add: Let_def)
qed

text \<open>
  The prefix query of SQLite returns events of a stream that is neither the prefix nor under it,
  which the memory backend does not: an underscore in the prefix matches any character, and letters
  match in either case.
\<close>

theorem prefix_query_leaks:
  "let e = row ''MyXfeat/sub'' 1 ''2026'' in
   db_queryEventsByType (db_appendEvent ''MyXfeat/sub'' e empty_db) ''task.created'' ''my_feat'' no_filters = [e] \<and>
   m_queryEventsByType lc (m_appendEvent ''MyXfeat/sub'' e empty_memory) ''task.created'' ''my_feat'' no_filters = []"
proof -
  have "db_stream_matches ''my_feat'' ''MyXfeat/sub''" "\<not> under_prefix ''my_feat'' ''MyXfeat/sub''" by code_simp+
  then show ?thesis
    by (simp add: Let_def db_queryEventsByType_def m_queryEventsByType_def db_appendEvent_def insertEvent_def
        has_sequence_def put_row_def upsertSequence_def empty_db_def rows_of_def list_at_def empty_memory_def
        m_appendEvent_def page_def no_filters_def or_zero_def matches_def sort_by_def row_def
        with_data_def stored_data_def)
qed

section \<open>Outbox\<close>

text \<open>
  A drain of the outbox sends the longest prefix of the batch that the sender accepts, in order,
  removes exactly the sent entries from the front of the queue and leaves the rest in order; nothing
  behind a refused entry is sent.
\<close>

theorem outbox_drains_prefix:
  fixes s accepts bs m
  defines "items \<equiv> list_at (m_outbox m) s" and "out \<equiv> m_drainOutbox s accepts bs m"
  shows "list_at (m_outbox (fst out)) s = drop (fst (snd out)) items \<and>
    (\<forall>x \<in> set (take (fst (snd out)) items). accepts (ob_event x)) \<and>
    (fst (snd out) = length (case bs of None \<Rightarrow> items | Some n \<Rightarrow> take n items) \<or>
     \<not> accepts (ob_event (items ! fst (snd out))))"
proof -
  let ?batch = "case bs of None \<Rightarrow> items | Some n \<Rightarrow> take n items"
  let ?k = "drain_count accepts bs items"
  have k: "fst (snd out) = ?k" unfolding out_def items_def by (rule m_drainOutbox_eq(2))
  have rest: "list_at (m_outbox (fst out)) s = drop ?k items"
    unfolding out_def items_def by (rule m_drainOutbox_eq(1))
  have len: "?k = length (takeWhile (\<lambda>x. accepts (ob_event x)) ?batch)" by (simp add: drain_count_def)
  have le: "?k \<le> length ?batch" unfolding len by (rule length_takeWhile_le)
  have pre: "take ?k items = take ?k ?batch" using le by (cases bs) (auto simp: min_def split: if_splits)
  have "take ?k ?batch = takeWhile (\<lambda>x. accepts (ob_event x)) ?batch" unfolding len by (rule takeWhile_eq_take [symmetric])
  then have sent: "\<forall>x \<in> set (take ?k items). accepts (ob_event x)" using pre by (auto dest: set_takeWhileD)
  have "?k = length ?batch \<or> \<not> accepts (ob_event (items ! ?k))"
  proof (cases "?k < length ?batch")
    case True
    then have "\<not> accepts (ob_event (?batch ! ?k))" unfolding len by (rule nth_length_takeWhile)
    moreover have "?batch ! ?k = items ! ?k" using True by (cases bs) simp_all
    ultimately show ?thesis by simp
  qed (use le in simp)
  then show ?thesis using k rest sent by simp
qed

text \<open>Three waiting entries, the second of which the sender refuses.\<close>

definition waiting_memory :: memory where
  "waiting_memory =
     fst (m_addOutboxEntry ''f'' (row ''f'' 3 ''2026'')
       (fst (m_addOutboxEntry ''f'' (row ''f'' 2 ''2026'')
         (fst (m_addOutboxEntry ''f'' (row ''f'' 1 ''2026'') empty_memory)))))"

lemma outbox_drains_prefix_witness:
  "list_at (m_outbox (fst (m_drainOutbox ''f'' (\<lambda>e. we_sequence e \<noteq> 2) None waiting_memory))) ''f'' =
     drop 1 (list_at (m_outbox waiting_memory) ''f'') \<and>
   we_sequence (ob_event (list_at (m_outbox waiting_memory) ''f'' ! 1)) = 2"
proof -
  let ?out = "m_drainOutbox ''f'' (\<lambda>e. we_sequence e \<noteq> 2) None waiting_memory"
  have k: "fst (snd ?out) = 1" "length (list_at (m_outbox waiting_memory) ''f'') = 3" by code_simp+
  from outbox_drains_prefix [where m = waiting_memory and s = "''f''" and accepts = "\<lambda>e. we_sequence e \<noteq> 2" and bs = None] k show ?thesis by simp
qed

section \<open>Snapshots\<close>

lemma max_snapshot_unique:
  assumes "r \<in> set rs" "\<forall>x \<in> set rs. x \<noteq> r \<longrightarrow> sn_sequence x < sn_sequence r" "rs = a # as"
  shows "latest_snapshot a as = r"
proof -
  have "latest_snapshot a as \<in> set rs" "sn_sequence r \<le> sn_sequence (latest_snapshot a as)"
    using latest_snapshot_max [of a as] assms(1,3) by auto
  with assms(2) show ?thesis by force
qed

text \<open>
  A snapshot that is newer than every stored one of its projection is the one that a read then
  returns, and the cap on the records holds after the append, whatever the environment and the
  caller set it to.
\<close>

theorem snapshot_append_read:
  fixes m r s
  defines "old \<equiv> list_at (m_snapshots m) (snapshot_key s (sn_projection r) (sn_version r))"
  assumes "\<forall>x \<in> set old. sn_sequence x < sn_sequence r"
  shows "m_readLatestSnapshot (m_appendSnapshot env n s r m) s (sn_projection r) (sn_version r) = Some r \<and>
    length (list_at (m_snapshots (m_appendSnapshot env n s r m)) (snapshot_key s (sn_projection r) (sn_version r)))
      \<le> snapshot_cap env n"
proof -
  let ?new = "prune_snapshots (snapshot_cap env n) (old @ [r])"
  have app: "list_at (m_snapshots (m_appendSnapshot env n s r m)) (snapshot_key s (sn_projection r) (sn_version r)) = ?new"
    using assms(2) by (auto simp: m_appendSnapshot_def Let_def old_def)
  obtain x where x: "x \<in> set ?new" "sn_sequence x = sn_sequence r"
    using prune_snapshots_keeps_max [OF snapshot_cap_pos, of r "old @ [r]"] assms(2) by force
  have sub: "\<forall>y \<in> set ?new. y \<noteq> r \<longrightarrow> sn_sequence y < sn_sequence r"
    using prune_snapshots_subset [of "snapshot_cap env n" "old @ [r]"] assms(2) by auto
  with x have mem: "r \<in> set ?new" by force
  then obtain a as where "?new = a # as" by (cases ?new) auto
  with max_snapshot_unique [OF mem sub] show ?thesis
    using prune_snapshots_cap [of "snapshot_cap env n" "old @ [r]"] app by (simp add: m_readLatestSnapshot_def)
qed

definition snap :: "nat \<Rightarrow> snapshot" where
  "snap n = \<lparr>sn_projection = ''rehydration@v1'', sn_version = ''1'', sn_sequence = n, sn_state = JNull,
     sn_timestamp = ''2026''\<rparr>"

lemma snapshot_append_read_witness:
  "m_readLatestSnapshot (m_appendSnapshot None (Some 1) ''f'' (snap 2)
     (m_appendSnapshot None (Some 1) ''f'' (snap 1) empty_memory)) ''f'' ''rehydration@v1'' ''1'' = Some (snap 2)"
proof -
  have "\<forall>x \<in> set (list_at (m_snapshots (m_appendSnapshot None (Some 1) ''f'' (snap 1) empty_memory))
      (snapshot_key ''f'' (sn_projection (snap 2)) (sn_version (snap 2)))). sn_sequence x < sn_sequence (snap 2)"
    by (simp add: m_appendSnapshot_def empty_memory_def list_at_def snap_def prune_snapshots_def snapshot_cap_def Let_def)
  from snapshot_append_read [OF this, of None "Some 1"] show ?thesis by (simp add: snap_def)
qed

section \<open>Compare and set\<close>

text \<open>
  Both backends store a state under an expected version exactly when it is the stored version
  (zero when there is none), then raise the version by one and leave every other feature alone; with any
  other expectation they report a conflict that names both versions. Memory keeps the state itself, SQLite
  what its JSON text reads back.
\<close>

theorem state_compare_and_set:
  fixes m :: memory and d :: db
  assumes "map_option en_version (map_of (m_states m) i) = map_option en_version (map_of (db_states d) i)"
  shows "case m_setState i st (Some x) m of
      Inr m' \<Rightarrow> num_eq (current_version (map_of (m_states m) i)) x \<and>
        map_of (m_states m') = (map_of (m_states m))
          (i \<mapsto> \<lparr>en_state = st, en_version = num_add1 (current_version (map_of (m_states m) i))\<rparr>) \<and>
        (\<exists>d'. db_setState i st (Some x) d = Inr d' \<and> map_of (db_states d') = (map_of (db_states d))
          (i \<mapsto> \<lparr>en_state = json_fields st, en_version = num_add1 (current_version (map_of (m_states m) i))\<rparr>))
    | Inl e \<Rightarrow> \<not> num_eq (current_version (map_of (m_states m) i)) x \<and>
        e = VersionConflict i x (current_version (map_of (m_states m) i)) \<and> db_setState i st (Some x) d = Inl e"
proof -
  have "current_version (map_of (db_states d) i) = current_version (map_of (m_states m) i)"
    using assms by (auto simp: current_version_def split: option.splits)
  then show ?thesis
    by (auto simp: m_setState_cases db_setState_def Let_def next_version_def split: sum.split option.split)
qed

lemma state_compare_and_set_witness:
  "\<exists>m'. m_setState ''f'' [] (Some (Fin 0)) empty_memory = Inr m' \<and>
     map_of (m_states m') ''f'' = Some \<lparr>en_state = [], en_version = Fin 1\<rparr>"
proof -
  have "map_option en_version (map_of (m_states empty_memory) ''f'') =
      map_option en_version (map_of (db_states empty_db) ''f'')" by (simp add: empty_memory_def empty_db_def)
  from state_compare_and_set [OF this, where st = "[]" and x = "Fin 0"] show ?thesis
    by (simp add: m_setState_cases Let_def empty_memory_def current_version_def num_eq_def)
qed

end
