(* ===== verification/Attempt_Laws.thy ===== *)
theory Attempt_Laws
  imports Append_Laws Transition_Guard Policy_Laws Transition_Laws
begin

text \<open>
  What the guarded transition primitive writes: nothing for an edge that does not exist, diagnostic
  events only for a refusal, and the events of the walk, in order, for a success; and that the
  obligations of a frozen entry are owed again when the phase is entered again.
\<close>

section \<open>Single appends\<close>

lemma append_validated_ok:
  assumes "db_inv d" "append_validated env n f t data key d = (Inr q, d')"
  shows "db_inv d' \<and> (\<forall>s. s \<noteq> f \<longrightarrow> rows_of d' s = rows_of d s) \<and>
    (rows_of d' f = rows_of d f \<or> (\<exists>e. rows_of d' f = rows_of d f @ [e] \<and> we_type e = t \<and> we_sequence e = q)) \<and>
    (truthy_key key = None \<longrightarrow> (\<exists>e. rows_of d' f = rows_of d f @ [e] \<and> we_type e = t \<and> we_sequence e = q))"
proof (cases "appendSqliteLocked [] (ge_stamp env n) f [event_input_of f t data] (truthy_key key) None d d")
  case (Pair r d1)
  have valid: "ge_valid env t data" using assms(2) by (auto simp: append_validated_def split: if_splits)
  show ?thesis
  proof (cases r)
    case (Committed seqs ids ts)
    note c = append_committed [OF assms(1) Pair [unfolded Committed]]
    let ?es = "persist f (truthy_key key) (ge_stamp env n) [event_input_of f t data] (gate d f)"
    have one: "?es = [persist_one f (truthy_key key) (ge_stamp env n) (gate d f) 0 (event_input_of f t data)]"
      by (simp add: persist_def)
    have "d' = d1" "q = hd seqs" using assms(2) Pair Committed valid by (auto simp: append_validated_def)
    moreover have "seqs = map we_sequence ?es" using c(1) by (simp add: committed_def)
    ultimately show ?thesis
      using c(2) unfolding appended_def one by (simp add: persist_one_def event_input_of_def)
  next
    case (CacheHit a b c' es)
    have "d1 = d" by (rule append_locked_unchanged [OF Pair]) (simp add: CacheHit)
    moreover have "truthy_key key \<noteq> None"
    proof
      assume "truthy_key key = None"
      then show False
        using Pair CacheHit
        by (auto simp: appendSqliteLocked_def translateAtomicAppendError_def committed_def
            split: if_splits sum.splits prod.splits db_error.splits)
    qed
    ultimately show ?thesis using assms Pair CacheHit valid
      by (auto simp: append_validated_def split: list.splits)
  qed (use assms(2) Pair valid in \<open>auto simp: append_validated_def\<close>)
qed

lemma append_validated_error:
  "append_validated env n f t data key d = (Inl err, d') \<Longrightarrow> d' = d"
  by (auto simp: append_validated_def dest: append_locked_unchanged
      split: if_splits prod.splits append_result.splits)

text \<open>The rows that some appends added, by their types.\<close>

definition grown :: "db \<Rightarrow> db \<Rightarrow> string \<Rightarrow> string list \<Rightarrow> bool" where
  "grown d d' f ts \<longleftrightarrow> db_inv d' \<and> (\<forall>s. s \<noteq> f \<longrightarrow> rows_of d' s = rows_of d s) \<and>
     (\<exists>new. rows_of d' f = rows_of d f @ new \<and> map we_type new = ts)"

lemma grown_refl: "db_inv d \<Longrightarrow> grown d d f []"
  by (simp add: grown_def)

lemma grown_none: "db_inv d \<Longrightarrow> \<exists>ts. grown d d f ts \<and> set ts \<subseteq> A"
  by (rule exI [of _ "[]"]) (simp add: grown_refl)

lemma grown_trans: "grown d d1 f ts \<Longrightarrow> grown d1 d2 f us \<Longrightarrow> grown d d2 f (ts @ us)"
  by (auto simp: grown_def)

lemma append_validated_grown:
  assumes "db_inv d" "append_validated env n f t data None d = (Inr q, d')"
  shows "grown d d' f [t]"
  using append_validated_ok [OF assms] by (auto simp: grown_def truthy_key_def)

lemma append_validated_unkeyed_any:
  assumes "db_inv d" "append_validated env n f t data None d = (res, d')"
  shows "\<exists>ts. grown d d' f ts \<and> set ts \<subseteq> {t}"
proof (cases res)
  case (Inl err)
  then show ?thesis using append_validated_error assms grown_refl by fastforce
next
  case (Inr q)
  then show ?thesis using append_validated_grown assms by fastforce
qed

lemma emit_failures_grown:
  assumes "db_inv d" "emit_failures env n f g es d = (Inr (), d')"
  shows "grown d d' f (map (mapInternalToExternalType \<circ> te_type) es)"
  using assms
proof (induction es arbitrary: n d)
  case (Cons e es)
  obtain q d1 where one: "append_validated env n f (mapInternalToExternalType (te_type e))
      (buildHsmEventData e f (no_ordinals g)) None d = (Inr q, d1)"
    and rest: "emit_failures env (n + 1) f g es d1 = (Inr (), d')"
    using Cons.prems(2) by (auto split: prod.splits sum.splits)
  have g1: "grown d d1 f [mapInternalToExternalType (te_type e)]"
    by (rule append_validated_grown [OF Cons.prems(1) one])
  then have "db_inv d1" by (simp add: grown_def)
  from grown_trans [OF g1 Cons.IH [OF this rest]] show ?case by simp
qed (simp add: grown_refl)

lemma emit_events_grown:
  assumes "db_inv d" "emit_events env n f g None sq es d = (Inr sq', d')"
  shows "grown d d' f (map (mapInternalToExternalType \<circ> te_type) es)"
  using assms
proof (induction es arbitrary: n d sq)
  case (Cons e es)
  obtain q d1 where one: "append_validated env n f (mapInternalToExternalType (te_type e))
      (buildHsmEventData e f (ordinals_for d f g e)) None d = (Inr q, d1)"
    and rest: "emit_events env (n + 1) f g None
      (if te_type e \<in> set LIFECYCLE_TYPES then max sq (int q) else sq) es d1 = (Inr sq', d')"
    using Cons.prems(2) by (auto simp: event_key_def split: prod.splits sum.splits)
  have g1: "grown d d1 f [mapInternalToExternalType (te_type e)]"
    by (rule append_validated_grown [OF Cons.prems(1) one])
  then have "db_inv d1" by (simp add: grown_def)
  from grown_trans [OF g1 Cons.IH [OF this rest]] show ?case by simp
qed (simp add: grown_refl)

section \<open>What an attempt writes\<close>

lemma failed_types:
  assumes "\<not> tr_success (executeTransition h s target r fl)"
  shows "set (map (mapInternalToExternalType \<circ> te_type) (tr_events (executeTransition h s target r fl))) \<subseteq>
    {''workflow.guard-failed'', ''workflow.circuit-open'', ''phase.blocked''}"
proof (cases rule: execute_cases [of s target h r fl])
  case (guard t)
  then obtain g where "tr_events (executeTransition h s target r fl) = [guard_event (phase_of s) target g]"
    by (auto dest!: guard_refusal_Some)
  then show ?thesis by (simp add: guard_event_def mapInternalToExternalType_def typeMap_def)
next
  case (circuit t)
  from circuit_refusal_Some [OF circuit(5)]
  have "map te_type (tr_events (executeTransition h s target r fl)) = [''circuit-open'']" by blast
  then have "map (mapInternalToExternalType \<circ> te_type) (tr_events (executeTransition h s target r fl)) =
      [mapInternalToExternalType ''circuit-open'']" unfolding map_map [symmetric] by simp
  then show ?thesis by (simp add: mapInternalToExternalType_def typeMap_def)
next
  case (edge t)
  show ?thesis
  proof (cases rule: advance_cases [of h target s r fl t])
    case (blocked k m)
    then show ?thesis using edge by (simp add: blocked_result_def mapInternalToExternalType_def typeMap_def)
  qed (use assms edge in simp_all)
qed (use assms in simp_all)

section \<open>Attempts\<close>

text \<open>The three ways through an attempt: no edge to walk, a custom guard that refuses, or a walk.\<close>

lemma attempt_cases:
  assumes "attempt reg env f cur target c d = (Inr res, d')"
  obtains (same) ao where "cur = target" "res = AOk ao" "ao_emitted ao = []" "d' = d"
  | (none) ts m where "res = ANoTransition ts m" "d' = d"
  | (custom) ar tr where "res = AGuardFailed ar"
      "custom_guard_check env c f cur target tr d = Some (AGuardFailed ar, d')"
  | (failed) h g where "\<not> tr_success (executeTransition h (gc_state c) target (gc_resolver c) (floor_for c d f target))"
      "failed_walk env c f target g
         (executeTransition h (gc_state c) target (gc_resolver c) (floor_for c d f target)) d = (Inr res, d')"
  | (walked) h g where "cur \<noteq> target" "resolveHSM reg (gc_workflowType c) (gc_skipPhases c) = Inr h"
      "tr_success (executeTransition h (gc_state c) target (gc_resolver c) (floor_for c d f target))"
      "successful_walk env c f target g
         (executeTransition h (gc_state c) target (gc_resolver c) (floor_for c d f target)) d = (Inr res, d')"
proof -
  obtain h where h: "resolveHSM reg (gc_workflowType c) (gc_skipPhases c) = Inr h"
    using assms by (auto simp: attempt_def split: sum.splits)
  let ?tr = "findTransition h cur target"
  let ?x = "executeTransition h (gc_state c) target (gc_resolver c) (floor_for c d f target)"
  let ?g = "map_option gid (Option.bind ?tr tguard)"
  let ?u = "?tr = None \<and> gc_universal c \<and> isUniversalFinalTarget h target"
  show thesis
  proof (cases "cur = target")
    case True
    then show thesis using assms h same by (auto simp: attempt_def)
  next
    case diff: False
    show thesis
    proof (cases "?tr = None \<and> \<not> ?u")
      case True
      then show thesis using assms h diff none by (auto simp: attempt_def Let_def)
    next
      case go: False
      note body = assms [unfolded attempt_def h sum.case Let_def if_not_P [OF diff] if_not_P [OF go]]
      show thesis
      proof (cases "custom_guard_check env c f cur target ?tr d")
        case (Some p)
        obtain refusal d1 where p: "p = (refusal, d1)" by (cases p)
        then have "p = (res, d')" using body [unfolded Some p option.case prod.case] by simp
        moreover obtain ar where "fst p = AGuardFailed ar"
          using Some by (auto simp: custom_guard_check_def Let_def split: option.splits if_splits)
        ultimately show thesis using Some custom by (cases p) simp
      next
        case nocustom: None
        note body = body [unfolded nocustom option.case]
        show thesis
        proof (cases "tr_success ?x")
          case True
          from walked [OF diff h True body [unfolded if_P [OF True]]] show thesis .
        next
          case bad: False
          note body = body [unfolded if_not_P [OF bad]]
          show thesis
          proof (cases "?u \<and> tr_errorCode ?x = Some ''INVALID_TRANSITION''")
            case True
            from body [unfolded if_P [OF True]] none show thesis by blast
          next
            case False
            from failed [OF bad body [unfolded if_not_P [OF False]]] show thesis .
          qed
        qed
      qed
    qed
  qed
qed

lemma guard_failed_grown:
  assumes "db_inv d"
  shows "\<exists>ts. grown d (emitGuardFailed env c f a b g d) f ts \<and> set ts \<subseteq> {''workflow.guard-failed''}"
proof (cases "gc_store c")
  case True
  let ?data = "[(''from'', JStr a), (''to'', JStr b), (''guard'', JStr g), (''featureId'', JStr f)]"
  obtain res d1 where "append_validated env 0 f ''workflow.guard-failed'' ?data None d = (res, d1)" by fastforce
  with append_validated_unkeyed_any [OF assms this] True show ?thesis by (simp add: emitGuardFailed_def)
next
  case False
  with grown_none [OF assms] show ?thesis by (simp add: emitGuardFailed_def)
qed

text \<open>
  A refused attempt writes diagnostics only: whatever the workflow, the guards and the floor
  are, the rows it adds to the stream of the feature are guard-failed, circuit-open or blocked rows,
  other streams keep their rows, the store stays well-formed, and an edge that does not exist leaves
  no trace at all.
\<close>

theorem refused_attempt_writes_diagnostics:
  assumes "db_inv d" "attempt reg env f cur target c d = (Inr res, d')" "\<And>ao. res \<noteq> AOk ao"
  shows "(\<exists>ts. grown d d' f ts \<and>
      set ts \<subseteq> {''workflow.guard-failed'', ''workflow.circuit-open'', ''phase.blocked''}) \<and>
    (\<forall>ts m. res = ANoTransition ts m \<longrightarrow> d' = d)"
  using assms(2)
proof (cases rule: attempt_cases)
  case (none ts m)
  with grown_none [OF assms(1)] show ?thesis by simp
next
  case (custom ar tr)
  have "(\<exists>g. d' = emitGuardFailed env c f cur target g d) \<or> d' = d"
    using custom(2) by (auto simp: custom_guard_check_def Let_def split: option.splits if_splits)
  moreover have "\<exists>ts. grown d (emitGuardFailed env c f cur target g d) f ts \<and>
      set ts \<subseteq> {''workflow.guard-failed''}" for g by (rule guard_failed_grown [OF assms(1)])
  ultimately show ?thesis using grown_none [OF assms(1)] custom(1) by fastforce
next
  case (failed h g)
  let ?x = "executeTransition h (gc_state c) target (gc_resolver c) (floor_for c d f target)"
  have r: "\<forall>ts m. res \<noteq> ANoTransition ts m"
    using failed(2) by (auto simp: failed_walk_def split: prod.splits sum.splits)
  show ?thesis
  proof (cases "gc_store c")
    case True
    then have "emit_failures env 0 f g (tr_events ?x) d = (Inr (), d')"
      using failed(2) by (auto simp: failed_walk_def split: prod.splits sum.splits)
    from emit_failures_grown [OF assms(1) this] failed_types [OF failed(1)] r show ?thesis by blast
  next
    case False
    then have "d' = d" using failed(2) by (simp add: failed_walk_def)
    with grown_none [OF assms(1)] r show ?thesis by simp
  qed
next
  case (walked h g)
  then show ?thesis using assms(3) by (auto simp: successful_walk_def split: prod.splits sum.splits)
qed (use assms in auto)

text \<open>
  C12: A successful attempt without an idempotency suffix appends one row for each event of the walk,
  in the order of the walk and under the external name of the event, and nothing else.
\<close>

theorem attempt_appends_walk_in_order:
  assumes "db_inv d" "attempt reg env f cur target c d = (Inr (AOk ao), d')"
    and "gc_store c" "gc_suffix c = None"
  shows "grown d d' f (map (mapInternalToExternalType \<circ> te_type) (ao_emitted ao))"
  using assms(2)
proof (cases rule: attempt_cases)
  case (same ao')
  with grown_refl [OF assms(1)] show ?thesis by simp
next
  case (failed h g)
  then show ?thesis by (auto simp: failed_walk_def split: prod.splits sum.splits)
next
  case (walked h g)
  let ?x = "executeTransition h (gc_state c) target (gc_resolver c) (floor_for c d f target)"
  obtain sq where "emit_events env 0 f g None (- 1) (tr_events ?x) d = (Inr sq, d')" "ao_emitted ao = tr_events ?x"
    using walked(4) assms(3,4) by (auto simp: successful_walk_def split: prod.splits sum.splits)
  with emit_events_grown [OF assms(1) this(1)] show ?thesis by simp
qed simp_all

section \<open>Frozen obligations\<close>

lemma entered_of_success:
  assumes "tr_success (executeTransition h s target r fl)" "phase_of s \<noteq> target"
    and "type_at h target = Some (Atomic kind)"
  shows "\<exists>gates. tr_resolvedGates (executeTransition h s target r fl) = Some gates"
proof (cases rule: execute_cases [of s target h r fl])
  case cancel
  then show ?thesis using assms(3) by (auto simp: is_final_def type_at_def split: option.splits)
next
  case cleanup
  then show ?thesis using assms(3) by (auto simp: is_final_def type_at_def split: option.splits)
next
  case (guard t)
  then show ?thesis using guard_refusal_Some [OF guard(4)] assms(1) by blast
next
  case (circuit t)
  then show ?thesis using circuit_refusal_Some [OF circuit(5)] assms(1) by blast
next
  case (edge t)
  then show ?thesis using assms
    by (cases rule: advance_cases [of h target s r fl t]) (simp_all add: enter_atomic_def Let_def)
qed (use assms in simp_all)

lemma mergeFloors_parts:
  assumes "Some p \<in> set parts"
  shows "set (fl_coordinates p) \<subseteq> set (fl_coordinates (mergeFloors parts))"
    and "set (fl_gates p) \<subseteq> set (fl_gates (mergeFloors parts))"
proof -
  define step where "step \<equiv> \<lambda>(acc :: obligation_floor) (part :: obligation_floor option). (case part of None \<Rightarrow> acc
     | Some f \<Rightarrow> \<lparr>fl_coordinates = fl_coordinates acc @ fl_coordinates f,
                 fl_gates = union_gates (fl_gates acc) (fl_gates f)\<rparr>)"
  have up: "set (fl_coordinates acc) \<subseteq> set (fl_coordinates (foldl step acc ps)) \<and>
      set (fl_gates acc) \<subseteq> set (fl_gates (foldl step acc ps))" for acc ps
  proof (induction ps arbitrary: acc)
    case (Cons q ps)
    from Cons [of "step acc q"] show ?case by (auto simp: step_def split: option.splits)
  qed simp
  have "set (fl_coordinates p) \<subseteq> set (fl_coordinates (foldl step acc parts)) \<and>
      set (fl_gates p) \<subseteq> set (fl_gates (foldl step acc parts))" for acc
    using assms
  proof (induction parts arbitrary: acc)
    case (Cons q ps)
    show ?case
    proof (cases "q = Some p")
      case True
      with up [of "step acc q" ps] show ?thesis by (auto simp: step_def)
    next
      case False
      with Cons show ?thesis by simp
    qed
  qed simp
  then show "set (fl_coordinates p) \<subseteq> set (fl_coordinates (mergeFloors parts))"
    "set (fl_gates p) \<subseteq> set (fl_gates (mergeFloors parts))"
    unfolding mergeFloors_def step_def by blast+
qed

text \<open>What the last entry of a phase froze is part of the floor of the next entry.\<close>

lemma floor_for_frozen:
  assumes "gc_store c"
    and "find_last (\<lambda>e. data_get e ''phase'' = JStr target)
      (db_queryEvents d f (type_filter ''phase.entered'')) = Some e"
  shows "fget (data_fields e) ''resolvedGates'' = JArr raw \<Longrightarrow> readFrozenGateSequence raw = Some gs \<Longrightarrow>
      set gs \<subseteq> set (fl_gates (floor_for c d f target))"
    and "coordinate_of (data_fields e) = Some x \<Longrightarrow> x \<in> set (fl_coordinates (floor_for c d f target))"
proof -
  have frozen: "readFrozenFloorForPhase d f target = frozen_floor_of (data_fields e)"
    using assms(2) by (simp add: readFrozenFloorForPhase_def)
  have part: "frozen_floor_of (data_fields e) = Some p \<Longrightarrow>
      set (fl_coordinates p) \<subseteq> set (fl_coordinates (floor_for c d f target)) \<and>
      set (fl_gates p) \<subseteq> set (fl_gates (floor_for c d f target))" for p
    unfolding floor_for_def using assms(1) frozen by (intro conjI mergeFloors_parts) simp_all
  show "set gs \<subseteq> set (fl_gates (floor_for c d f target))"
    if g: "fget (data_fields e) ''resolvedGates'' = JArr raw" "readFrozenGateSequence raw = Some gs"
  proof (cases "frozen_floor_of (data_fields e)")
    case None
    with g have "gs = []"
      by (auto simp: frozen_floor_of_def Let_def split: if_splits)
    then show ?thesis by simp
  next
    case (Some p)
    with g have "fl_gates p = gs"
      by (auto simp: frozen_floor_of_def Let_def or_else_def split: if_splits)
    with part [OF Some] show ?thesis by simp
  qed
  show "x \<in> set (fl_coordinates (floor_for c d f target))" if x: "coordinate_of (data_fields e) = Some x"
  proof -
    obtain p where "frozen_floor_of (data_fields e) = Some p" "fl_coordinates p = [x]"
      using x by (simp add: frozen_floor_of_def Let_def option_list_def)
    with part show ?thesis by fastforce
  qed
qed

text \<open>
  C3: An obligation that was frozen is owed again: when the last entry of the target phase in the
  log froze some gates and a danger coordinate, the next entry of that phase, from any phase and
  whatever the state says now, owes at least these gates and freezes a coordinate that dominates.
\<close>

theorem frozen_obligation_owed_again:
  assumes "attempt reg env f cur target c d = (Inr (AOk ao), d')" "cur \<noteq> target"
    and "phase_of (gc_state c) = cur" "gc_store c"
    and "resolveHSM reg (gc_workflowType c) (gc_skipPhases c) = Inr h"
    and "type_at h target = Some (Atomic kind)" "kind \<noteq> IMPLEMENT"
    and "find_last (\<lambda>e. data_get e ''phase'' = JStr target)
      (db_queryEvents d f (type_filter ''phase.entered'')) = Some e"
    and "fget (data_fields e) ''resolvedGates'' = JArr raw" "readFrozenGateSequence raw = Some gs"
  shows "\<exists>gates fr. last (ao_emitted ao) = mk_event ''phase.entered'' cur target exec_trigger
      (Some (entered_metadata (gc_state c) target kind gates fr)) \<and> set gs \<subseteq> set gates \<and>
    (\<forall>x. coordinate_of (data_fields e) = Some x \<longrightarrow> danger_le x fr)"
  using assms(1)
proof (cases rule: attempt_cases)
  case (failed h' g)
  then show ?thesis by (auto simp: failed_walk_def split: prod.splits sum.splits)
next
  case (walked h' g)
  let ?fl = "floor_for c d f target"
  let ?x = "executeTransition h (gc_state c) target (gc_resolver c) ?fl"
  have h': "h' = h" using walked(2) assms(5) by simp
  have em: "ao_emitted ao = tr_events ?x"
    using walked(4) h' by (auto simp: successful_walk_def split: prod.splits sum.splits)
  obtain gates where "tr_resolvedGates ?x = Some gates"
    using entered_of_success [OF walked(3) _ assms(6) [folded h']] assms(2,3) h' by auto
  then obtain u fr where u: "resolve_obligation h (gc_state c) (gc_resolver c) ?fl kind = Inr (u, fr)"
    "last (tr_events ?x) = mk_event ''phase.entered'' cur target exec_trigger
       (Some (entered_metadata (gc_state c) target kind u fr))"
    using resolved_gates_edge assms(3,6,7) by metis
  note ok = resolve_coordinates_ok [OF u(1) [unfolded resolve_obligation_def]]
  have "set gs \<subseteq> set u" using floor_for_frozen(1) [OF assms(4,8,9,10)] ok by auto
  moreover have "danger_le x fr" if "coordinate_of (data_fields e) = Some x" for x
  proof -
    have "x \<in> set (state_coordinate (gc_state c) # fl_coordinates ?fl)"
      using floor_for_frozen(2) [OF assms(4,8) that] by simp
    from foldl_join_upper(2) [OF this] show ?thesis using ok by simp
  qed
  ultimately show ?thesis unfolding em using u(2) by blast
qed (use assms(2) in simp_all)

section \<open>Witnesses\<close>

text \<open>No custom guards, every payload valid, constant stamps.\<close>

definition plain_env :: genv where
  "plain_env = \<lparr>ge_registered = (\<lambda>_. None), ge_run = (\<lambda>_. \<lparr>cr_passed = True, cr_error = None\<rparr>),
     ge_valid = (\<lambda>_ _. True), ge_stamp = (\<lambda>_. some_stamps)\<rparr>"

definition plain_context :: "fields \<Rightarrow> guard_context" where
  "plain_context s = \<lparr>gc_state = s, gc_workflowType = ''feature'', gc_skipPhases = [], gc_suffix = None,
     gc_store = True, gc_resolver = resolveGateSet, gc_universal = False, gc_prior = None\<rparr>"

text \<open>A refusal of a state that is not released.\<close>

lemma blocked_attempt:
  "case attempt initial_registry plain_env ''f'' ''blocked'' ''delegate''
      (plain_context (start_state ''blocked'')) empty_db of
     (Inr (AGuardFailed ar), d') \<Rightarrow> length (rows_of d' ''f'') = 1 | _ \<Rightarrow> False"
  by code_simp

lemma refused_attempt_writes_diagnostics_witness:
  "\<exists>e d' ar. attempt initial_registry plain_env ''f'' ''blocked'' ''delegate''
      (plain_context (start_state ''blocked'')) empty_db = (Inr (AGuardFailed ar), d') \<and>
     rows_of d' ''f'' = [e] \<and>
     we_type e \<in> {''workflow.guard-failed'', ''workflow.circuit-open'', ''phase.blocked''}"
proof -
  obtain ar d' where a: "attempt initial_registry plain_env ''f'' ''blocked'' ''delegate''
      (plain_context (start_state ''blocked'')) empty_db = (Inr (AGuardFailed ar), d')" "length (rows_of d' ''f'') = 1"
    using blocked_attempt by (auto split: prod.splits sum.splits attempt_result.splits)
  obtain e where e: "rows_of d' ''f'' = [e]" using a(2) by (auto simp: length_Suc_conv)
  have "rows_of empty_db ''f'' = []" by code_simp
  then have "we_type e \<in> {''workflow.guard-failed'', ''workflow.circuit-open'', ''phase.blocked''}"
    using refused_attempt_writes_diagnostics [OF empty_db_inv a(1)] e by (auto simp: grown_def)
  with a(1) e show ?thesis by blast
qed

definition released_attempt :: "(js_exn + attempt_result) \<times> db" where
  "released_attempt = attempt initial_registry plain_env ''f'' ''blocked'' ''delegate''
     (plain_context released_state) empty_db"

lemma released_attempt_ok:
  "case released_attempt of
     (Inr (AOk ao), d') \<Rightarrow> map te_type (ao_emitted ao) =
       [''transition'', ''compound-entry'', ''phase.exited'', ''phase.entered'']
   | _ \<Rightarrow> False"
  by code_simp

lemma attempt_appends_walk_in_order_witness:
  "map we_type (rows_of (snd released_attempt) ''f'') =
   [''workflow.transition'', ''workflow.compound-entry'', ''phase.exited'', ''phase.entered'']"
proof -
  obtain ao d' where a: "released_attempt = (Inr (AOk ao), d')" "map te_type (ao_emitted ao) =
       [''transition'', ''compound-entry'', ''phase.exited'', ''phase.entered'']"
    using released_attempt_ok by (auto split: prod.splits sum.splits attempt_result.splits)
  have "rows_of empty_db ''f'' = []" by code_simp
  then have "map we_type (rows_of d' ''f'') = map mapInternalToExternalType (map te_type (ao_emitted ao))"
    using attempt_appends_walk_in_order [OF empty_db_inv a(1) [unfolded released_attempt_def]]
    by (simp add: plain_context_def grown_def)
  then show ?thesis unfolding a by (simp add: mapInternalToExternalType_def typeMap_def)
qed

text \<open>A review that was entered at high risk, and a state that later claims a low risk.\<close>

definition frozen_review :: fields where
  "frozen_review = [(''phase'', JStr ''review''),
     (''resolvedGates'', JArr (map gate_js [ReviewGate ''review'', ReviewGate ''mutation-adequacy''])),
     (''riskTier'', JStr ''high'')]"

definition frozen_db :: db where
  "frozen_db = snd (append_validated plain_env 0 ''f'' ''phase.entered'' frozen_review None empty_db)"

lemma frozen_db_entry:
  "find_last (\<lambda>e. data_get e ''phase'' = JStr ''review'')
     (db_queryEvents frozen_db ''f'' (type_filter ''phase.entered'')) \<noteq> None"
  "map_option data_fields (find_last (\<lambda>e. data_get e ''phase'' = JStr ''review'')
     (db_queryEvents frozen_db ''f'' (type_filter ''phase.entered''))) = Some frozen_review"
  by code_simp+

lemma low_review_ok:
  "case attempt initial_registry plain_env ''f'' ''delegate'' ''review'' (plain_context review_state) frozen_db of
     (Inr (AOk ao), d') \<Rightarrow> True | _ \<Rightarrow> False"
  by code_simp

lemma frozen_obligation_owed_again_witness:
  "\<exists>ao d' gates fr. attempt initial_registry plain_env ''f'' ''delegate'' ''review'' (plain_context review_state)
       frozen_db = (Inr (AOk ao), d') \<and>
     last (ao_emitted ao) = mk_event ''phase.entered'' ''delegate'' ''review'' exec_trigger
       (Some (entered_metadata review_state ''review'' REVIEW gates fr)) \<and>
     ReviewGate ''mutation-adequacy'' \<in> set gates"
proof -
  obtain ao d' where a: "attempt initial_registry plain_env ''f'' ''delegate'' ''review''
      (plain_context review_state) frozen_db = (Inr (AOk ao), d')"
    using low_review_ok by (auto split: prod.splits sum.splits attempt_result.splits)
  obtain e where e: "find_last (\<lambda>e. data_get e ''phase'' = JStr ''review'')
     (db_queryEvents frozen_db ''f'' (type_filter ''phase.entered'')) = Some e" "data_fields e = frozen_review"
    using frozen_db_entry by auto
  let ?c = "plain_context review_state"
  have c: "phase_of (gc_state ?c) = ''delegate''" "gc_store ?c" "gc_state ?c = review_state"
    "type_at createFeatureHSM ''review'' = Some (Atomic REVIEW)" by code_simp+
  have h: "resolveHSM initial_registry (gc_workflowType ?c) (gc_skipPhases ?c) = Inr createFeatureHSM"
    by (simp add: resolveHSM_def plain_context_def getHSMDefinition_def initial_registry_def
        list_at_def or_else_def bind_result_def)
  have r: "fget (data_fields e) ''resolvedGates'' =
      JArr (map gate_js [ReviewGate ''review'', ReviewGate ''mutation-adequacy''])"
    unfolding e(2) by (simp add: frozen_review_def)
  have f: "readFrozenGateSequence (map gate_js [ReviewGate ''review'', ReviewGate ''mutation-adequacy'']) =
      Some [ReviewGate ''review'', ReviewGate ''mutation-adequacy'']" by code_simp
  from frozen_obligation_owed_again [OF a _ c(1,2) h c(4) _ e(1) r f] show ?thesis
    using a unfolding c(3) by fastforce
qed

end
