(* ===== verification/Edge_Condition.thy ===== *)
theory Edge_Condition
  imports Js_Value
begin

text \<open>
  The edge conditions of \<open>src/workflow/admission/edge-condition.ts\<close>, their evaluation
  (\<open>edge-condition-evaluate.ts\<close>) and the choice of an edge (\<open>edge-condition-select.ts\<close>). A raw
  condition is a JSON-like value, so the refusal of function values has no counterpart; an error
  carries its code and path, and its message text is left out. Freezing changes no value.
\<close>

section \<open>The closed syntax\<close>

datatype fact_type = FactString | FactNumber | FactBoolean

datatype fact_scalar = ScalarStr string | ScalarNum jsnum | ScalarBool bool

datatype compare_op = OpLt | OpLte | OpEq | OpGte | OpGt

definition EDGE_COMPARE_OPS :: "(string \<times> compare_op) list" where
  "EDGE_COMPARE_OPS = [(''lt'', OpLt), (''lte'', OpLte), (''eq'', OpEq), (''gte'', OpGte), (''gt'', OpGt)]"

datatype node_kind =
    KEventObserved
  | KFactPresent
  | KFactEquals
  | KCounterCompare
  | KAll
  | KAny
  | KNot

definition EDGE_CONDITION_NODE_KINDS :: "(string \<times> node_kind) list" where
  "EDGE_CONDITION_NODE_KINDS =
     [(''eventObserved'', KEventObserved), (''factPresent'', KFactPresent), (''factEquals'', KFactEquals),
      (''counterCompare'', KCounterCompare), (''all'', KAll), (''any'', KAny), (''not'', KNot)]"

datatype edge_node =
    EventObservedNode string
  | FactPresentNode string
  | FactEqualsNode string fact_scalar
  | CounterCompareNode string compare_op jsnum
  | AllNode "edge_node list"
  | AnyNode "edge_node list"
  | NotNode edge_node

record edge_declaration =
  ed_fields :: "(string \<times> fact_type) list"
  ed_events :: "string list"

record compiled_condition =
  cc_node :: edge_node
  cc_declaration :: edge_declaration

section \<open>Errors\<close>

datatype edge_code =
    NOT_AN_OBJECT
  | FORBIDDEN_KEY
  | MISSING_KIND
  | UNKNOWN_NODE_KIND
  | UNKNOWN_PROPERTY
  | INVALID_PROPERTY_TYPE
  | NON_SCALAR_VALUE
  | INVALID_NUMBER
  | INVALID_OPERATOR
  | UNDECLARED_FIELD
  | UNDECLARED_EVENT
  | FIELD_TYPE_MISMATCH
  | INVALID_DECLARATION

record edge_error =
  ee_code :: edge_code
  ee_path :: string

definition edge_fail :: "edge_code \<Rightarrow> string \<Rightarrow> edge_error + 'a" where
  "edge_fail c p = Inl \<lparr>ee_code = c, ee_path = p\<rparr>"

lemma edge_fail_not_ok [simp]: "edge_fail c p \<noteq> Inr x"
  by (simp add: edge_fail_def)

definition FORBIDDEN_KEYS :: "string list" where
  "FORBIDDEN_KEYS = [''__proto__'', ''constructor'', ''prototype'']"

section \<open>Checks on raw values\<close>

definition isCompareOp :: "js \<Rightarrow> compare_op option" where
  "isCompareOp v = (case v of JStr s \<Rightarrow> map_of EDGE_COMPARE_OPS s | _ \<Rightarrow> None)"

definition isNodeKind :: "js \<Rightarrow> node_kind option" where
  "isNodeKind v = (case v of JStr s \<Rightarrow> map_of EDGE_CONDITION_NODE_KINDS s | _ \<Rightarrow> None)"

fun scalarType :: "fact_scalar \<Rightarrow> fact_type" where
  "scalarType (ScalarStr _) = FactString"
| "scalarType (ScalarNum _) = FactNumber"
| "scalarType (ScalarBool _) = FactBoolean"

definition asNodeObject :: "js \<Rightarrow> string \<Rightarrow> edge_error + fields" where
  "asNodeObject raw path =
     (case raw of
        JObj fs \<Rightarrow>
          if \<exists>k \<in> set (map fst fs). k \<in> set FORBIDDEN_KEYS then edge_fail FORBIDDEN_KEY path else Inr fs
      | _ \<Rightarrow> edge_fail NOT_AN_OBJECT path)"

definition expectExactKeys :: "fields \<Rightarrow> string list \<Rightarrow> string \<Rightarrow> edge_error + unit" where
  "expectExactKeys obj allowed path =
     (if \<forall>k \<in> set (map fst obj). k \<in> set allowed then Inr () else edge_fail UNKNOWN_PROPERTY path)"

definition requireString :: "js \<Rightarrow> string \<Rightarrow> edge_error + string" where
  "requireString v path =
     (case v of
        JStr s \<Rightarrow> if s = '''' then edge_fail INVALID_PROPERTY_TYPE path else Inr s
      | _ \<Rightarrow> edge_fail INVALID_PROPERTY_TYPE path)"

definition requireScalar :: "js \<Rightarrow> string \<Rightarrow> edge_error + fact_scalar" where
  "requireScalar v path =
     (case v of
        JNum n \<Rightarrow> if is_finite_num n then Inr (ScalarNum n) else edge_fail INVALID_NUMBER path
      | JStr s \<Rightarrow> Inr (ScalarStr s)
      | JBool b \<Rightarrow> Inr (ScalarBool b)
      | _ \<Rightarrow> edge_fail NON_SCALAR_VALUE path)"

definition requireFiniteNumber :: "js \<Rightarrow> string \<Rightarrow> edge_error + jsnum" where
  "requireFiniteNumber v path =
     (case v of
        JNum n \<Rightarrow> if is_finite_num n then Inr n else edge_fail INVALID_NUMBER path
      | _ \<Rightarrow> edge_fail INVALID_NUMBER path)"

definition requireDeclaredField :: "string \<Rightarrow> edge_declaration \<Rightarrow> string \<Rightarrow> edge_error + fact_type" where
  "requireDeclaredField field decl path =
     (case map_of (ed_fields decl) field of
        None \<Rightarrow> edge_fail UNDECLARED_FIELD path
      | Some t \<Rightarrow> Inr t)"

section \<open>Parsing\<close>

text \<open>The arms of the leaf kinds.\<close>

definition parse_event_observed :: "fields \<Rightarrow> string \<Rightarrow> edge_declaration \<Rightarrow> edge_error + edge_node" where
  "parse_event_observed obj path decl =
     bind_result (expectExactKeys obj [''kind'', ''event''] path) (\<lambda>_.
     bind_result (requireString (fget obj ''event'') path) (\<lambda>event.
       if event \<in> set (ed_events decl) then Inr (EventObservedNode event)
       else edge_fail UNDECLARED_EVENT path))"

definition parse_fact_present :: "fields \<Rightarrow> string \<Rightarrow> edge_declaration \<Rightarrow> edge_error + edge_node" where
  "parse_fact_present obj path decl =
     bind_result (expectExactKeys obj [''kind'', ''field''] path) (\<lambda>_.
     bind_result (requireString (fget obj ''field'') path) (\<lambda>field.
     bind_result (requireDeclaredField field decl path) (\<lambda>_. Inr (FactPresentNode field))))"

definition parse_fact_equals :: "fields \<Rightarrow> string \<Rightarrow> edge_declaration \<Rightarrow> edge_error + edge_node" where
  "parse_fact_equals obj path decl =
     bind_result (expectExactKeys obj [''kind'', ''field'', ''value''] path) (\<lambda>_.
     bind_result (requireString (fget obj ''field'') path) (\<lambda>field.
     bind_result (requireDeclaredField field decl path) (\<lambda>declaredType.
     bind_result (requireScalar (fget obj ''value'') (path @ ''.value'')) (\<lambda>v.
       if scalarType v \<noteq> declaredType then edge_fail FIELD_TYPE_MISMATCH path
       else Inr (FactEqualsNode field v)))))"

definition parse_counter_compare :: "fields \<Rightarrow> string \<Rightarrow> edge_declaration \<Rightarrow> edge_error + edge_node" where
  "parse_counter_compare obj path decl =
     bind_result (expectExactKeys obj [''kind'', ''field'', ''op'', ''value''] path) (\<lambda>_.
     bind_result (requireString (fget obj ''field'') path) (\<lambda>field.
     bind_result (requireDeclaredField field decl path) (\<lambda>declaredType.
       if declaredType \<noteq> FactNumber then edge_fail FIELD_TYPE_MISMATCH path
       else (case isCompareOp (fget obj ''op'') of
           None \<Rightarrow> edge_fail INVALID_OPERATOR path
         | Some op \<Rightarrow>
             bind_result (requireFiniteNumber (fget obj ''value'') (path @ ''.value'')) (\<lambda>v.
               Inr (CounterCompareNode field op v))))))"

lemma asNodeObject_ok: "asNodeObject raw path = Inr obj \<Longrightarrow> raw = JObj obj"
  by (cases raw) (auto simp: asNodeObject_def split: if_splits)

lemma fget_smaller: "size (fget fs k) < size (JObj fs)"
proof (induction fs)
  case (Cons f fs)
  obtain k' v where "f = (k', v)" by (cases f)
  with Cons show ?case by simp
qed simp

definition operand_path :: "string \<Rightarrow> nat \<Rightarrow> string" where
  "operand_path path i = path @ ''.operands['' @ nat_str i @ '']''"

lemma operands_smaller:
  "asNodeObject raw path = Inr obj \<Longrightarrow> fget obj k = JArr xs \<Longrightarrow> size_list size xs < size raw"
  using fget_smaller [of obj k] by (auto dest: asNodeObject_ok)

lemma operand_smaller: "asNodeObject raw path = Inr obj \<Longrightarrow> size (fget obj k) < size raw"
  using fget_smaller [of obj k] by (auto dest: asNodeObject_ok)

function (sequential)
  parseNode :: "js \<Rightarrow> string \<Rightarrow> edge_declaration \<Rightarrow> edge_error + edge_node" and
  parseOperands :: "js list \<Rightarrow> nat \<Rightarrow> string \<Rightarrow> edge_declaration \<Rightarrow> edge_error + edge_node list"
where
  "parseNode raw path decl =
     (case asNodeObject raw path of
        Inl e \<Rightarrow> Inl e
      | Inr obj \<Rightarrow>
          if fget obj ''kind'' = JUndef then edge_fail MISSING_KIND path
          else (case isNodeKind (fget obj ''kind'') of
              None \<Rightarrow> edge_fail UNKNOWN_NODE_KIND path
            | Some KEventObserved \<Rightarrow> parse_event_observed obj path decl
            | Some KFactPresent \<Rightarrow> parse_fact_present obj path decl
            | Some KFactEquals \<Rightarrow> parse_fact_equals obj path decl
            | Some KCounterCompare \<Rightarrow> parse_counter_compare obj path decl
            | Some KNot \<Rightarrow>
                (case expectExactKeys obj [''kind'', ''operand''] path of
                   Inl e \<Rightarrow> Inl e
                 | Inr _ \<Rightarrow>
                     if ''operand'' \<notin> set (map fst obj) then edge_fail INVALID_PROPERTY_TYPE path
                     else (case parseNode (fget obj ''operand'') (path @ ''.operand'') decl of
                         Inl e \<Rightarrow> Inl e
                       | Inr n \<Rightarrow> Inr (NotNode n)))
            | Some k \<Rightarrow>
                (case expectExactKeys obj [''kind'', ''operands''] path of
                   Inl e \<Rightarrow> Inl e
                 | Inr _ \<Rightarrow>
                     (case fget obj ''operands'' of
                        JArr xs \<Rightarrow>
                          (case parseOperands xs 0 path decl of
                             Inl e \<Rightarrow> Inl e
                           | Inr ns \<Rightarrow> Inr (if k = KAll then AllNode ns else AnyNode ns))
                      | _ \<Rightarrow> edge_fail INVALID_PROPERTY_TYPE path))))"
| "parseOperands [] i path decl = Inr []"
| "parseOperands (x # xs) i path decl =
     (case parseNode x (operand_path path i) decl of
        Inl e \<Rightarrow> Inl e
      | Inr n \<Rightarrow>
          (case parseOperands xs (i + 1) path decl of
             Inl e \<Rightarrow> Inl e
           | Inr ns \<Rightarrow> Inr (n # ns)))"
  by pat_completeness auto

termination
  by (relation "measure (\<lambda>x. case x of
      Inl (raw, _, _) \<Rightarrow> 2 * size raw | Inr (xs, _, _, _) \<Rightarrow> 2 * size_list size xs + 1)")
    (auto dest: operands_smaller operand_smaller)

declare parseNode.simps [simp del]

section \<open>Declarations and compilation\<close>

text \<open>\<open>Object.entries\<close> of a value whose \<open>typeof\<close> is \<open>object\<close>.\<close>

fun indexed_from :: "nat \<Rightarrow> js list \<Rightarrow> fields" where
  "indexed_from i [] = []"
| "indexed_from i (x # xs) = (nat_str i, x) # indexed_from (i + 1) xs"

definition object_entries :: "js \<Rightarrow> fields" where
  "object_entries v = (case v of JObj fs \<Rightarrow> fs | JArr xs \<Rightarrow> indexed_from 0 xs | _ \<Rightarrow> [])"

definition declared_type :: "js \<Rightarrow> fact_type option" where
  "declared_type v =
     (if v = JStr ''string'' then Some FactString
      else if v = JStr ''number'' then Some FactNumber
      else if v = JStr ''boolean'' then Some FactBoolean
      else None)"

fun declared_fields ::
    "fields \<Rightarrow> (string \<times> fact_type) list \<Rightarrow> edge_error + (string \<times> fact_type) list" where
  "declared_fields [] acc = Inr acc"
| "declared_fields ((name, t) # rest) acc =
     (if name \<in> set FORBIDDEN_KEYS then edge_fail FORBIDDEN_KEY ''$declaration.fields''
      else if name = '''' then edge_fail INVALID_DECLARATION ''$declaration.fields''
      else (case declared_type t of
          None \<Rightarrow> edge_fail INVALID_DECLARATION ''$declaration.fields''
        | Some ft \<Rightarrow> declared_fields rest (AList.update name ft acc)))"

fun declared_events :: "js list \<Rightarrow> string list \<Rightarrow> edge_error + string list" where
  "declared_events [] acc = Inr acc"
| "declared_events (v # vs) acc =
     (case v of
        JStr s \<Rightarrow>
          if s = '''' then edge_fail INVALID_DECLARATION ''$declaration.events''
          else declared_events vs (if s \<in> set acc then acc else acc @ [s])
      | _ \<Rightarrow> edge_fail INVALID_DECLARATION ''$declaration.events'')"

definition normalizeDeclaration :: "js \<Rightarrow> edge_error + edge_declaration" where
  "normalizeDeclaration declaration =
     (let fields = opt_get declaration ''fields''; events = opt_get declaration ''events'' in
      if declaration = JNull \<or> js_typeof declaration \<noteq> ''object'' \<or> js_typeof fields \<noteq> ''object'' \<or> fields = JNull
      then edge_fail INVALID_DECLARATION ''$declaration''
      else bind_result (declared_fields (object_entries fields) []) (\<lambda>fs.
        if is_nullish events then Inr \<lparr>ed_fields = fs, ed_events = []\<rparr>
        else (case events of
            JArr vs \<Rightarrow> bind_result (declared_events vs []) (\<lambda>es. Inr \<lparr>ed_fields = fs, ed_events = es\<rparr>)
          | _ \<Rightarrow> edge_fail INVALID_DECLARATION ''$declaration.events'')))"

definition compileEdgeCondition :: "js \<Rightarrow> js \<Rightarrow> edge_error + compiled_condition" where
  "compileEdgeCondition raw declaration =
     bind_result (normalizeDeclaration declaration) (\<lambda>normalized.
     bind_result (parseNode raw ''$'' normalized) (\<lambda>node.
       Inr \<lparr>cc_node = node, cc_declaration = normalized\<rparr>))"

section \<open>Serialisation\<close>

fun scalar_js :: "fact_scalar \<Rightarrow> js" where
  "scalar_js (ScalarStr s) = JStr s"
| "scalar_js (ScalarNum n) = JNum n"
| "scalar_js (ScalarBool b) = JBool b"

fun op_str :: "compare_op \<Rightarrow> string" where
  "op_str OpLt = ''lt''"
| "op_str OpLte = ''lte''"
| "op_str OpEq = ''eq''"
| "op_str OpGte = ''gte''"
| "op_str OpGt = ''gt''"

text \<open>The value of a node, which \<open>serializeEdgeCondition\<close> prints.\<close>

fun node_js :: "edge_node \<Rightarrow> js" where
  "node_js (EventObservedNode e) = JObj [(''kind'', JStr ''eventObserved''), (''event'', JStr e)]"
| "node_js (FactPresentNode f) = JObj [(''kind'', JStr ''factPresent''), (''field'', JStr f)]"
| "node_js (FactEqualsNode f v) =
     JObj [(''kind'', JStr ''factEquals''), (''field'', JStr f), (''value'', scalar_js v)]"
| "node_js (CounterCompareNode f op n) =
     JObj [(''kind'', JStr ''counterCompare''), (''field'', JStr f), (''op'', JStr (op_str op)), (''value'', JNum n)]"
| "node_js (AllNode ns) = JObj [(''kind'', JStr ''all''), (''operands'', JArr (map node_js ns))]"
| "node_js (AnyNode ns) = JObj [(''kind'', JStr ''any''), (''operands'', JArr (map node_js ns))]"
| "node_js (NotNode n) = JObj [(''kind'', JStr ''not''), (''operand'', node_js n)]"

definition serializeEdgeCondition :: "compiled_condition \<Rightarrow> string" where
  "serializeEdgeCondition c = json_text (node_js (cc_node c))"

section \<open>Evaluation\<close>

datatype edge_outcome = OTrue | OFalse | OIndeterminate

record edge_facts =
  ef_fields :: fields
  ef_events :: "string list"

definition hasField :: "edge_facts \<Rightarrow> string \<Rightarrow> bool" where
  "hasField facts field \<longleftrightarrow> field \<in> set (map fst (ef_fields facts)) \<and> fget (ef_fields facts) field \<noteq> JUndef"

definition readField :: "edge_facts \<Rightarrow> string \<Rightarrow> js" where
  "readField facts field =
     (if field \<notin> set (map fst (ef_fields facts)) then JUndef else fget (ef_fields facts) field)"

text \<open>\<open>===\<close> against a scalar; NaN equals nothing.\<close>

definition scalar_equals :: "js \<Rightarrow> fact_scalar \<Rightarrow> bool" where
  "scalar_equals v s \<longleftrightarrow> v = scalar_js s \<and> s \<noteq> ScalarNum NaN"

fun compareNumbers :: "jsnum \<Rightarrow> compare_op \<Rightarrow> jsnum \<Rightarrow> bool" where
  "compareNumbers a OpLt t = num_less a t"
| "compareNumbers a OpLte t = num_ge t a"
| "compareNumbers a OpEq t = (a = t \<and> a \<noteq> NaN)"
| "compareNumbers a OpGte t = num_ge a t"
| "compareNumbers a OpGt t = num_less t a"

definition outcome_of_bool :: "bool \<Rightarrow> edge_outcome" where
  "outcome_of_bool b = (if b then OTrue else OFalse)"

fun notK :: "edge_outcome \<Rightarrow> edge_outcome" where
  "notK OTrue = OFalse"
| "notK OFalse = OTrue"
| "notK OIndeterminate = OIndeterminate"

text \<open>The flag of \<open>allK\<close> and \<open>anyK\<close> is \<open>sawIndeterminate\<close>.\<close>

fun evaluateNode :: "edge_node \<Rightarrow> edge_facts \<Rightarrow> edge_outcome"
  and allK :: "bool \<Rightarrow> edge_node list \<Rightarrow> edge_facts \<Rightarrow> edge_outcome"
  and anyK :: "bool \<Rightarrow> edge_node list \<Rightarrow> edge_facts \<Rightarrow> edge_outcome"
where
  "evaluateNode (EventObservedNode e) facts = outcome_of_bool (e \<in> set (ef_events facts))"
| "evaluateNode (FactPresentNode f) facts = outcome_of_bool (hasField facts f)"
| "evaluateNode (FactEqualsNode f v) facts =
     (if readField facts f = JUndef then OIndeterminate
      else outcome_of_bool (scalar_equals (readField facts f) v))"
| "evaluateNode (CounterCompareNode f op t) facts =
     (case readField facts f of
        JNum n \<Rightarrow> if is_finite_num n then outcome_of_bool (compareNumbers n op t) else OIndeterminate
      | _ \<Rightarrow> OIndeterminate)"
| "evaluateNode (NotNode n) facts = notK (evaluateNode n facts)"
| "evaluateNode (AllNode ns) facts = allK False ns facts"
| "evaluateNode (AnyNode ns) facts = anyK False ns facts"
| "allK saw [] facts = (if saw then OIndeterminate else OTrue)"
| "allK saw (n # ns) facts =
     (case evaluateNode n facts of
        OFalse \<Rightarrow> OFalse
      | OIndeterminate \<Rightarrow> allK True ns facts
      | OTrue \<Rightarrow> allK saw ns facts)"
| "anyK saw [] facts = (if saw then OIndeterminate else OFalse)"
| "anyK saw (n # ns) facts =
     (case evaluateNode n facts of
        OTrue \<Rightarrow> OTrue
      | OIndeterminate \<Rightarrow> anyK True ns facts
      | OFalse \<Rightarrow> anyK saw ns facts)"

definition evaluateEdgeCondition :: "compiled_condition \<Rightarrow> edge_facts \<Rightarrow> edge_outcome" where
  "evaluateEdgeCondition c facts = evaluateNode (cc_node c) facts"

section \<open>Selection\<close>

record edge_candidate =
  ca_edgeId :: string
  ca_condition :: compiled_condition

record edge_evaluation =
  ev_edgeId :: string
  ev_index :: nat
  ev_outcome :: edge_outcome

datatype edge_selection =
    Selected string nat bool "string list"
  | Blocked string nat
  | NoMatch

fun evaluate_from :: "nat \<Rightarrow> edge_candidate list \<Rightarrow> edge_facts \<Rightarrow> edge_evaluation list" where
  "evaluate_from i [] facts = []"
| "evaluate_from i (c # cs) facts =
     \<lparr>ev_edgeId = ca_edgeId c, ev_index = i, ev_outcome = evaluateEdgeCondition (ca_condition c) facts\<rparr>
     # evaluate_from (i + 1) cs facts"

definition evaluateEdgeCandidates :: "edge_candidate list \<Rightarrow> edge_facts \<Rightarrow> edge_evaluation list" where
  "evaluateEdgeCandidates cs facts = evaluate_from 0 cs facts"

text \<open>The loop of \<open>selectEdge\<close> over the evaluations.\<close>

fun select_loop :: "string list \<Rightarrow> edge_evaluation list \<Rightarrow> edge_selection" where
  "select_loop matched [] = NoMatch"
| "select_loop matched (e # es) =
     (case ev_outcome e of
        OFalse \<Rightarrow> select_loop matched es
      | OTrue \<Rightarrow> Selected (ev_edgeId e) (ev_index e) (1 < length matched) matched
      | OIndeterminate \<Rightarrow> Blocked (ev_edgeId e) (ev_index e))"

definition selectEdge :: "edge_candidate list \<Rightarrow> edge_facts \<Rightarrow> edge_selection" where
  "selectEdge cs facts =
     (let es = evaluateEdgeCandidates cs facts
      in select_loop (map ev_edgeId (filter (\<lambda>e. ev_outcome e = OTrue) es)) es)"

end
