(* ===== verification/Edge_Laws.thy ===== *)
theory Edge_Laws
  imports Edge_Condition
begin

text \<open>
  What compilation of an edge condition guarantees, and how a compiled condition evaluates: it is
  well typed, its serialised form compiles to itself, it is Kleene's strong logic, it is definite on
  complete facts, and the choice of an edge is the first candidate that is not false.
\<close>

section \<open>Well-typed conditions\<close>

fun well_typed :: "edge_declaration \<Rightarrow> edge_node \<Rightarrow> bool" where
  "well_typed d (EventObservedNode e) \<longleftrightarrow> e \<noteq> '''' \<and> e \<in> set (ed_events d)"
| "well_typed d (FactPresentNode f) \<longleftrightarrow> f \<noteq> '''' \<and> map_of (ed_fields d) f \<noteq> None"
| "well_typed d (FactEqualsNode f v) \<longleftrightarrow> f \<noteq> '''' \<and> map_of (ed_fields d) f = Some (scalarType v) \<and>
     (case v of ScalarNum n \<Rightarrow> is_finite_num n | _ \<Rightarrow> True)"
| "well_typed d (CounterCompareNode f op n) \<longleftrightarrow> f \<noteq> '''' \<and> map_of (ed_fields d) f = Some FactNumber \<and>
     is_finite_num n"
| "well_typed d (AllNode ns) \<longleftrightarrow> (\<forall>n \<in> set ns. well_typed d n)"
| "well_typed d (AnyNode ns) \<longleftrightarrow> (\<forall>n \<in> set ns. well_typed d n)"
| "well_typed d (NotNode n) \<longleftrightarrow> well_typed d n"

lemma requireString_Inr [simp]: "requireString v p = Inr s \<longleftrightarrow> v = JStr s \<and> s \<noteq> ''''"
  by (cases v) (auto simp: requireString_def)

lemma requireFiniteNumber_Inr [simp]: "requireFiniteNumber v p = Inr n \<longleftrightarrow> v = JNum n \<and> is_finite_num n"
  by (cases v) (auto simp: requireFiniteNumber_def)

lemma requireScalar_Inr [simp]:
  "requireScalar v p = Inr s \<longleftrightarrow>
   v = scalar_js s \<and> (case s of ScalarNum n \<Rightarrow> is_finite_num n | _ \<Rightarrow> True)"
  by (cases v; cases s) (auto simp: requireScalar_def)

lemma requireDeclaredField_Inr [simp]:
  "requireDeclaredField f d p = Inr t \<longleftrightarrow> map_of (ed_fields d) f = Some t"
  by (auto simp: requireDeclaredField_def split: option.splits)

lemmas leaf_parsers =
  parse_event_observed_def parse_fact_present_def parse_fact_equals_def parse_counter_compare_def

lemma leaf_well_typed:
  "parse_event_observed obj p d = Inr n \<Longrightarrow> well_typed d n"
  "parse_fact_present obj p d = Inr n \<Longrightarrow> well_typed d n"
  "parse_fact_equals obj p d = Inr n \<Longrightarrow> well_typed d n"
  "parse_counter_compare obj p d = Inr n \<Longrightarrow> well_typed d n"
  by (auto simp: leaf_parsers bind_result_Inr_iff split: if_splits option.splits)

text \<open>The ways in which a node parses.\<close>

lemma parseNode_Inr:
  assumes "parseNode raw p d = Inr n"
  obtains (leaf) "well_typed d n"
  | (neg) obj m where "asNodeObject raw p = Inr obj" "n = NotNode m"
      "parseNode (fget obj ''operand'') (p @ ''.operand'') d = Inr m"
  | (operands) obj xs ns where "asNodeObject raw p = Inr obj" "n = AllNode ns \<or> n = AnyNode ns"
      "fget obj ''operands'' = JArr xs" "parseOperands xs 0 p d = Inr ns"
proof -
  obtain obj where obj: "asNodeObject raw p = Inr obj"
    using assms by (subst (asm) parseNode.simps) (auto split: sum.splits)
  obtain k where k: "isNodeKind (fget obj ''kind'') = Some k"
    using assms obj by (subst (asm) parseNode.simps) (auto split: if_splits option.splits)
  note parsed = assms [unfolded parseNode.simps [of raw] obj sum.case]
  have known: "fget obj ''kind'' \<noteq> JUndef" using k by (auto simp: isNodeKind_def)
  note parsed = parsed [unfolded if_not_P [OF known] k option.case]
  show thesis
  proof (cases "k \<in> {KAll, KAny}")
    case True
    then show thesis using parsed operands obj
      by (auto split: sum.splits js.splits)
  next
    case False
    then show thesis using parsed leaf neg obj leaf_well_typed
      by (cases k) (auto split: sum.splits if_splits)
  qed
qed

lemma parseOperands_nodes:
  "parseOperands xs i p d = Inr ns \<Longrightarrow> n \<in> set ns \<Longrightarrow> \<exists>x p'. parseNode x p' d = Inr n"
  by (induction xs arbitrary: i ns) (auto split: sum.splits, blast)

lemma parse_well_typed: "parseNode raw p d = Inr n \<Longrightarrow> well_typed d n"
proof (induction n arbitrary: raw p)
  case (NotNode m)
  from NotNode.prems show ?case by (cases rule: parseNode_Inr) (auto dest: NotNode.IH)
next
  case (AllNode ns)
  from AllNode.prems show ?case
    by (cases rule: parseNode_Inr) (auto dest!: parseOperands_nodes intro: AllNode.IH)
next
  case (AnyNode ns)
  from AnyNode.prems show ?case
    by (cases rule: parseNode_Inr) (auto dest!: parseOperands_nodes intro: AnyNode.IH)
qed (erule parseNode_Inr; simp)+

lemma compile_Inr:
  "compileEdgeCondition raw dj = Inr c \<longleftrightarrow>
   normalizeDeclaration dj = Inr (cc_declaration c) \<and> parseNode raw ''$'' (cc_declaration c) = Inr (cc_node c)"
  by (cases c) (auto simp: compileEdgeCondition_def bind_result_Inr_iff)

section \<open>Round trip\<close>

lemma compare_op_back: "isCompareOp (JStr (op_str op)) = Some op"
  by (cases op) (simp_all add: isCompareOp_def EDGE_COMPARE_OPS_def)

lemma node_kind_back:
  "isNodeKind (JStr ''eventObserved'') = Some KEventObserved" "isNodeKind (JStr ''factPresent'') = Some KFactPresent"
  "isNodeKind (JStr ''factEquals'') = Some KFactEquals" "isNodeKind (JStr ''counterCompare'') = Some KCounterCompare"
  "isNodeKind (JStr ''all'') = Some KAll" "isNodeKind (JStr ''any'') = Some KAny" "isNodeKind (JStr ''not'') = Some KNot"
  by (simp_all add: isNodeKind_def EDGE_CONDITION_NODE_KINDS_def)

lemma parseOperands_map:
  "(\<And>n q. n \<in> set ns \<Longrightarrow> parseNode (node_js n) q d = Inr n) \<Longrightarrow> parseOperands (map node_js ns) i p d = Inr ns"
  by (induction ns arbitrary: i) simp_all

lemmas parse_printed =
  parseNode.simps asNodeObject_def expectExactKeys_def FORBIDDEN_KEYS_def node_kind_back leaf_parsers
  requireString_def requireScalar_def requireFiniteNumber_def requireDeclaredField_def

lemma parse_node_js: "well_typed d n \<Longrightarrow> parseNode (node_js n) p d = Inr n"
proof (induction n arbitrary: p)
  case (FactEqualsNode f v)
  then show ?case by (cases v) (simp_all add: parse_printed)
next
  case (CounterCompareNode f op m)
  then show ?case by (simp add: parse_printed compare_op_back)
next
  case (FactPresentNode f)
  then show ?case by (auto simp: parse_printed)
next
  case (EventObservedNode e)
  then show ?case by (simp add: parse_printed)
next
  case (NotNode m)
  then show ?case by (simp add: parse_printed)
next
  case (AllNode ns)
  then have "parseOperands (map node_js ns) 0 p d = Inr ns" by (intro parseOperands_map) simp
  then show ?case by (simp add: parse_printed)
next
  case (AnyNode ns)
  then have "parseOperands (map node_js ns) 0 p d = Inr ns" by (intro parseOperands_map) simp
  then show ?case by (simp add: parse_printed)
qed

text \<open>
  C27: A condition that compiles is well typed: every event and field that it names is declared, each
  compared value has the declared type of its field, and each number is finite. What it serialises to
  compiles, under the same declaration, to the same condition again.
\<close>

theorem compiled_condition_sound:
  assumes "compileEdgeCondition raw declaration = Inr c"
  shows "well_typed (cc_declaration c) (cc_node c) \<and>
    compileEdgeCondition (node_js (cc_node c)) declaration = Inr c"
  using assms parse_well_typed parse_node_js unfolding compile_Inr by blast

definition sample_raw :: js where
  "sample_raw =
     JObj [(''kind'', JStr ''all''), (''operands'', JArr
        [JObj [(''kind'', JStr ''counterCompare''), (''field'', JStr ''n''), (''op'', JStr ''gte''), (''value'', JInt 2)],
         JObj [(''kind'', JStr ''not''), (''operand'',
            JObj [(''kind'', JStr ''factEquals''), (''field'', JStr ''done''), (''value'', JBool False)])]])]"

definition sample_declaration :: js where
  "sample_declaration = JObj [(''fields'', JObj [(''n'', JStr ''number''), (''done'', JStr ''boolean'')])]"

definition sample_condition :: compiled_condition where
  "sample_condition =
     \<lparr>cc_node = AllNode [CounterCompareNode ''n'' OpGte (Fin 2), NotNode (FactEqualsNode ''done'' (ScalarBool False))],
      cc_declaration = \<lparr>ed_fields = [(''n'', FactNumber), (''done'', FactBoolean)], ed_events = []\<rparr>\<rparr>"

lemma sample_compiles: "compileEdgeCondition sample_raw sample_declaration = Inr sample_condition"
  by code_simp

lemma compiled_condition_sound_witness:
  "compileEdgeCondition (node_js (cc_node sample_condition)) sample_declaration = Inr sample_condition"
  using compiled_condition_sound [OF sample_compiles] by blast

section \<open>Kleene logic\<close>

text \<open>The three outcomes as degrees of truth, and the strong connectives as minimum and maximum.\<close>

fun degree :: "edge_outcome \<Rightarrow> nat" where
  "degree OFalse = 0"
| "degree OIndeterminate = 1"
| "degree OTrue = 2"

lemma degree_inj [simp]: "degree a = degree b \<longleftrightarrow> a = b"
  by (cases a; cases b) simp_all

lemma degree_le: "degree a \<le> 2"
  by (cases a) simp_all

lemma degree_not: "degree (notK a) = 2 - degree a"
  by (cases a) simp_all

definition meet :: "nat list \<Rightarrow> nat" where
  "meet xs = foldr min xs 2"

definition join :: "nat list \<Rightarrow> nat" where
  "join xs = foldr max xs 0"

fun kleene :: "edge_node \<Rightarrow> edge_facts \<Rightarrow> nat" where
  "kleene (NotNode n) f = 2 - kleene n f"
| "kleene (AllNode ns) f = meet (map (\<lambda>n. kleene n f) ns)"
| "kleene (AnyNode ns) f = join (map (\<lambda>n. kleene n f) ns)"
| "kleene n f = degree (evaluateNode n f)"

lemma meet_join_simps [simp]:
  "meet [] = 2" "meet (x # xs) = min x (meet xs)" "join [] = 0" "join (x # xs) = max x (join xs)"
  by (simp_all add: meet_def join_def)

lemma meet_le: "meet xs \<le> 2"
  by (induction xs) auto

lemma min_2_meet [simp]: "min 2 (meet xs) = meet xs"
  using meet_le by (rule min_absorb2)

lemma join_le: "(\<And>x. x \<in> set xs \<Longrightarrow> x \<le> 2) \<Longrightarrow> join xs \<le> 2"
  by (induction xs) auto

lemma degree_allK:
  "degree (allK saw ns f) = (if saw then min 1 (meet (map (\<lambda>n. degree (evaluateNode n f)) ns))
     else meet (map (\<lambda>n. degree (evaluateNode n f)) ns))"
  by (induction ns arbitrary: saw) (auto split: edge_outcome.split)

lemma degree_anyK:
  "degree (anyK saw ns f) = (if saw then max 1 (join (map (\<lambda>n. degree (evaluateNode n f)) ns))
     else join (map (\<lambda>n. degree (evaluateNode n f)) ns))"
proof (induction ns arbitrary: saw)
  case (Cons n ns)
  have "join (map (\<lambda>n. degree (evaluateNode n f)) ns) \<le> 2" by (rule join_le) (auto simp: degree_le)
  with Cons show ?case by (cases "evaluateNode n f") (auto simp: max_def)
qed simp

text \<open>
  C25: The evaluator computes Kleene's strong three-valued logic: with the outcomes ordered as false,
  indeterminate, true, a conjunction is the minimum of its operands, a disjunction the maximum and a
  negation the reflection, at every nesting and for empty operand lists too; the early exit and the
  indeterminate flag of the loops change nothing. Hence De Morgan's law holds on all three values.
\<close>

theorem evaluation_is_kleene:
  "degree (evaluateNode n f) = kleene n f \<and>
   evaluateNode (NotNode (AllNode ns)) f = evaluateNode (AnyNode (map NotNode ns)) f"
proof -
  have k: "degree (evaluateNode n f) = kleene n f" for n
  proof (induction n)
    case (AllNode ns)
    then have eq: "map (\<lambda>n. degree (evaluateNode n f)) ns = map (\<lambda>n. kleene n f) ns" by simp
    show ?case by (simp only: evaluateNode.simps kleene.simps degree_allK eq if_False)
  next
    case (AnyNode ns)
    then have eq: "map (\<lambda>n. degree (evaluateNode n f)) ns = map (\<lambda>n. kleene n f) ns" by simp
    show ?case by (simp only: evaluateNode.simps kleene.simps degree_anyK eq if_False)
  qed (simp_all add: degree_not)
  have dual: "2 - meet xs = join (map (\<lambda>x. 2 - x) xs)" for xs :: "nat list"
    by (induction xs) (auto simp: min_def max_def)
  have "degree (evaluateNode (NotNode (AllNode ns)) f) = degree (evaluateNode (AnyNode (map NotNode ns)) f)"
    unfolding k by (simp add: dual comp_def)
  with k show ?thesis by simp
qed

section \<open>Definite outcomes\<close>

text \<open>Facts that give every declared field a value of its declared type.\<close>

definition value_has_type :: "js \<Rightarrow> fact_type \<Rightarrow> bool" where
  "value_has_type v t \<longleftrightarrow>
     (case t of
        FactString \<Rightarrow> \<exists>s. v = JStr s
      | FactNumber \<Rightarrow> \<exists>r. v = JNum (Fin r)
      | FactBoolean \<Rightarrow> \<exists>b. v = JBool b)"

definition complete_facts :: "edge_declaration \<Rightarrow> edge_facts \<Rightarrow> bool" where
  "complete_facts d f \<longleftrightarrow> (\<forall>x t. map_of (ed_fields d) x = Some t \<longrightarrow> value_has_type (readField f x) t)"

lemma outcome_of_bool_definite [simp]: "outcome_of_bool b \<noteq> OIndeterminate"
  by (simp add: outcome_of_bool_def)

lemma allK_definite:
  "\<forall>n \<in> set ns. evaluateNode n f \<noteq> OIndeterminate \<Longrightarrow> allK False ns f \<noteq> OIndeterminate"
  by (induction ns) (auto split: edge_outcome.split)

lemma anyK_definite:
  "\<forall>n \<in> set ns. evaluateNode n f \<noteq> OIndeterminate \<Longrightarrow> anyK False ns f \<noteq> OIndeterminate"
  by (induction ns) (auto split: edge_outcome.split)

lemma well_typed_definite:
  "well_typed d n \<Longrightarrow> complete_facts d f \<Longrightarrow> evaluateNode n f \<noteq> OIndeterminate"
proof (induction n)
  case (FactEqualsNode x v)
  then have "value_has_type (readField f x) (scalarType v)" by (auto simp: complete_facts_def)
  then show ?case by (auto simp: value_has_type_def split: fact_type.splits)
next
  case (CounterCompareNode x op m)
  then have "value_has_type (readField f x) FactNumber" by (auto simp: complete_facts_def)
  then show ?case by (auto simp: value_has_type_def)
next
  case (NotNode n)
  then show ?case by (cases "evaluateNode n f") auto
next
  case (AllNode ns)
  then show ?case by (simp add: allK_definite)
next
  case (AnyNode ns)
  then show ?case by (simp add: anyK_definite)
qed simp_all

text \<open>
  A compiled condition is never indeterminate on facts that give each declared field a value of
  its declared type: an edge blocks only for want of facts, never because of its condition.
\<close>

theorem complete_facts_decide:
  assumes "compileEdgeCondition raw declaration = Inr c" "complete_facts (cc_declaration c) facts"
  shows "evaluateEdgeCondition c facts \<noteq> OIndeterminate"
  using assms(1) well_typed_definite [OF parse_well_typed assms(2)]
  unfolding compile_Inr evaluateEdgeCondition_def by blast

definition sample_facts :: edge_facts where
  "sample_facts = \<lparr>ef_fields = [(''n'', JInt 3), (''done'', JBool True)], ef_events = []\<rparr>"

lemma complete_facts_decide_witness: "evaluateEdgeCondition sample_condition sample_facts \<noteq> OIndeterminate"
proof (rule complete_facts_decide [OF sample_compiles])
  have "readField sample_facts ''n'' = JNum (Fin 3)" "readField sample_facts ''done'' = JBool True" by code_simp+
  then show "complete_facts (cc_declaration sample_condition) sample_facts"
    by (auto simp: complete_facts_def sample_condition_def value_has_type_def)
qed

section \<open>The choice of an edge\<close>

abbreviation outcome_at :: "edge_candidate list \<Rightarrow> edge_facts \<Rightarrow> nat \<Rightarrow> edge_outcome" where
  "outcome_at cs f i \<equiv> evaluateEdgeCondition (ca_condition (cs ! i)) f"

text \<open>The first candidate that is not false, if there is one.\<close>

definition leads :: "edge_candidate list \<Rightarrow> edge_facts \<Rightarrow> nat \<Rightarrow> bool" where
  "leads cs f k \<longleftrightarrow> k < length cs \<and> outcome_at cs f k \<noteq> OFalse \<and> (\<forall>j < k. outcome_at cs f j = OFalse)"

definition true_ids :: "edge_candidate list \<Rightarrow> edge_facts \<Rightarrow> string list" where
  "true_ids cs f = map ca_edgeId (filter (\<lambda>c. evaluateEdgeCondition (ca_condition c) f = OTrue) cs)"

lemma evaluated_ids:
  "map ev_edgeId (filter (\<lambda>e. ev_outcome e = OTrue) (evaluate_from i cs f)) = true_ids cs f"
  by (induction cs arbitrary: i) (simp_all add: true_ids_def)

lemma select_loop_from:
  "case select_loop m (evaluate_from i cs f) of
     NoMatch \<Rightarrow> \<forall>k < length cs. outcome_at cs f k = OFalse
   | Selected e k b ids \<Rightarrow> \<exists>j. k = i + j \<and> leads cs f j \<and> outcome_at cs f j = OTrue \<and>
       e = ca_edgeId (cs ! j) \<and> b = (1 < length m) \<and> ids = m
   | Blocked e k \<Rightarrow> \<exists>j. k = i + j \<and> leads cs f j \<and> outcome_at cs f j = OIndeterminate \<and> e = ca_edgeId (cs ! j)"
proof (induction cs arbitrary: i)
  case (Cons c cs)
  have shift: "outcome_at (c # cs) f (Suc j) = outcome_at cs f j" for j by simp
  have lead: "leads (c # cs) f (Suc j) \<longleftrightarrow> leads cs f j" if "evaluateEdgeCondition (ca_condition c) f = OFalse" for j
    using that by (auto simp: leads_def All_less_Suc2)
  show ?case
  proof (cases "evaluateEdgeCondition (ca_condition c) f")
    case OFalse
    with Cons.IH [of "Suc i"] show ?thesis
      by (auto simp: lead All_less_Suc2 split: edge_selection.splits)
  next
    case OTrue
    then show ?thesis by (auto simp: leads_def intro!: exI [of _ 0])
  next
    case OIndeterminate
    then show ?thesis by (auto simp: leads_def intro!: exI [of _ 0])
  qed
qed simp

text \<open>
  The choice of an edge is decided by the first candidate whose condition is not false: it is
  selected when that condition is true, together with the list of all edges that are true and the flag
  that there is more than one; it blocks when the condition is indeterminate, even if a later candidate
  is true; and there is no match exactly when every candidate is false.
\<close>

theorem selection_follows_first:
  "(\<forall>e k multi ids. selectEdge cs f = Selected e k multi ids \<longrightarrow>
      leads cs f k \<and> outcome_at cs f k = OTrue \<and> e = ca_edgeId (cs ! k) \<and>
      ids = true_ids cs f \<and> multi = (1 < length ids)) \<and>
   (\<forall>e k. selectEdge cs f = Blocked e k \<longrightarrow>
      leads cs f k \<and> outcome_at cs f k = OIndeterminate \<and> e = ca_edgeId (cs ! k)) \<and>
   (selectEdge cs f = NoMatch \<longleftrightarrow> (\<forall>k < length cs. outcome_at cs f k = OFalse))"
proof -
  have s: "selectEdge cs f = select_loop (true_ids cs f) (evaluate_from 0 cs f)"
    by (simp add: selectEdge_def evaluateEdgeCandidates_def Let_def evaluated_ids)
  from select_loop_from [where m = "true_ids cs f" and i = 0 and cs = cs and f = f] show ?thesis
    unfolding s by (auto simp: leads_def split: edge_selection.splits)
qed

definition blocked_candidates :: "edge_candidate list" where
  "blocked_candidates =
     [\<lparr>ca_edgeId = ''retry'', ca_condition = sample_condition\<rparr>,
      \<lparr>ca_edgeId = ''always'', ca_condition = sample_condition\<lparr>cc_node := AllNode []\<rparr>\<rparr>]"

lemma selection_follows_first_witness:
  "outcome_at blocked_candidates \<lparr>ef_fields = [(''done'', JBool True)], ef_events = []\<rparr> 0 = OIndeterminate \<and>
   selectEdge blocked_candidates \<lparr>ef_fields = [(''done'', JBool True)], ef_events = []\<rparr> \<noteq> NoMatch"
proof -
  let ?f = "\<lparr>ef_fields = [(''done'', JBool True)], ef_events = []\<rparr> :: edge_facts"
  have "selectEdge blocked_candidates ?f = Blocked ''retry'' 0" by code_simp
  with selection_follows_first [of blocked_candidates ?f] show ?thesis by simp
qed

end
