(* ===== verification/Requirement_Strength.thy ===== *)
theory Requirement_Strength
  imports Requirement_Context "HOL-Library.List_Lexorder" "HOL-Library.Char_ord"
begin

text \<open>
  The obligations of a phase attempt as points of an order
  (\<open>src/workflow/admission/requirement-strength.ts\<close>), and their resolution from a context as a
  join of contributions (\<open>requirement-resolution.ts\<close>). Text is compared byte by byte, which is
  JavaScript's order on the characters that gate names use. Freezing changes no value.
\<close>

section \<open>Requirement sets\<close>

record resolved_requirements =
  rr_gates :: "resolved_gate list"
  rr_approvals :: rat
  rr_sources :: rat
  rr_waivable :: bool

text \<open>\<open>canonicalGateKey\<close> is \<open>gate_key\<close>. A sort by a comparator on keys is stable.\<close>

definition canonicalizeGates :: "resolved_gate list \<Rightarrow> resolved_gate list" where
  "canonicalizeGates gates = sort_key gate_key (dedup_from {} gate_key gates)"

definition deepFreezeRequirements :: "resolved_requirements \<Rightarrow> resolved_requirements" where
  "deepFreezeRequirements v = v\<lparr>rr_gates := canonicalizeGates (rr_gates v)\<rparr>"

definition BOTTOM_REQUIREMENTS :: resolved_requirements where
  "BOTTOM_REQUIREMENTS =
     deepFreezeRequirements \<lparr>rr_gates = [], rr_approvals = 0, rr_sources = 0, rr_waivable = True\<rparr>"

definition gatesContain :: "resolved_gate list \<Rightarrow> resolved_gate list \<Rightarrow> bool" where
  "gatesContain held required \<longleftrightarrow> (\<forall>g \<in> set required. gate_key g \<in> gate_key ` set held)"

definition unionGates :: "resolved_gate list \<Rightarrow> resolved_gate list \<Rightarrow> resolved_gate list" where
  "unionGates a b = canonicalizeGates (a @ b)"

definition gatesEqual :: "resolved_gate list \<Rightarrow> resolved_gate list \<Rightarrow> bool" where
  "gatesEqual a b \<longleftrightarrow> gatesContain a b \<and> gatesContain b a"

definition atLeastAsStrong :: "resolved_requirements \<Rightarrow> resolved_requirements \<Rightarrow> bool" where
  "atLeastAsStrong a b \<longleftrightarrow>
     gatesContain (rr_gates a) (rr_gates b) \<and> rr_approvals b \<le> rr_approvals a \<and>
     rr_sources b \<le> rr_sources a \<and> (rr_waivable b \<or> \<not> rr_waivable a)"

definition equalRequirements :: "resolved_requirements \<Rightarrow> resolved_requirements \<Rightarrow> bool" where
  "equalRequirements a b \<longleftrightarrow>
     rr_approvals a = rr_approvals b \<and> rr_sources a = rr_sources b \<and>
     rr_waivable a = rr_waivable b \<and> gatesEqual (rr_gates a) (rr_gates b)"

datatype strength_comparison = StrengthEq | Stronger | Weaker | Incomparable

definition compareStrength :: "resolved_requirements \<Rightarrow> resolved_requirements \<Rightarrow> strength_comparison" where
  "compareStrength a b =
     (if atLeastAsStrong a b \<and> atLeastAsStrong b a then StrengthEq
      else if atLeastAsStrong a b then Stronger
      else if atLeastAsStrong b a then Weaker
      else Incomparable)"

definition joinRequirements :: "resolved_requirements \<Rightarrow> resolved_requirements \<Rightarrow> resolved_requirements" where
  "joinRequirements a b =
     deepFreezeRequirements
       \<lparr>rr_gates = unionGates (rr_gates a) (rr_gates b),
        rr_approvals = max (rr_approvals a) (rr_approvals b),
        rr_sources = max (rr_sources a) (rr_sources b),
        rr_waivable = (rr_waivable a \<and> rr_waivable b)\<rparr>"

definition joinAll :: "resolved_requirements list \<Rightarrow> resolved_requirements" where
  "joinAll items = foldl joinRequirements BOTTOM_REQUIREMENTS items"

section \<open>Laws of the order\<close>

lemma canonicalizeGates_set [simp]: "set (canonicalizeGates gs) = set gs"
  by (simp add: canonicalizeGates_def dedup_from_set inj_gate_key)

lemma gatesContain_iff [simp]: "gatesContain a b \<longleftrightarrow> set b \<subseteq> set a"
  by (auto simp: gatesContain_def inj_image_mem_iff [OF inj_gate_key])

lemma gatesEqual_iff [simp]: "gatesEqual a b \<longleftrightarrow> set a = set b"
  by (auto simp: gatesEqual_def)

lemma joinRequirements_simps [simp]:
  "set (rr_gates (joinRequirements a b)) = set (rr_gates a) \<union> set (rr_gates b)"
  "rr_approvals (joinRequirements a b) = max (rr_approvals a) (rr_approvals b)"
  "rr_sources (joinRequirements a b) = max (rr_sources a) (rr_sources b)"
  "rr_waivable (joinRequirements a b) \<longleftrightarrow> rr_waivable a \<and> rr_waivable b"
  by (simp_all add: joinRequirements_def deepFreezeRequirements_def unionGates_def)

text \<open>The order with the weaker element first, as the contract of a join reads it.\<close>

definition weaker_eq :: "resolved_requirements \<Rightarrow> resolved_requirements \<Rightarrow> bool" where
  "weaker_eq b a \<longleftrightarrow> atLeastAsStrong a b"

interpretation strength: upper_join weaker_eq joinRequirements
  by unfold_locales (auto simp: weaker_eq_def atLeastAsStrong_def)

lemma equal_iff_both: "equalRequirements a b \<longleftrightarrow> atLeastAsStrong a b \<and> atLeastAsStrong b a"
  by (auto simp: equalRequirements_def atLeastAsStrong_def)

text \<open>A canonical gate list is determined by its set.\<close>

lemma sorted_by_key_unique:
  assumes "sorted (map gate_key xs)" "distinct xs" "sorted (map gate_key ys)" "distinct ys" "set xs = set ys"
  shows "xs = ys"
proof -
  have "map gate_key xs = map gate_key ys"
    using assms by (intro sorted_distinct_set_unique)
      (auto simp: distinct_map intro: inj_on_subset [OF inj_gate_key])
  then show ?thesis using inj_gate_key by (simp add: inj_map_eq_map)
qed

lemma canonical_shape:
  "sorted (map gate_key (canonicalizeGates gs))" "distinct (canonicalizeGates gs)"
proof -
  show "sorted (map gate_key (canonicalizeGates gs))" by (simp add: canonicalizeGates_def)
  have "distinct (map gate_key (dedup_from {} gate_key gs))" by (rule dedup_from_distinct)
  then show "distinct (canonicalizeGates gs)" by (simp add: canonicalizeGates_def distinct_map)
qed

lemma canonicalize_cong: "set a = set b \<Longrightarrow> canonicalizeGates a = canonicalizeGates b"
  by (rule sorted_by_key_unique) (simp_all add: canonical_shape)

definition canonical :: "resolved_requirements \<Rightarrow> bool" where
  "canonical a \<longleftrightarrow> rr_gates a = canonicalizeGates (rr_gates a)"

lemma canonical_join [simp]: "canonical (joinRequirements a b)"
  unfolding canonical_def joinRequirements_def deepFreezeRequirements_def
  by simp (rule canonicalize_cong, simp)

lemma canonical_equal: "canonical a \<Longrightarrow> canonical b \<Longrightarrow> equalRequirements a b \<longleftrightarrow> a = b"
  by (auto simp: canonical_def equalRequirements_def dest: canonicalize_cong intro!: resolved_requirements.equality)

section \<open>Contributions\<close>

definition effectiveRiskTier :: "resolved_tier \<Rightarrow> risk_tier" where
  "effectiveRiskTier r = (case r of UnknownTier \<Rightarrow> High | Tier t \<Rightarrow> t)"

definition effectiveBoundaryTouching :: "boundary_status \<Rightarrow> bool" where
  "effectiveBoundaryTouching b \<longleftrightarrow> b \<noteq> NotTouching"

definition RISK_OBLIGATIONS :: "resolved_tier \<Rightarrow> rat \<times> rat" where
  "RISK_OBLIGATIONS r =
     (case r of
        Tier Low \<Rightarrow> (0, 0) | Tier Medium \<Rightarrow> (0, 0) | Tier High \<Rightarrow> (1, 0) | UnknownTier \<Rightarrow> (1, 2))"

definition BOUNDARY_CORROBORATION :: "boundary_status \<Rightarrow> rat" where
  "BOUNDARY_CORROBORATION b = (case b of NotTouching \<Rightarrow> 0 | Touching \<Rightarrow> 0 | Indeterminate \<Rightarrow> 2)"

definition RELIABILITY_CORROBORATION :: "reliability \<Rightarrow> rat" where
  "RELIABILITY_CORROBORATION r = (case r of Reliable \<Rightarrow> 0 | Degraded \<Rightarrow> 2 | UnknownReliability \<Rightarrow> 3)"

definition gate_ctx_of :: "requirement_context \<Rightarrow> gate_ctx" where
  "gate_ctx_of c =
     \<lparr>ctx_tier = Tier (effectiveRiskTier (rc_risk c)),
      ctx_boundary = effectiveBoundaryTouching (rc_boundary c),
      ctx_config = None,
      ctx_workflow = rc_workflow c,
      ctx_depth = (case rc_depth c of None \<Rightarrow> JUndef | Some d \<Rightarrow> JStr (design_depth_str d))\<rparr>"

definition gateContribution :: "requirement_context \<Rightarrow> js_exn + resolved_requirements" where
  "gateContribution c =
     bind_result (resolveGateSet (rc_kind c) (gate_ctx_of c)) (\<lambda>gs. Inr (BOTTOM_REQUIREMENTS\<lparr>rr_gates := gs\<rparr>))"

definition declaredGateContribution :: "requirement_context \<Rightarrow> resolved_requirements" where
  "declaredGateContribution c = BOTTOM_REQUIREMENTS\<lparr>rr_gates := rc_gates c\<rparr>"

definition riskContribution :: "requirement_context \<Rightarrow> resolved_requirements" where
  "riskContribution c =
     BOTTOM_REQUIREMENTS\<lparr>rr_approvals := fst (RISK_OBLIGATIONS (rc_risk c)),
                         rr_sources := snd (RISK_OBLIGATIONS (rc_risk c))\<rparr>"

definition boundaryContribution :: "requirement_context \<Rightarrow> resolved_requirements" where
  "boundaryContribution c = BOTTOM_REQUIREMENTS\<lparr>rr_sources := BOUNDARY_CORROBORATION (rc_boundary c)\<rparr>"

definition reliabilityContribution :: "requirement_context \<Rightarrow> resolved_requirements" where
  "reliabilityContribution c = BOTTOM_REQUIREMENTS\<lparr>rr_sources := RELIABILITY_CORROBORATION (rc_reliability c)\<rparr>"

definition policyContribution :: "requirement_context \<Rightarrow> resolved_requirements" where
  "policyContribution c =
     BOTTOM_REQUIREMENTS\<lparr>rr_approvals := minimumApprovals (rc_policy c), rr_waivable := waivable (rc_policy c)\<rparr>"

definition resolveRequirements :: "requirement_context \<Rightarrow> js_exn + resolved_requirements" where
  "resolveRequirements c =
     bind_result (gateContribution c) (\<lambda>gates.
       Inr (joinAll [gates, declaredGateContribution c, riskContribution c, boundaryContribution c,
                     reliabilityContribution c, policyContribution c]))"

section \<open>Authored requirements\<close>

datatype action_requirement =
    GateRequire string string
  | ApprovalsRequire rat
  | CorroborationRequire rat

datatype action_requires = RequiresNone string | RequiresDeclared "action_requirement list"

definition asResolvedGate :: "action_requirement \<Rightarrow> resolved_gate option" where
  "asResolvedGate r =
     (case r of
        GateRequire f g \<Rightarrow> map_option (\<lambda>fam. Gate fam g) (family_of f)
      | _ \<Rightarrow> None)"

text \<open>The loop of \<open>resolveActionIdRequirements\<close>; a gate of an unknown family adds nothing.\<close>

definition action_step :: "resolved_requirements \<Rightarrow> action_requirement \<Rightarrow> resolved_requirements" where
  "action_step acc r =
     (case asResolvedGate r of
        Some g \<Rightarrow> acc\<lparr>rr_gates := rr_gates acc @ [g]\<rparr>
      | None \<Rightarrow>
          (case r of
             ApprovalsRequire n \<Rightarrow> acc\<lparr>rr_approvals := max (rr_approvals acc) n\<rparr>
           | CorroborationRequire n \<Rightarrow> acc\<lparr>rr_sources := max (rr_sources acc) n\<rparr>
           | GateRequire _ _ \<Rightarrow> acc))"

definition resolveActionIdRequirements :: "action_requires \<Rightarrow> resolved_requirements" where
  "resolveActionIdRequirements requires =
     (case requires of
        RequiresNone _ \<Rightarrow> BOTTOM_REQUIREMENTS
      | RequiresDeclared values \<Rightarrow>
          (let r = foldl action_step \<lparr>rr_gates = [], rr_approvals = 0, rr_sources = 0, rr_waivable = True\<rparr> values
           in deepFreezeRequirements (r\<lparr>rr_gates := canonicalizeGates (rr_gates r)\<rparr>)))"

definition authoredActionRequirements :: "action_requires \<Rightarrow> action_requirement list" where
  "authoredActionRequirements requires =
     (case requires of RequiresNone _ \<Rightarrow> [] | RequiresDeclared values \<Rightarrow> values)"

end
