(* ===== verification/Admission_Types.thy ===== *)
theory Admission_Types
  imports Requirement_Strength
begin

text \<open>
  The persisted records of admission (\<open>src/workflow/admission/types.ts\<close>): digests, evidence
  subjects, principals, requirements, evidence and waivers, as their schemas parse them; the schemas'
  checks on the text of identifiers are not repeated. A record parsed by a schema is a value of these
  types, so the discriminant of a union is a constructor; fields that only documentation reads (the
  contract version, a rationale, artifact references) are left out. With them the trust oracle of
  \<open>policy-authority.ts\<close>, whose functions are the fields of a record.
\<close>

section \<open>Digests and subjects\<close>

record content_digest =
  cd_algorithm :: string
  cd_value :: string

datatype subject_kind =
    WorkflowSubject
  | PhaseAttemptSubject
  | WaveSubject
  | TaskSubject
  | CommitSubject
  | DiffSubject
  | ArtifactSubject

text \<open>The subject's kind, the identifier that its kind names, and its digest.\<close>

record evidence_subject =
  su_kind :: subject_kind
  su_identity :: string
  su_digest :: content_digest

definition subject_kind_str :: "subject_kind \<Rightarrow> string" where
  "subject_kind_str k =
     (case k of WorkflowSubject \<Rightarrow> ''workflow'' | PhaseAttemptSubject \<Rightarrow> ''phase-attempt''
              | WaveSubject \<Rightarrow> ''wave'' | TaskSubject \<Rightarrow> ''task'' | CommitSubject \<Rightarrow> ''commit''
              | DiffSubject \<Rightarrow> ''diff'' | ArtifactSubject \<Rightarrow> ''artifact'')"

definition subject_field :: "subject_kind \<Rightarrow> string" where
  "subject_field k =
     (case k of WorkflowSubject \<Rightarrow> ''workflowId'' | PhaseAttemptSubject \<Rightarrow> ''phaseAttemptId''
              | WaveSubject \<Rightarrow> ''waveId'' | TaskSubject \<Rightarrow> ''taskId'' | CommitSubject \<Rightarrow> ''commitId''
              | DiffSubject \<Rightarrow> ''diffId'' | ArtifactSubject \<Rightarrow> ''artifactId'')"

definition digestKey :: "content_digest \<Rightarrow> string" where
  "digestKey d = cd_algorithm d @ '':'' @ cd_value d"

text \<open>\<open>subjectIdentityKey\<close> of \<open>waiver.ts\<close>, which \<open>select-evidence.ts\<close> repeats as \<open>subjectKey\<close>.\<close>

definition subjectIdentityKey :: "evidence_subject \<Rightarrow> string" where
  "subjectIdentityKey s =
     subject_kind_str (su_kind s) @ '':'' @ su_identity s @ '':'' @ digestKey (su_digest s)"

section \<open>Principals and authority\<close>

datatype principal_kind = Operator | Agent | Service

record principal =
  pr_kind :: principal_kind
  pr_id :: string
  pr_role :: string

record authorization_snapshot =
  as_authorizationId :: string
  as_posture :: string
  as_capabilityIds :: "string list"
  as_resolverVersion :: string
  as_resolvedAt :: string

record evidence_producer =
  ep_producerId :: string
  ep_providerRef :: string
  ep_providerVersion :: string
  ep_invocationId :: string

record policy_authority =
  authorizesGateEvidence :: "evidence_producer \<Rightarrow> bool"
  authorizesApproval :: "principal \<Rightarrow> bool"
  authorizesWaiver :: "principal \<Rightarrow> authorization_snapshot \<Rightarrow> bool"

record capability_grant =
  cg_principalId :: string
  cg_capabilities :: "string list"

definition ISSUE_GATE_EVIDENCE :: string where
  "ISSUE_GATE_EVIDENCE = ''admission:issue-gate-evidence''"

definition ISSUE_APPROVAL :: string where
  "ISSUE_APPROVAL = ''admission:issue-approval''"

definition GRANT_WAIVER :: string where
  "GRANT_WAIVER = ''admission:grant-waiver''"

text \<open>The directory of \<open>createCapabilityAuthority\<close>: the grants of one principal merge.\<close>

definition grant_directory :: "capability_grant list \<Rightarrow> (string \<times> string list) list" where
  "grant_directory grants =
     fold (\<lambda>g dir. AList.update (cg_principalId g)
       ((case map_of dir (cg_principalId g) of None \<Rightarrow> [] | Some cs \<Rightarrow> cs) @ cg_capabilities g) dir) grants []"

definition holds_capability :: "(string \<times> string list) list \<Rightarrow> string \<Rightarrow> string \<Rightarrow> bool" where
  "holds_capability dir p c = (case map_of dir p of None \<Rightarrow> False | Some cs \<Rightarrow> c \<in> set cs)"

definition createCapabilityAuthority :: "capability_grant list \<Rightarrow> policy_authority" where
  "createCapabilityAuthority grants =
     (let dir = grant_directory grants in
      \<lparr>authorizesGateEvidence = (\<lambda>p. holds_capability dir (ep_producerId p) ISSUE_GATE_EVIDENCE),
       authorizesApproval = (\<lambda>p. holds_capability dir (pr_id p) ISSUE_APPROVAL),
       authorizesWaiver = (\<lambda>p _. holds_capability dir (pr_id p) GRANT_WAIVER)\<rparr>)"

definition DENY_ALL_AUTHORITY :: policy_authority where
  "DENY_ALL_AUTHORITY =
     \<lparr>authorizesGateEvidence = (\<lambda>_. False), authorizesApproval = (\<lambda>_. False),
      authorizesWaiver = (\<lambda>_ _. False)\<rparr>"

section \<open>Requirements, evidence and waivers\<close>

datatype requirement_kind =
    GateEvidenceRequirement string
  | ApprovalRequirement string nat
  | CorroborationRequirement string nat

record requirement =
  rq_id :: string
  rq_attempt :: string
  rq_subject :: evidence_subject
  rq_kind :: requirement_kind

datatype gate_verdict = GatePass | GateFail | GateIndeterminate

datatype approval_verdict = Approved | Rejected

datatype evidence_kind =
    GateEvidence gate_verdict
  | ApprovalEvidence approval_verdict principal

record evidence =
  ev_id :: string
  ev_requirement :: string
  ev_attempt :: string
  ev_subject :: evidence_subject
  ev_producer :: evidence_producer
  ev_policyId :: string
  ev_policyDigest :: content_digest
  ev_contentDigest :: content_digest
  ev_createdAt :: string
  ev_kind :: evidence_kind

datatype waiver_scope =
    WorkflowScope string
  | AttemptScope string
  | SubjectScope evidence_subject

text \<open>An issued waiver grants; a revocation or a supersession names the waiver that it ends.\<close>

datatype waiver_event =
    Issued waiver_scope "string list" string
  | Revoked
  | Superseded string

record waiver =
  wa_id :: string
  wa_actor :: principal
  wa_authorization :: authorization_snapshot
  wa_event :: waiver_event

end
