(* ===== verification/Policy_Evaluation.thy ===== *)
theory Policy_Evaluation
  imports Admission_Types
begin

text \<open>
  Waivers (\<open>src/workflow/admission/waiver.ts\<close>) and the evaluation of a requirement set against
  evidence (\<open>policy-evaluation.ts\<close>). \<open>Date.parse\<close> is the function \<open>ex_date\<close> of the evaluation
  context: milliseconds, or \<open>None\<close> where JavaScript gives NaN. Identifiers are compared byte by byte;
  their schema admits ASCII characters only.
\<close>

section \<open>Waivers\<close>

type_synonym date_parse = "string \<Rightarrow> int option"

definition isIssuedWaiver :: "waiver \<Rightarrow> bool" where
  "isIssuedWaiver w = (case wa_event w of Issued _ _ _ \<Rightarrow> True | _ \<Rightarrow> False)"

datatype waiver_reason =
    NotAnIssuance
  | NotWaivable
  | RequirementNotDeclared
  | SubjectOutOfScope
  | Expired
  | UnauthorizedWaiver

record waiver_target =
  wt_requirement :: string
  wt_subject :: evidence_subject
  wt_attempt :: string

record waiver_options =
  wo_date :: date_parse
  wo_evaluatedAt :: string
  wo_waivable :: bool
  wo_authority :: policy_authority

text \<open>\<open>None\<close> when the waiver applies, and the reason when it does not.\<close>

type_synonym waiver_applicability = "waiver_reason option"

fun waiverScopeCovers :: "waiver_scope \<Rightarrow> waiver_target \<Rightarrow> bool" where
  "waiverScopeCovers (SubjectScope s) t = (subjectIdentityKey s = subjectIdentityKey (wt_subject t))"
| "waiverScopeCovers (AttemptScope a) t = (a = wt_attempt t)"
| "waiverScopeCovers (WorkflowScope w) t =
     (su_kind (wt_subject t) = WorkflowSubject \<and> su_identity (wt_subject t) = w)"

definition beforeExpiry :: "date_parse \<Rightarrow> string \<Rightarrow> string \<Rightarrow> bool" where
  "beforeExpiry date evaluatedAt expiresAt =
     (case (date evaluatedAt, date expiresAt) of
        (Some now, Some expiry) \<Rightarrow> now < expiry
      | _ \<Rightarrow> False)"

definition evaluateWaiver :: "waiver \<Rightarrow> waiver_target \<Rightarrow> waiver_options \<Rightarrow> waiver_applicability" where
  "evaluateWaiver w t opts =
     (case wa_event w of
        Issued scope declared expiresAt \<Rightarrow>
          if \<not> wo_waivable opts then Some NotWaivable
          else if wt_requirement t \<notin> set declared then Some RequirementNotDeclared
          else if \<not> waiverScopeCovers scope t then Some SubjectOutOfScope
          else if \<not> beforeExpiry (wo_date opts) (wo_evaluatedAt opts) expiresAt then Some Expired
          else if \<not> authorizesWaiver (wo_authority opts) (wa_actor w) (wa_authorization w)
            then Some UnauthorizedWaiver
          else None
      | _ \<Rightarrow> Some NotAnIssuance)"

definition selectApplicableWaiver :: "waiver list \<Rightarrow> waiver_target \<Rightarrow> waiver_options \<Rightarrow> waiver option" where
  "selectApplicableWaiver waivers t opts =
     find (\<lambda>w. evaluateWaiver w t opts = None \<and> isIssuedWaiver w) (sort_key wa_id waivers)"

section \<open>Dispositions\<close>

datatype verdict = VAllow | VDeny | VIndeterminate

datatype deny_reason = DMissing | DFailed | DStale | DMalformed | DContradictory | DUnauthorized

datatype indeterminate_code =
    PolicyUnavailable
  | RequirementUnresolved
  | EvidenceMalformed
  | EvidenceUnsupported
  | DigestMismatch
  | EvaluatorFailed

datatype disposition =
    Satisfied "string list"
  | Denied deny_reason "string list"
  | Unknown indeterminate_code "string list"

record eval_context =
  ex_date :: date_parse
  ex_authority :: policy_authority
  ex_evaluatedAt :: string
  ex_horizon :: rat

definition sortedIds :: "evidence list \<Rightarrow> string list" where
  "sortedIds es = sort (dedup_from {} id (map ev_id es))"

definition satisfied :: "evidence list \<Rightarrow> disposition" where
  "satisfied es = Satisfied (sortedIds es)"

definition denied :: "deny_reason \<Rightarrow> evidence list \<Rightarrow> disposition" where
  "denied r es = Denied r (sortedIds es)"

definition indeterminate :: "indeterminate_code \<Rightarrow> evidence list \<Rightarrow> disposition" where
  "indeterminate c es = Unknown c (sortedIds es)"

definition wellFormed :: "evidence \<Rightarrow> evidence_subject \<Rightarrow> string \<Rightarrow> bool" where
  "wellFormed e s a \<longleftrightarrow> subjectIdentityKey (ev_subject e) = subjectIdentityKey s \<and> ev_attempt e = a"

definition isStale :: "evidence \<Rightarrow> eval_context \<Rightarrow> bool" where
  "isStale e ctx =
     (case (ex_date ctx (ev_createdAt e), ex_date ctx (ex_evaluatedAt ctx)) of
        (Some created, Some now) \<Rightarrow> ex_horizon ctx < of_int (now - created)
      | _ \<Rightarrow> True)"

definition isAuthorized :: "evidence \<Rightarrow> eval_context \<Rightarrow> bool" where
  "isAuthorized e ctx =
     (case ev_kind e of
        GateEvidence _ \<Rightarrow> authorizesGateEvidence (ex_authority ctx) (ev_producer e)
      | ApprovalEvidence _ p \<Rightarrow> authorizesApproval (ex_authority ctx) p)"

definition isSatisfyingVerdict :: "evidence \<Rightarrow> bool" where
  "isSatisfyingVerdict e =
     (case ev_kind e of GateEvidence v \<Rightarrow> v = GatePass | ApprovalEvidence v _ \<Rightarrow> v = Approved)"

definition independenceKey :: "evidence \<Rightarrow> string" where
  "independenceKey e =
     (case ev_kind e of
        GateEvidence _ \<Rightarrow> ''gate:'' @ ep_producerId (ev_producer e)
      | ApprovalEvidence _ p \<Rightarrow> ''approval:'' @ pr_id p)"

definition is_gate :: "evidence \<Rightarrow> bool" where
  "is_gate e = (case ev_kind e of GateEvidence _ \<Rightarrow> True | _ \<Rightarrow> False)"

definition has_gate_verdict :: "gate_verdict \<Rightarrow> evidence \<Rightarrow> bool" where
  "has_gate_verdict v e \<longleftrightarrow> ev_kind e = GateEvidence v"

definition has_approval_verdict :: "approval_verdict \<Rightarrow> evidence \<Rightarrow> bool" where
  "has_approval_verdict v e = (case ev_kind e of ApprovalEvidence v' _ \<Rightarrow> v' = v | _ \<Rightarrow> False)"

definition approver :: "evidence \<Rightarrow> string" where
  "approver e = (case ev_kind e of ApprovalEvidence _ p \<Rightarrow> pr_id p | _ \<Rightarrow> '''')"

section \<open>One requirement\<close>

definition evaluateGate :: "evidence_subject \<Rightarrow> string \<Rightarrow> evidence list \<Rightarrow> eval_context \<Rightarrow> disposition" where
  "evaluateGate s a matched ctx =
     (let gate = filter is_gate matched;
          malformed = filter (\<lambda>e. \<not> wellFormed e s a) gate;
          unauthorized = filter (\<lambda>e. \<not> isAuthorized e ctx) gate;
          fresh = filter (\<lambda>e. \<not> isStale e ctx) gate;
          passing = filter (has_gate_verdict GatePass) fresh;
          failing = filter (has_gate_verdict GateFail) fresh
      in if gate = [] then denied DMissing []
         else if malformed \<noteq> [] then denied DMalformed malformed
         else if unauthorized \<noteq> [] then denied DUnauthorized unauthorized
         else if fresh = [] then denied DStale gate
         else if passing \<noteq> [] then satisfied passing
         else if failing \<noteq> [] then denied DFailed failing
         else indeterminate EvaluatorFailed fresh)"

definition evaluateApproval ::
    "evidence_subject \<Rightarrow> string \<Rightarrow> nat \<Rightarrow> evidence list \<Rightarrow> eval_context \<Rightarrow> disposition" where
  "evaluateApproval s a minimum matched ctx =
     (let approvals = filter (\<lambda>e. \<not> is_gate e) matched;
          malformed = filter (\<lambda>e. \<not> wellFormed e s a) approvals;
          unauthorized = filter (\<lambda>e. \<not> isAuthorized e ctx) approvals;
          fresh = filter (\<lambda>e. \<not> isStale e ctx) approvals;
          approved = filter (has_approval_verdict Approved) fresh;
          rejected = filter (has_approval_verdict Rejected) fresh
      in if approvals = [] then denied DMissing []
         else if malformed \<noteq> [] then denied DMalformed malformed
         else if unauthorized \<noteq> [] then denied DUnauthorized unauthorized
         else if fresh = [] then denied DStale approvals
         else if minimum \<le> card (approver ` set approved) then satisfied approved
         else if rejected \<noteq> [] then denied DFailed rejected
         else denied DMissing approved)"

definition evaluateCorroboration ::
    "evidence_subject \<Rightarrow> string \<Rightarrow> nat \<Rightarrow> evidence list \<Rightarrow> eval_context \<Rightarrow> disposition" where
  "evaluateCorroboration s a minimum source ctx =
     (let malformed = filter (\<lambda>e. \<not> wellFormed e s a) source;
          unauthorized = filter (\<lambda>e. \<not> isAuthorized e ctx) source;
          fresh = filter (\<lambda>e. \<not> isStale e ctx) source;
          satisfying = filter isSatisfyingVerdict fresh
      in if source = [] then denied DMissing []
         else if malformed \<noteq> [] then denied DMalformed malformed
         else if unauthorized \<noteq> [] then denied DUnauthorized unauthorized
         else if fresh = [] then denied DStale source
         else if minimum \<le> card (independenceKey ` set satisfying) then satisfied satisfying
         else denied DMissing satisfying)"

text \<open>\<open>byRequirement.get(id) ?? []\<close>: the active evidence of a requirement, in input order.\<close>

definition evidence_for :: "evidence list \<Rightarrow> string \<Rightarrow> evidence list" where
  "evidence_for es i = filter (\<lambda>e. ev_requirement e = i) es"

definition governingIds :: "requirement \<Rightarrow> string list" where
  "governingIds r =
     (case rq_kind r of
        CorroborationRequirement s _ \<Rightarrow> [rq_id r, s]
      | _ \<Rightarrow> [rq_id r])"

definition evaluateRequirement ::
    "requirement \<Rightarrow> evidence list \<Rightarrow> string list \<Rightarrow> eval_context \<Rightarrow> disposition" where
  "evaluateRequirement r active contradicted ctx =
     (if \<exists>i \<in> set (governingIds r). i \<in> set contradicted
      then denied DContradictory (concat (map (evidence_for active) (governingIds r)))
      else (case rq_kind r of
          GateEvidenceRequirement _ \<Rightarrow>
            evaluateGate (rq_subject r) (rq_attempt r) (evidence_for active (rq_id r)) ctx
        | ApprovalRequirement _ n \<Rightarrow>
            evaluateApproval (rq_subject r) (rq_attempt r) n (evidence_for active (rq_id r)) ctx
        | CorroborationRequirement s n \<Rightarrow>
            evaluateCorroboration (rq_subject r) (rq_attempt r) n (evidence_for active s) ctx))"

section \<open>The policy\<close>

datatype evaluation_status =
    StSatisfied
  | StDenied deny_reason
  | StWaived string deny_reason
  | StIndeterminate indeterminate_code

record requirement_evaluation =
  re_requirement :: string
  re_status :: evaluation_status
  re_evidence :: "string list"

record recorded_failure =
  rf_requirement :: string
  rf_reason :: deny_reason
  rf_evidence :: "string list"
  rf_waiver :: "string option"

record policy_evaluation =
  pe_verdict :: verdict
  pe_evaluations :: "requirement_evaluation list"
  pe_failures :: "recorded_failure list"
  pe_waivers :: "string list"

text \<open>Of a contradiction, the evaluation reads its requirement only.\<close>

record policy_input =
  pi_requirements :: "requirement list"
  pi_obligations :: resolved_requirements
  pi_active :: "evidence list"
  pi_contradicted :: "string list"
  pi_waivers :: "waiver list"
  pi_context :: eval_context

definition target_of :: "requirement \<Rightarrow> waiver_target" where
  "target_of r = \<lparr>wt_requirement = rq_id r, wt_subject = rq_subject r, wt_attempt = rq_attempt r\<rparr>"

definition options_of :: "policy_input \<Rightarrow> waiver_options" where
  "options_of inp =
     \<lparr>wo_date = ex_date (pi_context inp), wo_evaluatedAt = ex_evaluatedAt (pi_context inp),
      wo_waivable = rr_waivable (pi_obligations inp), wo_authority = ex_authority (pi_context inp)\<rparr>"

text \<open>One round of the loop: the evaluation of a requirement, and its failure if there is one.\<close>

definition evaluate_one :: "policy_input \<Rightarrow> requirement \<Rightarrow> requirement_evaluation \<times> recorded_failure option" where
  "evaluate_one inp r =
     (case evaluateRequirement r (pi_active inp) (pi_contradicted inp) (pi_context inp) of
        Satisfied ids \<Rightarrow> (\<lparr>re_requirement = rq_id r, re_status = StSatisfied, re_evidence = ids\<rparr>, None)
      | Unknown c ids \<Rightarrow> (\<lparr>re_requirement = rq_id r, re_status = StIndeterminate c, re_evidence = ids\<rparr>, None)
      | Denied why ids \<Rightarrow>
          (case selectApplicableWaiver (pi_waivers inp) (target_of r) (options_of inp) of
             Some w \<Rightarrow>
               (\<lparr>re_requirement = rq_id r, re_status = StWaived (wa_id w) why, re_evidence = ids\<rparr>,
                Some \<lparr>rf_requirement = rq_id r, rf_reason = why, rf_evidence = ids, rf_waiver = Some (wa_id w)\<rparr>)
           | None \<Rightarrow>
               (\<lparr>re_requirement = rq_id r, re_status = StDenied why, re_evidence = ids\<rparr>,
                Some \<lparr>rf_requirement = rq_id r, rf_reason = why, rf_evidence = ids, rf_waiver = None\<rparr>)))"

definition is_denied :: "requirement_evaluation \<Rightarrow> bool" where
  "is_denied e = (case re_status e of StDenied _ \<Rightarrow> True | _ \<Rightarrow> False)"

definition is_indeterminate :: "requirement_evaluation \<Rightarrow> bool" where
  "is_indeterminate e = (case re_status e of StIndeterminate _ \<Rightarrow> True | _ \<Rightarrow> False)"

definition evaluatePolicy :: "policy_input \<Rightarrow> policy_evaluation" where
  "evaluatePolicy inp =
     (let rounds = map (evaluate_one inp) (pi_requirements inp);
          evaluations = map fst rounds;
          failures = List.map_filter snd rounds
      in \<lparr>pe_verdict =
            (if \<exists>e \<in> set evaluations. is_denied e then VDeny
             else if \<exists>e \<in> set evaluations. is_indeterminate e then VIndeterminate
             else VAllow),
          pe_evaluations = sort_key re_requirement evaluations,
          pe_failures = sort_key rf_requirement failures,
          pe_waivers = sort (dedup_from {} id (List.map_filter rf_waiver failures))\<rparr>)"

section \<open>Authored requirements\<close>

record authored_input =
  ai_requirements :: "action_requirement list"
  ai_obligations :: resolved_requirements
  ai_evidence :: "evidence list"
  ai_attempt :: "string option"
  ai_date :: date_parse
  ai_evaluatedAt :: string
  ai_horizon :: rat
  ai_authorizes :: "evidence \<Rightarrow> bool"

definition evidenceMatchesDiscriminant :: "evidence \<Rightarrow> action_requirement \<Rightarrow> bool" where
  "evidenceMatchesDiscriminant e r =
     (case r of
        GateRequire f g \<Rightarrow>
          is_gate e \<and> (ev_requirement e = g \<or> ev_requirement e = f @ '':'' @ g \<or>
            ev_requirement e = ''gate:'' @ f @ '':'' @ g)
      | ApprovalsRequire _ \<Rightarrow> \<not> is_gate e
      | CorroborationRequire _ \<Rightarrow> True)"

definition attemptMismatch :: "evidence \<Rightarrow> string option \<Rightarrow> bool" where
  "attemptMismatch e a = (case a of None \<Rightarrow> False | Some p \<Rightarrow> ev_attempt e \<noteq> p)"

datatype statement = SSatisfied | SUnsatisfied | SIndeterminate

definition statementOfAuthored :: "evidence \<Rightarrow> statement" where
  "statementOfAuthored e =
     (case ev_kind e of
        ApprovalEvidence v _ \<Rightarrow> if v = Approved then SSatisfied else SUnsatisfied
      | GateEvidence GatePass \<Rightarrow> SSatisfied
      | GateEvidence GateFail \<Rightarrow> SUnsatisfied
      | GateEvidence GateIndeterminate \<Rightarrow> SIndeterminate)"

definition authoredContradiction :: "evidence list \<Rightarrow> bool" where
  "authoredContradiction es \<longleftrightarrow>
     SSatisfied \<in> statementOfAuthored ` set es \<and> SUnsatisfied \<in> statementOfAuthored ` set es"

text \<open>The last stage, on the fresh evidence.\<close>

definition evaluate_fresh :: "action_requirement \<Rightarrow> evidence list \<Rightarrow> disposition" where
  "evaluate_fresh r fresh =
     (case r of
        GateRequire _ _ \<Rightarrow>
          (let passing = filter (has_gate_verdict GatePass) fresh;
               failing = filter (has_gate_verdict GateFail) fresh
           in if passing \<noteq> [] then satisfied passing
              else if failing \<noteq> [] then denied DFailed failing
              else indeterminate EvaluatorFailed fresh)
      | ApprovalsRequire n \<Rightarrow>
          (let approved = filter (has_approval_verdict Approved) fresh;
               rejected = filter (has_approval_verdict Rejected) fresh
           in if n \<le> of_nat (card (approver ` set approved)) then satisfied approved
              else if rejected \<noteq> [] then denied DFailed rejected
              else denied DMissing approved)
      | CorroborationRequire n \<Rightarrow>
          (let satisfying = filter isSatisfyingVerdict fresh
           in if n \<le> of_nat (card (independenceKey ` set satisfying)) then satisfied satisfying
              else denied DMissing satisfying))"

definition evaluateAuthoredRequirement ::
    "action_requirement \<Rightarrow> evidence list \<Rightarrow> eval_context \<Rightarrow> string option \<Rightarrow> (evidence \<Rightarrow> bool) \<Rightarrow> disposition" where
  "evaluateAuthoredRequirement r es ctx attempt authorizes =
     (let matched = filter (\<lambda>e. evidenceMatchesDiscriminant e r) es;
          malformed = filter (\<lambda>e. attemptMismatch e attempt) matched;
          unauthorized = filter (\<lambda>e. \<not> authorizes e) matched;
          fresh = filter (\<lambda>e. \<not> isStale e ctx) matched
      in if matched = [] then denied DMissing []
         else if malformed \<noteq> [] then denied DMalformed malformed
         else if unauthorized \<noteq> [] then denied DUnauthorized unauthorized
         else if fresh = [] then denied DStale matched
         else if authoredContradiction fresh then denied DContradictory fresh
         else evaluate_fresh r fresh)"

definition deny_of :: "disposition \<Rightarrow> deny_reason option" where
  "deny_of d = (case d of Denied r _ \<Rightarrow> Some r | _ \<Rightarrow> None)"

definition is_unknown :: "disposition \<Rightarrow> bool" where
  "is_unknown d = (case d of Unknown _ _ \<Rightarrow> True | _ \<Rightarrow> False)"

definition evaluateAuthoredRequirements :: "authored_input \<Rightarrow> verdict" where
  "evaluateAuthoredRequirements inp =
     (let ctx = \<lparr>ex_date = ai_date inp, ex_authority = DENY_ALL_AUTHORITY,
                 ex_evaluatedAt = ai_evaluatedAt inp, ex_horizon = ai_horizon inp\<rparr>;
          ds = map (\<lambda>r. evaluateAuthoredRequirement r (ai_evidence inp) ctx (ai_attempt inp) (ai_authorizes inp))
                 (ai_requirements inp)
      in if \<exists>d \<in> set ds. deny_of d \<noteq> None
         then (if rr_waivable (ai_obligations inp) \<and> ai_attempt inp = None \<and>
                 (\<forall>d \<in> set ds. deny_of d \<in> {None, Some DMissing, Some DFailed})
               then VIndeterminate else VDeny)
         else if \<exists>d \<in> set ds. is_unknown d then VIndeterminate
         else VAllow)"

end
