(* ===== verification/Admission_Laws.thy ===== *)
theory Admission_Laws
  imports Policy_Evaluation
begin

text \<open>
  What an admission verdict guarantees: an allow is earned requirement by requirement by evidence or
  by a waiver in force, a failure stays on record, the order of arrival decides nothing, and only the
  issuance of a waiver is read.
\<close>

section \<open>Waivers in force\<close>

definition in_force :: "waiver_options \<Rightarrow> waiver_target \<Rightarrow> waiver \<Rightarrow> bool" where
  "in_force opts t w \<longleftrightarrow> wo_waivable opts \<and>
     (\<exists>scope declared expiresAt. wa_event w = Issued scope declared expiresAt \<and>
        wt_requirement t \<in> set declared \<and> waiverScopeCovers scope t \<and>
        beforeExpiry (wo_date opts) (wo_evaluatedAt opts) expiresAt) \<and>
     authorizesWaiver (wo_authority opts) (wa_actor w) (wa_authorization w)"

lemma evaluateWaiver_None: "evaluateWaiver w t opts = None \<longleftrightarrow> in_force opts t w"
  by (auto simp: evaluateWaiver_def in_force_def split: waiver_event.splits)

lemma in_force_issued: "in_force opts t w \<Longrightarrow> isIssuedWaiver w"
  by (auto simp: in_force_def isIssuedWaiver_def)

lemma select_find: "selectApplicableWaiver ws t opts = find (in_force opts t) (sort_key wa_id ws)"
  unfolding selectApplicableWaiver_def evaluateWaiver_None
  by (rule find_cong) (auto dest: in_force_issued)

lemma find_SomeD: "find P xs = Some x \<Longrightarrow> x \<in> set xs \<and> P x"
  by (induction xs) (auto split: if_splits)

lemma select_Some: "selectApplicableWaiver ws t opts = Some w \<Longrightarrow> w \<in> set ws \<and> in_force opts t w"
  unfolding select_find by (drule find_SomeD) simp

lemma select_None: "selectApplicableWaiver ws t opts = None \<longleftrightarrow> (\<forall>w \<in> set ws. \<not> in_force opts t w)"
  unfolding select_find by (auto simp: find_None_iff)

lemma find_hd_filter: "find P xs = (case filter P xs of [] \<Rightarrow> None | x # _ \<Rightarrow> Some x)"
  by (induction xs) auto

text \<open>
  A waiver is granted by its issuance alone: facts that are not issuances, among them the
  revocation and the supersession of the very waiver that is in force, change nothing in the choice.
\<close>

theorem revocation_changes_nothing:
  assumes "\<forall>v \<in> set facts. \<not> isIssuedWaiver v"
  shows "selectApplicableWaiver (ws @ facts) t opts = selectApplicableWaiver ws t opts"
proof -
  have "filter (in_force opts t) facts = []" using assms in_force_issued by (auto simp: filter_empty_conv)
  then show ?thesis unfolding select_find find_hd_filter filter_sort by simp
qed

definition any_date :: date_parse where
  "any_date s = Some (int (length s))"

definition some_subject :: evidence_subject where
  "some_subject = \<lparr>su_kind = TaskSubject, su_identity = ''task-1'',
     su_digest = \<lparr>cd_algorithm = ''sha256'', cd_value = ''00''\<rparr>\<rparr>"

definition some_actor :: principal where
  "some_actor = \<lparr>pr_kind = Operator, pr_id = ''owner'', pr_role = ''release''\<rparr>"

definition some_authorization :: authorization_snapshot where
  "some_authorization = \<lparr>as_authorizationId = ''authz'', as_posture = ''read-only'', as_capabilityIds = [],
     as_resolverVersion = ''1'', as_resolvedAt = ''now''\<rparr>"

definition owner_authority :: policy_authority where
  "owner_authority = createCapabilityAuthority
     [\<lparr>cg_principalId = ''owner'', cg_capabilities = [GRANT_WAIVER, ISSUE_APPROVAL]\<rparr>,
      \<lparr>cg_principalId = ''runner'', cg_capabilities = [ISSUE_GATE_EVIDENCE]\<rparr>]"

definition issued_waiver :: waiver where
  "issued_waiver = \<lparr>wa_id = ''waiver-1'', wa_actor = some_actor, wa_authorization = some_authorization,
     wa_event = Issued (SubjectScope some_subject) [''req-gate''] ''later on''\<rparr>"

definition revoked_waiver :: waiver where
  "revoked_waiver = issued_waiver\<lparr>wa_event := Revoked\<rparr>"

definition some_target :: waiver_target where
  "some_target = \<lparr>wt_requirement = ''req-gate'', wt_subject = some_subject, wt_attempt = ''attempt-1''\<rparr>"

definition some_options :: waiver_options where
  "some_options = \<lparr>wo_date = any_date, wo_evaluatedAt = ''now'', wo_waivable = True, wo_authority = owner_authority\<rparr>"

lemma issued_applies: "map_option wa_id (selectApplicableWaiver [issued_waiver] some_target some_options) = Some ''waiver-1''"
  by code_simp

lemma revocation_changes_nothing_witness:
  "map_option wa_id (selectApplicableWaiver [issued_waiver, revoked_waiver] some_target some_options) = Some ''waiver-1'' \<and>
   wa_id revoked_waiver = ''waiver-1'' \<and> wa_event revoked_waiver = Revoked"
proof -
  have "\<forall>v \<in> set [revoked_waiver]. \<not> isIssuedWaiver v" by (simp add: revoked_waiver_def isIssuedWaiver_def)
  from revocation_changes_nothing [OF this, of "[issued_waiver]" some_target some_options] issued_applies
  show ?thesis by (simp add: revoked_waiver_def issued_waiver_def)
qed

section \<open>Earned verdicts\<close>

text \<open>Evidence that counts for a requirement: active, on its subject and attempt, authorised, fresh.\<close>

definition counts_for :: "policy_input \<Rightarrow> requirement \<Rightarrow> string \<Rightarrow> evidence \<Rightarrow> bool" where
  "counts_for inp r source e \<longleftrightarrow> e \<in> set (pi_active inp) \<and> ev_requirement e = source \<and>
     wellFormed e (rq_subject r) (rq_attempt r) \<and> isAuthorized e (pi_context inp) \<and>
     \<not> isStale e (pi_context inp)"

definition discharged :: "policy_input \<Rightarrow> requirement \<Rightarrow> bool" where
  "discharged inp r \<longleftrightarrow>
     (\<forall>i \<in> set (governingIds r). i \<notin> set (pi_contradicted inp)) \<and>
     (case rq_kind r of
        GateEvidenceRequirement _ \<Rightarrow>
          \<exists>e. counts_for inp r (rq_id r) e \<and> has_gate_verdict GatePass e
      | ApprovalRequirement _ n \<Rightarrow>
          \<exists>P. finite P \<and> n \<le> card P \<and>
            (\<forall>p \<in> P. \<exists>e. counts_for inp r (rq_id r) e \<and> has_approval_verdict Approved e \<and> approver e = p)
      | CorroborationRequirement s n \<Rightarrow>
          \<exists>K. finite K \<and> n \<le> card K \<and>
            (\<forall>k \<in> K. \<exists>e. counts_for inp r s e \<and> isSatisfyingVerdict e \<and> independenceKey e = k))"

lemma simple_dispositions [simp]:
  "denied w es \<noteq> Satisfied ids" "indeterminate c es \<noteq> Satisfied ids" "denied w es \<noteq> Unknown c' ids"
  "satisfied es \<noteq> Denied w' ids" "indeterminate c es \<noteq> Denied w' ids" "satisfied es \<noteq> Unknown c' ids"
  by (simp_all add: denied_def indeterminate_def satisfied_def)

lemma empty_filter: "filter P xs = [] \<longleftrightarrow> (\<forall>x \<in> set xs. \<not> P x)"
  by (rule filter_empty_conv)

lemma evidence_for_set [simp]: "e \<in> set (evidence_for es i) \<longleftrightarrow> e \<in> set es \<and> ev_requirement e = i"
  by (auto simp: evidence_for_def)

lemma gate_satisfied:
  assumes "evaluateGate s a es ctx = Satisfied ids"
  shows "\<exists>e \<in> set es. has_gate_verdict GatePass e \<and> wellFormed e s a \<and> isAuthorized e ctx \<and> \<not> isStale e ctx"
proof -
  let ?gate = "filter is_gate es" and ?fresh = "filter (\<lambda>e. \<not> isStale e ctx) (filter is_gate es)"
  have "filter (has_gate_verdict GatePass) ?fresh \<noteq> []" "filter (\<lambda>e. \<not> wellFormed e s a) ?gate = []"
    "filter (\<lambda>e. \<not> isAuthorized e ctx) ?gate = []"
    using assms by (auto simp: evaluateGate_def Let_def split: if_splits)
  then show ?thesis unfolding empty_filter by auto
qed

lemma approval_satisfied:
  assumes "evaluateApproval s a n es ctx = Satisfied ids"
  shows "\<exists>P. finite P \<and> n \<le> card P \<and> (\<forall>p \<in> P. \<exists>e \<in> set es. has_approval_verdict Approved e \<and> approver e = p \<and>
    wellFormed e s a \<and> isAuthorized e ctx \<and> \<not> isStale e ctx)"
proof -
  let ?as = "filter (\<lambda>e. \<not> is_gate e) es"
  let ?ok = "filter (has_approval_verdict Approved) (filter (\<lambda>e. \<not> isStale e ctx) ?as)"
  have ok: "n \<le> card (approver ` set ?ok)" "filter (\<lambda>e. \<not> wellFormed e s a) ?as = []"
    "filter (\<lambda>e. \<not> isAuthorized e ctx) ?as = []"
    using assms by (auto simp: evaluateApproval_def Let_def split: if_splits)
  have "\<forall>p \<in> approver ` set ?ok. \<exists>e \<in> set es. has_approval_verdict Approved e \<and> approver e = p \<and>
      wellFormed e s a \<and> isAuthorized e ctx \<and> \<not> isStale e ctx"
    using ok(2,3) unfolding empty_filter by auto
  with ok(1) show ?thesis by (intro exI [of _ "approver ` set ?ok"]) simp
qed

lemma corroboration_satisfied:
  assumes "evaluateCorroboration s a n es ctx = Satisfied ids"
  shows "\<exists>K. finite K \<and> n \<le> card K \<and> (\<forall>k \<in> K. \<exists>e \<in> set es. isSatisfyingVerdict e \<and> independenceKey e = k \<and>
    wellFormed e s a \<and> isAuthorized e ctx \<and> \<not> isStale e ctx)"
proof -
  let ?ok = "filter isSatisfyingVerdict (filter (\<lambda>e. \<not> isStale e ctx) es)"
  have ok: "n \<le> card (independenceKey ` set ?ok)" "filter (\<lambda>e. \<not> wellFormed e s a) es = []"
    "filter (\<lambda>e. \<not> isAuthorized e ctx) es = []"
    using assms by (auto simp: evaluateCorroboration_def Let_def split: if_splits)
  have "\<forall>k \<in> independenceKey ` set ?ok. \<exists>e \<in> set es. isSatisfyingVerdict e \<and> independenceKey e = k \<and>
      wellFormed e s a \<and> isAuthorized e ctx \<and> \<not> isStale e ctx"
    using ok(2,3) unfolding empty_filter by auto
  with ok(1) show ?thesis by (intro exI [of _ "independenceKey ` set ?ok"]) simp
qed

lemma requirement_satisfied:
  assumes "evaluateRequirement r (pi_active inp) (pi_contradicted inp) (pi_context inp) = Satisfied ids"
  shows "discharged inp r"
proof -
  have clean: "\<forall>i \<in> set (governingIds r). i \<notin> set (pi_contradicted inp)"
    using assms by (auto simp: evaluateRequirement_def split: if_splits)
  then have no: "\<not> (\<exists>i \<in> set (governingIds r). i \<in> set (pi_contradicted inp))" by blast
  note body = assms [unfolded evaluateRequirement_def if_not_P [OF no]]
  show ?thesis
  proof (cases "rq_kind r")
    case (GateEvidenceRequirement g)
    obtain e where "e \<in> set (evidence_for (pi_active inp) (rq_id r))" "has_gate_verdict GatePass e"
      "wellFormed e (rq_subject r) (rq_attempt r)" "isAuthorized e (pi_context inp)" "\<not> isStale e (pi_context inp)"
      using gate_satisfied [OF body [unfolded GateEvidenceRequirement requirement_kind.case]] by blast
    then have "counts_for inp r (rq_id r) e \<and> has_gate_verdict GatePass e" by (simp add: counts_for_def)
    with clean show ?thesis unfolding discharged_def GateEvidenceRequirement requirement_kind.case by blast
  next
    case (ApprovalRequirement c n)
    obtain P where P: "finite P" "n \<le> card P" "\<forall>p \<in> P. \<exists>e \<in> set (evidence_for (pi_active inp) (rq_id r)).
        has_approval_verdict Approved e \<and> approver e = p \<and> wellFormed e (rq_subject r) (rq_attempt r) \<and>
        isAuthorized e (pi_context inp) \<and> \<not> isStale e (pi_context inp)"
      using approval_satisfied [OF body [unfolded ApprovalRequirement requirement_kind.case]] by blast
    have "\<exists>e. counts_for inp r (rq_id r) e \<and> has_approval_verdict Approved e \<and> approver e = p" if "p \<in> P" for p
      using bspec [OF P(3) that] by (auto simp: counts_for_def)
    with P(1,2) clean show ?thesis unfolding discharged_def ApprovalRequirement requirement_kind.case by blast
  next
    case (CorroborationRequirement s n)
    obtain K where K: "finite K" "n \<le> card K" "\<forall>k \<in> K. \<exists>e \<in> set (evidence_for (pi_active inp) s).
        isSatisfyingVerdict e \<and> independenceKey e = k \<and> wellFormed e (rq_subject r) (rq_attempt r) \<and>
        isAuthorized e (pi_context inp) \<and> \<not> isStale e (pi_context inp)"
      using corroboration_satisfied [OF body [unfolded CorroborationRequirement requirement_kind.case]] by blast
    have "\<exists>e. counts_for inp r s e \<and> isSatisfyingVerdict e \<and> independenceKey e = k" if "k \<in> K" for k
      using bspec [OF K(3) that] by (auto simp: counts_for_def)
    with K(1,2) clean show ?thesis unfolding discharged_def CorroborationRequirement requirement_kind.case by blast
  qed
qed

lemma evaluate_one_status:
  "re_requirement (fst (evaluate_one inp r)) = rq_id r"
  "is_denied (fst (evaluate_one inp r)) \<longleftrightarrow>
     (\<exists>w ids. evaluateRequirement r (pi_active inp) (pi_contradicted inp) (pi_context inp) = Denied w ids) \<and>
     selectApplicableWaiver (pi_waivers inp) (target_of r) (options_of inp) = None"
  "is_indeterminate (fst (evaluate_one inp r)) \<longleftrightarrow>
     (\<exists>c ids. evaluateRequirement r (pi_active inp) (pi_contradicted inp) (pi_context inp) = Unknown c ids)"
  by (auto simp: evaluate_one_def is_denied_def is_indeterminate_def split: disposition.splits option.splits)

lemma allow_iff:
  "pe_verdict (evaluatePolicy inp) = VAllow \<longleftrightarrow>
   (\<forall>r \<in> set (pi_requirements inp).
      \<not> is_denied (fst (evaluate_one inp r)) \<and> \<not> is_indeterminate (fst (evaluate_one inp r)))"
  by (auto simp: evaluatePolicy_def Let_def)

lemma allow_earns:
  assumes "pe_verdict (evaluatePolicy inp) = VAllow" "r \<in> set (pi_requirements inp)"
  shows "discharged inp r \<or> (\<exists>w \<in> set (pi_waivers inp). in_force (options_of inp) (target_of r) w)"
proof (cases "evaluateRequirement r (pi_active inp) (pi_contradicted inp) (pi_context inp)")
  case (Satisfied ids)
  then show ?thesis using requirement_satisfied by blast
next
  case (Denied w ids)
  then obtain v where "selectApplicableWaiver (pi_waivers inp) (target_of r) (options_of inp) = Some v"
    using assms by (auto simp: allow_iff evaluate_one_status)
  then show ?thesis using select_Some by blast
next
  case (Unknown c ids)
  then show ?thesis using assms by (auto simp: allow_iff evaluate_one_status)
qed

text \<open>
  C21: An allow is earned by every requirement: either it is discharged, free of contradictions, by
  active evidence on its own subject and attempt that is fresh and comes from an authorised principal
  (a passing gate, as many distinct approvers as it asks for, as many independent sources as it asks
  for); or the obligations are waivable and an issued, unexpired waiver of an authorised actor covers
  the target and names the requirement.
\<close>

theorem allow_is_earned:
  assumes "pe_verdict (evaluatePolicy inp) = VAllow" "r \<in> set (pi_requirements inp)"
  shows "discharged inp r \<or> (\<exists>w \<in> set (pi_waivers inp). in_force (options_of inp) (target_of r) w)"
  using assms by (rule allow_earns)

definition some_producer :: evidence_producer where
  "some_producer = \<lparr>ep_producerId = ''runner'', ep_providerRef = ''ci'', ep_providerVersion = ''1'',
     ep_invocationId = ''run-1''\<rparr>"

definition gate_record :: "string \<Rightarrow> gate_verdict \<Rightarrow> evidence" where
  "gate_record i v = \<lparr>ev_id = i, ev_requirement = ''req-gate'', ev_attempt = ''attempt-1'', ev_subject = some_subject,
     ev_producer = some_producer, ev_policyId = ''policy'', ev_policyDigest = su_digest some_subject,
     ev_contentDigest = su_digest some_subject, ev_createdAt = ''now'', ev_kind = GateEvidence v\<rparr>"

definition gate_requirement :: requirement where
  "gate_requirement = \<lparr>rq_id = ''req-gate'', rq_attempt = ''attempt-1'', rq_subject = some_subject,
     rq_kind = GateEvidenceRequirement ''gate-1''\<rparr>"

definition some_input :: "evidence list \<Rightarrow> waiver list \<Rightarrow> policy_input" where
  "some_input es ws = \<lparr>pi_requirements = [gate_requirement],
     pi_obligations = BOTTOM_REQUIREMENTS, pi_active = es, pi_contradicted = [], pi_waivers = ws,
     pi_context = \<lparr>ex_date = any_date, ex_authority = owner_authority, ex_evaluatedAt = ''now'', ex_horizon = 10\<rparr>\<rparr>"

lemma waived_allows: "pe_verdict (evaluatePolicy (some_input [gate_record ''e1'' GateFail] [issued_waiver])) = VAllow"
  by code_simp

lemma allow_is_earned_witness:
  "\<exists>w \<in> set [issued_waiver]. in_force (options_of (some_input [gate_record ''e1'' GateFail] [issued_waiver]))
     (target_of gate_requirement) w"
proof -
  let ?inp = "some_input [gate_record ''e1'' GateFail] [issued_waiver]"
  have "\<not> discharged ?inp gate_requirement"
    by (auto simp: discharged_def counts_for_def some_input_def gate_requirement_def gate_record_def has_gate_verdict_def)
  moreover have "gate_requirement \<in> set (pi_requirements ?inp)" by (simp add: some_input_def)
  ultimately have "\<exists>w \<in> set (pi_waivers ?inp). in_force (options_of ?inp) (target_of gate_requirement) w"
    using allow_is_earned [OF waived_allows] by blast
  then show ?thesis by (simp add: some_input_def)
qed

section \<open>Failures on record\<close>

lemma map_filter_image: "y \<in> set (List.map_filter f xs) \<longleftrightarrow> (\<exists>x \<in> set xs. f x = Some y)"
  by (induction xs) (auto simp: List.map_filter_simps split: option.splits)

text \<open>
  A requirement that is denied on its evidence stays on record with its reason and its evidence,
  whether or not a waiver lets it through; a waiver is listed exactly when it was used on such a
  failure; and an undecided requirement is never allowed, whatever waivers there are.
\<close>

theorem failures_stay_on_record:
  assumes "r \<in> set (pi_requirements inp)"
  shows "(\<forall>why ids. evaluateRequirement r (pi_active inp) (pi_contradicted inp) (pi_context inp) = Denied why ids \<longrightarrow>
      \<lparr>rf_requirement = rq_id r, rf_reason = why, rf_evidence = ids,
       rf_waiver = map_option wa_id (selectApplicableWaiver (pi_waivers inp) (target_of r) (options_of inp))\<rparr>
        \<in> set (pe_failures (evaluatePolicy inp))) \<and>
    (\<forall>c ids. evaluateRequirement r (pi_active inp) (pi_contradicted inp) (pi_context inp) = Unknown c ids \<longrightarrow>
      pe_verdict (evaluatePolicy inp) \<noteq> VAllow) \<and>
    set (pe_waivers (evaluatePolicy inp)) = {w. \<exists>f \<in> set (pe_failures (evaluatePolicy inp)). rf_waiver f = Some w}"
proof (intro conjI allI impI)
  fix why ids
  assume d: "evaluateRequirement r (pi_active inp) (pi_contradicted inp) (pi_context inp) = Denied why ids"
  let ?f = "\<lparr>rf_requirement = rq_id r, rf_reason = why, rf_evidence = ids,
       rf_waiver = map_option wa_id (selectApplicableWaiver (pi_waivers inp) (target_of r) (options_of inp))\<rparr>"
  have "snd (evaluate_one inp r) = Some ?f"
    by (cases "selectApplicableWaiver (pi_waivers inp) (target_of r) (options_of inp)") (simp_all add: evaluate_one_def d)
  then show "?f \<in> set (pe_failures (evaluatePolicy inp))"
    using assms by (auto simp: evaluatePolicy_def Let_def map_filter_image)
next
  fix c ids
  assume "evaluateRequirement r (pi_active inp) (pi_contradicted inp) (pi_context inp) = Unknown c ids"
  then have "is_indeterminate (fst (evaluate_one inp r))" unfolding evaluate_one_status by blast
  with assms show "pe_verdict (evaluatePolicy inp) \<noteq> VAllow" unfolding allow_iff by blast
next
  show "set (pe_waivers (evaluatePolicy inp)) = {w. \<exists>f \<in> set (pe_failures (evaluatePolicy inp)). rf_waiver f = Some w}"
    by (auto simp: evaluatePolicy_def Let_def dedup_from_set map_filter_image Bex_def, blast)
qed

lemma failures_stay_on_record_witness:
  "\<exists>f \<in> set (pe_failures (evaluatePolicy (some_input [gate_record ''e1'' GateFail] [issued_waiver]))).
     rf_reason f = DFailed \<and> rf_waiver f = Some ''waiver-1''"
proof -
  let ?inp = "some_input [gate_record ''e1'' GateFail] [issued_waiver]"
  have r: "gate_requirement \<in> set (pi_requirements ?inp)" by (simp add: some_input_def)
  have d: "evaluateRequirement gate_requirement (pi_active ?inp) (pi_contradicted ?inp) (pi_context ?inp) = Denied DFailed [''e1'']"
    "map_option wa_id (selectApplicableWaiver (pi_waivers ?inp) (target_of gate_requirement) (options_of ?inp)) = Some ''waiver-1''"
    by code_simp+
  from failures_stay_on_record [OF r] d show ?thesis by force
qed

section \<open>Arrival order\<close>

lemma sortedIds_cong: "set es = set fs \<Longrightarrow> sortedIds es = sortedIds fs"
proof -
  assume "set es = set fs"
  then have "set (dedup_from {} id (map ev_id es)) = set (dedup_from {} id (map ev_id fs))"
    by (simp add: dedup_from_set)
  moreover have "distinct (dedup_from {} id (map ev_id es))" "distinct (dedup_from {} id (map ev_id fs))"
    using dedup_from_distinct [of id "{}"] by (simp_all add: distinct_map)
  ultimately show ?thesis unfolding sortedIds_def
    by (intro sorted_distinct_set_unique) simp_all
qed

lemma set_eq_Nil: "set es = set fs \<Longrightarrow> es = [] \<longleftrightarrow> fs = []"
  by auto

lemma filter_set_cong: "set es = set fs \<Longrightarrow> set (filter P es) = set (filter P fs)"
  by simp

text \<open>Every test and every result of the evaluators depends on the set of the evidence only.\<close>

lemma disposition_cong:
  assumes "set es = set fs"
  shows "denied w (filter P es) = denied w (filter P fs)" "satisfied (filter P es) = satisfied (filter P fs)"
    "indeterminate c (filter P es) = indeterminate c (filter P fs)" "denied w es = denied w fs"
    "filter P es = [] \<longleftrightarrow> filter P fs = []" "es = [] \<longleftrightarrow> fs = []"
  using assms by (auto simp: denied_def satisfied_def indeterminate_def filter_empty_conv intro!: sortedIds_cong)

lemma evaluators_cong:
  assumes "set es = set fs"
  shows "evaluateGate s a es ctx = evaluateGate s a fs ctx"
    "evaluateApproval s a n es ctx = evaluateApproval s a n fs ctx"
    "evaluateCorroboration s a n es ctx = evaluateCorroboration s a n fs ctx"
  unfolding evaluateGate_def evaluateApproval_def evaluateCorroboration_def Let_def filter_filter
  by (simp_all add: disposition_cong [OF assms] assms)

lemma requirement_cong:
  assumes "set es = set fs"
  shows "evaluateRequirement r es cs ctx = evaluateRequirement r fs cs ctx"
proof -
  have one: "set (evidence_for es i) = set (evidence_for fs i)" for i using assms by auto
  have "set (concat (map (evidence_for es) is)) = set (concat (map (evidence_for fs) is))" for "is"
    using assms by auto
  then show ?thesis unfolding evaluateRequirement_def
    by (auto simp: evaluators_cong [OF one] disposition_cong(4) split: requirement_kind.split)
qed

lemma select_cong:
  assumes "set ws = set vs" "distinct (map wa_id ws)" "distinct (map wa_id vs)"
  shows "selectApplicableWaiver ws = selectApplicableWaiver vs"
proof -
  have inj: "inj_on wa_id (set ws)" using assms(2) by (simp add: distinct_map)
  have "sort_key wa_id ws = sort_key wa_id vs"
  proof (rule map_inj_on)
    show "map wa_id (sort_key wa_id ws) = map wa_id (sort_key wa_id vs)"
      using assms by (intro sorted_distinct_set_unique) (auto simp: distinct_map)
    show "inj_on wa_id (set (sort_key wa_id ws) \<union> set (sort_key wa_id vs))" using inj assms(1) by simp
  qed
  then show ?thesis by (intro ext) (simp add: selectApplicableWaiver_def)
qed

text \<open>
  The arrival order of evidence and of waivers decides nothing: two inputs that hold the same
  evidence and, under distinct ids, the same waivers get the same verdict, evaluations, recorded
  failures and applied waivers.
\<close>

theorem arrival_order_irrelevant:
  assumes "set (pi_active inp) = set es" "set (pi_waivers inp) = set ws"
    and "distinct (map wa_id (pi_waivers inp))" "distinct (map wa_id ws)"
  shows "evaluatePolicy (inp\<lparr>pi_active := es, pi_waivers := ws\<rparr>) = evaluatePolicy inp"
proof -
  have o: "options_of (inp\<lparr>pi_active := es, pi_waivers := ws\<rparr>) = options_of inp" by (simp add: options_of_def)
  have req: "evaluateRequirement r es cs ctx = evaluateRequirement r (pi_active inp) cs ctx" for r cs ctx
    by (rule requirement_cong) (simp add: assms(1))
  have sel: "selectApplicableWaiver ws t opts = selectApplicableWaiver (pi_waivers inp) t opts" for t opts
    using select_cong [of ws "pi_waivers inp"] assms by simp
  have one: "evaluate_one (inp\<lparr>pi_active := es, pi_waivers := ws\<rparr>) = evaluate_one inp"
  proof
    fix r
    show "evaluate_one (inp\<lparr>pi_active := es, pi_waivers := ws\<rparr>) r = evaluate_one inp r"
      unfolding evaluate_one_def o by (simp add: req sel split: disposition.split)
  qed
  show ?thesis unfolding evaluatePolicy_def one by simp
qed

lemma arrival_order_irrelevant_witness:
  "evaluatePolicy (some_input [gate_record ''e2'' GatePass, gate_record ''e1'' GateFail] [issued_waiver]) =
   evaluatePolicy (some_input [gate_record ''e1'' GateFail, gate_record ''e2'' GatePass] [issued_waiver])"
proof -
  let ?inp = "some_input [gate_record ''e1'' GateFail, gate_record ''e2'' GatePass] [issued_waiver]"
  have "?inp\<lparr>pi_active := [gate_record ''e2'' GatePass, gate_record ''e1'' GateFail], pi_waivers := [issued_waiver]\<rparr> =
      some_input [gate_record ''e2'' GatePass, gate_record ''e1'' GateFail] [issued_waiver]"
    by (simp add: some_input_def)
  with arrival_order_irrelevant [of ?inp "[gate_record ''e2'' GatePass, gate_record ''e1'' GateFail]" "[issued_waiver]"]
  show ?thesis by (auto simp: some_input_def)
qed

end
