(* ===== verification/Requirement_Freeze.thy ===== *)
theory Requirement_Freeze
  imports Admission_Types
begin

text \<open>
  Freezing an obligation point into persisted requirement records
  (\<open>src/workflow/admission/freeze-requirements.ts\<close>). The SHA-256 of \<open>node:crypto\<close> is the argument
  \<open>sha\<close>: a function from text to its 64 hexadecimal digits. The schema's parse of a record can fail
  on its numbers only, because every identifier here is built from such digits or was parsed before.
\<close>

section \<open>Canonical JSON\<close>

fun canonicalJson :: "js \<Rightarrow> string" where
  "canonicalJson (JArr xs) = ''['' @ join_with '','' (map canonicalJson xs) @ '']''"
| "canonicalJson (JObj fs) =
     ''{'' @ join_with '',''
       (map (\<lambda>(k, t). json_quote k @ '':'' @ t)
         (sort_key fst (map (\<lambda>(k, v). (k, canonicalJson v)) fs))) @ ''}''"
| "canonicalJson v = json_text v"

definition stableId :: "(string \<Rightarrow> string) \<Rightarrow> string \<Rightarrow> js \<Rightarrow> string" where
  "stableId sha p discriminant = p @ ''-'' @ take 40 (sha (canonicalJson discriminant))"

definition digest_js :: "content_digest \<Rightarrow> js" where
  "digest_js d = JObj [(''algorithm'', JStr (cd_algorithm d)), (''value'', JStr (cd_value d))]"

definition subjectIdentity :: "evidence_subject \<Rightarrow> js" where
  "subjectIdentity s =
     JObj [(''kind'', JStr (subject_kind_str (su_kind s))),
           (subject_field (su_kind s), JStr (su_identity s)),
           (''digest'', digest_js (su_digest s))]"

definition gateDiscriminant :: "resolved_gate \<Rightarrow> js" where
  "gateDiscriminant g = gate_js g"

section \<open>Records\<close>

record binding =
  bi_attempt :: string
  bi_subject :: evidence_subject

definition projectGate :: "(string \<Rightarrow> string) \<Rightarrow> resolved_gate \<Rightarrow> binding \<Rightarrow> requirement" where
  "projectGate sha g b =
     \<lparr>rq_id = stableId sha ''req.gate''
        (JObj [(''kind'', JStr ''gate-evidence''), (''gate'', gateDiscriminant g),
               (''phaseAttemptId'', JStr (bi_attempt b)), (''subject'', subjectIdentity (bi_subject b))]),
      rq_attempt = bi_attempt b, rq_subject = bi_subject b,
      rq_kind = GateEvidenceRequirement (stableId sha ''gate'' (gateDiscriminant g))\<rparr>"

text \<open>
  The number of a record: the schema takes an integer of at least the given bound that is no larger than
  \<open>Number.MAX_SAFE_INTEGER\<close>, the limit of an \<open>int\<close> in Zod 4.
\<close>

definition MAX_SAFE_INTEGER :: rat where
  "MAX_SAFE_INTEGER = 9007199254740991"

definition schema_int :: "nat \<Rightarrow> rat \<Rightarrow> js_exn + nat" where
  "schema_int low r =
     (if of_int (floor r) = r \<and> of_nat low \<le> r \<and> r \<le> MAX_SAFE_INTEGER then Inr (nat (floor r))
      else Inl (Thrown ''ZodError''))"

definition projectApproval ::
    "(string \<Rightarrow> string) \<Rightarrow> rat \<Rightarrow> string \<Rightarrow> binding \<Rightarrow> js_exn + requirement" where
  "projectApproval sha n approvalClass b =
     bind_result (schema_int 1 n) (\<lambda>m.
       Inr \<lparr>rq_id = stableId sha ''req.approval''
              (JObj [(''kind'', JStr ''approval''), (''approvalClass'', JStr approvalClass),
                     (''minimumApprovals'', JNum (Fin n)), (''phaseAttemptId'', JStr (bi_attempt b)),
                     (''subject'', subjectIdentity (bi_subject b))]),
            rq_attempt = bi_attempt b, rq_subject = bi_subject b,
            rq_kind = ApprovalRequirement approvalClass m\<rparr>)"

definition projectCorroboration :: "(string \<Rightarrow> string) \<Rightarrow> rat \<Rightarrow> binding \<Rightarrow> js_exn + requirement" where
  "projectCorroboration sha n b =
     (let i = stableId sha ''req.corroboration''
            (JObj [(''kind'', JStr ''corroboration''), (''minimumIndependentSources'', JNum (Fin n)),
                   (''phaseAttemptId'', JStr (bi_attempt b)), (''subject'', subjectIdentity (bi_subject b))])
      in bind_result (schema_int 2 n) (\<lambda>m.
           Inr \<lparr>rq_id = i, rq_attempt = bi_attempt b, rq_subject = bi_subject b,
                rq_kind = CorroborationRequirement i m\<rparr>))"

definition CORROBORATION_RECORD_FLOOR :: rat where
  "CORROBORATION_RECORD_FLOOR = 2"

definition DEFAULT_APPROVAL_CLASS :: string where
  "DEFAULT_APPROVAL_CLASS = ''admission.approval''"

text \<open>The JSON value of a record, over which the digest of the set is taken.\<close>

definition requirement_js :: "requirement \<Rightarrow> js" where
  "requirement_js r =
     (let base = [(''contractVersion'', JStr ''1.0''), (''requirementId'', JStr (rq_id r)),
                  (''phaseAttemptId'', JStr (rq_attempt r)), (''subject'', subjectIdentity (rq_subject r))]
      in case rq_kind r of
           GateEvidenceRequirement g \<Rightarrow> JObj (base @ [(''kind'', JStr ''gate-evidence''), (''gateId'', JStr g)])
         | ApprovalRequirement c n \<Rightarrow>
             JObj (base @ [(''kind'', JStr ''approval''), (''approvalClass'', JStr c),
                           (''minimumApprovals'', JInt (int n))])
         | CorroborationRequirement s n \<Rightarrow>
             JObj (base @ [(''kind'', JStr ''corroboration''), (''sourceRequirementId'', JStr s),
                           (''minimumIndependentSources'', JInt (int n))]))"

record requirement_projection =
  rp_requirements :: "requirement list"
  rp_digest :: content_digest

record freeze_input =
  fi_resolved :: resolved_requirements
  fi_attempt :: string
  fi_subject :: evidence_subject
  fi_approvalClass :: "string option"

text \<open>The records that a positive number adds.\<close>

definition approval_records ::
    "(string \<Rightarrow> string) \<Rightarrow> resolved_requirements \<Rightarrow> string \<Rightarrow> binding \<Rightarrow> js_exn + requirement list" where
  "approval_records sha r c b =
     (if 0 < rr_approvals r
      then bind_result (projectApproval sha (rr_approvals r) c b) (\<lambda>x. Inr [x]) else Inr [])"

definition corroboration_records ::
    "(string \<Rightarrow> string) \<Rightarrow> resolved_requirements \<Rightarrow> binding \<Rightarrow> js_exn + requirement list" where
  "corroboration_records sha r b =
     (if 0 < rr_sources r
      then bind_result (projectCorroboration sha (max CORROBORATION_RECORD_FLOOR (rr_sources r)) b) (\<lambda>x. Inr [x])
      else Inr [])"

definition freezeRequirements :: "(string \<Rightarrow> string) \<Rightarrow> freeze_input \<Rightarrow> js_exn + requirement_projection" where
  "freezeRequirements sha input =
     (let b = \<lparr>bi_attempt = fi_attempt input, bi_subject = fi_subject input\<rparr>;
          c = or_else (fi_approvalClass input) DEFAULT_APPROVAL_CLASS;
          gates = map (\<lambda>g. projectGate sha g b) (rr_gates (fi_resolved input))
      in bind_result (approval_records sha (fi_resolved input) c b) (\<lambda>approvals.
         bind_result (corroboration_records sha (fi_resolved input) b) (\<lambda>sources.
           let rs = gates @ approvals @ sources in
           Inr \<lparr>rp_requirements = rs,
                rp_digest = \<lparr>cd_algorithm = ''sha256'',
                             cd_value = sha (canonicalJson (JArr (map requirement_js rs)))\<rparr>\<rparr>)))"

section \<open>Reconciliation\<close>

datatype freeze_authority = FrozenAuthority | RaisedAuthority

record frozen_authority = requirement_projection +
  fa_authority :: freeze_authority
  fa_resolved :: resolved_requirements

definition reconcileFrozenRequirements ::
    "(string \<Rightarrow> string) \<Rightarrow> resolved_requirements \<Rightarrow> freeze_input \<Rightarrow> js_exn + frozen_authority" where
  "reconcileFrozenRequirements sha frozen input =
     (let effective = joinRequirements frozen (fi_resolved input)
      in bind_result (freezeRequirements sha (input\<lparr>fi_resolved := effective\<rparr>)) (\<lambda>p.
           Inr \<lparr>rp_requirements = rp_requirements p, rp_digest = rp_digest p,
                fa_authority = (if equalRequirements effective frozen then FrozenAuthority else RaisedAuthority),
                fa_resolved = effective\<rparr>))"

definition readFrozenRequirements :: "js list option \<Rightarrow> resolved_requirements option" where
  "readFrozenRequirements gates =
     (case Option.bind gates readFrozenGateSequence of
        None \<Rightarrow> None
      | Some gs \<Rightarrow> Some (deepFreezeRequirements (BOTTOM_REQUIREMENTS\<lparr>rr_gates := gs\<rparr>)))"

end
