(* ===== verification/Obligation_Laws.thy ===== *)
theory Obligation_Laws
  imports Requirement_Freeze Policy_Evaluation Policy_Laws
begin

text \<open>
  The obligations of an attempt: the join of requirement sets is a least upper bound, resolution is
  total and monotone in the danger of its context, a frozen set is a floor for every later
  resolution, and authored requirements are allowed on evidence only.
\<close>

section \<open>The join\<close>

lemmas strength_laws = strength.upper [unfolded weaker_eq_def] strength.join_le [unfolded weaker_eq_def]

text \<open>
  C26: The join of two requirement sets is their least upper bound in the strength order; it does not
  depend on the order or the grouping of its arguments, not even in the order of its gates; and the
  comparison reports equality exactly for equal sets, Stronger exactly when only its first argument covers the
  other, Weaker exactly when only its second does, and Incomparable when neither does; so a join that is not
  equal to one of its arguments is reported stronger than it.
\<close>

theorem join_is_least_upper_bound:
  "(atLeastAsStrong c (joinRequirements a b) \<longleftrightarrow> atLeastAsStrong c a \<and> atLeastAsStrong c b) \<and>
   atLeastAsStrong (joinRequirements a b) a \<and> atLeastAsStrong (joinRequirements a b) b \<and>
   joinRequirements a b = joinRequirements b a \<and>
   joinRequirements (joinRequirements a b) c = joinRequirements a (joinRequirements b c) \<and>
   (compareStrength a b = StrengthEq \<longleftrightarrow> atLeastAsStrong a b \<and> atLeastAsStrong b a) \<and>
   (compareStrength a b = Stronger \<longleftrightarrow> atLeastAsStrong a b \<and> \<not> atLeastAsStrong b a) \<and>
   (compareStrength a b = Weaker \<longleftrightarrow> \<not> atLeastAsStrong a b \<and> atLeastAsStrong b a) \<and>
   (compareStrength a b = Incomparable \<longleftrightarrow> \<not> atLeastAsStrong a b \<and> \<not> atLeastAsStrong b a) \<and>
   (compareStrength a b = StrengthEq) = equalRequirements a b \<and>
   (compareStrength a b = Stronger) = (compareStrength b a = Weaker) \<and>
   (compareStrength (joinRequirements a b) a = Stronger \<or> equalRequirements (joinRequirements a b) a)"
proof -
  have eqI: "x = y" if "canonical x" "canonical y" "equalRequirements x y" for x y
    using that canonical_equal by blast
  have "joinRequirements a b = joinRequirements b a"
    by (rule eqI) (auto simp: equalRequirements_def)
  moreover have "joinRequirements (joinRequirements a b) c = joinRequirements a (joinRequirements b c)"
    by (rule eqI) (auto simp: equalRequirements_def)
  ultimately show ?thesis
    using strength_laws by (auto simp: compareStrength_def equal_iff_both)
qed

section \<open>Resolution\<close>

text \<open>A context that is at most as dangerous, uncertain and demanding as another.\<close>

definition context_le :: "requirement_context \<Rightarrow> requirement_context \<Rightarrow> bool" where
  "context_le c d \<longleftrightarrow> rc_kind c = rc_kind d \<and> rc_workflow c = rc_workflow d \<and> rc_depth c = rc_depth d \<and>
     rc_risk c \<le> rc_risk d \<and> rc_boundary c \<le> rc_boundary d \<and>
     RELIABILITY_UNCERTAINTY_RANK (rc_reliability c) \<le> RELIABILITY_UNCERTAINTY_RANK (rc_reliability d) \<and>
     set (rc_gates c) \<subseteq> set (rc_gates d) \<and>
     minimumApprovals (rc_policy c) \<le> minimumApprovals (rc_policy d) \<and>
     (waivable (rc_policy d) \<longrightarrow> waivable (rc_policy c))"

lemma effective_mono:
  "r \<le> r' \<Longrightarrow> effectiveRiskTier r \<le> effectiveRiskTier r'"
  "b \<le> b' \<Longrightarrow> effectiveBoundaryTouching b \<Longrightarrow> effectiveBoundaryTouching b'"
  by (cases r; cases r'; auto simp: effectiveRiskTier_def tier_order_defs rank_defs split: risk_tier.splits)
    (cases b; cases b'; auto simp: effectiveBoundaryTouching_def tier_order_defs rank_defs)

lemma builtin_gates_grow:
  assumes "t \<le> t'" "b \<longrightarrow> b'"
  shows "set (builtin_gates b (Tier t)) \<subseteq> set (builtin_gates b' (Tier t'))"
proof -
  have le: "Tier t \<le> Tier t'" using assms(1) by (cases t; cases t') (simp_all add: tier_order_defs rank_defs)
  have "set (builtin_gates b (Tier t)) \<subseteq> set (builtin_gates b (Tier t'))"
    using builtin_plain.gates_mono [OF le] builtin_touching.gates_mono [OF le]
    by (cases b) (simp_all only: simp_thms)
  also have "\<dots> \<subseteq> set (builtin_gates b' (Tier t'))"
    using assms(2) boundary_adds_gates [of False] by (cases b; cases b') (simp_all only: simp_thms subset_refl)
  finally show ?thesis .
qed

lemma roster_grows:
  "t \<le> t' \<Longrightarrow> set (getRequiredReviews w (map_option risk_tier_str (reviewRosterTier (Tier t)))) \<subseteq>
    set (getRequiredReviews w (map_option risk_tier_str (reviewRosterTier (Tier t'))))"
  by (cases t; cases t')
    (auto simp: reviewRosterTier_def getRequiredReviews_def Let_def REQUIRED_REVIEWS_BY_TIER_def table_row_def
      risk_tier_str_def tier_order_defs rank_defs)

lemma depth_known: "depth_of_key (js_string (JStr (design_depth_str d))) = Some d"
  by (cases d) (simp_all add: depth_of_key_def design_depth_str_def)

lemma plan_resolves:
  "\<exists>gs. resolvePlanDepthPolicy
     (if is_nullish (ctx_depth (gate_ctx_of c)) then JStr ''standard'' else ctx_depth (gate_ctx_of c)) = Inr gs"
proof (cases "rc_depth c")
  case None
  have "depth_of_key ''standard'' = Some Standard" by (simp add: depth_of_key_def)
  then show ?thesis using None by (simp add: gate_ctx_of_def resolve_plan_ok)
next
  case (Some d)
  then show ?thesis using depth_known [of d] by (simp add: gate_ctx_of_def resolve_plan_ok)
qed

lemma gates_resolve: "\<exists>gs. resolveGateSet (rc_kind c) (gate_ctx_of c) = Inr gs"
  using plan_resolves [of c] by (cases "rc_kind c") (auto simp: GATE_RESOLVERS_def)

lemma gates_grow:
  assumes "context_le c d" "resolveGateSet (rc_kind c) (gate_ctx_of c) = Inr gs"
    "resolveGateSet (rc_kind d) (gate_ctx_of d) = Inr gs'"
  shows "set gs \<subseteq> set gs'"
proof -
  have r: "effectiveRiskTier (rc_risk c) \<le> effectiveRiskTier (rc_risk d)"
    and b: "effectiveBoundaryTouching (rc_boundary c) \<longrightarrow> effectiveBoundaryTouching (rc_boundary d)"
    using assms(1) effective_mono by (auto simp: context_le_def)
  have same: "rc_kind d = rc_kind c" "rc_workflow d = rc_workflow c" "rc_depth d = rc_depth c"
    using assms(1) by (simp_all add: context_le_def)
  have depth: "ctx_depth (gate_ctx_of d) = ctx_depth (gate_ctx_of c)" by (simp add: gate_ctx_of_def same)
  show ?thesis
  proof (cases "rc_kind c = PLAN")
    case True
    then show ?thesis using assms(2,3) by (simp add: GATE_RESOLVERS_def same depth cong: if_cong)
  next
    case False
    then show ?thesis
      using assms(2,3) image_mono [OF builtin_gates_grow [OF r b], of LadderGate]
        image_mono [OF roster_grows [OF r, of "or_else (rc_workflow c) ''''"], of ReviewGate]
      by (cases "rc_kind c")
        (auto simp: GATE_RESOLVERS_def same gate_ctx_of_def builtin_sequence simp del: builtin_gates_simps
          dest: subsetD)
  qed
qed

lemma obligation_tables_mono:
  "r \<le> r' \<Longrightarrow> fst (RISK_OBLIGATIONS r) \<le> fst (RISK_OBLIGATIONS r') \<and> snd (RISK_OBLIGATIONS r) \<le> snd (RISK_OBLIGATIONS r')"
  "b \<le> b' \<Longrightarrow> BOUNDARY_CORROBORATION b \<le> BOUNDARY_CORROBORATION b'"
  "RELIABILITY_UNCERTAINTY_RANK u \<le> RELIABILITY_UNCERTAINTY_RANK u' \<Longrightarrow>
   RELIABILITY_CORROBORATION u \<le> RELIABILITY_CORROBORATION u'"
proof -
  show "r \<le> r' \<Longrightarrow> fst (RISK_OBLIGATIONS r) \<le> fst (RISK_OBLIGATIONS r') \<and> snd (RISK_OBLIGATIONS r) \<le> snd (RISK_OBLIGATIONS r')"
    by (cases r; cases r') (auto simp: RISK_OBLIGATIONS_def tier_order_defs rank_defs split: risk_tier.splits)
  show "b \<le> b' \<Longrightarrow> BOUNDARY_CORROBORATION b \<le> BOUNDARY_CORROBORATION b'"
    by (cases b; cases b') (auto simp: BOUNDARY_CORROBORATION_def tier_order_defs rank_defs)
  show "RELIABILITY_UNCERTAINTY_RANK u \<le> RELIABILITY_UNCERTAINTY_RANK u' \<Longrightarrow>
      RELIABILITY_CORROBORATION u \<le> RELIABILITY_CORROBORATION u'"
    by (cases u; cases u') (auto simp: RELIABILITY_CORROBORATION_def RELIABILITY_UNCERTAINTY_RANK_def)
qed

lemma bottom_simps [simp]:
  "rr_gates BOTTOM_REQUIREMENTS = []" "rr_approvals BOTTOM_REQUIREMENTS = 0"
  "rr_sources BOTTOM_REQUIREMENTS = 0" "rr_waivable BOTTOM_REQUIREMENTS"
  by (simp_all add: BOTTOM_REQUIREMENTS_def deepFreezeRequirements_def canonicalizeGates_def)

definition contributions :: "requirement_context \<Rightarrow> resolved_gate list \<Rightarrow> resolved_requirements list" where
  "contributions c gs =
     [BOTTOM_REQUIREMENTS\<lparr>rr_gates := gs\<rparr>, declaredGateContribution c, riskContribution c,
      boundaryContribution c, reliabilityContribution c, policyContribution c]"

lemma resolve_eq:
  "resolveGateSet (rc_kind c) (gate_ctx_of c) = Inr gs \<Longrightarrow>
   resolveRequirements c = Inr (joinAll (contributions c gs))"
  by (simp add: resolveRequirements_def gateContribution_def contributions_def)

lemma contributions_grow:
  assumes "context_le c d" "set gs \<subseteq> set gs'"
  shows "list_all2 weaker_eq (contributions c gs) (contributions d gs')"
  using assms obligation_tables_mono
  by (simp add: contributions_def declaredGateContribution_def riskContribution_def boundaryContribution_def
      reliabilityContribution_def policyContribution_def weaker_eq_def atLeastAsStrong_def context_le_def) auto

text \<open>
  Requirement resolution never throws, and it is monotone: a context of the same phase kind,
  workflow and depth that is at least as risky, as uncertain at its boundary and in its reliability,
  and that declares at least the gates and the policy floor, resolves to at least as strong a set.
\<close>

theorem resolution_total_and_monotone:
  "(\<exists>r. resolveRequirements c = Inr r) \<and>
   (context_le c d \<longrightarrow> resolveRequirements c = Inr r \<longrightarrow> resolveRequirements d = Inr r' \<longrightarrow> atLeastAsStrong r' r)"
proof (intro conjI impI)
  show "\<exists>r. resolveRequirements c = Inr r" using gates_resolve resolve_eq by blast
next
  assume le: "context_le c d" and r: "resolveRequirements c = Inr r" "resolveRequirements d = Inr r'"
  obtain gs gs' where gs: "resolveGateSet (rc_kind c) (gate_ctx_of c) = Inr gs"
    "resolveGateSet (rc_kind d) (gate_ctx_of d) = Inr gs'" using gates_resolve by blast
  have "weaker_eq (joinAll (contributions c gs)) (joinAll (contributions d gs'))"
    unfolding joinAll_def using gates_grow [OF le gs] by (intro strength.fold_mono contributions_grow [OF le])
  then show "atLeastAsStrong r' r" using r gs by (simp add: resolve_eq weaker_eq_def)
qed

definition plain_context_of :: "resolved_tier \<Rightarrow> requirement_context" where
  "plain_context_of t =
     \<lparr>rc_kind = REVIEW, rc_risk = t, rc_boundary = NotTouching, rc_reliability = Reliable, rc_gates = [],
      rc_policy = OPEN_POLICY_FLOOR, rc_workflow = Some ''feature'', rc_depth = None\<rparr>"

lemma resolution_total_and_monotone_witness:
  "\<exists>r r'. resolveRequirements (plain_context_of (Tier Low)) = Inr r \<and>
     resolveRequirements (plain_context_of UnknownTier) = Inr r' \<and> atLeastAsStrong r' r \<and> rr_sources r' = 2"
proof -
  let ?c = "plain_context_of (Tier Low)" and ?d = "plain_context_of UnknownTier"
  obtain r r' where r: "resolveRequirements ?c = Inr r" "resolveRequirements ?d = Inr r'"
    using resolution_total_and_monotone by meson
  have "context_le ?c ?d" by (simp add: context_le_def plain_context_of_def tier_order_defs rank_defs)
  moreover have "(case resolveRequirements ?d of Inl _ \<Rightarrow> False | Inr x \<Rightarrow> rr_sources x = 2)" by code_simp
  ultimately show ?thesis using resolution_total_and_monotone [of ?c ?d r r'] r by auto
qed

section \<open>Frozen floors\<close>

lemma positive_whole: "0 < (q::rat) \<Longrightarrow> of_int (floor q) = q \<Longrightarrow> 1 \<le> q"
  by (metis of_int_0_less_iff of_int_1_le_iff int_one_le_iff_zero_less)

text \<open>A number of the requirement set that the schema takes: an integer that is not too large.\<close>

definition whole :: "rat \<Rightarrow> bool" where
  "whole q \<longleftrightarrow> of_int (floor q) = q \<and> q \<le> MAX_SAFE_INTEGER"

lemma whole_max: "whole a \<Longrightarrow> whole b \<Longrightarrow> whole (max a b)"
  by (simp add: max_def)

lemma approval_records_total:
  "whole (rr_approvals r) \<Longrightarrow> \<exists>rs. approval_records sha r c b = Inr rs"
  using positive_whole [of "rr_approvals r"]
  by (auto simp: approval_records_def projectApproval_def schema_int_def bind_result_def whole_def)

lemma corroboration_records_total:
  "whole (rr_sources r) \<Longrightarrow> \<exists>rs. corroboration_records sha r b = Inr rs"
  by (auto simp: corroboration_records_def projectCorroboration_def schema_int_def bind_result_def Let_def
      CORROBORATION_RECORD_FLOOR_def max_def whole_def MAX_SAFE_INTEGER_def)

lemma freeze_total:
  assumes "whole (rr_approvals (fi_resolved i))" "whole (rr_sources (fi_resolved i))"
  shows "\<exists>p. freezeRequirements sha i = Inr p"
proof -
  let ?b = "\<lparr>bi_attempt = fi_attempt i, bi_subject = fi_subject i\<rparr>"
    and ?c = "or_else (fi_approvalClass i) DEFAULT_APPROVAL_CLASS"
  obtain x y where "approval_records sha (fi_resolved i) ?c ?b = Inr x"
    "corroboration_records sha (fi_resolved i) ?b = Inr y"
    using approval_records_total [OF assms(1)] corroboration_records_total [OF assms(2)] by blast
  then show ?thesis by (simp add: freezeRequirements_def Let_def bind_result_def)
qed

text \<open>
  C22: Reconciling a frozen obligation with a later resolution never lowers it: the effective set is at
  least as strong as both, the authority stays with the frozen set exactly when that set already covers
  the later one; when the frozen set also has the canonical order of gates that every join gives it, the
  records and their digest are then those of the frozen set. Reconciliation throws only when one of the four
  numbers is no integer or is larger than Number.MAX_SAFE_INTEGER, which the record schema refuses.
\<close>

theorem reconciliation_never_lowers:
  "(case reconcileFrozenRequirements sha frozen input of
      Inr r \<Rightarrow>
        atLeastAsStrong (fa_resolved r) frozen \<and> atLeastAsStrong (fa_resolved r) (fi_resolved input) \<and>
        (fa_authority r = FrozenAuthority) = atLeastAsStrong frozen (fi_resolved input) \<and>
        (canonical frozen \<and> fa_authority r = FrozenAuthority \<longrightarrow>
          freezeRequirements sha (input\<lparr>fi_resolved := frozen\<rparr>) = Inr (requirement_projection.truncate r))
    | Inl _ \<Rightarrow>
        (\<exists>q \<in> {rr_approvals frozen, rr_sources frozen, rr_approvals (fi_resolved input),
               rr_sources (fi_resolved input)}. \<not> whole q))"
proof (cases "reconcileFrozenRequirements sha frozen input")
  case (Inl e)
  let ?i = "input\<lparr>fi_resolved := joinRequirements frozen (fi_resolved input)\<rparr>"
  have "\<nexists>p. freezeRequirements sha ?i = Inr p"
    using Inl by (auto simp: reconcileFrozenRequirements_def Let_def bind_result_def)
  then have "\<not> (whole (max (rr_approvals frozen) (rr_approvals (fi_resolved input))) \<and>
      whole (max (rr_sources frozen) (rr_sources (fi_resolved input))))"
    using freeze_total [of ?i sha] by auto
  then show ?thesis using Inl whole_max by auto
next
  case (Inr r)
  let ?e = "joinRequirements frozen (fi_resolved input)"
  obtain p where p: "freezeRequirements sha (input\<lparr>fi_resolved := ?e\<rparr>) = Inr p"
    and r: "r = \<lparr>rp_requirements = rp_requirements p, rp_digest = rp_digest p,
                fa_authority = (if equalRequirements ?e frozen then FrozenAuthority else RaisedAuthority),
                fa_resolved = ?e\<rparr>"
    using Inr by (auto simp: reconcileFrozenRequirements_def Let_def bind_result_def split: sum.splits)
  have eq: "equalRequirements ?e frozen \<longleftrightarrow> atLeastAsStrong frozen (fi_resolved input)"
    using strength_laws by (auto simp: equal_iff_both atLeastAsStrong_def)
  have "?e = frozen" if "canonical frozen" "equalRequirements ?e frozen"
    using that canonical_equal by auto
  then show ?thesis
    using Inr p strength_laws by (auto simp: r eq requirement_projection.defs)
qed

definition frozen_diff_subject :: evidence_subject where
  "frozen_diff_subject =
     \<lparr>su_kind = DiffSubject, su_identity = ''d1'',
      su_digest = \<lparr>cd_algorithm = ''sha256'', cd_value = ''00''\<rparr>\<rparr>"

definition refreeze_input :: "resolved_requirements \<Rightarrow> freeze_input" where
  "refreeze_input r =
     \<lparr>fi_resolved = r, fi_attempt = ''a1'', fi_subject = frozen_diff_subject, fi_approvalClass = None\<rparr>"

definition strict_floor :: resolved_requirements where
  "strict_floor =
     joinAll [BOTTOM_REQUIREMENTS\<lparr>rr_gates := [Gate LadderFamily ''static''], rr_approvals := 2, rr_sources := 1\<rparr>]"

lemma reconciliation_never_lowers_witness:
  "\<exists>r. reconcileFrozenRequirements id strict_floor (refreeze_input BOTTOM_REQUIREMENTS) = Inr r \<and>
     fa_authority r = FrozenAuthority \<and> length (rp_requirements r) = 3 \<and>
     freezeRequirements id (refreeze_input strict_floor) = Inr (requirement_projection.truncate r)"
proof -
  let ?i = "refreeze_input BOTTOM_REQUIREMENTS"
  have run: "(case reconcileFrozenRequirements id strict_floor ?i of
      Inl _ \<Rightarrow> False | Inr r \<Rightarrow> fa_authority r = FrozenAuthority \<and> length (rp_requirements r) = 3)"
    by code_simp
  then obtain r where r: "reconcileFrozenRequirements id strict_floor ?i = Inr r"
    "fa_authority r = FrozenAuthority" "length (rp_requirements r) = 3" by (auto split: sum.splits)
  have "canonical strict_floor" by (simp add: strict_floor_def joinAll_def)
  moreover have "?i\<lparr>fi_resolved := strict_floor\<rparr> = refreeze_input strict_floor" by (simp add: refreeze_input_def)
  ultimately show ?thesis
    using reconciliation_never_lowers [where sha = id and frozen = strict_floor and input = ?i] r by auto
qed

section \<open>Authored requirements\<close>

definition authored_context :: "authored_input \<Rightarrow> eval_context" where
  "authored_context inp =
     \<lparr>ex_date = ai_date inp, ex_authority = DENY_ALL_AUTHORITY,
      ex_evaluatedAt = ai_evaluatedAt inp, ex_horizon = ai_horizon inp\<rparr>"

text \<open>The evidence that may count for an authored requirement.\<close>

definition countable :: "authored_input \<Rightarrow> action_requirement \<Rightarrow> evidence \<Rightarrow> bool" where
  "countable inp r e \<longleftrightarrow>
     e \<in> set (ai_evidence inp) \<and> evidenceMatchesDiscriminant e r \<and> \<not> attemptMismatch e (ai_attempt inp) \<and>
     ai_authorizes inp e \<and> \<not> isStale e (authored_context inp)"

definition authored_earned :: "authored_input \<Rightarrow> action_requirement \<Rightarrow> bool" where
  "authored_earned inp r \<longleftrightarrow>
     (case r of
        GateRequire _ _ \<Rightarrow> \<exists>e. countable inp r e \<and> has_gate_verdict GatePass e
      | ApprovalsRequire n \<Rightarrow>
          n \<le> of_nat (card {approver e |e. countable inp r e \<and> has_approval_verdict Approved e})
      | CorroborationRequire n \<Rightarrow>
          n \<le> of_nat (card {independenceKey e |e. countable inp r e \<and> isSatisfyingVerdict e}))"

lemma satisfied_iff [simp]: "satisfied es = Satisfied (sortedIds es)"
  by (simp add: satisfied_def)

lemma satisfied_neq [simp]:
  "denied d es \<noteq> Satisfied ids" "indeterminate c es \<noteq> Satisfied ids"
  by (simp_all add: denied_def indeterminate_def)

lemma fresh_earned:
  assumes "evaluate_fresh r es = Satisfied ids" "set es = {e. countable inp r e}"
  shows "authored_earned inp r"
proof -
  have mem: "e \<in> set es \<longleftrightarrow> countable inp r e" for e using assms(2) by simp
  have "f ` set (filter p es) = {f e |e. countable inp r e \<and> p e}" for f :: "evidence \<Rightarrow> string" and p
    using mem by auto
  then show ?thesis
    using assms(1) unfolding authored_earned_def evaluate_fresh_def Let_def
    by (auto simp: filter_empty_conv mem simp del: set_filter split: action_requirement.splits if_splits)
qed

lemma authored_satisfied:
  assumes "evaluateAuthoredRequirement r (ai_evidence inp) (authored_context inp) (ai_attempt inp)
      (ai_authorizes inp) = Satisfied ids"
  shows "authored_earned inp r \<and> (\<exists>e. countable inp r e) \<and>
    \<not> (\<exists>e e'. countable inp r e \<and> countable inp r e' \<and>
        statementOfAuthored e = SSatisfied \<and> statementOfAuthored e' = SUnsatisfied)"
proof -
  let ?matched = "filter (\<lambda>e. evidenceMatchesDiscriminant e r) (ai_evidence inp)"
  let ?fresh = "filter (\<lambda>e. \<not> isStale e (authored_context inp)) ?matched"
  have ok: "\<forall>e \<in> set ?matched. \<not> attemptMismatch e (ai_attempt inp) \<and> ai_authorizes inp e"
    and some: "?fresh \<noteq> []" and clean: "\<not> authoredContradiction ?fresh"
    and last: "evaluate_fresh r ?fresh = Satisfied ids"
    using assms unfolding evaluateAuthoredRequirement_def Let_def
    by (auto simp: filter_empty_conv split: if_splits)
  have fresh: "set ?fresh = {e. countable inp r e}" using ok by (auto simp: countable_def)
  then have "\<exists>e. countable inp r e" using some by (metis empty_Collect_eq set_empty)
  moreover have "authored_earned inp r"
    by (rule fresh_earned [OF last fresh])
  ultimately show ?thesis using clean fresh by (auto simp: authoredContradiction_def image_iff)
qed

text \<open>
  The authored evaluator allows an action only when every authored requirement is earned: there
  is fresh evidence that matches it, that its producer may issue and that belongs to the attempt, if
  one is named; none of it contradicts the rest; a gate requirement has a passing gate, an approval
  requirement as many distinct approvers as it asks for and a corroboration requirement as many
  independent sources.
\<close>

theorem authored_allow_is_earned:
  assumes "evaluateAuthoredRequirements inp = VAllow" "r \<in> set (ai_requirements inp)"
  shows "authored_earned inp r \<and> (\<exists>e. countable inp r e) \<and>
    \<not> (\<exists>e e'. countable inp r e \<and> countable inp r e' \<and>
        statementOfAuthored e = SSatisfied \<and> statementOfAuthored e' = SUnsatisfied)"
proof -
  let ?d = "evaluateAuthoredRequirement r (ai_evidence inp) (authored_context inp) (ai_attempt inp) (ai_authorizes inp)"
  have "deny_of ?d = None \<and> \<not> is_unknown ?d"
    using assms unfolding evaluateAuthoredRequirements_def authored_context_def Let_def
    by (auto split: if_splits)
  then obtain ids where "?d = Satisfied ids" by (cases ?d) (simp_all add: deny_of_def is_unknown_def)
  then show ?thesis by (rule authored_satisfied)
qed

definition approval_by :: "string \<Rightarrow> evidence" where
  "approval_by p =
     \<lparr>ev_id = p, ev_requirement = ''r'', ev_attempt = ''a1'', ev_subject = frozen_diff_subject,
      ev_producer = \<lparr>ep_producerId = p, ep_providerRef = ''ui'', ep_providerVersion = ''1'', ep_invocationId = p\<rparr>,
      ev_policyId = ''policy'', ev_policyDigest = su_digest frozen_diff_subject,
      ev_contentDigest = su_digest frozen_diff_subject, ev_createdAt = ''t'',
      ev_kind = ApprovalEvidence Approved \<lparr>pr_kind = Operator, pr_id = p, pr_role = ''lead''\<rparr>\<rparr>"

definition two_approvals :: authored_input where
  "two_approvals =
     \<lparr>ai_requirements = [ApprovalsRequire 2], ai_obligations = BOTTOM_REQUIREMENTS,
      ai_evidence = [approval_by ''ann'', approval_by ''bob''], ai_attempt = Some ''a1'', ai_date = (\<lambda>_. Some 0),
      ai_evaluatedAt = ''t'', ai_horizon = 1, ai_authorizes = (\<lambda>_. True)\<rparr>"

lemma two_approvals_allow:
  "evaluateAuthoredRequirements two_approvals = VAllow"
  "evaluateAuthoredRequirements (two_approvals\<lparr>ai_evidence := [approval_by ''ann'', approval_by ''ann'']\<rparr>) = VDeny"
  by code_simp+

lemma authored_allow_is_earned_witness: "authored_earned two_approvals (ApprovalsRequire 2)"
  using authored_allow_is_earned [OF two_approvals_allow(1)] by (simp add: two_approvals_def)

end
