(* ===== verification/Evidence_Selection.thy ===== *)
theory Evidence_Selection
  imports Admission_Types
begin

text \<open>
  Selection of the active evidence (\<open>src/workflow/admission/select-evidence.ts\<close>): duplicates, broken
  supersession chains and cycles are excluded and diagnosed, equal statements of one scope converge,
  and disagreements become contradictions. The two schemas of \<open>src/events/schemas.ts\<close> with which it
  parses its input are the fields of a record. Identifiers are ASCII text.
\<close>

section \<open>Records\<close>

record evidence_record =
  er_evidence :: evidence
  er_supersedes :: "string option"

definition er_id :: "evidence_record \<Rightarrow> string" where
  "er_id r = ev_id (er_evidence r)"

record contradiction_event =
  ce_id :: string
  ce_attempt :: string
  ce_policyId :: string
  ce_policyDigest :: content_digest
  ce_requirement :: "string option"
  ce_subject :: evidence_subject
  ce_evidenceIds :: "string list"
  ce_detectedAt :: string

record proof_schemas =
  sc_evidence :: "js \<Rightarrow> evidence_record option"
  sc_contradiction :: "js \<Rightarrow> contradiction_event option"

datatype diagnostic_code =
    MALFORMED_EVIDENCE
  | DUPLICATE_EVIDENCE_ID
  | MISSING_PREDECESSOR
  | SCOPE_MISMATCH
  | INCOMPATIBLE_POLICY_DIGEST
  | CYCLIC_SUPERSESSION
  | INVALID_PREDECESSOR
  | MALFORMED_CONTRADICTION
  | MISSING_CONTRADICTION_EVIDENCE
  | CONTRADICTION_SCOPE_MISMATCH
  | CONVERGED_EQUIVALENT_EVIDENCE

definition diagnostic_code_str :: "diagnostic_code \<Rightarrow> string" where
  "diagnostic_code_str c =
     (case c of
        MALFORMED_EVIDENCE \<Rightarrow> ''MALFORMED_EVIDENCE''
      | DUPLICATE_EVIDENCE_ID \<Rightarrow> ''DUPLICATE_EVIDENCE_ID''
      | MISSING_PREDECESSOR \<Rightarrow> ''MISSING_PREDECESSOR''
      | SCOPE_MISMATCH \<Rightarrow> ''SCOPE_MISMATCH''
      | INCOMPATIBLE_POLICY_DIGEST \<Rightarrow> ''INCOMPATIBLE_POLICY_DIGEST''
      | CYCLIC_SUPERSESSION \<Rightarrow> ''CYCLIC_SUPERSESSION''
      | INVALID_PREDECESSOR \<Rightarrow> ''INVALID_PREDECESSOR''
      | MALFORMED_CONTRADICTION \<Rightarrow> ''MALFORMED_CONTRADICTION''
      | MISSING_CONTRADICTION_EVIDENCE \<Rightarrow> ''MISSING_CONTRADICTION_EVIDENCE''
      | CONTRADICTION_SCOPE_MISMATCH \<Rightarrow> ''CONTRADICTION_SCOPE_MISMATCH''
      | CONVERGED_EQUIVALENT_EVIDENCE \<Rightarrow> ''CONVERGED_EQUIVALENT_EVIDENCE'')"

record diagnostic =
  dg_code :: diagnostic_code
  dg_evidence :: "string option"
  dg_contradiction :: "string option"
  dg_message :: string

record supersession =
  ss_evidence :: string
  ss_by :: string
  ss_producer :: string
  ss_invocation :: string

datatype evidence_statement = SaysSatisfied | SaysUnsatisfied | SaysIndeterminate

definition statement_str :: "evidence_statement \<Rightarrow> string" where
  "statement_str s =
     (case s of SaysSatisfied \<Rightarrow> ''satisfied'' | SaysUnsatisfied \<Rightarrow> ''unsatisfied''
              | SaysIndeterminate \<Rightarrow> ''indeterminate'')"

datatype contradiction_source =
    ActiveEvidence "evidence_statement list"
  | DownstreamEvent string string

record evidence_contradiction =
  ec_source :: contradiction_source
  ec_requirement :: string
  ec_attempt :: string
  ec_subject :: evidence_subject
  ec_policyDigest :: content_digest
  ec_evidenceIds :: "string list"

record selection =
  sel_active :: "evidence_record list"
  sel_supersessions :: "supersession list"
  sel_contradictions :: "evidence_contradiction list"
  sel_diagnostics :: "diagnostic list"

section \<open>Keys\<close>

definition scopeKey :: "evidence \<Rightarrow> string" where
  "scopeKey e =
     join_with ''|'' [ev_requirement e, subjectIdentityKey (ev_subject e), ev_attempt e, digestKey (ev_policyDigest e)]"

definition sameBaseScope :: "evidence \<Rightarrow> evidence \<Rightarrow> bool" where
  "sameBaseScope l r \<longleftrightarrow>
     ev_requirement l = ev_requirement r \<and> ev_attempt l = ev_attempt r \<and>
     subjectIdentityKey (ev_subject l) = subjectIdentityKey (ev_subject r)"

definition statementOf :: "evidence \<Rightarrow> evidence_statement" where
  "statementOf e =
     (case ev_kind e of
        ApprovalEvidence v _ \<Rightarrow> if v = Approved then SaysSatisfied else SaysUnsatisfied
      | GateEvidence GatePass \<Rightarrow> SaysSatisfied
      | GateEvidence GateFail \<Rightarrow> SaysUnsatisfied
      | GateEvidence GateIndeterminate \<Rightarrow> SaysIndeterminate)"

definition inferId :: "js \<Rightarrow> string \<Rightarrow> string option \<Rightarrow> string option" where
  "inferId input field nested =
     (let container = (case nested of None \<Rightarrow> input | Some n \<Rightarrow> opt_get input n)
      in as_string (opt_get container field))"

definition diagnostic_key :: "diagnostic \<Rightarrow> string" where
  "diagnostic_key d =
     join_with ''|'' [diagnostic_code_str (dg_code d), or_else (dg_evidence d) '''',
                      or_else (dg_contradiction d) '''', dg_message d]"

definition about_evidence :: "diagnostic_code \<Rightarrow> string \<Rightarrow> string \<Rightarrow> diagnostic" where
  "about_evidence c i m = \<lparr>dg_code = c, dg_evidence = Some i, dg_contradiction = None, dg_message = m\<rparr>"

definition about_contradiction :: "diagnostic_code \<Rightarrow> string \<Rightarrow> string \<Rightarrow> diagnostic" where
  "about_contradiction c i m = \<lparr>dg_code = c, dg_evidence = None, dg_contradiction = Some i, dg_message = m\<rparr>"

section \<open>Unique records\<close>

text \<open>A \<open>Map\<close> from keys to the elements that have them, in order of the first occurrence.\<close>

definition grouped :: "('a \<Rightarrow> 'k) \<Rightarrow> 'a list \<Rightarrow> ('k \<times> 'a list) list" where
  "grouped key xs = map (\<lambda>k. (k, filter (\<lambda>x. key x = k) xs)) (dedup_from {} id (map key xs))"

definition malformed_evidence :: "proof_schemas \<Rightarrow> js list \<Rightarrow> diagnostic list" where
  "malformed_evidence sch candidates =
     map (\<lambda>c. \<lparr>dg_code = MALFORMED_EVIDENCE, dg_evidence = inferId c ''evidenceId'' (Some ''evidence''),
               dg_contradiction = None,
               dg_message = ''evidence record does not satisfy the internal proof schema''\<rparr>)
       (filter (\<lambda>c. sc_evidence sch c = None) candidates)"

definition duplicate_ids :: "evidence_record list \<Rightarrow> string list" where
  "duplicate_ids rs = map fst (filter (\<lambda>(_, g). length g \<noteq> 1) (grouped er_id rs))"

definition unique_records :: "evidence_record list \<Rightarrow> (string \<times> evidence_record) list" where
  "unique_records rs =
     List.map_filter (\<lambda>(i, g). case g of [r] \<Rightarrow> Some (i, r) | _ \<Rightarrow> None) (grouped er_id rs)"

definition duplicate_diagnostics :: "evidence_record list \<Rightarrow> diagnostic list" where
  "duplicate_diagnostics rs =
     map (\<lambda>i. about_evidence DUPLICATE_EVIDENCE_ID i ''evidence identity occurs more than once'') (duplicate_ids rs)"

section \<open>Supersession chains\<close>

definition predecessors :: "(string \<times> evidence_record) list \<Rightarrow> (string \<times> string) list" where
  "predecessors u = List.map_filter (\<lambda>(i, r). map_option (Pair i) (er_supersedes r)) u"

definition predecessor_defect ::
    "(string \<times> evidence_record) list \<Rightarrow> string list \<Rightarrow> evidence_record \<Rightarrow> string \<Rightarrow> (diagnostic_code \<times> string) option" where
  "predecessor_defect u invalid r p =
     (case (map_of u p, p \<in> set invalid) of
        (Some q, False) \<Rightarrow>
          if \<not> sameBaseScope (er_evidence r) (er_evidence q) then
            Some (SCOPE_MISMATCH, ''superseding evidence does not match predecessor requirement scope'')
          else if digestKey (ev_policyDigest (er_evidence r)) \<noteq> digestKey (ev_policyDigest (er_evidence q)) then
            Some (INCOMPATIBLE_POLICY_DIGEST, ''superseding evidence uses a different policy digest'')
          else None
      | _ \<Rightarrow> Some (MISSING_PREDECESSOR, ''declared predecessor '' @ p @ '' is unavailable''))"

fun check_predecessors ::
    "(string \<times> evidence_record) list \<Rightarrow> (string \<times> evidence_record) list \<Rightarrow> string list \<Rightarrow> string list \<times> diagnostic list" where
  "check_predecessors u [] invalid = (invalid, [])"
| "check_predecessors u ((i, r) # rest) invalid =
     (case Option.bind (er_supersedes r) (predecessor_defect u invalid r) of
        None \<Rightarrow> check_predecessors u rest invalid
      | Some (c, m) \<Rightarrow>
          (case check_predecessors u rest (i # invalid) of
             (bad, ds) \<Rightarrow> (bad, about_evidence c i m # ds)))"

section \<open>Cycles\<close>

datatype visit_mark = Visiting | Visited

record visit_state =
  vs_marks :: "(string \<times> visit_mark) list"
  vs_stack :: "string list"
  vs_cycle :: "string list"

text \<open>\<open>stack.slice(stack.indexOf(id))\<close>; for an absent element \<open>slice(-1)\<close> is the last one.\<close>

definition slice_from :: "string \<Rightarrow> string list \<Rightarrow> string list" where
  "slice_from i s = (if i \<in> set s then dropWhile (\<lambda>x. x \<noteq> i) s else drop (length s - 1) s)"

function visit ::
    "(string \<times> string) list \<Rightarrow> string list \<Rightarrow> string list \<Rightarrow> string \<Rightarrow> visit_state \<Rightarrow> visit_state" where
  "visit preds ids invalid i st =
     (if i \<in> set invalid \<or> map_of (vs_marks st) i = Some Visited then st
      else if map_of (vs_marks st) i = Some Visiting then
        st\<lparr>vs_cycle := vs_cycle st @ slice_from i (vs_stack st)\<rparr>
      else
        (let st1 = st\<lparr>vs_marks := AList.update i Visiting (vs_marks st), vs_stack := vs_stack st @ [i]\<rparr>;
             st2 = (case map_of preds i of
                      None \<Rightarrow> st1
                    | Some p \<Rightarrow> if p \<in> set ids then visit preds ids invalid p st1 else st1)
         in st2\<lparr>vs_stack := butlast (vs_stack st2), vs_marks := AList.update i Visited (vs_marks st2)\<rparr>))"
  by pat_completeness auto

termination
proof (relation "measure (\<lambda>(preds, ids, invalid, i, st). card (insert i (set ids) - fst ` set (vs_marks st)))",
    goal_cases)
  case (2 preds ids invalid i st st1 p)
  then have "i \<notin> fst ` set (vs_marks st)"
    by (metis (full_types) map_of_eq_None_iff not_None_eq visit_mark.exhaust)
  moreover have "fst ` set (vs_marks st1) = insert i (fst ` set (vs_marks st))"
    using 2 by (simp add: keys_update)
  ultimately have "insert p (set ids) - fst ` set (vs_marks st1) \<subset> insert i (set ids) - fst ` set (vs_marks st)"
    using 2 by auto
  then show ?case by (simp add: psubset_card_mono)
qed simp

declare visit.simps [simp del]

definition cycle_ids :: "(string \<times> string) list \<Rightarrow> string list \<Rightarrow> string list \<Rightarrow> string list" where
  "cycle_ids preds ids invalid =
     sort (dedup_from {} id (vs_cycle
       (fold (visit preds ids invalid) (sort ids) \<lparr>vs_marks = [], vs_stack = [], vs_cycle = []\<rparr>)))"

definition cycle_diagnostics :: "string list \<Rightarrow> diagnostic list" where
  "cycle_diagnostics cs =
     map (\<lambda>i. about_evidence CYCLIC_SUPERSESSION i ''evidence participates in a supersession cycle'') cs"

section \<open>Invalid predecessors\<close>

fun close_pass :: "(string \<times> string) list \<Rightarrow> string list \<Rightarrow> string list \<times> diagnostic list" where
  "close_pass [] invalid = (invalid, [])"
| "close_pass ((i, p) # rest) invalid =
     (if i \<notin> set invalid \<and> p \<in> set invalid then
        (case close_pass rest (i # invalid) of
           (bad, ds) \<Rightarrow>
             (bad, about_evidence INVALID_PREDECESSOR i (''declared predecessor '' @ p @ '' is invalid'') # ds))
      else close_pass rest invalid)"

lemma close_pass_grows: "set invalid \<subseteq> set (fst (close_pass ps invalid))"
  by (induction ps invalid rule: close_pass.induct) (auto split: prod.splits)

lemma close_pass_keys: "set (fst (close_pass ps invalid)) \<subseteq> set invalid \<union> fst ` set ps"
  by (induction ps invalid rule: close_pass.induct) (auto split: prod.splits)

lemma close_pass_changed:
  "snd (close_pass ps invalid) \<noteq> [] \<Longrightarrow> \<exists>i \<in> fst ` set ps. i \<notin> set invalid \<and> i \<in> set (fst (close_pass ps invalid))"
proof (induction ps invalid rule: close_pass.induct)
  case (2 i p rest invalid)
  show ?case
  proof (cases "i \<notin> set invalid \<and> p \<in> set invalid")
    case True
    then show ?thesis using close_pass_grows [of "i # invalid" rest] by (auto split: prod.splits)
  next
    case False
    then show ?thesis using 2 by auto
  qed
qed simp

text \<open>The loop runs until a pass changes nothing.\<close>

function close_loop :: "(string \<times> string) list \<Rightarrow> string list \<Rightarrow> string list \<times> diagnostic list" where
  "close_loop preds invalid =
     (let r = close_pass preds invalid
      in if snd r = [] then r
         else (case close_loop preds (fst r) of (bad, ds) \<Rightarrow> (bad, snd r @ ds)))"
  by pat_completeness auto

termination
proof (relation "measure (\<lambda>(preds, invalid). card (fst ` set preds - set invalid))", goal_cases)
  case (2 preds invalid r)
  then have "fst ` set preds - set (fst r) \<subset> fst ` set preds - set invalid"
    using close_pass_grows [of invalid preds] close_pass_changed [of preds invalid] by auto
  then show ?case by (simp add: psubset_card_mono)
qed simp

declare close_loop.simps [simp del]

section \<open>Convergence and contradictions\<close>

definition valid_records :: "(string \<times> evidence_record) list \<Rightarrow> string list \<Rightarrow> (string \<times> evidence_record) list" where
  "valid_records u invalid = sort_key fst (filter (\<lambda>(i, _). i \<notin> set invalid) u)"

definition supersessions_of :: "(string \<times> evidence_record) list \<Rightarrow> supersession list" where
  "supersessions_of v =
     sort_key (\<lambda>s. ss_evidence s @ ''|'' @ ss_by s)
       (List.map_filter
         (\<lambda>(i, r). case er_supersedes r of
            None \<Rightarrow> None
          | Some p \<Rightarrow>
              if p \<in> fst ` set v then
                Some \<lparr>ss_evidence = p, ss_by = i, ss_producer = ep_producerId (ev_producer (er_evidence r)),
                      ss_invocation = ep_invocationId (ev_producer (er_evidence r))\<rparr>
              else None) v)"

definition unsuperseded :: "(string \<times> evidence_record) list \<Rightarrow> evidence_record list" where
  "unsuperseded v = map snd (filter (\<lambda>(i, _). i \<notin> ss_evidence ` set (supersessions_of v)) v)"

definition record_scope :: "evidence_record \<Rightarrow> string" where
  "record_scope r = scopeKey (er_evidence r)"

definition scope_statements :: "evidence_record list \<Rightarrow> evidence_statement list" where
  "scope_statements rs = sort_key statement_str (dedup_from {} id (map (\<lambda>r. statementOf (er_evidence r)) rs))"

text \<open>The duplicates of a scope that agrees, and the contradiction of a scope that does not.\<close>

definition converged_in :: "evidence_record list \<Rightarrow> evidence_record list" where
  "converged_in rs = (if length (scope_statements rs) < 2 then tl rs else [])"

definition converged_diagnostics :: "evidence_record list \<Rightarrow> diagnostic list" where
  "converged_diagnostics rs =
     map (\<lambda>r. about_evidence CONVERGED_EQUIVALENT_EVIDENCE (er_id r)
               (''equivalent concurrent evidence converged on canonical '' @ er_id (hd rs))) (converged_in rs)"

definition active_contradiction :: "evidence_record list \<Rightarrow> evidence_contradiction option" where
  "active_contradiction rs =
     (case rs of
        [] \<Rightarrow> None
      | r # _ \<Rightarrow>
          if length (scope_statements rs) < 2 then None
          else Some \<lparr>ec_source = ActiveEvidence (scope_statements rs),
                     ec_requirement = ev_requirement (er_evidence r), ec_attempt = ev_attempt (er_evidence r),
                     ec_subject = ev_subject (er_evidence r), ec_policyDigest = ev_policyDigest (er_evidence r),
                     ec_evidenceIds = sort (map er_id rs)\<rparr>)"

definition scopes :: "evidence_record list \<Rightarrow> evidence_record list list" where
  "scopes active = map snd (grouped record_scope active)"

definition canonical_active :: "evidence_record list \<Rightarrow> evidence_record list" where
  "canonical_active active =
     filter (\<lambda>r. er_id r \<notin> er_id ` set (concat (map converged_in (scopes active)))) active"

text \<open>A contradiction event: the contradiction that it adds, or the diagnostic that it causes.\<close>

definition event_scope_matches :: "contradiction_event \<Rightarrow> string \<Rightarrow> evidence \<Rightarrow> bool" where
  "event_scope_matches c q e \<longleftrightarrow>
     ev_requirement e = q \<and> ev_attempt e = ce_attempt c \<and>
     subjectIdentityKey (ev_subject e) = subjectIdentityKey (ce_subject c) \<and>
     digestKey (ev_policyDigest e) = digestKey (ce_policyDigest c) \<and> ev_policyId e = ce_policyId c"

definition downstream ::
    "(string \<times> evidence_record) list \<Rightarrow> contradiction_event \<Rightarrow> diagnostic + evidence_contradiction" where
  "downstream v c =
     (let ids = sort (dedup_from {} id (ce_evidenceIds c));
          referenced = map (map_of v) ids
      in if length ids < 2 \<or> None \<in> set referenced then
           Inl (about_contradiction MISSING_CONTRADICTION_EVIDENCE (ce_id c)
             ''contradiction references fewer than two available evidence records'')
         else
           (let records = map (\<lambda>r. er_evidence (the r)) referenced;
                q = ev_requirement (hd records)
            in if \<not> list_all (event_scope_matches c q) records \<or>
                  (ce_requirement c \<noteq> None \<and> ce_requirement c \<noteq> Some q) then
                 Inl (about_contradiction CONTRADICTION_SCOPE_MISMATCH (ce_id c)
                   ''contradiction evidence does not share the declared requirement scope'')
               else Inr \<lparr>ec_source = DownstreamEvent (ce_id c) (ce_detectedAt c), ec_requirement = q,
                         ec_attempt = ce_attempt c, ec_subject = ce_subject c,
                         ec_policyDigest = ce_policyDigest c, ec_evidenceIds = ids\<rparr>))"

definition contradiction_candidate ::
    "proof_schemas \<Rightarrow> (string \<times> evidence_record) list \<Rightarrow> js \<Rightarrow> diagnostic + evidence_contradiction" where
  "contradiction_candidate sch v candidate =
     (case sc_contradiction sch candidate of
        None \<Rightarrow>
          Inl \<lparr>dg_code = MALFORMED_CONTRADICTION, dg_evidence = None,
               dg_contradiction = inferId candidate ''contradictionId'' None,
               dg_message = ''contradiction event does not satisfy the internal proof schema''\<rparr>
      | Some c \<Rightarrow> downstream v c)"

definition contradiction_key :: "evidence_contradiction \<Rightarrow> string" where
  "contradiction_key c =
     (case ec_source c of
        DownstreamEvent i _ \<Rightarrow> ''1|'' @ i
      | ActiveEvidence _ \<Rightarrow> ''0|'' @ ec_requirement c @ ''|'' @ join_with ''|'' (ec_evidenceIds c))"

definition left_of :: "'a + 'b \<Rightarrow> 'a option" where
  "left_of x = (case x of Inl a \<Rightarrow> Some a | Inr _ \<Rightarrow> None)"

definition right_of :: "'a + 'b \<Rightarrow> 'b option" where
  "right_of x = (case x of Inl _ \<Rightarrow> None | Inr b \<Rightarrow> Some b)"

section \<open>Selection\<close>

text \<open>The identifiers that are out, and the diagnostics on the way, up to the fixpoint loop.\<close>

definition chain_check :: "evidence_record list \<Rightarrow> string list \<times> diagnostic list" where
  "chain_check rs =
     (let u = unique_records rs;
          checked = check_predecessors u u (duplicate_ids rs);
          cycles = cycle_ids (predecessors u) (map fst u) (fst checked);
          closed = close_loop (predecessors u) (cycles @ fst checked)
      in (fst closed, duplicate_diagnostics rs @ snd checked @ cycle_diagnostics cycles @ snd closed))"

definition selectEvidence :: "proof_schemas \<Rightarrow> js list \<Rightarrow> js list \<Rightarrow> selection" where
  "selectEvidence sch evidence contradictionEvents =
     (let rs = List.map_filter (sc_evidence sch) evidence;
          chain = chain_check rs;
          v = valid_records (unique_records rs) (fst chain);
          active = unsuperseded v;
          candidates = map (contradiction_candidate sch v) contradictionEvents
      in \<lparr>sel_active = canonical_active active,
          sel_supersessions = supersessions_of v,
          sel_contradictions =
            sort_key contradiction_key
              (List.map_filter active_contradiction (scopes active) @ List.map_filter right_of candidates),
          sel_diagnostics =
            sort_key diagnostic_key
              (malformed_evidence sch evidence @ snd chain @
               concat (map converged_diagnostics (scopes active)) @ List.map_filter left_of candidates)\<rparr>)"

end
