(* ===== verification/Selection_Laws.thy ===== *)
theory Selection_Laws
  imports Evidence_Selection Admission_Laws "HOL-Library.Multiset"
begin

text \<open>
  What the selection of evidence decides. The three passes over the supersession chains (the check of
  the links, the search for cycles and the fixpoint) together accept exactly the records with a
  well-founded chain of compatible predecessors; the order of arrival decides nothing; a scope with
  more than one active record is a contradiction; and the convergence of agreeing records leaves a
  quorum nothing to count.
\<close>

section \<open>Unique records\<close>

lemma grouped_iff: "(k, g) \<in> set (grouped key xs) \<longleftrightarrow> k \<in> key ` set xs \<and> g = filter (\<lambda>x. key x = k) xs"
  by (auto simp: grouped_def dedup_from_set)

lemma grouped_keys: "distinct (map fst (grouped key xs))"
  using dedup_from_distinct [where seen = "{}" and key = id and xs = "map key xs"] by (simp add: grouped_def comp_def)

lemma map_filter_member: "y \<in> set (List.map_filter f xs) \<longleftrightarrow> (\<exists>x \<in> set xs. f x = Some y)"
  by (rule map_filter_image)

lemma filter_singleD: "filter P xs = [x] \<Longrightarrow> x \<in> set xs \<and> P x"
  by (metis filter_set list.set_intros(1) mem_Collect_eq set_filter)

lemma unique_records_iff:
  "(i, r) \<in> set (unique_records rs) \<longleftrightarrow> filter (\<lambda>x. er_id x = i) rs = [r]"
proof -
  have "(\<exists>x \<in> set (grouped er_id rs). (case x of (i, g) \<Rightarrow> case g of [r] \<Rightarrow> Some (i, r) | _ \<Rightarrow> None) = Some (i, r)) \<longleftrightarrow>
      (i, [r]) \<in> set (grouped er_id rs)"
    by (force split: list.splits)
  also have "\<dots> \<longleftrightarrow> filter (\<lambda>x. er_id x = i) rs = [r]"
    using filter_singleD [of "\<lambda>x. er_id x = i" rs r] by (auto simp: grouped_iff)
  finally show ?thesis by (simp only: unique_records_def map_filter_member)
qed

lemma map_filter_keys:
  "(\<And>x y. f x = Some y \<Longrightarrow> fst y = fst x) \<Longrightarrow> distinct (map fst xs) \<Longrightarrow> distinct (map fst (List.map_filter f xs))"
proof (induction xs)
  case (Cons x xs)
  have "fst x \<notin> fst ` set (List.map_filter f xs)"
  proof
    assume "fst x \<in> fst ` set (List.map_filter f xs)"
    then obtain z y where "z \<in> set xs" "f z = Some y" "fst y = fst x" by (auto simp: map_filter_member)
    then show False using Cons.prems by (metis distinct.simps(2) image_eqI list.set_map list.simps(9))
  qed
  then show ?case using Cons by (auto simp: List.map_filter_simps split: option.split)
qed (simp add: List.map_filter_simps)

lemma unique_records_keys: "distinct (map fst (unique_records rs))"
  unfolding unique_records_def
  by (rule map_filter_keys [OF _ grouped_keys]) (auto split: list.splits)

lemma unique_lookup: "map_of (unique_records rs) i = Some r \<longleftrightarrow> filter (\<lambda>x. er_id x = i) rs = [r]"
  using unique_records_keys unique_records_iff by (metis map_of_eq_Some_iff)

lemma unique_id: "map_of (unique_records rs) i = Some r \<Longrightarrow> er_id r = i \<and> r \<in> set rs"
  using filter_singleD unfolding unique_lookup by fast

lemma unique_perm: "mset rs = mset rs' \<Longrightarrow> map_of (unique_records rs) = map_of (unique_records rs')"
proof
  fix i
  assume "mset rs = mset rs'"
  then have m: "mset (filter (\<lambda>x. er_id x = i) rs) = mset (filter (\<lambda>x. er_id x = i) rs')"
    by (simp only: mset_filter)
  have "filter (\<lambda>x. er_id x = i) rs = [r] \<longleftrightarrow> filter (\<lambda>x. er_id x = i) rs' = [r]" for r
    using m by (metis mset_single_iff)
  then show "map_of (unique_records rs) i = map_of (unique_records rs') i"
    by (metis not_Some_eq unique_lookup)
qed

lemma predecessors_iff: "(i, p) \<in> set (predecessors u) \<longleftrightarrow> (\<exists>r. (i, r) \<in> set u \<and> er_supersedes r = Some p)"
  by (force simp: predecessors_def map_filter_member)

lemma predecessors_lookup:
  assumes "distinct (map fst u)"
  shows "map_of (predecessors u) i = Option.bind (map_of u i) er_supersedes"
proof -
  have d: "distinct (map fst (predecessors u))"
    unfolding predecessors_def by (rule map_filter_keys [OF _ assms]) auto
  have "map_of (predecessors u) i = Some p \<longleftrightarrow> Option.bind (map_of u i) er_supersedes = Some p" for p
    using d assms by (simp add: map_of_eq_Some_iff predecessors_iff bind_eq_Some_conv)
  then show ?thesis by (metis not_Some_eq)
qed

section \<open>Well-founded chains\<close>

definition linkable :: "evidence_record \<Rightarrow> evidence_record \<Rightarrow> bool" where
  "linkable r q \<longleftrightarrow> sameBaseScope (er_evidence r) (er_evidence q) \<and>
     digestKey (ev_policyDigest (er_evidence r)) = digestKey (ev_policyDigest (er_evidence q))"

text \<open>The specification: a chain of compatible unique records that ends in one without a predecessor.\<close>

inductive grounded :: "(string \<Rightarrow> evidence_record option) \<Rightarrow> string \<Rightarrow> bool" for u where
  root: "u i = Some r \<Longrightarrow> er_supersedes r = None \<Longrightarrow> grounded u i"
| step: "u i = Some r \<Longrightarrow> er_supersedes r = Some p \<Longrightarrow> u p = Some q \<Longrightarrow> linkable r q \<Longrightarrow> grounded u p \<Longrightarrow>
    grounded u i"

inductive_cases groundedE: "grounded u i"

lemma predecessor_defect_None:
  "predecessor_defect u invalid r p = None \<longleftrightarrow> (\<exists>q. map_of u p = Some q \<and> p \<notin> set invalid \<and> linkable r q)"
  by (auto simp: predecessor_defect_def linkable_def split: option.splits bool.splits)

text \<open>Everything that the passes throw out is ungrounded.\<close>

lemma check_predecessors_sound:
  assumes "\<forall>i \<in> set invalid. \<not> grounded (map_of u) i" "\<forall>(i, r) \<in> set rest. map_of u i = Some r"
  shows "\<forall>i \<in> set (fst (check_predecessors u rest invalid)). \<not> grounded (map_of u) i"
  using assms
proof (induction rest arbitrary: invalid)
  case (Cons x rest)
  obtain i r where x: "x = (i, r)" by fastforce
  show ?case
  proof (cases "Option.bind (er_supersedes r) (predecessor_defect u invalid r)")
    case None
    then show ?thesis using Cons x by simp
  next
    case (Some cm)
    then obtain p where p: "er_supersedes r = Some p" "predecessor_defect u invalid r p \<noteq> None"
      by (auto simp: bind_eq_Some_conv)
    have "\<not> grounded (map_of u) i"
    proof
      assume "grounded (map_of u) i"
      then show False
        using Cons.prems p x by (cases rule: groundedE) (auto simp: predecessor_defect_None)
    qed
    then have "\<forall>i \<in> set (fst (check_predecessors u rest (i # invalid))). \<not> grounded (map_of u) i"
      by (intro Cons.IH) (use Cons.prems in auto)
    then show ?thesis using Some x by (auto split: prod.splits)
  qed
qed simp

lemma check_predecessors_grows: "set invalid \<subseteq> set (fst (check_predecessors u rest invalid))"
  by (induction u rest invalid rule: check_predecessors.induct) (fastforce split: option.splits prod.splits)+

lemma check_predecessors_complete:
  "(i, r) \<in> set rest \<Longrightarrow> i \<notin> set (fst (check_predecessors u rest invalid)) \<Longrightarrow> er_supersedes r = Some p \<Longrightarrow>
   \<exists>q. map_of u p = Some q \<and> linkable r q"
proof (induction u rest invalid rule: check_predecessors.induct)
  case (2 u j s rest invalid)
  show ?case
  proof (cases "Option.bind (er_supersedes s) (predecessor_defect u invalid s)")
    case None
    then show ?thesis using 2 by (auto simp: predecessor_defect_None)
  next
    case (Some cm)
    obtain c m where "cm = (c, m)" by fastforce
    then show ?thesis
      using 2 Some check_predecessors_grows [of "j # invalid" u rest] by (auto split: prod.splits)
  qed
qed simp
section \<open>The search for cycles\<close>

abbreviation links :: "(string \<times> string) list \<Rightarrow> string \<Rightarrow> string \<Rightarrow> bool" where
  "links preds x y \<equiv> map_of preds x = Some y"

lemma chain_reach: "successively R (x # xs) \<Longrightarrow> y \<in> set xs \<Longrightarrow> R\<^sup>+\<^sup>+ x y"
proof (induction xs arbitrary: x)
  case (Cons z zs)
  then have "R x z" by simp
  moreover have "z = y \<or> R\<^sup>+\<^sup>+ z y" using Cons by auto
  ultimately show ?case by (metis tranclp.r_into_trancl tranclp_into_tranclp2)
qed simp

lemma slice_on_cycle:
  assumes "successively R (s @ [i])" "i \<in> set s" "c \<in> set (slice_from i s)"
  shows "R\<^sup>+\<^sup>+ c c"
proof -
  obtain a b where s: "s = a @ i # b" "i \<notin> set a" using assms(2) split_list_first by metis
  have "dropWhile (\<lambda>x. x \<noteq> i) s = i # b" unfolding s(1) using s(2) by (induction a) auto
  then have c: "c \<in> set (i # b)" using assms(2,3) by (simp add: slice_from_def)
  have chain: "successively R (i # b @ [i])" using assms(1) s by (simp add: successively_append_iff)
  show ?thesis
  proof (cases "c = i")
    case True
    then show ?thesis using chain_reach [OF chain] by simp
  next
    case False
    then obtain x y where b: "b = x @ c # y" using c by (auto dest: split_list)
    have "successively R (c # y @ [i])" using chain b by (simp add: successively_append_iff successively_Cons)
    then have "R\<^sup>+\<^sup>+ c i" using chain_reach [of R c "y @ [i]" i] by simp
    moreover have "R\<^sup>+\<^sup>+ i c" using chain_reach [OF chain] b by simp
    ultimately show ?thesis by (rule tranclp_trans)
  qed
qed

definition visit_inv :: "visit_state \<Rightarrow> bool" where
  "visit_inv st \<longleftrightarrow> distinct (vs_stack st) \<and>
     (\<forall>x. map_of (vs_marks st) x = Some Visiting \<longleftrightarrow> x \<in> set (vs_stack st))"

lemma visit_cases:
  obtains (stay) "i \<in> set invalid \<or> map_of (vs_marks st) i = Some Visited" "visit preds ids invalid i st = st"
  | (again) "i \<notin> set invalid" "map_of (vs_marks st) i = Some Visiting"
      "visit preds ids invalid i st = st\<lparr>vs_cycle := vs_cycle st @ slice_from i (vs_stack st)\<rparr>"
  | (fresh) st1 st2 where "i \<notin> set invalid" "map_of (vs_marks st) i = None"
      "st1 = st\<lparr>vs_marks := AList.update i Visiting (vs_marks st), vs_stack := vs_stack st @ [i]\<rparr>"
      "st2 = (case map_of preds i of
                None \<Rightarrow> st1
              | Some p \<Rightarrow> if p \<in> set ids then visit preds ids invalid p st1 else st1)"
      "visit preds ids invalid i st =
        st2\<lparr>vs_stack := butlast (vs_stack st2), vs_marks := AList.update i Visited (vs_marks st2)\<rparr>"
proof (cases "map_of (vs_marks st) i")
  case None
  then show thesis using that(1,3) by (cases "i \<in> set invalid") (simp_all add: visit.simps [of _ _ _ i st] Let_def)
next
  case (Some m)
  then show thesis using that(1,2) by (cases m; cases "i \<in> set invalid") (simp_all add: visit.simps [of _ _ _ i st])
qed

lemma visit_sound:
  assumes "visit_inv st" "successively (links preds) (vs_stack st @ [i])"
  shows "vs_stack (visit preds ids invalid i st) = vs_stack st \<and> visit_inv (visit preds ids invalid i st) \<and>
    (\<forall>c \<in> set (vs_cycle (visit preds ids invalid i st)). c \<in> set (vs_cycle st) \<or> (links preds)\<^sup>+\<^sup>+ c c)"
  using assms
proof (induction preds ids invalid i st rule: visit.induct)
  case (1 preds ids invalid i st)
  show ?case
  proof (cases rule: visit_cases [of i invalid st preds ids])
    case stay
    then show ?thesis using 1 by simp
  next
    case again
    then show ?thesis using 1 slice_on_cycle [of "links preds" "vs_stack st" i] by (auto simp: visit_inv_def)
  next
    case (fresh st1 st2)
    have "i \<notin> set (vs_stack st)"
      using "1.prems"(1) fresh(2) unfolding visit_inv_def by (metis option.distinct(1))
    then have inv1: "visit_inv st1" using "1.prems"(1) by (auto simp: visit_inv_def fresh(3))
    have st2: "vs_stack st2 = vs_stack st1 \<and> visit_inv st2 \<and>
        (\<forall>c \<in> set (vs_cycle st2). c \<in> set (vs_cycle st1) \<or> (links preds)\<^sup>+\<^sup>+ c c)"
    proof (cases "map_of preds i")
      case None
      then show ?thesis using fresh inv1 by simp
    next
      case (Some p)
      have "successively (links preds) (vs_stack st1 @ [p])"
        using "1.prems"(2) Some fresh(3) by (simp add: successively_append_iff)
      then show ?thesis using "1.IH" [OF _ _ fresh(3) Some] fresh Some inv1 by auto
    qed
    then have "visit_inv (st2\<lparr>vs_stack := butlast (vs_stack st2), vs_marks := AList.update i Visited (vs_marks st2)\<rparr>)"
      using fresh inv1 by (auto simp: visit_inv_def)
    then show ?thesis using fresh st2 by simp
  qed
qed

text \<open>Following the predecessors from an identifier leads out of the chains or into a given set.\<close>

inductive escapes :: "(string \<times> string) list \<Rightarrow> string list \<Rightarrow> string set \<Rightarrow> string \<Rightarrow> bool"
  for preds ids B where
  inside: "i \<in> B \<Longrightarrow> escapes preds ids B i"
| leaf: "\<forall>p. map_of preds i = Some p \<longrightarrow> p \<notin> set ids \<Longrightarrow> escapes preds ids B i"
| onward: "map_of preds i = Some p \<Longrightarrow> p \<in> set ids \<Longrightarrow> escapes preds ids B p \<Longrightarrow> escapes preds ids B i"

lemma escapes_mono:
  assumes "escapes preds ids B i" "B \<subseteq> B'"
  shows "escapes preds ids B' i"
  using assms by (induction rule: escapes.induct) (auto intro: escapes.intros)

definition outs :: "string list \<Rightarrow> visit_state \<Rightarrow> string set" where
  "outs invalid st = set invalid \<union> set (vs_cycle st)"

definition visited_escape :: "(string \<times> string) list \<Rightarrow> string list \<Rightarrow> string list \<Rightarrow> visit_state \<Rightarrow> bool" where
  "visited_escape preds ids invalid st \<longleftrightarrow>
     (\<forall>x. map_of (vs_marks st) x = Some Visited \<longrightarrow> escapes preds ids (outs invalid st) x)"

lemma slice_self: "i \<in> set s \<Longrightarrow> i \<in> set (slice_from i s)"
proof -
  assume "i \<in> set s"
  then obtain a b where s: "s = a @ i # b" "i \<notin> set a" using split_list_first by metis
  have "dropWhile (\<lambda>x. x \<noteq> i) s = i # b" unfolding s(1) using s(2) by (induction a) auto
  then show ?thesis using \<open>i \<in> set s\<close> by (simp add: slice_from_def)
qed

lemma visit_complete:
  assumes "visit_inv st" "successively (links preds) (vs_stack st @ [i])" "visited_escape preds ids invalid st"
  shows "visited_escape preds ids invalid (visit preds ids invalid i st) \<and>
    escapes preds ids (outs invalid (visit preds ids invalid i st)) i \<and>
    outs invalid st \<subseteq> outs invalid (visit preds ids invalid i st)"
  using assms
proof (induction preds ids invalid i st rule: visit.induct)
  case (1 preds ids invalid i st)
  show ?case
  proof (cases rule: visit_cases [of i invalid st preds ids])
    case stay
    then show ?thesis using 1 by (auto simp: visited_escape_def outs_def intro: escapes.inside)
  next
    case again
    then have i: "i \<in> set (vs_stack st)" using "1.prems"(1) by (simp add: visit_inv_def)
    have sub: "outs invalid st \<subseteq> outs invalid (visit preds ids invalid i st)"
      unfolding again(3) by (auto simp: outs_def)
    have "i \<in> outs invalid (visit preds ids invalid i st)"
      unfolding again(3) using slice_self [OF i] by (simp add: outs_def)
    then show ?thesis
      using sub "1.prems"(3) escapes_mono [OF _ sub] escapes.inside unfolding visited_escape_def again(3)
      by auto
  next
    case (fresh st1 st2)
    have "i \<notin> set (vs_stack st)"
      using "1.prems"(1) fresh(2) unfolding visit_inv_def by (metis option.distinct(1))
    then have inv1: "visit_inv st1" using "1.prems"(1) by (auto simp: visit_inv_def fresh(3))
    have ve1: "visited_escape preds ids invalid st1"
      using "1.prems"(3) by (simp add: visited_escape_def outs_def fresh(3))
    have o1: "outs invalid st1 = outs invalid st" by (simp add: outs_def fresh(3))
    have "visited_escape preds ids invalid st2 \<and> escapes preds ids (outs invalid st2) i \<and>
        outs invalid st1 \<subseteq> outs invalid st2"
    proof (cases "\<exists>p. map_of preds i = Some p \<and> p \<in> set ids")
      case False
      then have "st2 = st1" using fresh(4) by (auto split: option.split)
      then show ?thesis using ve1 False escapes.leaf by auto
    next
      case True
      then obtain p where p: "map_of preds i = Some p" "p \<in> set ids" by blast
      have "successively (links preds) (vs_stack st1 @ [p])"
        using "1.prems"(2) p fresh(3) by (simp add: successively_append_iff)
      then have "visited_escape preds ids invalid (visit preds ids invalid p st1) \<and>
          escapes preds ids (outs invalid (visit preds ids invalid p st1)) p \<and>
          outs invalid st1 \<subseteq> outs invalid (visit preds ids invalid p st1)"
        using "1.IH" [OF _ _ fresh(3) p] fresh p inv1 ve1 by auto
      then show ?thesis using p escapes.onward by (simp add: fresh(4))
    qed
    then show ?thesis using o1 unfolding fresh(5) by (auto simp: visited_escape_def outs_def)
  qed
qed

lemma visits:
  assumes "visit_inv st" "vs_stack st = []" "visited_escape preds ids invalid st"
  shows "visit_inv (fold (visit preds ids invalid) xs st) \<and> vs_stack (fold (visit preds ids invalid) xs st) = [] \<and>
    visited_escape preds ids invalid (fold (visit preds ids invalid) xs st) \<and>
    outs invalid st \<subseteq> outs invalid (fold (visit preds ids invalid) xs st) \<and>
    (\<forall>i \<in> set xs. escapes preds ids (outs invalid (fold (visit preds ids invalid) xs st)) i) \<and>
    (\<forall>c \<in> set (vs_cycle (fold (visit preds ids invalid) xs st)).
      c \<in> set (vs_cycle st) \<or> (links preds)\<^sup>+\<^sup>+ c c)"
  using assms
proof (induction xs arbitrary: st)
  case (Cons x xs)
  let ?s = "visit preds ids invalid x st"
  have one: "vs_stack ?s = [] \<and> visit_inv ?s \<and>
      (\<forall>c \<in> set (vs_cycle ?s). c \<in> set (vs_cycle st) \<or> (links preds)\<^sup>+\<^sup>+ c c)"
    using visit_sound [of st preds x ids invalid] Cons.prems by simp
  have two: "visited_escape preds ids invalid ?s \<and> escapes preds ids (outs invalid ?s) x \<and>
      outs invalid st \<subseteq> outs invalid ?s"
    using visit_complete [of st preds x ids invalid] Cons.prems by simp
  have three: "visit_inv (fold (visit preds ids invalid) xs ?s) \<and>
      vs_stack (fold (visit preds ids invalid) xs ?s) = [] \<and>
      visited_escape preds ids invalid (fold (visit preds ids invalid) xs ?s) \<and>
      outs invalid ?s \<subseteq> outs invalid (fold (visit preds ids invalid) xs ?s) \<and>
      (\<forall>i \<in> set xs. escapes preds ids (outs invalid (fold (visit preds ids invalid) xs ?s)) i) \<and>
      (\<forall>c \<in> set (vs_cycle (fold (visit preds ids invalid) xs ?s)).
        c \<in> set (vs_cycle ?s) \<or> (links preds)\<^sup>+\<^sup>+ c c)"
    using Cons.IH [of ?s] one two by blast
  then show ?case using one two escapes_mono by fastforce
qed simp

lemma cycle_ids_laws:
  "\<forall>c \<in> set (cycle_ids preds ids invalid). (links preds)\<^sup>+\<^sup>+ c c"
  "i \<in> set ids \<Longrightarrow> escapes preds ids (set invalid \<union> set (cycle_ids preds ids invalid)) i"
proof -
  let ?z = "\<lparr>vs_marks = [], vs_stack = [], vs_cycle = []\<rparr>"
  let ?s = "fold (visit preds ids invalid) (sort ids) ?z"
  have "visit_inv ?z" "visited_escape preds ids invalid ?z" by (simp_all add: visit_inv_def visited_escape_def)
  then have all: "(\<forall>i \<in> set (sort ids). escapes preds ids (outs invalid ?s) i) \<and>
      (\<forall>c \<in> set (vs_cycle ?s). c \<in> set (vs_cycle ?z) \<or> (links preds)\<^sup>+\<^sup>+ c c)"
    using visits [of ?z preds ids invalid "sort ids"] by simp
  have c: "set (cycle_ids preds ids invalid) = set (vs_cycle ?s)"
    by (simp add: cycle_ids_def dedup_from_set)
  show "\<forall>c \<in> set (cycle_ids preds ids invalid). (links preds)\<^sup>+\<^sup>+ c c" using all c by auto
  show "i \<in> set ids \<Longrightarrow> escapes preds ids (set invalid \<union> set (cycle_ids preds ids invalid)) i"
    using all c by (simp add: outs_def)
qed

section \<open>The fixpoint\<close>

lemma close_pass_still:
  "snd (close_pass ps invalid) = [] \<Longrightarrow> fst (close_pass ps invalid) = invalid \<and>
   (\<forall>(i, p) \<in> set ps. p \<in> set invalid \<longrightarrow> i \<in> set invalid)"
  by (induction ps invalid rule: close_pass.induct) (auto split: prod.splits if_splits)

lemma close_pass_preserves:
  assumes "\<forall>i \<in> set invalid. \<not> G i" "\<forall>(i, p) \<in> set ps. G i \<longrightarrow> G p"
  shows "\<forall>i \<in> set (fst (close_pass ps invalid)). \<not> G i"
  using assms
proof (induction ps invalid rule: close_pass.induct)
  case (2 i p rest invalid)
  show ?case
  proof (cases "i \<notin> set invalid \<and> p \<in> set invalid")
    case True
    then have "\<not> G i" using 2 by auto
    then have "\<forall>i \<in> set (fst (close_pass rest (i # invalid))). \<not> G i"
      by (intro "2.IH"(1)) (use True "2.prems" in auto)
    then show ?thesis using True by (auto split: prod.splits)
  next
    case False
    then show ?thesis using 2 by auto
  qed
qed simp

lemma close_loop_fst:
  "fst (close_loop ps invalid) =
   (if snd (close_pass ps invalid) = [] then invalid else fst (close_loop ps (fst (close_pass ps invalid))))"
  using close_pass_still [of ps invalid]
  by (simp add: close_loop.simps [of ps invalid] Let_def split: prod.split)

lemma close_loop_grows: "set invalid \<subseteq> set (fst (close_loop ps invalid))"
proof (induction ps invalid rule: close_loop.induct)
  case (1 ps invalid)
  show ?case
    using 1 [OF refl] close_pass_grows [of invalid ps] unfolding close_loop_fst [of ps invalid] by auto
qed

lemma close_loop_closed:
  "\<forall>(i, p) \<in> set ps. p \<in> set (fst (close_loop ps invalid)) \<longrightarrow> i \<in> set (fst (close_loop ps invalid))"
proof (induction ps invalid rule: close_loop.induct)
  case (1 ps invalid)
  show ?case
  proof (cases "snd (close_pass ps invalid) = []")
    case True
    then show ?thesis using close_pass_still [OF True] by (simp add: close_loop_fst [of ps invalid])
  next
    case False
    then show ?thesis using 1 [OF refl False] by (simp add: close_loop_fst [of ps invalid])
  qed
qed

lemma close_loop_preserves:
  assumes "\<forall>(i, p) \<in> set ps. G i \<longrightarrow> G p" "\<forall>i \<in> set invalid. \<not> G i"
  shows "\<forall>i \<in> set (fst (close_loop ps invalid)). \<not> G i"
  using assms
proof (induction ps invalid rule: close_loop.induct)
  case (1 ps invalid)
  show ?case
  proof (cases "snd (close_pass ps invalid) = []")
    case True
    then show ?thesis using 1 by (simp add: close_loop_fst [of ps invalid])
  next
    case False
    then show ?thesis
      using "1.IH" [OF refl False "1.prems"(1) close_pass_preserves [OF "1.prems"(2,1)]]
      by (simp add: close_loop_fst [of ps invalid])
  qed
qed

section \<open>The three passes against the specification\<close>

lemma grounded_back:
  "grounded u i \<Longrightarrow> u i = Some r \<Longrightarrow> er_supersedes r = Some p \<Longrightarrow> grounded u p"
  by (erule groundedE) auto

lemma grounded_no_cycle:
  "grounded u i \<Longrightarrow> (\<And>x y. R x y \<Longrightarrow> \<exists>r. u x = Some r \<and> er_supersedes r = Some y) \<Longrightarrow> \<not> R\<^sup>+\<^sup>+ i i"
proof (induction rule: grounded.induct)
  case (root i r)
  show ?case
  proof
    assume "R\<^sup>+\<^sup>+ i i"
    then obtain y where "R i y" by (metis tranclpD)
    then show False using root by fastforce
  qed
next
  case (step i r p q)
  show ?case
  proof
    assume "R\<^sup>+\<^sup>+ i i"
    then obtain y where y: "R i y" "R\<^sup>*\<^sup>* y i" by (metis tranclpD)
    then have "y = p" using step by fastforce
    then have "R\<^sup>+\<^sup>+ p p" using y by (metis rtranclp_into_tranclp1)
    then show False using step by blast
  qed
qed

lemma valid_iff_grounded:
  fixes rs
  defines "u \<equiv> unique_records rs"
  assumes "map_of u i = Some r"
  shows "i \<notin> set (fst (chain_check rs)) \<longleftrightarrow> grounded (map_of u) i"
proof -
  let ?p = "predecessors u" and ?one = "fst (check_predecessors u u (duplicate_ids rs))"
  let ?cyc = "cycle_ids ?p (map fst u) ?one"
  let ?out = "set (fst (close_loop ?p (?cyc @ ?one)))"
  have out: "set (fst (chain_check rs)) = ?out" by (simp add: chain_check_def Let_def u_def)
  have keys: "distinct (map fst u)" by (simp add: u_def unique_records_keys)
  have look: "map_of ?p x = Some y \<longleftrightarrow> (\<exists>r. map_of u x = Some r \<and> er_supersedes r = Some y)" for x y
    using predecessors_lookup [OF keys] by (auto simp: bind_eq_Some_conv)
  have mem: "(x, y) \<in> set ?p \<longleftrightarrow> map_of ?p x = Some y" for x y
    using keys by (auto simp: look predecessors_iff)
  have laws: "set ?one \<subseteq> ?out" "set ?cyc \<subseteq> ?out" using close_loop_grows [of "?cyc @ ?one" ?p] by auto
  have dups: "\<forall>i \<in> set (duplicate_ids rs). \<not> grounded (map_of u) i"
  proof
    fix d assume "d \<in> set (duplicate_ids rs)"
    then have "length (filter (\<lambda>x. er_id x = d) rs) \<noteq> 1" by (auto simp: duplicate_ids_def grouped_iff)
    then have "map_of u d = None" unfolding u_def by (metis One_nat_def length_Cons list.size(3) not_Some_eq unique_lookup)
    then show "\<not> grounded (map_of u) d" by (auto elim: groundedE)
  qed
  have "\<forall>(i, r) \<in> set u. map_of u i = Some r" using keys by auto
  then have one: "\<forall>i \<in> set ?one. \<not> grounded (map_of u) i"
    by (rule check_predecessors_sound [OF dups])
  have cyc: "\<forall>i \<in> set ?cyc. \<not> grounded (map_of u) i"
    using cycle_ids_laws(1) [of ?p "map fst u" ?one] grounded_no_cycle [where R = "links ?p" and u = "map_of u"] look by blast
  have sound: "\<forall>i \<in> ?out. \<not> grounded (map_of u) i"
  proof -
    have "\<forall>i \<in> set (?cyc @ ?one). \<not> grounded (map_of u) i" using cyc one by auto
    moreover have "\<forall>(x, y) \<in> set ?p. grounded (map_of u) x \<longrightarrow> grounded (map_of u) y"
      using grounded_back by (auto simp: mem look)
    ultimately show ?thesis using close_loop_preserves [of ?p "grounded (map_of u)"] by blast
  qed
  have closed: "y \<in> ?out \<Longrightarrow> map_of ?p x = Some y \<Longrightarrow> x \<in> ?out" for x y
    using close_loop_closed [of ?p "?cyc @ ?one"] mem by blast
  have esc: "escapes ?p (map fst u) (set ?one \<union> set ?cyc) i"
    using assms(2) by (intro cycle_ids_laws(2)) (force dest: map_of_SomeD)
  have "grounded (map_of u) x" if "escapes ?p (map fst u) (set ?one \<union> set ?cyc) x" "x \<notin> ?out" "map_of u x = Some r" for x r
    using that
  proof (induction arbitrary: r rule: escapes.induct)
    case (inside x)
    then show ?case using laws by auto
  next
    case (leaf x)
    show ?case
    proof (cases "er_supersedes r")
      case None
      then show ?thesis using leaf by (auto intro: grounded.root)
    next
      case (Some p)
      have "x \<notin> set ?one" using leaf laws by auto
      then obtain q where "map_of u p = Some q"
        using check_predecessors_complete [of x r u u "duplicate_ids rs" p] leaf Some by (auto dest: map_of_SomeD)
      then have "p \<in> set (map fst u)" by (force dest: map_of_SomeD)
      then show ?thesis using leaf Some look by auto
    qed
  next
    case (onward x p)
    then have p: "er_supersedes r = Some p" using look by auto
    have "x \<notin> set ?one" using onward laws by auto
    then obtain q where q: "map_of u p = Some q" "linkable r q"
      using check_predecessors_complete [of x r u u "duplicate_ids rs" p] onward p by (auto dest: map_of_SomeD)
    have "p \<notin> ?out" using onward closed by blast
    then show ?case using onward q p by (auto intro: grounded.step)
  qed
  then show ?thesis using sound esc assms(2) by (auto simp: out)
qed

section \<open>The records that stay\<close>

definition parsed_records :: "proof_schemas \<Rightarrow> js list \<Rightarrow> evidence_record list" where
  "parsed_records sch es = List.map_filter (sc_evidence sch) es"

definition kept :: "evidence_record list \<Rightarrow> (string \<times> evidence_record) list" where
  "kept rs = valid_records (unique_records rs) (fst (chain_check rs))"

text \<open>The specification of an active record, before convergence.\<close>

definition live :: "(string \<Rightarrow> evidence_record option) \<Rightarrow> evidence_record \<Rightarrow> bool" where
  "live u r \<longleftrightarrow> u (er_id r) = Some r \<and> grounded u (er_id r) \<and>
     \<not> (\<exists>q. u (er_id q) = Some q \<and> grounded u (er_id q) \<and> er_supersedes q = Some (er_id r))"

lemma kept_iff: "(i, r) \<in> set (kept rs) \<longleftrightarrow> map_of (unique_records rs) i = Some r \<and> grounded (map_of (unique_records rs)) i"
proof -
  have "(i, r) \<in> set (kept rs) \<longleftrightarrow> map_of (unique_records rs) i = Some r \<and> i \<notin> set (fst (chain_check rs))"
    using unique_records_keys [of rs] by (auto simp: kept_def valid_records_def)
  then show ?thesis using valid_iff_grounded by blast
qed

lemma kept_keys: "distinct (map fst (kept rs))" "sorted (map fst (kept rs))"
proof -
  have "distinct (map fst (filter (\<lambda>(i, _). i \<notin> set (fst (chain_check rs))) (unique_records rs)))"
    using unique_records_keys [of rs] by (rule distinct_map_filter)
  then show "distinct (map fst (kept rs))"
    by (simp add: kept_def valid_records_def distinct_map)
  show "sorted (map fst (kept rs))" by (simp add: kept_def valid_records_def)
qed

lemma kept_perm: "mset rs = mset rs' \<Longrightarrow> kept rs = kept rs'"
proof -
  assume "mset rs = mset rs'"
  then have "(i, r) \<in> set (kept rs) \<longleftrightarrow> (i, r) \<in> set (kept rs')" for i r
    by (simp add: kept_iff unique_perm [of rs rs'])
  then have same: "set (kept rs) = set (kept rs')" by auto
  have "inj_on fst (set (kept rs) \<union> set (kept rs'))"
    using kept_keys(1) [of rs] same by (simp add: distinct_map)
  then show ?thesis
    using kept_keys kept_keys [of rs'] same by (intro map_sorted_distinct_set_unique [where f = fst]) auto
qed

lemma superseded_iff:
  "ss_evidence ` set (supersessions_of v) = {p \<in> fst ` set v. \<exists>(i, r) \<in> set v. er_supersedes r = Some p}"
  by (auto simp: supersessions_of_def map_filter_member image_iff Bex_def split: option.splits if_splits) force+

lemma unsuperseded_iff: "r \<in> set (unsuperseded (kept rs)) \<longleftrightarrow> live (map_of (unique_records rs)) r"
proof -
  have "r \<in> set (unsuperseded (kept rs)) \<longleftrightarrow>
      (\<exists>i. (i, r) \<in> set (kept rs) \<and> \<not> (\<exists>(j, q) \<in> set (kept rs). er_supersedes q = Some i))"
    by (auto simp: unsuperseded_def superseded_iff image_iff)
  also have "\<dots> \<longleftrightarrow> live (map_of (unique_records rs)) r"
  proof -
    have key: "i = er_id q" if "(i, q) \<in> set (kept rs)" for i q
      using that unique_id [of rs i q] by (auto simp: kept_iff)
    have some: "(\<exists>(j, q) \<in> set (kept rs). er_supersedes q = Some i) \<longleftrightarrow>
        (\<exists>q. (er_id q, q) \<in> set (kept rs) \<and> er_supersedes q = Some i)" for i
      by (auto dest: key)
    have "(\<exists>i. (i, r) \<in> set (kept rs) \<and> P i) \<longleftrightarrow> (er_id r, r) \<in> set (kept rs) \<and> P (er_id r)" for P
      by (auto dest: key)
    then have "(\<exists>i. (i, r) \<in> set (kept rs) \<and> \<not> (\<exists>(j, q) \<in> set (kept rs). er_supersedes q = Some i)) \<longleftrightarrow>
        (er_id r, r) \<in> set (kept rs) \<and> \<not> (\<exists>q. (er_id q, q) \<in> set (kept rs) \<and> er_supersedes q = Some (er_id r))"
      by (simp only: some)
    then show ?thesis by (simp only: live_def kept_iff) blast
  qed
  finally show ?thesis .
qed

lemma unsuperseded_ids: "distinct (map er_id (unsuperseded (kept rs)))"
proof -
  have ids: "er_id r = i" if "(i, r) \<in> set (kept rs)" for i r using that unique_id by (auto simp: kept_iff)
  have "map er_id (unsuperseded (kept rs)) =
      map fst (filter (\<lambda>(i, _). i \<notin> ss_evidence ` set (supersessions_of (kept rs))) (kept rs))"
    using ids by (auto simp: unsuperseded_def)
  then show ?thesis using kept_keys(1) distinct_map_filter by metis
qed

section \<open>Scopes\<close>

lemma scopes_iff: "g \<in> set (scopes active) \<longleftrightarrow> (\<exists>k \<in> record_scope ` set active. g = filter (\<lambda>r. record_scope r = k) active)"
proof -
  have "g \<in> set (scopes active) \<longleftrightarrow> (\<exists>k. (k, g) \<in> set (grouped record_scope active))"
    by (force simp: scopes_def)
  then show ?thesis by (simp add: grouped_iff Bex_def)
qed

lemma distinct_pair: "length xs < 2 \<longleftrightarrow> card (set xs) \<le> Suc 0" if "distinct xs"
  using distinct_card [OF that] by auto

lemma few_statements:
  "length (scope_statements g) < 2 \<longleftrightarrow>
   (\<forall>a \<in> set g. \<forall>b \<in> set g. statementOf (er_evidence a) = statementOf (er_evidence b))"
proof -
  let ?xs = "map (\<lambda>r. statementOf (er_evidence r)) g"
  let ?ys = "dedup_from {} id ?xs"
  have "distinct ?ys" using dedup_from_distinct [where seen = "{}" and key = id and xs = ?xs] by simp
  moreover have "set ?ys = set ?xs" by (rule dedup_from_set) simp
  ultimately have "length (scope_statements g) < 2 \<longleftrightarrow> card (set ?xs) \<le> Suc 0"
    using distinct_pair [of ?ys] by (simp only: scope_statements_def length_sort)
  also have "\<dots> \<longleftrightarrow> (\<forall>x \<in> set ?xs. \<forall>y \<in> set ?xs. x = y)"
    by (rule card_le_Suc0_iff_eq) (rule List.finite_set)
  finally show ?thesis by simp
qed

lemma converged_member: "q \<in> set (converged_in g) \<longleftrightarrow> length (scope_statements g) < 2 \<and> q \<in> set (tl g)"
  by (simp add: converged_in_def)

lemma scope_subset: "g \<in> set (scopes active) \<Longrightarrow> set g \<subseteq> set active"
  by (auto simp: scopes_iff)

lemma tl_subset: "q \<in> set (tl g) \<Longrightarrow> q \<in> set g"
  by (cases g) auto

lemma canonical_iff:
  assumes "distinct (map er_id active)"
  shows "r \<in> set (canonical_active active) \<longleftrightarrow> r \<in> set active \<and>
    (\<forall>g \<in> set (scopes active). length (scope_statements g) < 2 \<longrightarrow> r \<notin> set (tl g))"
proof -
  let ?C = "set (concat (map converged_in (scopes active)))"
  have C: "q \<in> ?C \<longleftrightarrow> (\<exists>g \<in> set (scopes active). length (scope_statements g) < 2 \<and> q \<in> set (tl g))" for q
    by (auto simp: converged_member)
  have "?C \<subseteq> set active" using scope_subset tl_subset by (fastforce simp: converged_member)
  then have "er_id r \<in> er_id ` ?C \<longleftrightarrow> r \<in> ?C" if "r \<in> set active"
    using that assms by (auto simp: distinct_map inj_on_def)
  then show ?thesis using C by (auto simp: canonical_active_def)
qed
section \<open>Selection against its specification\<close>

lemma sel_parts:
  "sel_active (selectEvidence sch es cs) = canonical_active (unsuperseded (kept (parsed_records sch es)))"
  "sel_supersessions (selectEvidence sch es cs) = supersessions_of (kept (parsed_records sch es))"
  "sel_contradictions (selectEvidence sch es cs) =
     sort_key contradiction_key
       (List.map_filter active_contradiction (scopes (unsuperseded (kept (parsed_records sch es)))) @
        List.map_filter right_of (map (contradiction_candidate sch (kept (parsed_records sch es))) cs))"
  by (simp_all add: selectEvidence_def Let_def kept_def parsed_records_def)

definition selected :: "proof_schemas \<Rightarrow> js list \<Rightarrow> string \<Rightarrow> evidence_record option" where
  "selected sch es = map_of (unique_records (parsed_records sch es))"

definition agree :: "evidence_record \<Rightarrow> evidence_record \<Rightarrow> bool" where
  "agree a b \<longleftrightarrow> record_scope a = record_scope b \<and> statementOf (er_evidence a) = statementOf (er_evidence b)"

definition reported :: "selection \<Rightarrow> evidence_record \<Rightarrow> evidence_record \<Rightarrow> bool" where
  "reported S a b \<longleftrightarrow>
     (\<exists>c \<in> set (sel_contradictions S). {er_id a, er_id b} \<subseteq> set (ec_evidenceIds c) \<and>
        (\<exists>x. record_scope x = record_scope a \<and> ec_requirement c = ev_requirement (er_evidence x)))"

lemma distinct_active: "distinct (unsuperseded (kept rs))"
  using unsuperseded_ids [of rs] by (simp add: distinct_map)

lemma canonical_represents:
  assumes "r \<in> set (unsuperseded (kept rs))"
  obtains c where "c \<in> set (canonical_active (unsuperseded (kept rs)))" "c = r \<or> agree c r"
proof (cases "r \<in> set (canonical_active (unsuperseded (kept rs)))")
  case True
  then show thesis using that by blast
next
  case False
  let ?A = "unsuperseded (kept rs)"
  obtain g where g: "g \<in> set (scopes ?A)" "length (scope_statements g) < 2" "r \<in> set (tl g)"
    using False assms canonical_iff [OF unsuperseded_ids] by blast
  then have "g \<noteq> []" by auto
  then obtain c t where ct: "g = c # t" by (meson neq_Nil_conv)
  obtain k where k: "g = filter (\<lambda>r. record_scope r = k) ?A" using g(1) by (auto simp: scopes_iff)
  then have dg: "distinct g" using distinct_active by simp
  have gk: "record_scope x = k" if "x \<in> set g" for x using that unfolding k by simp
  have ck: "record_scope c = k" by (rule gk) (simp add: ct)
  have "c \<notin> set (tl h)" if h: "h \<in> set (scopes ?A)" for h
  proof
    assume c: "c \<in> set (tl h)"
    obtain k' where k': "h = filter (\<lambda>r. record_scope r = k') ?A" using h by (auto simp: scopes_iff)
    have "record_scope c = k'" using tl_subset [OF c] unfolding k' by simp
    then have "h = g" using k k' ck by simp
    then show False using c ct dg by simp
  qed
  moreover have "c \<in> set ?A" using scope_subset [OF g(1)] ct by auto
  ultimately have "c \<in> set (canonical_active ?A)" using canonical_iff [OF unsuperseded_ids] by blast
  moreover have "agree c r"
  proof -
    have in_g: "c \<in> set g" "r \<in> set g" using ct tl_subset [OF g(3)] by simp_all
    then show ?thesis using g(2) gk unfolding agree_def few_statements by blast
  qed
  ultimately show thesis using that by blast
qed

lemma disagreement_reported:
  assumes "a \<in> set (canonical_active (unsuperseded (kept rs)))" "b \<in> set (canonical_active (unsuperseded (kept rs)))"
    "a \<noteq> b" "record_scope a = record_scope b"
  shows "\<exists>g \<in> set (scopes (unsuperseded (kept rs))). \<exists>c. active_contradiction g = Some c \<and>
    {er_id a, er_id b} \<subseteq> set (ec_evidenceIds c) \<and>
    (\<exists>x \<in> set (unsuperseded (kept rs)). record_scope x = record_scope a \<and>
      ec_requirement c = ev_requirement (er_evidence x))"
proof -
  let ?A = "unsuperseded (kept rs)"
  let ?g = "filter (\<lambda>r. record_scope r = record_scope a) ?A"
  have mem: "a \<in> set ?A" "b \<in> set ?A" using assms(1,2) canonical_iff [OF unsuperseded_ids] by blast+
  then have g: "?g \<in> set (scopes ?A)" "a \<in> set ?g" "b \<in> set ?g" using assms(4) by (auto simp: scopes_iff)
  then have "?g \<noteq> []" by (auto simp only: empty_iff list.set)
  then obtain h t where ht: "?g = h # t" by (meson neq_Nil_conv)
  have "\<not> length (scope_statements ?g) < 2"
    using assms(1-3) g ht canonical_iff [OF unsuperseded_ids [of rs]] by (metis list.sel(3) set_ConsD)
  then have "active_contradiction ?g = Some
      \<lparr>ec_source = ActiveEvidence (scope_statements ?g),
       ec_requirement = ev_requirement (er_evidence h), ec_attempt = ev_attempt (er_evidence h),
       ec_subject = ev_subject (er_evidence h), ec_policyDigest = ev_policyDigest (er_evidence h),
       ec_evidenceIds = sort (map er_id ?g)\<rparr>"
    unfolding active_contradiction_def ht by simp
  moreover have "h \<in> set ?g" unfolding ht by simp
  then have "record_scope h = record_scope a" "h \<in> set ?A" by simp_all
  ultimately show ?thesis using g by force
qed

text \<open>
  C23: The passes of the selection together decide the specification: the active records are live, that
  is unique, on a finite chain of unique predecessors with the same scope and policy digest, and not
  superseded by such a record; every live record is active itself or represented by an active one
  that makes the same statement on the same scope; and two active records of one scope are reported
  as a contradiction that names both.
\<close>

theorem selection_meets_specification:
  "(\<forall>r \<in> set (sel_active (selectEvidence sch es cs)). live (selected sch es) r) \<and>
   (\<forall>r. live (selected sch es) r \<longrightarrow>
      (\<exists>c \<in> set (sel_active (selectEvidence sch es cs)). c = r \<or> agree c r)) \<and>
   (\<forall>a \<in> set (sel_active (selectEvidence sch es cs)). \<forall>b \<in> set (sel_active (selectEvidence sch es cs)).
      a \<noteq> b \<longrightarrow> record_scope a = record_scope b \<longrightarrow> reported (selectEvidence sch es cs) a b)"
proof (intro conjI ballI allI impI)
  fix r assume "r \<in> set (sel_active (selectEvidence sch es cs))"
  then have "r \<in> set (unsuperseded (kept (parsed_records sch es)))"
    by (simp add: sel_parts canonical_iff [OF unsuperseded_ids])
  then show "live (selected sch es) r" by (simp add: unsuperseded_iff selected_def)
next
  fix r assume "live (selected sch es) r"
  then have "r \<in> set (unsuperseded (kept (parsed_records sch es)))" by (simp add: unsuperseded_iff selected_def)
  then show "\<exists>c \<in> set (sel_active (selectEvidence sch es cs)). c = r \<or> agree c r"
    unfolding sel_parts by (rule canonical_represents) blast
next
  fix a b
  assume ab: "a \<in> set (sel_active (selectEvidence sch es cs))" "b \<in> set (sel_active (selectEvidence sch es cs))"
    "a \<noteq> b" "record_scope a = record_scope b"
  then obtain g c where "g \<in> set (scopes (unsuperseded (kept (parsed_records sch es))))"
    "active_contradiction g = Some c" "{er_id a, er_id b} \<subseteq> set (ec_evidenceIds c)"
    "\<exists>x \<in> set (unsuperseded (kept (parsed_records sch es))). record_scope x = record_scope a \<and>
      ec_requirement c = ev_requirement (er_evidence x)"
    using disagreement_reported [of a "parsed_records sch es" b] unfolding sel_parts by blast
  moreover from this have "c \<in> set (sel_contradictions (selectEvidence sch es cs))"
    by (auto simp: sel_parts map_filter_member)
  ultimately show "reported (selectEvidence sch es cs) a b" unfolding reported_def by blast
qed

text \<open>Records for the examples: their schema reads a name and looks it up.\<close>

definition named_record :: "string \<Rightarrow> gate_verdict \<Rightarrow> string option \<Rightarrow> evidence_record" where
  "named_record i v p = \<lparr>er_evidence = gate_record i v, er_supersedes = p\<rparr>"

definition table_schemas :: "evidence_record list \<Rightarrow> proof_schemas" where
  "table_schemas rs =
     \<lparr>sc_evidence = (\<lambda>j. case j of JStr i \<Rightarrow> find (\<lambda>r. er_id r = i) rs | _ \<Rightarrow> None),
      sc_contradiction = (\<lambda>_. None)\<rparr>"

definition disputed :: proof_schemas where
  "disputed = table_schemas
     [named_record ''a'' GatePass None, named_record ''b'' GateFail None, named_record ''c'' GatePass (Some ''b''),
      named_record ''x'' GatePass (Some ''y''), named_record ''y'' GatePass (Some ''x''), named_record ''f'' GateFail None]"

definition disputed_input :: "js list" where
  "disputed_input = map JStr [''f'', ''c'', ''x'', ''b'', ''a'', ''y'']"

lemma disputed_active:
  "map er_id (sel_active (selectEvidence disputed disputed_input [])) = [''a'', ''c'', ''f'']"
  by code_simp

lemma selection_meets_specification_witness:
  "\<exists>a \<in> set (sel_active (selectEvidence disputed disputed_input [])).
   \<exists>f \<in> set (sel_active (selectEvidence disputed disputed_input [])).
     live (selected disputed disputed_input) a \<and> reported (selectEvidence disputed disputed_input []) a f"
proof -
  let ?S = "selectEvidence disputed disputed_input []"
  have "er_id ` set (sel_active ?S) = {''a'', ''c'', ''f''}"
    using arg_cong [OF disputed_active, of set] by simp
  then have "''a'' \<in> er_id ` set (sel_active ?S)" "''f'' \<in> er_id ` set (sel_active ?S)" by blast+
  then obtain a f where af: "a \<in> set (sel_active ?S)" "er_id a = ''a''" "f \<in> set (sel_active ?S)" "er_id f = ''f''"
    by auto
  have "\<forall>r \<in> set (sel_active ?S). record_scope r = record_scope (named_record ''a'' GatePass None)"
    by code_simp
  then have "record_scope a = record_scope f" using af by simp
  moreover have "a \<noteq> f" using af by auto
  ultimately show ?thesis using af selection_meets_specification [of disputed disputed_input "[]"] by blast
qed

section \<open>Arrival order\<close>

lemma parsed_perm: "mset es = mset es' \<Longrightarrow> mset (parsed_records sch es) = mset (parsed_records sch es')"
  by (simp add: parsed_records_def List.map_filter_def mset_map mset_filter)

definition orphan_chain :: proof_schemas where
  "orphan_chain = table_schemas [named_record ''a'' GatePass (Some ''m''), named_record ''b'' GatePass (Some ''a'')]"

lemma orphan_chain_diagnostics:
  "map dg_code (sel_diagnostics (selectEvidence orphan_chain [JStr ''a'', JStr ''b''] [])) =
     [MISSING_PREDECESSOR, MISSING_PREDECESSOR]"
  "map dg_code (sel_diagnostics (selectEvidence orphan_chain [JStr ''b'', JStr ''a''] [])) =
     [INVALID_PREDECESSOR, MISSING_PREDECESSOR]"
  by code_simp+

text \<open>
  The order in which evidence arrives decides nothing about the active evidence, the supersessions
  and the contradictions. The diagnostics are not part of this: there are two records whose two orders
  give different ones.
\<close>

theorem selection_ignores_arrival_order:
  "(mset es = mset es' \<longrightarrow>
     sel_active (selectEvidence sch es cs) = sel_active (selectEvidence sch es' cs) \<and>
     sel_supersessions (selectEvidence sch es cs) = sel_supersessions (selectEvidence sch es' cs) \<and>
     sel_contradictions (selectEvidence sch es cs) = sel_contradictions (selectEvidence sch es' cs)) \<and>
   (\<exists>sch a b. sel_diagnostics (selectEvidence sch [a, b] []) \<noteq> sel_diagnostics (selectEvidence sch [b, a] []))"
proof
  show "mset es = mset es' \<longrightarrow>
     sel_active (selectEvidence sch es cs) = sel_active (selectEvidence sch es' cs) \<and>
     sel_supersessions (selectEvidence sch es cs) = sel_supersessions (selectEvidence sch es' cs) \<and>
     sel_contradictions (selectEvidence sch es cs) = sel_contradictions (selectEvidence sch es' cs)"
    using kept_perm [OF parsed_perm] by (metis sel_parts)
  show "\<exists>sch a b. sel_diagnostics (selectEvidence sch [a, b] []) \<noteq> sel_diagnostics (selectEvidence sch [b, a] [])"
  proof (intro exI notI)
    assume "sel_diagnostics (selectEvidence orphan_chain [JStr ''a'', JStr ''b''] []) =
      sel_diagnostics (selectEvidence orphan_chain [JStr ''b'', JStr ''a''] [])"
    then show False using orphan_chain_diagnostics by simp
  qed
qed

lemma selection_ignores_arrival_order_witness:
  "sel_active (selectEvidence disputed [JStr ''f'', JStr ''a''] []) =
   sel_active (selectEvidence disputed [JStr ''a'', JStr ''f''] [])"
  using selection_ignores_arrival_order [where es = "[JStr ''f'', JStr ''a'']" and es' = "[JStr ''a'', JStr ''f'']"]
  by simp

section \<open>Quorums over selected evidence\<close>

text \<open>The number of different sources that a requirement counts, and the requirement of its evidence.\<close>

definition quorum :: "requirement \<Rightarrow> (string \<times> nat) option" where
  "quorum r =
     (case rq_kind r of
        GateEvidenceRequirement _ \<Rightarrow> None
      | ApprovalRequirement _ n \<Rightarrow> Some (rq_id r, n)
      | CorroborationRequirement s n \<Rightarrow> Some (s, n))"

lemma two_of_card: "2 \<le> card P \<Longrightarrow> \<exists>p \<in> P. \<exists>q \<in> P. p \<noteq> q"
proof (rule ccontr)
  assume two: "2 \<le> card P" and one: "\<not> (\<exists>p \<in> P. \<exists>q \<in> P. p \<noteq> q)"
  have "finite P" using two by (intro card_ge_0_finite) simp
  then have "card P \<le> Suc 0" using one by (auto simp: card_le_Suc0_iff_eq)
  then show False using two by simp
qed

lemma quorum_needs_two:
  assumes "discharged inp r" "quorum r = Some (s, n)" "2 \<le> n"
  shows "\<exists>e e'. e \<noteq> e' \<and> counts_for inp r s e \<and> counts_for inp r s e' \<and> s \<in> set (governingIds r) \<and>
    s \<notin> set (pi_contradicted inp)"
proof (cases "rq_kind r")
  case (ApprovalRequirement c m)
  then have m: "m = n" "s = rq_id r" "s \<in> set (governingIds r)" "s \<notin> set (pi_contradicted inp)"
    using assms by (auto simp: quorum_def governingIds_def discharged_def)
  obtain P where "2 \<le> card P" and all: "\<forall>p \<in> P. \<exists>e. counts_for inp r s e \<and> approver e = p"
    using assms(1,3) ApprovalRequirement m unfolding discharged_def by force
  then obtain p q where pq: "p \<in> P" "q \<in> P" "p \<noteq> q" using two_of_card by blast
  obtain e where e: "counts_for inp r s e" "approver e = p" using all pq(1) by blast
  obtain e' where e': "counts_for inp r s e'" "approver e' = q" using all pq(2) by blast
  have "e \<noteq> e'" using e e' pq(3) by auto
  then show ?thesis using e(1) e'(1) m(3,4) by blast
next
  case (CorroborationRequirement q m)
  then have m: "m = n" "s = q" "s \<in> set (governingIds r)" "s \<notin> set (pi_contradicted inp)"
    using assms by (auto simp: quorum_def governingIds_def discharged_def)
  obtain K where "2 \<le> card K" and all: "\<forall>k \<in> K. \<exists>e. counts_for inp r s e \<and> independenceKey e = k"
    using assms(1,3) CorroborationRequirement m unfolding discharged_def by force
  then obtain p q where pq: "p \<in> K" "q \<in> K" "p \<noteq> q" using two_of_card by blast
  obtain e where e: "counts_for inp r s e" "independenceKey e = p" using all pq(1) by blast
  obtain e' where e': "counts_for inp r s e'" "independenceKey e' = q" using all pq(2) by blast
  have "e \<noteq> e'" using e e' pq(3) by auto
  then show ?thesis using e(1) e'(1) m(3,4) by blast
qed (use assms in \<open>simp add: quorum_def\<close>)

lemma bar_split: "CHR ''|'' \<notin> set a \<Longrightarrow> CHR ''|'' \<notin> set b \<Longrightarrow> a @ CHR ''|'' # x = b @ CHR ''|'' # y \<Longrightarrow> a = b"
proof (induction a arbitrary: b)
  case Nil
  then show ?case by (cases b) auto
next
  case (Cons c a)
  then show ?case by (cases b) auto
qed

lemma scope_requirement:
  assumes "scopeKey e = scopeKey e'" "CHR ''|'' \<notin> set (ev_requirement e)" "CHR ''|'' \<notin> set (ev_requirement e')"
  shows "ev_requirement e = ev_requirement e'"
  using assms bar_split by (auto simp: scopeKey_def)

text \<open>An evaluation that reads the evidence and the contradictions of a selection.\<close>

definition reads_selection :: "policy_input \<Rightarrow> selection \<Rightarrow> bool" where
  "reads_selection inp S \<longleftrightarrow> pi_active inp = map er_evidence (sel_active S) \<and>
     pi_contradicted inp = map ec_requirement (sel_contradictions S)"

lemma active_parsed:
  assumes "a \<in> set (unsuperseded (kept (parsed_records sch es)))"
  shows "\<exists>j \<in> set es. sc_evidence sch j = Some a"
proof -
  have "map_of (unique_records (parsed_records sch es)) (er_id a) = Some a"
    using assms by (simp add: unsuperseded_iff live_def)
  then have "a \<in> set (parsed_records sch es)" using unique_id by blast
  then show ?thesis by (simp add: parsed_records_def map_filter_member)
qed

lemma quorum_contradicts:
  assumes reads: "reads_selection inp (selectEvidence sch es cs)"
    and schema: "\<forall>j \<in> set es. \<forall>x. sc_evidence sch j = Some x \<longrightarrow>
      CHR ''|'' \<notin> set (ev_requirement (er_evidence x)) \<and> digestKey (ev_policyDigest (er_evidence x)) = d"
    and two: "e \<noteq> e'" "counts_for inp r s e" "counts_for inp r s e'"
  shows "s \<in> set (pi_contradicted inp)"
proof -
  let ?rs = "parsed_records sch es"
  obtain a b where ab: "a \<in> set (canonical_active (unsuperseded (kept ?rs)))" "er_evidence a = e"
    "b \<in> set (canonical_active (unsuperseded (kept ?rs)))" "er_evidence b = e'"
    using reads two(2,3) by (auto simp: reads_selection_def sel_parts counts_for_def)
  have parsed: "CHR ''|'' \<notin> set (ev_requirement (er_evidence x)) \<and> digestKey (ev_policyDigest (er_evidence x)) = d"
    if "x \<in> set (unsuperseded (kept ?rs))" for x
    using active_parsed [OF that] schema by blast
  have live: "a \<in> set (unsuperseded (kept ?rs))" "b \<in> set (unsuperseded (kept ?rs))"
    using ab by (simp_all add: canonical_iff [OF unsuperseded_ids])
  have "record_scope a = record_scope b"
    using two(2,3) ab parsed [OF live(1)] parsed [OF live(2)]
    by (simp add: record_scope_def scopeKey_def counts_for_def wellFormed_def)
  moreover have "a \<noteq> b" using ab two(1) by auto
  ultimately obtain g c x where c: "g \<in> set (scopes (unsuperseded (kept ?rs)))" "active_contradiction g = Some c"
    "x \<in> set (unsuperseded (kept ?rs))" "record_scope x = record_scope a" "ec_requirement c = ev_requirement (er_evidence x)"
    using disagreement_reported [OF ab(1,3)] by blast
  have "ec_requirement c = s"
    using c scope_requirement [of "er_evidence x" e] parsed [OF c(3)] parsed [OF live(1)] ab two(2)
    by (simp add: record_scope_def counts_for_def)
  moreover have "c \<in> set (sel_contradictions (selectEvidence sch es cs))"
    using c(1,2) by (auto simp: sel_parts map_filter_member)
  ultimately show ?thesis using reads by (auto simp: reads_selection_def)
qed

text \<open>
  C24: Over selected evidence of one policy digest no quorum is ever met: records that agree converge to
  one, and records that disagree are a contradiction. So a requirement that asks for two approvers or
  for two independent sources is allowed by a waiver only, however much evidence there is. (Requirement
  identifiers have no bar, as their schema says.)
\<close>

theorem quorum_needs_waiver:
  assumes "reads_selection inp (selectEvidence sch es cs)"
    "\<forall>j \<in> set es. \<forall>x. sc_evidence sch j = Some x \<longrightarrow>
      CHR ''|'' \<notin> set (ev_requirement (er_evidence x)) \<and> digestKey (ev_policyDigest (er_evidence x)) = d"
    "r \<in> set (pi_requirements inp)" "quorum r = Some (s, n)" "2 \<le> n"
    "pe_verdict (evaluatePolicy inp) = VAllow"
  shows "\<exists>w \<in> set (pi_waivers inp). in_force (options_of inp) (target_of r) w"
proof (cases "evaluateRequirement r (pi_active inp) (pi_contradicted inp) (pi_context inp)")
  case (Satisfied ids)
  then obtain e e' where "e \<noteq> e'" "counts_for inp r s e" "counts_for inp r s e'" "s \<notin> set (pi_contradicted inp)"
    using quorum_needs_two [OF requirement_satisfied assms(4,5)] by blast
  then show ?thesis using quorum_contradicts [OF assms(1,2)] by blast
next
  case (Denied w ids)
  then obtain v where "selectApplicableWaiver (pi_waivers inp) (target_of r) (options_of inp) = Some v"
    using assms(3,6) by (auto simp: allow_iff evaluate_one_status)
  then show ?thesis using select_Some by blast
next
  case (Unknown c ids)
  then show ?thesis using assms(3,6) by (auto simp: allow_iff evaluate_one_status)
qed

definition approval_record :: "string \<Rightarrow> evidence_record" where
  "approval_record p =
     \<lparr>er_evidence = (gate_record p GatePass)
        \<lparr>ev_kind := ApprovalEvidence Approved \<lparr>pr_kind = Operator, pr_id = p, pr_role = ''lead''\<rparr>\<rparr>,
      er_supersedes = None\<rparr>"

definition two_approvers :: proof_schemas where
  "two_approvers = table_schemas [approval_record ''ann'', approval_record ''bob'']"

definition approval_input :: "waiver list \<Rightarrow> policy_input" where
  "approval_input ws =
     (let S = selectEvidence two_approvers [JStr ''ann'', JStr ''bob''] [] in
      (some_input (map er_evidence (sel_active S)) ws)
        \<lparr>pi_requirements := [gate_requirement\<lparr>rq_kind := ApprovalRequirement ''review'' 2\<rparr>],
         pi_contradicted := map ec_requirement (sel_contradictions S),
         pi_context := (pi_context (some_input [] []))\<lparr>ex_authority := owner_authority
           \<lparr>authorizesApproval := (\<lambda>_. True)\<rparr>\<rparr>\<rparr>)"

lemma two_approvers_verdicts:
  "pe_verdict (evaluatePolicy (approval_input [])) = VDeny"
  "pe_verdict (evaluatePolicy (approval_input [issued_waiver])) = VAllow"
  "pe_verdict (evaluatePolicy ((approval_input [])\<lparr>pi_active :=
     map er_evidence [approval_record ''ann'', approval_record ''bob'']\<rparr>)) = VAllow"
  by code_simp+

lemma quorum_needs_waiver_witness:
  "\<exists>w \<in> set [issued_waiver]. in_force (options_of (approval_input [issued_waiver]))
     (target_of (gate_requirement\<lparr>rq_kind := ApprovalRequirement ''review'' 2\<rparr>)) w"
proof -
  let ?inp = "approval_input [issued_waiver]" and ?r = "gate_requirement\<lparr>rq_kind := ApprovalRequirement ''review'' 2\<rparr>"
    and ?es = "[JStr ''ann'', JStr ''bob'']"
  have reads: "reads_selection ?inp (selectEvidence two_approvers ?es [])"
    by (simp add: reads_selection_def approval_input_def Let_def some_input_def)
  have parse: "sc_evidence two_approvers (JStr ''ann'') = Some (approval_record ''ann'')"
    "sc_evidence two_approvers (JStr ''bob'') = Some (approval_record ''bob'')"
    by (simp_all add: two_approvers_def table_schemas_def er_id_def approval_record_def gate_record_def)
  have schema: "\<forall>j \<in> set ?es. \<forall>x. sc_evidence two_approvers j = Some x \<longrightarrow>
      CHR ''|'' \<notin> set (ev_requirement (er_evidence x)) \<and>
      digestKey (ev_policyDigest (er_evidence x)) = digestKey (su_digest some_subject)"
    using parse by (simp add: approval_record_def gate_record_def)
  have "?r \<in> set (pi_requirements ?inp)" by (simp add: approval_input_def Let_def)
  moreover have "quorum ?r = Some (''req-gate'', 2)" by (simp add: quorum_def gate_requirement_def)
  ultimately have "\<exists>w \<in> set (pi_waivers ?inp). in_force (options_of ?inp) (target_of ?r) w"
    using quorum_needs_waiver [OF reads schema _ _ _ two_approvers_verdicts(2)] by simp
  then show ?thesis by (simp add: approval_input_def Let_def some_input_def)
qed

end
