(* ===== verification/Decision_Records.thy ===== *)
theory Decision_Records
  imports Requirement_Freeze Policy_Evaluation
begin

text \<open>
  The decision records of admission (\<open>src/workflow/admission/types.ts\<close>) and the payloads of the events
  that carry resolutions and decisions (\<open>src/events/schemas.ts\<close>), with their JSON values.
\<close>

section \<open>Remediations\<close>

datatype remediation =
    RunGate string string
  | CollectEvidence string evidence_subject
  | ClassifyRisk string
  | RequestApproval string
  | RequestWaiver "string list" string
  | RetryTransition string

definition str_list :: "string list \<Rightarrow> js" where
  "str_list xs = JArr (map JStr xs)"

definition remediation_js :: "remediation \<Rightarrow> js" where
  "remediation_js r =
     (case r of
        RunGate q g \<Rightarrow> JObj [(''action'', JStr ''run_gate''), (''requirementId'', JStr q), (''gateId'', JStr g)]
      | CollectEvidence q s \<Rightarrow>
          JObj [(''action'', JStr ''collect_evidence''), (''requirementId'', JStr q), (''subject'', subjectIdentity s)]
      | ClassifyRisk a \<Rightarrow> JObj [(''action'', JStr ''classify_risk''), (''phaseAttemptId'', JStr a)]
      | RequestApproval q \<Rightarrow> JObj [(''action'', JStr ''request_approval''), (''requirementId'', JStr q)]
      | RequestWaiver qs a \<Rightarrow>
          JObj [(''action'', JStr ''request_waiver''), (''requirementIds'', str_list qs), (''phaseAttemptId'', JStr a)]
      | RetryTransition a \<Rightarrow> JObj [(''action'', JStr ''retry_transition''), (''phaseAttemptId'', JStr a)])"

section \<open>Decisions\<close>

datatype unsatisfied_reason =
    UMissing
  | UFailed
  | UStale
  | UMalformed
  | UContradictory
  | UWaiverExpired
  | UUnauthorized

definition unsatisfied_reason_str :: "unsatisfied_reason \<Rightarrow> string" where
  "unsatisfied_reason_str r =
     (case r of UMissing \<Rightarrow> ''missing'' | UFailed \<Rightarrow> ''failed'' | UStale \<Rightarrow> ''stale'' | UMalformed \<Rightarrow> ''malformed''
              | UContradictory \<Rightarrow> ''contradictory'' | UWaiverExpired \<Rightarrow> ''waiver-expired''
              | UUnauthorized \<Rightarrow> ''unauthorized'')"

definition unsatisfied_of :: "deny_reason \<Rightarrow> unsatisfied_reason" where
  "unsatisfied_of r =
     (case r of DMissing \<Rightarrow> UMissing | DFailed \<Rightarrow> UFailed | DStale \<Rightarrow> UStale | DMalformed \<Rightarrow> UMalformed
              | DContradictory \<Rightarrow> UContradictory | DUnauthorized \<Rightarrow> UUnauthorized)"

definition indeterminate_code_str :: "indeterminate_code \<Rightarrow> string" where
  "indeterminate_code_str c =
     (case c of PolicyUnavailable \<Rightarrow> ''POLICY_UNAVAILABLE'' | RequirementUnresolved \<Rightarrow> ''REQUIREMENT_UNRESOLVED''
              | EvidenceMalformed \<Rightarrow> ''EVIDENCE_MALFORMED'' | EvidenceUnsupported \<Rightarrow> ''EVIDENCE_UNSUPPORTED''
              | DigestMismatch \<Rightarrow> ''DIGEST_MISMATCH'' | EvaluatorFailed \<Rightarrow> ''EVALUATOR_FAILED'')"

datatype decision_outcome =
    AllowOutcome "string list" "string list"
  | DenyOutcome "string list" "(string \<times> unsatisfied_reason) list" "remediation list"
  | IndeterminateOutcome "string list" "(indeterminate_code \<times> string) list" "remediation list"

record decision_record =
  dr_id :: string
  dr_operation :: string
  dr_attempt :: string
  dr_policyId :: string
  dr_policyVersion :: string
  dr_policyDigest :: content_digest
  dr_setDigest :: content_digest
  dr_inputDigest :: content_digest
  dr_evidenceIds :: "string list"
  dr_waiverIds :: "string list"
  dr_decidedAt :: string
  dr_outcome :: decision_outcome

definition outcome_fields :: "decision_outcome \<Rightarrow> fields" where
  "outcome_fields oc =
     (case oc of
        AllowOutcome sat waived \<Rightarrow>
          [(''outcome'', JStr ''allow''), (''satisfiedRequirementIds'', str_list sat),
           (''waivedRequirementIds'', str_list waived)]
      | DenyOutcome sat un rem \<Rightarrow>
          [(''outcome'', JStr ''deny''), (''satisfiedRequirementIds'', str_list sat),
           (''unsatisfiedRequirements'', JArr (map (\<lambda>(q, r).
              JObj [(''requirementId'', JStr q), (''reason'', JStr (unsatisfied_reason_str r))]) un)),
           (''remediation'', JArr (map remediation_js rem))]
      | IndeterminateOutcome qs errs rem \<Rightarrow>
          [(''outcome'', JStr ''indeterminate''), (''unresolvedRequirementIds'', str_list qs),
           (''errors'', JArr (map (\<lambda>(c, m).
              JObj [(''code'', JStr (indeterminate_code_str c)), (''message'', JStr m)]) errs)),
           (''remediation'', JArr (map remediation_js rem))])"

definition decision_js :: "decision_record \<Rightarrow> js" where
  "decision_js d =
     JObj ([(''contractVersion'', JStr ''1.0''), (''decisionId'', JStr (dr_id d)),
            (''operationId'', JStr (dr_operation d)), (''phaseAttemptId'', JStr (dr_attempt d)),
            (''policyId'', JStr (dr_policyId d)), (''policyVersion'', JStr (dr_policyVersion d)),
            (''policyDigest'', digest_js (dr_policyDigest d)),
            (''requirementSetDigest'', digest_js (dr_setDigest d)),
            (''inputDigest'', digest_js (dr_inputDigest d)), (''evidenceIds'', str_list (dr_evidenceIds d)),
            (''waiverIds'', str_list (dr_waiverIds d)), (''decidedAt'', JStr (dr_decidedAt d))] @
           outcome_fields (dr_outcome d))"

section \<open>Resolutions\<close>

text \<open>The fields of a resolution event that a fold reads.\<close>

record resolution_record =
  ar_policyId :: string
  ar_policyVersion :: string
  ar_policyDigest :: content_digest
  ar_setDigest :: content_digest
  ar_inputDigest :: content_digest
  ar_requirement :: requirement

text \<open>\<open>StableIdValueSchema\<close>: one to 256 letters, digits, dots, underscores, colons or hyphens.\<close>

definition alnum :: "char \<Rightarrow> bool" where
  "alnum c \<longleftrightarrow> c \<in> set ''ABCDEFGHIJKLMNOPQRSTUVWXYZabcdefghijklmnopqrstuvwxyz0123456789''"

definition stable_id :: "string \<Rightarrow> bool" where
  "stable_id s \<longleftrightarrow> length s \<le> 256 \<and>
     (case s of [] \<Rightarrow> False | c # cs \<Rightarrow> alnum c \<and> list_all (\<lambda>c. alnum c \<or> c \<in> set ''._:-'') cs)"

definition parse_id :: "js \<Rightarrow> string option" where
  "parse_id v = (case v of JStr s \<Rightarrow> if stable_id s then Some s else None | _ \<Rightarrow> None)"

end
