(* ===== verification/Phase_Attempt.thy ===== *)
theory Phase_Attempt
  imports Decision_Records Evidence_Selection
begin

text \<open>
  The fold of the admission facts of a stream into the state of each phase attempt
  (\<open>src/workflow/admission/phase-attempt-state.ts\<close>). The schemas of the three payloads are the fields of a
  record. A \<open>Map\<close> is an association list in insertion order, so the order lists that the code keeps
  beside its maps are the keys of these lists.
\<close>

section \<open>Inputs and diagnostics\<close>

record fold_schemas =
  fs_resolution :: "js \<Rightarrow> resolution_record option"
  fs_evidence :: "js \<Rightarrow> evidence_record option"
  fs_decision :: "js \<Rightarrow> decision_record option"

record fold_input =
  fi_requirementEvents :: "js list"
  fi_evidenceEvents :: "js list"
  fi_decisionEvents :: "js list"

definition probe :: "string \<Rightarrow> string \<Rightarrow> js \<Rightarrow> string option" where
  "probe outer inner v = parse_id (opt_get (opt_get v outer) inner)"

datatype fold_code =
    MALFORMED_REQUIREMENT_RESOLUTION
  | MALFORMED_EVIDENCE_RECORD
  | MALFORMED_TRANSITION_DECISION
  | CONTRADICTORY_REQUIREMENT_RESOLUTION
  | INCONSISTENT_REQUIREMENT_SET_PROVENANCE
  | EVIDENCE_OUTSIDE_FROZEN_REQUIREMENT_SET
  | DECISION_REQUIREMENT_SET_MISMATCH

record fold_diagnostic =
  fd_code :: fold_code
  fd_attempt :: "string option"
  fd_requirement :: "string option"
  fd_evidence :: "string option"
  fd_decision :: "string option"

text \<open>The message of a diagnostic, which its code fixes but for one case, is left out.\<close>

definition no_scope :: "fold_code \<Rightarrow> string option \<Rightarrow> fold_diagnostic" where
  "no_scope c a =
     \<lparr>fd_code = c, fd_attempt = a, fd_requirement = None, fd_evidence = None, fd_decision = None\<rparr>"

fun stableSerialize :: "js \<Rightarrow> string" where
  "stableSerialize JUndef = ''null''"
| "stableSerialize (JArr xs) = ''['' @ join_with '','' (map stableSerialize xs) @ '']''"
| "stableSerialize (JObj fs) =
     ''{'' @ join_with '',''
       (map (\<lambda>(k, t). json_quote k @ '':'' @ t)
         (sort_key fst (map (\<lambda>(k, v). (k, stableSerialize v)) (filter (\<lambda>(k, v). v \<noteq> JUndef) fs)))) @ ''}''"
| "stableSerialize v = json_text v"

section \<open>Builders\<close>

record generation =
  gn_setDigest :: content_digest
  gn_policyId :: string
  gn_policyVersion :: string
  gn_policyDigest :: content_digest
  gn_inputDigest :: content_digest
  gn_requirements :: "requirement list"
  gn_serialized :: "(string \<times> string) list"

record builder =
  bd_attempt :: string
  bd_generations :: "(string \<times> generation) list"
  bd_active :: "string option"
  bd_evidence :: "evidence list"
  bd_decisions :: "decision_record list"
  bd_contested :: bool

record fold_state =
  fo_builders :: "(string \<times> builder) list"
  fo_diagnostics :: "fold_diagnostic list"

definition new_builder :: "string \<Rightarrow> builder" where
  "new_builder a =
     \<lparr>bd_attempt = a, bd_generations = [], bd_active = None, bd_evidence = [], bd_decisions = [],
      bd_contested = False\<rparr>"

definition builderFor :: "fold_state \<Rightarrow> string \<Rightarrow> builder" where
  "builderFor st a = (case map_of (fo_builders st) a of Some b \<Rightarrow> b | None \<Rightarrow> new_builder a)"

definition put_builder :: "builder \<Rightarrow> fold_state \<Rightarrow> fold_state" where
  "put_builder b st = st\<lparr>fo_builders := AList.update (bd_attempt b) b (fo_builders st)\<rparr>"

definition contest :: "string option \<Rightarrow> fold_state \<Rightarrow> fold_state" where
  "contest a st =
     (case a of None \<Rightarrow> st | Some i \<Rightarrow> put_builder ((builderFor st i)\<lparr>bd_contested := True\<rparr>) st)"

definition diagnose :: "fold_diagnostic \<Rightarrow> fold_state \<Rightarrow> fold_state" where
  "diagnose d st = st\<lparr>fo_diagnostics := fo_diagnostics st @ [d]\<rparr>"

definition sameResolutionProvenance :: "generation \<Rightarrow> resolution_record \<Rightarrow> bool" where
  "sameResolutionProvenance g r \<longleftrightarrow>
     gn_policyId g = ar_policyId r \<and> gn_policyVersion g = ar_policyVersion r \<and>
     digestKey (gn_policyDigest g) = digestKey (ar_policyDigest r) \<and>
     digestKey (gn_inputDigest g) = digestKey (ar_inputDigest r)"

definition new_generation :: "resolution_record \<Rightarrow> generation" where
  "new_generation r =
     \<lparr>gn_setDigest = ar_setDigest r, gn_policyId = ar_policyId r, gn_policyVersion = ar_policyVersion r,
      gn_policyDigest = ar_policyDigest r, gn_inputDigest = ar_inputDigest r, gn_requirements = [],
      gn_serialized = []\<rparr>"

definition serialized :: "requirement \<Rightarrow> string" where
  "serialized q = stableSerialize (requirement_js q)"

section \<open>The three passes\<close>

text \<open>A resolution joins its generation; what contradicts it is diagnosed.\<close>

definition join_generation :: "generation \<Rightarrow> requirement \<Rightarrow> generation" where
  "join_generation g q =
     (if map_of (gn_serialized g) (rq_id q) = None
      then g\<lparr>gn_requirements := gn_requirements g @ [q],
             gn_serialized := AList.update (rq_id q) (serialized q) (gn_serialized g)\<rparr>
      else g)"

definition resolution_issues :: "generation option \<Rightarrow> resolution_record \<Rightarrow> fold_code list" where
  "resolution_issues g r =
     (case g of
        None \<Rightarrow> []
      | Some g \<Rightarrow>
          (if sameResolutionProvenance g r then [] else [INCONSISTENT_REQUIREMENT_SET_PROVENANCE]) @
          (if map_of (gn_serialized g) (rq_id (ar_requirement r)) \<in> {None, Some (serialized (ar_requirement r))}
           then [] else [CONTRADICTORY_REQUIREMENT_RESOLUTION]))"

definition resolve_into :: "resolution_record \<Rightarrow> builder \<Rightarrow> builder" where
  "resolve_into r b =
     (let key = digestKey (ar_setDigest r);
          found = map_of (bd_generations b) key;
          g = (case found of None \<Rightarrow> new_generation r | Some g \<Rightarrow> g)
      in b\<lparr>bd_generations := AList.update key (join_generation g (ar_requirement r)) (bd_generations b),
           bd_active := Some key,
           bd_contested := bd_contested b \<or> resolution_issues found r \<noteq> []\<rparr>)"

definition resolution_step :: "fold_schemas \<Rightarrow> js \<Rightarrow> fold_state \<Rightarrow> fold_state" where
  "resolution_step sch candidate st =
     (case fs_resolution sch candidate of
        None \<Rightarrow>
          contest (probe ''requirement'' ''phaseAttemptId'' candidate)
            (diagnose ((no_scope MALFORMED_REQUIREMENT_RESOLUTION (probe ''requirement'' ''phaseAttemptId'' candidate))
              \<lparr>fd_requirement := probe ''requirement'' ''requirementId'' candidate\<rparr>) st)
      | Some r \<Rightarrow>
          (let b = builderFor st (rq_attempt (ar_requirement r));
               issues = resolution_issues (map_of (bd_generations b) (digestKey (ar_setDigest r))) r
           in fold (\<lambda>c. diagnose ((no_scope c (Some (bd_attempt b)))
                     \<lparr>fd_requirement := Some (rq_id (ar_requirement r))\<rparr>)) issues
                (put_builder (resolve_into r b) st)))"

definition evidence_step :: "fold_schemas \<Rightarrow> js \<Rightarrow> fold_state \<Rightarrow> fold_state" where
  "evidence_step sch candidate st =
     (case fs_evidence sch candidate of
        None \<Rightarrow>
          contest (probe ''evidence'' ''phaseAttemptId'' candidate)
            (diagnose ((no_scope MALFORMED_EVIDENCE_RECORD (probe ''evidence'' ''phaseAttemptId'' candidate))
              \<lparr>fd_evidence := probe ''evidence'' ''evidenceId'' candidate\<rparr>) st)
      | Some r \<Rightarrow>
          (let b = builderFor st (ev_attempt (er_evidence r))
           in put_builder (b\<lparr>bd_evidence := bd_evidence b @ [er_evidence r]\<rparr>) st))"

definition decision_step :: "fold_schemas \<Rightarrow> js \<Rightarrow> fold_state \<Rightarrow> fold_state" where
  "decision_step sch candidate st =
     (case fs_decision sch candidate of
        None \<Rightarrow>
          contest (probe ''decision'' ''phaseAttemptId'' candidate)
            (diagnose ((no_scope MALFORMED_TRANSITION_DECISION (probe ''decision'' ''phaseAttemptId'' candidate))
              \<lparr>fd_decision := probe ''decision'' ''decisionId'' candidate\<rparr>) st)
      | Some r \<Rightarrow>
          (let b = builderFor st (dr_attempt r)
           in put_builder (b\<lparr>bd_decisions := bd_decisions b @ [r]\<rparr>) st))"

definition build :: "fold_schemas \<Rightarrow> fold_input \<Rightarrow> fold_state" where
  "build sch inp =
     fold (decision_step sch) (fi_decisionEvents inp)
       (fold (evidence_step sch) (fi_evidenceEvents inp)
         (fold (resolution_step sch) (fi_requirementEvents inp) \<lparr>fo_builders = [], fo_diagnostics = []\<rparr>))"

section \<open>Binding\<close>

record frozen_set =
  fz_setDigest :: content_digest
  fz_policyId :: string
  fz_policyVersion :: string
  fz_policyDigest :: content_digest
  fz_inputDigest :: content_digest
  fz_requirements :: "requirement list"

definition fz_requirementIds :: "frozen_set \<Rightarrow> string list" where
  "fz_requirementIds f = map rq_id (fz_requirements f)"

definition freezeGeneration :: "generation \<Rightarrow> frozen_set" where
  "freezeGeneration g =
     \<lparr>fz_setDigest = gn_setDigest g, fz_policyId = gn_policyId g, fz_policyVersion = gn_policyVersion g,
      fz_policyDigest = gn_policyDigest g, fz_inputDigest = gn_inputDigest g,
      fz_requirements = gn_requirements g\<rparr>"

datatype integrity = Intact | Contested

record attempt_state =
  at_id :: string
  at_history :: "frozen_set list"
  at_frozen :: "frozen_set option"
  at_evidence :: "evidence list"
  at_unattributed :: "evidence list"
  at_decisionHistory :: "decision_record list"
  at_decision :: "decision_record option"
  at_integrity :: integrity

record attempt_fold =
  pf_attempts :: "attempt_state list"
  pf_diagnostics :: "fold_diagnostic list"
  pf_integrity :: integrity

definition frozen_of :: "builder \<Rightarrow> frozen_set option" where
  "frozen_of b = map_option freezeGeneration (Option.bind (bd_active b) (map_of (bd_generations b)))"

definition frozen_ids :: "builder \<Rightarrow> string set" where
  "frozen_ids b = (case frozen_of b of None \<Rightarrow> {} | Some f \<Rightarrow> set (fz_requirementIds f))"

definition decision_matches :: "frozen_set option \<Rightarrow> decision_record \<Rightarrow> bool" where
  "decision_matches f d =
     (case f of None \<Rightarrow> False | Some z \<Rightarrow> digestKey (dr_setDigest d) = digestKey (fz_setDigest z))"

definition strays :: "builder \<Rightarrow> evidence list" where
  "strays b = filter (\<lambda>e. ev_requirement e \<notin> frozen_ids b) (bd_evidence b)"

definition mismatches :: "builder \<Rightarrow> decision_record list" where
  "mismatches b = filter (\<lambda>d. \<not> decision_matches (frozen_of b) d) (bd_decisions b)"

definition bind_diagnostics :: "builder \<Rightarrow> fold_diagnostic list" where
  "bind_diagnostics b =
     map (\<lambda>e. (no_scope EVIDENCE_OUTSIDE_FROZEN_REQUIREMENT_SET (Some (bd_attempt b)))
       \<lparr>fd_requirement := Some (ev_requirement e), fd_evidence := Some (ev_id e)\<rparr>) (strays b) @
     map (\<lambda>d. (no_scope DECISION_REQUIREMENT_SET_MISMATCH (Some (bd_attempt b)))
       \<lparr>fd_decision := Some (dr_id d)\<rparr>) (mismatches b)"

definition attempt_of :: "builder \<Rightarrow> attempt_state" where
  "attempt_of b =
     \<lparr>at_id = bd_attempt b,
      at_history = map (freezeGeneration \<circ> snd) (bd_generations b),
      at_frozen = frozen_of b,
      at_evidence = filter (\<lambda>e. ev_requirement e \<in> frozen_ids b) (bd_evidence b),
      at_unattributed = strays b,
      at_decisionHistory = bd_decisions b,
      at_decision = find_last (decision_matches (frozen_of b)) (bd_decisions b),
      at_integrity = (if bd_contested b \<or> bind_diagnostics b \<noteq> [] then Contested else Intact)\<rparr>"

definition foldPhaseAttemptAdmission :: "fold_schemas \<Rightarrow> fold_input \<Rightarrow> attempt_fold" where
  "foldPhaseAttemptAdmission sch inp =
     (let st = build sch inp;
          bs = map snd (fo_builders st);
          ds = fo_diagnostics st @ concat (map bind_diagnostics bs)
      in \<lparr>pf_attempts = map attempt_of bs, pf_diagnostics = ds,
          pf_integrity = (if ds = [] then Intact else Contested)\<rparr>)"

definition selectPhaseAttempt :: "attempt_fold \<Rightarrow> js \<Rightarrow> attempt_state option" where
  "selectPhaseAttempt f v =
     (case parse_id v of None \<Rightarrow> None | Some i \<Rightarrow> find (\<lambda>a. at_id a = i) (pf_attempts f))"

end
