(* ===== verification/Attempt_Fold_Laws.thy ===== *)
theory Attempt_Fold_Laws
  imports Phase_Attempt "HOL-Library.Sublist" "HOL-Library.Multiset"
begin

text \<open>
  What a replay of admission facts reconstructs: no fact is lost, an attempt is contested exactly when a
  diagnostic names it, the generations of an attempt only grow, a trusted decision belongs to the active
  set, and what a second delivery of a resolution does.
\<close>

section \<open>Builders by attempt\<close>

definition fold_inv :: "fold_state \<Rightarrow> bool" where
  "fold_inv st \<longleftrightarrow> distinct (map fst (fo_builders st)) \<and> (\<forall>(k, b) \<in> set (fo_builders st). bd_attempt b = k) \<and>
     (\<forall>a. bd_contested (builderFor st a) \<longleftrightarrow> (\<exists>d \<in> set (fo_diagnostics st). fd_attempt d = Some a))"

definition known :: "fold_state \<Rightarrow> string set" where
  "known st = fst ` set (fo_builders st)"

lemma new_builder_simps [simp]:
  "bd_attempt (new_builder a) = a" "bd_generations (new_builder a) = []" "bd_active (new_builder a) = None"
  "bd_evidence (new_builder a) = []" "bd_decisions (new_builder a) = []" "\<not> bd_contested (new_builder a)"
  by (simp_all add: new_builder_def)

lemma builderFor_put [simp]:
  "builderFor (put_builder b st) a = (if a = bd_attempt b then b else builderFor st a)"
  by (simp add: builderFor_def put_builder_def)

lemma builderFor_attempt: "fold_inv st \<Longrightarrow> bd_attempt (builderFor st a) = a"
  by (auto simp: builderFor_def fold_inv_def split: option.split dest!: map_of_SomeD)

lemma diagnose_simps [simp]:
  "builderFor (diagnose d st) a = builderFor st a" "known (diagnose d st) = known st"
  "fo_builders (diagnose d st) = fo_builders st" "fo_diagnostics (diagnose d st) = fo_diagnostics st @ [d]"
  by (simp_all add: builderFor_def diagnose_def known_def)

lemma diagnose_all [simp]:
  "builderFor (fold (\<lambda>c. diagnose (f c)) cs st) a = builderFor st a"
  "known (fold (\<lambda>c. diagnose (f c)) cs st) = known st"
  "fo_builders (fold (\<lambda>c. diagnose (f c)) cs st) = fo_builders st"
  "fo_diagnostics (fold (\<lambda>c. diagnose (f c)) cs st) = fo_diagnostics st @ map f cs"
  by (induction cs arbitrary: st) simp_all

lemma put_simps [simp]:
  "known (put_builder b st) = insert (bd_attempt b) (known st)"
  "fo_diagnostics (put_builder b st) = fo_diagnostics st"
  by (simp_all add: known_def put_builder_def keys_update)

lemma put_wf:
  assumes "distinct (map fst (fo_builders st))" "\<forall>(k, b) \<in> set (fo_builders st). bd_attempt b = k"
  shows "distinct (map fst (fo_builders (put_builder b st)))"
    "\<forall>(k, c) \<in> set (fo_builders (put_builder b st)). bd_attempt c = k"
  using assms set_update_subset [of "bd_attempt b" b "fo_builders st"]
  by (auto simp: put_builder_def distinct_update)

lemma contest_simps:
  assumes "fold_inv st"
  shows "builderFor (contest p st) a =
      (if p = Some a then (builderFor st a)\<lparr>bd_contested := True\<rparr> else builderFor st a)"
    "known (contest p st) = set_option p \<union> known st"
    "fo_diagnostics (contest p st) = fo_diagnostics st"
  using builderFor_attempt [OF assms] by (auto simp: contest_def split: option.split)

text \<open>The steps in one form: a malformed candidate contests its attempt, a parsed one updates it.\<close>

lemma inv_malformed:
  assumes "fold_inv st"
  shows "fold_inv (contest p (diagnose ((no_scope c p)\<lparr>fd_requirement := q, fd_evidence := e, fd_decision := d\<rparr>) st))"
    (is "fold_inv (contest p (diagnose ?d st))")
proof -
  have wf: "distinct (map fst (fo_builders st))" "\<forall>(k, b) \<in> set (fo_builders st). bd_attempt b = k"
    and cont: "\<And>a. bd_contested (builderFor st a) \<longleftrightarrow> (\<exists>d \<in> set (fo_diagnostics st). fd_attempt d = Some a)"
    using assms by (simp_all add: fold_inv_def)
  have att: "bd_attempt (builderFor st a) = a" for a using builderFor_attempt [OF assms] .
  have s: "fd_attempt ?d = p" by (simp add: no_scope_def)
  show ?thesis
  proof (cases p)
    case None
    then show ?thesis using wf cont s by (simp add: fold_inv_def contest_def)
  next
    case (Some i)
    let ?st = "diagnose ?d st" and ?b = "(builderFor st i)\<lparr>bd_contested := True\<rparr>"
    have "distinct (map fst (fo_builders (put_builder ?b ?st)))"
      "\<forall>(k, c) \<in> set (fo_builders (put_builder ?b ?st)). bd_attempt c = k"
      using wf put_wf [of ?st ?b] by simp_all
    then show ?thesis using Some att cont s by (auto simp: fold_inv_def contest_def)
  qed
qed

lemma inv_update:
  assumes "fold_inv st" "bd_attempt b = a" "\<forall>d \<in> set ds. fd_attempt d = Some a"
    "bd_contested b \<longleftrightarrow> bd_contested (builderFor st a) \<or> ds \<noteq> []"
    "fo_builders st' = fo_builders (put_builder b st)" "fo_diagnostics st' = fo_diagnostics st @ ds"
  shows "fold_inv st'"
proof -
  have "builderFor st' = builderFor (put_builder b st)" by (rule ext) (simp add: builderFor_def assms(5))
  moreover have "distinct (map fst (fo_builders st'))" "\<forall>(k, c) \<in> set (fo_builders st'). bd_attempt c = k"
    using assms(1) put_wf [of st b] unfolding assms(5) by (simp_all add: fold_inv_def)
  ultimately show ?thesis
    using assms(1-4,6) by (cases ds) (auto simp: fold_inv_def)
qed
section \<open>The steps\<close>

text \<open>The attempt that a candidate concerns.\<close>

definition resolution_target :: "fold_schemas \<Rightarrow> js \<Rightarrow> string option" where
  "resolution_target sch c =
     (case fs_resolution sch c of
        None \<Rightarrow> probe ''requirement'' ''phaseAttemptId'' c | Some r \<Rightarrow> Some (rq_attempt (ar_requirement r)))"

definition evidence_target :: "fold_schemas \<Rightarrow> js \<Rightarrow> string option" where
  "evidence_target sch c =
     (case fs_evidence sch c of
        None \<Rightarrow> probe ''evidence'' ''phaseAttemptId'' c | Some r \<Rightarrow> Some (ev_attempt (er_evidence r)))"

definition decision_target :: "fold_schemas \<Rightarrow> js \<Rightarrow> string option" where
  "decision_target sch c =
     (case fs_decision sch c of
        None \<Rightarrow> probe ''decision'' ''phaseAttemptId'' c | Some r \<Rightarrow> Some (dr_attempt r))"

lemma inv_malformed_cases:
  assumes "fold_inv st"
  shows "fold_inv (contest p (diagnose ((no_scope c p)\<lparr>fd_requirement := q\<rparr>) st))"
    "fold_inv (contest p (diagnose ((no_scope c p)\<lparr>fd_evidence := q\<rparr>) st))"
    "fold_inv (contest p (diagnose ((no_scope c p)\<lparr>fd_decision := q\<rparr>) st))"
  using inv_malformed [OF assms, where p = p and c = c and q = q and e = None and d = None]
    inv_malformed [OF assms, where p = p and c = c and q = None and e = q and d = None]
    inv_malformed [OF assms, where p = p and c = c and q = None and e = None and d = q]
  by (simp_all add: no_scope_def)

lemma resolve_into_simps [simp]:
  "bd_attempt (resolve_into r b) = bd_attempt b" "bd_evidence (resolve_into r b) = bd_evidence b"
  "bd_decisions (resolve_into r b) = bd_decisions b"
  "bd_active (resolve_into r b) = Some (digestKey (ar_setDigest r))"
  "bd_contested (resolve_into r b) \<longleftrightarrow> bd_contested b \<or>
     resolution_issues (map_of (bd_generations b) (digestKey (ar_setDigest r))) r \<noteq> []"
  by (simp_all add: resolve_into_def Let_def)

lemma resolution_step_laws:
  assumes "fold_inv st"
  shows "fold_inv (resolution_step sch c st)"
    and "known (resolution_step sch c st) = set_option (resolution_target sch c) \<union> known st"
    and "bd_evidence (builderFor (resolution_step sch c st) a) = bd_evidence (builderFor st a)"
    and "bd_decisions (builderFor (resolution_step sch c st) a) = bd_decisions (builderFor st a)"
proof -
  note att = builderFor_attempt [OF assms]
  show "fold_inv (resolution_step sch c st)"
  proof (cases "fs_resolution sch c")
    case None
    then show ?thesis by (simp add: resolution_step_def inv_malformed_cases [OF assms])
  next
    case (Some r)
    let ?a = "rq_attempt (ar_requirement r)"
    let ?issues = "resolution_issues (map_of (bd_generations (builderFor st ?a)) (digestKey (ar_setDigest r))) r"
    show ?thesis
      by (rule inv_update [OF assms, where a = ?a and b = "resolve_into r (builderFor st ?a)" and
            ds = "map (\<lambda>c. (no_scope c (Some ?a))\<lparr>fd_requirement := Some (rq_id (ar_requirement r))\<rparr>) ?issues"])
        (simp_all add: att resolution_step_def Some Let_def no_scope_def)
  qed
  show "known (resolution_step sch c st) = set_option (resolution_target sch c) \<union> known st"
    by (simp add: resolution_step_def resolution_target_def contest_def att Let_def split: option.split)
  show "bd_evidence (builderFor (resolution_step sch c st) a) = bd_evidence (builderFor st a)"
    "bd_decisions (builderFor (resolution_step sch c st) a) = bd_decisions (builderFor st a)"
    by (auto simp: resolution_step_def contest_def att Let_def split: option.split)
qed

lemma evidence_step_laws:
  assumes "fold_inv st"
  shows "fold_inv (evidence_step sch c st)"
    and "known (evidence_step sch c st) = set_option (evidence_target sch c) \<union> known st"
    and "bd_evidence (builderFor (evidence_step sch c st) a) = bd_evidence (builderFor st a) @
      map er_evidence (filter (\<lambda>r. ev_attempt (er_evidence r) = a) (List.map_filter (fs_evidence sch) [c]))"
    and "bd_decisions (builderFor (evidence_step sch c st) a) = bd_decisions (builderFor st a)"
    and "bd_generations (builderFor (evidence_step sch c st) a) = bd_generations (builderFor st a)"
    and "bd_active (builderFor (evidence_step sch c st) a) = bd_active (builderFor st a)"
proof -
  note att = builderFor_attempt [OF assms]
  show "fold_inv (evidence_step sch c st)"
  proof (cases "fs_evidence sch c")
    case None
    then show ?thesis by (simp add: evidence_step_def inv_malformed_cases [OF assms])
  next
    case (Some r)
    let ?a = "ev_attempt (er_evidence r)"
    show ?thesis
      by (rule inv_update [OF assms, where a = ?a and ds = "[]" and
            b = "(builderFor st ?a)\<lparr>bd_evidence := bd_evidence (builderFor st ?a) @ [er_evidence r]\<rparr>"])
        (simp_all add: att evidence_step_def Some Let_def)
  qed
  show "known (evidence_step sch c st) = set_option (evidence_target sch c) \<union> known st"
    by (simp add: evidence_step_def evidence_target_def contest_def att Let_def split: option.split)
  show "bd_evidence (builderFor (evidence_step sch c st) a) = bd_evidence (builderFor st a) @
      map er_evidence (filter (\<lambda>r. ev_attempt (er_evidence r) = a) (List.map_filter (fs_evidence sch) [c]))"
    "bd_decisions (builderFor (evidence_step sch c st) a) = bd_decisions (builderFor st a)"
    "bd_generations (builderFor (evidence_step sch c st) a) = bd_generations (builderFor st a)"
    "bd_active (builderFor (evidence_step sch c st) a) = bd_active (builderFor st a)"
    by (auto simp: evidence_step_def contest_def att Let_def List.map_filter_simps split: option.split)
qed

lemma decision_step_laws:
  assumes "fold_inv st"
  shows "fold_inv (decision_step sch c st)"
    and "known (decision_step sch c st) = set_option (decision_target sch c) \<union> known st"
    and "bd_decisions (builderFor (decision_step sch c st) a) = bd_decisions (builderFor st a) @
      filter (\<lambda>r. dr_attempt r = a) (List.map_filter (fs_decision sch) [c])"
    and "bd_evidence (builderFor (decision_step sch c st) a) = bd_evidence (builderFor st a)"
    and "bd_generations (builderFor (decision_step sch c st) a) = bd_generations (builderFor st a)"
    and "bd_active (builderFor (decision_step sch c st) a) = bd_active (builderFor st a)"
proof -
  note att = builderFor_attempt [OF assms]
  show "fold_inv (decision_step sch c st)"
  proof (cases "fs_decision sch c")
    case None
    then show ?thesis by (simp add: decision_step_def inv_malformed_cases [OF assms])
  next
    case (Some r)
    show ?thesis
      by (rule inv_update [OF assms, where a = "dr_attempt r" and ds = "[]" and
            b = "(builderFor st (dr_attempt r))\<lparr>bd_decisions := bd_decisions (builderFor st (dr_attempt r)) @ [r]\<rparr>"])
        (simp_all add: att decision_step_def Some Let_def)
  qed
  show "known (decision_step sch c st) = set_option (decision_target sch c) \<union> known st"
    by (simp add: decision_step_def decision_target_def contest_def att Let_def split: option.split)
  show "bd_decisions (builderFor (decision_step sch c st) a) = bd_decisions (builderFor st a) @
      filter (\<lambda>r. dr_attempt r = a) (List.map_filter (fs_decision sch) [c])"
    "bd_evidence (builderFor (decision_step sch c st) a) = bd_evidence (builderFor st a)"
    "bd_generations (builderFor (decision_step sch c st) a) = bd_generations (builderFor st a)"
    "bd_active (builderFor (decision_step sch c st) a) = bd_active (builderFor st a)"
    by (auto simp: decision_step_def contest_def att Let_def List.map_filter_simps split: option.split)
qed

section \<open>The passes\<close>

definition targets :: "(js \<Rightarrow> string option) \<Rightarrow> js list \<Rightarrow> string set" where
  "targets f cs = (\<Union>c \<in> set cs. set_option (f c))"

lemma targets_simps [simp]: "targets f [] = {}" "targets f (c # cs) = set_option (f c) \<union> targets f cs"
  by (simp_all add: targets_def)

lemma find_last_split:
  "find_last P xs = Some x \<Longrightarrow> \<exists>us vs. xs = us @ x # vs \<and> P x \<and> (\<forall>y \<in> set vs. \<not> P y)"
proof (induction xs rule: rev_induct)
  case (snoc y ys)
  show ?case
  proof (cases "P y")
    case True
    then show ?thesis using snoc.prems by (intro exI [of _ ys] exI [of _ "[]"]) simp
  next
    case False
    then obtain us vs where "ys = us @ x # vs" "P x" "\<forall>y \<in> set vs. \<not> P y" using snoc by auto
    then show ?thesis using False by (intro exI [of _ us] exI [of _ "vs @ [y]"]) simp
  qed
qed simp

lemma map_filter_Cons: "List.map_filter f (x # xs) = List.map_filter f [x] @ List.map_filter f xs"
  by (simp add: List.map_filter_simps split: option.split)

lemma resolution_pass:
  assumes "fold_inv st"
  shows "fold_inv (fold (resolution_step sch) cs st)"
    and "known (fold (resolution_step sch) cs st) = targets (resolution_target sch) cs \<union> known st"
    and "bd_evidence (builderFor (fold (resolution_step sch) cs st) a) = bd_evidence (builderFor st a)"
    and "bd_decisions (builderFor (fold (resolution_step sch) cs st) a) = bd_decisions (builderFor st a)"
proof -
  have "fold_inv (fold (resolution_step sch) cs st) \<and>
      known (fold (resolution_step sch) cs st) = targets (resolution_target sch) cs \<union> known st \<and>
      bd_evidence (builderFor (fold (resolution_step sch) cs st) a) = bd_evidence (builderFor st a) \<and>
      bd_decisions (builderFor (fold (resolution_step sch) cs st) a) = bd_decisions (builderFor st a)"
    using assms
  proof (induction cs arbitrary: st)
    case (Cons c cs)
    from Cons.IH [OF resolution_step_laws(1) [OF Cons.prems]] resolution_step_laws [OF Cons.prems]
    show ?case by auto
  qed simp
  then show "fold_inv (fold (resolution_step sch) cs st)"
    "known (fold (resolution_step sch) cs st) = targets (resolution_target sch) cs \<union> known st"
    "bd_evidence (builderFor (fold (resolution_step sch) cs st) a) = bd_evidence (builderFor st a)"
    "bd_decisions (builderFor (fold (resolution_step sch) cs st) a) = bd_decisions (builderFor st a)"
    by blast+
qed

lemma evidence_pass:
  assumes "fold_inv st"
  shows "fold_inv (fold (evidence_step sch) cs st) \<and>
    known (fold (evidence_step sch) cs st) = targets (evidence_target sch) cs \<union> known st \<and>
    bd_evidence (builderFor (fold (evidence_step sch) cs st) a) = bd_evidence (builderFor st a) @
      map er_evidence (filter (\<lambda>r. ev_attempt (er_evidence r) = a) (List.map_filter (fs_evidence sch) cs)) \<and>
    bd_decisions (builderFor (fold (evidence_step sch) cs st) a) = bd_decisions (builderFor st a) \<and>
    bd_generations (builderFor (fold (evidence_step sch) cs st) a) = bd_generations (builderFor st a) \<and>
    bd_active (builderFor (fold (evidence_step sch) cs st) a) = bd_active (builderFor st a)"
  using assms
proof (induction cs arbitrary: st)
  case Nil
  then show ?case by (simp add: List.map_filter_simps)
next
  case (Cons c cs)
  from Cons.IH [OF evidence_step_laws(1) [OF Cons.prems]] evidence_step_laws [OF Cons.prems]
  show ?case by (subst map_filter_Cons) auto
qed

lemma decision_pass:
  assumes "fold_inv st"
  shows "fold_inv (fold (decision_step sch) cs st) \<and>
    known (fold (decision_step sch) cs st) = targets (decision_target sch) cs \<union> known st \<and>
    bd_decisions (builderFor (fold (decision_step sch) cs st) a) = bd_decisions (builderFor st a) @
      filter (\<lambda>r. dr_attempt r = a) (List.map_filter (fs_decision sch) cs) \<and>
    bd_evidence (builderFor (fold (decision_step sch) cs st) a) = bd_evidence (builderFor st a) \<and>
    bd_generations (builderFor (fold (decision_step sch) cs st) a) = bd_generations (builderFor st a) \<and>
    bd_active (builderFor (fold (decision_step sch) cs st) a) = bd_active (builderFor st a)"
  using assms
proof (induction cs arbitrary: st)
  case Nil
  then show ?case by (simp add: List.map_filter_simps)
next
  case (Cons c cs)
  from Cons.IH [OF decision_step_laws(1) [OF Cons.prems]] decision_step_laws [OF Cons.prems]
  show ?case by (subst map_filter_Cons) auto
qed

section \<open>The result of the three passes\<close>

definition start :: fold_state where
  "start = \<lparr>fo_builders = [], fo_diagnostics = []\<rparr>"

definition resolved :: "fold_schemas \<Rightarrow> fold_input \<Rightarrow> fold_state" where
  "resolved sch inp = fold (resolution_step sch) (fi_requirementEvents inp) start"

definition evidence_for :: "fold_schemas \<Rightarrow> fold_input \<Rightarrow> string \<Rightarrow> evidence list" where
  "evidence_for sch inp a = map er_evidence
     (filter (\<lambda>r. ev_attempt (er_evidence r) = a) (List.map_filter (fs_evidence sch) (fi_evidenceEvents inp)))"

definition decisions_for :: "fold_schemas \<Rightarrow> fold_input \<Rightarrow> string \<Rightarrow> decision_record list" where
  "decisions_for sch inp a =
     filter (\<lambda>r. dr_attempt r = a) (List.map_filter (fs_decision sch) (fi_decisionEvents inp))"

definition attempts_named :: "fold_schemas \<Rightarrow> fold_input \<Rightarrow> string set" where
  "attempts_named sch inp = targets (resolution_target sch) (fi_requirementEvents inp) \<union>
     targets (evidence_target sch) (fi_evidenceEvents inp) \<union> targets (decision_target sch) (fi_decisionEvents inp)"

lemma start_laws: "fold_inv start" "known start = {}" "builderFor start a = new_builder a"
  by (simp_all add: start_def fold_inv_def known_def builderFor_def)

lemma build_laws:
  shows "fold_inv (build sch inp)" "known (build sch inp) = attempts_named sch inp"
    "bd_evidence (builderFor (build sch inp) a) = evidence_for sch inp a"
    "bd_decisions (builderFor (build sch inp) a) = decisions_for sch inp a"
    "bd_generations (builderFor (build sch inp) a) = bd_generations (builderFor (resolved sch inp) a)"
    "bd_active (builderFor (build sch inp) a) = bd_active (builderFor (resolved sch inp) a)"
proof -
  note r = resolution_pass [OF start_laws(1), of sch "fi_requirementEvents inp"]
  note e = evidence_pass [OF r(1), of sch "fi_evidenceEvents inp"]
  note d = decision_pass [OF conjunct1 [OF e], of sch "fi_decisionEvents inp"]
  show "fold_inv (build sch inp)" "known (build sch inp) = attempts_named sch inp"
    "bd_evidence (builderFor (build sch inp) a) = evidence_for sch inp a"
    "bd_decisions (builderFor (build sch inp) a) = decisions_for sch inp a"
    "bd_generations (builderFor (build sch inp) a) = bd_generations (builderFor (resolved sch inp) a)"
    "bd_active (builderFor (build sch inp) a) = bd_active (builderFor (resolved sch inp) a)"
    using d [of a] e [of a] r(2) r(3,4) [of a] start_laws(2) start_laws(3) [of a]
    unfolding build_def start_def [symmetric] resolved_def evidence_for_def decisions_for_def attempts_named_def
    by auto
qed

lemma builders_by_attempt:
  assumes "fold_inv st"
  shows "map snd (fo_builders st) = map (builderFor st) (map fst (fo_builders st))"
  using assms by (auto simp: fold_inv_def builderFor_def)

lemma fold_attempts:
  "pf_attempts (foldPhaseAttemptAdmission sch inp) =
     map (\<lambda>a. attempt_of (builderFor (build sch inp) a)) (map fst (fo_builders (build sch inp)))"
  using builders_by_attempt [OF build_laws(1) [of sch inp]]
  by (simp add: foldPhaseAttemptAdmission_def Let_def)

lemma at_id_attempt_of [simp]: "at_id (attempt_of b) = bd_attempt b"
  by (simp add: attempt_of_def)

lemma fold_attempt_ids:
  "map at_id (pf_attempts (foldPhaseAttemptAdmission sch inp)) = map fst (fo_builders (build sch inp))"
  using builderFor_attempt [OF build_laws(1) [of sch inp]] by (simp add: fold_attempts)

lemma attempt_in_fold:
  "s \<in> set (pf_attempts (foldPhaseAttemptAdmission sch inp)) \<longleftrightarrow>
     at_id s \<in> attempts_named sch inp \<and> s = attempt_of (builderFor (build sch inp) (at_id s))"
proof -
  have "set (pf_attempts (foldPhaseAttemptAdmission sch inp)) =
      (\<lambda>a. attempt_of (builderFor (build sch inp) a)) ` attempts_named sch inp"
    unfolding fold_attempts build_laws(2) [symmetric] by (simp add: known_def image_image)
  then show ?thesis using builderFor_attempt [OF build_laws(1) [of sch inp]] by auto
qed

lemma bind_diagnostics_attempt: "d \<in> set (bind_diagnostics b) \<Longrightarrow> fd_attempt d = Some (bd_attempt b)"
  by (auto simp: bind_diagnostics_def no_scope_def)

lemma contested_iff_named:
  assumes "a \<in> attempts_named sch inp"
  shows "at_integrity (attempt_of (builderFor (build sch inp) a)) = Contested \<longleftrightarrow>
    (\<exists>d \<in> set (pf_diagnostics (foldPhaseAttemptAdmission sch inp)). fd_attempt d = Some a)"
proof -
  let ?st = "build sch inp"
  have att: "bd_attempt (builderFor ?st x) = x" for x using builderFor_attempt [OF build_laws(1)] .
  have "a \<in> fst ` set (fo_builders ?st)"
    using assms build_laws(2) [of sch inp] by (simp add: known_def)
  moreover have "set (pf_diagnostics (foldPhaseAttemptAdmission sch inp)) =
      set (fo_diagnostics ?st) \<union> (\<Union>x \<in> fst ` set (fo_builders ?st). set (bind_diagnostics (builderFor ?st x)))"
    using builders_by_attempt [OF build_laws(1) [of sch inp]]
    by (simp add: foldPhaseAttemptAdmission_def Let_def image_image)
  moreover have "(\<exists>d \<in> set (bind_diagnostics (builderFor ?st x)). fd_attempt d = Some a) \<longleftrightarrow>
      x = a \<and> bind_diagnostics (builderFor ?st a) \<noteq> []" for x
  proof -
    have "\<forall>d \<in> set (bind_diagnostics (builderFor ?st x)). fd_attempt d = Some x"
      using bind_diagnostics_attempt att by simp
    then show ?thesis by (cases "bind_diagnostics (builderFor ?st x)") auto
  qed
  moreover have "bd_contested (builderFor ?st a) \<longleftrightarrow> (\<exists>d \<in> set (fo_diagnostics ?st). fd_attempt d = Some a)"
    using build_laws(1) [of sch inp] by (simp add: fold_inv_def)
  ultimately show ?thesis unfolding attempt_of_def by (auto simp: bex_Un)
qed

lemma partition_evidence:
  "mset (at_evidence (attempt_of b)) + mset (at_unattributed (attempt_of b)) = mset (bd_evidence b)"
  by (simp add: attempt_of_def strays_def multiset_partition [symmetric])

section \<open>Generations\<close>

definition gen_le :: "generation \<Rightarrow> generation \<Rightarrow> bool" where
  "gen_le g g' \<longleftrightarrow> gn_setDigest g' = gn_setDigest g \<and> gn_policyId g' = gn_policyId g \<and>
     gn_policyVersion g' = gn_policyVersion g \<and> gn_policyDigest g' = gn_policyDigest g \<and>
     gn_inputDigest g' = gn_inputDigest g \<and> prefix (gn_requirements g) (gn_requirements g') \<and>
     map_of (gn_serialized g) \<subseteq>\<^sub>m map_of (gn_serialized g')"

definition gens_le :: "(string \<times> generation) list \<Rightarrow> (string \<times> generation) list \<Rightarrow> bool" where
  "gens_le xs ys \<longleftrightarrow>
     (\<exists>us vs. ys = us @ vs \<and> list_all2 (\<lambda>(k, g) (k', g'). k = k' \<and> gen_le g g') xs us)"

lemma gen_le_refl [simp]: "gen_le g g"
  by (simp add: gen_le_def)

lemma gen_le_trans: "gen_le g h \<Longrightarrow> gen_le h k \<Longrightarrow> gen_le g k"
  unfolding gen_le_def using prefix_order.trans map_le_trans by (metis (no_types, lifting))

lemma gens_le_refl [simp]: "gens_le xs xs"
  unfolding gens_le_def by (rule exI [of _ xs]) (simp add: list_all2_same split_beta)

lemma gens_le_trans:
  assumes "gens_le xs ys" "gens_le ys zs"
  shows "gens_le xs zs"
proof -
  let ?R = "\<lambda>(k, g) (k', g'). k = k' \<and> gen_le g g'"
  obtain us vs where y: "ys = us @ vs" "list_all2 ?R xs us" using assms(1) by (auto simp: gens_le_def)
  obtain us' vs' where z: "zs = us' @ vs'" "list_all2 ?R (us @ vs) us'"
    using assms(2) y(1) by (auto simp: gens_le_def)
  obtain p q where pq: "us' = p @ q" "list_all2 ?R us p"
    using z(2) by (auto simp: list_all2_append1)
  have "list_all2 ?R xs p"
    by (rule list_all2_trans [OF _ y(2) pq(2)]) (auto intro: gen_le_trans)
  then show ?thesis unfolding gens_le_def z(1) pq(1) by (intro exI [of _ p] exI [of _ "q @ vs'"]) simp
qed

lemma gens_le_Cons: "gens_le xs ys \<Longrightarrow> gens_le (x # xs) (x # ys)"
proof -
  assume "gens_le xs ys"
  then obtain us vs where "ys = us @ vs" "list_all2 (\<lambda>(k, g) (k', g'). k = k' \<and> gen_le g g') xs us"
    by (auto simp: gens_le_def)
  then show "gens_le (x # xs) (x # ys)"
    unfolding gens_le_def by (intro exI [of _ "x # us"] exI [of _ vs]) (simp add: split_beta)
qed

lemma gens_le_update:
  assumes "\<And>h. map_of xs k = Some h \<Longrightarrow> gen_le h g"
  shows "gens_le xs (AList.update k g xs)"
  using assms
proof (induction xs)
  case Nil
  then show ?case by (auto simp: gens_le_def)
next
  case (Cons x xs)
  show ?case
  proof (cases "fst x = k")
    case True
    then have "gen_le (snd x) g" using Cons.prems [of "snd x"] by (cases x) simp
    then have "list_all2 (\<lambda>(k, g) (k', g'). k = k' \<and> gen_le g g') (x # xs) ((k, g) # xs)"
      using True by (cases x) (simp add: list_all2_same split_beta)
    then show ?thesis using True unfolding gens_le_def
      by (intro exI [of _ "(k, g) # xs"] exI [of _ "[]"]) (cases x, simp)
  next
    case False
    then have "gens_le xs (AList.update k g xs)" using Cons by (cases x) auto
    then show ?thesis using False gens_le_Cons [of xs _ x] by (cases x) simp
  qed
qed

lemma join_generation_le: "gen_le g (join_generation g q)"
  by (auto simp: gen_le_def join_generation_def map_le_def update_conv' split: if_splits)

lemma resolve_into_le: "gens_le (bd_generations b) (bd_generations (resolve_into r b))"
  unfolding resolve_into_def Let_def by (auto intro!: gens_le_update join_generation_le)

lemma resolution_step_generations:
  "fold_inv st \<Longrightarrow>
     gens_le (bd_generations (builderFor st a)) (bd_generations (builderFor (resolution_step sch c st) a))"
  by (auto simp: resolution_step_def contest_def builderFor_attempt Let_def resolve_into_le split: option.split)

lemma resolution_pass_generations:
  "fold_inv st \<Longrightarrow>
     gens_le (bd_generations (builderFor st a)) (bd_generations (builderFor (fold (resolution_step sch) cs st) a))"
proof (induction cs arbitrary: st)
  case (Cons c cs)
  show ?case
    using gens_le_trans [OF resolution_step_generations [OF Cons.prems]
        Cons.IH [OF resolution_step_laws(1) [OF Cons.prems]]] by simp
qed simp

text \<open>A frozen set is extended by another one with the same digest and policy whose requirements continue it.\<close>

definition frozen_extends :: "frozen_set \<Rightarrow> frozen_set \<Rightarrow> bool" where
  "frozen_extends f f' \<longleftrightarrow> (\<exists>more. f' = f\<lparr>fz_requirements := fz_requirements f @ more\<rparr>)"

lemma gens_le_history:
  assumes "gens_le xs ys"
  shows "list_all2 frozen_extends (map (freezeGeneration \<circ> snd) xs)
    (take (length xs) (map (freezeGeneration \<circ> snd) ys))"
proof -
  obtain us vs where y: "ys = us @ vs" "list_all2 (\<lambda>(k, g) (k', g'). k = k' \<and> gen_le g g') xs us"
    using assms by (auto simp: gens_le_def)
  have "frozen_extends (freezeGeneration g) (freezeGeneration h)" if "gen_le g h" for g h
    using that by (auto simp: gen_le_def frozen_extends_def freezeGeneration_def prefix_def)
  then show ?thesis using y list_all2_lengthD [OF y(2)]
    by (auto simp: list_all2_map1 list_all2_map2 split_beta elim: list_all2_mono)
qed

lemma gens_le_lookup:
  assumes "gens_le xs ys" "map_of xs k = Some g"
  shows "\<exists>g'. map_of ys k = Some g' \<and> gen_le g g'"
proof -
  obtain us vs where y: "ys = us @ vs" "list_all2 (\<lambda>(k, g) (k', g'). k = k' \<and> gen_le g g') xs us"
    using assms(1) by (auto simp: gens_le_def)
  from y(2) assms(2) have "\<exists>g'. map_of us k = Some g' \<and> gen_le g g'"
    by (induction rule: list_all2_induct) (auto split: if_splits)
  then show ?thesis using y(1) by auto
qed

definition gens_ok :: "builder \<Rightarrow> bool" where
  "gens_ok b \<longleftrightarrow> (\<forall>(k, g) \<in> set (bd_generations b). map rq_id (gn_requirements g) = map fst (gn_serialized g) \<and>
     distinct (map rq_id (gn_requirements g)) \<and> digestKey (gn_setDigest g) = k)"

lemma gens_ok_contest [simp]: "gens_ok (b\<lparr>bd_contested := x\<rparr>) = gens_ok b"
  by (simp add: gens_ok_def)

lemma new_builder_ok [simp]: "gens_ok (new_builder a)"
  by (simp add: gens_ok_def)

lemma update_absent: "map_of xs k = None \<Longrightarrow> AList.update k v xs = xs @ [(k, v)]"
  by (induction xs) (auto split: if_splits)

lemma update_same: "map_of xs k = Some v \<Longrightarrow> AList.update k v xs = xs"
  by (induction xs) (auto split: if_splits)

lemma join_generation_ok:
  assumes "map rq_id (gn_requirements g) = map fst (gn_serialized g)" "distinct (map rq_id (gn_requirements g))"
  shows "map rq_id (gn_requirements (join_generation g q)) = map fst (gn_serialized (join_generation g q))"
    "distinct (map rq_id (gn_requirements (join_generation g q)))"
  using assms by (auto simp: join_generation_def update_absent map_of_eq_None_iff
      simp flip: set_map dest: arg_cong [of _ _ set])

lemma resolve_into_ok: "gens_ok b \<Longrightarrow> gens_ok (resolve_into r b)"
proof -
  assume ok: "gens_ok b"
  let ?k = "digestKey (ar_setDigest r)"
  let ?g = "case map_of (bd_generations b) ?k of None \<Rightarrow> new_generation r | Some g \<Rightarrow> g"
  have "map rq_id (gn_requirements ?g) = map fst (gn_serialized ?g)" "distinct (map rq_id (gn_requirements ?g))"
    "digestKey (gn_setDigest ?g) = ?k"
    using ok by (auto simp: gens_ok_def new_generation_def split: option.split dest!: map_of_SomeD)
  moreover have "gn_setDigest (join_generation ?g q) = gn_setDigest ?g" for q by (simp add: join_generation_def)
  ultimately show "gens_ok (resolve_into r b)"
    using ok join_generation_ok [of ?g]
      set_update_subset [of ?k "join_generation ?g (ar_requirement r)" "bd_generations b"]
    by (auto simp: gens_ok_def resolve_into_def Let_def)
qed

lemma resolution_pass_ok:
  "fold_inv st \<Longrightarrow> \<forall>a. gens_ok (builderFor st a) \<Longrightarrow> gens_ok (builderFor (fold (resolution_step sch) cs st) a)"
proof (induction cs arbitrary: st)
  case (Cons c cs)
  have "gens_ok (builderFor (resolution_step sch c st) x)" for x
    using Cons.prems(2) resolve_into_ok builderFor_attempt [OF Cons.prems(1)]
    by (simp add: resolution_step_def contest_def Let_def split: option.split)
  then show ?case using Cons.IH [OF resolution_step_laws(1) [OF Cons.prems(1)]] by simp
qed simp

lemma build_ok: "gens_ok (builderFor (build sch inp) a)"
  using resolution_pass_ok [OF start_laws(1), of sch "fi_requirementEvents inp" a]
  unfolding gens_ok_def build_laws(5) resolved_def by (simp add: start_laws)

lemma frozen_of_ok:
  assumes "gens_ok b" "frozen_of b = Some z"
  shows "distinct (fz_requirementIds z)" "bd_active b = Some (digestKey (fz_setDigest z))"
    "z \<in> set (map (freezeGeneration \<circ> snd) (bd_generations b))"
proof -
  obtain k g where g: "bd_active b = Some k" "(k, g) \<in> set (bd_generations b)" "z = freezeGeneration g"
    using assms(2) by (auto simp: frozen_of_def split: bind_splits dest!: map_of_SomeD)
  then show "distinct (fz_requirementIds z)" "bd_active b = Some (digestKey (fz_setDigest z))"
    using assms(1) by (auto simp: gens_ok_def freezeGeneration_def fz_requirementIds_def)
  show "z \<in> set (map (freezeGeneration \<circ> snd) (bd_generations b))" using g(2,3) by force
qed

section \<open>Recorded resolutions\<close>

definition recorded :: "resolution_record \<Rightarrow> builder \<Rightarrow> bool" where
  "recorded r b \<longleftrightarrow> (\<exists>g. map_of (bd_generations b) (digestKey (ar_setDigest r)) = Some g \<and>
     sameResolutionProvenance g r \<and>
     map_of (gn_serialized g) (rq_id (ar_requirement r)) = Some (serialized (ar_requirement r)))"

lemma recorded_mono:
  assumes "recorded r b" "gens_le (bd_generations b) (bd_generations b')"
  shows "recorded r b'"
proof -
  obtain g where g: "map_of (bd_generations b) (digestKey (ar_setDigest r)) = Some g" "sameResolutionProvenance g r"
      "map_of (gn_serialized g) (rq_id (ar_requirement r)) = Some (serialized (ar_requirement r))"
    using assms(1) by (auto simp: recorded_def)
  from gens_le_lookup [OF assms(2) g(1)] obtain g' where
    "map_of (bd_generations b') (digestKey (ar_setDigest r)) = Some g'" "gen_le g g'" by blast
  then show ?thesis using g(2,3)
    by (auto simp: recorded_def gen_le_def sameResolutionProvenance_def map_le_def dest!: bspec)
qed

lemma recorded_after:
  assumes "resolution_issues (map_of (bd_generations b) (digestKey (ar_setDigest r))) r = []"
  shows "recorded r (resolve_into r b)"
  using assms
  by (auto simp: recorded_def resolve_into_def resolution_issues_def join_generation_def new_generation_def
      sameResolutionProvenance_def update_conv' Let_def split: option.splits if_splits)

lemma resolve_again:
  assumes "recorded r b"
  shows "resolution_issues (map_of (bd_generations b) (digestKey (ar_setDigest r))) r = []"
    and "resolve_into r b = b\<lparr>bd_active := Some (digestKey (ar_setDigest r))\<rparr>"
  using assms
  by (auto simp: recorded_def resolution_issues_def resolve_into_def join_generation_def Let_def update_same)

lemma step_diagnostics: "prefix (fo_diagnostics st) (fo_diagnostics (resolution_step sch c st))"
  by (auto simp: resolution_step_def contest_def Let_def split: option.split)

lemma pass_diagnostics: "prefix (fo_diagnostics st) (fo_diagnostics (fold (resolution_step sch) cs st))"
  by (induction cs arbitrary: st) (simp, metis fold_simps(2) prefix_order.trans step_diagnostics)

lemma clean_pass_records:
  "fold_inv st \<Longrightarrow> fo_diagnostics (fold (resolution_step sch) cs st) = [] \<Longrightarrow> c \<in> set cs \<Longrightarrow>
     fs_resolution sch c = Some r \<Longrightarrow>
     recorded r (builderFor (fold (resolution_step sch) cs st) (rq_attempt (ar_requirement r)))"
proof (induction cs arbitrary: st)
  case (Cons x xs)
  let ?st = "resolution_step sch x st" and ?a = "rq_attempt (ar_requirement r)"
  note inv = resolution_step_laws(1) [OF Cons.prems(1), of sch x]
  show ?case
  proof (cases "c \<in> set xs")
    case True
    then show ?thesis using Cons.IH [OF inv] Cons.prems by simp
  next
    case False
    then have "x = c" using Cons.prems(3) by simp
    have "fo_diagnostics ?st = []" using pass_diagnostics [of ?st sch xs] Cons.prems(2) by simp
    then have "recorded r (builderFor ?st ?a)"
      using Cons.prems(4) recorded_after [of "builderFor st ?a" r] builderFor_attempt [OF Cons.prems(1)]
      by (simp add: \<open>x = c\<close> resolution_step_def Let_def)
    then show ?thesis using recorded_mono resolution_pass_generations [OF inv] by simp
  qed
qed simp

section \<open>A sample stream\<close>

text \<open>Payloads are strings here; the schemas decode the ones that the sample uses.\<close>

definition digest_of :: "string \<Rightarrow> content_digest" where
  "digest_of v = \<lparr>cd_algorithm = ''sha256'', cd_value = v\<rparr>"

definition sample_subject :: evidence_subject where
  "sample_subject = \<lparr>su_kind = TaskSubject, su_identity = ''t1'', su_digest = digest_of ''s''\<rparr>"

definition sample_resolution :: "string \<Rightarrow> string \<Rightarrow> resolution_record" where
  "sample_resolution q k =
     \<lparr>ar_policyId = ''p'', ar_policyVersion = ''1'', ar_policyDigest = digest_of ''p'',
      ar_setDigest = digest_of k, ar_inputDigest = digest_of ''i'',
      ar_requirement = \<lparr>rq_id = q, rq_attempt = ''a1'', rq_subject = sample_subject,
        rq_kind = GateEvidenceRequirement ''gate''\<rparr>\<rparr>"

definition sample_evidence :: evidence_record where
  "sample_evidence =
     \<lparr>er_evidence = \<lparr>ev_id = ''e1'', ev_requirement = ''q2'', ev_attempt = ''a1'', ev_subject = sample_subject,
        ev_producer = \<lparr>ep_producerId = ''ci'', ep_providerRef = ''r'', ep_providerVersion = ''1'',
          ep_invocationId = ''x''\<rparr>,
        ev_policyId = ''p'', ev_policyDigest = digest_of ''p'', ev_contentDigest = digest_of ''c'',
        ev_createdAt = ''2026'', ev_kind = GateEvidence GatePass\<rparr>,
      er_supersedes = None\<rparr>"

definition sample_decision :: decision_record where
  "sample_decision =
     \<lparr>dr_id = ''d1'', dr_operation = ''o1'', dr_attempt = ''a1'', dr_policyId = ''p'', dr_policyVersion = ''1'',
      dr_policyDigest = digest_of ''p'', dr_setDigest = digest_of ''set2'', dr_inputDigest = digest_of ''i'',
      dr_evidenceIds = [''e1''], dr_waiverIds = [], dr_decidedAt = ''2026'',
      dr_outcome = AllowOutcome [''q2''] []\<rparr>"

definition sample_schemas :: fold_schemas where
  "sample_schemas =
     \<lparr>fs_resolution = (\<lambda>v. if v = JStr ''r1'' then Some (sample_resolution ''q1'' ''set1'')
        else if v = JStr ''r2'' then Some (sample_resolution ''q2'' ''set2'') else None),
      fs_evidence = (\<lambda>v. if v = JStr ''e'' then Some sample_evidence else None),
      fs_decision = (\<lambda>v. if v = JStr ''d'' then Some sample_decision else None)\<rparr>"

definition sample_input :: "js list \<Rightarrow> fold_input" where
  "sample_input rs = \<lparr>fi_requirementEvents = rs, fi_evidenceEvents = [JStr ''e''], fi_decisionEvents = [JStr ''d'']\<rparr>"

lemma sample_input_later:
  "fi_requirementEvents (sample_input [JStr ''r1'', JStr ''r2'']) =
     fi_requirementEvents (sample_input [JStr ''r1'']) @ [JStr ''r2'']"
  "set (fi_evidenceEvents (sample_input xs)) \<subseteq> set (fi_evidenceEvents (sample_input ys))"
  "set (fi_decisionEvents (sample_input xs)) \<subseteq> set (fi_decisionEvents (sample_input ys))"
  "(sample_input xs)\<lparr>fi_requirementEvents := ys\<rparr> = sample_input ys"
  by (simp_all add: sample_input_def)

lemmas sample_defs = digest_of_def sample_subject_def sample_resolution_def sample_evidence_def
  sample_decision_def sample_schemas_def sample_input_def

section \<open>What the replay promises\<close>

text \<open>
  C18: No admission fact is lost. The fold has one state per phase attempt that any event names, the
  evidence of an attempt is divided between the bound and the quarantined records with nothing left
  out, its decision history is every decision that parsed, in order, and the attempt is contested
  exactly when a diagnostic names it.
\<close>

theorem no_admission_fact_lost:
  "let f = foldPhaseAttemptAdmission sch inp
   in distinct (map at_id (pf_attempts f)) \<and> at_id ` set (pf_attempts f) = attempts_named sch inp \<and>
      (\<forall>s \<in> set (pf_attempts f).
         mset (at_evidence s) + mset (at_unattributed s) = mset (evidence_for sch inp (at_id s)) \<and>
         at_decisionHistory s = decisions_for sch inp (at_id s) \<and>
         (at_integrity s = Contested \<longleftrightarrow> (\<exists>d \<in> set (pf_diagnostics f). fd_attempt d = Some (at_id s))))"
proof -
  let ?f = "foldPhaseAttemptAdmission sch inp"
  have "distinct (map at_id (pf_attempts ?f))"
    using build_laws(1) [of sch inp] unfolding fold_attempt_ids by (simp add: fold_inv_def)
  moreover have "at_id ` set (pf_attempts ?f) = attempts_named sch inp"
    unfolding set_map [symmetric] fold_attempt_ids build_laws(2) [symmetric] by (simp add: known_def)
  moreover have "mset (at_evidence s) + mset (at_unattributed s) = mset (evidence_for sch inp (at_id s)) \<and>
       at_decisionHistory s = decisions_for sch inp (at_id s) \<and>
       (at_integrity s = Contested \<longleftrightarrow> (\<exists>d \<in> set (pf_diagnostics ?f). fd_attempt d = Some (at_id s)))"
    if "s \<in> set (pf_attempts ?f)" for s
  proof -
    obtain a where a: "a \<in> attempts_named sch inp" "s = attempt_of (builderFor (build sch inp) a)" "at_id s = a"
      using \<open>s \<in> set (pf_attempts ?f)\<close> unfolding attempt_in_fold by blast
    show ?thesis
      using contested_iff_named [OF a(1)] partition_evidence [of "builderFor (build sch inp) a"] a(3)
        build_laws(3,4) [of sch inp a] unfolding a(2) by (simp add: attempt_of_def)
  qed
  ultimately show ?thesis unfolding Let_def by blast
qed

lemma no_admission_fact_lost_witness:
  "let f = foldPhaseAttemptAdmission sample_schemas (sample_input [JStr ''r1'', JStr ''r2''])
   in map at_id (pf_attempts f) = [''a1''] \<and> distinct (map at_id (pf_attempts f)) \<and>
      concat (map at_evidence (pf_attempts f)) = [er_evidence sample_evidence]"
proof -
  let ?inp = "sample_input [JStr ''r1'', JStr ''r2'']"
  have d: "distinct (map at_id (pf_attempts (foldPhaseAttemptAdmission sample_schemas ?inp)))"
    using no_admission_fact_lost [of sample_schemas ?inp] unfolding Let_def by blast
  have "map at_id (pf_attempts (foldPhaseAttemptAdmission sample_schemas ?inp)) = [''a1'']"
    "concat (map at_evidence (pf_attempts (foldPhaseAttemptAdmission sample_schemas ?inp))) = [er_evidence sample_evidence]"
    by code_simp+
  then show ?thesis using d by (simp only: Let_def)
qed

text \<open>
  C20: A later resolution never rewrites an earlier frozen set. When more events arrive, every attempt
  keeps its history: each frozen set keeps its place, its digest, its policy and its requirements, to
  which new ones are only appended.
\<close>

theorem frozen_sets_only_grow:
  assumes "s \<in> set (pf_attempts (foldPhaseAttemptAdmission sch inp))"
    and "fi_requirementEvents later = fi_requirementEvents inp @ extra"
    and "set (fi_evidenceEvents inp) \<subseteq> set (fi_evidenceEvents later)"
    and "set (fi_decisionEvents inp) \<subseteq> set (fi_decisionEvents later)"
  shows "\<exists>s' \<in> set (pf_attempts (foldPhaseAttemptAdmission sch later)). at_id s' = at_id s \<and>
    list_all2 frozen_extends (at_history s) (take (length (at_history s)) (at_history s'))"
proof -
  let ?a = "at_id s"
  let ?s = "attempt_of (builderFor (build sch later) ?a)"
  have "attempts_named sch inp \<subseteq> attempts_named sch later"
    using assms(2-4) unfolding attempts_named_def targets_def by auto
  then have in_later: "?s \<in> set (pf_attempts (foldPhaseAttemptAdmission sch later))"
    using assms(1) builderFor_attempt [OF build_laws(1) [of sch later], of ?a] unfolding attempt_in_fold by auto
  have "gens_le (bd_generations (builderFor (build sch inp) ?a)) (bd_generations (builderFor (build sch later) ?a))"
    using resolution_pass_generations [OF resolution_pass(1) [OF start_laws(1)], of sch "fi_requirementEvents inp" ?a sch extra]
    unfolding build_laws(5) resolved_def assms(2) by simp
  note hist = gens_le_history [OF this]
  have "s = attempt_of (builderFor (build sch inp) ?a)" using assms(1) unfolding attempt_in_fold by simp
  then have "at_history s = at_history (attempt_of (builderFor (build sch inp) ?a))" by (rule arg_cong)
  then have "list_all2 frozen_extends (at_history s) (take (length (at_history s)) (at_history ?s))"
    using hist by (simp add: attempt_of_def)
  moreover have "at_id ?s = ?a" using builderFor_attempt [OF build_laws(1)] by simp
  ultimately show ?thesis using in_later by blast
qed

lemma frozen_sets_only_grow_witness:
  "\<exists>s \<in> set (pf_attempts (foldPhaseAttemptAdmission sample_schemas (sample_input [JStr ''r1'', JStr ''r2'']))).
     at_id s = ''a1'' \<and> at_history s \<noteq> []"
proof -
  let ?f = "foldPhaseAttemptAdmission sample_schemas (sample_input [JStr ''r1''])"
  have "map (\<lambda>s. (at_id s, length (at_history s))) (pf_attempts ?f) = [(''a1'', 1)]" by code_simp
  then obtain s where s: "s \<in> set (pf_attempts ?f)" "at_id s = ''a1''" "length (at_history s) = 1" by auto
  have "\<exists>s' \<in> set (pf_attempts (foldPhaseAttemptAdmission sample_schemas (sample_input [JStr ''r1'', JStr ''r2'']))).
      at_id s' = at_id s \<and> list_all2 frozen_extends (at_history s) (take (length (at_history s)) (at_history s'))"
    by (rule frozen_sets_only_grow [OF s(1) sample_input_later(1-3)])
  then obtain s' where s': "s' \<in> set (pf_attempts (foldPhaseAttemptAdmission sample_schemas (sample_input [JStr ''r1'', JStr ''r2''])))"
    "at_id s' = at_id s" "list_all2 frozen_extends (at_history s) (take (length (at_history s)) (at_history s'))" by blast
  have "at_history s' \<noteq> []" using list_all2_lengthD [OF s'(3)] s(3) by auto
  then show ?thesis by (intro bexI [OF _ s'(1)]) (simp add: s'(2) s(2))
qed

text \<open>
  C19: The decision that an attempt trusts was made about its active frozen set. It is the last
  recorded decision of that attempt with the digest of the active set; the set is one of the
  attempt's history, it has no requirement twice, and all the evidence bound to the attempt cites one
  of its requirements.
\<close>

theorem trusted_decision_is_bound:
  assumes "s \<in> set (pf_attempts (foldPhaseAttemptAdmission sch inp))" and "at_decision s = Some d"
  shows "\<exists>z before after. at_frozen s = Some z \<and> z \<in> set (at_history s) \<and> distinct (fz_requirementIds z) \<and>
    at_decisionHistory s = before @ d # after \<and> dr_attempt d = at_id s \<and>
    digestKey (dr_setDigest d) = digestKey (fz_setDigest z) \<and>
    (\<forall>d' \<in> set after. digestKey (dr_setDigest d') \<noteq> digestKey (fz_setDigest z)) \<and>
    (\<forall>e \<in> set (at_evidence s). ev_requirement e \<in> set (fz_requirementIds z))"
proof -
  define a where "a = at_id s"
  then have a: "at_id s = a" by simp
  have s: "s = attempt_of (builderFor (build sch inp) a)"
    using assms(1) unfolding attempt_in_fold a_def by (rule conjunct2)
  let ?b = "builderFor (build sch inp) a"
  have last: "find_last (decision_matches (frozen_of ?b)) (bd_decisions ?b) = Some d"
    using assms(2) unfolding s by (simp add: attempt_of_def)
  obtain before after where d: "bd_decisions ?b = before @ d # after" "decision_matches (frozen_of ?b) d"
    "\<forall>d' \<in> set after. \<not> decision_matches (frozen_of ?b) d'"
    using find_last_split [OF last] by (elim exE conjE) (rule that)
  obtain z where z: "frozen_of ?b = Some z" using d(2) by (auto simp: decision_matches_def split: option.splits)
  have "dr_attempt d = at_id s"
  proof -
    have "d \<in> set (decisions_for sch inp a)" unfolding build_laws(4) [symmetric] d(1) by simp
    then show ?thesis by (simp add: decisions_for_def a)
  qed
  moreover have "at_frozen s = Some z" "at_decisionHistory s = before @ d # after"
    "at_history s = map (freezeGeneration \<circ> snd) (bd_generations ?b)"
    "at_evidence s = filter (\<lambda>e. ev_requirement e \<in> set (fz_requirementIds z)) (bd_evidence ?b)"
    using z d(1) unfolding s by (simp_all add: attempt_of_def frozen_ids_def)
  ultimately show ?thesis
    using frozen_of_ok [OF build_ok z] d(2,3)
    by (intro exI [of _ z] exI [of _ before] exI [of _ after]) (simp add: z decision_matches_def)
qed

lemma trusted_decision_is_bound_witness:
  "\<exists>s \<in> set (pf_attempts (foldPhaseAttemptAdmission sample_schemas (sample_input [JStr ''r1'', JStr ''r2'']))).
     at_decision s = Some sample_decision \<and> dr_attempt sample_decision = at_id s"
proof -
  let ?f = "foldPhaseAttemptAdmission sample_schemas (sample_input [JStr ''r1'', JStr ''r2''])"
  have "map at_decision (pf_attempts ?f) = [Some sample_decision]" by code_simp
  then obtain s where s: "s \<in> set (pf_attempts ?f)" "at_decision s = Some sample_decision" by auto
  then show ?thesis using trusted_decision_is_bound [OF s] by blast
qed

text \<open>
  What a second delivery of a resolution does. After a stream that the fold found intact, a
  repeat of any resolution of the stream adds no diagnostic and leaves every frozen set as it was, but
  it makes the set that the resolution belongs to the active one, also when a later set had replaced
  it.
\<close>

theorem redelivery_reactivates_its_set:
  assumes "fs_resolution sch c = Some r" and "c \<in> set cs"
    and "fo_diagnostics (resolved sch (inp\<lparr>fi_requirementEvents := cs\<rparr>)) = []"
  shows "fo_diagnostics (resolved sch (inp\<lparr>fi_requirementEvents := cs @ [c]\<rparr>)) = [] \<and>
    (\<forall>a. bd_generations (builderFor (resolved sch (inp\<lparr>fi_requirementEvents := cs @ [c]\<rparr>)) a) =
         bd_generations (builderFor (resolved sch (inp\<lparr>fi_requirementEvents := cs\<rparr>)) a)) \<and>
    (\<exists>s \<in> set (pf_attempts (foldPhaseAttemptAdmission sch (inp\<lparr>fi_requirementEvents := cs @ [c]\<rparr>))).
       at_id s = rq_attempt (ar_requirement r) \<and>
       map_option (digestKey \<circ> fz_setDigest) (at_frozen s) = Some (digestKey (ar_setDigest r)))"
proof -
  let ?a = "rq_attempt (ar_requirement r)" and ?k = "digestKey (ar_setDigest r)"
  let ?inp = "inp\<lparr>fi_requirementEvents := cs\<rparr>" and ?inp' = "inp\<lparr>fi_requirementEvents := cs @ [c]\<rparr>"
  let ?st = "resolved sch ?inp" and ?st' = "resolved sch ?inp'"
  have inv: "fold_inv ?st" using resolution_pass(1) [OF start_laws(1)] by (simp add: resolved_def)
  have step: "?st' = resolution_step sch c ?st" by (simp add: resolved_def)
  have rec: "recorded r (builderFor ?st ?a)"
    using clean_pass_records [OF start_laws(1) _ assms(2,1)] assms(3) by (simp add: resolved_def)
  have st': "?st' = put_builder ((builderFor ?st ?a)\<lparr>bd_active := Some ?k\<rparr>) ?st"
    unfolding step resolution_step_def using assms(1) resolve_again [OF rec] by (simp add: Let_def)
  have gens: "bd_generations (builderFor ?st' x) = bd_generations (builderFor ?st x)" for x
    unfolding st' using builderFor_attempt [OF inv] by simp
  obtain g where g: "map_of (bd_generations (builderFor ?st ?a)) ?k = Some g" using rec by (auto simp: recorded_def)
  have "bd_active (builderFor ?st' ?a) = Some ?k" unfolding st' using builderFor_attempt [OF inv] by simp
  then have frozen: "frozen_of (builderFor (build sch ?inp') ?a) = Some (freezeGeneration g)"
    unfolding frozen_of_def build_laws(5,6) gens g by (simp add: g)
  then have "bd_active (builderFor (build sch ?inp') ?a) = Some (digestKey (fz_setDigest (freezeGeneration g)))"
    using frozen_of_ok [OF build_ok] by simp
  then have key: "digestKey (fz_setDigest (freezeGeneration g)) = ?k"
    using \<open>bd_active (builderFor ?st' ?a) = Some ?k\<close> unfolding build_laws(6) by simp
  have "?a \<in> attempts_named sch ?inp'"
    using assms(1,2) by (force simp: attempts_named_def targets_def resolution_target_def)
  then have "attempt_of (builderFor (build sch ?inp') ?a) \<in> set (pf_attempts (foldPhaseAttemptAdmission sch ?inp'))"
    using builderFor_attempt [OF build_laws(1) [of sch ?inp'], of ?a] unfolding attempt_in_fold by simp
  moreover have "at_id (attempt_of (builderFor (build sch ?inp') ?a)) = ?a"
    using builderFor_attempt [OF build_laws(1)] by simp
  moreover have "at_frozen (attempt_of (builderFor (build sch ?inp') ?a)) = Some (freezeGeneration g)"
    using frozen by (simp add: attempt_of_def)
  moreover have "fo_diagnostics ?st' = []" unfolding st' using assms(3) by simp
  ultimately show ?thesis using gens key by (auto intro!: bexI [of _ "attempt_of (builderFor (build sch ?inp') ?a)"])
qed

lemma redelivery_reactivates_its_set_witness:
  "let f = foldPhaseAttemptAdmission sample_schemas (sample_input [JStr ''r1'', JStr ''r2'']);
       f' = foldPhaseAttemptAdmission sample_schemas (sample_input [JStr ''r1'', JStr ''r2'', JStr ''r1''])
   in map at_decision (pf_attempts f) = [Some sample_decision] \<and> map at_decision (pf_attempts f') = [None] \<and>
      pf_integrity f = Intact \<and> pf_integrity f' = Contested \<and>
      fo_diagnostics (resolved sample_schemas (sample_input [JStr ''r1'', JStr ''r2'', JStr ''r1''])) = []"
proof -
  let ?cs = "[JStr ''r1'', JStr ''r2'']"
  have "fo_diagnostics (resolved sample_schemas (sample_input [JStr ''r1'', JStr ''r2'', JStr ''r1''])) = []"
  proof -
    have "fs_resolution sample_schemas (JStr ''r1'') = Some (sample_resolution ''q1'' ''set1'')" "JStr ''r1'' \<in> set ?cs"
      by (simp_all add: sample_schemas_def)
    moreover have "fo_diagnostics (resolved sample_schemas (sample_input ?cs\<lparr>fi_requirementEvents := ?cs\<rparr>)) = []"
      unfolding sample_input_later by code_simp
    ultimately show ?thesis
      using redelivery_reactivates_its_set [of sample_schemas _ _ ?cs "sample_input ?cs"]
      unfolding sample_input_later append.simps by blast
  qed
  moreover have "map at_decision (pf_attempts (foldPhaseAttemptAdmission sample_schemas (sample_input ?cs))) = [Some sample_decision]"
    "pf_integrity (foldPhaseAttemptAdmission sample_schemas (sample_input ?cs)) = Intact"
    "map at_decision (pf_attempts (foldPhaseAttemptAdmission sample_schemas (sample_input (?cs @ [JStr ''r1''])))) = [None]"
    "pf_integrity (foldPhaseAttemptAdmission sample_schemas (sample_input (?cs @ [JStr ''r1'']))) = Contested"
    by code_simp+
  ultimately show ?thesis by (simp add: Let_def)
qed

end
