(* ===== verification/Transition_Command.thy ===== *)
theory Transition_Command
  imports Phase_Attempt Edge_Condition Atomic_Appender
begin

text \<open>
  The admission chokepoint (\<open>src/workflow/admission/transition-command.ts\<close>): the route, the
  requirements, the policy, the decision record, and the one transaction that writes the decision and,
  when it allows, the lifecycle event. Parameters stand for code outside the repository: the SHA-256 of
  \<open>node:crypto\<close>, the date-time format of the schema library and \<open>Date.parse\<close>; the schemas that decode
  stored payloads are those of the fold.
\<close>

section \<open>Inputs\<close>

record command_env =
  env_sha :: "string \<Rightarrow> string"
  env_datetime :: "string \<Rightarrow> bool"
  env_date :: date_parse
  env_schemas :: fold_schemas

record transition_lifecycle =
  tl_attempt :: string
  tl_subject :: evidence_subject
  tl_from :: string
  tl_to :: string
  tl_trigger :: string
  tl_feature :: string

text \<open>Of a contradiction, the evaluation reads its requirement only.\<close>

record transition_admission =
  ta_context :: requirement_context
  ta_approvalClass :: "string option"
  ta_active :: "evidence list"
  ta_contradicted :: "string list"
  ta_waivers :: "waiver list"
  ta_authority :: policy_authority
  ta_evaluatedAt :: string
  ta_horizon :: rat
  ta_policyId :: string
  ta_policyVersion :: string
  ta_policyDigest :: content_digest

record transition_provenance =
  tp_caller :: principal
  tp_authorization :: authorization_snapshot

record transition_input =
  ti_stream :: string
  ti_operation :: string
  ti_expected :: nat
  ti_candidates :: "edge_candidate list"
  ti_facts :: edge_facts
  ti_lifecycle :: transition_lifecycle
  ti_admission :: transition_admission
  ti_provenance :: transition_provenance

section \<open>The schemas of what is written\<close>

text \<open>The length of a JavaScript string, in UTF-16 units, of a text in UTF-8.\<close>

definition utf16_length :: "string \<Rightarrow> nat" where
  "utf16_length s = length (filter (\<lambda>c. of_char c < (128 :: nat) \<or> 192 \<le> (of_char c :: nat)) s) +
     length (filter (\<lambda>c. 240 \<le> (of_char c :: nat)) s)"

definition trimmed_text :: "nat \<Rightarrow> string \<Rightarrow> bool" where
  "trimmed_text most s \<longleftrightarrow> 1 \<le> utf16_length (js_trim s) \<and> utf16_length (js_trim s) \<le> most"

definition digest_ok :: "content_digest \<Rightarrow> bool" where
  "digest_ok d \<longleftrightarrow> cd_algorithm d = ''sha256'' \<and> length (cd_value d) = 64 \<and>
     list_all (\<lambda>c. c \<in> set ''abcdef0123456789'') (cd_value d)"

definition subject_ok :: "evidence_subject \<Rightarrow> bool" where
  "subject_ok s \<longleftrightarrow> stable_id (su_identity s) \<and> digest_ok (su_digest s)"

definition principal_ok :: "principal \<Rightarrow> bool" where
  "principal_ok p \<longleftrightarrow> stable_id (pr_id p) \<and> stable_id (pr_role p)"

definition snapshot_ok :: "(string \<Rightarrow> bool) \<Rightarrow> authorization_snapshot \<Rightarrow> bool" where
  "snapshot_ok datetime a \<longleftrightarrow>
     stable_id (as_authorizationId a) \<and>
     as_posture a \<in> set [''read-only'', ''task-isolated'', ''shared-mutating''] \<and>
     list_all stable_id (as_capabilityIds a) \<and> trimmed_text 128 (as_resolverVersion a) \<and>
     datetime (as_resolvedAt a)"

definition remediation_ok :: "remediation \<Rightarrow> bool" where
  "remediation_ok r \<longleftrightarrow>
     (case r of
        RunGate q g \<Rightarrow> stable_id q \<and> stable_id g
      | CollectEvidence q s \<Rightarrow> stable_id q \<and> subject_ok s
      | ClassifyRisk a \<Rightarrow> stable_id a
      | RequestApproval q \<Rightarrow> stable_id q
      | RequestWaiver qs a \<Rightarrow> qs \<noteq> [] \<and> list_all stable_id qs \<and> stable_id a
      | RetryTransition a \<Rightarrow> stable_id a)"

definition outcome_ok :: "decision_outcome \<Rightarrow> bool" where
  "outcome_ok oc \<longleftrightarrow>
     (case oc of
        AllowOutcome sat waived \<Rightarrow> list_all stable_id sat \<and> list_all stable_id waived
      | DenyOutcome sat un rem \<Rightarrow>
          list_all stable_id sat \<and> un \<noteq> [] \<and> list_all (\<lambda>(q, _). stable_id q) un \<and>
          rem \<noteq> [] \<and> list_all remediation_ok rem
      | IndeterminateOutcome qs errs rem \<Rightarrow>
          qs \<noteq> [] \<and> list_all stable_id qs \<and> errs \<noteq> [] \<and> list_all (\<lambda>(_, m). trimmed_text 2000 m) errs \<and>
          rem \<noteq> [] \<and> list_all remediation_ok rem)"

definition decision_ok :: "(string \<Rightarrow> bool) \<Rightarrow> decision_record \<Rightarrow> bool" where
  "decision_ok datetime d \<longleftrightarrow>
     stable_id (dr_id d) \<and> stable_id (dr_operation d) \<and> stable_id (dr_attempt d) \<and> stable_id (dr_policyId d) \<and>
     trimmed_text 128 (dr_policyVersion d) \<and> digest_ok (dr_policyDigest d) \<and> digest_ok (dr_setDigest d) \<and>
     digest_ok (dr_inputDigest d) \<and> list_all stable_id (dr_evidenceIds d) \<and> list_all stable_id (dr_waiverIds d) \<and>
     datetime (dr_decidedAt d) \<and> outcome_ok (dr_outcome d)"

text \<open>The parse of a record trims its version text and the message of each error.\<close>

definition parse_outcome :: "decision_outcome \<Rightarrow> decision_outcome" where
  "parse_outcome oc =
     (case oc of
        IndeterminateOutcome qs errs rem \<Rightarrow> IndeterminateOutcome qs (map (\<lambda>(c, m). (c, js_trim m)) errs) rem
      | _ \<Rightarrow> oc)"

definition parse_decision :: "(string \<Rightarrow> bool) \<Rightarrow> decision_record \<Rightarrow> js_exn + decision_record" where
  "parse_decision datetime d =
     (if decision_ok datetime d
      then Inr (d\<lparr>dr_policyVersion := js_trim (dr_policyVersion d), dr_outcome := parse_outcome (dr_outcome d)\<rparr>)
      else Inl (Thrown ''ZodError''))"

section \<open>The prior facts of the stream\<close>

definition data_of_type :: "string \<Rightarrow> wf_event list \<Rightarrow> js list" where
  "data_of_type t es = map we_data (filter (\<lambda>e. we_type e = t) es)"

definition foldTransitionStream :: "fold_schemas \<Rightarrow> wf_event list \<Rightarrow> attempt_fold" where
  "foldTransitionStream sch events =
     foldPhaseAttemptAdmission sch
       \<lparr>fi_requirementEvents = data_of_type ''admission.requirement-resolved'' events,
        fi_evidenceEvents = data_of_type ''admission.evidence-recorded'' events,
        fi_decisionEvents = data_of_type ''admission.transition-decided'' events\<rparr>"

definition integrity_str :: "integrity \<Rightarrow> string" where
  "integrity_str i = (case i of Intact \<Rightarrow> ''intact'' | Contested \<Rightarrow> ''contested'')"

section \<open>The decision record\<close>

definition verdict_str :: "verdict \<Rightarrow> string" where
  "verdict_str v = (case v of VAllow \<Rightarrow> ''allow'' | VDeny \<Rightarrow> ''deny'' | VIndeterminate \<Rightarrow> ''indeterminate'')"

definition collectEvidenceIds :: "policy_evaluation \<Rightarrow> string list" where
  "collectEvidenceIds ev = sort (dedup_from {} id (concat (map re_evidence (pe_evaluations ev))))"

definition remediationForRequirement :: "requirement \<Rightarrow> remediation" where
  "remediationForRequirement q =
     (case rq_kind q of
        GateEvidenceRequirement g \<Rightarrow> RunGate (rq_id q) g
      | ApprovalRequirement _ _ \<Rightarrow> RequestApproval (rq_id q)
      | CorroborationRequirement _ _ \<Rightarrow> CollectEvidence (rq_id q) (rq_subject q))"

record decision_input =
  di_operation :: string
  di_attempt :: string
  di_evaluation :: policy_evaluation
  di_frozen :: requirement_projection
  di_waivable :: bool
  di_policyId :: string
  di_policyVersion :: string
  di_policyDigest :: content_digest
  di_evaluatedAt :: string
  di_horizon :: rat

text \<open>The entries of each status, with what the record keeps of them.\<close>

definition satisfied_ids :: "policy_evaluation \<Rightarrow> string list" where
  "satisfied_ids ev = map re_requirement (filter (\<lambda>e. re_status e = StSatisfied) (pe_evaluations ev))"

definition waived_ids :: "policy_evaluation \<Rightarrow> string list" where
  "waived_ids ev =
     map re_requirement (filter (\<lambda>e. case re_status e of StWaived _ _ \<Rightarrow> True | _ \<Rightarrow> False) (pe_evaluations ev))"

definition denied_entries :: "policy_evaluation \<Rightarrow> (string \<times> deny_reason) list" where
  "denied_entries ev = List.map_filter
     (\<lambda>e. case re_status e of StDenied r \<Rightarrow> Some (re_requirement e, r) | _ \<Rightarrow> None) (pe_evaluations ev)"

definition unresolved_entries :: "policy_evaluation \<Rightarrow> (string \<times> indeterminate_code) list" where
  "unresolved_entries ev = List.map_filter
     (\<lambda>e. case re_status e of StIndeterminate c \<Rightarrow> Some (re_requirement e, c) | _ \<Rightarrow> None) (pe_evaluations ev)"

text \<open>The \<open>Map\<close> of the frozen requirements keeps the last record of an id.\<close>

definition deny_remediation :: "decision_input \<Rightarrow> remediation list" where
  "deny_remediation inp =
     (let denied = denied_entries (di_evaluation inp);
          direct = List.map_filter (\<lambda>(q, _). map_option remediationForRequirement
            (find_last (\<lambda>r. rq_id r = q) (rp_requirements (di_frozen inp)))) denied;
          all = direct @ (if di_waivable inp \<and> denied \<noteq> []
                          then [RequestWaiver (map fst denied) (di_attempt inp)] else [])
      in if all = [] then [RetryTransition (di_attempt inp)] else all)"

definition decision_outcome_of :: "decision_input \<Rightarrow> decision_outcome" where
  "decision_outcome_of inp =
     (let ev = di_evaluation inp in
      case pe_verdict ev of
        VAllow \<Rightarrow> AllowOutcome (satisfied_ids ev) (waived_ids ev)
      | VDeny \<Rightarrow>
          DenyOutcome (satisfied_ids ev) (map (\<lambda>(q, r). (q, unsatisfied_of r)) (denied_entries ev))
            (deny_remediation inp)
      | VIndeterminate \<Rightarrow>
          IndeterminateOutcome (map fst (unresolved_entries ev))
            (map (\<lambda>(q, c). (c, ''requirement '' @ q @ '' could not be decided'')) (unresolved_entries ev))
            [RetryTransition (di_attempt inp)])"

definition input_digest_value :: "(string \<Rightarrow> string) \<Rightarrow> decision_input \<Rightarrow> string" where
  "input_digest_value sha inp =
     sha (canonicalJson (JObj
       [(''requirementSetDigest'', JStr (cd_value (rp_digest (di_frozen inp)))),
        (''policyDigest'', JStr (cd_value (di_policyDigest inp))),
        (''policyId'', JStr (di_policyId inp)), (''policyVersion'', JStr (di_policyVersion inp)),
        (''evidenceIds'', str_list (collectEvidenceIds (di_evaluation inp))),
        (''waiverIds'', str_list (pe_waivers (di_evaluation inp))),
        (''evaluatedAt'', JStr (di_evaluatedAt inp)), (''freshnessHorizonMs'', JNum (Fin (di_horizon inp))),
        (''verdict'', JStr (verdict_str (pe_verdict (di_evaluation inp))))]))"

definition buildDecisionRecord :: "command_env \<Rightarrow> decision_input \<Rightarrow> js_exn + decision_record" where
  "buildDecisionRecord env inp =
     (let v = input_digest_value (env_sha env) inp
      in parse_decision (env_datetime env)
           \<lparr>dr_id = ''decision.'' @ take 40 (env_sha env (di_operation inp @ [CHR 0x00] @ v)),
            dr_operation = di_operation inp, dr_attempt = di_attempt inp, dr_policyId = di_policyId inp,
            dr_policyVersion = di_policyVersion inp, dr_policyDigest = di_policyDigest inp,
            dr_setDigest = rp_digest (di_frozen inp),
            dr_inputDigest = \<lparr>cd_algorithm = ''sha256'', cd_value = v\<rparr>,
            dr_evidenceIds = collectEvidenceIds (di_evaluation inp), dr_waiverIds = pe_waivers (di_evaluation inp),
            dr_decidedAt = di_evaluatedAt inp, dr_outcome = decision_outcome_of inp\<rparr>)"

section \<open>The events\<close>

definition principal_js :: "principal \<Rightarrow> js" where
  "principal_js p =
     JObj [(''principalKind'', JStr (case pr_kind p of
              Operator \<Rightarrow> ''operator'' | Agent \<Rightarrow> ''agent'' | Service \<Rightarrow> ''service'')),
           (''principalId'', JStr (pr_id p)), (''role'', JStr (pr_role p))]"

definition snapshot_js :: "authorization_snapshot \<Rightarrow> js" where
  "snapshot_js a =
     JObj [(''authorizationId'', JStr (as_authorizationId a)), (''posture'', JStr (as_posture a)),
           (''capabilityIds'', str_list (as_capabilityIds a)),
           (''resolverVersion'', JStr (js_trim (as_resolverVersion a))),
           (''resolvedAt'', JStr (as_resolvedAt a))]"

definition plain_event :: "string \<Rightarrow> string \<Rightarrow> js \<Rightarrow> event_input" where
  "plain_event t operationId data =
     \<lparr>ei_type = t, ei_data = data, ei_timestamp = None, ei_operation = Some operationId,
      ei_correlation = None, ei_causation = None\<rparr>"

definition decisionEvent ::
    "command_env \<Rightarrow> decision_record \<Rightarrow> transition_lifecycle \<Rightarrow> transition_provenance \<Rightarrow> string \<Rightarrow>
     js_exn + event_input" where
  "decisionEvent env d lc pv operationId =
     (if subject_ok (tl_subject lc) \<and> decision_ok (env_datetime env) d \<and> principal_ok (tp_caller pv) \<and>
         snapshot_ok (env_datetime env) (tp_authorization pv)
      then Inr (plain_event ''admission.transition-decided'' operationId
             (JObj [(''eventVersion'', JStr ''1.0''), (''subject'', subjectIdentity (tl_subject lc)),
                    (''decision'', decision_js d), (''caller'', principal_js (tp_caller pv)),
                    (''authorization'', snapshot_js (tp_authorization pv))]))
      else Inl (Thrown ''ZodError''))"

definition transitionLifecycleEvent :: "transition_lifecycle \<Rightarrow> string \<Rightarrow> js_exn + event_input" where
  "transitionLifecycleEvent lc operationId =
     (if stable_id (tl_attempt lc)
      then Inr (plain_event ''workflow.transition'' operationId
             (JObj [(''from'', JStr (tl_from lc)), (''to'', JStr (tl_to lc)), (''trigger'', JStr (tl_trigger lc)),
                    (''featureId'', JStr (tl_feature lc)), (''phaseAttemptId'', JStr (tl_attempt lc))]))
      else Inl (Thrown ''ZodError''))"

section \<open>The command\<close>

record prepared_transition =
  pt_evaluation :: policy_evaluation
  pt_frozen :: requirement_projection
  pt_decision :: decision_record
  pt_events :: "event_input list"

text \<open>What runs before the transaction: resolve, freeze, evaluate and build the events.\<close>

definition policy_input_of ::
    "command_env \<Rightarrow> transition_admission \<Rightarrow> resolved_requirements \<Rightarrow> requirement_projection \<Rightarrow> policy_input" where
  "policy_input_of env ta resolved frozen =
     \<lparr>pi_requirements = rp_requirements frozen, pi_obligations = resolved, pi_active = ta_active ta,
      pi_contradicted = ta_contradicted ta, pi_waivers = ta_waivers ta,
      pi_context = \<lparr>ex_date = env_date env, ex_authority = ta_authority ta,
                    ex_evaluatedAt = ta_evaluatedAt ta, ex_horizon = ta_horizon ta\<rparr>\<rparr>"

definition prepare_transition :: "command_env \<Rightarrow> transition_input \<Rightarrow> js_exn + prepared_transition" where
  "prepare_transition env inp =
     (let ta = ti_admission inp; lc = ti_lifecycle inp; operationId = ti_operation inp in
      bind_result (resolveRequirements (ta_context ta)) (\<lambda>resolved.
      bind_result (freezeRequirements (env_sha env)
          \<lparr>fi_resolved = resolved, fi_attempt = tl_attempt lc, fi_subject = tl_subject lc,
           fi_approvalClass = ta_approvalClass ta\<rparr>) (\<lambda>frozen.
      let ev = evaluatePolicy (policy_input_of env ta resolved frozen) in
      bind_result (buildDecisionRecord env
          \<lparr>di_operation = operationId, di_attempt = tl_attempt lc, di_evaluation = ev, di_frozen = frozen,
           di_waivable = rr_waivable resolved, di_policyId = ta_policyId ta,
           di_policyVersion = ta_policyVersion ta, di_policyDigest = ta_policyDigest ta,
           di_evaluatedAt = ta_evaluatedAt ta, di_horizon = ta_horizon ta\<rparr>) (\<lambda>decision.
      bind_result (decisionEvent env decision lc (ti_provenance inp) operationId) (\<lambda>event.
      bind_result (if pe_verdict ev = VAllow
                   then bind_result (transitionLifecycleEvent lc operationId) (\<lambda>e. Inr [event, e])
                   else Inr [event]) (\<lambda>events.
      Inr \<lparr>pt_evaluation = ev, pt_frozen = frozen, pt_decision = decision, pt_events = events\<rparr>))))))"

definition transition_digest :: "command_env \<Rightarrow> transition_input \<Rightarrow> string \<Rightarrow> nat \<Rightarrow> decision_record \<Rightarrow> string" where
  "transition_digest env inp edgeId index decision =
     (let lc = ti_lifecycle inp in
      ''sha256:'' @ env_sha env (canonicalJson (JObj
        [(''operationId'', JStr (ti_operation inp)), (''streamId'', JStr (ti_stream inp)),
         (''expectedVersion'', JInt (int (ti_expected inp))), (''routeEdgeId'', JStr edgeId),
         (''routeIndex'', JInt (int index)),
         (''lifecycle'', JObj [(''from'', JStr (tl_from lc)), (''to'', JStr (tl_to lc)),
            (''trigger'', JStr (tl_trigger lc)), (''featureId'', JStr (tl_feature lc)),
            (''phaseAttemptId'', JStr (tl_attempt lc))]),
         (''decision'', decision_js decision)])))"

definition transition_closure ::
    "command_env \<Rightarrow> transition_input \<Rightarrow> prepared_transition \<Rightarrow> db \<Rightarrow> once_decision" where
  "transition_closure env inp p d =
     \<lparr>od_stream = ti_stream inp, od_events = pt_events p,
      od_result = JObj
        [(''decision'', decision_js (pt_decision p)),
         (''verdict'', JStr (verdict_str (pe_verdict (pt_evaluation p)))),
         (''phaseChanged'', JBool (pe_verdict (pt_evaluation p) = VAllow)),
         (''appendedEventTypes'', str_list (map ei_type (pt_events p))),
         (''foldIntegrity'', JStr (integrity_str
           (pf_integrity (foldTransitionStream (env_schemas env) (rows_of d (ti_stream inp))))))],
      od_expected = Some (ti_expected inp)\<rparr>"

datatype transition_outcome = Admitted | TransitionDenied | TransitionIndeterminate

text \<open>The decided result reads what the appender returned, the recorded result of an earlier call included.\<close>

record transition_decided =
  td_outcome :: transition_outcome
  td_verdict :: js
  td_phaseChanged :: js
  td_decision :: js
  td_edge :: "string \<times> nat"
  td_evaluation :: policy_evaluation
  td_requirements :: "requirement list"
  td_setDigest :: content_digest
  td_appended :: js
  td_integrity :: js

datatype command_result = RouteRejected edge_selection | TransitionDecided transition_decided

datatype command_error = CommandThrew js_exn | DeciderFailed decide_error

definition decided_result :: "prepared_transition \<Rightarrow> string \<Rightarrow> nat \<Rightarrow> js \<Rightarrow> transition_decided" where
  "decided_result p edgeId index atomic =
     \<lparr>td_outcome = (if opt_get atomic ''verdict'' = JStr ''allow'' then Admitted
                    else if opt_get atomic ''verdict'' = JStr ''deny'' then TransitionDenied
                    else TransitionIndeterminate),
      td_verdict = opt_get atomic ''verdict'', td_phaseChanged = opt_get atomic ''phaseChanged'',
      td_decision = opt_get atomic ''decision'', td_edge = (edgeId, index), td_evaluation = pt_evaluation p,
      td_requirements = rp_requirements (pt_frozen p), td_setDigest = rp_digest (pt_frozen p),
      td_appended = opt_get atomic ''appendedEventTypes'', td_integrity = opt_get atomic ''foldIntegrity''\<rparr>"

definition runTransitionCommand ::
    "command_env \<Rightarrow> bool list \<Rightarrow> stamps \<Rightarrow> transition_input \<Rightarrow> db \<Rightarrow> db \<Rightarrow>
     (command_error + command_result) \<times> db" where
  "runTransitionCommand env busy st inp dl d =
     (case selectEdge (ti_candidates inp) (ti_facts inp) of
        Selected edgeId index overlap matched \<Rightarrow>
          (case prepare_transition env inp of
             Inl e \<Rightarrow> (Inl (CommandThrew e), d)
           | Inr p \<Rightarrow>
               (case decideOnce busy st (ti_operation inp)
                       (transition_digest env inp edgeId index (pt_decision p))
                       (transition_closure env inp p) dl d of
                  (Inl e, d') \<Rightarrow> (Inl (DeciderFailed e), d')
                | (Inr atomic, d') \<Rightarrow> (Inr (TransitionDecided (decided_result p edgeId index atomic)), d')))
      | r \<Rightarrow> (Inr (RouteRejected r), d))"

section \<open>Cleanup\<close>

record cleanup_input =
  cu_stream :: string
  cu_operation :: string
  cu_expected :: nat
  cu_from :: string
  cu_to :: string
  cu_trigger :: string
  cu_feature :: string
  cu_attempt :: "string option"

definition cleanup_data :: "cleanup_input \<Rightarrow> js_exn + js" where
  "cleanup_data inp =
     (if pred_option stable_id (cu_attempt inp)
      then Inr (JObj ([(''from'', JStr (cu_from inp)), (''to'', JStr (cu_to inp)),
             (''trigger'', JStr (cu_trigger inp)), (''featureId'', JStr (cu_feature inp))] @
             (case cu_attempt inp of None \<Rightarrow> [] | Some a \<Rightarrow> [(''phaseAttemptId'', JStr a)])))
      else Inl (Thrown ''ZodError''))"

definition cleanup_closure :: "command_env \<Rightarrow> cleanup_input \<Rightarrow> js \<Rightarrow> db \<Rightarrow> once_decision" where
  "cleanup_closure env inp data d =
     \<lparr>od_stream = cu_stream inp,
      od_events = [plain_event ''workflow.cleanup'' (cu_operation inp) data],
      od_result = JObj
        [(''appendedEventTypes'', str_list [''workflow.cleanup'']),
         (''foldIntegrity'', JStr (integrity_str
           (pf_integrity (foldTransitionStream (env_schemas env) (rows_of d (cu_stream inp))))))],
      od_expected = Some (cu_expected inp)\<rparr>"

record cleanup_result =
  cr_appended :: js
  cr_integrity :: js

definition runCleanupCommand ::
    "command_env \<Rightarrow> bool list \<Rightarrow> stamps \<Rightarrow> cleanup_input \<Rightarrow> db \<Rightarrow> db \<Rightarrow>
     (command_error + cleanup_result) \<times> db" where
  "runCleanupCommand env busy st inp dl d =
     (case cleanup_data inp of
        Inl e \<Rightarrow> (Inl (CommandThrew e), d)
      | Inr data \<Rightarrow>
          (case decideOnce busy st (cu_operation inp)
                  (''sha256:'' @ env_sha env (canonicalJson (JObj
                     [(''operationId'', JStr (cu_operation inp)), (''streamId'', JStr (cu_stream inp)),
                      (''expectedVersion'', JInt (int (cu_expected inp))), (''cleanup'', data)])))
                  (cleanup_closure env inp data) dl d of
             (Inl e, d') \<Rightarrow> (Inl (DeciderFailed e), d')
           | (Inr atomic, d') \<Rightarrow>
               (Inr \<lparr>cr_appended = opt_get atomic ''appendedEventTypes'',
                     cr_integrity = opt_get atomic ''foldIntegrity''\<rparr>, d')))"

end
