(* ===== verification/Canonical_Json.thy ===== *)
theory Canonical_Json
  imports Phase_Attempt
begin

text \<open>
  Canonical JSON identifies its value. The digests of admission are taken over \<open>canonicalJson\<close> of
  \<open>src/workflow/admission/freeze-requirements.ts\<close>: the text that sorts the keys of every object. On values
  built from null, booleans, integers, strings, arrays and objects, two values have the same text
  exactly when they differ at most in the order of object entries.
\<close>

section \<open>Texts that end where they end\<close>

definition ends :: "string \<Rightarrow> bool" where
  "ends x \<longleftrightarrow> (case x of [] \<Rightarrow> True | c # _ \<Rightarrow> c \<in> set '',]}'')"

lemma ends_simps [simp]: "ends []" "ends (c # x) \<longleftrightarrow> c \<in> set '',]}''"
  by (simp_all add: ends_def)

subsection \<open>Numbers\<close>

definition is_digit :: "char \<Rightarrow> bool" where
  "is_digit c \<longleftrightarrow> c \<in> set ''0123456789''"

definition digits_value :: "string \<Rightarrow> nat" where
  "digits_value = foldl (\<lambda>a c. 10 * a + (of_char c - 48)) 0"

lemma digits_checked:
  "list_all (\<lambda>n. is_digit (digit_char n) \<and> of_char (digit_char n) - 48 = (n :: nat)) [0 ..< 10]"
  by code_simp

lemma digit_char_digit: "n < 10 \<Longrightarrow> is_digit (digit_char n) \<and> of_char (digit_char n) - 48 = (n :: nat)"
  using digits_checked by (simp only: list_all_iff set_upt) simp

lemma nat_str_digits: "list_all is_digit (nat_str n) \<and> nat_str n \<noteq> [] \<and> digits_value (nat_str n) = n"
proof (induction n rule: nat_str.induct)
  case (1 n)
  show ?case
  proof (cases "n < 10")
    case True
    then show ?thesis using digit_char_digit by (simp add: nat_str.simps [of n] digits_value_def)
  next
    case False
    then show ?thesis using 1 [OF False] digit_char_digit [of "n mod 10"]
      by (simp add: nat_str.simps [of n] digits_value_def)
  qed
qed

lemma nat_str_prefix:
  assumes "nat_str a @ x = nat_str b @ y" "ends x" "ends y"
  shows "a = b \<and> x = y"
proof -
  have take_digits: "takeWhile is_digit (nat_str n @ z) = nat_str n" if "ends z" for n z
    using nat_str_digits [of n] that
    by (cases z) (auto simp: list_all_iff takeWhile_append is_digit_def)
  have "nat_str a = nat_str b" using take_digits assms by metis
  then show ?thesis using assms(1) nat_str_digits by (metis same_append_eq)
qed

lemma int_text: "num_str (Fin (of_int i)) = (if i < 0 then ''-'' else '''') @ nat_str (nat \<bar>i\<bar>)"
  using floor_of_int [of "\<bar>i\<bar>", where ?'a = rat] by (simp add: Let_def del: floor_of_int)

lemma int_prefix:
  assumes "num_str (Fin (of_int i)) @ x = num_str (Fin (of_int j)) @ y" "ends x" "ends y"
  shows "i = j \<and> x = y"
proof -
  have minus: "hd (nat_str n) \<noteq> CHR ''-''" "nat_str n \<noteq> []" for n
    using nat_str_digits [of n] by (cases "nat_str n"; auto simp: is_digit_def)+
  have head: "nat_str n @ z \<noteq> CHR ''-'' # w" for n z w
    using minus [of n] by (cases "nat_str n") auto
  consider "i < 0" "j < 0" | "\<not> i < 0" "\<not> j < 0" | "i < 0" "\<not> j < 0" | "\<not> i < 0" "j < 0" by blast
  then show ?thesis
  proof cases
    case 1
    then have "nat_str (nat \<bar>i\<bar>) @ x = nat_str (nat \<bar>j\<bar>) @ y" using assms(1) unfolding int_text by simp
    from nat_str_prefix [OF this assms(2,3)] show ?thesis using 1 by linarith
  next
    case 2
    then have "nat_str (nat \<bar>i\<bar>) @ x = nat_str (nat \<bar>j\<bar>) @ y" using assms(1) unfolding int_text by simp
    from nat_str_prefix [OF this assms(2,3)] show ?thesis using 2 by linarith
  next
    case 3
    then show ?thesis using assms(1) head unfolding int_text by (metis append_Cons append_Nil)
  next
    case 4
    then show ?thesis using assms(1) head unfolding int_text by (metis append_Cons append_Nil)
  qed
qed

subsection \<open>Strings\<close>

text \<open>The escape of a code below 256 that has one.\<close>

definition escape :: "nat \<Rightarrow> string" where
  "escape n =
     (if n = 34 then [CHR 0x5C, CHR 0x22]
      else if n = 92 then [CHR 0x5C, CHR 0x5C]
      else if n = 8 then [CHR 0x5C, CHR ''b'']
      else if n = 9 then [CHR 0x5C, CHR ''t'']
      else if n = 10 then [CHR 0x5C, CHR ''n'']
      else if n = 12 then [CHR 0x5C, CHR ''f'']
      else if n = 13 then [CHR 0x5C, CHR ''r'']
      else CHR 0x5C # ''u00'' @ [hex_digit (n div 16), hex_digit (n mod 16)])"

definition special :: "nat \<Rightarrow> bool" where
  "special n \<longleftrightarrow> n \<in> set ([0 ..< 32] @ [34, 92])"

lemma special_iff: "special n \<longleftrightarrow> n < 32 \<or> n = 34 \<or> n = 92"
  by (auto simp: special_def)

lemma json_char_escape: "json_char c = (if special (of_char c) then escape (of_char c) else [c])"
  by (auto simp: json_char_def escape_def special_iff Let_def)

lemma escapes_checked:
  "list_all (\<lambda>n. hd (escape n) = CHR 0x5C \<and> length (escape n) = (if escape n ! 1 = CHR ''u'' then 6 else 2))
     ([0 ..< 32] @ [34, 92])"
  by code_simp

lemma escapes_distinct: "distinct (map escape ([0 ..< 32] @ [34, 92]))"
  by code_simp

lemma escape_inj: "special n \<Longrightarrow> special m \<Longrightarrow> escape n = escape m \<Longrightarrow> n = m"
  using escapes_distinct unfolding distinct_map special_def by (blast dest: inj_onD)

lemma escape_shape:
  "special n \<Longrightarrow> hd (escape n) = CHR 0x5C \<and> length (escape n) = (if escape n ! 1 = CHR ''u'' then 6 else 2)"
  using escapes_checked unfolding list_all_iff special_def by blast

lemma backslash_special: "special (of_char (CHR 0x5C))" "special (of_char (CHR 0x22))"
  by (simp_all add: special_iff)

lemma json_char_head: "json_char c \<noteq> [] \<and> hd (json_char c) \<noteq> CHR 0x22"
proof (cases "special (of_char c)")
  case True
  then have "hd (escape (of_char c)) = CHR 0x5C" "length (escape (of_char c)) \<noteq> 0"
    using escape_shape [OF True] by (auto split: if_splits)
  then show ?thesis using True by (auto simp: json_char_escape)
next
  case False
  then show ?thesis using backslash_special by (auto simp: json_char_escape)
qed

lemma json_char_prefix:
  assumes "json_char c @ u = json_char d @ v"
  shows "c = d \<and> u = v"
proof -
  have heads: "hd (json_char c) = hd (json_char d)"
    using assms json_char_head [of c] json_char_head [of d] by (metis hd_append2)
  consider "special (of_char c)" "special (of_char d)" | "special (of_char c)" "\<not> special (of_char d)"
    | "\<not> special (of_char c)" "special (of_char d)" | "\<not> special (of_char c)" "\<not> special (of_char d)" by blast
  then show ?thesis
  proof cases
    case 1
    let ?c = "escape (of_char c)" and ?d = "escape (of_char d)"
    have eq: "?c @ u = ?d @ v" using assms 1 by (simp add: json_char_escape)
    note shape = escape_shape [OF 1(1)] escape_shape [OF 1(2)]
    have "1 < length ?c" "1 < length ?d" using shape by (simp_all split: if_splits)
    then have "?c ! 1 = ?d ! 1" using arg_cong [OF eq, of "\<lambda>z. z ! 1"] by (simp add: nth_append)
    then have "length ?c = length ?d" using shape by simp
    then have "?c = ?d" "u = v" using eq by simp_all
    then have "(of_char c :: nat) = of_char d" "u = v" using escape_inj [OF 1] by simp_all
    then show ?thesis by simp
  next
    case 2
    then have "d = CHR 0x5C" using heads escape_shape [OF 2(1)] by (simp add: json_char_escape)
    then show ?thesis using 2(2) backslash_special by simp
  next
    case 3
    then have "c = CHR 0x5C" using heads escape_shape [OF 3(2)] by (simp add: json_char_escape)
    then show ?thesis using 3(1) backslash_special by simp
  next
    case 4
    then show ?thesis using assms by (simp add: json_char_escape)
  qed
qed

lemma escaped_prefix:
  "concat (map json_char s) @ CHR 0x22 # x = concat (map json_char t) @ CHR 0x22 # y \<Longrightarrow> s = t \<and> x = y"
proof (induction s arbitrary: t)
  case Nil
  show ?case
  proof (cases t)
    case Nil
    then show ?thesis using Nil.prems by simp
  next
    case (Cons d t')
    then show ?thesis using Nil.prems json_char_head [of d] by (cases "json_char d") auto
  qed
next
  case (Cons c s')
  show ?case
  proof (cases t)
    case Nil
    then show ?thesis using Cons.prems json_char_head [of c] by (cases "json_char c") auto
  next
    case (Cons d t')
    have "json_char c @ (concat (map json_char s') @ CHR 0x22 # x) = json_char d @ (concat (map json_char t') @ CHR 0x22 # y)"
      using Cons.prems Cons by simp
    from json_char_prefix [OF this] have "c = d"
      "concat (map json_char s') @ CHR 0x22 # x = concat (map json_char t') @ CHR 0x22 # y" by simp_all
    then show ?thesis using Cons.IH [of t'] Cons by simp
  qed
qed

lemma quote_prefix: "json_quote s @ x = json_quote t @ y \<Longrightarrow> s = t \<and> x = y"
  using escaped_prefix [of s x t y] by (simp add: json_quote_def)

subsection \<open>Sequences\<close>

lemma joined_prefix:
  assumes part: "\<And>a b x y. a \<in> set xs \<Longrightarrow> e a @ x = f b @ y \<Longrightarrow> ends x \<Longrightarrow> ends y \<Longrightarrow> P b \<Longrightarrow> R a b \<and> x = y"
    and head: "\<And>a. a \<in> set xs \<Longrightarrow> e a \<noteq> [] \<and> hd (e a) \<noteq> c" "\<And>b. P b \<Longrightarrow> f b \<noteq> [] \<and> hd (f b) \<noteq> c"
    and c: "c \<in> set '']}''" and P: "list_all P ys"
    and eq: "join_with '','' (map e xs) @ c # x = join_with '','' (map f ys) @ c # y"
  shows "list_all2 R xs ys \<and> x = y"
  using part head(1) P eq
proof (induction xs arbitrary: ys)
  case Nil
  show ?case
  proof (cases ys)
    case Nil
    then show ?thesis using Nil.prems by simp
  next
    case (Cons b bs)
    then have "f b \<noteq> [] \<and> hd (f b) \<noteq> c" using Nil.prems(3) head(2) by simp
    then show ?thesis using Nil.prems(4) Cons by (cases bs; cases "f b") auto
  qed
next
  case (Cons a as)
  have a: "e a \<noteq> [] \<and> hd (e a) \<noteq> c" using Cons.prems(2) by simp
  show ?case
  proof (cases ys)
    case Nil
    then show ?thesis using Cons.prems(4) a by (cases as; cases "e a") auto
  next
    case ys: (Cons b bs)
    define u where "u = (if as = [] then c # x else CHR '','' # join_with '','' (map e as) @ c # x)"
    define v where "v = (if bs = [] then c # y else CHR '','' # join_with '','' (map f bs) @ c # y)"
    have "e a @ u = f b @ v"
      using Cons.prems(4) unfolding ys u_def v_def by (cases as; cases bs) simp_all
    moreover have "ends u" "ends v" using c by (auto simp: u_def v_def)
    ultimately have ab: "R a b" "u = v" using Cons.prems(1) [of a u b v] Cons.prems(3) ys by auto
    have "as = [] \<longleftrightarrow> bs = []" using ab(2) c by (auto simp: u_def v_def split: if_splits)
    show ?thesis
    proof (cases "as = []")
      case True
      then show ?thesis using ab \<open>as = [] \<longleftrightarrow> bs = []\<close> ys by (simp add: u_def v_def)
    next
      case False
      then have "join_with '','' (map e as) @ c # x = join_with '','' (map f bs) @ c # y"
        using ab(2) \<open>as = [] \<longleftrightarrow> bs = []\<close> by (simp add: u_def v_def)
      moreover have "list_all P bs" using Cons.prems(3) ys by simp
      ultimately show ?thesis using Cons.IH [of bs] Cons.prems(1,2) ab(1) ys by auto
    qed
  qed
qed

section \<open>Values\<close>

text \<open>The values that the digests are taken of.\<close>

fun encodable :: "js \<Rightarrow> bool" where
  "encodable JUndef = False"
| "encodable (JNum n) = (case n of Fin r \<Rightarrow> r = of_int (floor r) | _ \<Rightarrow> False)"
| "encodable (JArr xs) = (\<forall>v \<in> set xs. encodable v)"
| "encodable (JObj fs) = (\<forall>f \<in> set fs. encodable (snd f))"
| "encodable v = True"

text \<open>A value with the entries of every object in key order, and its text.\<close>

fun sorted_js :: "js \<Rightarrow> js" where
  "sorted_js (JArr xs) = JArr (map sorted_js xs)"
| "sorted_js (JObj fs) = JObj (sort_key fst (map (\<lambda>(k, v). (k, sorted_js v)) fs))"
| "sorted_js v = v"

fun plain_text :: "js \<Rightarrow> string" where
  "plain_text (JArr xs) = ''['' @ join_with '','' (map plain_text xs) @ '']''"
| "plain_text (JObj fs) = ''{'' @ join_with '','' (map (\<lambda>(k, v). json_quote k @ '':'' @ plain_text v) fs) @ ''}''"
| "plain_text v = json_text v"

lemma sort_entries: "sort_key fst (map (\<lambda>(k, v). (k, g v)) fs) = map (\<lambda>(k, v). (k, g v)) (sort_key fst fs)"
proof (induction fs)
  case (Cons a fs)
  have "insort_key fst (case a of (k, v) \<Rightarrow> (k, g v)) (map (\<lambda>(k, v). (k, g v)) ys) =
      map (\<lambda>(k, v). (k, g v)) (insort_key fst a ys)" for ys
    by (induction ys) (auto split: prod.splits)
  then show ?case using Cons by simp
qed simp

lemma canonical_is_plain: "canonicalJson v = plain_text (sorted_js v)"
proof (induction v rule: canonicalJson.induct)
  case (2 fs)
  have "canonicalJson (snd f) = plain_text (sorted_js (snd f))" if "f \<in> set fs" for f
    using 2 [OF that, of "fst f" "snd f"] by simp
  then have "map (\<lambda>(k, v). json_quote k @ '':'' @ canonicalJson v) (sort_key fst fs) =
      map (\<lambda>(k, v). json_quote k @ '':'' @ plain_text (sorted_js v)) (sort_key fst fs)"
    by (intro map_cong) (auto simp: case_prod_unfold)
  then show ?case
    unfolding canonicalJson.simps sorted_js.simps plain_text.simps sort_entries
    unfolding map_map comp_def case_prod_unfold fst_conv snd_conv
    by (rule arg_cong [where f = "\<lambda>z. ''{'' @ join_with '','' z @ ''}''"])
qed (simp_all cong: map_cong)

lemma sorted_encodable: "encodable (sorted_js v) = encodable v"
  by (induction v rule: sorted_js.induct) (auto simp: image_iff split_beta)

text \<open>The first character of a text tells the constructor.\<close>

definition begins :: "js \<Rightarrow> char \<Rightarrow> bool" where
  "begins v c \<longleftrightarrow>
     (case v of JNull \<Rightarrow> c = CHR ''n'' | JBool b \<Rightarrow> c = (if b then CHR ''t'' else CHR ''f'')
              | JNum _ \<Rightarrow> c = CHR ''-'' \<or> is_digit c | JStr _ \<Rightarrow> c = CHR 0x22
              | JArr _ \<Rightarrow> c = CHR ''['' | JObj _ \<Rightarrow> c = CHR ''{'' | JUndef \<Rightarrow> False)"

lemma num_begins: "encodable (JNum n) \<Longrightarrow> \<exists>i. n = Fin (of_int i)"
  by (cases n) auto

lemma text_begins: "encodable v \<Longrightarrow> plain_text v \<noteq> [] \<and> begins v (hd (plain_text v))"
proof (cases v)
  case (JNum n)
  assume "encodable v"
  then obtain i where n: "n = Fin (of_int i)" using num_begins JNum by blast
  have "nat_str m \<noteq> [] \<and> is_digit (hd (nat_str m))" for m
    using nat_str_digits [of m] by (cases "nat_str m") auto
  then show ?thesis unfolding JNum n begins_def by (simp add: json_text_def int_text del: num_str.simps)
qed (auto simp: begins_def json_text_def json_quote_def)

lemma begins_unique:
  assumes "encodable v" "encodable w" "plain_text v @ x = plain_text w @ y"
  shows "begins w (hd (plain_text v))"
  using assms text_begins [OF assms(1)] text_begins [OF assms(2)] by (metis hd_append2)

theorem plain_text_prefix:
  "encodable v \<Longrightarrow> encodable w \<Longrightarrow> ends x \<Longrightarrow> ends y \<Longrightarrow> plain_text v @ x = plain_text w @ y \<Longrightarrow>
     v = w \<and> x = y"
proof (induction v arbitrary: w x y)
  case JUndef
  then show ?case by simp
next
  case JNull
  from begins_unique [OF JNull(1,2,5)] JNull show ?case
    by (cases w) (auto simp: begins_def json_text_def is_digit_def split: if_splits)
next
  case (JBool b)
  from begins_unique [OF JBool(1,2,5)] JBool show ?case
    by (cases w) (auto simp: begins_def json_text_def is_digit_def split: if_splits)
next
  case (JNum n)
  obtain i where n: "n = Fin (of_int i)" using num_begins JNum(1) by blast
  have "begins (JNum n) (hd (plain_text (JNum n)))" using text_begins [OF JNum(1)] by simp
  then have head: "hd (plain_text (JNum n)) = CHR ''-'' \<or> is_digit (hd (plain_text (JNum n)))" by (simp add: begins_def)
  from begins_unique [OF JNum(1,2,5)] head obtain m where w: "w = JNum m"
    by (cases w) (auto simp: begins_def is_digit_def split: if_splits)
  obtain j where m: "m = Fin (of_int j)" using num_begins JNum(2) w by blast
  have "num_str (Fin (of_int i)) @ x = num_str (Fin (of_int j)) @ y"
    using JNum(5) unfolding w n m by (simp add: json_text_def del: num_str.simps)
  from int_prefix [OF this JNum(3,4)] show ?case unfolding w n m by simp
next
  case (JStr s)
  from begins_unique [OF JStr(1,2,5)] obtain t where w: "w = JStr t"
    by (cases w) (auto simp: begins_def json_text_def json_quote_def is_digit_def split: if_splits)
  show ?case using JStr(5) quote_prefix [of s x t y] unfolding w by (simp add: json_text_def)
next
  case (JArr vs)
  from begins_unique [OF JArr(2,3,6)] obtain ws where w: "w = JArr ws"
    by (cases w) (auto simp: begins_def is_digit_def split: if_splits)
  have "list_all2 (=) vs ws \<and> x = y"
  proof (rule joined_prefix [where e = plain_text and f = plain_text and P = encodable and c = "CHR '']''"])
    show "a = b \<and> x = y" if "a \<in> set vs" "plain_text a @ x = plain_text b @ y" "ends x" "ends y" "encodable b" for a b x y
      using JArr.IH [OF that(1) _ that(5,3,4,2)] JArr(2) that(1) by simp
    show "plain_text a \<noteq> [] \<and> hd (plain_text a) \<noteq> CHR '']''" if "a \<in> set vs" for a
      using text_begins [of a] JArr(2) that by (cases a) (auto simp: begins_def is_digit_def split: if_splits)
    show "plain_text b \<noteq> [] \<and> hd (plain_text b) \<noteq> CHR '']''" if "encodable b" for b
      using text_begins [OF that] by (cases b) (auto simp: begins_def is_digit_def split: if_splits)
    show "join_with '','' (map plain_text vs) @ CHR '']'' # x = join_with '','' (map plain_text ws) @ CHR '']'' # y"
      using JArr(6) unfolding w by simp
    show "list_all encodable ws" using JArr(3) unfolding w by (simp add: list_all_iff)
  qed simp
  then show ?case unfolding w by (simp add: list_all2_eq)
next
  case (JObj fs)
  from begins_unique [OF JObj(2,3,6)] obtain gs where w: "w = JObj gs"
    by (cases w) (auto simp: begins_def is_digit_def split: if_splits)
  let ?e = "\<lambda>f. json_quote (fst f) @ '':'' @ plain_text (snd f)"
  have "list_all2 (=) fs gs \<and> x = y"
  proof (rule joined_prefix [where e = ?e and f = ?e and P = "\<lambda>f. encodable (snd f)" and c = "CHR ''}''"])
    show "a = b \<and> x = y" if "a \<in> set fs" "?e a @ x = ?e b @ y" "ends x" "ends y" "encodable (snd b)" for a b x y
    proof -
      have "fst a = fst b" "'':'' @ plain_text (snd a) @ x = '':'' @ plain_text (snd b) @ y"
        using quote_prefix [of "fst a" "'':'' @ plain_text (snd a) @ x" "fst b" "'':'' @ plain_text (snd b) @ y"] that(2)
        by simp_all
      then have "plain_text (snd a) @ x = plain_text (snd b) @ y" by simp
      moreover have "snd a \<in> Basic_BNFs.snds a" by (cases a) simp
      moreover have "encodable (snd a)" using JObj(2) that(1) by simp
      ultimately have "snd a = snd b \<and> x = y" using JObj.IH [OF that(1) _ _ that(5,3,4)] by metis
      then show ?thesis using \<open>fst a = fst b\<close> by (simp add: prod_eq_iff)
    qed
    show "?e a \<noteq> [] \<and> hd (?e a) \<noteq> CHR ''}''" for a by (simp add: json_quote_def)
    then show "?e a \<noteq> [] \<and> hd (?e a) \<noteq> CHR ''}''" for a .
    show "join_with '','' (map ?e fs) @ CHR ''}'' # x = join_with '','' (map ?e gs) @ CHR ''}'' # y"
      using JObj(6) unfolding w by (simp add: case_prod_unfold)
    show "list_all (\<lambda>f. encodable (snd f)) gs" using JObj(3) unfolding w by (simp add: list_all_iff)
  qed simp
  then show ?case unfolding w by (simp add: list_all2_eq)
qed

lemma canonical_faithful:
  assumes "encodable v" "encodable w"
  shows "canonicalJson v = canonicalJson w \<longleftrightarrow> sorted_js v = sorted_js w"
  using plain_text_prefix [of "sorted_js v" "sorted_js w" "[]" "[]"] assms
  by (auto simp: canonical_is_plain sorted_encodable)

section \<open>Reading a sorted object\<close>

lemma map_of_insort:
  "fst p \<notin> fst ` set xs \<Longrightarrow> map_of (insort_key fst p xs) = (map_of xs)(fst p \<mapsto> snd p)"
  by (induction xs) (auto simp: fun_eq_iff)

lemma map_of_sort: "distinct (map fst xs) \<Longrightarrow> map_of (sort_key fst xs) = map_of xs"
  by (induction xs) (simp_all add: map_of_insort fun_eq_iff)

lemma sorted_read:
  assumes "sorted_js (JObj fs) = sorted_js (JObj gs)" "distinct (map fst fs)" "distinct (map fst gs)"
  shows "sorted_js (fget fs k) = sorted_js (fget gs k)"
proof -
  have read: "fget (sort_key fst (map (\<lambda>(k, v). (k, sorted_js v)) hs)) k = sorted_js (fget hs k)"
    if "distinct (map fst hs)" for hs
  proof -
    have "map_of (map (\<lambda>(k, v). (k, sorted_js v)) (sort_key fst hs)) k = map_option sorted_js (map_of hs k)"
      using map_of_map [of sorted_js "sort_key fst hs"] map_of_sort [OF that] by simp
    then show ?thesis by (simp only: fget_def sort_entries) (simp split: option.split)
  qed
  show ?thesis using assms(1) read [OF assms(2)] read [OF assms(3)] by simp
qed

section \<open>Requirement records\<close>

lemma stable_is_canonical: "encodable v \<Longrightarrow> stableSerialize v = canonicalJson v"
proof (induction v rule: stableSerialize.induct)
  case (2 xs)
  then have m: "map stableSerialize xs = map canonicalJson xs" by simp
  show ?case by (simp only: stableSerialize.simps canonicalJson.simps m)
next
  case (3 fs)
  have keep: "filter (\<lambda>(k, v). v \<noteq> JUndef) fs = fs"
    using 3(2) by (intro filter_True) auto
  have "map (\<lambda>(k, v). (k, stableSerialize v)) fs = map (\<lambda>(k, v). (k, canonicalJson v)) fs"
  proof (rule map_cong [OF refl])
    fix f assume f: "f \<in> set fs"
    then have "f \<in> set (filter (\<lambda>(k, v). v \<noteq> JUndef) fs)" by (simp only: keep)
    with f show "(case f of (k, v) \<Rightarrow> (k, stableSerialize v)) = (case f of (k, v) \<Rightarrow> (k, canonicalJson v))"
      using 3(1) [of f "fst f" "snd f"] 3(2) by (simp add: case_prod_unfold)
  qed
  then show ?case by (simp only: stableSerialize.simps canonicalJson.simps keep)
qed simp_all

lemma digest_encodable [simp]: "encodable (digest_js d)"
  by (simp add: digest_js_def)

lemma subject_encodable [simp]: "encodable (subjectIdentity s)"
  by (simp add: subjectIdentity_def)

lemma requirement_encodable [simp]: "encodable (requirement_js q)"
  by (simp add: requirement_js_def Let_def split: requirement_kind.split)

lemma digest_identified: "sorted_js (digest_js a) = sorted_js (digest_js b) \<Longrightarrow> a = b"
  using sorted_read [where k = "''algorithm''"] sorted_read [where k = "''value''"]
  by (fastforce simp: digest_js_def fget_def)

lemma subject_identified: "sorted_js (subjectIdentity a) = sorted_js (subjectIdentity b) \<Longrightarrow> a = b"
proof -
  assume eq: "sorted_js (subjectIdentity a) = sorted_js (subjectIdentity b)"
  let ?f = "\<lambda>s. [(''kind'', JStr (subject_kind_str (su_kind s))),
      (subject_field (su_kind s), JStr (su_identity s)), (''digest'', digest_js (su_digest s))]"
  have dist: "distinct (map fst (?f s))" for s by (cases "su_kind s") (simp_all add: subject_field_def)
  have read: "sorted_js (fget (?f a) k) = sorted_js (fget (?f b) k)" for k
    by (rule sorted_read [OF eq [unfolded subjectIdentity_def] dist dist])
  have "su_kind a = su_kind b"
    using read [of "''kind''"] by (cases "su_kind a"; cases "su_kind b") (simp_all add: fget_def subject_kind_str_def)
  moreover from this have "su_identity a = su_identity b"
    using read [of "subject_field (su_kind a)"] by (cases "su_kind b") (simp_all add: fget_def subject_field_def)
  moreover have "su_digest a = su_digest b"
    using read [of "''digest''"] digest_identified
    by (cases "su_kind a"; cases "su_kind b") (simp_all add: fget_def subject_field_def)
  ultimately show "a = b" by simp
qed

text \<open>The keys of a requirement record, which its kind fixes.\<close>

definition requirement_fields :: "requirement \<Rightarrow> fields" where
  "requirement_fields q = (case requirement_js q of JObj fs \<Rightarrow> fs | _ \<Rightarrow> [])"

lemma requirement_is_fields: "requirement_js q = JObj (requirement_fields q)"
  by (simp add: requirement_fields_def requirement_js_def Let_def split: requirement_kind.split)

lemma requirement_fields_distinct: "distinct (map fst (requirement_fields q))"
  by (simp add: requirement_fields_def requirement_js_def Let_def split: requirement_kind.split)

lemma requirement_reads:
  "fget (requirement_fields q) ''requirementId'' = JStr (rq_id q)"
  "fget (requirement_fields q) ''phaseAttemptId'' = JStr (rq_attempt q)"
  "fget (requirement_fields q) ''subject'' = subjectIdentity (rq_subject q)"
  "fget (requirement_fields q) ''gateId'' =
     (case rq_kind q of GateEvidenceRequirement g \<Rightarrow> JStr g | _ \<Rightarrow> JUndef)"
  "fget (requirement_fields q) ''approvalClass'' =
     (case rq_kind q of ApprovalRequirement c n \<Rightarrow> JStr c | _ \<Rightarrow> JUndef)"
  "fget (requirement_fields q) ''minimumApprovals'' =
     (case rq_kind q of ApprovalRequirement c n \<Rightarrow> JInt (int n) | _ \<Rightarrow> JUndef)"
  "fget (requirement_fields q) ''sourceRequirementId'' =
     (case rq_kind q of CorroborationRequirement s n \<Rightarrow> JStr s | _ \<Rightarrow> JUndef)"
  "fget (requirement_fields q) ''minimumIndependentSources'' =
     (case rq_kind q of CorroborationRequirement s n \<Rightarrow> JInt (int n) | _ \<Rightarrow> JUndef)"
  by (simp_all add: requirement_fields_def requirement_js_def fget_def Let_def split: requirement_kind.split)

lemma requirement_identified:
  assumes "sorted_js (requirement_js a) = sorted_js (requirement_js b)"
  shows "a = b"
proof -
  have read: "sorted_js (fget (requirement_fields a) k) = sorted_js (fget (requirement_fields b) k)" for k
    using assms unfolding requirement_is_fields
    by (rule sorted_read [OF _ requirement_fields_distinct requirement_fields_distinct])
  have "rq_id a = rq_id b" "rq_attempt a = rq_attempt b" "rq_subject a = rq_subject b"
    using read [of "''requirementId''"] read [of "''phaseAttemptId''"] read [of "''subject''"] subject_identified
    unfolding requirement_reads by simp_all
  moreover have "rq_kind a = rq_kind b"
    using read [of "''gateId''"] read [of "''approvalClass''"] read [of "''minimumApprovals''"]
      read [of "''sourceRequirementId''"] read [of "''minimumIndependentSources''"]
    unfolding requirement_reads by (cases "rq_kind a"; cases "rq_kind b") simp_all
  ultimately show "a = b" by simp
qed

lemma requirements_identified:
  assumes "map sorted_js (map requirement_js rs) = map sorted_js (map requirement_js rs')"
  shows "rs = rs'"
  using assms
proof (induction rs arbitrary: rs')
  case (Cons r rs)
  then show ?case by (cases rs') (auto dest: requirement_identified)
qed simp

text \<open>
  C17: The texts that the digests and the contradiction check of admission compare identify what they
  stand for. Two requirement records serialize alike exactly when they are the same record, so the
  replay reports a contradiction exactly for two different records under one id; and the canonical
  texts of two requirement lists are equal exactly when the lists are, so two different frozen sets
  have one digest only if the hash collides on two different texts.
\<close>

theorem requirement_texts_identify:
  "(serialized q = serialized q' \<longleftrightarrow> q = q') \<and>
   (canonicalJson (JArr (map requirement_js rs)) = canonicalJson (JArr (map requirement_js rs')) \<longleftrightarrow> rs = rs')"
proof (intro conjI)
  have "serialized q = serialized q' \<longleftrightarrow> sorted_js (requirement_js q) = sorted_js (requirement_js q')"
    unfolding serialized_def by (simp add: stable_is_canonical canonical_faithful)
  then show "serialized q = serialized q' \<longleftrightarrow> q = q'" using requirement_identified by auto
  have "encodable (JArr (map requirement_js xs))" for xs by simp
  then have "canonicalJson (JArr (map requirement_js rs)) = canonicalJson (JArr (map requirement_js rs')) \<longleftrightarrow>
      map sorted_js (map requirement_js rs) = map sorted_js (map requirement_js rs')"
    by (simp only: canonical_faithful sorted_js.simps js.inject)
  then show "canonicalJson (JArr (map requirement_js rs)) = canonicalJson (JArr (map requirement_js rs')) \<longleftrightarrow> rs = rs'"
    using requirements_identified by auto
qed

end
