(* ===== verification/Command_Laws.thy ===== *)
theory Command_Laws
  imports Transition_Command Canonical_Json Append_Laws Edge_Laws Admission_Laws
begin

text \<open>
  What the admission chokepoint promises: a decision is recorded for every admitted or refused attempt,
  in one transaction with the lifecycle event that only an allow brings; the phase moves only along the
  selected edge and only when every requirement is discharged or waived; and a retry of an operation
  writes nothing.
\<close>

section \<open>Operations decided once\<close>

lemma once_error_keeps: "decideOnce busy st i digest closure dl d = (Inl e, d') \<Longrightarrow> d' = d"
  by (auto simp: decideOnce_def split: if_splits option.splits sum.splits prod.splits)

lemma once_ids: "decideOnce busy st i digest closure dl d = (Inr res, d') \<Longrightarrow> i \<noteq> '''' \<and> digest \<noteq> ''''"
  by (auto simp: decideOnce_def split: if_splits)

text \<open>The claim and the rows that a committed operation leaves.\<close>

lemma once_commit:
  assumes inv: "db_inv d" and free: "lookupOperationClaim dl i = None" "lookupOperationClaim d i = None"
    and run: "decideOnce busy st i digest closure dl d = (Inr res, d')"
  defines "od \<equiv> closure d"
  defines "es \<equiv> persist (od_stream od) None st (od_events od) (gate d (od_stream od))"
  shows "json_clone (od_result od) = Some res"
    and "rows_of d' (od_stream od) = rows_of d (od_stream od) @ es"
    and "\<And>t. t \<noteq> od_stream od \<Longrightarrow> rows_of d' t = rows_of d t"
    and "when_given (od_expected od) (\<lambda>x. gate d (od_stream od) = x)"
    and "gate d' (od_stream od) = gate d (od_stream od) + length (od_events od)"
    and "\<exists>c. lookupOperationClaim d' i = Some c \<and> oc_digest c = digest \<and> oc_result c = res"
    and "db_inv d'"
    and "\<And>j. j \<noteq> i \<Longrightarrow> lookupOperationClaim d' j = lookupOperationClaim d j"
proof -
  let ?s = "od_stream od" and ?n = "length (od_events od)"
  let ?d1 = "upsertSequence ?s (gate d ?s + ?n) d"
  let ?dec = "\<lambda>x. to_decision st (closure x)"
  obtain out where at: "atomicDecideOnce busy i digest ?dec d = Inr (out, d')" "res = oc_result (on_claim out)"
    using run free once_ids [OF run] by (auto simp: decideOnce_def split: sum.splits prod.splits)
  then have txn: "decide_once_txn i digest ?dec d = Inr (out, d')"
    by (auto simp: atomicDecideOnce_def with_busy_retry_cases split: if_splits)
  then show gate: "when_given (od_expected od) (\<lambda>x. gate d ?s = x)"
    using free by (auto simp: decide_once_txn_def Let_def allocateSequence_def to_decision_def od_def split: if_splits)
  have "\<exists>d2. json_clone (od_result od) = Some (oc_result (on_claim out)) \<and> oc_digest (on_claim out) = digest \<and>
      insertClaim DECIDE_ONCE_CLAIM_STREAM i (OperationClaim (on_claim out)) ?d1 = Inr d2 \<and>
      insert_rows ?s es d2 = Inr d'"
    using txn free gate
    by (auto simp: decide_once_txn_def Let_def allocateSequence_def to_decision_def od_def es_def bind_result_def
        split: if_splits option.splits sum.splits)
  then obtain d2 where w: "json_clone (od_result od) = Some (oc_result (on_claim out))"
    and c: "oc_digest (on_claim out) = digest"
    and ins: "insertClaim DECIDE_ONCE_CLAIM_STREAM i (OperationClaim (on_claim out)) ?d1 = Inr d2"
    and rows: "insert_rows ?s es d2 = Inr d'" by blast
  then show "json_clone (od_result od) = Some res" using at(2) by simp
  have d2: "d2 = ?d1\<lparr>db_claims := AList.update (DECIDE_ONCE_CLAIM_STREAM, i) (OperationClaim (on_claim out)) (db_claims ?d1)\<rparr>"
    using ins by (auto simp: insertClaim_def split: if_splits)
  have same: "rows_of d2 t = rows_of d t" "gate d2 t = gate ?d1 t" for t
    unfolding d2 by (simp_all add: rows_of_def readSequenceHighWaterMark_def upsertSequence_def)
  have num: "numbered (gate d ?s) ?n es" unfolding es_def by (rule persist_numbered)
  have below: "\<forall>x \<in> set (rows_of d2 ?s). we_sequence x \<le> gate d ?s" using inv by (simp add: same db_inv_def)
  from insert_rows_above [OF below num] rows have d': "rows_of d' ?s = rows_of d ?s @ es"
    "\<forall>t. t \<noteq> ?s \<longrightarrow> rows_of d' t = rows_of d t" "\<forall>t. gate d' t = gate d2 t" "db_claims d' = db_claims d2"
    by (auto simp: same)
  then show "rows_of d' ?s = rows_of d ?s @ es" "\<And>t. t \<noteq> ?s \<Longrightarrow> rows_of d' t = rows_of d t"
    "gate d' ?s = gate d ?s + ?n" by (simp_all add: same)
  show "\<exists>c. lookupOperationClaim d' i = Some c \<and> oc_digest c = digest \<and> oc_result c = res"
    using d'(4) c w at(2) by (intro exI [of _ "on_claim out"]) (simp add: lookupOperationClaim_def d2)
  show "lookupOperationClaim d' j = lookupOperationClaim d j" if "j \<noteq> i" for j
    using d'(4) that by (simp add: lookupOperationClaim_def d2 upsertSequence_def)
  have gates: "gate d' t = (if t = ?s then gate d ?s + ?n else gate d t)" for t using d'(3) by (simp add: same)
  have "seq_sorted (rows_of d ?s @ es) \<and> (\<forall>x \<in> set (rows_of d ?s @ es). we_sequence x \<le> gate d ?s + ?n)"
    using inv numbered_sorted [OF num] numbered_bounds [OF num]
    by (fastforce simp: seq_sorted_def sorted_wrt_append db_inv_def intro: trans_le_add1)
  then show "db_inv d'" using inv d'(1,2) gates unfolding db_inv_def by (metis (no_types, lifting))
qed

text \<open>A first call with the lock free commits when the gate is at the expected sequence, and is refused otherwise.\<close>

lemma once_first:
  assumes inv: "db_inv d" and free: "lookupOperationClaim dl i = None" "map_of (db_claims d) (DECIDE_ONCE_CLAIM_STREAM, i) = None"
    and ids: "i \<noteq> ''''" "digest \<noteq> ''''" and lock: "\<not> lock_held busy"
    and od: "od_stream (closure d) \<noteq> ''''" "od_events (closure d) \<noteq> []" "json_plain (od_result (closure d))"
      "od_expected (closure d) = Some n"
  shows "if gate d (od_stream (closure d)) = n
    then \<exists>d'. decideOnce busy st i digest closure dl d = (Inr (od_result (closure d)), d')
    else decideOnce busy st i digest closure dl d =
      (Inl (ConcurrencyError (od_stream (closure d)) ''decideOnce'' n (gate d (od_stream (closure d))) (Some i)), d)"
proof -
  let ?od = "closure d"
  let ?s = "od_stream ?od" and ?m = "length (od_events ?od)"
  let ?es = "persist ?s None st (od_events ?od) (gate d ?s)"
  let ?d1 = "upsertSequence ?s (gate d ?s + ?m) d"
  let ?dec = "\<lambda>x. to_decision st (closure x)"
  have none: "lookupOperationClaim d i = None" using free(2) by (simp add: lookupOperationClaim_def)
  have busy: "atomicDecideOnce busy i digest ?dec d = decide_once_txn i digest ?dec d"
    using lock by (auto simp: atomicDecideOnce_def with_busy_retry_cases)
  show ?thesis
  proof (cases "gate d ?s = n")
    case True
    have alloc: "allocateSequence ?s ?m (od_expected ?od) d = Inr (gate d ?s, ?d1)"
      using True od(4) by (simp add: allocateSequence_def when_given_def Let_def)
    have "\<exists>d2. insertClaim DECIDE_ONCE_CLAIM_STREAM i (OperationClaim c) ?d1 = Inr d2 \<and> (\<forall>t. rows_of d2 t = rows_of d t)" for c
      using free(2) by (simp add: insertClaim_def rows_of_def upsertSequence_def)
    moreover have "\<exists>d3. insert_rows ?s ?es d2 = Inr d3" if "\<forall>t. rows_of d2 t = rows_of d t" for d2
    proof -
      have "\<forall>x \<in> set (rows_of d2 ?s). we_sequence x \<le> gate d ?s" using inv that by (simp add: db_inv_def)
      from insert_rows_above [OF this persist_numbered] show ?thesis by blast
    qed
    ultimately have ins: "\<exists>d2 d3. insertClaim DECIDE_ONCE_CLAIM_STREAM i (OperationClaim c) ?d1 = Inr d2 \<and>
        insert_rows ?s ?es d2 = Inr d3" for c by meson
    have "\<exists>out d'. decide_once_txn i digest ?dec d = Inr (out, d') \<and> oc_result (on_claim out) = od_result ?od"
    proof -
      let ?c = "\<lparr>oc_stream = ?s, oc_digest = digest, oc_result = od_result ?od,
          oc_eventIds = map (\<lambda>e. text_or_none (we_eventId e)) ?es, oc_sequences = map we_sequence ?es,
          oc_timestamps = map we_timestamp ?es\<rparr>"
      obtain d2 d3 where "insertClaim DECIDE_ONCE_CLAIM_STREAM i (OperationClaim ?c) ?d1 = Inr d2"
        "insert_rows ?s ?es d2 = Inr d3" using ins by blast
      then show ?thesis
        using none od(1,2) alloc plain_clone [OF od(3)] by (simp add: decide_once_txn_def to_decision_def Let_def)
    qed
    then show ?thesis using True ids free(1) busy by (auto simp: decideOnce_def)
  next
    case False
    have "decide_once_txn i digest ?dec d = Inl (SequenceGateConflict n (gate d ?s))"
      using none od(1,2,4) False
      by (simp add: decide_once_txn_def to_decision_def Let_def allocateSequence_def when_given_def or_zero_def)
    then show ?thesis using False ids free(1) busy by (simp add: decideOnce_def once_error_def)
  qed
qed

text \<open>After a success, fresh or repeated, the claim of the operation holds its digest and its result.\<close>

lemma once_claim:
  assumes "decideOnce busy st i digest closure d d = (Inr res, d')"
  shows "\<exists>c. lookupOperationClaim d' i = Some c \<and> oc_digest c = digest \<and> oc_result c = res"
proof (cases "lookupOperationClaim d i")
  case (Some c)
  then show ?thesis using assms once_ids [OF assms] by (auto simp: decideOnce_def split: if_splits)
next
  case None
  then obtain out where "atomicDecideOnce busy i digest (\<lambda>x. to_decision st (closure x)) d = Inr (out, d')"
    "res = oc_result (on_claim out)"
    using assms once_ids [OF assms] by (auto simp: decideOnce_def split: sum.splits prod.splits)
  then show ?thesis
    using once_txn_claim by (auto simp: atomicDecideOnce_def with_busy_retry_cases split: if_splits)
qed

lemma once_repeat:
  assumes "decideOnce busy st i digest closure d d = (Inr res, d')" "digest' \<noteq> ''''"
    and "lookupOperationClaim d'' i = lookupOperationClaim d' i"
  shows "decideOnce busy' st' i digest' closure' d'' d'' =
    (if digest' = digest then Inr res else Inl (OperationDigestMismatch i digest digest'), d'')"
  using once_claim [OF assms(1)] once_ids [OF assms(1)] assms(2,3) by (auto simp: decideOnce_def)

section \<open>The prepared transition\<close>

lemma prepared:
  assumes "prepare_transition env inp = Inr p"
  shows "map ei_type (pt_events p) = ''admission.transition-decided'' #
      (if pe_verdict (pt_evaluation p) = VAllow then [''workflow.transition''] else [])"
    and "opt_get (ei_data (hd (pt_events p))) ''decision'' = decision_js (pt_decision p)"
    and "\<exists>resolved. resolveRequirements (ta_context (ti_admission inp)) = Inr resolved \<and>
      pt_evaluation p = evaluatePolicy (policy_input_of env (ti_admission inp) resolved (pt_frozen p))"
  using assms
  by (auto simp: prepare_transition_def Let_def bind_result_Inr_iff decisionEvent_def transitionLifecycleEvent_def
      plain_event_def opt_get_def split: if_splits)

lemma str_list_plain [simp]: "json_plain (str_list xs)"
  by (simp add: str_list_def)

lemma digest_plain [simp]: "json_plain (digest_js x)"
  by (simp add: digest_js_def)

lemma subject_plain [simp]: "json_plain (subjectIdentity x)"
  by (simp add: subjectIdentity_def)

lemma remediation_plain [simp]: "json_plain (remediation_js x)"
  by (simp add: remediation_js_def split: remediation.split)

lemma decision_plain [simp]: "json_plain (decision_js x)"
  by (auto simp: decision_js_def outcome_fields_def split: decision_outcome.split)

lemma decision_event_plain:
  "decisionEvent env d lc pv i = Inr e \<Longrightarrow> json_plain (ei_data e)"
  by (auto simp: decisionEvent_def plain_event_def principal_js_def snapshot_js_def split: if_splits)

lemma lifecycle_event_plain: "transitionLifecycleEvent lc i = Inr e \<Longrightarrow> json_plain (ei_data e)"
  by (auto simp: transitionLifecycleEvent_def plain_event_def split: if_splits)

lemma prepared_plain: "prepare_transition env inp = Inr p \<Longrightarrow> json_plain (ei_data (hd (pt_events p)))"
  by (auto simp: prepare_transition_def Let_def bind_result_Inr_iff dest: decision_event_plain split: if_splits)

lemma persist_Cons:
  "persist s key st (e # es) base = persist_one s key st base 0 e # map (\<lambda>(i, ev). persist_one s key st base i ev) (enumerate 1 es)"
  by (simp add: persist_def)

lemma persist_head: "events \<noteq> [] \<Longrightarrow> json_plain (ei_data (hd events)) \<Longrightarrow>
    we_data (hd (persist s key st events base)) = ei_data (hd events)"
  by (cases events) (simp_all add: persist_Cons persist_one_def stored_data_def plain_clone)

text \<open>A decided run in parts.\<close>

lemma decided_run:
  assumes "runTransitionCommand env busy st inp dl d = (Inr (TransitionDecided r), d')"
  shows "\<exists>edgeId index overlap matched p atomic.
    selectEdge (ti_candidates inp) (ti_facts inp) = Selected edgeId index overlap matched \<and>
    prepare_transition env inp = Inr p \<and> r = decided_result p edgeId index atomic \<and>
    decideOnce busy st (ti_operation inp) (transition_digest env inp edgeId index (pt_decision p))
      (transition_closure env inp p) dl d = (Inr atomic, d')"
  using assms by (auto simp: runTransitionCommand_def split: edge_selection.splits sum.splits prod.splits)

lemma closure_plain: "json_plain (od_result (transition_closure env inp p d))"
  by (simp add: transition_closure_def)

lemma fresh_run:
  assumes inv: "db_inv d" and free: "lookupOperationClaim dl (ti_operation inp) = None"
      "lookupOperationClaim d (ti_operation inp) = None"
    and run: "runTransitionCommand env busy st inp dl d = (Inr (TransitionDecided r), d')"
  shows "\<exists>edgeId index overlap matched p es.
    selectEdge (ti_candidates inp) (ti_facts inp) = Selected edgeId index overlap matched \<and>
    prepare_transition env inp = Inr p \<and>
    r = decided_result p edgeId index (od_result (transition_closure env inp p d)) \<and>
    es = persist (ti_stream inp) None st (pt_events p) (gate d (ti_stream inp)) \<and>
    gate d (ti_stream inp) = ti_expected inp \<and>
    rows_of d' (ti_stream inp) = rows_of d (ti_stream inp) @ es \<and>
    (\<forall>t. t \<noteq> ti_stream inp \<longrightarrow> rows_of d' t = rows_of d t)"
proof -
  obtain edgeId index overlap matched p atomic where
    sel: "selectEdge (ti_candidates inp) (ti_facts inp) = Selected edgeId index overlap matched"
    and prep: "prepare_transition env inp = Inr p" and r: "r = decided_result p edgeId index atomic"
    and once: "decideOnce busy st (ti_operation inp) (transition_digest env inp edgeId index (pt_decision p))
      (transition_closure env inp p) dl d = (Inr atomic, d')"
    using decided_run [OF run] by blast
  note c = once_commit [OF inv free once]
  have a: "atomic = od_result (transition_closure env inp p d)"
    using c(1) plain_clone [OF closure_plain [of env inp p d]] by simp
  have parts: "od_stream (transition_closure env inp p d) = ti_stream inp"
    "od_events (transition_closure env inp p d) = pt_events p"
    "od_expected (transition_closure env inp p d) = Some (ti_expected inp)"
    by (simp_all add: transition_closure_def)
  show ?thesis
    using sel prep r [unfolded a] c(2-4) unfolding parts
    by (intro exI [of _ edgeId] exI [of _ index] exI [of _ overlap] exI [of _ matched] exI [of _ p] exI) (simp add: when_given_def)
qed

lemma decided_simps:
  "td_outcome (decided_result p e k (od_result (transition_closure env inp p d))) = Admitted \<longleftrightarrow>
     pe_verdict (pt_evaluation p) = VAllow"
  "td_phaseChanged (decided_result p e k (od_result (transition_closure env inp p d))) =
     JBool (pe_verdict (pt_evaluation p) = VAllow)"
  "td_decision (decided_result p e k (od_result (transition_closure env inp p d))) = decision_js (pt_decision p)"
  by (cases "pe_verdict (pt_evaluation p)";
      simp add: decided_result_def transition_closure_def opt_get_def fget_def verdict_str_def)+

section \<open>What identifies a request\<close>

text \<open>The fields of the request and of the decision in it, whose keys are distinct.\<close>

definition request_fields :: "transition_input \<Rightarrow> string \<Rightarrow> nat \<Rightarrow> decision_record \<Rightarrow> fields" where
  "request_fields inp edgeId index decision =
     (let lc = ti_lifecycle inp in
      [(''operationId'', JStr (ti_operation inp)), (''streamId'', JStr (ti_stream inp)),
       (''expectedVersion'', JInt (int (ti_expected inp))), (''routeEdgeId'', JStr edgeId),
       (''routeIndex'', JInt (int index)),
       (''lifecycle'', JObj [(''from'', JStr (tl_from lc)), (''to'', JStr (tl_to lc)),
          (''trigger'', JStr (tl_trigger lc)), (''featureId'', JStr (tl_feature lc)),
          (''phaseAttemptId'', JStr (tl_attempt lc))]),
       (''decision'', decision_js decision)])"

definition request_text :: "transition_input \<Rightarrow> string \<Rightarrow> nat \<Rightarrow> decision_record \<Rightarrow> string" where
  "request_text inp edgeId index decision = canonicalJson (JObj (request_fields inp edgeId index decision))"

lemma transition_digest_text:
  "transition_digest env inp edgeId index d = ''sha256:'' @ env_sha env (request_text inp edgeId index d)"
  by (simp only: transition_digest_def request_text_def request_fields_def Let_def)

text \<open>The text of a command that reaches the appender.\<close>

definition command_text :: "command_env \<Rightarrow> transition_input \<Rightarrow> string option" where
  "command_text env inp =
     (case selectEdge (ti_candidates inp) (ti_facts inp) of
        Selected edgeId index _ _ \<Rightarrow>
          (case prepare_transition env inp of
             Inr p \<Rightarrow> Some (request_text inp edgeId index (pt_decision p)) | Inl _ \<Rightarrow> None)
      | _ \<Rightarrow> None)"

lemma str_list_encodable [simp]: "encodable (str_list xs)"
  by (simp add: str_list_def)

lemma remediation_encodable [simp]: "encodable (remediation_js x)"
  by (simp add: remediation_js_def split: remediation.split)

lemma decision_encodable [simp]: "encodable (decision_js x)"
  by (auto simp: decision_js_def outcome_fields_def split: decision_outcome.split)

lemma request_encodable: "encodable (JObj (request_fields inp edgeId index d))"
  by (simp add: request_fields_def Let_def)

lemma request_fields_distinct: "distinct (map fst (request_fields inp edgeId index d))"
  by (simp add: request_fields_def Let_def)

definition decision_fields :: "decision_record \<Rightarrow> fields" where
  "decision_fields d = (case decision_js d of JObj fs \<Rightarrow> fs | _ \<Rightarrow> [])"

lemma decision_is_fields: "decision_js d = JObj (decision_fields d)"
  by (simp add: decision_fields_def decision_js_def)

lemma decision_fields_distinct: "distinct (map fst (decision_fields d))"
  by (simp add: decision_fields_def decision_js_def outcome_fields_def split: decision_outcome.split)

lemma request_text_instant:
  assumes "request_text inp e k d = request_text inp' e' k' d'"
  shows "dr_decidedAt d = dr_decidedAt d'"
proof -
  have "sorted_js (JObj (request_fields inp e k d)) = sorted_js (JObj (request_fields inp' e' k' d'))"
    using assms canonical_faithful [OF request_encodable request_encodable] unfolding request_text_def by blast
  from sorted_read [OF this request_fields_distinct request_fields_distinct, of "''decision''"]
  have "sorted_js (JObj (decision_fields d)) = sorted_js (JObj (decision_fields d'))"
    by (simp add: request_fields_def fget_def Let_def decision_is_fields)
  from sorted_read [OF this decision_fields_distinct decision_fields_distinct, of "''decidedAt''"]
  show ?thesis by (simp add: decision_fields_def decision_js_def fget_def)
qed

section \<open>A sample command\<close>

text \<open>The hash of the samples is an argument: any function to texts of 64 hexadecimal digits.\<close>

definition hex64 :: "string \<Rightarrow> bool" where
  "hex64 v \<longleftrightarrow> length v = 64 \<and> list_all (\<lambda>c. c \<in> set ''abcdef0123456789'') v"

definition zeros :: string where
  "zeros = replicate 64 (CHR ''0'')"

definition ones :: string where
  "ones = replicate 64 (CHR ''1'')"

definition sample_env :: "(string \<Rightarrow> string) \<Rightarrow> command_env" where
  "sample_env h =
     \<lparr>env_sha = h, env_datetime = (\<lambda>s. s \<noteq> ''''), env_date = any_date,
      env_schemas = \<lparr>fs_resolution = (\<lambda>_. None), fs_evidence = (\<lambda>_. None), fs_decision = (\<lambda>_. None)\<rparr>\<rparr>"

definition zero_digest :: content_digest where
  "zero_digest = \<lparr>cd_algorithm = ''sha256'', cd_value = zeros\<rparr>"

definition task_subject :: evidence_subject where
  "task_subject = \<lparr>su_kind = TaskSubject, su_identity = ''t1'', su_digest = zero_digest\<rparr>"

definition merge_context :: "rat \<Rightarrow> requirement_context" where
  "merge_context n =
     \<lparr>rc_kind = MERGE, rc_risk = Tier Low, rc_boundary = NotTouching, rc_reliability = Reliable, rc_gates = [],
      rc_policy = \<lparr>minimumApprovals = n, waivable = True\<rparr>, rc_workflow = None, rc_depth = None\<rparr>"

definition sample_command :: "rat \<Rightarrow> evidence list \<Rightarrow> string \<Rightarrow> transition_input" where
  "sample_command n es instant =
     \<lparr>ti_stream = ''f'', ti_operation = ''op-1'', ti_expected = 0,
      ti_candidates = [\<lparr>ca_edgeId = ''go'', ca_condition = sample_condition\<lparr>cc_node := AllNode []\<rparr>\<rparr>],
      ti_facts = \<lparr>ef_fields = [], ef_events = []\<rparr>,
      ti_lifecycle = \<lparr>tl_attempt = ''a1'', tl_subject = task_subject,
        tl_from = ''merge-pending'', tl_to = ''completed'', tl_trigger = ''set'', tl_feature = ''f''\<rparr>,
      ti_admission = \<lparr>ta_context = merge_context n,
        ta_approvalClass = None, ta_active = es, ta_contradicted = [], ta_waivers = [],
        ta_authority = owner_authority, ta_evaluatedAt = instant, ta_horizon = 10, ta_policyId = ''p'',
        ta_policyVersion = ''1'', ta_policyDigest = zero_digest\<rparr>,
      ti_provenance = \<lparr>tp_caller = \<lparr>pr_kind = Operator, pr_id = ''ann'', pr_role = ''lead''\<rparr>,
        tp_authorization = \<lparr>as_authorizationId = ''auth'', as_posture = ''read-only'', as_capabilityIds = [],
          as_resolverVersion = ''1'', as_resolvedAt = ''now''\<rparr>\<rparr>\<rparr>"

lemma merge_resolved:
  "resolveRequirements (merge_context 0) =
     Inr \<lparr>rr_gates = [], rr_approvals = 0, rr_sources = 0, rr_waivable = True\<rparr>"
  "resolveRequirements (merge_context 1) =
     Inr \<lparr>rr_gates = [], rr_approvals = 1, rr_sources = 0, rr_waivable = True\<rparr>"
  by code_simp+

lemma sample_selected: "selectEdge (ti_candidates (sample_command n es t)) (ti_facts (sample_command n es t)) =
    Selected ''go'' 0 False [''go'']"
  unfolding sample_command_def transition_input.select_convs by code_simp

text \<open>The decision record of the sample without requirements.\<close>

definition plain_decision :: "string \<Rightarrow> string \<Rightarrow> string \<Rightarrow> decision_record" where
  "plain_decision v w t =
     \<lparr>dr_id = ''decision.'' @ take 40 w, dr_operation = ''op-1'', dr_attempt = ''a1'', dr_policyId = ''p'',
      dr_policyVersion = ''1'', dr_policyDigest = zero_digest,
      dr_setDigest = \<lparr>cd_algorithm = ''sha256'', cd_value = ones\<rparr>,
      dr_inputDigest = \<lparr>cd_algorithm = ''sha256'', cd_value = v\<rparr>, dr_evidenceIds = [], dr_waiverIds = [],
      dr_decidedAt = t, dr_outcome = AllowOutcome [] []\<rparr>"

lemma hex_samples: "hex64 zeros" "hex64 ones" "stable_id (''decision.'' @ take 40 ones)" "digest_ok zero_digest"
  by code_simp+

lemma plain_checks:
  "stable_id ''op-1''" "stable_id ''a1''" "stable_id ''p''" "stable_id ''t1''" "trimmed_text 128 ''1''" "js_trim ''1'' = ''1''"
  "digest_ok \<lparr>cd_algorithm = ''sha256'', cd_value = ones\<rparr>" "stable_id ''ann''" "stable_id ''lead''" "stable_id ''auth''"
  by code_simp+

lemma plain_decision_ok: "t \<noteq> '''' \<Longrightarrow> decision_ok (\<lambda>s. s \<noteq> '''') (plain_decision ones ones t)"
  by (simp add: decision_ok_def plain_decision_def outcome_ok_def plain_checks hex_samples(4)
      hex_samples(3) [simplified])

text \<open>A hash that marks one text.\<close>

definition mark :: "string \<Rightarrow> string \<Rightarrow> string" where
  "mark x s = (if s = x then zeros else ones)"

abbreviation plain_command :: "string \<Rightarrow> transition_input" where
  "plain_command t \<equiv> sample_command 0 [] t"

definition plain_request :: "string \<Rightarrow> string" where
  "plain_request t = request_text (plain_command t) ''go'' 0 (plain_decision ones ones t)"

text \<open>The other texts that the sample hashes are not requests.\<close>

lemma request_head: "hd (request_text inp e k d) = CHR ''{''"
  by (simp only: request_text_def canonicalJson.simps append.simps list.sel)

lemma not_requests:
  "canonicalJson (JArr []) \<noteq> request_text inp e k d" "''op-1'' @ v \<noteq> request_text inp e k d"
proof -
  have heads: "hd (canonicalJson (JArr [])) = CHR ''[''" "hd (''op-1'' @ v) = CHR ''o''" by simp_all
  show "canonicalJson (JArr []) \<noteq> request_text inp e k d"
  proof
    assume "canonicalJson (JArr []) = request_text inp e k d"
    from arg_cong [OF this, of hd] show False unfolding heads request_head by simp
  qed
  show "''op-1'' @ v \<noteq> request_text inp e k d"
  proof
    assume "''op-1'' @ v = request_text inp e k d"
    from arg_cong [OF this, of hd] show False unfolding heads request_head by simp
  qed
qed

lemma input_not_request:
  assumes "encodable (JObj fs)" "distinct (map fst fs)" "fget fs ''decision'' = JUndef"
  shows "canonicalJson (JObj fs) \<noteq> request_text inp e k d"
proof
  assume "canonicalJson (JObj fs) = request_text inp e k d"
  then have "sorted_js (JObj fs) = sorted_js (JObj (request_fields inp e k d))"
    unfolding request_text_def by (rule iffD1 [OF canonical_faithful [OF assms(1) request_encodable]])
  from sorted_read [OF this assms(2) request_fields_distinct, of "''decision''"] show False
    by (simp add: assms(3)) (simp add: request_fields_def fget_def Let_def decision_js_def)
qed

lemma plain_prepared:
  assumes "t \<noteq> ''''"
  shows "\<exists>p. prepare_transition (sample_env (mark (plain_request u))) (plain_command t) = Inr p \<and>
    pt_decision p = plain_decision ones ones t \<and> pe_verdict (pt_evaluation p) = VAllow"
proof -
  let ?env = "sample_env (mark (plain_request u))"
  let ?frozen = "\<lparr>rp_requirements = [], rp_digest = \<lparr>cd_algorithm = ''sha256'', cd_value = ones\<rparr>\<rparr>"
  let ?ev = "\<lparr>pe_verdict = VAllow, pe_evaluations = [], pe_failures = [], pe_waivers = []\<rparr>"
  let ?res = "\<lparr>rr_gates = [], rr_approvals = 0, rr_sources = 0, rr_waivable = True\<rparr>"
  let ?di = "\<lparr>di_operation = ''op-1'', di_attempt = ''a1'', di_evaluation = ?ev, di_frozen = ?frozen, di_waivable = True,
      di_policyId = ''p'', di_policyVersion = ''1'', di_policyDigest = zero_digest, di_evaluatedAt = t, di_horizon = 10\<rparr>"
  have frozen: "freezeRequirements (mark (plain_request u))
      \<lparr>fi_resolved = ?res, fi_attempt = ''a1'', fi_subject = task_subject, fi_approvalClass = None\<rparr> = Inr ?frozen"
    using not_requests(1) by (simp add: freezeRequirements_def approval_records_def corroboration_records_def Let_def mark_def
        plain_request_def del: canonicalJson.simps)
  have ev: "evaluatePolicy (policy_input_of ?env (ti_admission (plain_command t)) ?res ?frozen) = ?ev"
    by (simp add: evaluatePolicy_def policy_input_of_def Let_def List.map_filter_simps)
  have "input_digest_value (mark (plain_request u)) ?di = ones"
    unfolding input_digest_value_def mark_def plain_request_def
    by (subst if_not_P, rule input_not_request) (simp_all add: fget_def)
  then have d: "buildDecisionRecord ?env ?di = Inr (plain_decision ones ones t)"
    using plain_decision_ok [OF assms] not_requests(2)
    by (simp add: buildDecisionRecord_def parse_decision_def sample_env_def Let_def mark_def plain_request_def
        decision_outcome_of_def satisfied_ids_def waived_ids_def collectEvidenceIds_def plain_decision_def
        parse_outcome_def plain_checks)
  have checks: "subject_ok task_subject" "principal_ok \<lparr>pr_kind = Operator, pr_id = ''ann'', pr_role = ''lead''\<rparr>"
    "snapshot_ok (\<lambda>s. s \<noteq> '''') \<lparr>as_authorizationId = ''auth'', as_posture = ''read-only'', as_capabilityIds = [],
       as_resolverVersion = ''1'', as_resolvedAt = ''now''\<rparr>"
    by (simp_all add: subject_ok_def principal_ok_def snapshot_ok_def task_subject_def plain_checks hex_samples(4))
  have event: "\<exists>e. decisionEvent ?env (plain_decision ones ones t) (ti_lifecycle (plain_command t))
      (ti_provenance (plain_command t)) ''op-1'' = Inr e"
    using plain_decision_ok [OF assms] checks by (simp add: decisionEvent_def sample_command_def sample_env_def)
  have lifecycle: "\<exists>e. transitionLifecycleEvent (ti_lifecycle (plain_command t)) ''op-1'' = Inr e"
    by (simp add: transitionLifecycleEvent_def sample_command_def plain_checks)
  obtain e1 e2 where e: "decisionEvent ?env (plain_decision ones ones t) (ti_lifecycle (plain_command t))
      (ti_provenance (plain_command t)) ''op-1'' = Inr e1"
    "transitionLifecycleEvent (ti_lifecycle (plain_command t)) ''op-1'' = Inr e2" using event lifecycle by blast
  have parts: "ti_operation (plain_command t) = ''op-1''" "tl_attempt (ti_lifecycle (plain_command t)) = ''a1''"
    "tl_subject (ti_lifecycle (plain_command t)) = task_subject" "ta_context (ti_admission (plain_command t)) = merge_context 0"
    "ta_approvalClass (ti_admission (plain_command t)) = None" "ta_policyId (ti_admission (plain_command t)) = ''p''"
    "ta_policyVersion (ti_admission (plain_command t)) = ''1''" "ta_policyDigest (ti_admission (plain_command t)) = zero_digest"
    "ta_evaluatedAt (ti_admission (plain_command t)) = t" "ta_horizon (ti_admission (plain_command t)) = 10"
    "env_sha ?env = mark (plain_request u)"
    by (simp_all add: sample_command_def sample_env_def)
  show ?thesis
    unfolding prepare_transition_def Let_def parts merge_resolved bind_result_simps resolved_requirements.select_convs
      frozen ev d e policy_evaluation.select_convs by simp
qed

lemma prepared_instant: "prepare_transition env inp = Inr p \<Longrightarrow> dr_decidedAt (pt_decision p) = ta_evaluatedAt (ti_admission inp)"
  by (auto simp: prepare_transition_def Let_def bind_result_Inr_iff buildDecisionRecord_def parse_decision_def
      split: if_splits)

lemma run_first:
  assumes "db_inv d" and "lookupOperationClaim dl (ti_operation inp) = None"
    and "map_of (db_claims d) (DECIDE_ONCE_CLAIM_STREAM, ti_operation inp) = None"
    and "ti_operation inp \<noteq> ''''" "ti_stream inp \<noteq> ''''" "\<not> lock_held busy"
    and sel: "selectEdge (ti_candidates inp) (ti_facts inp) = Selected e k b ids" and p: "prepare_transition env inp = Inr p"
  shows "if gate d (ti_stream inp) = ti_expected inp
    then \<exists>d'. runTransitionCommand env busy st inp dl d =
      (Inr (TransitionDecided (decided_result p e k (od_result (transition_closure env inp p d)))), d')
    else runTransitionCommand env busy st inp dl d =
      (Inl (DeciderFailed (ConcurrencyError (ti_stream inp) ''decideOnce'' (ti_expected inp) (gate d (ti_stream inp))
         (Some (ti_operation inp)))), d)"
proof -
  let ?closure = "transition_closure env inp p" and ?digest = "transition_digest env inp e k (pt_decision p)"
  have parts: "od_stream (?closure d) = ti_stream inp" "od_events (?closure d) = pt_events p"
    "od_expected (?closure d) = Some (ti_expected inp)"
    by (simp_all add: transition_closure_def)
  have ne: "?digest \<noteq> ''''" "pt_events p \<noteq> []"
    using prepared(1) [OF p] by (auto simp: transition_digest_text)
  have "if gate d (od_stream (?closure d)) = ti_expected inp
      then \<exists>d'. decideOnce busy st (ti_operation inp) ?digest ?closure dl d = (Inr (od_result (?closure d)), d')
      else decideOnce busy st (ti_operation inp) ?digest ?closure dl d =
        (Inl (ConcurrencyError (od_stream (?closure d)) ''decideOnce'' (ti_expected inp)
           (gate d (od_stream (?closure d))) (Some (ti_operation inp))), d)"
    by (rule once_first [where n = "ti_expected inp"]) (use assms ne in \<open>simp_all add: parts closure_plain\<close>)
  then show ?thesis
    by (auto simp: parts runTransitionCommand_def sel p split: if_splits)
qed

lemma plain_parts:
  "ti_operation (sample_command n es t) = ''op-1''" "ti_stream (sample_command n es t) = ''f''"
  "ti_expected (sample_command n es t) = 0"
  by (simp_all add: sample_command_def)

lemma empty_claims: "lookupOperationClaim empty_db i = None" "map_of (db_claims empty_db) x = None" "gate empty_db s = 0"
  by (simp_all add: lookupOperationClaim_def empty_db_def readSequenceHighWaterMark_def)

lemma free_lock: "\<not> lock_held []"
  by (simp add: MAX_ATTEMPTS_def)

lemma plain_commits:
  assumes "t \<noteq> ''''"
  shows "\<exists>r d'. runTransitionCommand (sample_env (mark (plain_request u))) [] some_stamps (plain_command t) empty_db empty_db =
    (Inr (TransitionDecided r), d') \<and> td_outcome r = Admitted \<and> td_edge r = (''go'', 0)"
proof -
  let ?env = "sample_env (mark (plain_request u))" and ?inp = "plain_command t"
  obtain p where p: "prepare_transition ?env ?inp = Inr p" "pe_verdict (pt_evaluation p) = VAllow"
    using plain_prepared [OF assms] by blast
  have "if gate empty_db (ti_stream ?inp) = ti_expected ?inp
    then \<exists>d'. runTransitionCommand ?env [] some_stamps ?inp empty_db empty_db =
      (Inr (TransitionDecided (decided_result p ''go'' 0 (od_result (transition_closure ?env ?inp p empty_db)))), d')
    else runTransitionCommand ?env [] some_stamps ?inp empty_db empty_db =
      (Inl (DeciderFailed (ConcurrencyError (ti_stream ?inp) ''decideOnce'' (ti_expected ?inp) (gate empty_db (ti_stream ?inp))
         (Some (ti_operation ?inp)))), empty_db)"
    by (rule run_first [OF empty_db_inv _ _ _ _ free_lock sample_selected p(1)])
      (simp_all add: plain_parts empty_claims)
  then obtain d' where run: "runTransitionCommand ?env [] some_stamps ?inp empty_db empty_db =
      (Inr (TransitionDecided (decided_result p ''go'' 0 (od_result (transition_closure ?env ?inp p empty_db)))), d')"
    unfolding plain_parts empty_claims by auto
  have "td_outcome (decided_result p ''go'' 0 (od_result (transition_closure ?env ?inp p empty_db))) = Admitted"
    unfolding decided_simps by (rule p(2))
  with run show ?thesis by (auto simp: decided_result_def)
qed

section \<open>The promises\<close>

text \<open>
  C13: The decision and the phase change commit together. A first call that reaches a decision finds
  the stream at the expected version and appends exactly the decision event with the returned
  decision, followed by the lifecycle event if and only if the transition was admitted; it reports a
  changed phase exactly then, and it touches no other stream.
\<close>

theorem decision_and_phase_commit_together:
  assumes "db_inv d" and "lookupOperationClaim dl (ti_operation inp) = None"
    and "lookupOperationClaim d (ti_operation inp) = None"
    and "runTransitionCommand env busy st inp dl d = (Inr (TransitionDecided r), d')"
  shows "gate d (ti_stream inp) = ti_expected inp \<and>
    (\<exists>es. rows_of d' (ti_stream inp) = rows_of d (ti_stream inp) @ es \<and>
       map we_type es = ''admission.transition-decided'' #
         (if td_outcome r = Admitted then [''workflow.transition''] else []) \<and>
       opt_get (we_data (hd es)) ''decision'' = td_decision r) \<and>
    td_phaseChanged r = JBool (td_outcome r = Admitted) \<and>
    (\<forall>t. t \<noteq> ti_stream inp \<longrightarrow> rows_of d' t = rows_of d t)"
proof -
  obtain e k p es where f: "prepare_transition env inp = Inr p"
    "r = decided_result p e k (od_result (transition_closure env inp p d))"
    "es = persist (ti_stream inp) None st (pt_events p) (gate d (ti_stream inp))"
    "gate d (ti_stream inp) = ti_expected inp"
    "rows_of d' (ti_stream inp) = rows_of d (ti_stream inp) @ es"
    "\<forall>t. t \<noteq> ti_stream inp \<longrightarrow> rows_of d' t = rows_of d t"
    using fresh_run [OF assms] by blast
  have "pt_events p \<noteq> []" using prepared(1) [OF f(1)] by auto
  from persist_head [OF this prepared_plain [OF f(1)]]
  have data: "opt_get (we_data (hd es)) ''decision'' = td_decision r"
    unfolding f(2,3) decided_simps by (simp add: prepared(2) [OF f(1)])
  have types: "map we_type es = ''admission.transition-decided'' #
      (if td_outcome r = Admitted then [''workflow.transition''] else [])"
    unfolding f(2,3) decided_simps persist_types prepared(1) [OF f(1)] ..
  have phase: "td_phaseChanged r = JBool (td_outcome r = Admitted)"
    unfolding f(2) decided_simps ..
  show ?thesis by (intro conjI exI [of _ es] f(4-6) types data phase)
qed

lemma decision_and_phase_commit_together_witness:
  "\<exists>r d'. runTransitionCommand (sample_env (mark (plain_request ''2026''))) [] some_stamps (plain_command ''2026'')
       empty_db empty_db = (Inr (TransitionDecided r), d') \<and> td_phaseChanged r = JBool True \<and>
     (\<exists>es. rows_of d' ''f'' = rows_of empty_db ''f'' @ es \<and>
       map we_type es = [''admission.transition-decided'', ''workflow.transition''])"
proof -
  obtain r d' where run: "runTransitionCommand (sample_env (mark (plain_request ''2026''))) [] some_stamps
      (plain_command ''2026'') empty_db empty_db = (Inr (TransitionDecided r), d')" "td_outcome r = Admitted"
    using plain_commits [of "''2026''"] by blast
  from decision_and_phase_commit_together [OF empty_db_inv empty_claims(1) empty_claims(1) run(1)]
  show ?thesis unfolding run(2) plain_parts if_P [OF refl] using run(1) by (intro exI [of _ r] exI [of _ d']) auto
qed

text \<open>
  C14: The phase moves only when the move is earned. A first call that admits took the leading edge of
  its candidates, with a condition that is true on the facts, and every requirement that it froze for
  the attempt is discharged by evidence that counts or covered by a waiver in force.
\<close>

theorem phase_change_is_earned:
  assumes "db_inv d" and "lookupOperationClaim dl (ti_operation inp) = None"
    and "lookupOperationClaim d (ti_operation inp) = None"
    and "runTransitionCommand env busy st inp dl d = (Inr (TransitionDecided r), d')"
    and "td_outcome r = Admitted"
  shows "\<exists>k resolved frozen. td_edge r = (ca_edgeId (ti_candidates inp ! k), k) \<and>
    leads (ti_candidates inp) (ti_facts inp) k \<and> outcome_at (ti_candidates inp) (ti_facts inp) k = OTrue \<and>
    resolveRequirements (ta_context (ti_admission inp)) = Inr resolved \<and> rp_requirements frozen = td_requirements r \<and>
    (\<forall>q \<in> set (td_requirements r).
       discharged (policy_input_of env (ti_admission inp) resolved frozen) q \<or>
       (\<exists>w \<in> set (ta_waivers (ti_admission inp)).
          in_force (options_of (policy_input_of env (ti_admission inp) resolved frozen)) (target_of q) w))"
proof -
  obtain e k overlap matched p where f: "prepare_transition env inp = Inr p"
    "r = decided_result p e k (od_result (transition_closure env inp p d))"
    and sel: "selectEdge (ti_candidates inp) (ti_facts inp) = Selected e k overlap matched"
    using fresh_run [OF assms(1-4)] by blast
  obtain resolved where res: "resolveRequirements (ta_context (ti_admission inp)) = Inr resolved"
    and ev: "pt_evaluation p = evaluatePolicy (policy_input_of env (ti_admission inp) resolved (pt_frozen p))"
    using prepared(3) [OF f(1)] by blast
  let ?pi = "policy_input_of env (ti_admission inp) resolved (pt_frozen p)"
  have allow: "pe_verdict (evaluatePolicy ?pi) = VAllow" using assms(5) unfolding f(2) decided_simps ev .
  note allow_earns [OF allow]
  moreover have "td_requirements r = rp_requirements (pt_frozen p)" "td_edge r = (e, k)"
    unfolding f(2) by (simp_all add: decided_result_def)
  moreover have "leads (ti_candidates inp) (ti_facts inp) k \<and> outcome_at (ti_candidates inp) (ti_facts inp) k = OTrue \<and>
      e = ca_edgeId (ti_candidates inp ! k)"
    using select_loop_from [where m = "true_ids (ti_candidates inp) (ti_facts inp)" and i = 0 and
        cs = "ti_candidates inp" and f = "ti_facts inp"] sel
    by (simp add: selectEdge_def evaluateEdgeCandidates_def Let_def evaluated_ids)
  ultimately show ?thesis using res
    by (intro exI [of _ k] exI [of _ resolved] exI [of _ "pt_frozen p"]) (simp add: policy_input_of_def)
qed

lemma phase_change_is_earned_witness:
  "\<exists>r d'. runTransitionCommand (sample_env (mark (plain_request ''2026''))) [] some_stamps (plain_command ''2026'')
       empty_db empty_db = (Inr (TransitionDecided r), d') \<and> td_edge r = (''go'', 0) \<and>
     outcome_at (ti_candidates (plain_command ''2026'')) (ti_facts (plain_command ''2026'')) 0 = OTrue"
proof -
  obtain r d' where run: "runTransitionCommand (sample_env (mark (plain_request ''2026''))) [] some_stamps
      (plain_command ''2026'') empty_db empty_db = (Inr (TransitionDecided r), d')" "td_outcome r = Admitted"
      "td_edge r = (''go'', 0)"
    using plain_commits [of "''2026''"] by blast
  obtain k where k: "td_edge r = (ca_edgeId (ti_candidates (plain_command ''2026'') ! k), k)"
    "outcome_at (ti_candidates (plain_command ''2026'')) (ti_facts (plain_command ''2026'')) k = OTrue"
    using phase_change_is_earned [OF empty_db_inv empty_claims(1) empty_claims(1) run(1,2)] by (elim exE conjE) (rule that)
  then have "k = 0" using run(3) by simp
  then show ?thesis using k(2) run(1,3) by (intro exI [of _ r] exI [of _ d']) simp
qed

text \<open>
  C16: A command commits exactly when the version that its caller saw is current. For a selected edge
  and inputs that pass every schema, under a fresh operation id and with the lock free, the command is
  decided when the stream's gate is at the expected version; otherwise it fails with a concurrency
  error that names both versions and writes nothing.
\<close>

theorem transition_commits_iff_current:
  assumes "db_inv d" and "lookupOperationClaim dl (ti_operation inp) = None"
    and "map_of (db_claims d) (DECIDE_ONCE_CLAIM_STREAM, ti_operation inp) = None"
    and "ti_operation inp \<noteq> ''''" "ti_stream inp \<noteq> ''''" "\<not> lock_held busy" and "command_text env inp \<noteq> None"
  shows "if gate d (ti_stream inp) = ti_expected inp
    then \<exists>r d'. runTransitionCommand env busy st inp dl d = (Inr (TransitionDecided r), d')
    else runTransitionCommand env busy st inp dl d =
      (Inl (DeciderFailed (ConcurrencyError (ti_stream inp) ''decideOnce'' (ti_expected inp) (gate d (ti_stream inp))
         (Some (ti_operation inp)))), d)"
proof -
  obtain e k b ids p where "selectEdge (ti_candidates inp) (ti_facts inp) = Selected e k b ids"
    "prepare_transition env inp = Inr p"
    using assms(7) by (auto simp: command_text_def split: edge_selection.splits sum.splits)
  from run_first [OF assms(1-6) this, of st] show ?thesis
    by (cases "gate d (ti_stream inp) = ti_expected inp") (simp_all, blast)
qed

lemma plain_text_of:
  "t \<noteq> '''' \<Longrightarrow> command_text (sample_env (mark (plain_request u))) (plain_command t) = Some (plain_request t)"
  using plain_prepared [of t u] by (auto simp: command_text_def sample_selected plain_request_def)

lemma transition_commits_iff_current_witness:
  "runTransitionCommand (sample_env (mark (plain_request ''2026''))) [] some_stamps
     ((plain_command ''2026'')\<lparr>ti_expected := 7\<rparr>) empty_db empty_db =
   (Inl (DeciderFailed (ConcurrencyError ''f'' ''decideOnce'' 7 0 (Some ''op-1''))), empty_db)"
proof -
  let ?env = "sample_env (mark (plain_request ''2026''))" and ?inp = "(plain_command ''2026'')\<lparr>ti_expected := 7\<rparr>"
  have "prepare_transition ?env ?inp = prepare_transition ?env (plain_command ''2026'')"
    by (simp add: prepare_transition_def)
  moreover have "selectEdge (ti_candidates ?inp) (ti_facts ?inp) = Selected ''go'' 0 False [''go'']"
    using sample_selected [of 0 "[]" "''2026''"] by simp
  ultimately have reach: "command_text ?env ?inp \<noteq> None"
    using plain_text_of [of "''2026''" "''2026''"] by (auto simp: command_text_def sample_selected split: sum.splits)
  have parts: "ti_operation ?inp = ''op-1''" "ti_stream ?inp = ''f''" "ti_expected ?inp = 7" by (simp_all add: plain_parts)
  have "if gate empty_db (ti_stream ?inp) = ti_expected ?inp
    then \<exists>r d'. runTransitionCommand ?env [] some_stamps ?inp empty_db empty_db = (Inr (TransitionDecided r), d')
    else runTransitionCommand ?env [] some_stamps ?inp empty_db empty_db =
      (Inl (DeciderFailed (ConcurrencyError (ti_stream ?inp) ''decideOnce'' (ti_expected ?inp) (gate empty_db (ti_stream ?inp))
         (Some (ti_operation ?inp)))), empty_db)"
    by (rule transition_commits_iff_current [OF empty_db_inv empty_claims(1,2) _ _ free_lock reach]) (simp_all only: parts, simp_all)
  then show ?thesis unfolding parts empty_claims by simp
qed

text \<open>
  C15: A retry returns what the first call decided. When a call reached a decision, every later call
  with the same inputs, whatever else was written meanwhile, returns the same result and writes
  nothing, as long as the claim of the operation is kept.
\<close>

theorem transition_retry_returns_first:
  assumes "runTransitionCommand env busy st inp d d = (Inr (TransitionDecided r), d')"
    and "lookupOperationClaim d'' (ti_operation inp) = lookupOperationClaim d' (ti_operation inp)"
  shows "runTransitionCommand env busy' st' inp d'' d'' = (Inr (TransitionDecided r), d'')"
proof -
  obtain e k b ids p atomic where run: "selectEdge (ti_candidates inp) (ti_facts inp) = Selected e k b ids"
    "prepare_transition env inp = Inr p" "r = decided_result p e k atomic"
    "decideOnce busy st (ti_operation inp) (transition_digest env inp e k (pt_decision p))
      (transition_closure env inp p) d d = (Inr atomic, d')"
    using decided_run [OF assms(1)] by blast
  have "transition_digest env inp e k (pt_decision p) \<noteq> ''''" by (simp add: transition_digest_text)
  from once_repeat [OF run(4) this assms(2), of busy' st' "transition_closure env inp p"]
  show ?thesis by (simp add: runTransitionCommand_def run(1-3))
qed

lemma transition_retry_returns_first_witness:
  "\<exists>r d'. runTransitionCommand (sample_env (mark (plain_request ''2026''))) [True] some_stamps (plain_command ''2026'') d' d' =
     (Inr (TransitionDecided r), d') \<and> td_outcome r = Admitted"
proof -
  obtain r d' where run: "runTransitionCommand (sample_env (mark (plain_request ''2026''))) [] some_stamps
      (plain_command ''2026'') empty_db empty_db = (Inr (TransitionDecided r), d')" "td_outcome r = Admitted"
    using plain_commits [of "''2026''"] by blast
  from transition_retry_returns_first [OF run(1) refl, of "[True]" some_stamps] run(2) show ?thesis by blast
qed

text \<open>
  A retry under the same operation id whose caller read the clock again is refused: when nothing
  but the instant of evaluation differs, it fails with a digest mismatch and writes nothing, unless the
  hash collides on the texts of the two requests.
\<close>

theorem retry_at_another_instant_is_refused:
  fixes inp t
  defines "inp' \<equiv> inp\<lparr>ti_admission := (ti_admission inp)\<lparr>ta_evaluatedAt := t\<rparr>\<rparr>"
  assumes "runTransitionCommand env busy st inp d d = (Inr (TransitionDecided r), d')"
    and "lookupOperationClaim d'' (ti_operation inp) = lookupOperationClaim d' (ti_operation inp)"
    and "t \<noteq> ta_evaluatedAt (ti_admission inp)" and "command_text env inp' \<noteq> None"
    and "\<And>x y. command_text env inp = Some x \<Longrightarrow> command_text env inp' = Some y \<Longrightarrow> env_sha env x = env_sha env y \<Longrightarrow> x = y"
  shows "\<exists>g g'. runTransitionCommand env busy' st' inp' d'' d'' =
    (Inl (DeciderFailed (OperationDigestMismatch (ti_operation inp) g g')), d'')"
proof -
  obtain e k b ids p atomic where run: "selectEdge (ti_candidates inp) (ti_facts inp) = Selected e k b ids"
    "prepare_transition env inp = Inr p"
    "decideOnce busy st (ti_operation inp) (transition_digest env inp e k (pt_decision p))
      (transition_closure env inp p) d d = (Inr atomic, d')"
    using decided_run [OF assms(2)] by blast
  have sel': "selectEdge (ti_candidates inp') (ti_facts inp') = Selected e k b ids" "ti_operation inp' = ti_operation inp"
    "ta_evaluatedAt (ti_admission inp') = t"
    using run(1) by (simp_all add: inp'_def)
  obtain p' where p': "prepare_transition env inp' = Inr p'"
    using assms(5) by (auto simp: command_text_def sel' split: sum.splits)
  have texts: "command_text env inp = Some (request_text inp e k (pt_decision p))"
    "command_text env inp' = Some (request_text inp' e k (pt_decision p'))"
    by (simp_all add: command_text_def run sel' p')
  have "request_text inp e k (pt_decision p) \<noteq> request_text inp' e k (pt_decision p')"
    using request_text_instant prepared_instant [OF run(2)] prepared_instant [OF p'] assms(4) sel'(3) by metis
  then have "transition_digest env inp' e k (pt_decision p') \<noteq> transition_digest env inp e k (pt_decision p)"
    using assms(6) [OF texts] by (auto simp: transition_digest_text)
  moreover have "transition_digest env inp' e k (pt_decision p') \<noteq> ''''" by (simp add: transition_digest_text)
  ultimately show ?thesis
    using once_repeat [OF run(3) _ assms(3), of "transition_digest env inp' e k (pt_decision p')" busy' st'
        "transition_closure env inp' p'"]
    by (simp add: runTransitionCommand_def sel' p')
qed

lemma retry_at_another_instant_is_refused_witness:
  "\<exists>g g' d'. runTransitionCommand (sample_env (mark (plain_request ''2026''))) [] some_stamps (plain_command ''2027'') d' d' =
     (Inl (DeciderFailed (OperationDigestMismatch ''op-1'' g g')), d')"
proof -
  let ?env = "sample_env (mark (plain_request ''2026''))"
  obtain r d' where run: "runTransitionCommand ?env [] some_stamps (plain_command ''2026'') empty_db empty_db =
      (Inr (TransitionDecided r), d')"
    using plain_commits [of "''2026''"] by blast
  have later: "(plain_command ''2026'')\<lparr>ti_admission := (ti_admission (plain_command ''2026''))\<lparr>ta_evaluatedAt := ''2027''\<rparr>\<rparr> =
      plain_command ''2027''" "ta_evaluatedAt (ti_admission (plain_command ''2026'')) = ''2026''"
    by (simp_all add: sample_command_def)
  have texts: "command_text ?env (plain_command ''2026'') = Some (plain_request ''2026'')"
    "command_text ?env (plain_command ''2027'') = Some (plain_request ''2027'')"
    by (simp_all add: plain_text_of)
  have "plain_request ''2027'' \<noteq> plain_request ''2026''"
    using request_text_instant unfolding plain_request_def by (fastforce simp: plain_decision_def)
  then have "env_sha ?env (plain_request ''2026'') \<noteq> env_sha ?env (plain_request ''2027'')"
    by (simp add: sample_env_def mark_def zeros_def ones_def)
  then show ?thesis
    using retry_at_another_instant_is_refused [OF run refl, where t = "''2027''" and busy' = "[]" and st' = some_stamps]
    unfolding later texts plain_parts by auto
qed

end
