(* ===== verification/State_Mutation.thy ===== *)
theory State_Mutation
  imports Canonical_Json Transition_Command
begin

text \<open>
  The dot-path writes of \<open>src/workflow/state-mutation.ts\<close>: the reserved fields, the parser of paths
  such as \<open>tasks[0].status\<close>, the merge of plain objects and \<open>applyDotPath\<close>, which every field update
  and every replayed \<open>state.patched\<close> event goes through.

  A write returns the new object; the source changes its argument in place and its callers work on a
  clone, which they drop on an error. A hole of an array is \<open>undefined\<close>. A write that leaves the values of
  the model ends in \<open>OutsideModel\<close>, about which the theorems say nothing: one that walks into a property
  which a value inherits from its prototype (\<open>constructor.prototype.x\<close> writes to \<open>Object.prototype\<close>
  itself), that sets the prototype of an object, that needs a named property of an array or an own
  property of a string, or whose index is no finite number.
\<close>

section \<open>Reserved fields\<close>

definition topLevelImmutable :: "string list" where
  "topLevelImmutable = [''phase'', ''workflowType'', ''featureId'', ''createdAt'', ''version'']"

definition underscorePrefixRule :: string where
  "underscorePrefixRule =
     ''Any dot-path whose top-level key, or any segment, begins with `_` is reserved for projection/event-store metadata and is not directly writable.''"

definition backtick :: "string \<Rightarrow> string" where
  "backtick s = ''`'' @ s @ ''`''"

definition alternateWritePaths :: "(string \<times> string) list" where
  "alternateWritePaths =
     [(''phase'',
       ''Use `exarchos_workflow` with `action: '' @ dquote @ ''transition'' @ dquote @ ''` and `target: '' @ dquote @
       ''<phase>'' @ dquote @ ''` '' @ em_dash @ '' phase changes are HSM-validated and emit transition events.''),
      (''workflowType'',
       ''Immutable after init. Create a new workflow with `exarchos_workflow.init` if a different type is needed.''),
      (''featureId'', ''Immutable identity field. The featureId is fixed at init.''),
      (''createdAt'', ''Immutable timestamp. Set by `exarchos_workflow.init`.''),
      (''version'', ''Schema version. Bumped only by the migration pipeline.''),
      (''^_.*'',
       ''Event-store/projection metadata. Emit a typed event via `exarchos_event.append` (e.g. `checkpoint`, `state.patched`) instead of writing the underscore field directly.'')]"

abbreviation starts_underscore :: "string \<Rightarrow> bool" where
  "starts_underscore s \<equiv> prefix ''_'' s"

definition top_level :: "string \<Rightarrow> string" where
  "top_level path = hd (split_on CHR ''.'' path)"

definition isReservedField :: "string \<Rightarrow> bool" where
  "isReservedField path \<longleftrightarrow>
     path \<noteq> '''' \<and>
     (top_level path \<in> set topLevelImmutable \<or> starts_underscore path \<or>
      list_ex starts_underscore (split_on CHR ''.'' path))"

text \<open>
  The keys of the table that hold a pattern are tried in order on the path and on its segments;
  \<open>^_.*\<close>, the only one, matches the texts that start with an underscore.
\<close>

definition pattern_matches :: "string \<Rightarrow> string \<Rightarrow> bool" where
  "pattern_matches key s \<longleftrightarrow> key = ''^_.*'' \<and> starts_underscore s"

text \<open>
  The lookup of the top-level name is one on an object literal, so a name that every object inherits, as
  in \<open>constructor._x\<close>, finds the inherited property instead of a text.
\<close>

datatype write_hint = Hint string | InheritedProperty string

definition resolveAlternateWritePath :: "string \<Rightarrow> write_hint option" where
  "resolveAlternateWritePath path =
     (case map_of alternateWritePaths (top_level path) of
        Some hint \<Rightarrow> Some (Hint hint)
      | None \<Rightarrow>
          if top_level path \<in> set object_names then Some (InheritedProperty (top_level path))
          else map_option (Hint \<circ> snd)
            (find (\<lambda>(key, hint). pattern_matches key path \<or>
                     list_ex (pattern_matches key) (split_on CHR ''.'' path)) alternateWritePaths))"

record reserved_field_data =
  rejectedPath :: string
  rule :: string
  alternateWritePath :: "write_hint option"

section \<open>Errors\<close>

datatype mutation_error =
    ReservedField reserved_field_data
  | KeyedAccess string string
  | MalformedAccess string string
  | ExpectedArray nat bool string
  | IndexGap nat nat string
  | NotAssignable
  | OutsideModel

text \<open>
  The error code of a \<open>StateStoreError\<close>. A \<open>TypeError\<close> of the engine has none; the flag of \<open>ExpectedArray\<close>
  tells the message of a final index from the one of a step on the way.
\<close>

fun error_code :: "mutation_error \<Rightarrow> string option" where
  "error_code (ReservedField _) = Some ''RESERVED_FIELD''"
| "error_code (KeyedAccess _ _) = Some ''INVALID_INPUT''"
| "error_code (MalformedAccess _ _) = Some ''INVALID_INPUT''"
| "error_code (ExpectedArray _ _ _) = Some ''INVALID_INPUT''"
| "error_code (IndexGap _ _ _) = Some ''INVALID_INPUT''"
| "error_code NotAssignable = None"
| "error_code OutsideModel = None"

definition reserved_error :: "string \<Rightarrow> mutation_error" where
  "reserved_error path = ReservedField
     \<lparr>rejectedPath = path,
      rule =
        (if top_level path \<in> set topLevelImmutable
         then backtick (top_level path) @ '' is top-level immutable '' @ em_dash @
              '' set once at init, never directly mutated thereafter.''
         else underscorePrefixRule),
      alternateWritePath = resolveAlternateWritePath path\<rparr>"

section \<open>Inherited names\<close>

text \<open>The further properties that strings and numbers have from their prototypes.\<close>

definition string_names :: "string list" where
  "string_names =
     [''anchor'', ''at'', ''big'', ''blink'', ''bold'', ''charAt'', ''charCodeAt'', ''codePointAt'', ''concat'',
      ''endsWith'', ''fixed'', ''fontcolor'', ''fontsize'', ''includes'', ''indexOf'', ''isWellFormed'',
      ''italics'', ''lastIndexOf'', ''link'', ''localeCompare'', ''match'', ''matchAll'', ''normalize'',
      ''padEnd'', ''padStart'', ''repeat'', ''replace'', ''replaceAll'', ''search'', ''slice'', ''small'',
      ''split'', ''startsWith'', ''strike'', ''sub'', ''substr'', ''substring'', ''sup'',
      ''toLocaleLowerCase'', ''toLocaleUpperCase'', ''toLowerCase'', ''toUpperCase'', ''toWellFormed'',
      ''trim'', ''trimEnd'', ''trimLeft'', ''trimRight'', ''trimStart'']"

definition number_names :: "string list" where
  "number_names = [''toExponential'', ''toFixed'', ''toPrecision'']"

text \<open>\<open>value[k]\<close> is an inherited property: the prototype has it and the value has no own one.\<close>

fun inherits :: "js \<Rightarrow> string \<Rightarrow> bool" where
  "inherits (JObj fs) k = (k \<in> set object_names \<and> map_of fs k = None)"
| "inherits (JStr _) k = (k \<in> set object_names \<or> k \<in> set string_names)"
| "inherits (JNum _) k = (k \<in> set object_names \<or> k \<in> set number_names)"
| "inherits (JBool _) k = (k \<in> set object_names)"
| "inherits _ k = False"

text \<open>Merging a value with a key \<open>__proto__\<close> sets the prototype of the result.\<close>

fun has_proto_key :: "js \<Rightarrow> bool" where
  "has_proto_key (JObj fs) = list_ex (\<lambda>kv. fst kv = ''__proto__'' \<or> has_proto_key (snd kv)) fs"
| "has_proto_key _ = False"

section \<open>Paths\<close>

datatype segment = SKey string | SIndex nat

text \<open>
  \<open>parseInt\<close> of a decimal text: the nearest double, with halves to the even one. A text beyond the largest
  double is \<open>Infinity\<close>.
\<close>

fun bit_length :: "nat \<Rightarrow> nat" where
  "bit_length n = (if n = 0 then 0 else Suc (bit_length (n div 2)))"

declare bit_length.simps [simp del]

definition round_to_double :: "nat \<Rightarrow> nat" where
  "round_to_double n =
     (if int n < 9007199254740992 then n
      else (let e = bit_length n - 53; q = n div 2 ^ e; r = n mod 2 ^ e; half = 2 ^ (e - 1)
            in (if half < r \<or> r = half \<and> odd q then q + 1 else q) * 2 ^ e))"

definition index_value :: "string \<Rightarrow> nat option" where
  "index_value s =
     (let n = round_to_double (digits_value s)
      in if int n < 9007199254740992 \<or> n < 2 ^ 1024 then Some n else None)"

text \<open>
  One part between two dots: \<open>name[7]\<close>, \<open>[7]\<close>, or a name without brackets. The name ends at the first
  opening bracket, and the part must end with a closing one.
\<close>

definition bracket_inner :: "string \<Rightarrow> string option" where
  "bracket_inner part =
     (let rest = dropWhile (\<lambda>c. c \<noteq> CHR ''['') part
      in if rest \<noteq> [] \<and> last rest = CHR '']'' then Some (butlast (tl rest)) else None)"

definition all_digits :: "string \<Rightarrow> bool" where
  "all_digits s \<longleftrightarrow> s \<noteq> [] \<and> list_all Canonical_Json.is_digit s"

definition parse_part :: "string \<Rightarrow> string \<Rightarrow> mutation_error + segment list" where
  "parse_part path part =
     (let name = takeWhile (\<lambda>c. c \<noteq> CHR ''['') part;
          bracketed = (CHR ''['' \<in> set part \<or> CHR '']'' \<in> set part)
      in case bracket_inner part of
           Some inner \<Rightarrow>
             if all_digits inner
             then (case index_value inner of
                 Some n \<Rightarrow> Inr ((if name = [] then [] else [SKey name]) @ [SIndex n])
               | None \<Rightarrow> Inl OutsideModel)
             else if CHR '']'' \<notin> set inner then Inl (KeyedAccess part path)
             else Inl (MalformedAccess part path)
         | None \<Rightarrow> if bracketed then Inl (MalformedAccess part path) else Inr [SKey part])"

fun parse_parts :: "string \<Rightarrow> string list \<Rightarrow> mutation_error + segment list" where
  "parse_parts path [] = Inr []"
| "parse_parts path (part # parts) =
     bind_result (parse_part path part) (\<lambda>segs.
     bind_result (parse_parts path parts) (\<lambda>rest. Inr (segs @ rest)))"

definition parsePath :: "string \<Rightarrow> mutation_error + segment list" where
  "parsePath path = parse_parts path (split_on CHR ''.'' path)"

section \<open>Merging\<close>

function deepMerge :: "fields \<Rightarrow> fields \<Rightarrow> fields" where
  "deepMerge target [] = target"
| "deepMerge target ((k, v) # source) =
     deepMerge
       (AList.update k
          (case (fget target k, v) of
             (JObj old, JObj new) \<Rightarrow> JObj (deepMerge old new)
           | _ \<Rightarrow> v) target)
       source"
  by pat_completeness auto
termination by (relation "measure (\<lambda>(target, source). size_list (size_prod (\<lambda>_. 0) size) source)") auto

text \<open>The value that a write leaves at an object key.\<close>

definition merge_value :: "js \<Rightarrow> js \<Rightarrow> js" where
  "merge_value old v =
     (case (old, v) of (JObj t, JObj s) \<Rightarrow> JObj (deepMerge t s) | _ \<Rightarrow> v)"

section \<open>Arrays\<close>

definition MAX_ARRAY_GAP :: nat where
  "MAX_ARRAY_GAP = 1"

definition array_get :: "js list \<Rightarrow> nat \<Rightarrow> js" where
  "array_get xs n = (if n < length xs then xs ! n else JUndef)"

text \<open>\<open>xs[n] = v\<close>: past the end, the array grows and the places between are holes.\<close>

definition array_put :: "js list \<Rightarrow> nat \<Rightarrow> js \<Rightarrow> js list" where
  "array_put xs n v =
     (if n < length xs then xs[n := v] else xs @ replicate (n - length xs) JUndef @ [v])"

text \<open>A property name that is the decimal text of an array index names that element.\<close>

definition array_index :: "string \<Rightarrow> nat option" where
  "array_index k =
     (if all_digits k \<and> nat_str (digits_value k) = k \<and> digits_value k < 2 ^ 32 - 1
      then Some (digits_value k) else None)"

section \<open>Writing\<close>

definition fresh_for :: "segment \<Rightarrow> js" where
  "fresh_for next_seg = (case next_seg of SIndex _ \<Rightarrow> JArr [] | SKey _ \<Rightarrow> JObj [])"

text \<open>The container on the way to the next segment: what is there, or a new one.\<close>

fun step_into :: "string \<Rightarrow> js \<Rightarrow> segment \<Rightarrow> segment \<Rightarrow> mutation_error + js" where
  "step_into path (JArr xs) (SIndex n) next_seg =
     (if n > length xs + MAX_ARRAY_GAP then Inl (IndexGap n (length xs) path)
      else Inr (if array_get xs n = JUndef then fresh_for next_seg else array_get xs n))"
| "step_into path _ (SIndex n) next_seg = Inl (ExpectedArray n False path)"
| "step_into path (JObj fs) (SKey k) next_seg =
     (if inherits (JObj fs) k then Inl OutsideModel
      else Inr (if is_nullish (fget fs k) then fresh_for next_seg else fget fs k))"
| "step_into path (JArr xs) (SKey k) next_seg =
     (case array_index k of
        None \<Rightarrow> Inl OutsideModel
      | Some n \<Rightarrow> Inr (if is_nullish (array_get xs n) then fresh_for next_seg else array_get xs n))"
| "step_into path (JStr s) (SKey k) next_seg =
     (if k = ''length'' \<or> inherits (JStr s) k \<or>
         (case array_index k of None \<Rightarrow> False | Some n \<Rightarrow> n < utf16_length s)
      then Inl OutsideModel else Inl NotAssignable)"
| "step_into path c (SKey k) next_seg = (if inherits c k then Inl OutsideModel else Inl NotAssignable)"

text \<open>Put a value into a slot of a container: the step's own container back, or a plain assignment.\<close>

fun put_slot :: "js \<Rightarrow> segment \<Rightarrow> js \<Rightarrow> js" where
  "put_slot (JArr xs) (SIndex n) v = JArr (array_put xs n v)"
| "put_slot (JArr xs) (SKey k) v =
     (case array_index k of None \<Rightarrow> JArr xs | Some n \<Rightarrow> JArr (array_put xs n v))"
| "put_slot (JObj fs) (SKey k) v = JObj (AList.update k v fs)"
| "put_slot c _ v = c"

fun write_last :: "string \<Rightarrow> js \<Rightarrow> segment \<Rightarrow> js \<Rightarrow> mutation_error + js" where
  "write_last path (JArr xs) (SIndex n) v =
     (if n > length xs + MAX_ARRAY_GAP then Inl (IndexGap n (length xs) path)
      else Inr (put_slot (JArr xs) (SIndex n) v))"
| "write_last path _ (SIndex n) v = Inl (ExpectedArray n True path)"
| "write_last path (JObj fs) (SKey k) v =
     (if k = ''__proto__'' \<and> map_of fs k = None \<or> isPlainObject (fget fs k) \<and> has_proto_key v
      then Inl OutsideModel
      else Inr (put_slot (JObj fs) (SKey k) (merge_value (fget fs k) v)))"
| "write_last path (JArr xs) (SKey k) v =
     (case array_index k of
        None \<Rightarrow> Inl OutsideModel
      | Some n \<Rightarrow>
          if isPlainObject (array_get xs n) \<and> has_proto_key v then Inl OutsideModel
          else Inr (put_slot (JArr xs) (SKey k) (merge_value (array_get xs n) v)))"
| "write_last path c (SKey k) v =
     (if k = ''__proto__'' \<and> \<not> is_nullish c then Inl OutsideModel else Inl NotAssignable)"

fun write_at :: "string \<Rightarrow> js \<Rightarrow> segment list \<Rightarrow> js \<Rightarrow> mutation_error + js" where
  "write_at path c [] v = Inr c"
| "write_at path c [s] v = write_last path c s v"
| "write_at path c (s # t # ss) v =
     bind_result (step_into path c s t) (\<lambda>child.
     bind_result (write_at path child (t # ss) v) (\<lambda>child'.
     Inr (put_slot c s child')))"

definition write_root :: "string \<Rightarrow> fields \<Rightarrow> segment list \<Rightarrow> js \<Rightarrow> mutation_error + fields" where
  "write_root path fs segs v =
     bind_result (write_at path (JObj fs) segs v)
       (\<lambda>c. case c of JObj fs' \<Rightarrow> Inr fs' | _ \<Rightarrow> Inr fs)"

definition applyDotPath :: "fields \<Rightarrow> string \<Rightarrow> js \<Rightarrow> mutation_error + fields" where
  "applyDotPath fs path v =
     (if isReservedField path then Inl (reserved_error path)
      else bind_result (parsePath path) (\<lambda>segs. write_root path fs segs v))"

section \<open>The updates of a request and the replay of a patch\<close>

text \<open>\<open>handleSet\<close> applies the updates in order and stops at the first error.\<close>

fun apply_updates :: "fields \<Rightarrow> (string \<times> js) list \<Rightarrow> mutation_error + fields" where
  "apply_updates fs [] = Inr fs"
| "apply_updates fs ((path, v) # ups) =
     bind_result (applyDotPath fs path v) (\<lambda>fs'. apply_updates fs' ups)"

text \<open>The view of the workflow state skips a reserved path and passes on every other error.\<close>

fun replay_patch :: "fields \<Rightarrow> (string \<times> js) list \<Rightarrow> mutation_error + fields" where
  "replay_patch fs [] = Inr fs"
| "replay_patch fs ((path, v) # ups) =
     (case applyDotPath fs path v of
        Inr fs' \<Rightarrow> replay_patch fs' ups
      | Inl e \<Rightarrow>
          if error_code e = Some ''RESERVED_FIELD'' then replay_patch fs ups else Inl e)"

end
