(* ===== verification/Mutation_Laws.thy ===== *)
theory Mutation_Laws
  imports State_Mutation
begin

text \<open>
  What the dot-path writes keep: a path names its segments, a merge decides every key, a write changes the
  slot it names and no other, the reserved fields survive every accepted request, and a write that is
  repeated changes nothing more.
\<close>

section \<open>Merging\<close>

lemma merge_value_simps [simp]:
  "merge_value (JObj t) (JObj s) = JObj (deepMerge t s)"
  "\<not> isPlainObject old \<Longrightarrow> merge_value old v = v"
  "\<not> isPlainObject v \<Longrightarrow> merge_value old v = v"
  by (auto simp: merge_value_def isPlainObject_iff split: js.splits)

lemma deepMerge_step:
  "deepMerge target ((k, v) # source) =
     deepMerge (AList.update k (merge_value (fget target k) v) target) source"
  by (simp add: merge_value_def)

declare deepMerge.simps(2) [simp del]

lemma deepMerge_keys: "fst ` set (deepMerge t s) = fst ` set t \<union> fst ` set s"
proof (induction s arbitrary: t)
  case (Cons e s)
  obtain k v where "e = (k, v)" by (cases e)
  with Cons show ?case by (simp add: deepMerge_step keys_update)
qed simp

lemma deepMerge_lookup:
  assumes "distinct (map fst s)"
  shows "map_of (deepMerge t s) k =
    (case map_of s k of None \<Rightarrow> map_of t k | Some v \<Rightarrow> Some (merge_value (fget t k) v))"
  using assms
proof (induction s arbitrary: t)
  case (Cons e s)
  obtain k' v where e: "e = (k', v)" by (cases e)
  with Cons.prems have "map_of s k' = None" and dist: "distinct (map fst s)"
    by (auto simp: map_of_eq_None_iff)
  with Cons.IH [OF dist] e show ?case
    by (cases "k' = k") (simp_all add: deepMerge_step split: option.split)
qed simp

text \<open>Every object inside a value has each of its keys once.\<close>

fun unique_keys :: "js \<Rightarrow> bool" where
  "unique_keys (JObj fs) = (distinct (map fst fs) \<and> list_all unique_keys (map snd fs))"
| "unique_keys (JArr xs) = list_all unique_keys xs"
| "unique_keys _ = True"

lemma update_present: "map_of al k = Some v \<Longrightarrow> AList.update k v al = al"
  by (induction al) (auto split: if_splits)

lemma deepMerge_absorbs:
  assumes "\<And>k v. map_of s k = Some v \<Longrightarrow> map_of t k = Some (merge_value (fget t k) v)"
    and "distinct (map fst s)"
  shows "deepMerge t s = t"
  using assms
proof (induction s)
  case (Cons e s)
  obtain k v where e: "e = (k, v)" by (cases e)
  have here: "map_of t k = Some (merge_value (fget t k) v)" using Cons.prems(1) e by simp
  have "map_of t k' = Some (merge_value (fget t k') v')" if "map_of s k' = Some v'" for k' v'
  proof -
    have "k' \<noteq> k" using that Cons.prems(2) e by (force dest: map_of_SomeD)
    with that Cons.prems(1) [of k' v'] e show ?thesis by simp
  qed
  with Cons.IH Cons.prems(2) have "deepMerge t s = t" by simp
  with here e show ?case by (simp add: deepMerge_step update_present)
qed simp

lemma unique_keys_field:
  "unique_keys (JObj fs) \<Longrightarrow> map_of fs k = Some v \<Longrightarrow> unique_keys v"
  by (auto simp: list_all_iff dest!: map_of_SomeD)

lemma map_of_size: "map_of fs k = Some v \<Longrightarrow> size v < size (JObj fs)"
  by (induction fs) (auto split: if_splits)

lemma merge_idempotent:
  "unique_keys v \<Longrightarrow> merge_value (merge_value old v) v = merge_value old v"
proof (induction "size v" arbitrary: v old rule: less_induct)
  case less
  show ?case
  proof (cases "isPlainObject v")
    case True
    then obtain s where v: "v = JObj s" by (auto simp: isPlainObject_iff)
    have dist: "distinct (map fst s)" using less.prems v by simp
    have inner: "merge_value (merge_value o' w) w = merge_value o' w" if "map_of s k = Some w" for k w o'
      using less.hyps [of w] map_of_size [OF that] unique_keys_field [OF _ that] less.prems v by simp
    have self: "deepMerge s s = s"
    proof (rule deepMerge_absorbs [OF _ dist])
      fix k w assume k: "map_of s k = Some w"
      then have "merge_value w w = w" using inner [OF k, of JUndef] by simp
      with k show "map_of s k = Some (merge_value (fget s k) w)" by (simp add: fget_def)
    qed
    have "deepMerge (deepMerge t s) s = deepMerge t s" for t
    proof (rule deepMerge_absorbs [OF _ dist])
      fix k w assume k: "map_of s k = Some w"
      then have "map_of (deepMerge t s) k = Some (merge_value (fget t k) w)"
        by (simp add: deepMerge_lookup [OF dist])
      with inner [OF k] show "map_of (deepMerge t s) k = Some (merge_value (fget (deepMerge t s) k) w)"
        by (simp add: fget_def)
    qed
    with self v show ?thesis by (cases "isPlainObject old") (auto simp: isPlainObject_iff)
  qed simp
qed

section \<open>Slots\<close>

text \<open>Reading along a path, where what is missing reads as \<open>undefined\<close>.\<close>

fun read_slot :: "js \<Rightarrow> segment \<Rightarrow> js" where
  "read_slot (JArr xs) (SIndex n) = array_get xs n"
| "read_slot (JArr xs) (SKey k) = (case array_index k of None \<Rightarrow> JUndef | Some n \<Rightarrow> array_get xs n)"
| "read_slot (JObj fs) (SKey k) = fget fs k"
| "read_slot _ _ = JUndef"

definition read_at :: "js \<Rightarrow> segment list \<Rightarrow> js" where
  "read_at = foldl read_slot"

lemma read_at_simps [simp]:
  "read_at c [] = c"
  "read_at c (s # ss) = read_at (read_slot c s) ss"
  by (simp_all add: read_at_def)

text \<open>The containers that have a given slot.\<close>

fun has_slot :: "js \<Rightarrow> segment \<Rightarrow> bool" where
  "has_slot (JArr _) (SIndex _) = True"
| "has_slot (JArr _) (SKey k) = (array_index k \<noteq> None)"
| "has_slot (JObj _) (SKey _) = True"
| "has_slot _ _ = False"

text \<open>The element or the property that a segment names.\<close>

definition slot_of :: "segment \<Rightarrow> nat + string" where
  "slot_of s =
     (case s of
        SIndex n \<Rightarrow> Inl n
      | SKey k \<Rightarrow> (case array_index k of Some n \<Rightarrow> Inl n | None \<Rightarrow> Inr k))"

text \<open>What a write leaves in the slot: only an object key merges.\<close>

definition written :: "segment \<Rightarrow> js \<Rightarrow> js \<Rightarrow> js" where
  "written s old v = (case s of SIndex _ \<Rightarrow> v | SKey _ \<Rightarrow> merge_value old v)"

lemma written_simps [simp]:
  "written (SIndex n) old v = v" "written (SKey k) old v = merge_value old v"
  by (simp_all add: written_def)

lemma array_get_put [simp]:
  "array_get (array_put xs n v) m = (if m = n then v else array_get xs m)"
  by (auto simp: array_get_def array_put_def nth_append nth_Cons')

lemma array_put_again [simp]: "array_put (array_put xs n v) n v = array_put xs n v"
  by (auto simp: array_put_def list_update_append)

lemma array_put_length: "length (array_put xs n v) = max (length xs) (Suc n)"
  by (auto simp: array_put_def)

lemma array_index_inj: "array_index k = Some n \<Longrightarrow> k = nat_str n"
  by (auto simp: array_index_def split: if_splits)

lemma read_put [simp]: "has_slot c s \<Longrightarrow> read_slot (put_slot c s v) s = v"
  by (cases c; cases s) (auto split: option.splits)

lemma read_put_other:
  "has_slot c s \<Longrightarrow> slot_of s \<noteq> slot_of t \<Longrightarrow> read_slot (put_slot c s v) t = read_slot c t"
  by (cases "(c, s)" rule: has_slot.cases; cases t)
     (auto simp: slot_of_def split: option.splits)

lemma put_again [simp]: "put_slot (put_slot c s v) s v = put_slot c s v"
  by (cases c; cases s) (auto simp: update_present split: option.splits)

lemma has_slot_put [simp]: "has_slot (put_slot c s v) t = has_slot c t"
  by (cases "(c, s)" rule: has_slot.cases; cases t) (auto split: option.splits)

lemma write_last_slot:
  "write_last path c s v = Inr c' \<Longrightarrow> has_slot c s \<and> c' = put_slot c s (written s (read_slot c s) v)"
  by (cases c; cases s) (auto split: if_splits option.splits)

lemma step_slot:
  "step_into path c s t = Inr child \<Longrightarrow>
     has_slot c s \<and>
     (child = read_slot c s \<or> is_nullish (read_slot c s) \<and> child = fresh_for t)"
  by (cases c; cases s) (auto split: if_splits option.splits)

text \<open>A path that was written is open: its containers are there, and a second walk finds them.\<close>

lemma step_again:
  assumes "step_into path c s t = Inr child" "\<not> is_nullish w"
  shows "step_into path (put_slot c s w) s t = Inr w"
  using assms
  by (cases c; cases s)
     (auto simp: array_put_length split: if_splits option.splits)

lemma write_last_again:
  assumes "write_last path c s v = Inr c'" "unique_keys v" "\<not> has_proto_key v"
  shows "write_last path c' s v = Inr c'"
  using assms
  by (cases c; cases s)
     (auto simp: array_put_length merge_idempotent update_present split: if_splits option.splits)

lemma write_last_container: "write_last path c s v = Inr c' \<Longrightarrow> \<not> is_nullish c'"
  by (cases c; cases s) (auto split: if_splits option.splits)

lemma put_slot_container: "has_slot c s \<Longrightarrow> \<not> is_nullish (put_slot c s v)"
  by (cases c; cases s) (auto split: option.splits)

lemma write_at_container:
  "write_at path c segs v = Inr c' \<Longrightarrow> segs \<noteq> [] \<Longrightarrow> \<not> is_nullish c'"
  by (cases segs rule: remdups_adj.cases)
     (auto simp: bind_result_Inr_iff dest: write_last_container put_slot_container step_slot)

lemma read_nothing [simp]:
  "read_at JUndef (s # ss) = JUndef" "read_at JNull (s # ss) = JUndef"
  "read_at (fresh_for t) (s # ss) = JUndef"
proof -
  have "read_at JUndef ss = JUndef" for ss by (induction ss) auto
  then show "read_at JUndef (s # ss) = JUndef" "read_at JNull (s # ss) = JUndef"
    "read_at (fresh_for t) (s # ss) = JUndef"
    by (cases s; simp add: fresh_for_def array_get_def split: segment.split option.split)+
qed

lemma write_reads_back:
  assumes "write_at path c segs v = Inr c'" "segs \<noteq> []"
  shows "read_at c' segs = written (last segs) (read_at c segs) v"
  using assms
proof (induction path c segs v arbitrary: c' rule: write_at.induct)
  case (2 path c s v)
  then show ?case by (auto dest: write_last_slot)
next
  case (3 path c s t ss v)
  then obtain child child' where
    child: "step_into path c s t = Inr child" and child': "write_at path child (t # ss) v = Inr child'"
    and c': "c' = put_slot c s child'" by (auto simp: bind_result_Inr_iff)
  have "read_at child (t # ss) = read_at (read_slot c s) (t # ss)"
    using step_slot [OF child] by (auto simp: is_nullish_def simp del: read_at_simps(2))
  with "3.IH" [OF child'] step_slot [OF child] c' show ?case by simp
qed simp

fun apart :: "segment list \<Rightarrow> segment list \<Rightarrow> bool" where
  "apart (s # ss) (t # ts) = (if s = t then apart ss ts else slot_of s \<noteq> slot_of t)"
| "apart _ _ = False"

lemma write_frame:
  assumes "write_at path c segs v = Inr c'" "apart segs ts"
  shows "read_at c' ts = read_at c ts"
  using assms
proof (induction path c segs v arbitrary: c' ts rule: write_at.induct)
  case (2 path c s v)
  then obtain t ts' where "ts = t # ts'" by (cases ts) auto
  with 2 show ?case by (auto dest!: write_last_slot simp: read_put_other split: if_splits)
next
  case (3 path c s t ss v)
  then obtain child child' where
    child: "step_into path c s t = Inr child" and child': "write_at path child (t # ss) v = Inr child'"
    and c': "c' = put_slot c s child'" by (auto simp: bind_result_Inr_iff)
  obtain u us where ts: "ts = u # us" using "3.prems" by (cases ts) auto
  show ?case
  proof (cases "s = u")
    case True
    with "3.prems" ts have ap: "apart (t # ss) us" by simp
    then obtain w ws where us: "us = w # ws" by (cases us) auto
    have "read_at child us = read_at (read_slot c s) us"
      using step_slot [OF child] us by (auto simp: is_nullish_def simp del: read_at_simps(2))
    with "3.IH" [OF child' ap] step_slot [OF child] c' ts True show ?thesis by simp
  next
    case False
    with "3.prems" ts c' step_slot [OF child] show ?thesis by (simp add: read_put_other)
  qed
qed simp

lemma write_again:
  assumes "write_at path c segs v = Inr c'" "unique_keys v" "\<not> has_proto_key v"
  shows "write_at path c' segs v = Inr c'"
  using assms
proof (induction path c segs v arbitrary: c' rule: write_at.induct)
  case (2 path c s v)
  then show ?case by (simp add: write_last_again)
next
  case (3 path c s t ss v)
  then obtain child child' where
    child: "step_into path c s t = Inr child" and child': "write_at path child (t # ss) v = Inr child'"
    and c': "c' = put_slot c s child'" by (auto simp: bind_result_Inr_iff)
  have "\<not> is_nullish child'" using write_at_container [OF child'] by simp
  with step_again [OF child] c' "3.IH" [OF child' "3.prems"(2,3)] show ?case by simp
qed simp

section \<open>Paths\<close>

lemma parse_part_nonempty: "parse_part path part = Inr segs \<Longrightarrow> segs \<noteq> []"
  by (auto simp: parse_part_def Let_def split: option.splits if_splits)

lemma parsePath_nonempty:
  assumes "parsePath path = Inr segs"
  obtains p0 ps segs0 rest where "split_on CHR ''.'' path = p0 # ps" "parse_part path p0 = Inr segs0"
    "segs = segs0 @ rest" "segs0 \<noteq> []"
proof -
  obtain p0 ps where split: "split_on CHR ''.'' path = p0 # ps"
    by (cases "split_on CHR ''.'' path") auto
  with assms obtain segs0 rest where "parse_part path p0 = Inr segs0" "segs = segs0 @ rest"
    by (auto simp: parsePath_def bind_result_Inr_iff)
  with split parse_part_nonempty show thesis by (intro that) auto
qed

lemma parse_part_head:
  assumes "parse_part path part = Inr (SKey k # segs)"
  shows "prefix k part \<and> (k = part \<or> (\<exists>n. segs = [SIndex n]))"
proof -
  have "prefix (takeWhile P xs) xs" for P :: "char \<Rightarrow> bool" and xs
    by (metis prefixI takeWhile_dropWhile_id)
  with assms show ?thesis
    by (auto simp: parse_part_def Let_def split: option.splits if_splits)
qed

text \<open>The first key of a path that is not reserved.\<close>

lemma open_path_head:
  assumes "\<not> isReservedField path" "parsePath path = Inr (SKey k # segs)"
  shows "\<not> starts_underscore k" "k \<in> set topLevelImmutable \<Longrightarrow> \<exists>n rest. segs = SIndex n # rest"
proof -
  obtain p0 ps segs0 rest where split: "split_on CHR ''.'' path = p0 # ps"
    and p0: "parse_part path p0 = Inr segs0" and segs: "SKey k # segs = segs0 @ rest" and ne: "segs0 \<noteq> []"
    using parsePath_nonempty [OF assms(2)] by blast
  from segs ne obtain tl0 where segs0: "segs0 = SKey k # tl0" by (cases segs0) auto
  have head: "prefix k p0" "k = p0 \<or> (\<exists>n. tl0 = [SIndex n])"
    using parse_part_head p0 segs0 by auto
  have "path \<noteq> ''''" if "p0 \<noteq> ''''" using that split by auto
  with assms(1) split have open0: "p0 \<noteq> '''' \<Longrightarrow> p0 \<notin> set topLevelImmutable \<and> \<not> starts_underscore p0"
    by (auto simp: isReservedField_def top_level_def)
  show "\<not> starts_underscore k"
  proof
    assume "starts_underscore k"
    then have "starts_underscore p0" using head(1) prefix_order.trans by blast
    with open0 show False by (cases p0) auto
  qed
  show "\<exists>n rest. segs = SIndex n # rest" if imm: "k \<in> set topLevelImmutable"
  proof -
    from imm head(1) have "p0 \<noteq> ''''" by (auto simp: topLevelImmutable_def)
    with imm open0 head have "\<exists>n. tl0 = [SIndex n]" by auto
    with segs segs0 show ?thesis by auto
  qed
qed

section \<open>The root\<close>

lemma write_root_iff:
  "write_root path fs segs v = Inr fs' \<longleftrightarrow> write_at path (JObj fs) segs v = Inr (JObj fs')"
proof -
  have "\<exists>gs. c = JObj gs" if "write_at path (JObj fs) segs v = Inr c" for c
    using that
  proof (cases segs rule: remdups_adj.cases)
    case (2 s)
    with that show ?thesis by (cases s) (auto split: if_splits)
  next
    case (3 s t ss)
    with that show ?thesis by (cases s) (auto simp: bind_result_Inr_iff)
  qed auto
  then show ?thesis by (force simp: write_root_def bind_result_Inr_iff)
qed

lemma applyDotPath_iff:
  "applyDotPath fs path v = Inr fs' \<longleftrightarrow>
     \<not> isReservedField path \<and>
     (\<exists>segs. parsePath path = Inr segs \<and> segs \<noteq> [] \<and> write_at path (JObj fs) segs v = Inr (JObj fs'))"
  by (auto simp: applyDotPath_def bind_result_Inr_iff write_root_iff elim: parsePath_nonempty)

lemma root_key_frame:
  assumes "write_at path (JObj fs) (SKey k # segs) v = Inr (JObj fs')" "k' \<noteq> k"
  shows "map_of fs' k' = map_of fs k'"
proof (cases segs)
  case Nil
  with assms show ?thesis by (auto split: if_splits)
next
  case (Cons t ss)
  with assms show ?thesis by (auto simp: bind_result_Inr_iff split: if_splits)
qed

definition settled :: "js \<Rightarrow> bool" where
  "settled v \<longleftrightarrow> \<not> is_nullish v \<and> \<not> is_array v"

definition kept_field :: "fields \<Rightarrow> string \<Rightarrow> bool" where
  "kept_field fs k \<longleftrightarrow> starts_underscore k \<or> k \<in> set topLevelImmutable \<and> settled (fget fs k)"

lemma kept_field_cong: "map_of gs k = map_of fs k \<Longrightarrow> kept_field gs k = kept_field fs k"
  by (simp add: kept_field_def fget_def)

text \<open>The root is an object, so a path that was written starts with a key.\<close>

lemma root_path_key:
  assumes "segs \<noteq> []" "write_at path (JObj fs) segs v = Inr (JObj fs')"
  obtains k rest where "segs = SKey k # rest"
proof (cases segs)
  case (Cons s rest)
  with assms that show thesis by (cases s; cases rest) auto
qed (use assms in simp)

lemma index_needs_array: "write_at path c (SIndex n # rest) v = Inr c' \<Longrightarrow> is_array c"
  by (cases c; cases rest) (auto simp: is_array_def)

lemma walk_value:
  "write_at path (JObj fs) (SKey k # t # ss) v = Inr c' \<Longrightarrow> \<not> is_nullish (fget fs k) \<Longrightarrow>
     \<exists>child. write_at path (fget fs k) (t # ss) v = Inr child"
  by (simp add: bind_result_def split: sum.splits if_splits)

lemma write_keeps_reserved:
  assumes "applyDotPath fs path v = Inr fs'" and kept: "kept_field fs k"
  shows "map_of fs' k = map_of fs k"
proof -
  obtain segs where open_path: "\<not> isReservedField path" and parse: "parsePath path = Inr segs"
    and wr: "write_at path (JObj fs) segs v = Inr (JObj fs')" and ne: "segs \<noteq> []"
    using assms(1) by (auto simp: applyDotPath_iff)
  from ne wr obtain k' rest where segs: "segs = SKey k' # rest" by (rule root_path_key)
  have "k' \<noteq> k"
  proof
    assume same: "k' = k"
    from open_path_head [OF open_path, of k' rest] parse segs kept same
    obtain n rest' where "rest = SIndex n # rest'" and "settled (fget fs k)"
      by (auto simp: kept_field_def)
    with wr segs same have "write_at path (JObj fs) (SKey k # SIndex n # rest') v = Inr (JObj fs')"
      by (simp only:)
    then obtain child where "write_at path (fget fs k) (SIndex n # rest') v = Inr child"
      using walk_value \<open>settled (fget fs k)\<close> settled_def by blast
    then have "is_array (fget fs k)" by (rule index_needs_array)
    with \<open>settled (fget fs k)\<close> show False by (simp add: settled_def)
  qed
  with root_key_frame [OF wr [unfolded segs]] show ?thesis by simp
qed

lemma updates_keep_reserved:
  assumes "apply_updates fs ups = Inr fs'" "kept_field fs k"
  shows "map_of fs' k = map_of fs k"
  using assms
proof (induction ups arbitrary: fs)
  case (Cons u ups)
  then obtain path v gs where one: "applyDotPath fs path v = Inr gs" and rest: "apply_updates gs ups = Inr fs'"
    by (cases u) (auto simp: bind_result_Inr_iff)
  have here: "map_of gs k = map_of fs k" by (rule write_keeps_reserved [OF one Cons.prems(2)])
  with Cons.IH [OF rest] Cons.prems(2) kept_field_cong [OF here] show ?case by simp
qed simp

lemma replay_keep_reserved:
  assumes "replay_patch fs ups = Inr fs'" "kept_field fs k"
  shows "map_of fs' k = map_of fs k"
  using assms
proof (induction ups arbitrary: fs)
  case (Cons u ups)
  obtain path v where u: "u = (path, v)" by (cases u)
  show ?case
  proof (cases "applyDotPath fs path v")
    case (Inl e)
    with Cons u show ?thesis by (auto split: if_splits)
  next
    case (Inr gs)
    have here: "map_of gs k = map_of fs k" by (rule write_keeps_reserved [OF Inr Cons.prems(2)])
    with Cons.IH [of gs] Cons.prems kept_field_cong [OF here] Inr u show ?thesis by simp
  qed
qed simp

section \<open>Printed paths\<close>

definition index_text :: "nat \<Rightarrow> string" where
  "index_text n = ''['' @ nat_str n @ '']''"

text \<open>The usual notation: an index follows its name, or stands alone.\<close>

fun path_parts :: "segment list \<Rightarrow> string list" where
  "path_parts [] = []"
| "path_parts (SKey k # SIndex n # ss) =
     (if k = [] then k # index_text n # path_parts ss else (k @ index_text n) # path_parts ss)"
| "path_parts (SKey k # ss) = k # path_parts ss"
| "path_parts (SIndex n # ss) = index_text n # path_parts ss"

definition path_text :: "segment list \<Rightarrow> string" where
  "path_text segs = join_with ''.'' (path_parts segs)"

definition plain_name :: "string \<Rightarrow> bool" where
  "plain_name k \<longleftrightarrow> list_all (\<lambda>c. c \<noteq> CHR ''.'' \<and> c \<noteq> CHR ''['' \<and> c \<noteq> CHR '']'') k"

fun plain_segment :: "segment \<Rightarrow> bool" where
  "plain_segment (SKey k) = plain_name k"
| "plain_segment (SIndex n) = (int n < 9007199254740992)"

lemma split_on_append: "c \<notin> set p \<Longrightarrow> split_on c (p @ c # s) = p # split_on c s"
  by (induction p) auto

lemma split_on_join:
  "ps \<noteq> [] \<Longrightarrow> (\<And>p. p \<in> set ps \<Longrightarrow> c \<notin> set p) \<Longrightarrow> split_on c (join_with [c] ps) = ps"
proof (induction "[c]" ps rule: join_with.induct)
  case (3 x y ys)
  then show ?case by (simp add: split_on_append)
qed (auto simp: split_on_single)

lemma nat_str_chars: "c \<in> set (nat_str n) \<Longrightarrow> c \<noteq> CHR ''.'' \<and> c \<noteq> CHR ''['' \<and> c \<noteq> CHR '']''"
proof -
  assume "c \<in> set (nat_str n)"
  then have "Canonical_Json.is_digit c" using nat_str_digits [of n] by (simp add: list_all_iff)
  then show ?thesis by (auto simp: Canonical_Json.is_digit_def)
qed

lemma index_text_parts:
  assumes "plain_name k"
  shows "takeWhile (\<lambda>c. c \<noteq> CHR ''['') (k @ index_text n) = k"
    and "bracket_inner (k @ index_text n) = Some (nat_str n)"
proof -
  have no: "\<forall>c \<in> set k. c \<noteq> CHR ''[''" using assms by (auto simp: plain_name_def list_all_iff)
  then show "takeWhile (\<lambda>c. c \<noteq> CHR ''['') (k @ index_text n) = k"
    by (simp add: index_text_def takeWhile_append)
  have "dropWhile (\<lambda>c. c \<noteq> CHR ''['') (k @ index_text n) = index_text n"
    using no by (simp add: index_text_def dropWhile_append)
  then show "bracket_inner (k @ index_text n) = Some (nat_str n)"
    by (simp add: bracket_inner_def index_text_def butlast_append)
qed

lemma index_value_nat_str: "int n < 9007199254740992 \<Longrightarrow> index_value (nat_str n) = Some n"
  using nat_str_digits [of n] by (simp add: index_value_def round_to_double_def)

lemma parse_index_text:
  "plain_name k \<Longrightarrow> int n < 9007199254740992 \<Longrightarrow>
     parse_part path (k @ index_text n) = Inr ((if k = [] then [] else [SKey k]) @ [SIndex n])"
  using nat_str_digits [of n]
  by (simp add: parse_part_def index_text_parts all_digits_def Let_def index_value_nat_str)

lemma parse_name: "plain_name k \<Longrightarrow> parse_part path k = Inr [SKey k]"
proof -
  assume "plain_name k"
  then have no: "CHR ''['' \<notin> set k" "CHR '']'' \<notin> set k" by (auto simp: plain_name_def list_all_iff)
  then have "dropWhile (\<lambda>c. c \<noteq> CHR ''['') k = []" by (auto simp: dropWhile_eq_Nil_conv)
  with no show ?thesis by (simp add: parse_part_def bracket_inner_def)
qed

lemma plain_empty [simp]: "plain_name []"
  by (simp add: plain_name_def)

lemma parse_printed:
  "list_all plain_segment segs \<Longrightarrow> parse_parts path (path_parts segs) = Inr segs"
proof (induction segs rule: path_parts.induct)
  case (2 k n ss)
  then show ?case using parse_index_text [of "[]" n path] parse_index_text [of k n path] parse_name [of k path]
      parse_name [of "[]" path]
    by simp
next
  case (4 n ss)
  then show ?case using parse_index_text [of "[]" n path] by simp
qed (simp_all add: parse_name)

lemma printed_chars:
  "list_all plain_segment segs \<Longrightarrow> p \<in> set (path_parts segs) \<Longrightarrow> CHR ''.'' \<notin> set p"
proof (induction segs rule: path_parts.induct)
  case (2 k n ss)
  then show ?case using nat_str_chars by (fastforce simp: index_text_def plain_name_def list_all_iff split: if_splits)
qed (use nat_str_chars in \<open>fastforce simp: index_text_def plain_name_def list_all_iff\<close>)+

lemma path_parts_nonempty: "segs \<noteq> [] \<Longrightarrow> path_parts segs \<noteq> []"
  by (cases segs rule: path_parts.cases) auto

lemma dot_path_parses:
  assumes "segs \<noteq> []" "list_all plain_segment segs"
  shows "parsePath (path_text segs) = Inr segs"
  using split_on_join [OF path_parts_nonempty [OF assms(1)], of "CHR ''.''"]
    printed_chars [OF assms(2)] parse_printed [OF assms(2)]
  by (simp add: parsePath_def path_text_def)

text \<open>
  a path that is written in the usual notation names exactly its segments: for names without dots and
  brackets and indices below 2 to the power 53, from where on parseInt rounds, parsing the text of a path
  gives the path back.
\<close>

theorem dot_path_roundtrip:
  assumes "segs \<noteq> []" "list_all plain_segment segs"
  shows "parsePath (path_text segs) = Inr segs"
  using assms by (rule dot_path_parses)

lemma dot_path_roundtrip_witness:
  "parsePath (path_text [SKey ''tasks'', SIndex 10, SKey ''status'']) =
     Inr [SKey ''tasks'', SIndex 10, SKey ''status'']"
  by (rule dot_path_roundtrip) (simp_all add: plain_name_def)

section \<open>Properties of the writes\<close>

text \<open>
  C28: a dot-path write does what its path says and nothing else. If applyDotPath accepts a write, and the
  write does not go through a property that a value inherits from its prototype (such a write is outside
  the model, and constructor.prototype.x changes every object of the process), then the path parses, reading
  along it afterwards gives the written value (merged with the old one where both are plain objects at an
  object key), and every path that parts from it at some slot reads as before.
\<close>

theorem dot_path_write_is_local:
  assumes "applyDotPath fs path v = Inr fs'"
  shows "\<exists>segs. parsePath path = Inr segs \<and> segs \<noteq> [] \<and>
    read_at (JObj fs') segs = written (last segs) (read_at (JObj fs) segs) v \<and>
    (\<forall>ts. apart segs ts \<longrightarrow> read_at (JObj fs') ts = read_at (JObj fs) ts)"
proof -
  obtain segs where "parsePath path = Inr segs" "segs \<noteq> []"
    and wr: "write_at path (JObj fs) segs v = Inr (JObj fs')"
    using assms by (auto simp: applyDotPath_iff)
  with write_reads_back [OF wr] write_frame [OF wr] show ?thesis by blast
qed

lemma dot_path_write_is_local_witness:
  "\<exists>segs. parsePath ''tasks[0].status'' = Inr segs \<and> segs \<noteq> [] \<and>
    read_at (JObj [(''tasks'', JArr [JObj [(''status'', JStr ''complete'')]])]) segs =
      written (last segs) (read_at (JObj [(''tasks'', JArr [JObj [(''status'', JStr ''pending'')]])]) segs)
        (JStr ''complete'') \<and>
    \<not> (\<exists>ts. apart segs ts \<and>
      read_at (JObj [(''tasks'', JArr [JObj [(''status'', JStr ''complete'')]])]) ts \<noteq>
      read_at (JObj [(''tasks'', JArr [JObj [(''status'', JStr ''pending'')]])]) ts)"
proof -
  have "applyDotPath [(''tasks'', JArr [JObj [(''status'', JStr ''pending'')]])] ''tasks[0].status''
      (JStr ''complete'') = Inr [(''tasks'', JArr [JObj [(''status'', JStr ''complete'')]])]"
    by code_simp
  from dot_path_write_is_local [OF this] show ?thesis by blast
qed

text \<open>
  C6: no field update reaches a reserved field. Whatever updates a request holds, if they are accepted then
  every top-level field whose name starts with an underscore, and each of phase, workflowType, featureId,
  createdAt and version that holds a value other than an array, is exactly what it was; and so it is after
  the replay of any patch that the fold gets through.
\<close>

theorem reserved_fields_survive:
  assumes "apply_updates fs ups = Inr fs' \<or> replay_patch fs ups = Inr fs'" and "kept_field fs k"
  shows "map_of fs' k = map_of fs k"
  using assms updates_keep_reserved replay_keep_reserved by blast

lemma reserved_fields_survive_witness:
  "replay_patch [(''phase'', JStr ''plan''), (''tasks'', JArr [])]
     [(''phase'', JStr ''completed''), (''tasks[0]'', JNull)] =
   Inr [(''phase'', JStr ''plan''), (''tasks'', JArr [JNull])] \<and>
   map_of [(''phase'', JStr ''plan''), (''tasks'', JArr [JNull])] ''phase'' =
   map_of [(''phase'', JStr ''plan''), (''tasks'', JArr [])] ''phase''"
proof -
  have run: "replay_patch [(''phase'', JStr ''plan''), (''tasks'', JArr [])]
     [(''phase'', JStr ''completed''), (''tasks[0]'', JNull)] =
   Inr [(''phase'', JStr ''plan''), (''tasks'', JArr [JNull])]" by code_simp
  have "kept_field [(''phase'', JStr ''plan''), (''tasks'', JArr [])] ''phase''"
    by (simp add: kept_field_def topLevelImmutable_def settled_def is_array_def)
  with run show ?thesis using reserved_fields_survive [OF disjI2 [OF run]] by blast
qed

text \<open>
  a write that is repeated changes nothing more. When a client resends an accepted update and the
  server appends a second patch with the same field, the fold of both is the fold of one.
\<close>

theorem dot_path_write_idempotent:
  assumes "applyDotPath fs path v = Inr fs'" "unique_keys v" "\<not> has_proto_key v"
  shows "applyDotPath fs' path v = Inr fs'"
  using assms by (auto simp: applyDotPath_iff dest: write_again)

lemma dot_path_write_idempotent_witness:
  "applyDotPath [(''tasks'', JArr [JNull, JUndef, JNull])] ''tasks[2]'' JNull =
     Inr [(''tasks'', JArr [JNull, JUndef, JNull])]"
proof -
  have "applyDotPath [(''tasks'', JArr [JNull])] ''tasks[2]'' JNull = Inr [(''tasks'', JArr [JNull, JUndef, JNull])]"
    by code_simp
  from dot_path_write_idempotent [OF this] show ?thesis by simp
qed

section \<open>The bound on array growth\<close>

lemma path_text_split:
  "segs \<noteq> [] \<Longrightarrow> list_all plain_segment segs \<Longrightarrow> split_on CHR ''.'' (path_text segs) = path_parts segs"
  using split_on_join [OF path_parts_nonempty, of segs "CHR ''.''"] printed_chars [of segs]
  by (simp add: path_text_def)

lemma nat_str_name: "plain_name (nat_str n)"
  using nat_str_chars [of _ n] by (auto simp: plain_name_def list_all_iff)

lemma nat_str_no_underscore: "\<not> starts_underscore (nat_str n)"
proof
  assume "starts_underscore (nat_str n)"
  then have "CHR ''_'' \<in> set (nat_str n)" by (auto simp: prefix_def)
  then have "Canonical_Json.is_digit CHR ''_''" using nat_str_digits [of n] by (auto simp: list_all_iff)
  then show False by (simp add: Canonical_Json.is_digit_def)
qed

lemma array_index_text: "n < 2 ^ 32 - 1 \<Longrightarrow> array_index (nat_str n) = Some n"
  using nat_str_digits [of n] by (simp add: array_index_def all_digits_def)

text \<open>The elements of an array after a write with a bracketed index: at most two more than before.\<close>

lemma bracketed_growth:
  "write_last path (JArr xs) (SIndex n) v = Inr (JArr ys) \<Longrightarrow> length ys \<le> length xs + 2"
  by (auto simp: array_put_length MAX_ARRAY_GAP_def split: if_splits)

text \<open>
  C36: the bound on array growth is on brackets only. For an empty task list and any index above one,
  tasks[n] is refused because it would leave a gap, while tasks.n, the same element in JavaScript, is
  written and leaves an array of n + 1 places, all but the last one holes.
\<close>

theorem dotted_index_escapes_bound:
  assumes "1 < n" "n < 2 ^ 32 - 1"
  shows "applyDotPath [(''tasks'', JArr [])] (path_text [SKey ''tasks'', SIndex n]) v =
      Inl (IndexGap n 0 (path_text [SKey ''tasks'', SIndex n])) \<and>
    applyDotPath [(''tasks'', JArr [])] (path_text [SKey ''tasks'', SKey (nat_str n)]) v =
      Inr [(''tasks'', JArr (replicate n JUndef @ [v]))]"
proof -
  let ?a = "[SKey ''tasks'', SIndex n]" and ?b = "[SKey ''tasks'', SKey (nat_str n)]"
  have plain: "list_all plain_segment ?a" "list_all plain_segment ?b"
    using nat_str_name [of n] assms(2) by (simp_all add: plain_name_def)
  have text_a: "path_text ?a = ''tasks'' @ index_text n" and text_b: "path_text ?b = ''tasks.'' @ nat_str n"
    by (simp_all add: path_text_def)
  have open_paths: "\<not> isReservedField (path_text ?a)" "\<not> isReservedField (path_text ?b)"
    using path_text_split [OF _ plain(1)] path_text_split [OF _ plain(2)] nat_str_no_underscore [of n]
    by (simp_all add: isReservedField_def top_level_def topLevelImmutable_def text_a text_b)
  have parsed: "parsePath (path_text ?a) = Inr ?a" "parsePath (path_text ?b) = Inr ?b"
    by (rule dot_path_parses; use plain in simp)+
  show ?thesis
    using open_paths parsed assms array_index_text [OF assms(2)]
    by (simp add: applyDotPath_def write_root_def MAX_ARRAY_GAP_def array_put_def array_get_def
        merge_value_def split: js.splits)
qed

lemma dotted_index_escapes_bound_witness:
  "applyDotPath [(''tasks'', JArr [])] (path_text [SKey ''tasks'', SIndex 3]) (JStr ''x'') =
      Inl (IndexGap 3 0 (path_text [SKey ''tasks'', SIndex 3])) \<and>
    applyDotPath [(''tasks'', JArr [])] (path_text [SKey ''tasks'', SKey (nat_str 3)]) (JStr ''x'') =
      Inr [(''tasks'', JArr (replicate 3 JUndef @ [JStr ''x'']))]"
  by (rule dotted_index_escapes_bound) simp_all

section \<open>Rejections\<close>

lemma reserved_path_has_hint:
  assumes "isReservedField path"
  shows "resolveAlternateWritePath path \<noteq> None"
proof (cases "map_of alternateWritePaths (top_level path)")
  case None
  then have "top_level path \<notin> set topLevelImmutable"
    by (auto simp: alternateWritePaths_def topLevelImmutable_def split: if_splits)
  with assms have "pattern_matches ''^_.*'' path \<or>
      list_ex (pattern_matches ''^_.*'') (split_on CHR ''.'' path)"
    by (auto simp: isReservedField_def pattern_matches_def list_ex_iff)
  moreover obtain hint where "(''^_.*'', hint) \<in> set alternateWritePaths"
    by (auto simp: alternateWritePaths_def)
  ultimately have "find (\<lambda>(key, hint). pattern_matches key path \<or>
      list_ex (pattern_matches key) (split_on CHR ''.'' path)) alternateWritePaths \<noteq> None"
    by (auto simp: find_None_iff)
  then show ?thesis using None by (simp add: resolveAlternateWritePath_def)
qed (simp add: resolveAlternateWritePath_def)

end
