(* ===== verification/View_Fold.thy ===== *)
theory View_Fold
  imports Event_Log
begin

text \<open>
  The cache of folded views and the fold at a pinned tail: \<open>src/projections/views/materializer.ts\<close> with the
  file names of \<open>src/projections/views/snapshot-store.ts\<close>, \<open>src/projections/fold-at-tail.ts\<close>, the plan of
  \<open>src/workflow/rehydrate-precedence.ts\<close> and the verdict of \<open>src/projections/freshness.ts\<close>.

  A projection is any initial state with a step that may raise an error. The cache is the JavaScript map of
  the source, a list of entries from the least to the most recently used. A view is persisted as its JSON text;
  what the text reads back as is a field of the materializer, since the views of a projection are of any type:
  \<open>None\<close> stands for a view that \<open>JSON.stringify\<close> throws on, whose write is logged and skipped. A persisted
  view is one that this program wrote under the same schema version. Log messages are left out.
\<close>

section \<open>Projections\<close>

record ('e, 's) projection =
  pj_init :: 's
  pj_apply :: "'s \<Rightarrow> wf_event \<Rightarrow> 'e + 's"

fun fold_events :: "('s \<Rightarrow> wf_event \<Rightarrow> 'e + 's) \<Rightarrow> 's \<Rightarrow> wf_event list \<Rightarrow> 'e + 's" where
  "fold_events step s [] = Inr s"
| "fold_events step s (e # es) = bind_result (step s e) (\<lambda>s'. fold_events step s' es)"

record 's view_state =
  vs_view :: 's
  vs_hwm :: nat

section \<open>Freshness and the plan\<close>

datatype degradation_reason = ProjectionBehind | ProjectionAhead

record freshness =
  fr_degraded :: bool
  fr_reason :: "degradation_reason option"
  fr_eventTail :: nat
  fr_cursor :: nat
  fr_lag :: int
  fr_staleViews :: "string list"

definition assessProjectionFreshness :: "nat \<Rightarrow> nat \<Rightarrow> string option \<Rightarrow> freshness" where
  "assessProjectionFreshness eventTail cursor viewName =
     (let lag = int eventTail - int cursor
      in if lag = 0
         then \<lparr>fr_degraded = False, fr_reason = None, fr_eventTail = eventTail, fr_cursor = cursor,
               fr_lag = 0, fr_staleViews = []\<rparr>
         else \<lparr>fr_degraded = True,
               fr_reason = Some (if lag > 0 then ProjectionBehind else ProjectionAhead),
               fr_eventTail = eventTail, fr_cursor = cursor, fr_lag = lag,
               fr_staleViews = (case viewName of None \<Rightarrow> [] | Some n \<Rightarrow> [n])\<rparr>)"

datatype rehydration_source = EventFold | SummarySnapshot | StateStore

definition REHYDRATION_SOURCE_PRECEDENCE :: "rehydration_source list" where
  "REHYDRATION_SOURCE_PRECEDENCE = [EventFold, SummarySnapshot, StateStore]"

record snapshot_position =
  sp_hasSnapshot :: bool
  sp_cursor :: nat
  sp_eventTail :: "nat option"
  sp_viewName :: "string option"

record rehydration_plan =
  rp_source :: rehydration_source
  rp_seed :: bool
  rp_since :: nat
  rp_degraded :: bool
  rp_freshness :: "freshness option"

definition seeded_plan :: "rehydration_source \<Rightarrow> snapshot_position \<Rightarrow> rehydration_plan" where
  "seeded_plan src pos =
     \<lparr>rp_source = src, rp_seed = True, rp_since = sp_cursor pos, rp_degraded = False, rp_freshness = None\<rparr>"

definition planRehydrationSource :: "snapshot_position \<Rightarrow> rehydration_plan" where
  "planRehydrationSource pos =
     (if \<not> sp_hasSnapshot pos then
        \<lparr>rp_source = EventFold, rp_seed = False, rp_since = 0, rp_degraded = False, rp_freshness = None\<rparr>
      else case sp_eventTail pos of
        None \<Rightarrow> seeded_plan SummarySnapshot pos
      | Some eventTail \<Rightarrow>
          let f = assessProjectionFreshness eventTail (sp_cursor pos) (sp_viewName pos)
          in case fr_reason f of
               Some ProjectionAhead \<Rightarrow>
                 \<lparr>rp_source = EventFold, rp_seed = False, rp_since = 0, rp_degraded = True,
                  rp_freshness = Some f\<rparr>
             | Some ProjectionBehind \<Rightarrow> seeded_plan EventFold pos
             | None \<Rightarrow> seeded_plan SummarySnapshot pos)"

section \<open>Snapshot files\<close>

definition safe_id_char :: "char \<Rightarrow> bool" where
  "safe_id_char c \<longleftrightarrow>
     (let n = of_char c :: nat in (97 \<le> n \<and> n \<le> 122) \<or> (48 \<le> n \<and> n \<le> 57) \<or> c = CHR ''-'')"

definition isSnapshotSafeId :: "string \<Rightarrow> bool" where
  "isSnapshotSafeId i \<longleftrightarrow> i \<noteq> [] \<and> list_all safe_id_char i"

datatype snapshot_error = InvalidStreamId string | InvalidViewName string | InheritedViewName string

text \<open>
  The lookup of the snapshot name is one on an object, so a view name that every object inherits finds the
  inherited property, whose text is no safe id.
\<close>

definition resolveSnapshotName :: "(string \<times> string) list \<Rightarrow> string \<Rightarrow> snapshot_error + string" where
  "resolveSnapshotName namespaces viewName =
     (case map_of namespaces viewName of
        Some n \<Rightarrow> Inr n
      | None \<Rightarrow> if viewName \<in> set object_names then Inl (InheritedViewName viewName) else Inr viewName)"

text \<open>With safe ids, which have no dot and no slash, the path stays in its directory and names one pair.\<close>

definition getSnapshotPath :: "(string \<times> string) list \<Rightarrow> string \<Rightarrow> string \<Rightarrow> snapshot_error + string \<times> string" where
  "getSnapshotPath namespaces streamId viewName =
     (if \<not> isSnapshotSafeId streamId then Inl (InvalidStreamId streamId)
      else bind_result (resolveSnapshotName namespaces viewName) (\<lambda>n.
        if \<not> isSnapshotSafeId n then Inl (InvalidViewName n) else Inr (streamId, n)))"

section \<open>The materializer\<close>

datatype persistence = NoPersistence | BackendCache | SnapshotFiles

type_synonym 's states = "(string \<times> 's view_state) list"

text \<open>The file of a snapshot is named by its stream and by the snapshot name of its view.\<close>

type_synonym snapshot_file = "string \<times> string"

record ('e, 's) materializer =
  mz_projections :: "(string \<times> ('e, 's) projection) list"
  mz_states :: "'s states"
  mz_lastSnapshot :: "(string \<times> nat) list"
  mz_persistence :: persistence
  mz_namespaces :: "(string \<times> string) list"
  mz_json :: "'s \<Rightarrow> 's option"
  mz_persisted :: "(snapshot_file \<times> 's view_state) list"
  mz_pending :: "((string \<times> string) \<times> 's view_state) list"
  mz_interval :: nat
  mz_maxEntries :: int
  mz_window :: nat
  mz_hits :: nat
  mz_misses :: nat
  mz_bypasses :: nat
  mz_recentMisses :: nat
  mz_recentTotal :: nat

definition isInternalSentinelStream :: "string \<Rightarrow> bool" where
  "isInternalSentinelStream i = prefix ''__'' i"

definition state_key :: "string \<Rightarrow> string \<Rightarrow> string" where
  "state_key streamId viewName = viewName @ '':'' @ streamId"

definition register :: "string \<Rightarrow> ('e, 's) projection \<Rightarrow> ('e, 's) materializer \<Rightarrow> ('e, 's) materializer" where
  "register viewName p m = m\<lparr>mz_projections := AList.update viewName p (mz_projections m)\<rparr>"

definition unregister :: "string \<Rightarrow> ('e, 's) materializer \<Rightarrow> ('e, 's) materializer" where
  "unregister viewName m =
     (let gone = (\<lambda>k. prefix (viewName @ '':'') k);
          cached = filter gone (map fst (mz_states m))
      in m\<lparr>mz_projections := AList.delete viewName (mz_projections m),
           mz_states := filter (\<lambda>(k, _). \<not> gone k) (mz_states m),
           mz_lastSnapshot := filter (\<lambda>(k, _). k \<notin> set cached) (mz_lastSnapshot m)\<rparr>)"

text \<open>The loop that drops the least recently used entries while the cache is too large.\<close>

partial_function (option) evict_loop ::
  "int \<Rightarrow> 's states \<Rightarrow> (string \<times> nat) list \<Rightarrow> ('s states \<times> (string \<times> nat) list) option" where
  "evict_loop most states snaps =
     (if int (length states) > most
      then (case states of
              [] \<Rightarrow> Some (states, snaps)
            | oldest # rest \<Rightarrow> evict_loop most rest (AList.delete (fst oldest) snaps))
      else Some (states, snaps))"

definition evictIfNeeded :: "('e, 's) materializer \<Rightarrow> ('e, 's) materializer" where
  "evictIfNeeded m =
     (case evict_loop (mz_maxEntries m) (mz_states m) (mz_lastSnapshot m) of
        None \<Rightarrow> m
      | Some (states, snaps) \<Rightarrow> m\<lparr>mz_states := states, mz_lastSnapshot := snaps\<rparr>)"

definition count_lookup :: "bool \<Rightarrow> ('e, 's) materializer \<Rightarrow> ('e, 's) materializer" where
  "count_lookup hit m =
     (let missed = (if hit then 0 else 1);
          recent = mz_recentTotal m + 1;
          reset = (mz_window m \<le> recent)
      in m\<lparr>mz_hits := mz_hits m + (1 - missed), mz_misses := mz_misses m + missed,
           mz_recentMisses := (if reset then 0 else mz_recentMisses m + missed),
           mz_recentTotal := (if reset then 0 else recent)\<rparr>)"

definition newer :: "nat \<Rightarrow> wf_event list \<Rightarrow> wf_event list" where
  "newer n es = filter (\<lambda>e. n < we_sequence e) es"

definition reached :: "nat \<Rightarrow> wf_event list \<Rightarrow> nat" where
  "reached n es = (if es = [] then n else we_sequence (last es))"

definition start_state :: "'s \<Rightarrow> 's view_state option \<Rightarrow> 's view_state" where
  "start_state init cached =
     (case cached of Some st \<Rightarrow> st | None \<Rightarrow> \<lparr>vs_view = init, vs_hwm = 0\<rparr>)"

definition touch_state :: "string \<Rightarrow> 's view_state \<Rightarrow> ('e, 's) materializer \<Rightarrow> ('e, 's) materializer" where
  "touch_state key st m = m\<lparr>mz_states := AList.delete key (mz_states m) @ [(key, st)]\<rparr>"

text \<open>A write puts the text of the view in the place of the earlier one.\<close>

definition write_view :: "snapshot_file \<Rightarrow> 's view_state \<Rightarrow> ('e, 's) materializer \<Rightarrow> ('e, 's) materializer" where
  "write_view k st m =
     (case mz_json m (vs_view st) of
        None \<Rightarrow> m
      | Some w \<Rightarrow> m\<lparr>mz_persisted := AList.update k (st\<lparr>vs_view := w\<rparr>) (mz_persisted m)\<rparr>)"

definition save_if_due ::
  "string \<Rightarrow> string \<Rightarrow> 's view_state \<Rightarrow> ('e, 's) materializer \<Rightarrow> ('e, 's) materializer" where
  "save_if_due streamId viewName st m =
     (let key = state_key streamId viewName;
          last_saved = (case map_of (mz_lastSnapshot m) key of None \<Rightarrow> 0 | Some n \<Rightarrow> n)
      in if int (vs_hwm st) - int last_saved < int (mz_interval m) then m
         else let m' = m\<lparr>mz_lastSnapshot := AList.update key (vs_hwm st) (mz_lastSnapshot m)\<rparr>
           in case mz_persistence m of
                NoPersistence \<Rightarrow> m'
              | BackendCache \<Rightarrow> write_view (streamId, viewName) st m'
              | SnapshotFiles \<Rightarrow> m'\<lparr>mz_pending := mz_pending m' @ [((streamId, viewName), st)]\<rparr>)"

datatype 'e materialize_error = NoProjection string | ApplyFailed 'e

definition materializeAt ::
  "('e, 's) materializer \<Rightarrow> string \<Rightarrow> string \<Rightarrow> wf_event list \<Rightarrow>
    ('e, 's) materializer \<times> ('e materialize_error + 's view_state)" where
  "materializeAt m streamId viewName events =
     (case map_of (mz_projections m) viewName of
        None \<Rightarrow> (m, Inl (NoProjection viewName))
      | Some p \<Rightarrow>
          if isInternalSentinelStream streamId then (m, Inr \<lparr>vs_view = pj_init p, vs_hwm = 0\<rparr>)
          else let key = state_key streamId viewName;
                   cached = map_of (mz_states m) key;
                   m' = count_lookup (cached \<noteq> None) m;
                   st = start_state (pj_init p) cached;
                   fresh = newer (vs_hwm st) events
            in case fold_events (pj_apply p) (vs_view st) fresh of
                 Inl err \<Rightarrow> (m', Inl (ApplyFailed err))
               | Inr v \<Rightarrow>
                   let st' = \<lparr>vs_view = v, vs_hwm = reached (vs_hwm st) fresh\<rparr>;
                       m'' = evictIfNeeded (touch_state key st' m')
                   in (if fresh = [] then m'' else save_if_due streamId viewName st' m'', Inr st'))"

text \<open>
  The end of a snapshot write: an unsafe name is an error that is logged. Writes run side by side and end in
  any order; \<open>flush\<close> waits for all of them.
\<close>

definition finish_snapshot ::
  "(string \<times> string) \<times> 's view_state \<Rightarrow> ('e, 's) materializer \<Rightarrow> ('e, 's) materializer" where
  "finish_snapshot w m =
     (case getSnapshotPath (mz_namespaces m) (fst (fst w)) (snd (fst w)) of
        Inl _ \<Rightarrow> m
      | Inr file \<Rightarrow> write_view file (snd w) m)"

definition finish_pending :: "nat \<Rightarrow> ('e, 's) materializer \<Rightarrow> ('e, 's) materializer" where
  "finish_pending i m =
     (if i < length (mz_pending m)
      then finish_snapshot (mz_pending m ! i)
             (m\<lparr>mz_pending := take i (mz_pending m) @ drop (Suc i) (mz_pending m)\<rparr>)
      else m)"

definition flush :: "('e, 's) materializer \<Rightarrow> ('e, 's) materializer" where
  "flush m = (fold finish_snapshot (mz_pending m) m)\<lparr>mz_pending := []\<rparr>"

definition store_key :: "('e, 's) materializer \<Rightarrow> string \<Rightarrow> string \<Rightarrow> snapshot_error + snapshot_file" where
  "store_key m streamId viewName =
     (if mz_persistence m = SnapshotFiles then getSnapshotPath (mz_namespaces m) streamId viewName
      else Inr (streamId, viewName))"

definition loadFromSnapshot ::
  "('e, 's) materializer \<Rightarrow> string \<Rightarrow> string \<Rightarrow> ('e, 's) materializer \<times> (snapshot_error + bool)" where
  "loadFromSnapshot m streamId viewName =
     (if isInternalSentinelStream streamId \<or> mz_persistence m = NoPersistence then (m, Inr False)
      else case store_key m streamId viewName of
        Inl err \<Rightarrow> (m, Inl err)
      | Inr file \<Rightarrow>
          (case map_of (mz_persisted m) file of
             None \<Rightarrow> (m, Inr False)
           | Some st \<Rightarrow>
               let key = state_key streamId viewName
               in (evictIfNeeded
                     (m\<lparr>mz_states := AList.update key st (mz_states m),
                        mz_lastSnapshot := AList.update key (vs_hwm st) (mz_lastSnapshot m)\<rparr>), Inr True)))"

definition getState ::
  "('e, 's) materializer \<Rightarrow> string \<Rightarrow> string \<Rightarrow> ('e, 's) materializer \<times> 's view_state option" where
  "getState m streamId viewName =
     (let key = state_key streamId viewName
      in case map_of (mz_states m) key of
           None \<Rightarrow> (m, None)
         | Some st \<Rightarrow> (touch_state key st m, Some st))"

definition getStreamCursors :: "('e, 's) materializer \<Rightarrow> string \<Rightarrow> (string \<times> nat) list" where
  "getStreamCursors m streamId =
     (let tail_text = '':'' @ streamId
      in map (\<lambda>(k, st). (take (length k - length tail_text) k, vs_hwm st))
           (filter (\<lambda>(k, _). suffix tail_text k) (mz_states m)))"

definition discardFold :: "('e, 's) materializer \<Rightarrow> string \<Rightarrow> string \<Rightarrow> ('e, 's) materializer" where
  "discardFold m streamId viewName =
     m\<lparr>mz_states := AList.delete (state_key streamId viewName) (mz_states m),
       mz_lastSnapshot := AList.delete (state_key streamId viewName) (mz_lastSnapshot m)\<rparr>"

definition loadState ::
  "('e, 's) materializer \<Rightarrow> string \<Rightarrow> string \<Rightarrow> 's view_state \<Rightarrow> ('e, 's) materializer" where
  "loadState m streamId viewName st =
     evictIfNeeded (m\<lparr>mz_states := AList.update (state_key streamId viewName) st (mz_states m)\<rparr>)"

definition recordBypass :: "('e, 's) materializer \<Rightarrow> ('e, 's) materializer" where
  "recordBypass m = m\<lparr>mz_bypasses := mz_bypasses m + 1\<rparr>"

definition materializeFresh ::
  "('e, 's) materializer \<Rightarrow> string \<Rightarrow> wf_event list \<Rightarrow> ('e, 's) materializer \<times> ('e materialize_error + 's)" where
  "materializeFresh m viewName events =
     (case map_of (mz_projections m) viewName of
        None \<Rightarrow> (m, Inl (NoProjection viewName))
      | Some p \<Rightarrow>
          (recordBypass m,
           case fold_events (pj_apply p) (pj_init p) events of
             Inl err \<Rightarrow> Inl (ApplyFailed err)
           | Inr v \<Rightarrow> Inr v))"

section \<open>The fold at the tail\<close>

datatype 'e fold_error =
    Materialize "'e materialize_error"
  | ProjectionCoverageError string string freshness
  | Unloadable snapshot_error

record 's fold_at_tail =
  ft_view :: 's
  ft_sequence :: nat
  ft_repaired :: "freshness option"

text \<open>\<open>tailSequence\<close> is the sequence counter of the stream, which a prune of its rows does not lower.\<close>

definition pinTail :: "string \<Rightarrow> nat \<Rightarrow> nat" where
  "pinTail streamId tailSequence = (if isInternalSentinelStream streamId then 0 else tailSequence)"

definition query_from :: "nat \<Rightarrow> wf_event list \<Rightarrow> wf_event list" where
  "query_from since rows =
     (if since > 0 then run_query (no_filters\<lparr>qf_sinceSequence := Some since\<rparr>) rows
      else run_query no_filters rows)"

text \<open>The state of the cache before the plan: a cold view first loads its snapshot.\<close>

definition warm_up ::
  "('e, 's) materializer \<Rightarrow> string \<Rightarrow> string \<Rightarrow>
    ('e, 's) materializer \<times> (snapshot_error + 's view_state option)" where
  "warm_up m streamId viewName =
     (case getState m streamId viewName of
        (m1, Some st) \<Rightarrow> map_prod id Inr (getState m1 streamId viewName)
      | (m1, None) \<Rightarrow>
          (case loadFromSnapshot m1 streamId viewName of
             (m2, Inl err) \<Rightarrow> (m2, Inl err)
           | (m2, Inr _) \<Rightarrow> map_prod id Inr (getState m2 streamId viewName)))"

definition foldAtPinnedTail ::
  "('e, 's) materializer \<Rightarrow> wf_event list \<Rightarrow> string \<Rightarrow> string \<Rightarrow> nat \<Rightarrow>
    ('e, 's) materializer \<times> ('e fold_error + 's fold_at_tail)" where
  "foldAtPinnedTail m rows streamId viewName eventTail =
     (if isInternalSentinelStream streamId then
        (case materializeAt m streamId viewName [] of
           (m', Inl err) \<Rightarrow> (m', Inl (Materialize err))
         | (m', Inr st) \<Rightarrow> (m', Inr \<lparr>ft_view = vs_view st, ft_sequence = 0, ft_repaired = None\<rparr>))
      else
        case warm_up m streamId viewName of
          (m1, Inl err) \<Rightarrow> (m1, Inl (Unloadable err))
        | (m1, Inr cached) \<Rightarrow>
            let plan = planRehydrationSource
                  \<lparr>sp_hasSnapshot = (cached \<noteq> None),
                   sp_cursor = (case cached of None \<Rightarrow> 0 | Some st \<Rightarrow> vs_hwm st),
                   sp_eventTail = Some eventTail, sp_viewName = Some viewName\<rparr>;
                m2 = (if rp_seed plan then m1 else discardFold m1 streamId viewName);
                events = filter (\<lambda>e. we_sequence e \<le> eventTail) (query_from (rp_since plan) rows)
            in case materializeAt m2 streamId viewName events of
                 (m3, Inl err) \<Rightarrow> (m3, Inl (Materialize err))
               | (m3, Inr st) \<Rightarrow>
                   if vs_hwm st < eventTail
                   then (m3, Inl (ProjectionCoverageError streamId viewName
                          (assessProjectionFreshness eventTail (vs_hwm st) (Some viewName))))
                   else (m3, Inr
                     \<lparr>ft_view = vs_view st, ft_sequence = vs_hwm st,
                      ft_repaired = (if rp_degraded plan then rp_freshness plan else None)\<rparr>))"

definition foldToTail ::
  "('e, 's) materializer \<Rightarrow> nat \<Rightarrow> wf_event list \<Rightarrow> string \<Rightarrow> string \<Rightarrow>
    ('e, 's) materializer \<times> ('e fold_error + 's fold_at_tail)" where
  "foldToTail m tailSequence rows streamId viewName =
     foldAtPinnedTail m rows streamId viewName (pinTail streamId tailSequence)"

text \<open>
  Two views of one stream against one pinned tail; the log may grow between the folds, so each gets the rows
  it reads.
\<close>

definition foldPairToTail ::
  "('e, 's) materializer \<Rightarrow> nat \<Rightarrow> wf_event list \<Rightarrow> wf_event list \<Rightarrow> string \<Rightarrow> string \<Rightarrow> string \<Rightarrow>
    ('e, 's) materializer \<times> ('e fold_error + 's \<times> 's \<times> nat)" where
  "foldPairToTail m eventTail rows1 rows2 streamId firstView secondView =
     (case foldAtPinnedTail m rows1 streamId firstView eventTail of
        (m1, Inl err) \<Rightarrow> (m1, Inl err)
      | (m1, Inr first) \<Rightarrow>
          (case foldAtPinnedTail m1 rows2 streamId secondView eventTail of
             (m2, Inl err) \<Rightarrow> (m2, Inl err)
           | (m2, Inr second) \<Rightarrow> (m2, Inr (ft_view first, ft_view second, eventTail))))"

end
