(* ===== verification/Workflow_View.thy ===== *)
theory Workflow_View
  imports State_Mutation Hsm_Registry View_Fold Transition_Guard Phase_Attempt
begin

text \<open>
  The view of the workflow state, \<open>src/projections/views/workflow-state-projection.ts\<close>: a fold of the
  events of a stream into the state object. Every case of the \<open>switch\<close> that changes the view is a
  definition; the types without one, built in or custom, return the view as it is.

  A view is a JavaScript object, because a patch may write any open field of it. Its \<open>admissionProof\<close>
  holds the four histories; the entries of the proof that the source recomputes from them on every
  admission event are the functions \<open>proof_attempts\<close> and \<open>proof_selection\<close> of the histories. A case that
  would spread a string or an array into an object, or a string into an array, ends in \<open>Unrepresented\<close>.
\<close>

section \<open>Values\<close>

type_synonym view = fields

datatype view_error = ViewTypeError | PatchError mutation_error | Unrepresented

fun js_truthy :: "js \<Rightarrow> bool" where
  "js_truthy JUndef = False"
| "js_truthy JNull = False"
| "js_truthy (JBool b) = b"
| "js_truthy (JNum n) = (n \<noteq> NaN \<and> n \<noteq> Fin 0)"
| "js_truthy (JStr s) = (s \<noteq> [])"
| "js_truthy (JArr _) = True"
| "js_truthy (JObj _) = True"

text \<open>\<open>===\<close> of two values read from different places: two objects are never the same one.\<close>

definition strict_equal :: "js \<Rightarrow> js \<Rightarrow> bool" where
  "strict_equal a b \<longleftrightarrow> a = b \<and> a \<noteq> JNum NaN \<and> \<not> is_array a \<and> \<not> isPlainObject a"

text \<open>The entries that \<open>...value\<close> gives to an object, and the elements that it gives to an array.\<close>

definition object_spread :: "js \<Rightarrow> view_error + fields" where
  "object_spread v =
     (case v of
        JObj fs \<Rightarrow> Inr fs
      | JArr _ \<Rightarrow> Inl Unrepresented
      | JStr s \<Rightarrow> if s = [] then Inr [] else Inl Unrepresented
      | _ \<Rightarrow> Inr [])"

definition array_spread :: "js \<Rightarrow> view_error + js list" where
  "array_spread v =
     (case v of
        JArr xs \<Rightarrow> Inr xs
      | JStr s \<Rightarrow> if s = [] then Inr [] else Inl Unrepresented
      | _ \<Rightarrow> Inl ViewTypeError)"

text \<open>\<open>{ ...view, field: value, ... }\<close>\<close>

definition with_fields :: "view \<Rightarrow> fields \<Rightarrow> view_error + view" where
  "with_fields v entries = Inr (spread v entries)"

section \<open>The empty view\<close>

definition emptyAdmissionProof :: js where
  "emptyAdmissionProof = JObj
     [(''evidenceHistory'', JArr []), (''contradictionHistory'', JArr []),
      (''requirementHistory'', JArr []), (''decisionHistory'', JArr [])]"

definition init_view :: view where
  "init_view =
     [(''version'', JStr ''1.1''), (''featureId'', JStr ''''), (''workflowType'', JStr ''feature''),
      (''phase'', JStr ''plan''), (''createdAt'', JStr ''''), (''updatedAt'', JStr ''''),
      (''artifacts'', JObj [(''design'', JNull), (''plan'', JNull), (''pr'', JNull)]),
      (''tasks'', JArr []), (''worktrees'', JObj []), (''reviews'', JObj []), (''integration'', JNull),
      (''synthesis'', JObj
        [(''integrationBranch'', JNull), (''mergeOrder'', JArr []), (''mergedBranches'', JArr []),
         (''prUrl'', JNull), (''prFeedback'', JArr [])]),
      (''_events'', JArr []), (''_version'', JInt 1), (''_history'', JObj []),
      (''_checkpoint'', JObj
        [(''timestamp'', JStr ''''), (''phase'', JStr ''''), (''summary'', JStr ''''),
         (''operationsSince'', JInt 0), (''fixCycleCount'', JInt 0),
         (''lastActivityTimestamp'', JStr ''''), (''staleAfterMinutes'', JInt 120)]),
      (''phaseObligation'', JNull), (''admissionProof'', emptyAdmissionProof)]"

section \<open>Lifecycle\<close>

abbreviation stamp :: "wf_event \<Rightarrow> js" where
  "stamp e \<equiv> JStr (we_timestamp e)"

abbreviation given_field :: "wf_event \<Rightarrow> string \<Rightarrow> string \<Rightarrow> fields" where
  "given_field e src dst \<equiv> when_field (data_get e src \<noteq> JUndef) dst (data_get e src)"

definition initial_phase :: "js \<Rightarrow> js \<Rightarrow> view_error + js" where
  "initial_phase workflowType old =
     (case as_string workflowType of
        None \<Rightarrow> Inr old
      | Some t \<Rightarrow>
          if isBuiltInWorkflowType t
          then (case getInitialPhase initial_registry t of
                  Inl _ \<Rightarrow> Inl ViewTypeError
                | Inr p \<Rightarrow> Inr (JStr p))
          else Inr old)"

definition next_oneshot :: "view \<Rightarrow> wf_event \<Rightarrow> js \<Rightarrow> view_error + fields" where
  "next_oneshot v e workflowType =
     (if workflowType = JStr ''oneshot'' \<and> data_get e ''synthesisPolicy'' \<noteq> JUndef
      then bind_result (object_spread (fget v ''oneshot'')) (\<lambda>prior.
        Inr [(''oneshot'', JObj (spread prior [(''synthesisPolicy'', data_get e ''synthesisPolicy'')]))])
      else Inr [])"

definition workflow_started :: "view \<Rightarrow> wf_event \<Rightarrow> view_error + view" where
  "workflow_started v e =
     (if \<not> js_truthy (we_data e) then Inr v
      else let workflowType = nullish_or (data_get e ''workflowType'') (fget v ''workflowType'')
        in bind_result (initial_phase workflowType (fget v ''phase'')) (\<lambda>phase.
           bind_result (next_oneshot v e workflowType) (\<lambda>oneshot.
           with_fields v
             ([(''featureId'', nullish_or (data_get e ''featureId'') (fget v ''featureId'')),
               (''workflowType'', workflowType), (''phase'', phase)] @
              given_field e ''phaseAttemptId'' ''phaseAttemptId'' @
              [(''createdAt'', if js_truthy (fget v ''createdAt'') then fget v ''createdAt'' else stamp e),
               (''updatedAt'', stamp e)] @ oneshot))))"

definition workflow_transition :: "view \<Rightarrow> wf_event \<Rightarrow> view_error + view" where
  "workflow_transition v e =
     (if \<not> js_truthy (data_get e ''to'') then Inr v
      else bind_result
        (if js_truthy (data_get e ''historyUpdates'')
         then bind_result (object_spread (fget v ''_history'')) (\<lambda>old.
              bind_result (object_spread (data_get e ''historyUpdates'')) (\<lambda>new.
              Inr (JObj (spread old new))))
         else Inr (fget v ''_history''))
        (\<lambda>history. with_fields v
          ([(''phase'', data_get e ''to'')] @ given_field e ''phaseAttemptId'' ''phaseAttemptId'' @
           [(''updatedAt'', stamp e), (''_history'', history)])))"

definition lifecycle_end :: "view \<Rightarrow> wf_event \<Rightarrow> view_error + view" where
  "lifecycle_end v e =
     (if \<not> js_truthy (data_get e ''to'') then Inr v
      else with_fields v
        ([(''phase'', data_get e ''to''), (''updatedAt'', stamp e)] @
         given_field e ''phaseAttemptId'' ''phaseAttemptId''))"

section \<open>The obligation of a phase\<close>

definition phase_obligation :: "wf_event \<Rightarrow> fields" where
  "phase_obligation e =
     [(''phase'', data_get e ''phase''), (''kind'', data_get e ''kind''),
      (''resolver'', nullish_or (data_get e ''resolver'') JNull),
      (''resolvedGates'', nullish_or (data_get e ''resolvedGates'') (JArr [])),
      (''policySource'', nullish_or (data_get e ''policySource'') (JStr ''builtin'')),
      (''mode'', nullish_or (data_get e ''mode'') (JStr ''enforce'')),
      (''posture'', nullish_or (data_get e ''posture'') (JStr ''read-only''))] @
     given_field e ''riskTier'' ''riskTier'' @
     when_field (js_typeof (data_get e ''boundaryTouching'') = ''boolean'')
       ''boundaryTouching'' (data_get e ''boundaryTouching'') @
     [(''enteredAt'', stamp e), (''exited'', JBool False), (''allRequiredGatesPassed'', JNull)]"

definition phase_entered :: "view \<Rightarrow> wf_event \<Rightarrow> view_error + view" where
  "phase_entered v e =
     (if \<not> js_truthy (data_get e ''phase'') \<or> \<not> js_truthy (data_get e ''kind'') then Inr v
      else with_fields v
        ([(''updatedAt'', stamp e)] @
         when_field (js_truthy (data_get e ''designDepth'')) ''designDepth'' (data_get e ''designDepth'') @
         [(''phaseObligation'', JObj (phase_obligation e))]))"

definition phase_exited :: "view \<Rightarrow> wf_event \<Rightarrow> view_error + view" where
  "phase_exited v e =
     (if \<not> js_truthy (data_get e ''phase'') \<or> fget v ''phaseObligation'' = JNull then Inr v
      else bind_result (object_spread (fget v ''phaseObligation'')) (\<lambda>old.
        with_fields v
          [(''updatedAt'', stamp e),
           (''phaseObligation'', JObj (spread old
             [(''exited'', JBool True),
              (''allRequiredGatesPassed'', nullish_or (data_get e ''allRequiredGatesPassed'') JNull)]))]))"

definition workflow_checkpoint :: "view \<Rightarrow> wf_event \<Rightarrow> view_error + view" where
  "workflow_checkpoint v e =
     (if \<not> js_truthy (data_get e ''phase'') then Inr v
      else bind_result (object_spread (fget v ''_checkpoint'')) (\<lambda>old.
        with_fields v
          [(''_checkpoint'', JObj (spread old
             ([(''phase'', data_get e ''phase''), (''timestamp'', stamp e),
               (''lastActivityTimestamp'', stamp e)] @
              given_field e ''counter'' ''operationsSince'')))]))"

section \<open>Tasks\<close>

fun find_task :: "js \<Rightarrow> js list \<Rightarrow> view_error + nat option" where
  "find_task taskId [] = Inr None"
| "find_task taskId (t # ts) =
     (if is_nullish t then Inl ViewTypeError
      else if strict_equal (opt_get t ''id'') taskId then Inr (Some 0)
      else bind_result (find_task taskId ts) (\<lambda>r. Inr (map_option Suc r)))"

definition tasks_of :: "view \<Rightarrow> view_error + js list" where
  "tasks_of v = (case fget v ''tasks'' of JArr ts \<Rightarrow> Inr ts | _ \<Rightarrow> Inl ViewTypeError)"

text \<open>Overwrite fields of the task with an id; \<open>fresh\<close> is what happens when no task has it.\<close>

definition overlay_task :: "view \<Rightarrow> js \<Rightarrow> fields \<Rightarrow> (js list \<Rightarrow> view) \<Rightarrow> view_error + view" where
  "overlay_task v taskId entries fresh =
     bind_result (tasks_of v) (\<lambda>ts.
     bind_result (find_task taskId ts) (\<lambda>found.
     case found of
       None \<Rightarrow> Inr (fresh ts)
     | Some i \<Rightarrow>
         bind_result (object_spread (ts ! i)) (\<lambda>old.
           with_fields v [(''tasks'', JArr (ts[i := JObj (spread old entries)]))])))"

definition updateTask :: "view \<Rightarrow> js \<Rightarrow> fields \<Rightarrow> view_error + view" where
  "updateTask v taskId entries = overlay_task v taskId entries (\<lambda>_. v)"

definition new_task :: "wf_event \<Rightarrow> fields" where
  "new_task e =
     [(''id'', data_get e ''taskId''), (''title'', nullish_or (data_get e ''title'') (JStr '''')),
      (''status'', JStr ''pending''), (''branch'', data_get e ''branch''),
      (''worktreePath'', data_get e ''worktree'')]"

definition task_assigned :: "view \<Rightarrow> wf_event \<Rightarrow> view_error + view" where
  "task_assigned v e =
     (if \<not> js_truthy (data_get e ''taskId'') then Inr v
      else overlay_task v (data_get e ''taskId'') (new_task e)
        (\<lambda>ts. spread v [(''tasks'', JArr (ts @ [JObj (new_task e)]))]))"

definition task_completed :: "view \<Rightarrow> wf_event \<Rightarrow> view_error + view" where
  "task_completed v e =
     (if \<not> js_truthy (data_get e ''taskId'') then Inr v
      else updateTask v (data_get e ''taskId'')
        [(''status'', JStr ''complete''), (''completedAt'', stamp e)])"

definition task_failed :: "view \<Rightarrow> wf_event \<Rightarrow> view_error + view" where
  "task_failed v e =
     (if \<not> js_truthy (data_get e ''taskId'') then Inr v
      else updateTask v (data_get e ''taskId'') [(''status'', JStr ''failed'')])"

definition stack_position_filled :: "view \<Rightarrow> wf_event \<Rightarrow> view_error + view" where
  "stack_position_filled v e =
     (if \<not> js_truthy (data_get e ''taskId'') then Inr v
      else updateTask v (data_get e ''taskId'') (given_field e ''branch'' ''branch''))"

section \<open>Reviews and plan revisions\<close>

definition put_review :: "view \<Rightarrow> string \<Rightarrow> js \<Rightarrow> view_error + view" where
  "put_review v k r =
     bind_result (object_spread (fget v ''reviews'')) (\<lambda>old.
       with_fields v [(''reviews'', JObj (spread old [(k, r)]))])"

definition review_routed :: "view \<Rightarrow> wf_event \<Rightarrow> view_error + view" where
  "review_routed v e =
     (if data_get e ''pr'' = JUndef then Inr v
      else put_review v (js_string (data_get e ''pr'')) (we_data e))"

definition gate_review :: "wf_event \<Rightarrow> fields" where
  "gate_review e =
     (let d = (\<lambda>k. opt_get (data_get e ''details'') k)
      in [(''status'', JStr ''pass''), (''gateName'', JStr ''mutation-adequacy''),
          (''passed'', JBool (data_get e ''passed'' = JBool True))] @
         when_field (js_typeof (d ''mutationScore'') = ''number'') ''mutationScore'' (d ''mutationScore'') @
         when_field (js_typeof (d ''noCoverage'') = ''number'') ''noCoverage'' (d ''noCoverage'') @
         when_field (d ''skipped'' = JBool True) ''skipped'' (JBool True) @
         when_field (d ''degraded'' = JBool True) ''degraded'' (JBool True))"

definition gate_executed :: "view \<Rightarrow> wf_event \<Rightarrow> view_error + view" where
  "gate_executed v e =
     (if data_get e ''gateName'' \<noteq> JStr ''mutation-adequacy'' then Inr v
      else put_review v ''mutation-adequacy'' (JObj (gate_review e)))"

definition prior_plan_review :: "view \<Rightarrow> fields" where
  "prior_plan_review v = (case fget v ''planReview'' of JObj fs \<Rightarrow> fs | _ \<Rightarrow> [])"

definition finite_or_zero :: "js \<Rightarrow> rat" where
  "finite_or_zero v = (case v of JNum (Fin r) \<Rightarrow> r | _ \<Rightarrow> 0)"

definition revision_count :: "view \<Rightarrow> rat" where
  "revision_count v = finite_or_zero (fget (prior_plan_review v) ''revisionCount'')"

definition put_revision_count :: "view \<Rightarrow> rat \<Rightarrow> view_error + view" where
  "put_revision_count v n =
     with_fields v
       [(''planReview'', JObj (spread (prior_plan_review v) [(''revisionCount'', JNum (Fin n))]))]"

definition plan_revision :: "view \<Rightarrow> wf_event \<Rightarrow> view_error + view" where
  "plan_revision v e = put_revision_count v (revision_count v + 1)"

definition plan_review_dispatched :: "view \<Rightarrow> wf_event \<Rightarrow> view_error + view" where
  "plan_review_dispatched v e =
     put_revision_count v (max (revision_count v) (max 0 (finite_or_zero (data_get e ''ordinal''))))"

section \<open>Merges\<close>

definition copied :: "wf_event \<Rightarrow> (string \<times> string) list \<Rightarrow> fields" where
  "copied e names = concat (map (\<lambda>(src, dst). given_field e src dst) names)"

definition same_names :: "string list \<Rightarrow> (string \<times> string) list" where
  "same_names ks = map (\<lambda>k. (k, k)) ks"

definition put_merge :: "view \<Rightarrow> wf_event \<Rightarrow> fields \<Rightarrow> view_error + view" where
  "put_merge v e block =
     (if \<not> js_truthy (we_data e) then Inr v
      else with_fields v [(''updatedAt'', stamp e), (''mergeOrchestrator'', JObj block)])"

definition merge_preflight :: "view \<Rightarrow> wf_event \<Rightarrow> view_error + view" where
  "merge_preflight v e =
     (if data_get e ''passed'' \<noteq> JBool False then Inr v
      else put_merge v e
        ([(''phase'', JStr ''aborted''), (''preflight'', we_data e),
          (''abortReason'', JStr ''preflight-failed'')] @
         copied e (same_names [''taskId'', ''sourceBranch'', ''targetBranch''])))"

definition merge_executed :: "view \<Rightarrow> wf_event \<Rightarrow> view_error + view" where
  "merge_executed v e =
     put_merge v e
       ((''phase'', JStr ''completed'') #
        copied e (same_names
          [''taskId'', ''sourceBranch'', ''targetBranch'', ''strategy'', ''mergeSha'', ''rollbackSha'']))"

definition merge_rollback :: "view \<Rightarrow> wf_event \<Rightarrow> view_error + view" where
  "merge_rollback v e =
     put_merge v e
       ((''phase'', JStr ''rolled-back'') #
        copied e (same_names
          [''taskId'', ''sourceBranch'', ''targetBranch'', ''rollbackSha'', ''reason'', ''recoveryError'',
           ''rollbackError'']))"

definition merge_recovered :: "view \<Rightarrow> wf_event \<Rightarrow> view_error + view" where
  "merge_recovered v e =
     put_merge v e
       ((''phase'', JStr ''rolled-back'') #
        copied e
          (same_names [''taskId'', ''sourceBranch'', ''targetBranch''] @
           [(''recoveryPointSha'', ''rollbackSha''), (''reason'', ''reason''),
            (''recoveryError'', ''recoveryError''), (''recoveryErrorDetail'', ''rollbackError'')]))"

section \<open>Patches and notes\<close>

definition state_patched :: "view \<Rightarrow> wf_event \<Rightarrow> view_error + view" where
  "state_patched v e =
     (case data_get e ''patch'' of
        JObj patch \<Rightarrow>
          if patch = [] then Inr v
          else (case replay_patch v patch of Inl err \<Rightarrow> Inl (PatchError err) | Inr v' \<Rightarrow> Inr v')
      | _ \<Rightarrow> Inr v)"

definition noted_event :: "view \<Rightarrow> wf_event \<Rightarrow> view_error + view" where
  "noted_event v e =
     bind_result (array_spread (nullish_or (fget v ''_events'') (JArr []))) (\<lambda>old.
       with_fields v
         [(''_events'', JArr (old @
            [JObj [(''type'', JStr (we_type e)), (''timestamp'', stamp e), (''data'', we_data e)]]))])"

section \<open>Admission\<close>

definition proof_keys :: "string list" where
  "proof_keys = [''evidenceHistory'', ''contradictionHistory'', ''requirementHistory'', ''decisionHistory'']"

definition proof_part :: "view \<Rightarrow> string \<Rightarrow> js" where
  "proof_part v k = nullish_or (opt_get (fget v ''admissionProof'') k) (JArr [])"

fun all_lists :: "js list \<Rightarrow> view_error + unit" where
  "all_lists [] = Inr ()"
| "all_lists (x # xs) = bind_result (array_spread x) (\<lambda>_. all_lists xs)"

text \<open>Extend one history by the data of an event; \<open>needed\<close> are the others that the case iterates over.\<close>

definition append_proof :: "view \<Rightarrow> wf_event \<Rightarrow> string \<Rightarrow> string list \<Rightarrow> view_error + view" where
  "append_proof v e target needed =
     (if fget v ''admissionProof'' = JNull then Inl ViewTypeError
      else bind_result (array_spread (proof_part v target)) (\<lambda>xs.
           bind_result (all_lists (map (proof_part v) needed)) (\<lambda>_.
           with_fields v
             [(''admissionProof'',
               JObj (map (\<lambda>k. (k, if k = target then JArr (xs @ [we_data e]) else proof_part v k))
                 proof_keys))])))"

definition evidence_recorded :: "view \<Rightarrow> wf_event \<Rightarrow> view_error + view" where
  "evidence_recorded v e =
     append_proof v e ''evidenceHistory''
       [''contradictionHistory'', ''requirementHistory'', ''decisionHistory'']"

definition contradiction_recorded :: "view \<Rightarrow> wf_event \<Rightarrow> view_error + view" where
  "contradiction_recorded v e = append_proof v e ''contradictionHistory'' [''evidenceHistory'']"

definition requirement_resolved :: "view \<Rightarrow> wf_event \<Rightarrow> view_error + view" where
  "requirement_resolved v e =
     append_proof v e ''requirementHistory'' [''evidenceHistory'', ''decisionHistory'']"

definition transition_decided_event :: "view \<Rightarrow> wf_event \<Rightarrow> view_error + view" where
  "transition_decided_event v e =
     append_proof v e ''decisionHistory'' [''requirementHistory'', ''evidenceHistory'']"

text \<open>The parts of the proof that follow from its histories.\<close>

definition history_list :: "view \<Rightarrow> string \<Rightarrow> js list" where
  "history_list v k = (case proof_part v k of JArr xs \<Rightarrow> xs | _ \<Rightarrow> [])"

definition proof_attempts :: "fold_schemas \<Rightarrow> view \<Rightarrow> attempt_fold" where
  "proof_attempts sch v = foldPhaseAttemptAdmission sch
     \<lparr>fi_requirementEvents = history_list v ''requirementHistory'',
      fi_evidenceEvents = history_list v ''evidenceHistory'',
      fi_decisionEvents = history_list v ''decisionHistory''\<rparr>"

definition proof_selection :: "proof_schemas \<Rightarrow> view \<Rightarrow> selection" where
  "proof_selection sch v =
     selectEvidence sch (history_list v ''evidenceHistory'') (history_list v ''contradictionHistory'')"

section \<open>The fold\<close>

definition view_handlers :: "(string \<times> (view \<Rightarrow> wf_event \<Rightarrow> view_error + view)) list" where
  "view_handlers =
     [(''workflow.started'', workflow_started), (''workflow.transition'', workflow_transition),
      (''phase.entered'', phase_entered), (''phase.exited'', phase_exited),
      (''workflow.checkpoint'', workflow_checkpoint), (''task.assigned'', task_assigned),
      (''task.completed'', task_completed), (''task.failed'', task_failed),
      (''stack.position-filled'', stack_position_filled), (''review.routed'', review_routed),
      (''workflow.plan-revision'', plan_revision),
      (''workflow.plan-review-dispatched'', plan_review_dispatched),
      (''gate.executed'', gate_executed), (''merge.preflight'', merge_preflight),
      (''merge.executed'', merge_executed), (''merge.rollback'', merge_rollback),
      (''merge.recovered'', merge_recovered), (''state.patched'', state_patched),
      (''team.spawned'', noted_event), (''team.disbanded'', noted_event),
      (''synthesize.requested'', noted_event), (''workflow.pruned'', noted_event),
      (''workflow.cancel'', lifecycle_end), (''workflow.cleanup'', lifecycle_end),
      (''admission.evidence-recorded'', evidence_recorded),
      (''admission.contradiction-recorded'', contradiction_recorded),
      (''admission.requirement-resolved'', requirement_resolved),
      (''admission.transition-decided'', transition_decided_event)]"

definition apply_event :: "view \<Rightarrow> wf_event \<Rightarrow> view_error + view" where
  "apply_event v e =
     (case map_of view_handlers (we_type e) of None \<Rightarrow> Inr v | Some h \<Rightarrow> h v e)"

abbreviation fold_view :: "view \<Rightarrow> wf_event list \<Rightarrow> view_error + view" where
  "fold_view v es \<equiv> fold_events apply_event v es"

definition workflowStateProjection :: "(view_error, view) projection" where
  "workflowStateProjection = \<lparr>pj_init = init_view, pj_apply = apply_event\<rparr>"

definition WORKFLOW_STATE_VIEW :: string where
  "WORKFLOW_STATE_VIEW = ''workflow-state''"

end
