(* ===== verification/View_Laws.thy ===== *)
theory View_Laws
  imports Workflow_View Mutation_Laws
begin

text \<open>
  What the view of the workflow state keeps: the fields that each case writes, the refinement of the
  lifecycle by the whole fold, and the histories of the admission proof.
\<close>

section \<open>Which fields an event writes\<close>

lemma map_of_spread_other: "k \<notin> fst ` set entries \<Longrightarrow> map_of (spread v entries) k = map_of v k"
proof (induction entries arbitrary: v)
  case (Cons e es)
  then show ?case by (cases e) auto
qed simp

lemma with_fields_other:
  "with_fields v entries = Inr v' \<Longrightarrow> k \<notin> fst ` set entries \<Longrightarrow> map_of v' k = map_of v k"
  by (auto simp: with_fields_def map_of_spread_other)

lemma set_when_field: "(k', w) \<in> set (when_field c k v) \<longleftrightarrow> c \<and> k' = k \<and> w = v"
  by (auto simp: when_field_def)

text \<open>A handler writes no field outside a given list.\<close>

definition writes_only :: "(view \<Rightarrow> wf_event \<Rightarrow> view_error + view) \<Rightarrow> string list \<Rightarrow> bool" where
  "writes_only h ks \<longleftrightarrow>
     (\<forall>v e v' k. h v e = Inr v' \<longrightarrow> k \<notin> set ks \<longrightarrow> map_of v' k = map_of v k)"

named_theorems view_writes \<open>the fields that the cases of the view write\<close>

lemma overlay_task_other:
  "overlay_task v taskId entries fresh = Inr v' \<Longrightarrow> (\<And>ts. map_of (fresh ts) k = map_of v k) \<Longrightarrow>
     k \<noteq> ''tasks'' \<Longrightarrow> map_of v' k = map_of v k"
  by (auto simp: overlay_task_def bind_result_Inr_iff split: option.splits dest!: with_fields_other [where k = k])

lemma lifecycle_writes [view_writes]:
  "writes_only workflow_started
     [''featureId'', ''workflowType'', ''phase'', ''phaseAttemptId'', ''createdAt'', ''updatedAt'', ''oneshot'']"
  "writes_only workflow_transition [''phase'', ''phaseAttemptId'', ''updatedAt'', ''_history'']"
  "writes_only lifecycle_end [''phase'', ''phaseAttemptId'', ''updatedAt'']"
  by (auto simp: writes_only_def workflow_started_def workflow_transition_def lifecycle_end_def
      next_oneshot_def bind_result_Inr_iff Let_def set_when_field split: if_splits
      dest!: with_fields_other)

lemma phase_writes [view_writes]:
  "writes_only phase_entered [''updatedAt'', ''designDepth'', ''phaseObligation'']"
  "writes_only phase_exited [''updatedAt'', ''phaseObligation'']"
  "writes_only workflow_checkpoint [''_checkpoint'']"
  by (auto simp: writes_only_def phase_entered_def phase_exited_def workflow_checkpoint_def
      bind_result_Inr_iff set_when_field split: if_splits dest!: with_fields_other)

lemma task_writes [view_writes]:
  "writes_only task_assigned [''tasks'']" "writes_only task_completed [''tasks'']"
  "writes_only task_failed [''tasks'']" "writes_only stack_position_filled [''tasks'']"
  by (auto simp: writes_only_def task_assigned_def task_completed_def task_failed_def
      stack_position_filled_def updateTask_def split: if_splits elim!: overlay_task_other)

lemma review_writes [view_writes]:
  "writes_only review_routed [''reviews'']" "writes_only gate_executed [''reviews'']"
  "writes_only plan_revision [''planReview'']" "writes_only plan_review_dispatched [''planReview'']"
  by (auto simp: writes_only_def review_routed_def gate_executed_def put_review_def plan_revision_def
      plan_review_dispatched_def put_revision_count_def bind_result_Inr_iff split: if_splits
      dest!: with_fields_other)

lemma merge_writes [view_writes]:
  "writes_only merge_preflight [''updatedAt'', ''mergeOrchestrator'']"
  "writes_only merge_executed [''updatedAt'', ''mergeOrchestrator'']"
  "writes_only merge_rollback [''updatedAt'', ''mergeOrchestrator'']"
  "writes_only merge_recovered [''updatedAt'', ''mergeOrchestrator'']"
  by (auto simp: writes_only_def merge_preflight_def merge_executed_def merge_rollback_def
      merge_recovered_def put_merge_def split: if_splits dest!: with_fields_other)

lemma note_writes [view_writes]: "writes_only noted_event [''_events'']"
  by (auto simp: writes_only_def noted_event_def bind_result_Inr_iff dest!: with_fields_other)

lemma append_proof_other:
  "append_proof v e target needed = Inr v' \<Longrightarrow> k \<noteq> ''admissionProof'' \<Longrightarrow> map_of v' k = map_of v k"
  by (auto simp: append_proof_def bind_result_Inr_iff split: if_splits dest!: with_fields_other)

lemma proof_writes [view_writes]:
  "writes_only evidence_recorded [''admissionProof'']"
  "writes_only contradiction_recorded [''admissionProof'']"
  "writes_only requirement_resolved [''admissionProof'']"
  "writes_only transition_decided_event [''admissionProof'']"
  by (auto simp: writes_only_def evidence_recorded_def contradiction_recorded_def
      requirement_resolved_def transition_decided_event_def elim!: append_proof_other)

text \<open>All handlers but the patch, with their fields.\<close>

definition written_fields :: "(string \<times> string list) list" where
  "written_fields =
     [(''workflow.started'',
       [''featureId'', ''workflowType'', ''phase'', ''phaseAttemptId'', ''createdAt'', ''updatedAt'', ''oneshot'']),
      (''workflow.transition'', [''phase'', ''phaseAttemptId'', ''updatedAt'', ''_history'']),
      (''workflow.cancel'', [''phase'', ''phaseAttemptId'', ''updatedAt'']),
      (''workflow.cleanup'', [''phase'', ''phaseAttemptId'', ''updatedAt'']),
      (''phase.entered'', [''updatedAt'', ''designDepth'', ''phaseObligation'']),
      (''phase.exited'', [''updatedAt'', ''phaseObligation'']),
      (''workflow.checkpoint'', [''_checkpoint'']),
      (''task.assigned'', [''tasks'']), (''task.completed'', [''tasks'']), (''task.failed'', [''tasks'']),
      (''stack.position-filled'', [''tasks'']), (''review.routed'', [''reviews'']),
      (''gate.executed'', [''reviews'']), (''workflow.plan-revision'', [''planReview'']),
      (''workflow.plan-review-dispatched'', [''planReview'']),
      (''merge.preflight'', [''updatedAt'', ''mergeOrchestrator'']),
      (''merge.executed'', [''updatedAt'', ''mergeOrchestrator'']),
      (''merge.rollback'', [''updatedAt'', ''mergeOrchestrator'']),
      (''merge.recovered'', [''updatedAt'', ''mergeOrchestrator'']),
      (''team.spawned'', [''_events'']), (''team.disbanded'', [''_events'']),
      (''synthesize.requested'', [''_events'']), (''workflow.pruned'', [''_events'']),
      (''admission.evidence-recorded'', [''admissionProof'']),
      (''admission.contradiction-recorded'', [''admissionProof'']),
      (''admission.requirement-resolved'', [''admissionProof'']),
      (''admission.transition-decided'', [''admissionProof''])]"

lemma handlers_write:
  "(t, h) \<in> set view_handlers \<Longrightarrow> t = ''state.patched'' \<and> h = state_patched \<or>
     (\<exists>ks. map_of written_fields t = Some ks \<and> writes_only h ks)"
  unfolding view_handlers_def
  by (simp only: set_simps insert_iff empty_iff prod.inject simp_thms)
     (elim disjE conjE, simp_all add: view_writes written_fields_def)

lemma event_writes:
  assumes "apply_event v e = Inr v'" "we_type e \<noteq> ''state.patched''"
    and "\<And>ks. map_of written_fields (we_type e) = Some ks \<Longrightarrow> k \<notin> set ks"
  shows "map_of v' k = map_of v k"
proof (cases "map_of view_handlers (we_type e)")
  case None
  with assms(1) show ?thesis by (simp add: apply_event_def)
next
  case (Some h)
  then obtain ks where "map_of written_fields (we_type e) = Some ks" "writes_only h ks"
    using handlers_write [OF map_of_SomeD [OF Some]] assms(2) by blast
  with assms(1,3) Some show ?thesis by (auto simp: apply_event_def writes_only_def)
qed

section \<open>The lifecycle\<close>

text \<open>What a stream says of a workflow, as its lifecycle events alone tell it.\<close>

record lifecycle =
  lf_type :: string
  lf_phase :: string
  lf_feature :: string
  lf_created :: string

definition given_text :: "js \<Rightarrow> string \<Rightarrow> string" where
  "given_text v d = (case v of JStr s \<Rightarrow> s | _ \<Rightarrow> d)"

definition started_phase :: "string \<Rightarrow> string \<Rightarrow> string" where
  "started_phase workflowType old =
     (if isBuiltInWorkflowType workflowType
      then (case getInitialPhase initial_registry workflowType of Inr p \<Rightarrow> p | Inl _ \<Rightarrow> old) else old)"

definition lifecycle_step :: "wf_event \<Rightarrow> lifecycle \<Rightarrow> lifecycle" where
  "lifecycle_step e l =
     (if we_type e = ''workflow.started'' \<and> js_truthy (we_data e) then
        let t = given_text (data_get e ''workflowType'') (lf_type l)
        in \<lparr>lf_type = t, lf_phase = started_phase t (lf_phase l),
            lf_feature = given_text (data_get e ''featureId'') (lf_feature l),
            lf_created = (if lf_created l = '''' then we_timestamp e else lf_created l)\<rparr>
      else if we_type e \<in> {''workflow.transition'', ''workflow.cancel'', ''workflow.cleanup''} \<and>
              js_truthy (data_get e ''to'')
      then l\<lparr>lf_phase := given_text (data_get e ''to'') (lf_phase l)\<rparr>
      else l)"

text \<open>The payloads of lifecycle events hold texts, as their schemas require.\<close>

definition text_or_absent :: "js \<Rightarrow> bool" where
  "text_or_absent v \<longleftrightarrow> is_nullish v \<or> (\<exists>s. v = JStr s)"

definition typed_lifecycle :: "wf_event \<Rightarrow> bool" where
  "typed_lifecycle e \<longleftrightarrow>
     text_or_absent (data_get e ''to'') \<and> text_or_absent (data_get e ''workflowType'') \<and>
     text_or_absent (data_get e ''featureId'')"

definition shows_lifecycle :: "view \<Rightarrow> lifecycle \<Rightarrow> bool" where
  "shows_lifecycle v l \<longleftrightarrow>
     fget v ''workflowType'' = JStr (lf_type l) \<and> fget v ''phase'' = JStr (lf_phase l) \<and>
     fget v ''featureId'' = JStr (lf_feature l) \<and> fget v ''createdAt'' = JStr (lf_created l) \<and>
     fget v ''version'' = JStr ''1.1''"

lemma shows_lifecycle_cong:
  assumes "\<And>k. k \<in> set topLevelImmutable \<Longrightarrow> map_of v' k = map_of v k"
  shows "shows_lifecycle v' l = shows_lifecycle v l"
  using assms by (simp add: shows_lifecycle_def fget_def topLevelImmutable_def)

lemma shows_kept: "shows_lifecycle v l \<Longrightarrow> k \<in> set topLevelImmutable \<Longrightarrow> kept_field v k"
  by (auto simp: shows_lifecycle_def kept_field_def settled_def is_array_def topLevelImmutable_def)

lemma patch_shows:
  assumes "state_patched v e = Inr v'" "shows_lifecycle v l"
  shows "shows_lifecycle v' l"
proof -
  have "map_of v' k = map_of v k" if "k \<in> set topLevelImmutable" for k
    using assms(1) replay_keep_reserved [OF _ shows_kept [OF assms(2) that]]
    by (auto simp: state_patched_def split: js.splits if_splits sum.splits)
  with assms(2) show ?thesis using shows_lifecycle_cong by blast
qed

lemma fget_spread_other [simp]: "k \<notin> fst ` set entries \<Longrightarrow> fget (spread v entries) k = fget v k"
  by (simp add: fget_def map_of_spread_other)

lemma spread_append [simp]: "spread v (xs @ ys) = spread (spread v xs) ys"
  by (simp add: spread_def)

lemma fst_when_field [simp]: "fst ` set (when_field c k v) = (if c then {k} else {})"
  by (simp add: when_field_def)

lemma initial_phase_started:
  "initial_phase (JStr t) (JStr old) = Inr p \<Longrightarrow> p = JStr (started_phase t old)"
  by (auto simp: initial_phase_def started_phase_def split: if_splits sum.splits)

lemma next_oneshot_fields: "next_oneshot v e t = Inr fs \<Longrightarrow> fst ` set fs \<subseteq> {''oneshot''}"
  by (auto simp: next_oneshot_def bind_result_Inr_iff split: if_splits)

lemma text_or_default:
  "text_or_absent v \<Longrightarrow> nullish_or v (JStr d) = JStr (given_text v d)"
  by (auto simp: text_or_absent_def nullish_or_def given_text_def is_nullish_def)

lemma started_shows:
  assumes "workflow_started v e = Inr v'" "shows_lifecycle v l" "typed_lifecycle e"
    and "we_type e = ''workflow.started''"
  shows "shows_lifecycle v' (lifecycle_step e l)"
proof (cases "js_truthy (we_data e)")
  case True
  let ?t = "given_text (data_get e ''workflowType'') (lf_type l)"
  have wt: "nullish_or (data_get e ''workflowType'') (fget v ''workflowType'') = JStr ?t"
    and fid: "nullish_or (data_get e ''featureId'') (fget v ''featureId'') =
      JStr (given_text (data_get e ''featureId'') (lf_feature l))"
    using assms(2,3) by (simp_all add: shows_lifecycle_def typed_lifecycle_def text_or_default)
  from assms(1) True obtain p o' where p: "initial_phase (JStr ?t) (fget v ''phase'') = Inr p"
    and o': "next_oneshot v e (JStr ?t) = Inr o'"
    and v': "v' = spread v
             ([(''featureId'', JStr (given_text (data_get e ''featureId'') (lf_feature l))),
               (''workflowType'', JStr ?t), (''phase'', p)] @
              given_field e ''phaseAttemptId'' ''phaseAttemptId'' @
              [(''createdAt'', if js_truthy (fget v ''createdAt'') then fget v ''createdAt'' else stamp e),
               (''updatedAt'', stamp e)] @ o')"
    by (simp only: workflow_started_def wt fid Let_def bind_result_Inr_iff with_fields_def
        sum.inject if_True if_False simp_thms) (elim exE conjE, rule that, assumption, assumption, rule sym)
  have "p = JStr (started_phase ?t (lf_phase l))"
    using p assms(2) by (simp add: shows_lifecycle_def initial_phase_started)
  moreover have "k \<noteq> ''oneshot'' \<Longrightarrow> k \<notin> fst ` set o'" for k using next_oneshot_fields [OF o'] by blast
  ultimately show ?thesis using assms(2,4) True
    by (auto simp: v' shows_lifecycle_def lifecycle_step_def Let_def simp del: not_None_eq)
next
  case False
  with assms show ?thesis by (simp add: workflow_started_def lifecycle_step_def)
qed

lemma phase_change_fields:
  assumes "workflow_transition v e = Inr v' \<or> lifecycle_end v e = Inr v'" "js_truthy (data_get e ''to'')"
  shows "fget v' ''phase'' = data_get e ''to''"
    and "k \<in> set topLevelImmutable \<Longrightarrow> k \<noteq> ''phase'' \<Longrightarrow> map_of v' k = map_of v k"
  using assms(1)
proof (atomize (full), elim disjE, goal_cases)
  case 1
  then obtain h where "v' = spread v
      ([(''phase'', data_get e ''to'')] @ given_field e ''phaseAttemptId'' ''phaseAttemptId'' @
       [(''updatedAt'', stamp e), (''_history'', h)])"
    using assms(2) by (auto simp: workflow_transition_def with_fields_def bind_result_Inr_iff simp del: spread_append)
  then show ?case by (auto simp: topLevelImmutable_def map_of_spread_other)
next
  case 2
  then have "v' = spread v ([(''phase'', data_get e ''to''), (''updatedAt'', stamp e)] @
         given_field e ''phaseAttemptId'' ''phaseAttemptId'')"
    using assms(2) by (simp add: lifecycle_end_def with_fields_def del: spread_append)
  then show ?case by (auto simp: topLevelImmutable_def map_of_spread_other)
qed

lemma phase_change_shows:
  assumes "workflow_transition v e = Inr v' \<or> lifecycle_end v e = Inr v'"
    and "shows_lifecycle v l" "typed_lifecycle e"
    and "we_type e \<in> {''workflow.transition'', ''workflow.cancel'', ''workflow.cleanup''}"
  shows "shows_lifecycle v' (lifecycle_step e l)"
proof (cases "js_truthy (data_get e ''to'')")
  case True
  then obtain s where to: "data_get e ''to'' = JStr s" "s \<noteq> []"
    using assms(3) by (auto simp: typed_lifecycle_def text_or_absent_def is_nullish_def)
  have "lifecycle_step e l = l\<lparr>lf_phase := s\<rparr>"
    using assms(4) to by (auto simp: lifecycle_step_def given_text_def)
  moreover have "fget v' k = fget v k" if "k \<in> set topLevelImmutable" "k \<noteq> ''phase''" for k
    using phase_change_fields(2) [OF assms(1) True that] by (simp add: fget_def)
  ultimately show ?thesis using phase_change_fields(1) [OF assms(1) True] assms(2) to
    by (simp add: shows_lifecycle_def topLevelImmutable_def)
next
  case False
  with assms(1) have "v' = v" by (auto simp: workflow_transition_def lifecycle_end_def)
  with False assms(2,4) show ?thesis by (auto simp: lifecycle_step_def)
qed

definition proof_type :: "string \<Rightarrow> string" where
  "proof_type k =
     (if k = ''evidenceHistory'' then ''admission.evidence-recorded''
      else if k = ''contradictionHistory'' then ''admission.contradiction-recorded''
      else if k = ''requirementHistory'' then ''admission.requirement-resolved''
      else ''admission.transition-decided'')"

definition lifecycle_types :: "string list" where
  "lifecycle_types =
     [''workflow.started'', ''workflow.transition'', ''workflow.cancel'', ''workflow.cleanup'', ''state.patched'']"

lemma other_types_spare:
  "list_all (\<lambda>(t, ks). t \<in> set lifecycle_types \<or> list_all (\<lambda>k. k \<notin> set topLevelImmutable) ks) written_fields"
  "list_all (\<lambda>(t, ks). t \<in> proof_type ` set proof_keys \<or> ''admissionProof'' \<notin> set ks) written_fields"
  by code_simp+

lemma event_shows:
  assumes "apply_event v e = Inr v'" "shows_lifecycle v l" "typed_lifecycle e"
  shows "shows_lifecycle v' (lifecycle_step e l)"
proof (cases "we_type e \<in> set lifecycle_types")
  case True
  then consider "we_type e = ''workflow.started''" "workflow_started v e = Inr v'"
    | "we_type e \<in> {''workflow.transition'', ''workflow.cancel'', ''workflow.cleanup''}"
      "workflow_transition v e = Inr v' \<or> lifecycle_end v e = Inr v'"
    | "we_type e = ''state.patched''" "state_patched v e = Inr v'"
    using assms(1) by (auto simp: apply_event_def view_handlers_def lifecycle_types_def)
  then show ?thesis
  proof cases
    case 1
    with started_shows assms show ?thesis by blast
  next
    case 2
    with phase_change_shows assms show ?thesis by blast
  next
    case 3
    with patch_shows [OF _ assms(2)] show ?thesis by (simp add: lifecycle_step_def)
  qed
next
  case False
  have "map_of v' k = map_of v k" if "k \<in> set topLevelImmutable" for k
  proof (rule event_writes [OF assms(1)])
    show "we_type e \<noteq> ''state.patched''" using False by (auto simp: lifecycle_types_def)
    show "k \<notin> set ks" if "map_of written_fields (we_type e) = Some ks" for ks
      using other_types_spare(1) map_of_SomeD [OF that] False \<open>k \<in> set topLevelImmutable\<close>
      by (auto simp: list_all_iff)
  qed
  with False assms(2) show ?thesis
    using shows_lifecycle_cong [of v' v l] by (simp add: lifecycle_step_def lifecycle_types_def)
qed

lemma fold_shows:
  "fold_view v es = Inr v' \<Longrightarrow> shows_lifecycle v l \<Longrightarrow> list_all typed_lifecycle es \<Longrightarrow>
     shows_lifecycle v' (fold lifecycle_step es l)"
proof (induction es arbitrary: v l)
  case (Cons e es)
  then show ?case using event_shows by (auto simp: bind_result_Inr_iff)
qed simp

definition no_lifecycle :: lifecycle where
  "no_lifecycle = \<lparr>lf_type = ''feature'', lf_phase = ''plan'', lf_feature = '''', lf_created = ''''\<rparr>"

lemma init_shows: "shows_lifecycle init_view no_lifecycle"
  by (simp add: shows_lifecycle_def init_view_def no_lifecycle_def)

text \<open>
  C5: the view of a workflow refines its lifecycle. Whatever patches, task, merge, review and admission events
  a stream holds, if the fold gets through then the phase of the view is the target of the last phase-changing
  event (or the initial phase of the last start), the workflow type and the feature are those of the last
  start that gives them, and the creation time is the stamp of the first start.
\<close>

theorem view_refines_lifecycle:
  assumes "fold_view init_view es = Inr v" "list_all typed_lifecycle es"
  shows "shows_lifecycle v (fold lifecycle_step es no_lifecycle)"
  using assms(1) init_shows assms(2) by (rule fold_shows)

definition sample_event :: "string \<Rightarrow> js \<Rightarrow> wf_event" where
  "sample_event t d = \<lparr>we_stream = ''f'', we_sequence = 1, we_timestamp = ''t1'', we_type = t,
     we_eventId = None, we_key = None, we_operation = None, we_correlation = None, we_causation = None,
     we_data = d\<rparr>"

lemma view_refines_lifecycle_witness:
  "\<exists>v. fold_view init_view
      [sample_event ''workflow.started'' (JObj [(''workflowType'', JStr ''debug'')]),
       sample_event ''state.patched'' (JObj [(''patch'', JObj [(''phase'', JStr ''completed'')])])] = Inr v \<and>
    shows_lifecycle v \<lparr>lf_type = ''debug'', lf_phase = ''triage'', lf_feature = '''', lf_created = ''t1''\<rparr>"
proof -
  let ?es = "[sample_event ''workflow.started'' (JObj [(''workflowType'', JStr ''debug'')]),
       sample_event ''state.patched'' (JObj [(''patch'', JObj [(''phase'', JStr ''completed'')])])]"
  have ok: "is_ok (fold_view init_view ?es)" by code_simp
  then obtain v where run: "fold_view init_view ?es = Inr v"
    by (cases "fold_view init_view ?es") simp_all
  have typed: "list_all typed_lifecycle ?es"
    by (simp add: typed_lifecycle_def text_or_absent_def sample_event_def data_get_def)
  have "fold lifecycle_step ?es no_lifecycle =
      \<lparr>lf_type = ''debug'', lf_phase = ''triage'', lf_feature = '''', lf_created = ''t1''\<rparr>"
    by code_simp
  with view_refines_lifecycle [OF run typed] run show ?thesis by auto
qed

section \<open>The histories of the admission proof\<close>

definition proof_wf :: "view \<Rightarrow> bool" where
  "proof_wf v \<longleftrightarrow>
     isPlainObject (fget v ''admissionProof'') \<and> list_all (\<lambda>k. is_array (proof_part v k)) proof_keys"

lemma is_array_iff: "is_array v \<longleftrightarrow> (\<exists>xs. v = JArr xs)"
  by (cases v) (simp_all add: is_array_def)

lemma proof_wf_list:
  "proof_wf v \<Longrightarrow> k \<in> set proof_keys \<Longrightarrow> proof_part v k = JArr (history_list v k)"
  by (auto simp: proof_wf_def list_all_iff is_array_iff history_list_def)

lemma append_proof_histories:
  assumes "append_proof v e target needed = Inr v'" "proof_wf v" "target \<in> set proof_keys"
  shows "proof_wf v' \<and> (\<forall>k \<in> set proof_keys.
    history_list v' k = history_list v k @ (if k = target then [we_data e] else []))"
proof -
  let ?new = "\<lambda>k. if k = target then JArr (history_list v target @ [we_data e]) else proof_part v k"
  have "fget v' ''admissionProof'' = JObj (map (\<lambda>k. (k, ?new k)) proof_keys)"
    using assms proof_wf_list [OF assms(2,3)]
    by (auto simp: append_proof_def array_spread_def bind_result_Inr_iff with_fields_def split: if_splits)
  moreover have "map_of (map (\<lambda>k. (k, f k)) ks) k = Some (f k)" if "k \<in> set ks" for f :: "string \<Rightarrow> js" and ks k
    using that by (induction ks) auto
  ultimately have part: "proof_part v' k = ?new k" if "k \<in> set proof_keys" for k
    using that proof_wf_list [OF assms(2) that]
    by (simp add: proof_part_def fget_def nullish_or_def)
  show ?thesis
  proof
    show "proof_wf v'"
      using part proof_wf_list [OF assms(2)] \<open>fget v' _ = _\<close>
      by (simp add: proof_wf_def list_all_iff is_array_iff)
    show "\<forall>k \<in> set proof_keys.
        history_list v' k = history_list v k @ (if k = target then [we_data e] else [])"
      using part by (auto simp: history_list_def [of v'] proof_wf_list [OF assms(2)])
  qed
qed

lemma proof_wf_cong:
  assumes "map_of v' ''admissionProof'' = map_of v ''admissionProof''"
  shows "proof_wf v' = proof_wf v" "history_list v' k = history_list v k"
proof -
  from assms have "fget v' ''admissionProof'' = fget v ''admissionProof''" by (simp add: fget_def)
  then show "proof_wf v' = proof_wf v" "history_list v' k = history_list v k"
    by (simp_all add: proof_wf_def proof_part_def history_list_def)
qed

text \<open>A patch that writes no path into the proof.\<close>

definition path_spares :: "string \<Rightarrow> string \<Rightarrow> bool" where
  "path_spares k path \<longleftrightarrow>
     (case parsePath path of Inr (SKey k' # _) \<Rightarrow> k' \<noteq> k | _ \<Rightarrow> True)"

definition spares_proof :: "wf_event \<Rightarrow> bool" where
  "spares_proof e \<longleftrightarrow>
     (case data_get e ''patch'' of
        JObj patch \<Rightarrow> we_type e = ''state.patched'' \<longrightarrow> list_all (path_spares ''admissionProof'') (map fst patch)
      | _ \<Rightarrow> True)"

lemma write_spares:
  assumes "applyDotPath fs path x = Inr fs'" "path_spares k path"
  shows "map_of fs' k = map_of fs k"
proof -
  obtain segs where parse: "parsePath path = Inr segs" and ne: "segs \<noteq> []"
    and wr: "write_at path (JObj fs) segs x = Inr (JObj fs')"
    using assms(1) by (auto simp: applyDotPath_iff)
  from ne wr obtain k' rest where segs: "segs = SKey k' # rest" by (rule root_path_key)
  with assms(2) parse have "k \<noteq> k'" by (auto simp: path_spares_def)
  then show ?thesis using root_key_frame [OF wr [unfolded segs]] by simp
qed

lemma replay_spares:
  "replay_patch fs ups = Inr fs' \<Longrightarrow> list_all (path_spares k) (map fst ups) \<Longrightarrow> map_of fs' k = map_of fs k"
proof (induction fs ups rule: replay_patch.induct)
  case (2 fs path x ups)
  then show ?case
    by (cases "applyDotPath fs path x") (auto split: if_splits dest: write_spares)
qed simp

lemma admission_case:
  assumes "target \<in> set proof_keys" "we_type e = proof_type target"
  shows "\<exists>needed. apply_event v e = append_proof v e target needed"
proof -
  consider "target = ''evidenceHistory''" | "target = ''contradictionHistory''"
    | "target = ''requirementHistory''" | "target = ''decisionHistory''"
    using assms(1) by (auto simp: proof_keys_def)
  then show ?thesis
  proof cases
    case 1
    with assms(2) show ?thesis
      by (simp add: apply_event_def view_handlers_def proof_type_def evidence_recorded_def) blast
  next
    case 2
    with assms(2) show ?thesis
      by (simp add: apply_event_def view_handlers_def proof_type_def contradiction_recorded_def) blast
  next
    case 3
    with assms(2) show ?thesis
      by (simp add: apply_event_def view_handlers_def proof_type_def requirement_resolved_def) blast
  next
    case 4
    with assms(2) show ?thesis
      by (simp add: apply_event_def view_handlers_def proof_type_def transition_decided_event_def) blast
  qed
qed

lemma event_histories:
  assumes "apply_event v e = Inr v'" "proof_wf v" "spares_proof e"
  shows "proof_wf v' \<and> (\<forall>k \<in> set proof_keys.
    history_list v' k = history_list v k @ (if we_type e = proof_type k then [we_data e] else []))"
proof (cases "we_type e \<in> proof_type ` set proof_keys")
  case True
  then obtain target where t: "target \<in> set proof_keys" "we_type e = proof_type target" by blast
  obtain needed where step: "append_proof v e target needed = Inr v'"
    using admission_case [OF t, of v] assms(1) by (elim exE) (rule that, simp)
  have "proof_type target = proof_type k \<longleftrightarrow> k = target" if "k \<in> set proof_keys" for k
    using that t(1) by (auto simp: proof_type_def proof_keys_def)
  with append_proof_histories [OF step assms(2) t(1)] t show ?thesis by auto
next
  case False
  have same: "map_of v' ''admissionProof'' = map_of v ''admissionProof''"
  proof (cases "we_type e = ''state.patched''")
    case True
    with assms(1,3) show ?thesis
      by (auto simp: apply_event_def view_handlers_def state_patched_def spares_proof_def
          split: js.splits if_splits sum.splits dest: replay_spares)
  next
    case no_patch: False
    show ?thesis
    proof (rule event_writes [OF assms(1) no_patch])
      show "''admissionProof'' \<notin> set ks" if "map_of written_fields (we_type e) = Some ks" for ks
        using other_types_spare(2) map_of_SomeD [OF that] False by (auto simp: list_all_iff)
    qed
  qed
  with False assms(2) show ?thesis by (auto simp: proof_wf_cong [OF same])
qed

lemma fold_histories:
  "fold_view v es = Inr v' \<Longrightarrow> proof_wf v \<Longrightarrow> list_all spares_proof es \<Longrightarrow> k \<in> set proof_keys \<Longrightarrow>
     history_list v' k = history_list v k @ map we_data (filter (\<lambda>e. we_type e = proof_type k) es)"
proof (induction es arbitrary: v)
  case (Cons e es)
  then obtain w where w: "apply_event v e = Inr w" "fold_view w es = Inr v'"
    by (auto simp: bind_result_Inr_iff)
  with event_histories [OF w(1) Cons.prems(2)] Cons show ?case by auto
qed simp

text \<open>
  C30: the histories of the admission proof are the admission events of the log. If no patch writes into the
  proof and the fold gets through, each of the four histories of the view is the list of the payloads of its
  event type, in the order of the stream and with nothing lost, merged or added.
\<close>

theorem proof_histories_are_the_log:
  assumes "fold_view init_view es = Inr v" "list_all spares_proof es" "k \<in> set proof_keys"
  shows "history_list v k = map we_data (filter (\<lambda>e. we_type e = proof_type k) es)"
proof -
  have "proof_wf init_view"
    by (simp add: proof_wf_def proof_keys_def proof_part_def init_view_def emptyAdmissionProof_def
        nullish_or_def is_array_def)
  moreover have "history_list init_view k = []"
    using assms(3)
    by (auto simp: history_list_def proof_keys_def proof_part_def init_view_def emptyAdmissionProof_def
        nullish_or_def)
  ultimately show ?thesis using fold_histories [OF assms(1) _ assms(2,3)] by simp
qed

lemma proof_histories_are_the_log_witness:
  "\<exists>v. fold_view init_view [sample_event ''task.assigned'' (JObj [(''taskId'', JStr ''a'')]),
      sample_event ''admission.evidence-recorded'' (JObj [(''id'', JStr ''e1'')])] = Inr v \<and>
    history_list v ''evidenceHistory'' = [JObj [(''id'', JStr ''e1'')]]"
proof -
  let ?es = "[sample_event ''task.assigned'' (JObj [(''taskId'', JStr ''a'')]),
      sample_event ''admission.evidence-recorded'' (JObj [(''id'', JStr ''e1'')])]"
  have ok: "is_ok (fold_view init_view ?es)" by code_simp
  then obtain v where run: "fold_view init_view ?es = Inr v"
    by (cases "fold_view init_view ?es") simp_all
  have "list_all spares_proof ?es" by (simp add: spares_proof_def sample_event_def data_get_def)
  from proof_histories_are_the_log [OF run this, of "''evidenceHistory''"] run show ?thesis
    by (simp add: proof_keys_def proof_type_def sample_event_def)
qed

text \<open>
  the histories of the proof are open to any field update. The proof is not a reserved field, so a patch
  with the path of a history replaces the whole history: whatever the log recorded, the view then shows
  exactly the records that the patch gives, and every part of the proof that follows from them.
\<close>

theorem patch_rewrites_history:
  assumes "k \<in> set proof_keys" "fget v ''admissionProof'' = JObj held"
    and "we_type e = ''state.patched''"
    and "data_get e ''patch'' = JObj [(''admissionProof.'' @ k, JArr records)]"
  shows "\<exists>v'. apply_event v e = Inr v' \<and> history_list v' k = records"
proof -
  let ?path = "''admissionProof.'' @ k"
  have name: "plain_name k" and head: "\<not> starts_underscore k" and own: "k \<noteq> ''__proto__''"
    using assms(1) by (auto simp: proof_keys_def plain_name_def)
  have top: "''admissionProof'' \<notin> set object_names" by code_simp
  have printed: "?path = path_text [SKey ''admissionProof'', SKey k]" by (simp add: path_text_def)
  have plain: "list_all plain_segment [SKey ''admissionProof'', SKey k]"
    using name by (simp add: plain_name_def)
  have "parsePath ?path = Inr [SKey ''admissionProof'', SKey k]"
    unfolding printed by (rule dot_path_parses) (use plain in simp_all)
  moreover have "split_on CHR ''.'' ?path = [''admissionProof'', k]"
    unfolding printed using path_text_split [OF _ plain] by simp
  then have "\<not> isReservedField ?path"
    using head by (simp add: isReservedField_def top_level_def topLevelImmutable_def del: split_on.simps)
  ultimately have "applyDotPath v ?path (JArr records) =
      Inr (AList.update ''admissionProof'' (JObj (AList.update k (JArr records) held)) v)"
    using assms(2) own top by (simp add: applyDotPath_def write_root_def)
  then have "apply_event v e =
      Inr (AList.update ''admissionProof'' (JObj (AList.update k (JArr records) held)) v)"
    using assms(3,4) by (simp add: apply_event_def view_handlers_def state_patched_def)
  then show ?thesis by (simp add: history_list_def proof_part_def nullish_or_def)
qed

lemma patch_rewrites_history_witness:
  "\<exists>v'. apply_event [(''admissionProof'', JObj [(''decisionHistory'', JArr [JObj []])])]
      (sample_event ''state.patched''
        (JObj [(''patch'', JObj [(''admissionProof.decisionHistory'', JArr [])])])) = Inr v' \<and>
    history_list v' ''decisionHistory'' = []"
  by (rule patch_rewrites_history [where held = "[(''decisionHistory'', JArr [JObj []])]"])
     (simp_all add: proof_keys_def sample_event_def data_get_def)

end
