(* ===== verification/View_Fold_Laws.thy ===== *)
theory View_Fold_Laws
  imports Workflow_View
begin

text \<open>
  What a read of a cached view is worth: the eviction loop ends, and in every state that appends, reads,
  snapshots, evictions and discards can produce, a fold against a pinned tail answers with the fold of the
  log up to that tail, whatever the cache held, as long as the views survive the JSON text of a snapshot; and
  a stream of the workflow view whose views do not.
\<close>

section \<open>Eviction\<close>

lemma evict_loop_result [code]:
  "evict_loop most states snaps =
     Some (drop (length states - nat most) states,
       fold AList.delete (map fst (take (length states - nat most) states)) snaps)"
proof (induction states arbitrary: snaps)
  case Nil
  show ?case by (subst evict_loop.simps) simp
next
  case (Cons x xs)
  show ?case
  proof (cases "int (length (x # xs)) > most")
    case True
    then have "length (x # xs) - nat most = Suc (length xs - nat most)"
      by (cases "most < 0") auto
    with True Cons show ?thesis by (subst evict_loop.simps) simp
  next
    case False
    then show ?thesis by (subst evict_loop.simps) simp
  qed
qed

lemma evictIfNeeded_states:
  "mz_states (evictIfNeeded m) = drop (length (mz_states m) - nat (mz_maxEntries m)) (mz_states m)"
  by (simp add: evictIfNeeded_def evict_loop_result)

lemma evictIfNeeded_other [simp]:
  "mz_projections (evictIfNeeded m) = mz_projections m" "mz_json (evictIfNeeded m) = mz_json m"
  "mz_namespaces (evictIfNeeded m) = mz_namespaces m" "mz_persisted (evictIfNeeded m) = mz_persisted m"
  "mz_pending (evictIfNeeded m) = mz_pending m" "mz_persistence (evictIfNeeded m) = mz_persistence m"
  by (simp_all add: evictIfNeeded_def split: option.split)

lemma evicted_subset: "set (mz_states (evictIfNeeded m)) \<subseteq> set (mz_states m)"
  by (simp add: evictIfNeeded_states set_drop_subset)

text \<open>
  C34: the eviction loop of the view cache ends. For every bound, negative ones included, and every cache, it
  stops; it drops exactly the least recently used entries above the bound, keeps the others in their order,
  and forgets the snapshot mark of each dropped key.
\<close>

theorem eviction_terminates:
  "\<exists>states' snaps'. evict_loop most states snaps = Some (states', snaps') \<and>
     states' = drop (length states - nat most) states \<and> length states' = min (length states) (nat most) \<and>
     snaps' = fold AList.delete (map fst (take (length states - nat most) states)) snaps"
  by (simp add: evict_loop_result)

section \<open>Folds\<close>

lemma fold_events_append:
  "fold_events step s (xs @ ys) = bind_result (fold_events step s xs) (\<lambda>s'. fold_events step s' ys)"
proof (induction xs arbitrary: s)
  case (Cons x xs)
  then show ?case by (cases "step s x") auto
qed simp

definition up_to :: "nat \<Rightarrow> wf_event list \<Rightarrow> wf_event list" where
  "up_to n es = filter (\<lambda>e. we_sequence e \<le> n) es"

definition covers :: "('e, 's) projection \<Rightarrow> wf_event list \<Rightarrow> 's view_state \<Rightarrow> bool" where
  "covers p rows st \<longleftrightarrow>
     fold_events (pj_apply p) (pj_init p) (up_to (vs_hwm st) rows) = Inr (vs_view st)"

definition from_one :: "wf_event list \<Rightarrow> bool" where
  "from_one rows \<longleftrightarrow> seq_sorted rows \<and> list_all (\<lambda>e. 0 < we_sequence e) rows"

lemma up_to_split:
  assumes "seq_sorted rows" "h \<le> t"
  shows "up_to t rows = up_to h rows @ up_to t (newer h rows)"
  using assms
proof (induction rows)
  case (Cons e rows)
  then have sorted: "seq_sorted rows" and above: "\<forall>x \<in> set rows. we_sequence e < we_sequence x"
    by (auto simp: seq_sorted_def)
  show ?case
  proof (cases "we_sequence e \<le> h")
    case True
    with Cons.IH [OF sorted Cons.prems(2)] Cons.prems(2) show ?thesis by (simp add: up_to_def newer_def)
  next
    case False
    with above have "up_to h rows = []" "newer h rows = rows"
      by (auto simp: up_to_def newer_def filter_empty_conv intro!: filter_True)
    with False show ?thesis by (simp add: up_to_def newer_def)
  qed
qed (simp add: up_to_def newer_def)

lemma up_to_newer_commute: "up_to t (newer h rows) = newer h (up_to t rows)"
  by (simp add: up_to_def newer_def conj_commute)

lemma newer_newer [simp]: "newer h (newer h rows) = newer h rows"
  by (simp add: newer_def)

lemma newer_zero: "from_one rows \<Longrightarrow> newer 0 rows = rows"
  by (simp add: newer_def from_one_def list_all_iff)

lemma up_to_zero: "from_one rows \<Longrightarrow> up_to 0 rows = []"
  by (auto simp: up_to_def from_one_def list_all_iff filter_empty_conv)

lemma query_from_newer: "from_one rows \<Longrightarrow> query_from n rows = newer n rows"
  by (auto simp: query_from_def run_query_def page_def matches_def no_filters_def or_zero_def newer_def
      newer_zero [unfolded newer_def] intro!: filter_cong)

text \<open>A tail that was pinned: zero, or the sequence of an event of the log.\<close>

definition pinned :: "nat \<Rightarrow> wf_event list \<Rightarrow> bool" where
  "pinned t rows \<longleftrightarrow> t = 0 \<or> t \<in> we_sequence ` set rows"

lemma reached_pinned:
  assumes "seq_sorted rows" "pinned t rows" "h \<le> t"
  shows "reached h (up_to t (newer h rows)) = t"
proof (cases "t = h")
  case True
  then have "up_to t (newer h rows) = []" by (auto simp: up_to_def newer_def filter_empty_conv)
  with True show ?thesis by (simp add: reached_def)
next
  case False
  with assms obtain e where e: "e \<in> set rows" "we_sequence e = t" "h < t" by (auto simp: pinned_def)
  let ?es = "up_to t (newer h rows)"
  from e have mem: "e \<in> set ?es" by (simp add: up_to_def newer_def)
  then obtain as x where es: "?es = as @ [x]" by (cases ?es rule: rev_cases) auto
  have "seq_sorted ?es" using assms(1) by (simp add: up_to_def newer_def seq_sorted_filter)
  with es mem e(2) have "t \<le> we_sequence x" by (auto simp: seq_sorted_def sorted_wrt_append)
  moreover have "we_sequence x \<le> t"
  proof -
    have "x \<in> set ?es" using es by simp
    then show ?thesis by (simp add: up_to_def)
  qed
  ultimately show ?thesis using es by (simp add: reached_def)
qed

section \<open>The cache as an interface\<close>

text \<open>
  What the fold at the tail relies on: a run starts from the cached state, or from the initial one, and
  applies the events past its mark; after a discard nothing is cached.
\<close>

locale tail_cache =
  fixes cached :: "'m \<Rightarrow> 's view_state option"
    and discard :: "'m \<Rightarrow> 'm"
    and run :: "'m \<Rightarrow> wf_event list \<Rightarrow> 'm \<times> ('x + 's view_state)"
    and ready :: "'m \<Rightarrow> bool"
    and proj :: "('e, 's) projection"
    and failed :: "'e \<Rightarrow> 'x"
  assumes discard_cached: "cached (discard m) = None"
    and discard_ready: "ready m \<Longrightarrow> ready (discard m)"
    and run_result: "ready m \<Longrightarrow>
      snd (run m es) =
        (let st = start_state (pj_init proj) (cached m); fresh = newer (vs_hwm st) es
         in case fold_events (pj_apply proj) (vs_view st) fresh of
              Inl err \<Rightarrow> Inl (failed err)
            | Inr v \<Rightarrow> Inr \<lparr>vs_view = v, vs_hwm = reached (vs_hwm st) fresh\<rparr>)"
begin

text \<open>A run over a delta, or over everything from a cold cache, is the fold of the log up to the tail.\<close>

lemma run_exact:
  assumes "ready m" "from_one rows" "pinned t rows"
    and "case cached m of None \<Rightarrow> h = 0 | Some st \<Rightarrow> covers proj rows st \<and> vs_hwm st \<le> t \<and> h \<in> {0, vs_hwm st}"
  shows "snd (run m (up_to t (newer h rows))) =
    (case fold_events (pj_apply proj) (pj_init proj) (up_to t rows) of
       Inl err \<Rightarrow> Inl (failed err)
     | Inr v \<Rightarrow> Inr \<lparr>vs_view = v, vs_hwm = t\<rparr>)"
proof -
  let ?st = "start_state (pj_init proj) (cached m)"
  have sorted: "seq_sorted rows" using assms(2) by (simp add: from_one_def)
  have cov: "covers proj rows ?st" and le: "vs_hwm ?st \<le> t" and h: "h = 0 \<or> h = vs_hwm ?st"
    using assms(4) up_to_zero [OF assms(2)]
    by (auto simp: start_state_def covers_def split: option.splits)
  have fresh: "newer (vs_hwm ?st) (up_to t (newer h rows)) = up_to t (newer (vs_hwm ?st) rows)"
    using h newer_zero [OF assms(2)] by (auto simp: up_to_newer_commute [symmetric])
  have "fold_events (pj_apply proj) (pj_init proj) (up_to t rows) =
      fold_events (pj_apply proj) (vs_view ?st) (up_to t (newer (vs_hwm ?st) rows))"
    using cov by (simp add: up_to_split [OF sorted le] fold_events_append covers_def)
  with fresh show ?thesis
    using reached_pinned [OF sorted assms(3) le] by (simp add: run_result [OF assms(1)] Let_def split: sum.split)
qed

lemma replay_exact:
  assumes "ready m" "from_one rows" "pinned t rows"
  shows "snd (run (discard m) (up_to t rows)) =
    (case fold_events (pj_apply proj) (pj_init proj) (up_to t rows) of
       Inl err \<Rightarrow> Inl (failed err)
     | Inr v \<Rightarrow> Inr \<lparr>vs_view = v, vs_hwm = t\<rparr>)"
  using run_exact [of "discard m" rows t 0] assms discard_ready discard_cached newer_zero
  by simp

end

definition ready_for :: "('e, 's) projection \<Rightarrow> string \<Rightarrow> string \<Rightarrow> ('e, 's) materializer \<Rightarrow> bool" where
  "ready_for p streamId viewName m \<longleftrightarrow>
     map_of (mz_projections m) viewName = Some p \<and> \<not> isInternalSentinelStream streamId"

lemma map_of_delete_same [simp]: "map_of (AList.delete k al) k = None"
  by (simp add: delete_conv)

interpretation fold_cache: tail_cache
  "\<lambda>m. map_of (mz_states m) (state_key streamId viewName)"
  "\<lambda>m. discardFold m streamId viewName"
  "\<lambda>m. materializeAt m streamId viewName"
  "ready_for p streamId viewName" p ApplyFailed
  for p :: "('e, 's) projection" and streamId viewName
  by unfold_locales
    (auto simp: discardFold_def ready_for_def materializeAt_def Let_def split: sum.split)

section \<open>The system of a log and its cache\<close>

record ('e, 's) read_system =
  rs_rows :: "string \<Rightarrow> wf_event list"
  rs_cache :: "('e, 's) materializer"

text \<open>
  An append at the end of a stream; a read of a registered view against a tail pinned now or earlier; a load of
  its snapshot; the end of one pending snapshot write, or of all of them; a discard; a bypassing read.
\<close>

inductive system_step :: "('e, 's) read_system \<Rightarrow> ('e, 's) read_system \<Rightarrow> bool" where
  append_row: "tail_seq (rs_rows x s) < we_sequence e \<Longrightarrow>
    system_step x (x\<lparr>rs_rows := (rs_rows x)(s := rs_rows x s @ [e])\<rparr>)"
| read_view: "pinned t (rs_rows x s) \<Longrightarrow> map_of (mz_projections (rs_cache x)) v = Some p \<Longrightarrow>
    system_step x (x\<lparr>rs_cache := fst (foldAtPinnedTail (rs_cache x) (rs_rows x s) s v t)\<rparr>)"
| load_view: "map_of (mz_projections (rs_cache x)) v = Some p \<Longrightarrow>
    system_step x (x\<lparr>rs_cache := fst (loadFromSnapshot (rs_cache x) s v)\<rparr>)"
| write_done: "system_step x (x\<lparr>rs_cache := finish_pending i (rs_cache x)\<rparr>)"
| flush_writes: "system_step x (x\<lparr>rs_cache := flush (rs_cache x)\<rparr>)"
| discard_view: "system_step x (x\<lparr>rs_cache := discardFold (rs_cache x) s v\<rparr>)"
| bypass: "system_step x (x\<lparr>rs_cache := recordBypass (rs_cache x)\<rparr>)"

text \<open>View names have no colon, and no two registered views share a snapshot name.\<close>

definition names_ok :: "('e, 's) materializer \<Rightarrow> bool" where
  "names_ok m \<longleftrightarrow>
     (\<forall>v \<in> fst ` set (mz_projections m). CHR '':'' \<notin> set v \<and>
        (\<forall>w \<in> fst ` set (mz_projections m). \<forall>n.
           resolveSnapshotName (mz_namespaces m) v = Inr n \<and> resolveSnapshotName (mz_namespaces m) w = Inr n \<longrightarrow>
           v = w))"

text \<open>A start: empty streams and nothing cached or persisted.\<close>

definition system_start :: "('e, 's) read_system \<Rightarrow> bool" where
  "system_start x \<longleftrightarrow>
     rs_rows x = (\<lambda>_. []) \<and> mz_states (rs_cache x) = [] \<and> mz_persisted (rs_cache x) = [] \<and>
     mz_pending (rs_cache x) = [] \<and> names_ok (rs_cache x)"

inductive system_reach :: "('e, 's) read_system \<Rightarrow> bool" where
  start: "system_start x \<Longrightarrow> system_reach x"
| step: "system_reach x \<Longrightarrow> system_step x y \<Longrightarrow> system_reach y"

text \<open>Every view that the log of a stream folds to is what its JSON text reads back as.\<close>

definition survives :: "('s \<Rightarrow> 's option) \<Rightarrow> ('e, 's) projection \<Rightarrow> wf_event list \<Rightarrow> bool" where
  "survives json p rows \<longleftrightarrow>
     (\<forall>n w. fold_events (pj_apply p) (pj_init p) (up_to n rows) = Inr w \<longrightarrow> json w = None \<or> json w = Some w)"

text \<open>An entry of a cache holds the fold of a prefix of the log, if the views of the log survive.\<close>

definition entry_ok ::
  "('e, 's) materializer \<Rightarrow> (string \<Rightarrow> wf_event list) \<Rightarrow> string \<Rightarrow> string \<Rightarrow> 's view_state \<Rightarrow> bool" where
  "entry_ok m rows s v st \<longleftrightarrow>
     (\<exists>p. map_of (mz_projections m) v = Some p \<and>
       (survives (mz_json m) p (rows s) \<longrightarrow> covers p (rows s) st \<and> pinned (vs_hwm st) (rows s)))"

definition cache_ok :: "(string \<Rightarrow> wf_event list) \<Rightarrow> ('e, 's) materializer \<Rightarrow> bool" where
  "cache_ok rows m \<longleftrightarrow>
     names_ok m \<and> (mz_pending m \<noteq> [] \<longrightarrow> mz_persistence m = SnapshotFiles) \<and>
     (\<forall>k st. (k, st) \<in> set (mz_states m) \<longrightarrow>
       (\<exists>s v. k = state_key s v \<and> entry_ok m rows s v st \<and> is_ok (store_key m s v))) \<and>
     (\<forall>k st. (k, st) \<in> set (mz_persisted m) \<longrightarrow>
       (\<exists>s v. store_key m s v = Inr k \<and> entry_ok m rows s v st)) \<and>
     (\<forall>s v st. ((s, v), st) \<in> set (mz_pending m) \<longrightarrow> entry_ok m rows s v st)"

text \<open>What no operation of the cache changes.\<close>

definition same_config :: "('e, 's) materializer \<Rightarrow> ('e, 's) materializer \<Rightarrow> bool" where
  "same_config m m' \<longleftrightarrow>
     mz_projections m' = mz_projections m \<and> mz_json m' = mz_json m \<and>
     mz_namespaces m' = mz_namespaces m \<and> mz_persistence m' = mz_persistence m"

lemma same_configD:
  "same_config m m' \<Longrightarrow> entry_ok m' = entry_ok m" "same_config m m' \<Longrightarrow> store_key m' = store_key m"
  "same_config m m' \<Longrightarrow> names_ok m' = names_ok m" "same_config m m' \<Longrightarrow> ready_for p s v m' = ready_for p s v m"
  by (intro ext, simp_all add: same_config_def entry_ok_def store_key_def names_ok_def ready_for_def)+

lemma same_config_trans: "same_config a b \<Longrightarrow> same_config b c \<Longrightarrow> same_config a c"
  by (simp add: same_config_def)

lemma same_config_refl [simp]: "same_config m m"
  by (simp add: same_config_def)

lemma state_key_inj:
  "state_key s v = state_key s' v' \<Longrightarrow> CHR '':'' \<notin> set v \<Longrightarrow> CHR '':'' \<notin> set v' \<Longrightarrow> s = s' \<and> v = v'"
proof -
  have cut: "takeWhile (\<lambda>c. c \<noteq> CHR '':'') (state_key s v) = v" if "CHR '':'' \<notin> set v" for s v
    using that by (auto simp: state_key_def takeWhile_append)
  assume eq: "state_key s v = state_key s' v'" and no: "CHR '':'' \<notin> set v" "CHR '':'' \<notin> set v'"
  then have "v = v'" using cut [OF no(1), of s] cut [OF no(2), of s'] by simp
  with eq show ?thesis by (simp add: state_key_def)
qed

lemma registered_name: "map_of (mz_projections m) v = Some p \<Longrightarrow> v \<in> fst ` set (mz_projections m)"
  by (force dest: map_of_SomeD)

lemma entry_registered: "entry_ok m rows s v st \<Longrightarrow> v \<in> fst ` set (mz_projections m)"
  by (auto simp: entry_ok_def intro: registered_name)

lemma cached_ok:
  assumes "cache_ok rows m" "v \<in> fst ` set (mz_projections m)"
    and "map_of (mz_states m) (state_key s v) = Some st"
  shows "entry_ok m rows s v st" "is_ok (store_key m s v)"
proof -
  obtain s' v' where k: "state_key s v = state_key s' v'" and ok: "entry_ok m rows s' v' st" "is_ok (store_key m s' v')"
    using assms(1) map_of_SomeD [OF assms(3)] unfolding cache_ok_def by blast
  moreover have "CHR '':'' \<notin> set v" "CHR '':'' \<notin> set v'"
    using assms(1,2) entry_registered [OF ok(1)] by (auto simp: cache_ok_def names_ok_def)
  ultimately have "s = s' \<and> v = v'" by (intro state_key_inj)
  with ok show "entry_ok m rows s v st" "is_ok (store_key m s v)" by auto
qed

lemma persisted_ok:
  assumes "cache_ok rows m" "v \<in> fst ` set (mz_projections m)"
    and "store_key m s v = Inr k" "map_of (mz_persisted m) k = Some st"
  shows "entry_ok m rows s v st"
proof -
  obtain s' v' where k: "store_key m s' v' = Inr k" and ok: "entry_ok m rows s' v' st"
    using assms(1) map_of_SomeD [OF assms(4)] unfolding cache_ok_def by blast
  have "s = s' \<and> v = v'"
  proof (cases "mz_persistence m = SnapshotFiles")
    case True
    then obtain n where "s = s'" "resolveSnapshotName (mz_namespaces m) v = Inr n"
      "resolveSnapshotName (mz_namespaces m) v' = Inr n"
      using k assms(3) by (auto simp: store_key_def getSnapshotPath_def bind_result_def split: if_splits sum.splits)
    then show ?thesis using assms(1,2) entry_registered [OF ok] unfolding cache_ok_def names_ok_def by blast
  next
    case False
    with k assms(3) show ?thesis by (auto simp: store_key_def)
  qed
  with ok show ?thesis by simp
qed

lemma entry_json:
  assumes "entry_ok m rows s v st" "mz_json m (vs_view st) = Some w"
  shows "entry_ok m rows s v (st\<lparr>vs_view := w\<rparr>)"
proof -
  from assms(1) obtain p where p: "map_of (mz_projections m) v = Some p"
    and ok: "survives (mz_json m) p (rows s) \<Longrightarrow> covers p (rows s) st \<and> pinned (vs_hwm st) (rows s)"
    by (auto simp: entry_ok_def)
  have "w = vs_view st" if "survives (mz_json m) p (rows s)"
    using that ok [OF that] assms(2) by (fastforce simp: survives_def covers_def)
  with p ok show ?thesis by (auto simp: entry_ok_def)
qed

lemma cache_ok_mono:
  assumes "cache_ok rows m" "same_config m m'"
    and "set (mz_states m') \<subseteq> set (mz_states m) \<union>
      {(state_key s v, st) | st. entry_ok m rows s v st \<and> is_ok (store_key m s v)}"
    and "set (mz_persisted m') \<subseteq> set (mz_persisted m) \<union>
      {(k, st) | k st. store_key m s v = Inr k \<and> entry_ok m rows s v st}"
    and "set (mz_pending m') \<subseteq> set (mz_pending m) \<union>
      {((s, v), st) | st. mz_persistence m = SnapshotFiles \<and> entry_ok m rows s v st}"
  shows "cache_ok rows m'"
proof -
  note same = same_configD [OF assms(2)]
  have states: "\<exists>s v. k = state_key s v \<and> entry_ok m rows s v st \<and> is_ok (store_key m s v)"
    if "(k, st) \<in> set (mz_states m')" for k st
    using subsetD [OF assms(3) that] assms(1) unfolding cache_ok_def by blast
  have files: "\<exists>s v. store_key m s v = Inr k \<and> entry_ok m rows s v st"
    if "(k, st) \<in> set (mz_persisted m')" for k st
    using subsetD [OF assms(4) that] assms(1) unfolding cache_ok_def by blast
  have writes: "entry_ok m rows a b st \<and> mz_persistence m = SnapshotFiles"
    if "((a, b), st) \<in> set (mz_pending m')" for a b st
  proof -
    from subsetD [OF assms(5) that]
    consider "((a, b), st) \<in> set (mz_pending m)" | "a = s" "b = v" "mz_persistence m = SnapshotFiles" "entry_ok m rows s v st"
      by auto
    then show ?thesis using assms(1) unfolding cache_ok_def by cases auto
  qed
  have "mz_persistence m' = SnapshotFiles" if "mz_pending m' \<noteq> []"
  proof -
    obtain a b st where "((a, b), st) \<in> set (mz_pending m')" using \<open>mz_pending m' \<noteq> []\<close>
      by (cases "mz_pending m'") auto
    from writes [OF this] assms(2) show ?thesis by (simp add: same_config_def)
  qed
  then show ?thesis using states files writes assms(1) unfolding cache_ok_def same by blast
qed

lemma write_shape:
  "same_config m (write_view k st m)" "mz_states (write_view k st m) = mz_states m"
  "mz_pending (write_view k st m) = mz_pending m"
  "set (mz_persisted (write_view k st m)) \<subseteq> set (mz_persisted m) \<union>
     {(k, st\<lparr>vs_view := w\<rparr>) | w. mz_json m (vs_view st) = Some w}"
  using set_update_subset [of k _ "mz_persisted m"]
  by (auto simp: write_view_def same_config_def split: option.split)

lemma write_ok:
  assumes "cache_ok rows m" "entry_ok m rows s v st" "store_key m s v = Inr k"
  shows "cache_ok rows (write_view k st m)"
  using assms(3) write_shape [where m = m and k = k and st = st] entry_json [OF assms(2)]
  by (intro cache_ok_mono [OF assms(1), where s = s and v = v]) auto

lemma write_config [simp]: "same_config m (write_view k st m)"
  by (rule write_shape)

lemma count_ok: "cache_ok rows m \<Longrightarrow> cache_ok rows (count_lookup hit m)" "same_config m (count_lookup hit m)"
  by (auto simp: count_lookup_def Let_def same_config_def intro: cache_ok_mono)

lemma touch_ok:
  assumes "cache_ok rows m" "entry_ok m rows s v st" "is_ok (store_key m s v)"
  shows "cache_ok rows (touch_state (state_key s v) st m)" "same_config m (touch_state (state_key s v) st m)"
proof -
  show same: "same_config m (touch_state (state_key s v) st m)" by (simp add: touch_state_def same_config_def)
  show "cache_ok rows (touch_state (state_key s v) st m)"
    using assms(2,3) set_delete_subset [of "state_key s v" "mz_states m"]
    by (intro cache_ok_mono [OF assms(1) same, where s = s and v = v]) (auto simp: touch_state_def)
qed

lemma evict_ok: "cache_ok rows m \<Longrightarrow> cache_ok rows (evictIfNeeded m)" "same_config m (evictIfNeeded m)"
proof -
  show same: "same_config m (evictIfNeeded m)"
    by (simp add: same_config_def)
  show "cache_ok rows (evictIfNeeded m)" if "cache_ok rows m"
    using evicted_subset [of m] by (intro cache_ok_mono [OF that same]) auto
qed

lemma save_ok:
  assumes "cache_ok rows m" "entry_ok m rows s v st" "is_ok (store_key m s v)"
  shows "cache_ok rows (save_if_due s v st m)" "same_config m (save_if_due s v st m)"
proof -
  let ?m = "m\<lparr>mz_lastSnapshot := AList.update (state_key s v) (vs_hwm st) (mz_lastSnapshot m)\<rparr>"
    and ?p = "\<lambda>m. m\<lparr>mz_pending := mz_pending m @ [((s, v), st)]\<rparr>"
  have same: "same_config m ?m" "same_config ?m (?p ?m)" by (simp_all add: same_config_def)
  have ok: "cache_ok rows ?m" by (rule cache_ok_mono [OF assms(1) same(1)]) auto
  note here = same_configD [OF same(1)]
  have filed: "cache_ok rows (?p ?m)" if "mz_persistence m = SnapshotFiles"
    using that assms(2) by (intro cache_ok_mono [OF ok same(2), where s = s and v = v]) (auto simp: here)
  have cache: "cache_ok rows (write_view (s, v) st ?m)" if "mz_persistence m = BackendCache"
    using that assms(2) by (intro write_ok [OF ok]) (auto simp: here store_key_def)
  show "cache_ok rows (save_if_due s v st m)"
    using assms(1) ok filed cache by (auto simp: save_if_due_def Let_def split: persistence.split)
  show "same_config m (save_if_due s v st m)"
    using same_config_trans [OF same(1) write_config] same_config_trans [OF same] same(1)
    by (auto simp: save_if_due_def Let_def split: persistence.split)
qed

text \<open>A run keeps the invariant when its result is an entry of the log.\<close>

lemma materialize_cases:
  assumes "materializeAt m s v es = (m', r)"
  defines "k \<equiv> state_key s v" and "m1 \<equiv> count_lookup (map_of (mz_states m) (state_key s v) \<noteq> None) m"
  obtains "m' = m" | "m' = m1"
    | st where "\<not> isInternalSentinelStream s" "r = Inr st"
        "m' = evictIfNeeded (touch_state k st m1) \<or> m' = save_if_due s v st (evictIfNeeded (touch_state k st m1))"
proof (cases "map_of (mz_projections m) v")
  case None
  with assms(1) have "m' = m" by (simp add: materializeAt_def)
  then show thesis by (rule that(1))
next
  case (Some p)
  let ?st = "start_state (pj_init p) (map_of (mz_states m) k)"
  let ?fresh = "newer (vs_hwm ?st) es"
  show thesis
  proof (cases "isInternalSentinelStream s")
    case True
    with Some assms(1) have "m' = m" by (simp add: materializeAt_def)
    then show thesis by (rule that(1))
  next
    case False
    show thesis
    proof (cases "fold_events (pj_apply p) (vs_view ?st) ?fresh")
      case (Inl err)
      with Some False assms have "m' = m1" by (simp add: materializeAt_def Let_def)
      then show thesis by (rule that(2))
    next
      case (Inr w)
      let ?new = "\<lparr>vs_view = w, vs_hwm = reached (vs_hwm ?st) ?fresh\<rparr>"
      have "r = Inr ?new" "m' = evictIfNeeded (touch_state k ?new m1) \<or>
          m' = save_if_due s v ?new (evictIfNeeded (touch_state k ?new m1))"
        using Inr Some False assms by (cases "?fresh = []"; simp add: materializeAt_def Let_def)+
      with False show thesis by (intro that(3))
    qed
  qed
qed

lemma materialize_ok:
  assumes run: "materializeAt m s v es = (m', r)" and ok: "cache_ok rows m" and key: "is_ok (store_key m s v)"
    and entry: "\<And>st. r = Inr st \<Longrightarrow> \<not> isInternalSentinelStream s \<Longrightarrow> entry_ok m rows s v st"
  shows "cache_ok rows m' \<and> same_config m m'"
proof -
  let ?k = "state_key s v"
  define m1 where "m1 = count_lookup (map_of (mz_states m) ?k \<noteq> None) m"
  have m1: "cache_ok rows m1" "same_config m m1" using count_ok ok by (simp_all add: m1_def)
  consider "m' = m" | "m' = m1"
    | st where "\<not> isInternalSentinelStream s" "r = Inr st"
        "m' = evictIfNeeded (touch_state ?k st m1) \<or>
         m' = save_if_due s v st (evictIfNeeded (touch_state ?k st m1))"
    using run by (rule materialize_cases [of m s v es m' r]) (auto simp: m1_def)
  then show ?thesis
  proof cases
    case 3
    let ?m2 = "evictIfNeeded (touch_state ?k st m1)"
    note e1 = entry [OF 3(2,1)]
    have t: "cache_ok rows (touch_state ?k st m1)" "same_config m1 (touch_state ?k st m1)"
      using touch_ok [OF m1(1)] e1 key same_configD [OF m1(2)] by auto
    have m2: "cache_ok rows ?m2" "same_config m ?m2"
      using evict_ok t m1(2) same_config_trans by blast+
    have "cache_ok rows (save_if_due s v st ?m2)" "same_config ?m2 (save_if_due s v st ?m2)"
      using save_ok [OF m2(1)] e1 key same_configD [OF m2(2)] by auto
    with m2 3(3) show ?thesis using same_config_trans by auto
  qed (use ok m1 in auto)
qed

lemma touch_get: "map_of (mz_states (touch_state k st m)) k = Some st"
proof -
  have "k \<notin> fst ` set (AList.delete k (mz_states m))" by (simp add: keys_delete)
  then have "map_of (AList.delete k (mz_states m)) k = None" by (simp only: map_of_eq_None_iff not_False_eq_True)
  then show ?thesis by (simp add: touch_state_def map_add_def)
qed

lemma getState_result:
  assumes "getState m s v = (m1, c)"
  shows "c = map_of (mz_states m1) (state_key s v) \<and> c = map_of (mz_states m) (state_key s v) \<and>
    same_config m m1 \<and> (cache_ok rows m \<longrightarrow> cache_ok rows m1)"
proof (cases "map_of (mz_states m) (state_key s v)")
  case None
  with assms show ?thesis by (auto simp: getState_def)
next
  case (Some st)
  then have m1: "m1 = touch_state (state_key s v) st m" "c = Some st"
    using assms by (auto simp: getState_def)
  have sub: "set (mz_states m1) \<subseteq> set (mz_states m)"
    using map_of_SomeD [OF Some] set_delete_subset [of "state_key s v" "mz_states m"]
    by (auto simp: m1 touch_state_def)
  have same: "same_config m m1" "mz_persisted m1 = mz_persisted m" "mz_pending m1 = mz_pending m"
    by (simp_all add: m1 touch_state_def same_config_def)
  have "cache_ok rows m1" if "cache_ok rows m"
    using sub same(2,3) by (intro cache_ok_mono [OF that same(1)]) auto
  with same(1) m1 Some show ?thesis by (simp add: touch_get)
qed

lemma load_result:
  assumes "cache_ok rows m" "v \<in> fst ` set (mz_projections m)" "\<not> isInternalSentinelStream s"
  shows "cache_ok rows (fst (loadFromSnapshot m s v)) \<and> same_config m (fst (loadFromSnapshot m s v)) \<and>
    (case snd (loadFromSnapshot m s v) of
       Inl err \<Rightarrow> store_key m s v = Inl err | Inr _ \<Rightarrow> is_ok (store_key m s v))"
proof (cases "mz_persistence m = NoPersistence")
  case True
  with assms show ?thesis by (simp add: loadFromSnapshot_def store_key_def)
next
  case False
  show ?thesis
  proof (cases "store_key m s v")
    case (Inl err)
    with False assms show ?thesis by (simp add: loadFromSnapshot_def)
  next
    case (Inr k)
    show ?thesis
    proof (cases "map_of (mz_persisted m) k")
      case None
      with False Inr assms show ?thesis by (simp add: loadFromSnapshot_def)
    next
      case (Some st)
      let ?m = "m\<lparr>mz_states := AList.update (state_key s v) st (mz_states m),
         mz_lastSnapshot := AList.update (state_key s v) (vs_hwm st) (mz_lastSnapshot m)\<rparr>"
      have load: "loadFromSnapshot m s v = (evictIfNeeded ?m, Inr True)"
        using False Inr Some assms(3) by (simp add: loadFromSnapshot_def Let_def)
      have same: "same_config m ?m" by (simp add: same_config_def)
      have "cache_ok rows ?m"
        using persisted_ok [OF assms(1,2) Inr Some] Inr set_update_subset [of "state_key s v" st "mz_states m"]
        by (intro cache_ok_mono [OF assms(1) same, where s = s and v = v]) auto
      with evict_ok(1) same_config_trans [OF same evict_ok(2)] Inr show ?thesis unfolding load by simp
    qed
  qed
qed

text \<open>A registered view is warm, or has loaded what there was; or its snapshot has no legal name.\<close>

lemma warm_up_result:
  assumes "warm_up m s v = (m1, x)" "cache_ok rows m" "v \<in> fst ` set (mz_projections m)" "\<not> isInternalSentinelStream s"
  shows "same_config m m1 \<and> cache_ok rows m1 \<and>
    (case x of Inl err \<Rightarrow> store_key m s v = Inl err
     | Inr c \<Rightarrow> c = map_of (mz_states m1) (state_key s v) \<and> is_ok (store_key m s v))"
proof -
  obtain m0 c0 where g: "getState m s v = (m0, c0)" by (cases "getState m s v")
  note g0 = getState_result [OF g, of rows]
  have same0: "same_config m m0" and ok0: "cache_ok rows m0" using g0 assms(2) by auto
  show ?thesis
  proof (cases c0)
    case None
    obtain m2 y where l: "loadFromSnapshot m0 s v = (m2, y)" by (cases "loadFromSnapshot m0 s v")
    have in0: "v \<in> fst ` set (mz_projections m0)" using assms(3) same0 by (simp add: same_config_def)
    note load = load_result [OF ok0 in0 assms(4), unfolded l fst_conv snd_conv same_configD(2) [OF same0]]
    show ?thesis
    proof (cases y)
      case (Inl err)
      with assms(1) g None l have "m1 = m2" "x = Inl err" by (simp_all add: warm_up_def)
      with load Inl same0 same_config_trans show ?thesis by auto
    next
      case (Inr b)
      obtain m3 c where g3: "getState m2 s v = (m3, c)" by (cases "getState m2 s v")
      with assms(1) g None l Inr have "m1 = m3" "x = Inr c" by (simp_all add: warm_up_def)
      with getState_result [OF g3, of rows] load Inr same0 same_config_trans show ?thesis by auto blast
    qed
  next
    case (Some st)
    obtain m3 c where g3: "getState m0 s v = (m3, c)" by (cases "getState m0 s v")
    with assms(1) g Some have m1: "m1 = m3" "x = Inr c" by (simp_all add: warm_up_def)
    have "is_ok (store_key m s v)"
      using cached_ok(2) [OF assms(2,3)] g0 Some by metis
    with m1 getState_result [OF g3, of rows] same0 ok0 same_config_trans show ?thesis by auto
  qed
qed

lemma warm_up_cached: "warm_up m s v = (m1, Inr c) \<Longrightarrow> c = map_of (mz_states m1) (state_key s v)"
  by (auto simp: warm_up_def map_prod_def split: prod.splits option.splits sum.splits dest: getState_result)

lemma discard_ok: "cache_ok rows m \<Longrightarrow> cache_ok rows (discardFold m s v)" "same_config m (discardFold m s v)"
proof -
  show same: "same_config m (discardFold m s v)" by (simp add: discardFold_def same_config_def)
  show "cache_ok rows (discardFold m s v)" if "cache_ok rows m"
    using set_delete_subset [of "state_key s v" "mz_states m"]
    by (intro cache_ok_mono [OF that same]) (auto simp: discardFold_def)
qed

section \<open>Reads\<close>

text \<open>A read whose snapshot has no legal name fails, and changes nothing that matters.\<close>

lemma read_refused:
  assumes "cache_ok rows m" "ready_for p s v m" "store_key m s v = Inl err"
  shows "\<exists>m'. foldAtPinnedTail m (rows s) s v t = (m', Inl (Unloadable err)) \<and> cache_ok rows m' \<and> same_config m m'"
proof -
  obtain m1 x where warm: "warm_up m s v = (m1, x)" by (cases "warm_up m s v")
  have "v \<in> fst ` set (mz_projections m)" "\<not> isInternalSentinelStream s"
    using assms(2) by (auto simp: ready_for_def intro: registered_name)
  from warm_up_result [OF warm assms(1) this] have w: "same_config m m1" "cache_ok rows m1"
    "case x of Inl e \<Rightarrow> store_key m s v = Inl e | Inr c \<Rightarrow> is_ok (store_key m s v)"
    by (auto split: sum.splits)
  with assms(3) have "x = Inl err" by (auto split: sum.splits)
  with warm w assms(2) show ?thesis by (simp add: foldAtPinnedTail_def ready_for_def)
qed

text \<open>Any other read makes one run; what the run gives when the views of the log survive.\<close>

lemma read_run:
  assumes ok: "cache_ok rows m" and ready: "ready_for p s v m" and key: "is_ok (store_key m s v)"
    and log: "from_one (rows s)" and t: "pinned t (rows s)"
  obtains m2 m3 r rep es fr where
    "foldAtPinnedTail m (rows s) s v t = (m3, case r of Inl err \<Rightarrow> Inl (Materialize err)
       | Inr st \<Rightarrow> if vs_hwm st < t then Inl (ProjectionCoverageError s v (fr st))
           else Inr \<lparr>ft_view = vs_view st, ft_sequence = vs_hwm st, ft_repaired = rep\<rparr>)"
    "materializeAt m2 s v es = (m3, r)"
    "survives (mz_json m) p (rows s) \<longrightarrow> r = (case fold_events (pj_apply p) (pj_init p) (up_to t (rows s)) of
       Inl err \<Rightarrow> Inl (ApplyFailed err) | Inr x \<Rightarrow> Inr \<lparr>vs_view = x, vs_hwm = t\<rparr>)"
    "cache_ok rows m2" "same_config m m2"
proof -
  have reg: "map_of (mz_projections m) v = Some p" and no_sentinel: "\<not> isInternalSentinelStream s"
    using ready by (simp_all add: ready_for_def)
  obtain m1 x where warm: "warm_up m s v = (m1, x)" by (cases "warm_up m s v")
  from warm_up_result [OF warm ok registered_name [OF reg] no_sentinel] key
  obtain c where x: "x = Inr c" and c: "c = map_of (mz_states m1) (state_key s v)"
    and same: "same_config m m1" and ok1: "cache_ok rows m1" by (auto split: sum.splits)
  have ready1: "ready_for p s v m1" using ready same_configD [OF same] by simp
  define plan where "plan = planRehydrationSource \<lparr>sp_hasSnapshot = (c \<noteq> None),
       sp_cursor = (case c of None \<Rightarrow> 0 | Some st \<Rightarrow> vs_hwm st), sp_eventTail = Some t, sp_viewName = Some v\<rparr>"
  define m2 where "m2 = (if rp_seed plan then m1 else discardFold m1 s v)"
  define es where "es = filter (\<lambda>e. we_sequence e \<le> t) (query_from (rp_since plan) (rows s))"
  obtain m3 r where run: "materializeAt m2 s v es = (m3, r)" by (cases "materializeAt m2 s v es")
  have es: "es = up_to t (newer (rp_since plan) (rows s))"
    by (simp add: es_def up_to_def query_from_newer [OF log])
  have seeded: "rp_seed plan \<longleftrightarrow> (\<exists>st. c = Some st \<and> vs_hwm st \<le> t)"
    and since: "rp_since plan = (case c of None \<Rightarrow> 0 | Some st \<Rightarrow> if vs_hwm st \<le> t then vs_hwm st else 0)"
    by (auto simp: plan_def planRehydrationSource_def assessProjectionFreshness_def seeded_plan_def Let_def split: option.splits)
  have r: "r = (case fold_events (pj_apply p) (pj_init p) (up_to t (rows s)) of
       Inl err \<Rightarrow> Inl (ApplyFailed err) | Inr x \<Rightarrow> Inr \<lparr>vs_view = x, vs_hwm = t\<rparr>)"
    if sv: "survives (mz_json m) p (rows s)"
  proof (cases "rp_seed plan")
    case True
    then obtain st where st: "c = Some st" "vs_hwm st \<le> t" using seeded by blast
    have "entry_ok m rows s v st"
      using cached_ok(1) [OF ok1, of v s st] registered_name [OF reg] st(1) c same_configD [OF same] same
      by (auto simp: same_config_def)
    then have "covers p (rows s) st" using reg sv by (auto simp: entry_ok_def)
    with fold_cache.run_exact [OF ready1 log t, of "vs_hwm st"] st c since es run True m2_def
    show ?thesis by simp
  next
    case False
    then have "rp_since plan = 0" using seeded since by (auto split: option.splits)
    with fold_cache.replay_exact [OF ready1 log t] es run False m2_def newer_zero [OF log]
    show ?thesis by simp
  qed
  have shape: "foldAtPinnedTail m (rows s) s v t = (m3, case r of Inl err \<Rightarrow> Inl (Materialize err)
       | Inr st \<Rightarrow> if vs_hwm st < t
           then Inl (ProjectionCoverageError s v (assessProjectionFreshness t (vs_hwm st) (Some v)))
           else Inr \<lparr>ft_view = vs_view st, ft_sequence = vs_hwm st,
             ft_repaired = (if rp_degraded plan then rp_freshness plan else None)\<rparr>)"
    unfolding foldAtPinnedTail_def warm x Let_def prod.case sum.case plan_def [symmetric] m2_def [symmetric]
      es_def [symmetric] run
    using no_sentinel by (auto split: sum.splits)
  have "cache_ok rows m2" "same_config m m2"
    using ok1 discard_ok(1) [OF ok1] same_config_trans [OF same discard_ok(2)] same by (simp_all add: m2_def)
  with that [OF shape run] r show thesis by blast
qed

lemma read_keeps:
  assumes ok: "cache_ok rows m" and reg: "map_of (mz_projections m) v = Some p"
    and "from_one (rows s)" "pinned t (rows s)"
  shows "cache_ok rows (fst (foldAtPinnedTail m (rows s) s v t)) \<and>
    same_config m (fst (foldAtPinnedTail m (rows s) s v t))"
proof (cases "isInternalSentinelStream s")
  case True
  with ok reg show ?thesis by (simp add: foldAtPinnedTail_def materializeAt_def)
next
  case False
  then have ready: "ready_for p s v m" using reg by (simp add: ready_for_def)
  show ?thesis
  proof (cases "store_key m s v")
    case (Inl err)
    with read_refused [OF ok ready, of err t] show ?thesis by auto
  next
    case (Inr k)
    then have key: "is_ok (store_key m s v)" by simp
    obtain m2 m3 r rep es fr where f: "foldAtPinnedTail m (rows s) s v t = (m3, case r of Inl err \<Rightarrow> Inl (Materialize err)
       | Inr st \<Rightarrow> if vs_hwm st < t then Inl (ProjectionCoverageError s v (fr st))
           else Inr \<lparr>ft_view = vs_view st, ft_sequence = vs_hwm st, ft_repaired = rep\<rparr>)"
      and run: "materializeAt m2 s v es = (m3, r)"
      and r: "survives (mz_json m) p (rows s) \<longrightarrow> r = (case fold_events (pj_apply p) (pj_init p) (up_to t (rows s)) of
         Inl err \<Rightarrow> Inl (ApplyFailed err) | Inr x \<Rightarrow> Inr \<lparr>vs_view = x, vs_hwm = t\<rparr>)"
      and ok2: "cache_ok rows m2" and same: "same_config m m2"
      by (rule read_run [OF ok ready key assms(3,4)])
    have "entry_ok m rows s v st" if "r = Inr st" for st
      using that r reg assms(4) by (auto simp: entry_ok_def covers_def split: sum.splits)
    then have "cache_ok rows m3 \<and> same_config m2 m3"
      using key by (intro materialize_ok [OF run ok2]) (simp_all add: same_configD [OF same])
    with same same_config_trans show ?thesis by (auto simp: f)
  qed
qed



lemma finish_ok:
  assumes "cache_ok rows m" "entry_ok m rows s v st" "mz_persistence m = SnapshotFiles"
  shows "cache_ok rows (finish_snapshot ((s, v), st) m)" "same_config m (finish_snapshot ((s, v), st) m)"
  using assms write_ok [OF assms(1,2)]
  by (auto simp: finish_snapshot_def store_key_def split: sum.split)


lemma flush_keeps:
  assumes "cache_ok rows m"
  shows "cache_ok rows (flush m)" "same_config m (flush m)"
proof -
  have "cache_ok rows (fold finish_snapshot ws n) \<and> same_config n (fold finish_snapshot ws n)"
    if "cache_ok rows n" "\<forall>s v st. ((s, v), st) \<in> set ws \<longrightarrow> entry_ok n rows s v st \<and> mz_persistence n = SnapshotFiles" for ws n
    using that
  proof (induction ws arbitrary: n)
    case (Cons w ws)
    obtain s v st where w: "w = ((s, v), st)" by (cases w; cases "fst w") auto
    with Cons.prems have e: "entry_ok n rows s v st" "mz_persistence n = SnapshotFiles" by auto
    note f = finish_ok [OF Cons.prems(1) e]
    have "\<forall>s v st'. ((s, v), st') \<in> set ws \<longrightarrow> entry_ok (finish_snapshot w n) rows s v st' \<and>
        mz_persistence (finish_snapshot w n) = SnapshotFiles"
      using Cons.prems(2) same_configD(1) [OF f(2)] f(2) by (auto simp: w same_config_def)
    from Cons.IH [OF _ this] f show ?case using same_config_trans by (auto simp: w)
  qed simp
  from this [of m "mz_pending m"] assms
  have f: "cache_ok rows (fold finish_snapshot (mz_pending m) m)"
    "same_config m (fold finish_snapshot (mz_pending m) m)"
    by (auto simp: cache_ok_def)
  have last_step: "same_config n (n\<lparr>mz_pending := []\<rparr>)" for n :: "('a, 'b) materializer"
    by (simp add: same_config_def)
  show "cache_ok rows (flush m)"
    unfolding flush_def by (rule cache_ok_mono [OF f(1) last_step]) auto
  show "same_config m (flush m)"
    unfolding flush_def by (rule same_config_trans [OF f(2) last_step])
qed





text \<open>The view of the workflow state in a cache that SQLite backs: a view reads back from its JSON text.\<close>

definition view_json :: "view \<Rightarrow> view option" where
  "view_json v = Some (json_fields v)"

definition view_cache :: "persistence \<Rightarrow> (view_error, view) materializer" where
  "view_cache persistence =
     \<lparr>mz_projections = [(WORKFLOW_STATE_VIEW, workflowStateProjection)], mz_states = [],
      mz_lastSnapshot = [], mz_persistence = persistence, mz_namespaces = [], mz_json = view_json,
      mz_persisted = [], mz_pending = [], mz_interval = 1, mz_maxEntries = 100, mz_window = 100, mz_hits = 0,
      mz_misses = 0, mz_bypasses = 0, mz_recentMisses = 0, mz_recentTotal = 0\<rparr>"

definition revision_event :: wf_event where
  "revision_event =
     \<lparr>we_stream = ''f'', we_sequence = 1, we_timestamp = ''t1'', we_type = ''workflow.plan-revision'',
      we_eventId = None, we_key = None, we_operation = None, we_correlation = None, we_causation = None,
      we_data = JUndef\<rparr>"





text \<open>Two patches of one list: the first leaves a hole, the second writes through it.\<close>

definition patch_event :: "nat \<Rightarrow> string \<Rightarrow> wf_event" where
  "patch_event n path = revision_event\<lparr>we_sequence := n, we_type := ''state.patched'',
     we_data := JObj [(''patch'', JObj [(path, JStr ''x'')])]\<rparr>"

definition hole_event :: wf_event where
  "hole_event = patch_event 1 ''notes[1]''"

definition fill_event :: wf_event where
  "fill_event = patch_event 2 ''notes[0].text''"

text \<open>
  A cache with room for one view and snapshot files: after a read of the stream, the end of its snapshot
  write, and a read of another stream.
\<close>

definition small_cache :: "(view_error, view) materializer" where
  "small_cache = view_cache SnapshotFiles\<lparr>mz_maxEntries := 1\<rparr>"

definition filled_cache :: "(view_error, view) materializer" where
  "filled_cache = fst (foldAtPinnedTail small_cache [hole_event] ''f'' WORKFLOW_STATE_VIEW 1)"

definition evicted_cache :: "(view_error, view) materializer" where
  "evicted_cache = fst (foldAtPinnedTail (flush filled_cache) [] ''g'' WORKFLOW_STATE_VIEW 0)"

lemma evicted_reach:
  "system_reach \<lparr>rs_rows = (\<lambda>_. [])(''f'' := [hole_event, fill_event]), rs_cache = evicted_cache\<rparr>"
proof -
  let ?one = "(\<lambda>_. [])(''f'' := [hole_event])" and ?two = "(\<lambda>_. [])(''f'' := [hole_event, fill_event])"
  have seqs: "we_sequence hole_event = 1" "we_sequence fill_event = 2"
    by (simp_all add: hole_event_def fill_event_def patch_event_def)
  have ok: "cache_ok ?one small_cache"
    by (simp add: cache_ok_def small_cache_def view_cache_def names_ok_def WORKFLOW_STATE_VIEW_def)
  have small: "map_of (mz_projections small_cache) WORKFLOW_STATE_VIEW = Some workflowStateProjection"
    by (simp add: small_cache_def view_cache_def)
  have "from_one (?one ''f'')" "pinned 1 (?one ''f'')" by (simp_all add: from_one_def seq_sorted_def pinned_def seqs)
  from read_keeps [OF ok small this] have kept: "cache_ok ?one filled_cache" "same_config small_cache filled_cache"
    by (simp_all only: filled_cache_def fun_upd_same)
  have flushed: "map_of (mz_projections (flush filled_cache)) WORKFLOW_STATE_VIEW = Some workflowStateProjection"
    using kept(2) flush_keeps(2) [OF kept(1)] small by (simp add: same_config_def)
  have "system_start \<lparr>rs_rows = \<lambda>_. [], rs_cache = small_cache\<rparr>"
    by (simp add: system_start_def small_cache_def view_cache_def names_ok_def WORKFLOW_STATE_VIEW_def)
  then have "system_reach \<lparr>rs_rows = \<lambda>_. [], rs_cache = small_cache\<rparr>" by (rule system_reach.start)
  from system_reach.step [OF this system_step.append_row [of _ "''f''" hole_event]]
  have "system_reach \<lparr>rs_rows = ?one, rs_cache = small_cache\<rparr>" by (simp add: seqs)
  from system_reach.step [OF this system_step.read_view [of 1 _ "''f''" WORKFLOW_STATE_VIEW workflowStateProjection]]
  have "system_reach \<lparr>rs_rows = ?one, rs_cache = filled_cache\<rparr>"
    by (simp add: pinned_def seqs small filled_cache_def)
  from system_reach.step [OF this system_step.flush_writes]
  have "system_reach \<lparr>rs_rows = ?one, rs_cache = flush filled_cache\<rparr>" by simp
  from system_reach.step [OF this system_step.read_view [of 0 _ "''g''" WORKFLOW_STATE_VIEW workflowStateProjection]]
  have "system_reach \<lparr>rs_rows = ?one, rs_cache = evicted_cache\<rparr>"
    by (simp add: pinned_def flushed evicted_cache_def)
  from system_reach.step [OF this system_step.append_row [of _ "''f''" fill_event]]
  show ?thesis by (simp add: seqs tail_seq_def)
qed

text \<open>
  C31: a snapshot can change an answer. The log of the stream folds to a view without an error; a cache that
  has read the stream once, has then evicted it and loads its snapshot fails on the same log. The first patch
  leaves a hole in a list, which the snapshot stores as null, and the second patch, which would fill the hole,
  raises a TypeError on null. So the condition of a cached read on the views of its stream is needed.
\<close>

theorem snapshot_changes_answer:
  "\<exists>x :: (view_error, view) read_system. system_reach x \<and> rs_rows x ''f'' = [hole_event, fill_event] \<and>
     is_ok (fold_events apply_event init_view [hole_event, fill_event]) \<and>
     snd (foldAtPinnedTail (rs_cache x) (rs_rows x ''f'') ''f'' WORKFLOW_STATE_VIEW 2) =
       Inl (Materialize (ApplyFailed (PatchError NotAssignable)))"
proof -
  have "is_ok (fold_events apply_event init_view [hole_event, fill_event])" by code_simp
  moreover have "snd (foldAtPinnedTail evicted_cache [hole_event, fill_event] ''f'' WORKFLOW_STATE_VIEW 2) =
      Inl (Materialize (ApplyFailed (PatchError NotAssignable)))" by code_simp
  ultimately show ?thesis
    using evicted_reach
    by (intro exI [of _ "\<lparr>rs_rows = (\<lambda>_. [])(''f'' := [hole_event, fill_event]), rs_cache = evicted_cache\<rparr>"]) simp
qed

text \<open>
  no answer without its tail. From any cache, even one that holds views of another log, a read of a stream
  either fails or answers with exactly the pinned tail as its sequence; a fold that falls short because the
  log lost events is an error and never an answer.
\<close>

theorem answer_covers_its_tail:
  assumes "foldAtPinnedTail m rows s v t = (m', Inr r)" "\<not> isInternalSentinelStream s"
  shows "ft_sequence r = t"
proof -
  obtain m1 c where warm: "warm_up m s v = (m1, Inr c)"
    using assms by (auto simp: foldAtPinnedTail_def split: prod.splits sum.splits)
  define plan where "plan = planRehydrationSource \<lparr>sp_hasSnapshot = (c \<noteq> None),
       sp_cursor = (case c of None \<Rightarrow> 0 | Some st \<Rightarrow> vs_hwm st), sp_eventTail = Some t, sp_viewName = Some v\<rparr>"
  define m2 where "m2 = (if rp_seed plan then m1 else discardFold m1 s v)"
  define es where "es = filter (\<lambda>e. we_sequence e \<le> t) (query_from (rp_since plan) rows)"
  obtain m3 st where run: "materializeAt m2 s v es = (m3, Inr st)" and short: "\<not> vs_hwm st < t"
    and r: "ft_sequence r = vs_hwm st"
    using assms(1,2) unfolding foldAtPinnedTail_def warm Let_def prod.case sum.case plan_def [symmetric]
      m2_def [symmetric] es_def [symmetric]
    by (auto split: prod.splits sum.splits if_splits)
  from run obtain p where "map_of (mz_projections m2) v = Some p"
    by (auto simp: materializeAt_def split: option.splits)
  then have ready: "ready_for p s v m2" using assms(2) by (simp add: ready_for_def)
  let ?base = "start_state (pj_init p) (map_of (mz_states m2) (state_key s v))"
  have "vs_hwm st = reached (vs_hwm ?base) (newer (vs_hwm ?base) es)"
    using fold_cache.run_result [OF ready, of es] run by (auto simp: Let_def split: sum.splits)
  moreover have "vs_hwm ?base \<le> t"
  proof -
    have c: "c = map_of (mz_states m1) (state_key s v)" using warm_up_cached [OF warm] .
    show ?thesis
    proof (cases "rp_seed plan")
      case True
      then obtain st0 where "c = Some st0" "vs_hwm st0 \<le> t"
        by (auto simp: plan_def planRehydrationSource_def assessProjectionFreshness_def Let_def split: option.splits if_splits)
      then have "map_of (mz_states m1) (state_key s v) = Some st0" "vs_hwm st0 \<le> t" using c by auto
      with True show ?thesis by (simp add: m2_def start_state_def)
    qed (simp add: m2_def discardFold_def start_state_def)
  qed
  moreover have "reached h (newer h es) \<le> t" if "h \<le> t" for h
  proof (cases "newer h es = []")
    case False
    then have "last (newer h es) \<in> set es" using last_in_set [OF False] by (simp add: newer_def)
    with False show ?thesis by (simp add: reached_def es_def)
  qed (simp add: reached_def that)
  ultimately show ?thesis using short r by (metis not_less le_antisym)
qed

lemma answer_covers_its_tail_witness:
  "\<exists>m' r. foldAtPinnedTail
      \<lparr>mz_projections = [(''n'', \<lparr>pj_init = 0, pj_apply = \<lambda>n e. Inr (n + 1)\<rparr> :: (unit, nat) projection)],
       mz_states = [(''n:f'', \<lparr>vs_view = 7, vs_hwm = 9\<rparr>)], mz_lastSnapshot = [], mz_persistence = NoPersistence,
       mz_namespaces = [], mz_json = Some, mz_persisted = [], mz_pending = [], mz_interval = 50, mz_maxEntries = 100, mz_window = 100, mz_hits = 0,
       mz_misses = 0, mz_bypasses = 0, mz_recentMisses = 0, mz_recentTotal = 0\<rparr> [] ''f'' ''n'' 0 = (m', Inr r) \<and>
    ft_sequence r = 0"
proof -
  let ?m = "\<lparr>mz_projections = [(''n'', \<lparr>pj_init = 0, pj_apply = \<lambda>n e. Inr (n + 1)\<rparr> :: (unit, nat) projection)],
       mz_states = [(''n:f'', \<lparr>vs_view = 7, vs_hwm = 9\<rparr>)], mz_lastSnapshot = [], mz_persistence = NoPersistence,
       mz_namespaces = [], mz_json = Some, mz_persisted = [], mz_pending = [], mz_interval = 50, mz_maxEntries = 100, mz_window = 100, mz_hits = 0,
       mz_misses = 0, mz_bypasses = 0, mz_recentMisses = 0, mz_recentTotal = 0\<rparr>"
  have "is_ok (snd (foldAtPinnedTail ?m [] ''f'' ''n'' 0))"
    by (simp add: foldAtPinnedTail_def isInternalSentinelStream_def warm_up_def getState_def state_key_def
        touch_state_def planRehydrationSource_def assessProjectionFreshness_def materializeAt_def
        discardFold_def query_from_def newer_def start_state_def reached_def Let_def)
  then obtain m' r where run: "foldAtPinnedTail ?m [] ''f'' ''n'' 0 = (m', Inr r)"
    by (cases "foldAtPinnedTail ?m [] ''f'' ''n'' 0"; cases "snd (foldAtPinnedTail ?m [] ''f'' ''n'' 0)") simp_all
  from answer_covers_its_tail [OF run] have "ft_sequence r = 0"
    by (simp add: isInternalSentinelStream_def)
  with run show ?thesis by blast
qed

end
