(* ===== verification/Task_Projections.thy ===== *)
theory Task_Projections
  imports Workflow_View
begin

text \<open>
  The projections of tasks and merges: the extractors of \<open>src/projections/shared/event-data-extractors.ts\<close>,
  the status ladder of \<open>src/projections/shared/task-status-fold.ts\<close> with the pipeline view that folds it
  (\<open>src/projections/views/pipeline-view.ts\<close>), the \<open>task-store@v1\<close> reducer
  (\<open>src/projections/taskstore/reducer.ts\<close>) and the \<open>merge-orchestrator@v1\<close> reducer
  (\<open>src/projections/merge-orchestrator/reducer.ts\<close>).
\<close>

section \<open>Extractors\<close>

definition extractString :: "js \<Rightarrow> string \<Rightarrow> string option" where
  "extractString d k = (case opt_get d k of JStr s \<Rightarrow> if s = [] then None else Some s | _ \<Rightarrow> None)"

definition extractTaskId :: "js \<Rightarrow> string option" where
  "extractTaskId d = extractString d ''taskId''"

definition extractNumber :: "js \<Rightarrow> string \<Rightarrow> rat option" where
  "extractNumber d k = (case opt_get d k of JNum (Fin r) \<Rightarrow> Some r | _ \<Rightarrow> None)"

definition extractStringArray :: "js \<Rightarrow> string \<Rightarrow> string list option" where
  "extractStringArray d k =
     (case opt_get d k of JArr xs \<Rightarrow> Some (List.map_filter as_string xs) | _ \<Rightarrow> None)"

definition extractBoolean :: "js \<Rightarrow> string \<Rightarrow> bool option" where
  "extractBoolean d k = (case opt_get d k of JBool b \<Rightarrow> Some b | _ \<Rightarrow> None)"

section \<open>The status ladder\<close>

definition STATUS_RANK :: "(string \<times> nat) list" where
  "STATUS_RANK = [(''pending'', 0), (''in_progress'', 1), (''complete'', 2), (''failed'', 2)]"

definition rankOf :: "string \<Rightarrow> nat" where
  "rankOf status = (case map_of STATUS_RANK status of None \<Rightarrow> 0 | Some n \<Rightarrow> n)"

definition normalizeTaskStatus :: "js \<Rightarrow> string" where
  "normalizeTaskStatus raw =
     (if raw = JStr ''failed'' then ''failed''
      else if raw = JStr ''complete'' \<or> raw = JStr ''completed'' then ''complete''
      else if raw = JStr ''in_progress'' \<or> raw = JStr ''assigned'' then ''in_progress''
      else ''pending'')"

type_synonym ladder = "(string \<times> string) list"

text \<open>
  The lookup is one on an object, so an id that every object inherits, such as \<open>constructor\<close>, reads as the
  inherited property, which has rank zero: it counts as present until a status of a higher rank arrives.
\<close>

definition promoteStatus :: "ladder \<Rightarrow> string \<Rightarrow> string \<Rightarrow> ladder" where
  "promoteStatus tasksById i nextStatus =
     (case map_of tasksById i of
        None \<Rightarrow>
          if i \<in> set object_names \<and> rankOf nextStatus = 0 then tasksById
          else AList.update i nextStatus tasksById
      | Some existing \<Rightarrow>
          if rankOf nextStatus > rankOf existing then AList.update i nextStatus tasksById else tasksById)"

definition plan_task :: "js \<Rightarrow> (string \<times> string) option" where
  "plan_task entry =
     (case entry of
        JObj e \<Rightarrow> map_option (\<lambda>i. (i, normalizeTaskStatus (fget e ''status''))) (extractString entry ''id'')
      | _ \<Rightarrow> None)"

definition extractPlanTasksFromPatch :: "js \<Rightarrow> (string \<times> string) list option" where
  "extractPlanTasksFromPatch d =
     (case opt_get d ''patch'' of
        JObj patch \<Rightarrow>
          (case fget patch ''tasks'' of
             JArr entries \<Rightarrow>
               (let out = List.map_filter plan_task entries in if out = [] then None else Some out)
           | _ \<Rightarrow> None)
      | _ \<Rightarrow> None)"

section \<open>The pipeline view\<close>

definition MAX_STACK_POSITIONS :: nat where
  "MAX_STACK_POSITIONS = 100"

record stack_position =
  st_position :: js
  st_taskId :: js
  st_branch :: js
  st_prUrl :: js

record pipeline =
  pl_featureId :: js
  pl_workflowType :: js
  pl_phase :: js
  pl_taskCount :: nat
  pl_completedCount :: nat
  pl_failedCount :: nat
  pl_tasksById :: ladder
  pl_stackPositions :: "stack_position list"
  pl_hasMore :: bool
  pl_repoRoot :: js
  pl_asOf :: string

definition init_pipeline :: pipeline where
  "init_pipeline =
     \<lparr>pl_featureId = JStr '''', pl_workflowType = JStr '''', pl_phase = JStr '''', pl_taskCount = 0,
      pl_completedCount = 0, pl_failedCount = 0, pl_tasksById = [], pl_stackPositions = [],
      pl_hasMore = False, pl_repoRoot = JUndef, pl_asOf = ''''\<rparr>"

definition count_status :: "string \<Rightarrow> ladder \<Rightarrow> nat" where
  "count_status s tasksById = length (filter (\<lambda>(i, t). t = s) tasksById)"

text \<open>The three counters, derived from the statuses.\<close>

definition with_ladder :: "ladder \<Rightarrow> pipeline \<Rightarrow> pipeline" where
  "with_ladder tasksById v =
     v\<lparr>pl_tasksById := tasksById, pl_taskCount := length tasksById,
       pl_completedCount := count_status ''complete'' tasksById,
       pl_failedCount := count_status ''failed'' tasksById\<rparr>"

definition promote_task :: "string \<Rightarrow> wf_event \<Rightarrow> pipeline \<Rightarrow> pipeline" where
  "promote_task status e v =
     (if \<not> js_truthy (data_get e ''taskId'') then v
      else with_ladder (promoteStatus (pl_tasksById v) (js_string (data_get e ''taskId'')) status) v)"

definition pipeline_patched :: "wf_event \<Rightarrow> pipeline \<Rightarrow> pipeline" where
  "pipeline_patched e v =
     (case extractPlanTasksFromPatch (we_data e) of
        None \<Rightarrow> v
      | Some planTasks \<Rightarrow>
          with_ladder (fold (\<lambda>(i, s) m. promoteStatus m i s) planTasks (pl_tasksById v)) v)"

definition pipeline_position :: "wf_event \<Rightarrow> pipeline \<Rightarrow> pipeline" where
  "pipeline_position e v =
     (if data_get e ''position'' = JUndef \<or> \<not> js_truthy (data_get e ''taskId'') then v
      else let new = pl_stackPositions v @
             [\<lparr>st_position = data_get e ''position'', st_taskId = data_get e ''taskId'',
               st_branch = data_get e ''branch'', st_prUrl = data_get e ''prUrl''\<rparr>];
           evicted = length new > MAX_STACK_POSITIONS
        in v\<lparr>pl_stackPositions := (if evicted then drop (length new - MAX_STACK_POSITIONS) new else new),
             pl_hasMore := (pl_hasMore v \<or> evicted)\<rparr>)"

definition pipeline_started :: "wf_event \<Rightarrow> pipeline \<Rightarrow> pipeline" where
  "pipeline_started e v =
     v\<lparr>pl_featureId := nullish_or (data_get e ''featureId'') (pl_featureId v),
       pl_workflowType := nullish_or (data_get e ''workflowType'') (pl_workflowType v),
       pl_phase := JStr ''started'',
       pl_repoRoot := nullish_or (data_get e ''repoRoot'') (pl_repoRoot v)\<rparr>"

definition pipeline_transition :: "wf_event \<Rightarrow> pipeline \<Rightarrow> pipeline" where
  "pipeline_transition e v =
     v\<lparr>pl_featureId :=
         (if js_truthy (pl_featureId v) then pl_featureId v
          else if js_truthy (data_get e ''featureId'') then data_get e ''featureId'' else pl_featureId v),
       pl_phase := nullish_or (data_get e ''to'') (pl_phase v)\<rparr>"

definition pipeline_handlers :: "(string \<times> (wf_event \<Rightarrow> pipeline \<Rightarrow> pipeline)) list" where
  "pipeline_handlers =
     [(''workflow.started'', pipeline_started), (''workflow.transition'', pipeline_transition),
      (''state.patched'', pipeline_patched), (''task.assigned'', promote_task ''in_progress''),
      (''task.completed'', promote_task ''complete''), (''task.failed'', promote_task ''failed''),
      (''stack.position-filled'', pipeline_position)]"

definition apply_pipeline :: "wf_event \<Rightarrow> pipeline \<Rightarrow> pipeline" where
  "apply_pipeline e v =
     (case map_of pipeline_handlers (we_type e) of
        None \<Rightarrow> v
      | Some h \<Rightarrow> (h e v)\<lparr>pl_asOf := we_timestamp e\<rparr>)"

section \<open>The task store\<close>

datatype task_status = Assigned | Claimed | InProgress | Completed | Failed

datatype tdd_phase = Red | Green | Refactor

record task_record =
  tr_taskId :: string
  tr_status :: task_status
  tr_title :: "string option"
  tr_branch :: "string option"
  tr_worktree :: "string option"
  tr_assignee :: "string option"
  tr_agentId :: "string option"
  tr_claimedAt :: "string option"
  tr_tddPhase :: "tdd_phase option"
  tr_detail :: "string option"
  tr_artifacts :: "string list option"
  tr_duration :: "rat option"
  tr_error :: "string option"

record task_store =
  ts_sequence :: nat
  ts_tasks :: "(string \<times> task_record) list"

definition initialTaskStoreState :: task_store where
  "initialTaskStoreState = \<lparr>ts_sequence = 0, ts_tasks = []\<rparr>"

definition extractTddPhase :: "js \<Rightarrow> tdd_phase option" where
  "extractTddPhase d =
     (case extractString d ''tddPhase'' of
        None \<Rightarrow> None
      | Some s \<Rightarrow>
          if s = ''red'' then Some Red else if s = ''green'' then Some Green
          else if s = ''refactor'' then Some Refactor else None)"

definition blank_task :: "string \<Rightarrow> task_record" where
  "blank_task i =
     \<lparr>tr_taskId = i, tr_status = Assigned, tr_title = None, tr_branch = None, tr_worktree = None,
      tr_assignee = None, tr_agentId = None, tr_claimedAt = None, tr_tddPhase = None, tr_detail = None,
      tr_artifacts = None, tr_duration = None, tr_error = None\<rparr>"

definition keep :: "'a option \<Rightarrow> 'a option \<Rightarrow> 'a option" where
  "keep new old = (case new of None \<Rightarrow> old | Some x \<Rightarrow> Some x)"

text \<open>The overlay of each event: its status, and the fields that its payload holds.\<close>

definition overlay_assigned :: "js \<Rightarrow> task_record \<Rightarrow> task_record" where
  "overlay_assigned d t =
     t\<lparr>tr_status := Assigned, tr_title := keep (extractString d ''title'') (tr_title t),
       tr_branch := keep (extractString d ''branch'') (tr_branch t),
       tr_worktree := keep (extractString d ''worktree'') (tr_worktree t),
       tr_assignee := keep (extractString d ''assignee'') (tr_assignee t)\<rparr>"

definition overlay_claimed :: "js \<Rightarrow> task_record \<Rightarrow> task_record" where
  "overlay_claimed d t =
     t\<lparr>tr_status := Claimed, tr_agentId := keep (extractString d ''agentId'') (tr_agentId t),
       tr_claimedAt := keep (extractString d ''claimedAt'') (tr_claimedAt t)\<rparr>"

definition overlay_progressed :: "js \<Rightarrow> task_record \<Rightarrow> task_record" where
  "overlay_progressed d t =
     t\<lparr>tr_status := InProgress, tr_tddPhase := keep (extractTddPhase d) (tr_tddPhase t),
       tr_detail := keep (extractString d ''detail'') (tr_detail t)\<rparr>"

definition overlay_completed :: "js \<Rightarrow> task_record \<Rightarrow> task_record" where
  "overlay_completed d t =
     t\<lparr>tr_status := Completed, tr_artifacts := keep (extractStringArray d ''artifacts'') (tr_artifacts t),
       tr_duration := keep (extractNumber d ''duration'') (tr_duration t)\<rparr>"

definition overlay_failed :: "js \<Rightarrow> task_record \<Rightarrow> task_record" where
  "overlay_failed d t =
     t\<lparr>tr_status := Failed, tr_error := keep (extractString d ''error'') (tr_error t)\<rparr>"

definition task_overlays :: "(string \<times> (js \<Rightarrow> task_record \<Rightarrow> task_record)) list" where
  "task_overlays =
     [(''task.assigned'', overlay_assigned), (''task.claimed'', overlay_claimed),
      (''task.progressed'', overlay_progressed), (''task.completed'', overlay_completed),
      (''task.failed'', overlay_failed)]"

definition upsertTask :: "task_store \<Rightarrow> string \<Rightarrow> (task_record \<Rightarrow> task_record) \<Rightarrow> task_store" where
  "upsertTask s i overlay =
     \<lparr>ts_sequence = ts_sequence s + 1,
      ts_tasks = AList.update i
        ((overlay (case map_of (ts_tasks s) i of None \<Rightarrow> blank_task i | Some t \<Rightarrow> t))\<lparr>tr_taskId := i\<rparr>)
        (ts_tasks s)\<rparr>"

definition apply_task_store :: "wf_event \<Rightarrow> task_store \<Rightarrow> task_store" where
  "apply_task_store e s =
     (case (map_of task_overlays (we_type e), extractTaskId (we_data e)) of
        (Some overlay, Some i) \<Rightarrow> upsertTask s i (overlay (we_data e))
      | _ \<Rightarrow> s)"

section \<open>The merge orchestrator\<close>

datatype merge_phase = Idle | Preflight | Requested | Executed | Recovering | MergeCompleted

record preflight_meta =
  pm_passed :: bool
  pm_reason :: "string option"

record merge_meta =
  mm_taskId :: "string option"
  mm_sourceBranch :: "string option"
  mm_targetBranch :: "string option"
  mm_strategy :: "string option"
  mm_prNumber :: "rat option"
  mm_mergeSha :: "string option"
  mm_rollbackSha :: "string option"

record recovery_context =
  rc_reason :: "string option"
  rc_recoveryError :: "string option"
  rc_error :: "string option"

record merge_state =
  mo_sequence :: nat
  mo_phase :: merge_phase
  mo_preflight :: "preflight_meta option"
  mo_merge :: "merge_meta option"
  mo_recovery :: "recovery_context option"

definition initialMergeOrchestratorState :: merge_state where
  "initialMergeOrchestratorState =
     \<lparr>mo_sequence = 0, mo_phase = Idle, mo_preflight = None, mo_merge = None, mo_recovery = None\<rparr>"

definition one_of :: "string list \<Rightarrow> string option \<Rightarrow> string option" where
  "one_of allowed s = (case s of Some x \<Rightarrow> if x \<in> set allowed then Some x else None | None \<Rightarrow> None)"

definition extractStrategy :: "js \<Rightarrow> string option" where
  "extractStrategy d = one_of [''squash'', ''rebase'', ''merge''] (extractString d ''strategy'')"

definition extractRecoveryError :: "js \<Rightarrow> string option" where
  "extractRecoveryError d =
     one_of [''reset-keep-blocked'', ''reset-failed'', ''unexpected-mid-merge-drift'']
       (extractString d ''recoveryError'')"

definition extractPreflightReason :: "js \<Rightarrow> string option" where
  "extractPreflightReason d =
     (case opt_get d ''failureReasons'' of
        JArr reasons \<Rightarrow>
          (let strs = filter (\<lambda>s. s \<noteq> []) (List.map_filter as_string reasons)
           in if strs \<noteq> [] then Some (join_with '', '' strs) else extractString d ''reason'')
      | _ \<Rightarrow> extractString d ''reason'')"

definition mergeFromEvent :: "merge_meta option \<Rightarrow> js \<Rightarrow> merge_meta option" where
  "mergeFromEvent existing d =
     (let taskId = extractString d ''taskId''; sourceBranch = extractString d ''sourceBranch'';
          targetBranch = extractString d ''targetBranch''; strategy = extractStrategy d;
          prNumber = extractNumber d ''prNumber''; mergeSha = extractString d ''mergeSha'';
          rollbackSha = extractString d ''rollbackSha'';
          old = (case existing of Some x \<Rightarrow> x
            | None \<Rightarrow> \<lparr>mm_taskId = None, mm_sourceBranch = None, mm_targetBranch = None, mm_strategy = None,
                mm_prNumber = None, mm_mergeSha = None, mm_rollbackSha = None\<rparr>)
      in if taskId = None \<and> sourceBranch = None \<and> targetBranch = None \<and> strategy = None \<and>
            prNumber = None \<and> mergeSha = None \<and> rollbackSha = None
         then existing
         else Some
           \<lparr>mm_taskId = keep taskId (mm_taskId old),
            mm_sourceBranch = keep sourceBranch (mm_sourceBranch old),
            mm_targetBranch = keep targetBranch (mm_targetBranch old),
            mm_strategy = keep strategy (mm_strategy old), mm_prNumber = keep prNumber (mm_prNumber old),
            mm_mergeSha = keep mergeSha (mm_mergeSha old),
            mm_rollbackSha = keep rollbackSha (mm_rollbackSha old)\<rparr>)"

definition applyMergePreflight :: "js \<Rightarrow> merge_state \<Rightarrow> merge_state" where
  "applyMergePreflight d s =
     (let passed = (extractBoolean d ''passed'' = Some True)
      in s\<lparr>mo_sequence := mo_sequence s + 1, mo_phase := Preflight,
           mo_preflight := Some \<lparr>pm_passed = passed,
             pm_reason = (if passed then None else extractPreflightReason d)\<rparr>,
           mo_merge := mergeFromEvent (mo_merge s) d\<rparr>)"

definition applyMergeRequested :: "js \<Rightarrow> merge_state \<Rightarrow> merge_state" where
  "applyMergeRequested d s =
     s\<lparr>mo_sequence := mo_sequence s + 1, mo_phase := Requested, mo_merge := mergeFromEvent (mo_merge s) d\<rparr>"

definition applyMergeExecuted :: "js \<Rightarrow> merge_state \<Rightarrow> merge_state" where
  "applyMergeExecuted d s =
     s\<lparr>mo_sequence := mo_sequence s + 1, mo_phase := Executed, mo_merge := mergeFromEvent (mo_merge s) d\<rparr>"

definition applyMergeRollback :: "js \<Rightarrow> merge_state \<Rightarrow> merge_state" where
  "applyMergeRollback d s =
     (let recovery = \<lparr>rc_reason = extractString d ''reason'', rc_recoveryError = extractRecoveryError d,
            rc_error = extractString d ''rollbackError''\<rparr>
      in s\<lparr>mo_sequence := mo_sequence s + 1, mo_phase := Recovering,
           mo_recovery :=
             (if recovery = \<lparr>rc_reason = None, rc_recoveryError = None, rc_error = None\<rparr>
              then mo_recovery s else Some recovery)\<rparr>)"

definition applyMergeCompleted :: "js \<Rightarrow> merge_state \<Rightarrow> merge_state" where
  "applyMergeCompleted d s = s\<lparr>mo_sequence := mo_sequence s + 1, mo_phase := MergeCompleted\<rparr>"

definition merge_handlers :: "(string \<times> (js \<Rightarrow> merge_state \<Rightarrow> merge_state)) list" where
  "merge_handlers =
     [(''merge.preflight'', applyMergePreflight), (''merge.requested'', applyMergeRequested),
      (''merge.executed'', applyMergeExecuted), (''merge.recovered'', applyMergeRollback),
      (''merge.rollback'', applyMergeRollback), (''merge.completed'', applyMergeCompleted)]"

definition apply_merge :: "wf_event \<Rightarrow> merge_state \<Rightarrow> merge_state" where
  "apply_merge e s =
     (case map_of merge_handlers (we_type e) of None \<Rightarrow> s | Some h \<Rightarrow> h (we_data e) s)"

end
