(* ===== verification/Task_Laws.thy ===== *)
theory Task_Laws
  imports Task_Projections View_Laws
begin

text \<open>
  What the task and merge projections promise: the ladder never moves a task down, its counters are counts,
  a reducer's sequence counts what it folded, the record of a task depends on its own events alone, and a
  merge shows a passed preflight only when the last preflight passed.
\<close>

section \<open>The ladder\<close>

lemma promoteStatus_lookup:
  "map_of (promoteStatus m i s) j =
     (if j = i \<and> (case map_of m i of None \<Rightarrow> \<not> (i \<in> set object_names \<and> rankOf s = 0) | Some t \<Rightarrow> rankOf t < rankOf s)
      then Some s else map_of m j)"
  by (simp add: promoteStatus_def split: option.split)

lemma promoteStatus_rank:
  "map_of m j = Some s \<Longrightarrow> \<exists>s'. map_of (promoteStatus m i t) j = Some s' \<and> (s' = s \<or> rankOf s < rankOf s')"
  by (auto simp: promoteStatus_lookup)

lemma promoteStatus_distinct: "distinct (map fst m) \<Longrightarrow> distinct (map fst (promoteStatus m i s))"
  by (simp add: promoteStatus_def distinct_update split: option.split)

lemma rankOf_le: "rankOf s \<le> 2"
  by (auto simp: rankOf_def STATUS_RANK_def split: option.split if_splits)

lemma rankOf_terminal: "rankOf s = 2 \<longleftrightarrow> s = ''complete'' \<or> s = ''failed''"
  by (auto simp: rankOf_def STATUS_RANK_def split: option.split if_splits)

text \<open>What one event does to the statuses: promotions only.\<close>

definition promotions :: "wf_event \<Rightarrow> (string \<times> string) list" where
  "promotions e =
     (if we_type e = ''state.patched''
      then (case extractPlanTasksFromPatch (we_data e) of None \<Rightarrow> [] | Some ts \<Rightarrow> ts)
      else case map_of [(''task.assigned'', ''in_progress''), (''task.completed'', ''complete''),
                        (''task.failed'', ''failed'')] (we_type e) of
             None \<Rightarrow> []
           | Some s \<Rightarrow> if js_truthy (data_get e ''taskId'') then [(js_string (data_get e ''taskId''), s)] else [])"

definition climb :: "(string \<times> string) list \<Rightarrow> ladder \<Rightarrow> ladder" where
  "climb ps m = fold (\<lambda>(i, s) m. promoteStatus m i s) ps m"

lemma pipeline_ladder: "pl_tasksById (apply_pipeline e v) = climb (promotions e) (pl_tasksById v)"
  by (auto simp: apply_pipeline_def pipeline_handlers_def pipeline_started_def pipeline_transition_def
      pipeline_patched_def promote_task_def pipeline_position_def with_ladder_def promotions_def climb_def
      Let_def split: option.split)

lemma climb_rank:
  "map_of m j = Some s \<Longrightarrow> \<exists>s'. map_of (climb ps m) j = Some s' \<and> (s' = s \<or> rankOf s < rankOf s')"
proof (induction ps arbitrary: m s)
  case (Cons p ps)
  obtain i t where p: "p = (i, t)" by (cases p)
  from promoteStatus_rank [OF Cons.prems, of i t] obtain s1 where
    s1: "map_of (promoteStatus m i t) j = Some s1" "s1 = s \<or> rankOf s < rankOf s1" by blast
  from Cons.IH [OF s1(1)] s1(2) p show ?case by (auto simp: climb_def)
qed (simp add: climb_def)

lemma climb_distinct: "distinct (map fst m) \<Longrightarrow> distinct (map fst (climb ps m))"
  by (induction ps arbitrary: m) (auto simp: climb_def promoteStatus_distinct)

lemma pipeline_rank:
  "map_of (pl_tasksById v) j = Some s \<Longrightarrow>
     \<exists>s'. map_of (pl_tasksById (fold apply_pipeline es v)) j = Some s' \<and> (s' = s \<or> rankOf s < rankOf s')"
proof (induction es arbitrary: v s)
  case (Cons e es)
  from climb_rank [OF Cons.prems, of "promotions e"] obtain s1 where
    s1: "map_of (pl_tasksById (apply_pipeline e v)) j = Some s1" "s1 = s \<or> rankOf s < rankOf s1"
    by (auto simp: pipeline_ladder)
  from Cons.IH [OF s1(1)] s1(2) show ?case by auto
qed simp

text \<open>
  C32: in the pipeline view a terminal status is final and no status moves down. Whatever plan patches and task
  events follow, a task that is complete or failed keeps exactly that status, and any other task keeps its
  status or moves to one of a higher rank.
\<close>

theorem terminal_status_is_final:
  assumes "map_of (pl_tasksById v) i = Some s"
  shows "\<exists>s'. map_of (pl_tasksById (fold apply_pipeline es v)) i = Some s' \<and> (s' = s \<or> rankOf s < rankOf s') \<and>
    (s \<in> {''complete'', ''failed''} \<longrightarrow> s' = s)"
proof -
  obtain s' where s': "map_of (pl_tasksById (fold apply_pipeline es v)) i = Some s'"
    "s' = s \<or> rankOf s < rankOf s'" using pipeline_rank [OF assms] by blast
  moreover have "s' = s" if "s \<in> {''complete'', ''failed''}"
    using that s'(2) rankOf_terminal [of s] rankOf_le [of s'] by auto
  ultimately show ?thesis by blast
qed

lemma terminal_status_is_final_witness:
  "\<exists>s'. map_of (pl_tasksById (fold apply_pipeline
      [sample_event ''task.assigned'' (JObj [(''taskId'', JStr ''a'')])]
      (init_pipeline\<lparr>pl_tasksById := [(''a'', ''failed'')]\<rparr>))) ''a'' = Some s' \<and> s' = ''failed''"
  using terminal_status_is_final [of "init_pipeline\<lparr>pl_tasksById := [(''a'', ''failed'')]\<rparr>" "''a''" "''failed''"
    "[sample_event ''task.assigned'' (JObj [(''taskId'', JStr ''a'')])]"] by auto

section \<open>Counters and the stack\<close>

definition counters_ok :: "pipeline \<Rightarrow> bool" where
  "counters_ok v \<longleftrightarrow>
     distinct (map fst (pl_tasksById v)) \<and> pl_taskCount v = length (pl_tasksById v) \<and>
     pl_completedCount v = count_status ''complete'' (pl_tasksById v) \<and>
     pl_failedCount v = count_status ''failed'' (pl_tasksById v)"

lemma step_counters: "counters_ok v \<Longrightarrow> counters_ok (apply_pipeline e v)"
  using climb_distinct [of "pl_tasksById v" "promotions e"]
  by (auto simp: counters_ok_def apply_pipeline_def pipeline_handlers_def pipeline_started_def
      pipeline_transition_def pipeline_patched_def promote_task_def pipeline_position_def with_ladder_def
      promotions_def climb_def Let_def split: option.split)

lemma fold_counters: "counters_ok v \<Longrightarrow> counters_ok (fold apply_pipeline es v)"
  by (induction es arbitrary: v) (simp_all add: step_counters)

lemma count_status_card:
  "distinct (map fst m) \<Longrightarrow> count_status s m = card {i. map_of m i = Some s}"
proof -
  assume d: "distinct (map fst m)"
  have "{i. map_of m i = Some s} = fst ` set (filter (\<lambda>(i, t). t = s) m)"
    using d by (force simp: image_iff)
  moreover have "inj_on fst (set (filter (\<lambda>(i, t). t = s) m))"
    using d by (auto simp: inj_on_def)
  moreover have "distinct (filter (\<lambda>(i, t). t = s) m)"
    using d by (simp add: distinct_filter distinct_map)
  ultimately show ?thesis
    using distinct_card [of "filter (\<lambda>(i, t). t = s) m"] by (simp only: card_image count_status_def)
qed

lemma count_statuses_le: "count_status ''complete'' m + count_status ''failed'' m \<le> length m"
  by (induction m) (auto simp: count_status_def)

text \<open>
  the counters of the pipeline view are counts of its tasks. After any stream, the task count is the number
  of known task ids, the completed and failed counts are the numbers of ids with that status, and together
  they do not exceed the task count.
\<close>

theorem pipeline_counters_are_counts:
  fixes es :: "wf_event list"
  defines "v \<equiv> fold apply_pipeline es init_pipeline"
  shows "pl_taskCount v = card (dom (map_of (pl_tasksById v))) \<and>
    pl_completedCount v = card {i. map_of (pl_tasksById v) i = Some ''complete''} \<and>
    pl_failedCount v = card {i. map_of (pl_tasksById v) i = Some ''failed''} \<and>
    pl_completedCount v + pl_failedCount v \<le> pl_taskCount v"
proof -
  have "counters_ok init_pipeline" by (simp add: counters_ok_def init_pipeline_def count_status_def)
  then have ok: "counters_ok v" unfolding v_def by (rule fold_counters)
  then have "card (dom (map_of (pl_tasksById v))) = length (pl_tasksById v)"
    using distinct_card [of "map fst (pl_tasksById v)"]
    by (simp add: counters_ok_def dom_map_of_conv_image_fst)
  moreover from ok have "distinct (map fst (pl_tasksById v))" by (simp add: counters_ok_def)
  note count_status_card [OF this]
  ultimately show ?thesis using ok count_statuses_le [of "pl_tasksById v"]
    unfolding counters_ok_def by presburger
qed

definition filled_positions :: "wf_event list \<Rightarrow> stack_position list" where
  "filled_positions es =
     map (\<lambda>e. \<lparr>st_position = data_get e ''position'', st_taskId = data_get e ''taskId'',
           st_branch = data_get e ''branch'', st_prUrl = data_get e ''prUrl''\<rparr>)
       (filter (\<lambda>e. we_type e = ''stack.position-filled'' \<and> data_get e ''position'' \<noteq> JUndef \<and>
           js_truthy (data_get e ''taskId'')) es)"

lemma window_snoc:
  "drop (length (drop (length xs - n) xs @ [x]) - n) (drop (length xs - n) xs @ [x]) =
     drop (length (xs @ [x]) - n) (xs @ [x])"
proof -
  have window: "drop (length ys - n) ys = rev (take n (rev ys))" for ys :: "'a list"
    by (simp add: take_rev)
  have "take n (x # take n ys) = take n (x # ys)" for ys by (cases n) simp_all
  then show ?thesis unfolding window by simp
qed

lemma stack_step:
  assumes "pl_stackPositions v = drop (length all - MAX_STACK_POSITIONS) all"
    and "pl_hasMore v \<longleftrightarrow> length all > MAX_STACK_POSITIONS"
  shows "pl_stackPositions (apply_pipeline e v) =
      drop (length (all @ filled_positions [e]) - MAX_STACK_POSITIONS) (all @ filled_positions [e]) \<and>
    (pl_hasMore (apply_pipeline e v) \<longleftrightarrow> length (all @ filled_positions [e]) > MAX_STACK_POSITIONS)"
proof (cases "we_type e = ''stack.position-filled'' \<and> data_get e ''position'' \<noteq> JUndef \<and>
    js_truthy (data_get e ''taskId'')")
  case True
  then have step: "apply_pipeline e v = (pipeline_position e v)\<lparr>pl_asOf := we_timestamp e\<rparr>"
    by (simp add: apply_pipeline_def pipeline_handlers_def)
  have one: "\<exists>x. filled_positions [e] = [x] \<and> pl_stackPositions (apply_pipeline e v) =
      drop (length (pl_stackPositions v @ [x]) - MAX_STACK_POSITIONS) (pl_stackPositions v @ [x]) \<and>
      (pl_hasMore (apply_pipeline e v) \<longleftrightarrow>
        pl_hasMore v \<or> length (pl_stackPositions v @ [x]) > MAX_STACK_POSITIONS)"
    using True by (simp add: step pipeline_position_def filled_positions_def Let_def)
  then obtain x where x: "filled_positions [e] = [x]"
    "pl_stackPositions (apply_pipeline e v) =
      drop (length (pl_stackPositions v @ [x]) - MAX_STACK_POSITIONS) (pl_stackPositions v @ [x])"
    "pl_hasMore (apply_pipeline e v) \<longleftrightarrow>
        pl_hasMore v \<or> length (pl_stackPositions v @ [x]) > MAX_STACK_POSITIONS" by blast
  have "length (pl_stackPositions v @ [x]) > MAX_STACK_POSITIONS \<longleftrightarrow> length (all @ [x]) > MAX_STACK_POSITIONS"
    by (simp add: assms(1) MAX_STACK_POSITIONS_def) arith
  with x assms(2) show ?thesis using window_snoc [of all MAX_STACK_POSITIONS x] by (auto simp: assms(1))
next
  case False
  then have "pl_stackPositions (apply_pipeline e v) = pl_stackPositions v"
    "pl_hasMore (apply_pipeline e v) = pl_hasMore v" "filled_positions [e] = []"
    by (auto simp: apply_pipeline_def pipeline_handlers_def pipeline_started_def pipeline_transition_def
        pipeline_patched_def promote_task_def pipeline_position_def with_ladder_def filled_positions_def
        Let_def split: option.split)
  with assms show ?thesis by simp
qed

lemma stack_fold:
  "pl_stackPositions v = drop (length all - MAX_STACK_POSITIONS) all \<Longrightarrow>
   (pl_hasMore v \<longleftrightarrow> length all > MAX_STACK_POSITIONS) \<Longrightarrow>
     pl_stackPositions (fold apply_pipeline es v) =
       drop (length (all @ filled_positions es) - MAX_STACK_POSITIONS) (all @ filled_positions es) \<and>
     (pl_hasMore (fold apply_pipeline es v) \<longleftrightarrow> length (all @ filled_positions es) > MAX_STACK_POSITIONS)"
proof (induction es arbitrary: v all)
  case Nil
  then show ?case by (simp add: filled_positions_def)
next
  case (Cons e es)
  have "filled_positions (e # es) = filled_positions [e] @ filled_positions es"
    by (simp add: filled_positions_def)
  with Cons.IH [of "apply_pipeline e v" "all @ filled_positions [e]"] stack_step [OF Cons.prems, of e]
  show ?case by simp
qed

text \<open>
  the stack of the pipeline view is a window. After any stream it holds the last hundred filled positions
  in their order, all of them when there are no more, and it says that more exist exactly when some were
  dropped.
\<close>

theorem stack_is_a_window:
  "pl_stackPositions (fold apply_pipeline es init_pipeline) =
     drop (length (filled_positions es) - MAX_STACK_POSITIONS) (filled_positions es) \<and>
   (pl_hasMore (fold apply_pipeline es init_pipeline) \<longleftrightarrow> length (filled_positions es) > MAX_STACK_POSITIONS)"
  using stack_fold [of init_pipeline "[]" es] by (simp add: init_pipeline_def)

section \<open>Reducers that count what they fold\<close>

text \<open>
  The contract of a reducer with a projection sequence: a handled event raises it by one, and any other event
  leaves the state as it is.
\<close>

locale counting_reducer =
  fixes step :: "wf_event \<Rightarrow> 's \<Rightarrow> 's"
    and seqno :: "'s \<Rightarrow> nat"
    and handled :: "wf_event \<Rightarrow> bool"
  assumes handled_step: "handled e \<Longrightarrow> seqno (step e s) = Suc (seqno s)"
    and other_step: "\<not> handled e \<Longrightarrow> step e s = s"
begin

lemma sequence_counts: "seqno (fold step es s) = seqno s + length (filter handled es)"
  by (induction es arbitrary: s) (simp_all add: handled_step other_step)

lemma only_handled: "fold step es s = fold step (filter handled es) s"
  by (induction es arbitrary: s) (simp_all add: other_step)

lemma same_sequence_same_state:
  assumes "seqno (fold step es s) = seqno s"
  shows "fold step es s = s"
proof -
  have "filter handled es = []" using assms by (simp add: sequence_counts)
  then show ?thesis using only_handled [of es s] by simp
qed

end

definition task_event :: "wf_event \<Rightarrow> bool" where
  "task_event e \<longleftrightarrow> map_of task_overlays (we_type e) \<noteq> None \<and> extractTaskId (we_data e) \<noteq> None"

definition merge_event :: "wf_event \<Rightarrow> bool" where
  "merge_event e \<longleftrightarrow> map_of merge_handlers (we_type e) \<noteq> None"

interpretation task_reducer: counting_reducer apply_task_store ts_sequence task_event
  by unfold_locales (auto simp: apply_task_store_def task_event_def upsertTask_def split: option.splits)

lemma merge_handler_sequence:
  "map_of merge_handlers t = Some h \<Longrightarrow> mo_sequence (h d s) = Suc (mo_sequence s)"
  by (auto simp: merge_handlers_def applyMergePreflight_def applyMergeRequested_def applyMergeExecuted_def
      applyMergeRollback_def applyMergeCompleted_def Let_def split: if_splits)

interpretation merge_reducer: counting_reducer apply_merge mo_sequence merge_event
  by unfold_locales
    (auto simp: apply_merge_def merge_event_def merge_handler_sequence split: option.splits)

section \<open>The task store\<close>

definition own_events :: "string \<Rightarrow> wf_event list \<Rightarrow> wf_event list" where
  "own_events i es = filter (\<lambda>e. task_event e \<and> extractTaskId (we_data e) = Some i) es"

definition overlay_of :: "wf_event \<Rightarrow> task_record \<Rightarrow> task_record" where
  "overlay_of e t = (case map_of task_overlays (we_type e) of None \<Rightarrow> t | Some f \<Rightarrow> f (we_data e) t)"

lemma overlay_keeps_id: "tr_taskId (overlay_of e t) = tr_taskId t"
  by (auto simp: overlay_of_def task_overlays_def overlay_assigned_def overlay_claimed_def
      overlay_progressed_def overlay_completed_def overlay_failed_def split: option.split if_splits)

text \<open>The record of a task from its own events, in their order.\<close>

definition task_from :: "string \<Rightarrow> task_record option \<Rightarrow> wf_event list \<Rightarrow> task_record option" where
  "task_from i t es =
     (if own_events i es = [] then t
      else Some (fold overlay_of (own_events i es) (case t of None \<Rightarrow> blank_task i | Some r \<Rightarrow> r)))"

lemma task_store_step:
  assumes "case map_of (ts_tasks s) i of None \<Rightarrow> True | Some t \<Rightarrow> tr_taskId t = i"
  shows "map_of (ts_tasks (apply_task_store e s)) i = task_from i (map_of (ts_tasks s) i) [e]"
proof (cases "task_event e \<and> extractTaskId (we_data e) = Some i")
  case True
  then obtain f where f: "map_of task_overlays (we_type e) = Some f" by (auto simp: task_event_def)
  let ?t = "case map_of (ts_tasks s) i of None \<Rightarrow> blank_task i | Some t \<Rightarrow> t"
  have "tr_taskId ?t = i" using assms by (simp add: blank_task_def split: option.splits)
  then have "(f (we_data e) ?t)\<lparr>tr_taskId := i\<rparr> = f (we_data e) ?t"
    using overlay_keeps_id [of e ?t] f by (simp add: overlay_of_def)
  with True f show ?thesis
    by (simp add: apply_task_store_def upsertTask_def task_from_def own_events_def overlay_of_def)
next
  case False
  then show ?thesis
    by (auto simp: apply_task_store_def upsertTask_def task_from_def own_events_def task_event_def
        split: option.splits)
qed

lemma task_from_id:
  "(case t of None \<Rightarrow> True | Some r \<Rightarrow> tr_taskId r = i) \<Longrightarrow>
     (case task_from i t es of None \<Rightarrow> True | Some r \<Rightarrow> tr_taskId r = i)"
proof -
  have "tr_taskId (fold overlay_of es r) = tr_taskId r" for es r
    by (induction es arbitrary: r) (simp_all add: overlay_keeps_id)
  then show "(case t of None \<Rightarrow> True | Some r \<Rightarrow> tr_taskId r = i) \<Longrightarrow> ?thesis"
    by (simp add: task_from_def blank_task_def split: option.splits)
qed

lemma task_from_append: "task_from i (task_from i t [e]) es = task_from i t (e # es)"
  by (simp add: task_from_def own_events_def)

lemma task_store_fold:
  "(case map_of (ts_tasks s) i of None \<Rightarrow> True | Some t \<Rightarrow> tr_taskId t = i) \<Longrightarrow>
     map_of (ts_tasks (fold apply_task_store es s)) i = task_from i (map_of (ts_tasks s) i) es"
proof (induction es arbitrary: s)
  case Nil
  then show ?case by (simp add: task_from_def own_events_def)
next
  case (Cons e es)
  note step = task_store_step [OF Cons.prems, of e]
  have "case map_of (ts_tasks (apply_task_store e s)) i of None \<Rightarrow> True | Some t \<Rightarrow> tr_taskId t = i"
    unfolding step by (rule task_from_id [OF Cons.prems])
  from Cons.IH [OF this] show ?case by (simp add: step task_from_append)
qed

text \<open>
  C33: the record of a task in the task store depends on the events of that task alone. After any stream, the
  store has a record for an id exactly when some handled event names it, the record is the overlay of those
  events in their order on a blank one, and the sequence of the store counts the handled events.
\<close>

theorem task_records_are_independent:
  "map_of (ts_tasks (fold apply_task_store es initialTaskStoreState)) i =
     (if own_events i es = [] then None else Some (fold overlay_of (own_events i es) (blank_task i))) \<and>
   ts_sequence (fold apply_task_store es initialTaskStoreState) = length (filter task_event es)"
  using task_store_fold [where s = initialTaskStoreState and i = i and es = es] task_reducer.sequence_counts [of es initialTaskStoreState]
  by (simp add: initialTaskStoreState_def task_from_def)

section \<open>Merges\<close>

definition preflight_of :: "wf_event \<Rightarrow> preflight_meta" where
  "preflight_of e =
     (let passed = (data_get e ''passed'' = JBool True)
      in \<lparr>pm_passed = passed, pm_reason = (if passed then None else extractPreflightReason (we_data e))\<rparr>)"

lemma extractBoolean_true: "extractBoolean d k = Some True \<longleftrightarrow> opt_get d k = JBool True"
  by (auto simp: extractBoolean_def split: js.splits)

lemma merge_preflight_step:
  "mo_preflight (apply_merge e s) =
     (if we_type e = ''merge.preflight'' then Some (preflight_of e) else mo_preflight s)"
  by (auto simp: apply_merge_def merge_handlers_def applyMergePreflight_def applyMergeRequested_def
      applyMergeExecuted_def applyMergeRollback_def applyMergeCompleted_def preflight_of_def data_get_def
      extractBoolean_true Let_def)

text \<open>
  the merge projection never invents a pass. After any stream, its preflight record is that of the last
  preflight event, and it shows a pass exactly when the payload of that event says so; a malformed or absent
  verdict is a failure.
\<close>

theorem preflight_is_the_last:
  "mo_preflight (fold apply_merge es initialMergeOrchestratorState) =
     map_option preflight_of (find_last (\<lambda>e. we_type e = ''merge.preflight'') es)"
proof (induction es rule: rev_induct)
  case Nil
  show ?case by (simp add: initialMergeOrchestratorState_def)
next
  case (snoc e es)
  then show ?case by (simp add: merge_preflight_step)
qed

section \<open>Two views of a task\<close>

lemma find_task_update:
  "find_task i ts = Inr (Some n) \<Longrightarrow> ts ! n = JObj t \<Longrightarrow> fget t' ''id'' = fget t ''id'' \<Longrightarrow>
     find_task i (ts[n := JObj t']) = Inr (Some n)"
proof (induction i ts arbitrary: n rule: find_task.induct)
  case (2 i x xs)
  show ?case
  proof (cases n)
    case 0
    with "2.prems" show ?thesis by (auto simp: bind_result_Inr_iff split: if_splits)
  next
    case (Suc k)
    with "2.prems"(1) have "\<not> is_nullish x" "\<not> strict_equal (opt_get x ''id'') i" "find_task i xs = Inr (Some k)"
      by (auto simp: bind_result_Inr_iff split: if_splits)
    with "2.IH" [of k] "2.prems" Suc show ?thesis by simp
  qed
qed simp

lemma find_task_index: "find_task i ts = Inr (Some n) \<Longrightarrow> n < length ts"
  by (induction i ts arbitrary: n rule: find_task.induct) (auto simp: bind_result_Inr_iff split: if_splits)

lemma updateTask_found:
  assumes "fget v ''tasks'' = JArr ts" "find_task i ts = Inr (Some n)" "ts ! n = JObj t"
  shows "overlay_task v i entries fresh = Inr (spread v [(''tasks'', JArr (ts[n := JObj (spread t entries)]))])"
  using assms by (simp add: overlay_task_def tasks_of_def object_spread_def with_fields_def)

lemma spread_get: "distinct (map fst entries) \<Longrightarrow>
    fget (spread t entries) k = (case map_of entries k of None \<Rightarrow> fget t k | Some w \<Rightarrow> w)"
  by (simp add: fget_def map_of_spread map_add_def split: option.split)

text \<open>
  C35: the two views of a task part when a finished task is assigned again. For a task of the workflow state,
  the stream of its completion and a second assignment leaves it pending there, with the branch of the second
  assignment even if that event has none, while the pipeline view, fed with the same stream, keeps it complete
  (or failed, if it had failed before).
\<close>

theorem reassignment_reopens_task:
  assumes "fget v ''tasks'' = JArr ts" "find_task (JStr i) ts = Inr (Some n)" "ts ! n = JObj t" "i \<noteq> []"
    and "we_type c = ''task.completed''" "data_get c ''taskId'' = JStr i"
    and "we_type a = ''task.assigned''" "data_get a ''taskId'' = JStr i"
  shows "(\<exists>v' ts' t'. fold_view v [c, a] = Inr v' \<and> fget v' ''tasks'' = JArr ts' \<and> ts' ! n = JObj t' \<and>
      fget t' ''status'' = JStr ''pending'' \<and> fget t' ''branch'' = data_get a ''branch'') \<and>
    map_of (pl_tasksById (fold apply_pipeline [c, a] p)) i \<in> {Some ''complete'', Some ''failed''}"
proof -
  let ?t1 = "spread t [(''status'', JStr ''complete''), (''completedAt'', stamp c)]"
  let ?ts1 = "ts[n := JObj ?t1]"
  let ?v1 = "spread v [(''tasks'', JArr ?ts1)]"
  let ?t2 = "spread ?t1 (new_task a)"
  have n: "n < length ts" using assms(2) by (rule find_task_index)
  have "apply_event v c = Inr ?v1"
    using assms(5,6,4) updateTask_found [OF assms(1-3)]
    by (simp add: apply_event_def view_handlers_def task_completed_def updateTask_def)
  moreover have "apply_event ?v1 a = Inr (spread ?v1 [(''tasks'', JArr (?ts1[n := JObj ?t2]))])"
  proof -
    have "find_task (JStr i) ?ts1 = Inr (Some n)"
      by (rule find_task_update [OF assms(2,3)]) (simp add: spread_get)
    then have "overlay_task ?v1 (JStr i) (new_task a) fresh =
        Inr (spread ?v1 [(''tasks'', JArr (?ts1[n := JObj ?t2]))])" for fresh
      using n by (intro updateTask_found) simp_all
    then show ?thesis using assms(4,7,8)
      by (simp add: apply_event_def view_handlers_def task_assigned_def)
  qed
  ultimately have fold: "fold_view v [c, a] = Inr (spread ?v1 [(''tasks'', JArr (?ts1[n := JObj ?t2]))])"
    by simp
  have "fget ?t2 ''status'' = JStr ''pending''" "fget ?t2 ''branch'' = data_get a ''branch''"
    by (simp_all add: new_task_def)
  with fold n have reopened: "\<exists>v' ts' t'. fold_view v [c, a] = Inr v' \<and> fget v' ''tasks'' = JArr ts' \<and> ts' ! n = JObj t' \<and>
      fget t' ''status'' = JStr ''pending'' \<and> fget t' ''branch'' = data_get a ''branch''"
    by (intro exI [of _ "spread ?v1 [(''tasks'', JArr (?ts1[n := JObj ?t2]))]"]
        exI [of _ "?ts1[n := JObj ?t2]"] exI [of _ ?t2]) simp
  have "promotions c = [(i, ''complete'')]" "promotions a = [(i, ''in_progress'')]"
    using assms(4-8) by (simp_all add: promotions_def)
  then have "map_of (pl_tasksById (fold apply_pipeline [c, a] p)) i \<in> {Some ''complete'', Some ''failed''}"
    using rankOf_terminal
    by (auto simp: pipeline_ladder climb_def promoteStatus_lookup rankOf_def STATUS_RANK_def
        split: option.splits if_splits)
  with reopened show ?thesis by blast
qed

lemma reassignment_reopens_task_witness:
  "\<exists>v' ts' t'. fold_view [(''tasks'', JArr [JObj [(''id'', JStr ''a''), (''branch'', JStr ''b'')]])]
      [sample_event ''task.completed'' (JObj [(''taskId'', JStr ''a'')]),
       sample_event ''task.assigned'' (JObj [(''taskId'', JStr ''a'')])] = Inr v' \<and>
    fget v' ''tasks'' = JArr ts' \<and> ts' ! 0 = JObj t' \<and> fget t' ''status'' = JStr ''pending'' \<and>
    fget t' ''branch'' = JUndef"
  using reassignment_reopens_task
    [of "[(''tasks'', JArr [JObj [(''id'', JStr ''a''), (''branch'', JStr ''b'')]])]"
      "[JObj [(''id'', JStr ''a''), (''branch'', JStr ''b'')]]" "''a''" 0
      "[(''id'', JStr ''a''), (''branch'', JStr ''b'')]"
      "sample_event ''task.completed'' (JObj [(''taskId'', JStr ''a'')])"
      "sample_event ''task.assigned'' (JObj [(''taskId'', JStr ''a'')])"]
  by (simp add: strict_equal_def is_array_def sample_event_def data_get_def del: fold_events.simps)

end
