(* ===== verification/Cancel_Events.thy ===== *)
theory Cancel_Events
  imports Transition_Command
begin

text \<open>
  The cancellation events (\<open>src/events/schemas.ts\<close>, with the principal and the authorization snapshot
  of \<open>src/workflow/admission/types.ts\<close>): their schemas as checks on untyped data. A schema is the table
  of its fields. The cancellation schemas are strict, so a field outside the table is an error, and a
  field that is not optional must be there. A reader that parses an event trusts exactly what passes.
\<close>

section \<open>Checks on one value\<close>

type_synonym check = "js \<Rightarrow> bool"

definition is_text :: "(string \<Rightarrow> bool) \<Rightarrow> check" where
  "is_text p v = (case v of JStr s \<Rightarrow> p s | _ \<Rightarrow> False)"

definition is_literal :: "string \<Rightarrow> check" where
  "is_literal s = is_text (\<lambda>t. t = s)"

definition is_enum :: "string list \<Rightarrow> check" where
  "is_enum ss = is_text (\<lambda>t. t \<in> set ss)"

definition is_nonempty :: check where
  "is_nonempty = is_text (\<lambda>s. s \<noteq> '''')"

definition is_stable_id :: check where
  "is_stable_id = is_text stable_id"

text \<open>\<open>z.number().int().positive()\<close>; an integer beyond \<open>Number.MAX_SAFE_INTEGER\<close> is not one.\<close>

definition is_positive_int :: check where
  "is_positive_int v =
     (case v of JNum (Fin r) \<Rightarrow> is_integer_num (Fin r) \<and> 0 < r \<and> r \<le> Requirement_Freeze.MAX_SAFE_INTEGER | _ \<Rightarrow> False)"

definition is_array_of :: "check \<Rightarrow> check" where
  "is_array_of p v = (case v of JArr xs \<Rightarrow> list_all p xs | _ \<Rightarrow> False)"

definition is_text_or_absent :: check where
  "is_text_or_absent v \<longleftrightarrow> v = JUndef \<or> is_text (\<lambda>_. True) v"

section \<open>Strict objects\<close>

text \<open>A check that accepts \<open>undefined\<close> makes its field optional.\<close>

type_synonym shape = "(string \<times> check) list"

definition strict_object :: "shape \<Rightarrow> check" where
  "strict_object sh v =
     (case v of
        JObj fs \<Rightarrow> list_all (\<lambda>k. k \<in> set (map fst sh)) (map fst fs) \<and>
          list_all (\<lambda>(k, p). p (fget fs k)) sh
      | _ \<Rightarrow> False)"

definition is_digest :: check where
  "is_digest = strict_object
     [(''algorithm'', is_literal ''sha256''),
      (''value'', is_text (\<lambda>s. length s = 64 \<and> list_all (\<lambda>c. c \<in> set ''abcdef0123456789'') s))]"

definition is_principal :: check where
  "is_principal = strict_object
     [(''principalKind'', is_enum [''operator'', ''agent'', ''service'']),
      (''principalId'', is_stable_id), (''role'', is_stable_id)]"

definition is_authorization :: "(string \<Rightarrow> bool) \<Rightarrow> check" where
  "is_authorization datetime = strict_object
     [(''authorizationId'', is_stable_id),
      (''posture'', is_enum [''read-only'', ''task-isolated'', ''shared-mutating'']),
      (''capabilityIds'', is_array_of is_stable_id),
      (''resolverVersion'', is_text (trimmed_text 128)),
      (''resolvedAt'', is_text datetime)]"

section \<open>The cancellation schemas\<close>

text \<open>\<open>CancellationTrustedProvenance\<close>.\<close>

definition trusted_provenance :: "(string \<Rightarrow> bool) \<Rightarrow> shape" where
  "trusted_provenance datetime =
     [(''caller'', is_principal),
      (''authorization'', \<lambda>v. v = JUndef \<or> is_authorization datetime v)]"

text \<open>What every event of one compensation action says of it.\<close>

definition cancellation_fields :: shape where
  "cancellation_fields =
     [(''eventVersion'', is_literal ''1.0''), (''cancelId'', is_text (trimmed_text 200)),
      (''featureId'', is_nonempty), (''phaseAttemptId'', is_stable_id)]"

definition action_fields :: shape where
  "action_fields = cancellation_fields @ [(''actionId'', is_text (trimmed_text 200))]"

definition CancelRequestedData :: "(string \<Rightarrow> bool) \<Rightarrow> check" where
  "CancelRequestedData datetime = strict_object
     (cancellation_fields @
      [(''from'', is_nonempty), (''reason'', is_text_or_absent), (''requestedAt'', is_text datetime)] @
      trusted_provenance datetime)"

definition CancelCompensationRequestedData :: "(string \<Rightarrow> bool) \<Rightarrow> check" where
  "CancelCompensationRequestedData datetime =
     strict_object (action_fields @ [(''requestedAt'', is_text datetime)])"

definition CancelCompensationCompletedData :: "(string \<Rightarrow> bool) \<Rightarrow> check" where
  "CancelCompensationCompletedData datetime = strict_object
     (action_fields @
      [(''status'', is_enum [''executed'', ''skipped'']), (''message'', is_nonempty),
       (''completedAt'', is_text datetime)])"

definition CancelCompensationFailedData :: "(string \<Rightarrow> bool) \<Rightarrow> check" where
  "CancelCompensationFailedData datetime = strict_object
     (action_fields @
      [(''reason'', is_enum [''effect-failed'', ''malformed-result'']), (''message'', is_nonempty),
       (''failedAt'', is_text datetime)])"

definition CancelReadyData :: "(string \<Rightarrow> bool) \<Rightarrow> check" where
  "CancelReadyData datetime = strict_object
     (cancellation_fields @
      [(''evidenceId'', is_text (trimmed_text 256)),
       (''completedActionIds'', is_array_of (is_text (trimmed_text 200))),
       (''outcomeSequences'', is_array_of is_positive_int),
       (''contentDigest'', is_digest), (''readyAt'', is_text datetime)] @
      trusted_provenance datetime)"

definition CancelOwnershipAcquiredData :: "(string \<Rightarrow> bool) \<Rightarrow> check" where
  "CancelOwnershipAcquiredData datetime = strict_object
     (cancellation_fields @
      [(''epoch'', is_positive_int), (''instanceId'', is_text (trimmed_text 200)),
       (''acquiredAt'', is_text datetime)])"

definition CancelCompensationRetryScheduledData :: "(string \<Rightarrow> bool) \<Rightarrow> check" where
  "CancelCompensationRetryScheduledData datetime = strict_object
     (action_fields @
      [(''epoch'', is_positive_int), (''attempt'', is_positive_int), (''maxAttempts'', is_positive_int),
       (''reason'', is_enum [''effect-failed'', ''malformed-result'']), (''message'', is_nonempty),
       (''scheduledAt'', is_text datetime)])"

definition CancelManualInterventionRequiredData :: "(string \<Rightarrow> bool) \<Rightarrow> check" where
  "CancelManualInterventionRequiredData datetime = strict_object
     (action_fields @
      [(''epoch'', is_positive_int), (''attempts'', is_positive_int),
       (''reason'', is_enum [''retries-exhausted'', ''effect-failed'', ''malformed-result'']),
       (''message'', is_nonempty), (''requiredAt'', is_text datetime)])"

text \<open>The entries of \<open>EVENT_DATA_SCHEMAS\<close> for cancellation.\<close>

definition cancel_schemas :: "(string \<Rightarrow> bool) \<Rightarrow> shape" where
  "cancel_schemas datetime =
     [(''cancel.requested'', CancelRequestedData datetime),
      (''cancel.ownership-acquired'', CancelOwnershipAcquiredData datetime),
      (''cancel.compensation-requested'', CancelCompensationRequestedData datetime),
      (''cancel.compensation-completed'', CancelCompensationCompletedData datetime),
      (''cancel.compensation-failed'', CancelCompensationFailedData datetime),
      (''cancel.compensation-retry-scheduled'', CancelCompensationRetryScheduledData datetime),
      (''cancel.manual-intervention-required'', CancelManualInterventionRequiredData datetime),
      (''cancel.ready'', CancelReadyData datetime)]"

section \<open>Building a validated event\<close>

record saga_env =
  sv_sha :: "string \<Rightarrow> string"
  sv_datetime :: "string \<Rightarrow> bool"
  sv_schemas :: "string \<Rightarrow> check option"

text \<open>
  \<open>validateEventData\<close>: data that is \<open>undefined\<close>, or of a type without a schema, passes; \<open>sv_schemas\<close>
  has the schemas of the other types.
\<close>

definition validateEventData :: "saga_env \<Rightarrow> string \<Rightarrow> check" where
  "validateEventData env t data \<longleftrightarrow>
     data = JUndef \<or>
     (case map_of (cancel_schemas (sv_datetime env)) t of
        Some p \<Rightarrow> p data
      | None \<Rightarrow> (case sv_schemas env t of None \<Rightarrow> True | Some p \<Rightarrow> p data))"

text \<open>
  \<open>buildValidatedEvent\<close> on the inputs of the process manager: the base schema bounds the stream id and
  the key and wants a record as data. The type is a built-in one and the timestamp is the clock's.
\<close>

definition base_ok :: "string \<Rightarrow> string \<Rightarrow> check" where
  "base_ok streamId key data \<longleftrightarrow>
     1 \<le> utf16_length streamId \<and> utf16_length streamId \<le> 100 \<and>
     1 \<le> utf16_length key \<and> utf16_length key \<le> 200 \<and> (data = JUndef \<or> isPlainObject data)"

definition eventInputFrom ::
    "saga_env \<Rightarrow> stamps \<Rightarrow> string \<Rightarrow> string \<Rightarrow> js \<Rightarrow> string \<Rightarrow> js_exn + event_input" where
  "eventInputFrom env st featureId t data key =
     (if base_ok featureId key data \<and> validateEventData env t data
      then Inr \<lparr>ei_type = t, ei_data = data, ei_timestamp = Some (clock st), ei_operation = None,
                ei_correlation = None, ei_causation = None\<rparr>
      else Inl (Thrown ''ZodError''))"

section \<open>Laws\<close>

lemma strict_object_field: "strict_object sh (JObj fs) \<Longrightarrow> (k, p) \<in> set sh \<Longrightarrow> p (fget fs k)"
  by (auto simp: strict_object_def list_all_iff)

lemma eventInputFrom_ok:
  "eventInputFrom env st s t data key = Inr ev \<Longrightarrow>
   ei_type ev = t \<and> ei_data ev = data \<and> validateEventData env t data \<and> base_ok s key data"
  by (auto simp: eventInputFrom_def split: if_splits)

end
