(* ===== verification/Cancel_Saga.thy ===== *)
theory Cancel_Saga
  imports Cancel_Events
begin

text \<open>
  The cancellation process manager (\<open>src/workflow/cancel-process-manager.ts\<close>): a saga that holds no
  state of its own. \<open>foldCancelSaga\<close> rebuilds it from the rows of the feature's stream, the decisions
  read the fold, and the two writers run inside one \<open>decideOnce\<close> transaction: the acquisition of the
  next fencing epoch, and an append that is refused to a writer with an older epoch.
\<close>

section \<open>The state of the saga\<close>

datatype compensation_status = Pending | Intended | Succeeded | CompensationFailed | ManualIntervention

datatype failure_reason = EffectFailed | MalformedResult

record action_acc =
  aa_requested :: nat
  aa_failures :: nat
  aa_retriesScheduled :: nat
  aa_completed :: bool
  aa_completedSequence :: "nat option"
  aa_manual :: bool
  aa_lastFailureReason :: "failure_reason option"
  aa_lastMessage :: "string option"

record action_state =
  as_actionId :: string
  as_status :: compensation_status
  as_attempts :: nat
  as_failures :: nat
  as_retriesScheduled :: nat
  as_lastFailureReason :: "failure_reason option"
  as_lastMessage :: "string option"
  as_completedSequence :: "nat option"

record saga_acc =
  sa_requested :: bool
  sa_epoch :: jsnum
  sa_owner :: "string option"
  sa_ready :: bool
  sa_actions :: "(string \<times> action_acc) list"

record saga_state =
  sg_cancelId :: "string option"
  sg_requested :: bool
  sg_currentEpoch :: jsnum
  sg_owner :: "string option"
  sg_ready :: bool
  sg_actions :: "(string \<times> action_state) list"

section \<open>The fold\<close>

definition readString :: "wf_event \<Rightarrow> string \<Rightarrow> string option" where
  "readString e k = as_string (data_get e k)"

definition readFailureReason :: "wf_event \<Rightarrow> failure_reason option" where
  "readFailureReason e =
     (if data_get e ''reason'' = JStr ''effect-failed'' then Some EffectFailed
      else if data_get e ''reason'' = JStr ''malformed-result'' then Some MalformedResult
      else None)"

definition deriveStatus :: "action_acc \<Rightarrow> compensation_status" where
  "deriveStatus acc =
     (if aa_completed acc then Succeeded
      else if aa_manual acc then ManualIntervention
      else if 0 < aa_failures acc \<and> aa_requested acc \<le> aa_failures acc then CompensationFailed
      else if 0 < aa_requested acc then Intended
      else Pending)"

definition fresh_action :: action_acc where
  "fresh_action =
     \<lparr>aa_requested = 0, aa_failures = 0, aa_retriesScheduled = 0, aa_completed = False,
      aa_completedSequence = None, aa_manual = False, aa_lastFailureReason = None, aa_lastMessage = None\<rparr>"

text \<open>\<open>upsert\<close> and the mutation of its result; a \<open>Map\<close> keeps the order of the first insertions.\<close>

definition upsert :: "string \<Rightarrow> (action_acc \<Rightarrow> action_acc) \<Rightarrow> saga_acc \<Rightarrow> saga_acc" where
  "upsert a f acc = acc\<lparr>sa_actions := AList.update a
     (f (case map_of (sa_actions acc) a of None \<Rightarrow> fresh_action | Some x \<Rightarrow> x)) (sa_actions acc)\<rparr>"

definition on_action :: "wf_event \<Rightarrow> (action_acc \<Rightarrow> action_acc) \<Rightarrow> saga_acc \<Rightarrow> saga_acc" where
  "on_action e f acc = (case readString e ''actionId'' of None \<Rightarrow> acc | Some a \<Rightarrow> upsert a f acc)"

definition foreign :: "string option \<Rightarrow> wf_event \<Rightarrow> bool" where
  "foreign cancelId e \<longleftrightarrow>
     (case (cancelId, readString e ''cancelId'') of (Some c, Some c') \<Rightarrow> c' \<noteq> c | _ \<Rightarrow> False)"

definition acquire_step :: "wf_event \<Rightarrow> saga_acc \<Rightarrow> saga_acc" where
  "acquire_step e acc =
     (case data_get e ''epoch'' of
        JNum n \<Rightarrow> if num_less (sa_epoch acc) n
          then acc\<lparr>sa_epoch := n, sa_owner := readString e ''instanceId''\<rparr> else acc
      | _ \<Rightarrow> acc)"

definition action_step :: "wf_event \<Rightarrow> action_acc \<Rightarrow> action_acc" where
  "action_step e x =
     (if we_type e = ''cancel.compensation-requested'' then x\<lparr>aa_requested := aa_requested x + 1\<rparr>
      else if we_type e = ''cancel.compensation-completed'' then
        x\<lparr>aa_completed := True, aa_completedSequence := Some (we_sequence e)\<rparr>
      else if we_type e = ''cancel.compensation-failed'' then
        x\<lparr>aa_failures := aa_failures x + 1, aa_lastFailureReason := readFailureReason e,
          aa_lastMessage := readString e ''message''\<rparr>
      else if we_type e = ''cancel.compensation-retry-scheduled'' then
        x\<lparr>aa_retriesScheduled := aa_retriesScheduled x + 1\<rparr>
      else x\<lparr>aa_manual := True\<rparr>)"

definition action_types :: "string list" where
  "action_types =
     [''cancel.compensation-requested'', ''cancel.compensation-completed'', ''cancel.compensation-failed'',
      ''cancel.compensation-retry-scheduled'', ''cancel.manual-intervention-required'']"

definition saga_step :: "string option \<Rightarrow> saga_acc \<Rightarrow> wf_event \<Rightarrow> saga_acc" where
  "saga_step cancelId acc e =
     (if take 7 (we_type e) \<noteq> ''cancel.'' \<or> foreign cancelId e then acc
      else if we_type e = ''cancel.requested'' then acc\<lparr>sa_requested := True\<rparr>
      else if we_type e = ''cancel.ownership-acquired'' then acquire_step e acc
      else if we_type e \<in> set action_types then on_action e (action_step e) acc
      else if we_type e = ''cancel.ready'' then acc\<lparr>sa_ready := True\<rparr>
      else acc)"

definition initial_saga :: saga_acc where
  "initial_saga =
     \<lparr>sa_requested = False, sa_epoch = Fin 0, sa_owner = None, sa_ready = False, sa_actions = []\<rparr>"

definition materialise :: "string \<Rightarrow> action_acc \<Rightarrow> action_state" where
  "materialise a x =
     \<lparr>as_actionId = a, as_status = deriveStatus x, as_attempts = aa_requested x,
      as_failures = aa_failures x, as_retriesScheduled = aa_retriesScheduled x,
      as_lastFailureReason = aa_lastFailureReason x, as_lastMessage = aa_lastMessage x,
      as_completedSequence = aa_completedSequence x\<rparr>"

definition foldCancelSaga :: "wf_event list \<Rightarrow> string option \<Rightarrow> saga_state" where
  "foldCancelSaga events cancelId =
     (let acc = foldl (saga_step cancelId) initial_saga events in
      \<lparr>sg_cancelId = cancelId, sg_requested = sa_requested acc, sg_currentEpoch = sa_epoch acc,
       sg_owner = sa_owner acc, sg_ready = sa_ready acc,
       sg_actions = map (\<lambda>(a, x). (a, materialise a x)) (sa_actions acc)\<rparr>)"

section \<open>Decisions\<close>

definition actionOrPending :: "saga_state \<Rightarrow> string \<Rightarrow> action_state" where
  "actionOrPending saga a =
     (case map_of (sg_actions saga) a of Some x \<Rightarrow> x | None \<Rightarrow> materialise a fresh_action)"

definition nextCancelEpoch :: "saga_state \<Rightarrow> jsnum" where
  "nextCancelEpoch saga = num_add1 (sg_currentEpoch saga)"

datatype saga_error =
    StaleEpochError jsnum jsnum "string option"
  | SagaThrew js_exn
  | SagaStore decide_error

definition assertEpochCurrent :: "saga_state \<Rightarrow> jsnum \<Rightarrow> saga_error + unit" where
  "assertEpochCurrent saga writerEpoch =
     (if num_less writerEpoch (sg_currentEpoch saga)
      then Inl (StaleEpochError writerEpoch (sg_currentEpoch saga) (sg_cancelId saga))
      else Inr ())"

datatype compensation_plan =
    SatisfiedPlan
  | BlockedManualPlan
  | ExecutePlan nat
  | RetryPlan nat nat failure_reason string
  | EscalateManualPlan nat

definition or_default :: "'a option \<Rightarrow> 'a \<Rightarrow> 'a" where
  "or_default x y = (case x of None \<Rightarrow> y | Some v \<Rightarrow> v)"

definition decideCompensationAction :: "saga_state \<Rightarrow> string \<Rightarrow> nat \<Rightarrow> js_exn + compensation_plan" where
  "decideCompensationAction saga a maxAttempts =
     (if maxAttempts < 1 then Inl (Thrown ''CancelRetryPolicy.maxAttempts must be >= 1'')
      else (let action = actionOrPending saga a in Inr
        (if as_status action = Succeeded then SatisfiedPlan
         else if as_status action = ManualIntervention then BlockedManualPlan
         else if as_attempts action = 0 then ExecutePlan 1
         else if as_failures action < as_attempts action then ExecutePlan (as_attempts action)
         else if maxAttempts \<le> as_failures action then EscalateManualPlan (as_failures action)
         else RetryPlan (as_failures action) (as_failures action + 1)
           (or_default (as_lastFailureReason action) EffectFailed)
           (or_default (as_lastMessage action) ''compensation attempt failed''))))"

datatype block_reason = UnrecordedOutcome | ManualInterventionRequired

datatype completion_plan = ReadyPlan "string list" | BlockedPlan block_reason "string list"

definition planCancelCompletion :: "saga_state \<Rightarrow> string list \<Rightarrow> completion_plan" where
  "planCancelCompletion saga required =
     (let status = (\<lambda>a. as_status (actionOrPending saga a));
          manual = filter (\<lambda>a. status a = ManualIntervention) required;
          unrecorded = filter (\<lambda>a. status a \<noteq> ManualIntervention \<and> status a \<noteq> Succeeded) required
      in if manual \<noteq> [] then BlockedPlan ManualInterventionRequired manual
         else if unrecorded \<noteq> [] then BlockedPlan UnrecordedOutcome unrecorded
         else ReadyPlan required)"

definition isCompensationSatisfied :: "saga_state \<Rightarrow> string \<Rightarrow> bool" where
  "isCompensationSatisfied saga a \<longleftrightarrow> as_status (actionOrPending saga a) = Succeeded"

definition manualInterventionActions :: "saga_state \<Rightarrow> action_state list" where
  "manualInterventionActions saga =
     filter (\<lambda>x. as_status x = ManualIntervention) (map snd (sg_actions saga))"

section \<open>The readiness proof\<close>

record readiness_params =
  rq_featureId :: string
  rq_cancelId :: string
  rq_phaseAttemptId :: string
  rq_evidenceId :: string
  rq_caller :: js
  rq_authorization :: "js option"
  rq_readyAt :: "string option"

text \<open>The loop over the required actions: the first one without a positive sequence stops it.\<close>

fun outcome_sequences :: "saga_state \<Rightarrow> string list \<Rightarrow> string + nat list" where
  "outcome_sequences saga [] = Inr []"
| "outcome_sequences saga (a # as) =
     (case Option.bind (map_of (sg_actions saga) a) as_completedSequence of
        Some n \<Rightarrow> if n \<le> 0 then Inl a
          else (case outcome_sequences saga as of Inl b \<Rightarrow> Inl b | Inr ns \<Rightarrow> Inr (n # ns))
      | None \<Rightarrow> Inl a)"

definition nat_list :: "nat list \<Rightarrow> js" where
  "nat_list ns = JArr (map (\<lambda>n. JInt (int n)) ns)"

definition readiness_data ::
    "saga_env \<Rightarrow> stamps \<Rightarrow> readiness_params \<Rightarrow> string list \<Rightarrow> nat list \<Rightarrow> js" where
  "readiness_data env st p completed sequences =
     JObj ([(''eventVersion'', JStr ''1.0''), (''evidenceId'', JStr (rq_evidenceId p)),
            (''cancelId'', JStr (rq_cancelId p)), (''featureId'', JStr (rq_featureId p)),
            (''phaseAttemptId'', JStr (rq_phaseAttemptId p)),
            (''completedActionIds'', str_list completed), (''outcomeSequences'', nat_list sequences),
            (''contentDigest'', JObj [(''algorithm'', JStr ''sha256''),
               (''value'', JStr (sv_sha env (json_text (JObj
                  [(''cancelId'', JStr (rq_cancelId p)), (''completedActionIds'', str_list completed),
                   (''outcomeSequences'', nat_list sequences)]))))]),
            (''readyAt'', JStr (or_default (rq_readyAt p) (clock st))), (''caller'', rq_caller p)] @
           (case rq_authorization p of None \<Rightarrow> [] | Some a \<Rightarrow> [(''authorization'', a)]))"

definition buildCancelReadiness ::
    "saga_env \<Rightarrow> stamps \<Rightarrow> saga_state \<Rightarrow> string list \<Rightarrow> readiness_params \<Rightarrow> completion_plan + js" where
  "buildCancelReadiness env st saga required p =
     (case planCancelCompletion saga required of
        BlockedPlan r as \<Rightarrow> Inl (BlockedPlan r as)
      | ReadyPlan completed \<Rightarrow>
          (case outcome_sequences saga required of
             Inl a \<Rightarrow> Inl (BlockedPlan UnrecordedOutcome [a])
           | Inr sequences \<Rightarrow>
               (let data = readiness_data env st p completed sequences in
                if CancelReadyData (sv_datetime env) data then Inr data
                else Inl (BlockedPlan UnrecordedOutcome required))))"

section \<open>The two writers\<close>

text \<open>
  \<open>decideOnce\<close> with a closure that can throw. The closure runs inside the transaction, after the two
  lookups of the operation's claim, and only with the write lock; when it throws, nothing is written.
\<close>

definition undecided :: once_decision where
  "undecided = \<lparr>od_stream = '''', od_events = [], od_result = JUndef, od_expected = None\<rparr>"

definition lock_exhausted :: "bool list \<Rightarrow> bool" where
  "lock_exhausted busy \<longleftrightarrow> MAX_ATTEMPTS \<le> length busy \<and> list_all id (take MAX_ATTEMPTS busy)"

definition of_store :: "(decide_error + js) \<times> db \<Rightarrow> (saga_error + js) \<times> db" where
  "of_store r = (case r of (Inl e, d) \<Rightarrow> (Inl (SagaStore e), d) | (Inr v, d) \<Rightarrow> (Inr v, d))"

definition decideOnceOrThrow ::
    "bool list \<Rightarrow> stamps \<Rightarrow> string \<Rightarrow> string \<Rightarrow> (db \<Rightarrow> saga_error + once_decision) \<Rightarrow> db \<Rightarrow> db \<Rightarrow>
     (saga_error + js) \<times> db" where
  "decideOnceOrThrow busy st operationId requestDigest closure dl d =
     (case closure d of
        Inr od \<Rightarrow> of_store (decideOnce busy st operationId requestDigest (\<lambda>_. od) dl d)
      | Inl ex \<Rightarrow>
          (if operationId = '''' \<or> requestDigest = '''' \<or> lookupOperationClaim dl operationId \<noteq> None \<or>
              lookupOperationClaim d operationId \<noteq> None \<or> lock_exhausted busy
           then of_store (decideOnce busy st operationId requestDigest (\<lambda>_. undecided) dl d)
           else (Inl ex, d)))"

definition lift_exn :: "js_exn + 'a \<Rightarrow> saga_error + 'a" where
  "lift_exn r = (case r of Inl e \<Rightarrow> Inl (SagaThrew e) | Inr v \<Rightarrow> Inr v)"

record ownership_params =
  op_featureId :: string
  op_cancelId :: string
  op_phaseAttemptId :: string
  op_instanceId :: string
  op_operationId :: string

definition NUL :: string where
  "NUL = [CHR 0x00]"

definition ownership_data :: "stamps \<Rightarrow> ownership_params \<Rightarrow> jsnum \<Rightarrow> js" where
  "ownership_data st p epoch =
     JObj [(''eventVersion'', JStr ''1.0''), (''cancelId'', JStr (op_cancelId p)),
           (''featureId'', JStr (op_featureId p)), (''phaseAttemptId'', JStr (op_phaseAttemptId p)),
           (''epoch'', JNum epoch), (''instanceId'', JStr (op_instanceId p)),
           (''acquiredAt'', JStr (clock st))]"

definition acquire_closure ::
    "saga_env \<Rightarrow> stamps \<Rightarrow> ownership_params \<Rightarrow> db \<Rightarrow> saga_error + once_decision" where
  "acquire_closure env st p d =
     (let epoch = nextCancelEpoch (foldCancelSaga (rows_of d (op_featureId p)) (Some (op_cancelId p))) in
      bind_result
        (lift_exn (eventInputFrom env st (op_featureId p) ''cancel.ownership-acquired''
           (ownership_data st p epoch)
           (''cancel:'' @ sv_sha env
              (op_featureId p @ NUL @ op_cancelId p @ NUL @ ''ownership'' @ NUL @ num_str epoch))))
        (\<lambda>ev. Inr \<lparr>od_stream = op_featureId p, od_events = [ev],
                    od_result = JObj [(''epoch'', JNum epoch)], od_expected = None\<rparr>))"

definition acquireCancelOwnership ::
    "saga_env \<Rightarrow> bool list \<Rightarrow> stamps \<Rightarrow> ownership_params \<Rightarrow> db \<Rightarrow> db \<Rightarrow> (saga_error + js) \<times> db" where
  "acquireCancelOwnership env busy st p dl d =
     decideOnceOrThrow busy st (op_operationId p)
       (''sha256:'' @ sv_sha env (json_text (JObj
          [(''op'', JStr ''acquire''), (''cancelId'', JStr (op_cancelId p)),
           (''instanceId'', JStr (op_instanceId p))])))
       (acquire_closure env st p) dl d"

record fenced_params =
  fp_featureId :: string
  fp_cancelId :: string
  fp_writerEpoch :: jsnum
  fp_type :: string
  fp_data :: js
  fp_idempotencyKey :: string
  fp_operationId :: string

definition fenced_closure ::
    "saga_env \<Rightarrow> stamps \<Rightarrow> fenced_params \<Rightarrow> db \<Rightarrow> saga_error + once_decision" where
  "fenced_closure env st p d =
     bind_result
       (assertEpochCurrent (foldCancelSaga (rows_of d (fp_featureId p)) (Some (fp_cancelId p)))
          (fp_writerEpoch p))
       (\<lambda>_. bind_result
          (lift_exn (eventInputFrom env st (fp_featureId p) (fp_type p) (fp_data p) (fp_idempotencyKey p)))
          (\<lambda>ev. Inr \<lparr>od_stream = fp_featureId p, od_events = [ev],
                      od_result = JObj [(''appended'', JBool True)], od_expected = None\<rparr>))"

definition appendFencedCancelEvent ::
    "saga_env \<Rightarrow> bool list \<Rightarrow> stamps \<Rightarrow> fenced_params \<Rightarrow> db \<Rightarrow> db \<Rightarrow> (saga_error + js) \<times> db" where
  "appendFencedCancelEvent env busy st p dl d =
     decideOnceOrThrow busy st (fp_operationId p)
       (''sha256:'' @ sv_sha env (json_text (JObj
          [(''type'', JStr (fp_type p)), (''key'', JStr (fp_idempotencyKey p))])))
       (fenced_closure env st p) dl d"

definition queryCancelSaga :: "db \<Rightarrow> string \<Rightarrow> string option \<Rightarrow> saga_state" where
  "queryCancelSaga d featureId cancelId = foldCancelSaga (rows_of d featureId) cancelId"

end
