(* ===== verification/Cancel_Laws.thy ===== *)
theory Cancel_Laws
  imports Cancel_Saga Command_Laws
begin

text \<open>
  What the cancellation saga promises. The fold is a count over the log and grows with it: a completed
  compensation stays completed and the fencing epoch never falls. Every acquisition gets an epoch above
  all epochs of the log, so that every later write of a displaced owner is refused without a trace, and
  a readiness proof is backed by a durable outcome of every required action.
\<close>

section \<open>The fold is a count\<close>

definition concerns :: "string option \<Rightarrow> string \<Rightarrow> string \<Rightarrow> wf_event list \<Rightarrow> wf_event list" where
  "concerns c a t es =
     filter (\<lambda>e. we_type e = t \<and> readString e ''actionId'' = Some a \<and> \<not> foreign c e) es"

definition last_of :: "(wf_event \<Rightarrow> 'a option) \<Rightarrow> wf_event list \<Rightarrow> 'a option" where
  "last_of f es = (if es = [] then None else f (last es))"

definition action_counts :: "string option \<Rightarrow> string \<Rightarrow> wf_event list \<Rightarrow> action_acc" where
  "action_counts c a es =
     (let failed = concerns c a ''cancel.compensation-failed'' es;
          completed = concerns c a ''cancel.compensation-completed'' es in
      \<lparr>aa_requested = length (concerns c a ''cancel.compensation-requested'' es),
       aa_failures = length failed,
       aa_retriesScheduled = length (concerns c a ''cancel.compensation-retry-scheduled'' es),
       aa_completed = completed \<noteq> [],
       aa_completedSequence = last_of (\<lambda>e. Some (we_sequence e)) completed,
       aa_manual = concerns c a ''cancel.manual-intervention-required'' es \<noteq> [],
       aa_lastFailureReason = last_of readFailureReason failed,
       aa_lastMessage = last_of (\<lambda>e. readString e ''message'') failed\<rparr>)"

definition action_at :: "saga_acc \<Rightarrow> string \<Rightarrow> action_acc" where
  "action_at acc a = (case map_of (sa_actions acc) a of None \<Rightarrow> fresh_action | Some x \<Rightarrow> x)"

abbreviation saga_acc_of :: "string option \<Rightarrow> wf_event list \<Rightarrow> saga_acc" where
  "saga_acc_of c es \<equiv> foldl (saga_step c) initial_saga es"

lemma action_at_upsert:
  "action_at (upsert b f acc) a = (if a = b then f (action_at acc b) else action_at acc a)"
  by (auto simp: action_at_def upsert_def update_conv')

lemma actionOrPending_fold: "actionOrPending (foldCancelSaga es c) a = materialise a (action_at (saga_acc_of c es) a)"
proof -
  have "map_of (map (\<lambda>(k, x). (k, materialise k x)) xs) a = map_option (materialise a) (map_of xs a)" for xs
    by (induction xs) auto
  then show ?thesis
    by (simp add: actionOrPending_def foldCancelSaga_def Let_def action_at_def split: option.split)
qed

lemma action_types_cancel: "t \<in> set action_types \<Longrightarrow> take 7 t = ''cancel.''"
  by (auto simp: action_types_def)

lemma action_at_step:
  "action_at (saga_step c acc e) a =
   (if we_type e \<in> set action_types \<and> readString e ''actionId'' = Some a \<and> \<not> foreign c e
    then action_step e (action_at acc a) else action_at acc a)"
proof (cases "we_type e \<in> set action_types")
  case True
  then have "we_type e \<noteq> ''cancel.requested'' \<and> we_type e \<noteq> ''cancel.ownership-acquired''"
    by (auto simp: action_types_def)
  then show ?thesis
    using True action_types_cancel [OF True]
    by (simp add: saga_step_def on_action_def action_at_upsert split: option.split)
next
  case False
  moreover have "action_at (acquire_step e acc) a = action_at acc a"
    by (simp add: acquire_step_def action_at_def split: js.split)
  ultimately show ?thesis by (simp add: saga_step_def action_at_def)
qed

lemma action_counts_Nil: "action_counts c a [] = fresh_action"
  by (simp add: action_counts_def concerns_def last_of_def fresh_action_def Let_def)

lemma concerns_snoc:
  "concerns c a t (es @ [e]) = concerns c a t es @
     (if we_type e = t \<and> readString e ''actionId'' = Some a \<and> \<not> foreign c e then [e] else [])"
  by (simp add: concerns_def)

lemma last_of_snoc [simp]: "last_of f (es @ [e]) = f e"
  by (simp add: last_of_def)

lemma action_counts_skip:
  assumes "\<not> (we_type e \<in> set action_types \<and> readString e ''actionId'' = Some a \<and> \<not> foreign c e)"
  shows "action_counts c a (es @ [e]) = action_counts c a es"
proof -
  have same: "concerns c a t (es @ [e]) = concerns c a t es" if "t \<in> set action_types" for t
    using assms that by (auto simp: concerns_snoc)
  show ?thesis
    unfolding action_counts_def Let_def by (simp only: same action_types_def list.set insertI1 insertI2)
qed

lemma action_counts_take:
  assumes "readString e ''actionId'' = Some a" "\<not> foreign c e" "we_type e \<in> set action_types"
  shows "action_counts c a (es @ [e]) = action_step e (action_counts c a es)"
proof -
  have "t = we_type e \<Longrightarrow> concerns c a t (es @ [e]) = concerns c a t es @ [e]"
    "t \<noteq> we_type e \<Longrightarrow> concerns c a t (es @ [e]) = concerns c a t es" for t
    using assms by (simp_all add: concerns_snoc)
  note concerns = this
  from assms(3) consider "we_type e = ''cancel.compensation-requested''"
    | "we_type e = ''cancel.compensation-completed''" | "we_type e = ''cancel.compensation-failed''"
    | "we_type e = ''cancel.compensation-retry-scheduled''"
    | "we_type e = ''cancel.manual-intervention-required''"
    by (auto simp: action_types_def)
  then show ?thesis
    by cases (simp_all add: action_counts_def Let_def concerns action_step_def)
qed

lemma action_at_counts: "action_at (saga_acc_of c es) a = action_counts c a es"
proof (induction es rule: rev_induct)
  case Nil
  then show ?case by (simp add: action_counts_Nil action_at_def initial_saga_def)
qed (simp add: action_at_step action_counts_take action_counts_skip)

lemma fold_counts: "actionOrPending (foldCancelSaga es c) a = materialise a (action_counts c a es)"
  by (simp add: actionOrPending_fold action_at_counts)

text \<open>
  The fold of the cancellation log gives for every action exactly its counts: the attempts are the
  request events of that action under this cancellation, the failures its failure events, the last reason
  and message those of its latest failure, the completed sequence that of its latest success. The order
  of the events of other actions has no influence.
\<close>

theorem saga_fold_counts:
  "actionOrPending (foldCancelSaga es c) a = materialise a (action_counts c a es)"
  by (rule fold_counts)

section \<open>Epochs\<close>

lemma saga_epoch: "sg_currentEpoch (foldCancelSaga es c) = sa_epoch (saga_acc_of c es)"
  by (simp add: foldCancelSaga_def Let_def)

definition acquisition :: "string option \<Rightarrow> wf_event \<Rightarrow> jsnum \<Rightarrow> bool" where
  "acquisition c e n \<longleftrightarrow>
     we_type e = ''cancel.ownership-acquired'' \<and> \<not> foreign c e \<and> data_get e ''epoch'' = JNum n"

lemma epoch_step:
  "sa_epoch (saga_step c acc e) =
   (if we_type e = ''cancel.ownership-acquired'' \<and> \<not> foreign c e
    then (case data_get e ''epoch'' of
            JNum n \<Rightarrow> if num_less (sa_epoch acc) n then n else sa_epoch acc | _ \<Rightarrow> sa_epoch acc)
    else sa_epoch acc)"
  by (auto simp: saga_step_def acquire_step_def on_action_def upsert_def action_types_def
      split: js.splits option.splits)

lemma num_less_trans: "num_less a b \<Longrightarrow> num_less b c \<Longrightarrow> num_less a c"
  by (cases a; cases b; cases c) auto

lemma num_less_irrefl [simp]: "\<not> num_less a a"
  by (cases a) auto

lemma epoch_grows: "num_less w (sa_epoch acc) \<Longrightarrow> num_less w (sa_epoch (foldl (saga_step c) acc es))"
proof (induction es arbitrary: acc)
  case (Cons e es)
  have "num_less w (sa_epoch (saga_step c acc e))"
    using Cons.prems num_less_trans by (auto simp: epoch_step split: js.split)
  then show ?case using Cons.IH by simp
qed simp

lemma epoch_monotone:
  "num_less w (sg_currentEpoch (foldCancelSaga es c)) \<Longrightarrow>
   num_less w (sg_currentEpoch (foldCancelSaga (es @ fs) c))"
  by (simp add: saga_epoch epoch_grows)

lemma completed_monotone:
  "isCompensationSatisfied (foldCancelSaga es c) a \<Longrightarrow> isCompensationSatisfied (foldCancelSaga (es @ fs) c) a"
  by (auto simp: isCompensationSatisfied_def fold_counts materialise_def deriveStatus_def action_counts_def
      concerns_def Let_def split: if_splits)

section \<open>The writers\<close>

text \<open>What a fresh success of a throwing closure leaves.\<close>

lemma fresh_commit:
  assumes inv: "db_inv d" and free: "lookupOperationClaim dl i = None" "lookupOperationClaim d i = None"
    and run: "decideOnceOrThrow busy st i digest closure dl d = (Inr v, d')"
  shows "\<exists>od. closure d = Inr od \<and> json_clone (od_result od) = Some v \<and>
    rows_of d' (od_stream od) = rows_of d (od_stream od) @
      persist (od_stream od) None st (od_events od) (gate d (od_stream od)) \<and>
    (\<forall>t. t \<noteq> od_stream od \<longrightarrow> rows_of d' t = rows_of d t) \<and> db_inv d'"
proof (cases "closure d")
  case (Inr od)
  then have once: "decideOnce busy st i digest (\<lambda>_. od) dl d = (Inr v, d')"
    using run by (auto simp: decideOnceOrThrow_def of_store_def split: prod.splits sum.splits)
  show ?thesis
    using once_commit(1,2,3,7) [OF inv free once] Inr by auto
next
  case (Inl ex)
  have none: "lookupOperationClaim dl i = None" "lookupOperationClaim d i = None" using free by auto
  have "\<exists>e. decideOnce busy st i digest (\<lambda>_. undecided) dl d = (Inl e, d)"
    by (auto simp: decideOnce_def none atomicDecideOnce_def with_busy_retry_cases decide_once_txn_def
        to_decision_def undecided_def)
  then have False using run Inl by (auto simp: decideOnceOrThrow_def of_store_def split: if_splits)
  then show ?thesis ..
qed

lemma writer_error_keeps: "decideOnceOrThrow busy st i digest closure dl d = (Inl e, d') \<Longrightarrow> d' = d"
  using once_error_keeps
  by (fastforce simp: decideOnceOrThrow_def of_store_def split: sum.splits prod.splits if_splits)

lemma repeat_keeps:
  assumes "decideOnceOrThrow busy st i digest closure dl d = (r, d')"
    and "lookupOperationClaim dl i \<noteq> None \<or> lookupOperationClaim d i \<noteq> None"
  shows "d' = d"
proof -
  have "decideOnce busy st i digest f dl d = (r, d') \<Longrightarrow> d' = d" for f r d'
    using assms(2)
    by (auto simp: decideOnce_def atomicDecideOnce_def with_busy_retry_cases decide_once_txn_def
        split: if_splits option.splits sum.splits prod.splits)
  then show ?thesis
    using assms by (fastforce simp: decideOnceOrThrow_def of_store_def split: sum.splits prod.splits if_splits)
qed

definition extends :: "db \<Rightarrow> db \<Rightarrow> bool" where
  "extends d d' \<longleftrightarrow> db_inv d' \<and> (\<forall>s. \<exists>es. rows_of d' s = rows_of d s @ es)"

lemma extends_refl: "db_inv d \<Longrightarrow> extends d d"
  by (simp add: extends_def)

lemma extends_trans: "extends d d' \<Longrightarrow> extends d' d'' \<Longrightarrow> extends d d''"
  unfolding extends_def by (metis append.assoc)

lemma writer_extends:
  assumes "db_inv d" "decideOnceOrThrow busy st i digest closure dl d = (r, d')"
  shows "extends d d'"
proof (cases "lookupOperationClaim dl i = None \<and> lookupOperationClaim d i = None")
  case False
  then show ?thesis using repeat_keeps [OF assms(2)] assms(1) by (auto simp: extends_refl)
next
  case True
  then have None: "lookupOperationClaim dl i = None" "lookupOperationClaim d i = None" by auto
  show ?thesis
  proof (cases r)
    case (Inl e)
    then show ?thesis using writer_error_keeps assms by (metis extends_refl)
  next
    case (Inr v)
    then show ?thesis
      using fresh_commit [OF assms(1) None] assms(2) unfolding extends_def by (metis append_Nil2)
  qed
qed

section \<open>Everything that can happen to the log\<close>

text \<open>
  The steps of any number of owners and of every other writer: an acquisition, a fenced append, and
  an append through the store, each in one transaction.
\<close>

inductive cancel_step :: "saga_env \<Rightarrow> db \<Rightarrow> db \<Rightarrow> bool" for env where
  Acquire: "acquireCancelOwnership env busy st p d d = (r, d') \<Longrightarrow> cancel_step env d d'"
| Fenced: "appendFencedCancelEvent env busy st q d d = (r, d') \<Longrightarrow> cancel_step env d d'"
| Append: "appendSqliteLocked busy st s events key expected d d = (a, d') \<Longrightarrow> cancel_step env d d'"

inductive cancel_reach :: "saga_env \<Rightarrow> db \<Rightarrow> db \<Rightarrow> bool" for env d where
  Here: "cancel_reach env d d"
| Later: "cancel_reach env d d' \<Longrightarrow> cancel_step env d' d'' \<Longrightarrow> cancel_reach env d d''"

lemma append_extends:
  assumes inv: "db_inv d" and run: "appendSqliteLocked busy st s events key expected dl d = (a, d')"
  shows "extends d d'"
proof (cases "\<exists>x y z. a = Committed x y z")
  case True
  then show ?thesis
    using append_committed [OF inv] run by (auto simp: extends_def appended_def) (metis append_Nil2)
next
  case False
  then show ?thesis using append_locked_unchanged [OF run] inv by (auto simp: extends_refl)
qed

lemma step_extends: "cancel_step env d d' \<Longrightarrow> db_inv d \<Longrightarrow> extends d d'"
  by (induction rule: cancel_step.induct)
     (auto simp: acquireCancelOwnership_def appendFencedCancelEvent_def intro: writer_extends append_extends)

lemma reach_extends: "cancel_reach env d d' \<Longrightarrow> db_inv d \<Longrightarrow> extends d d'"
proof (induction rule: cancel_reach.induct)
  case Here
  then show ?case by (rule extends_refl)
next
  case (Later d' d'')
  then show ?case using step_extends extends_trans extends_def by blast
qed

section \<open>Fencing\<close>

lemma positive_int_finite: "is_positive_int (JNum n) \<Longrightarrow> \<exists>r. n = Fin r"
  by (cases n) (simp_all add: is_positive_int_def)

lemma epoch_above: "acquisition c e n \<Longrightarrow> e \<in> set es \<Longrightarrow> \<not> num_less (sa_epoch (saga_acc_of c es)) n"
proof (induction es rule: rev_induct)
  case (snoc x es)
  let ?old = "sa_epoch (saga_acc_of c es)"
  show ?case
  proof (cases "e = x")
    case True
    then show ?thesis using snoc.prems(1) by (auto simp: epoch_step acquisition_def)
  next
    case False
    then have "\<not> num_less ?old n" using snoc by simp
    moreover have "num_less ?old m \<Longrightarrow> num_less m n \<Longrightarrow> num_less ?old n" for m by (rule num_less_trans)
    ultimately show ?thesis by (simp add: epoch_step split: js.split) blast
  qed
qed simp

text \<open>A fresh acquisition appends one row, with the next epoch.\<close>

lemma acquire_commit:
  assumes inv: "db_inv d" and free: "lookupOperationClaim d (op_operationId p) = None"
    and run: "acquireCancelOwnership env busy st p d d = (Inr v, d')"
  defines "old \<equiv> sa_epoch (saga_acc_of (Some (op_cancelId p)) (rows_of d (op_featureId p)))"
  shows "\<exists>r e. old = Fin r \<and> v = JObj [(''epoch'', JNum (Fin (r + 1)))] \<and>
    rows_of d' (op_featureId p) = rows_of d (op_featureId p) @ [e] \<and> db_inv d' \<and>
    acquisition (Some (op_cancelId p)) e (Fin (r + 1)) \<and>
    readString e ''instanceId'' = Some (op_instanceId p)"
proof -
  let ?epoch = "num_add1 old"
  have next_epoch: "nextCancelEpoch (foldCancelSaga (rows_of d (op_featureId p)) (Some (op_cancelId p))) = ?epoch"
    by (simp add: nextCancelEpoch_def saga_epoch old_def)
  from fresh_commit [OF inv free free run [unfolded acquireCancelOwnership_def]] obtain od where
    od: "acquire_closure env st p d = Inr od" "json_clone (od_result od) = Some v"
      "rows_of d' (od_stream od) = rows_of d (od_stream od) @
        persist (od_stream od) None st (od_events od) (gate d (od_stream od))" "db_inv d'" by blast
  from od(1) obtain key ev where
    made: "eventInputFrom env st (op_featureId p) ''cancel.ownership-acquired'' (ownership_data st p ?epoch) key = Inr ev"
    and od': "od = \<lparr>od_stream = op_featureId p, od_events = [ev],
                     od_result = JObj [(''epoch'', JNum ?epoch)], od_expected = None\<rparr>"
    unfolding acquire_closure_def Let_def next_epoch lift_exn_def bind_result_def by (force split: sum.splits)
  have ev: "od_stream od = op_featureId p" "od_events od = [ev]" "od_result od = JObj [(''epoch'', JNum ?epoch)]"
      "ei_type ev = ''cancel.ownership-acquired''" "ei_data ev = ownership_data st p ?epoch"
      "validateEventData env ''cancel.ownership-acquired'' (ownership_data st p ?epoch)"
    using eventInputFrom_ok [OF made] by (simp_all add: od')
  from ev(6) have "CancelOwnershipAcquiredData (sv_datetime env) (ownership_data st p ?epoch)"
    by (simp add: validateEventData_def cancel_schemas_def ownership_data_def)
  then have "is_positive_int (JNum ?epoch)"
    by (simp add: CancelOwnershipAcquiredData_def ownership_data_def strict_object_def)
  then obtain r where r: "old = Fin r" using positive_int_finite [of ?epoch] by (cases old) auto
  then have plain: "json_clone (ownership_data st p ?epoch) = Some (ownership_data st p ?epoch)"
    by (intro plain_clone) (simp add: ownership_data_def)
  define e where "e = persist_one (op_featureId p) None st (gate d (op_featureId p)) 0 ev"
  have "rows_of d' (op_featureId p) = rows_of d (op_featureId p) @ [e]"
    using od(3) by (simp add: ev(1,2) persist_def e_def)
  moreover have "acquisition (Some (op_cancelId p)) e (Fin (r + 1)) \<and>
      readString e ''instanceId'' = Some (op_instanceId p)"
    using plain r
    by (simp add: acquisition_def e_def persist_one_def ev(4,5) stored_data_def foreign_def readString_def
        data_get_def ownership_data_def)
  ultimately show ?thesis using od(2,4) ev(3) r by (auto simp: ev(1))
qed

lemma acquire_epoch:
  assumes "db_inv d" "lookupOperationClaim d (op_operationId p) = None"
    and "acquireCancelOwnership env busy st p d d = (Inr v, d')"
  shows "\<exists>r. v = JObj [(''epoch'', JNum (Fin (r + 1)))] \<and>
    sg_currentEpoch (queryCancelSaga d (op_featureId p) (Some (op_cancelId p))) = Fin r \<and>
    sg_currentEpoch (queryCancelSaga d' (op_featureId p) (Some (op_cancelId p))) = Fin (r + 1) \<and>
    sg_owner (queryCancelSaga d' (op_featureId p) (Some (op_cancelId p))) = Some (op_instanceId p) \<and> db_inv d'"
proof -
  from acquire_commit [OF assms] obtain r e where
    e: "sa_epoch (saga_acc_of (Some (op_cancelId p)) (rows_of d (op_featureId p))) = Fin r"
      "v = JObj [(''epoch'', JNum (Fin (r + 1)))]"
      "rows_of d' (op_featureId p) = rows_of d (op_featureId p) @ [e]" "db_inv d'"
      "acquisition (Some (op_cancelId p)) e (Fin (r + 1))"
      "readString e ''instanceId'' = Some (op_instanceId p)" by blast
  then show ?thesis
    by (auto simp: queryCancelSaga_def foldCancelSaga_def Let_def saga_step_def acquire_step_def acquisition_def)
qed


lemma query_epoch_monotone:
  assumes "extends d d'" "num_less w (sg_currentEpoch (queryCancelSaga d s c))"
  shows "num_less w (sg_currentEpoch (queryCancelSaga d' s c))"
proof -
  from assms(1) obtain es where "rows_of d' s = rows_of d s @ es" unfolding extends_def by blast
  then show ?thesis using assms(2) epoch_monotone by (simp add: queryCancelSaga_def)
qed


text \<open>
  Every acquisition of a cancellation gets an epoch above all epochs that the log holds for it, and
  becomes the current owner of the saga; two acquisitions, however the log grew between them, never
  share an epoch.
\<close>

theorem epochs_strictly_increase:
  assumes inv: "db_inv d" and fresh: "lookupOperationClaim d (op_operationId p) = None"
    and acquired: "acquireCancelOwnership env busy st p d d = (Inr v, d1)" "opt_get v ''epoch'' = JNum epoch"
    and later: "cancel_reach env d1 d2" and again: "lookupOperationClaim d2 (op_operationId p') = None"
      "op_featureId p' = op_featureId p" "op_cancelId p' = op_cancelId p"
      "acquireCancelOwnership env busy' st' p' d2 d2 = (Inr v', d3)" "opt_get v' ''epoch'' = JNum epoch'"
  shows "num_less epoch epoch' \<and>
    sg_owner (queryCancelSaga d3 (op_featureId p) (Some (op_cancelId p))) = Some (op_instanceId p') \<and>
    (\<forall>e \<in> set (rows_of d2 (op_featureId p)). \<forall>n. acquisition (Some (op_cancelId p)) e n \<longrightarrow>
       n = NaN \<or> num_less n epoch')"
proof -
  from acquire_epoch [OF inv fresh acquired(1)] acquired(2) obtain r where
    one: "epoch = Fin (r + 1)" "sg_currentEpoch (queryCancelSaga d1 (op_featureId p) (Some (op_cancelId p))) = Fin (r + 1)"
      "db_inv d1" by auto
  note ext = reach_extends [OF later one(3)]
  then have "db_inv d2" by (simp add: extends_def)
  from acquire_epoch [OF this again(1,4)] again(2,3,5) obtain s where
    two: "epoch' = Fin (s + 1)"
      "sa_epoch (saga_acc_of (Some (op_cancelId p)) (rows_of d2 (op_featureId p))) = Fin s"
      "sg_owner (queryCancelSaga d3 (op_featureId p) (Some (op_cancelId p))) = Some (op_instanceId p')"
    by (auto simp: queryCancelSaga_def saga_epoch)
  have "\<not> num_less (Fin s) (Fin (r + 1))"
  proof
    assume "num_less (Fin s) (Fin (r + 1))"
    then have "num_less (Fin s) (sg_currentEpoch (queryCancelSaga d2 (op_featureId p) (Some (op_cancelId p))))"
      using one(2) by (intro query_epoch_monotone [OF ext]) (simp only: one(2))
    then show False using two(2) by (simp add: queryCancelSaga_def saga_epoch)
  qed
  moreover have "n = NaN \<or> num_less n (Fin (s + 1))"
    if "e \<in> set (rows_of d2 (op_featureId p))" "acquisition (Some (op_cancelId p)) e n" for e n
    using epoch_above [OF that(2,1)] two(2) by (cases n) auto
  ultimately show ?thesis using one(1) two(1,3) by auto
qed

section \<open>Completed compensations and readiness\<close>

text \<open>
  A completed compensation is never issued again: once the log of a cancellation holds the durable
  success of an action, every later fold of the log, whoever wrote to it, plans nothing more for that
  action.
\<close>

theorem completed_compensation_is_final:
  assumes "db_inv d" "isCompensationSatisfied (queryCancelSaga d s c) a" "cancel_reach env d d'" "1 \<le> maxAttempts"
  shows "decideCompensationAction (queryCancelSaga d' s c) a maxAttempts = Inr SatisfiedPlan"
proof -
  from reach_extends [OF assms(3,1)] obtain es where "rows_of d' s = rows_of d s @ es"
    unfolding extends_def by blast
  then have "isCompensationSatisfied (queryCancelSaga d' s c) a"
    using assms(2) completed_monotone by (simp add: queryCancelSaga_def)
  then show ?thesis using assms(4) by (simp add: decideCompensationAction_def isCompensationSatisfied_def)
qed

lemma outcome_of_action:
  assumes "map_of (sg_actions (foldCancelSaga es c)) a = Some x" "as_completedSequence x = Some n"
  shows "\<exists>e \<in> set (concerns c a ''cancel.compensation-completed'' es). we_sequence e = n"
proof -
  have "x = materialise a (action_counts c a es)"
    using assms(1) fold_counts [of es c a] by (simp add: actionOrPending_def)
  then show ?thesis
    using assms(2) by (auto simp: materialise_def action_counts_def Let_def last_of_def split: if_splits intro: last_in_set)
qed

definition backs :: "string option \<Rightarrow> wf_event list \<Rightarrow> string \<Rightarrow> nat \<Rightarrow> bool" where
  "backs c es a n \<longleftrightarrow> 0 < n \<and> (\<exists>e \<in> set (concerns c a ''cancel.compensation-completed'' es). we_sequence e = n)"

lemma outcome_sequences_backed:
  "outcome_sequences (foldCancelSaga es c) required = Inr ns \<Longrightarrow> list_all2 (backs c es) required ns"
proof (induction required arbitrary: ns)
  case (Cons a required)
  then obtain x n ms where "map_of (sg_actions (foldCancelSaga es c)) a = Some x" "as_completedSequence x = Some n"
    "0 < n" "outcome_sequences (foldCancelSaga es c) required = Inr ms" "ns = n # ms"
    by (auto split: option.splits if_splits sum.splits bind_splits)
  then show ?case using Cons.IH outcome_of_action by (auto simp: backs_def)
qed simp

text \<open>
  A readiness proof is backed. When the proof is built, every required action has a durable success in
  the log of this cancellation, the proof lists the required actions in their order, and beside each the
  positive sequence number of that event.
\<close>

theorem readiness_is_backed:
  assumes "buildCancelReadiness env st (queryCancelSaga d s c) required p = Inr data"
  shows "(\<forall>a \<in> set required. isCompensationSatisfied (queryCancelSaga d s c) a) \<and>
    opt_get data ''completedActionIds'' = str_list required \<and>
    (\<exists>ns. opt_get data ''outcomeSequences'' = nat_list ns \<and> list_all2 (backs c (rows_of d s)) required ns)"
proof -
  let ?saga = "foldCancelSaga (rows_of d s) c"
  have ready: "planCancelCompletion ?saga required = ReadyPlan required"
    using assms by (auto simp: buildCancelReadiness_def queryCancelSaga_def planCancelCompletion_def Let_def split: if_splits)
  then obtain ns where "outcome_sequences ?saga required = Inr ns" "data = readiness_data env st p required ns"
    using assms by (auto simp: buildCancelReadiness_def queryCancelSaga_def Let_def split: sum.splits if_splits)
  moreover have "\<forall>a \<in> set required. isCompensationSatisfied ?saga a"
    using ready by (auto simp: planCancelCompletion_def isCompensationSatisfied_def Let_def filter_empty_conv split: if_splits)
  ultimately show ?thesis
    using outcome_sequences_backed by (auto simp: queryCancelSaga_def readiness_data_def)
qed

section \<open>A takeover\<close>

definition saga_sample_env :: saga_env where
  "saga_sample_env =
     \<lparr>sv_sha = (\<lambda>_. replicate 64 (CHR ''0'')), sv_datetime = (\<lambda>_. True), sv_schemas = (\<lambda>_. None)\<rparr>"

definition sample_owner :: "string \<Rightarrow> ownership_params" where
  "sample_owner i = \<lparr>op_featureId = ''f'', op_cancelId = ''cancel:a'', op_phaseAttemptId = ''a'',
     op_instanceId = i, op_operationId = ''own:'' @ i\<rparr>"

definition after_acquire :: "string \<Rightarrow> db \<Rightarrow> db" where
  "after_acquire i d = snd (acquireCancelOwnership saga_sample_env [] some_stamps (sample_owner i) d d)"

definition first_owned :: db where
  "first_owned = after_acquire ''one'' empty_db"

definition taken_over :: db where
  "taken_over = after_acquire ''two'' first_owned"

lemma takeover_runs:
  "acquireCancelOwnership saga_sample_env [] some_stamps (sample_owner ''one'') empty_db empty_db =
     (Inr (JObj [(''epoch'', JNum (Fin 1))]), first_owned)"
  "acquireCancelOwnership saga_sample_env [] some_stamps (sample_owner ''two'') first_owned first_owned =
     (Inr (JObj [(''epoch'', JNum (Fin 2))]), taken_over)"
proof -
  have "fst (acquireCancelOwnership saga_sample_env [] some_stamps (sample_owner ''one'') empty_db empty_db) =
      Inr (JObj [(''epoch'', JNum (Fin 1))])"
    "fst (acquireCancelOwnership saga_sample_env [] some_stamps (sample_owner ''two'') first_owned first_owned) =
      Inr (JObj [(''epoch'', JNum (Fin 2))])"
    by code_simp+
  then show "acquireCancelOwnership saga_sample_env [] some_stamps (sample_owner ''one'') empty_db empty_db =
     (Inr (JObj [(''epoch'', JNum (Fin 1))]), first_owned)"
    "acquireCancelOwnership saga_sample_env [] some_stamps (sample_owner ''two'') first_owned first_owned =
     (Inr (JObj [(''epoch'', JNum (Fin 2))]), taken_over)"
    unfolding first_owned_def taken_over_def after_acquire_def by (metis prod.collapse)+
qed

lemma takeover_free:
  "lookupOperationClaim empty_db (op_operationId (sample_owner ''one'')) = None"
  "lookupOperationClaim first_owned (op_operationId (sample_owner ''two'')) = None"
  "lookupOperationClaim taken_over ''write'' = None"
  by code_simp+

lemma first_owned_inv: "db_inv first_owned"
  using acquire_epoch [OF empty_db_inv takeover_free(1) takeover_runs(1)] by blast



lemma epochs_strictly_increase_witness:
  "num_less (Fin 1) (Fin 2) \<and>
   sg_owner (queryCancelSaga taken_over ''f'' (Some ''cancel:a'')) = Some ''two'' \<and>
   (\<forall>e \<in> set (rows_of first_owned ''f''). \<forall>n. acquisition (Some ''cancel:a'') e n \<longrightarrow> n = NaN \<or> num_less n (Fin 2))"
proof -
  have same: "op_featureId (sample_owner ''two'') = op_featureId (sample_owner ''one'')"
    "op_cancelId (sample_owner ''two'') = op_cancelId (sample_owner ''one'')" by (simp_all add: sample_owner_def)
  have "opt_get (JObj [(''epoch'', JNum (Fin n))]) ''epoch'' = JNum (Fin n)" for n by simp
  from epochs_strictly_increase [OF empty_db_inv takeover_free(1) takeover_runs(1) this cancel_reach.Here
      takeover_free(2) same takeover_runs(2) this]
  show ?thesis by (simp add: sample_owner_def)
qed

text \<open>
  The epochs are counted per cancellation: the first owner of the next cancellation on the same stream
  starts again at one, although an earlier acquisition of the stream has the epoch two.
\<close>

lemma epoch_restarts_per_cancellation:
  "fst (acquireCancelOwnership saga_sample_env [] some_stamps
     ((sample_owner ''three'')\<lparr>op_cancelId := ''cancel:b''\<rparr>) taken_over taken_over) =
   Inr (JObj [(''epoch'', JNum (Fin 1))])"
  by code_simp

section \<open>A finished compensation\<close>

definition close_done :: fenced_params where
  "close_done = \<lparr>fp_featureId = ''f'', fp_cancelId = ''cancel:a'', fp_writerEpoch = Fin 2,
     fp_type = ''cancel.compensation-completed'',
     fp_data = JObj [(''eventVersion'', JStr ''1.0''), (''cancelId'', JStr ''cancel:a''), (''featureId'', JStr ''f''),
       (''phaseAttemptId'', JStr ''a''), (''actionId'', JStr ''close''), (''status'', JStr ''executed''),
       (''message'', JStr ''ok''), (''completedAt'', JStr ''now'')],
     fp_idempotencyKey = ''k'', fp_operationId = ''write''\<rparr>"

definition compensated :: db where
  "compensated = snd (appendFencedCancelEvent saga_sample_env [] some_stamps close_done taken_over taken_over)"

lemma compensated_satisfied: "isCompensationSatisfied (queryCancelSaga compensated ''f'' (Some ''cancel:a'')) ''close''"
  by code_simp

lemma compensated_inv: "db_inv compensated"
proof -
  have "db_inv taken_over" using acquire_epoch [OF first_owned_inv takeover_free(2) takeover_runs(2)] by blast
  then show ?thesis
    using writer_extends unfolding compensated_def appendFencedCancelEvent_def extends_def by (metis prod.collapse)
qed

lemma completed_compensation_is_final_witness:
  "decideCompensationAction (queryCancelSaga compensated ''f'' (Some ''cancel:a'')) ''close'' 3 = Inr SatisfiedPlan"
  by (rule completed_compensation_is_final [OF compensated_inv compensated_satisfied cancel_reach.Here]) simp

definition sample_readiness :: readiness_params where
  "sample_readiness = \<lparr>rq_featureId = ''f'', rq_cancelId = ''cancel:a'', rq_phaseAttemptId = ''a'',
     rq_evidenceId = ''e'', rq_caller = JObj [(''principalKind'', JStr ''operator''), (''principalId'', JStr ''p''),
       (''role'', JStr ''operator'')], rq_authorization = None, rq_readyAt = Some ''now''\<rparr>"

lemma readiness_is_backed_witness:
  "\<exists>data. buildCancelReadiness saga_sample_env some_stamps (queryCancelSaga compensated ''f'' (Some ''cancel:a''))
      [''close''] sample_readiness = Inr data \<and>
   (\<exists>ns. opt_get data ''outcomeSequences'' = nat_list ns \<and>
     list_all2 (backs (Some ''cancel:a'') (rows_of compensated ''f'')) [''close''] ns)"
proof -
  have "is_ok (buildCancelReadiness saga_sample_env some_stamps
      (queryCancelSaga compensated ''f'' (Some ''cancel:a'')) [''close''] sample_readiness)"
    by code_simp
  then obtain data where data: "buildCancelReadiness saga_sample_env some_stamps
      (queryCancelSaga compensated ''f'' (Some ''cancel:a'')) [''close''] sample_readiness = Inr data"
    by (auto simp: is_ok_def split: sum.splits)
  then show ?thesis using readiness_is_backed [OF data] by blast
qed

end
