(* ===== verification/Worktrees.thy ===== *)
theory Worktrees
  imports Task_Projections
begin

text \<open>
  The governed worktrees: the \<open>worktrees@v1\<close> reducer (\<open>src/verbs/worktree/projections/worktrees.ts\<close>),
  which folds the singleton \<open>worktrees\<close> stream into the entries, the merges and the prunes in flight, and
  the canonical key of a worktree (\<open>src/verbs/worktree/pure/path-containment.ts\<close>). The absolute form of
  a path and its resolution through symbolic links belong to the file system and are arguments.
  The maps of the source are JavaScript objects; ids that every object inherits, such as \<open>constructor\<close>, are
  not modelled: the keys here are absolute paths, branch names and generated ids.
\<close>

section \<open>Canonical keys\<close>

definition toPosix :: "string \<Rightarrow> string" where
  "toPosix p = map (\<lambda>c. if c = CHR 0x5C then CHR ''/'' else c) p"

definition canonicalWorktreeId :: "(string \<Rightarrow> string) \<Rightarrow> string \<Rightarrow> string" where
  "canonicalWorktreeId resolve p = toPosix (resolve p)"

section \<open>The projected state\<close>

datatype worktree_state = Adopted | Reserved | Released | Orphan

record launch_in_flight =
  lf_holderPid :: "rat option"
  lf_holderStartedAt :: "string option"

record worktree_entry =
  wt_worktreeId :: string
  wt_path :: string
  wt_featureId :: "string option"
  wt_state :: worktree_state
  wt_ownerPid :: "rat option"
  wt_ownerStartedAt :: "string option"
  wt_launch :: "launch_in_flight option"

record merge_in_flight =
  mf_integrationRef :: string
  mf_operationId :: string
  mf_sourceBranch :: string
  mf_holderPid :: "rat option"
  mf_holderStartedAt :: "string option"
  mf_worktreeId :: "string option"

record prune_in_flight =
  pf_operationId :: string
  pf_repoRoot :: string
  pf_holderPid :: "rat option"
  pf_holderStartedAt :: "string option"

record worktrees_projection =
  wp_sequence :: nat
  wp_worktrees :: "(string \<times> worktree_entry) list"
  wp_merges :: "(string \<times> merge_in_flight) list"
  wp_prunes :: "(string \<times> prune_in_flight) list"

definition initialWorktreesProjection :: worktrees_projection where
  "initialWorktreesProjection = \<lparr>wp_sequence = 0, wp_worktrees = [], wp_merges = [], wp_prunes = []\<rparr>"

definition bumped :: "worktrees_projection \<Rightarrow> worktrees_projection" where
  "bumped s = s\<lparr>wp_sequence := wp_sequence s + 1\<rparr>"

section \<open>The handlers\<close>

definition upsertLifecycle :: "worktree_state \<Rightarrow> js \<Rightarrow> worktrees_projection \<Rightarrow> worktrees_projection" where
  "upsertLifecycle next_state d s =
     (case extractString d ''worktreeId'' of
        None \<Rightarrow> s
      | Some i \<Rightarrow>
          (let reserved = next_state = Reserved;
               entry = \<lparr>wt_worktreeId = i,
                  wt_path = (case extractString d ''path'' of None \<Rightarrow> i | Some p \<Rightarrow> p),
                  wt_featureId = extractString d ''featureId'', wt_state = next_state,
                  wt_ownerPid = (if reserved then extractNumber d ''ownerPid'' else None),
                  wt_ownerStartedAt = (if reserved then extractString d ''ownerStartedAt'' else None),
                  wt_launch = Option.bind (map_of (wp_worktrees s) i) wt_launch\<rparr>
           in bumped (s\<lparr>wp_worktrees := AList.update i entry (wp_worktrees s)\<rparr>)))"

definition removed_id :: "(string \<Rightarrow> string) \<Rightarrow> js \<Rightarrow> string option" where
  "removed_id resolve d =
     (case extractString d ''worktreeId'' of
        Some i \<Rightarrow> Some i
      | None \<Rightarrow> map_option (canonicalWorktreeId resolve) (extractString d ''worktreePath''))"

definition dropRemoved :: "(string \<Rightarrow> string) \<Rightarrow> js \<Rightarrow> worktrees_projection \<Rightarrow> worktrees_projection" where
  "dropRemoved resolve d s =
     (case removed_id resolve d of
        None \<Rightarrow> s
      | Some i \<Rightarrow>
          (if map_of (wp_worktrees s) i = None then s
           else bumped (s\<lparr>wp_worktrees := filter (\<lambda>kv. fst kv \<noteq> i) (wp_worktrees s)\<rparr>)))"

definition upsertInFlightMerge :: "js \<Rightarrow> worktrees_projection \<Rightarrow> worktrees_projection" where
  "upsertInFlightMerge d s =
     (case (extractString d ''integrationRef'', extractString d ''operationId'', extractString d ''sourceBranch'') of
        (Some r, Some i, Some b) \<Rightarrow>
          (let claim = \<lparr>mf_integrationRef = r, mf_operationId = i, mf_sourceBranch = b,
                  mf_holderPid = extractNumber d ''holderPid'',
                  mf_holderStartedAt = extractString d ''holderStartedAt'',
                  mf_worktreeId = extractString d ''worktreeId''\<rparr>
           in bumped (s\<lparr>wp_merges := AList.update r claim (wp_merges s)\<rparr>))
      | _ \<Rightarrow> s)"

definition clearInFlightMerge :: "js \<Rightarrow> worktrees_projection \<Rightarrow> worktrees_projection" where
  "clearInFlightMerge d s =
     (case (extractString d ''integrationRef'', extractString d ''operationId'') of
        (Some r, Some i) \<Rightarrow>
          (case map_of (wp_merges s) r of
             None \<Rightarrow> s
           | Some claim \<Rightarrow>
               if mf_operationId claim \<noteq> i then s
               else bumped (s\<lparr>wp_merges := filter (\<lambda>kv. fst kv \<noteq> r) (wp_merges s)\<rparr>))
      | _ \<Rightarrow> s)"

definition markLaunchInFlight :: "js \<Rightarrow> worktrees_projection \<Rightarrow> worktrees_projection" where
  "markLaunchInFlight d s =
     (case Option.bind (extractString d ''worktreeId'') (map_of (wp_worktrees s)) of
        None \<Rightarrow> s
      | Some e \<Rightarrow>
          (let launch = \<lparr>lf_holderPid = extractNumber d ''holderPid'',
                  lf_holderStartedAt = extractString d ''holderStartedAt''\<rparr>;
               i = (case extractString d ''worktreeId'' of None \<Rightarrow> '''' | Some i \<Rightarrow> i)
           in bumped (s\<lparr>wp_worktrees := AList.update i (e\<lparr>wt_launch := Some launch\<rparr>) (wp_worktrees s)\<rparr>)))"

definition clearLaunchInFlight :: "js \<Rightarrow> worktrees_projection \<Rightarrow> worktrees_projection" where
  "clearLaunchInFlight d s =
     (case extractString d ''worktreeId'' of
        None \<Rightarrow> s
      | Some i \<Rightarrow>
          (case map_of (wp_worktrees s) i of
             None \<Rightarrow> s
           | Some e \<Rightarrow>
               if wt_launch e = None then s
               else bumped (s\<lparr>wp_worktrees := AList.update i (e\<lparr>wt_launch := None\<rparr>) (wp_worktrees s)\<rparr>)))"

definition markInFlightPrune :: "js \<Rightarrow> worktrees_projection \<Rightarrow> worktrees_projection" where
  "markInFlightPrune d s =
     (case (extractString d ''operationId'', extractString d ''repoRoot'') of
        (Some i, Some repo) \<Rightarrow>
          (let pass = \<lparr>pf_operationId = i, pf_repoRoot = repo,
                  pf_holderPid = extractNumber d ''holderPid'',
                  pf_holderStartedAt = extractString d ''holderStartedAt''\<rparr>
           in bumped (s\<lparr>wp_prunes := AList.update i pass (wp_prunes s)\<rparr>))
      | _ \<Rightarrow> s)"

definition clearInFlightPrune :: "js \<Rightarrow> worktrees_projection \<Rightarrow> worktrees_projection" where
  "clearInFlightPrune d s =
     (case extractString d ''operationId'' of
        None \<Rightarrow> s
      | Some i \<Rightarrow>
          (if map_of (wp_prunes s) i = None then s
           else bumped (s\<lparr>wp_prunes := filter (\<lambda>kv. fst kv \<noteq> i) (wp_prunes s)\<rparr>)))"

definition worktree_handlers ::
    "(string \<Rightarrow> string) \<Rightarrow> (string \<times> (js \<Rightarrow> worktrees_projection \<Rightarrow> worktrees_projection)) list" where
  "worktree_handlers resolve =
     [(''worktree.adopted'', upsertLifecycle Adopted),
      (''worktree.reserved'', upsertLifecycle Reserved),
      (''worktree.released'', upsertLifecycle Released),
      (''worktree.orphan_detected'', upsertLifecycle Orphan),
      (''worktree.remove.executed'', dropRemoved resolve),
      (''worktree.merge_requested'', upsertInFlightMerge),
      (''worktree.merge_executed'', clearInFlightMerge),
      (''launch.executing_started'', markLaunchInFlight),
      (''launch.executed'', clearLaunchInFlight),
      (''prune.executing_started'', markInFlightPrune),
      (''prune.executed'', clearInFlightPrune)]"

definition apply_worktrees ::
    "(string \<Rightarrow> string) \<Rightarrow> worktrees_projection \<Rightarrow> wf_event \<Rightarrow> worktrees_projection" where
  "apply_worktrees resolve s e =
     (case map_of (worktree_handlers resolve) (we_type e) of
        None \<Rightarrow> s | Some h \<Rightarrow> h (we_data e) s)"

definition fold_worktrees :: "(string \<Rightarrow> string) \<Rightarrow> wf_event list \<Rightarrow> worktrees_projection" where
  "fold_worktrees resolve es = foldl (apply_worktrees resolve) initialWorktreesProjection es"

end
