(* ===== verification/Worktree_Laws.thy ===== *)
theory Worktree_Laws
  imports Worktrees
begin

text \<open>
  What the worktrees projection promises: every entry is the fold of the events of its own worktree, an
  owner is shown only while the worktree is reserved, a claim on an integration branch is cleared only by
  the release of its own operation, and the projection sequence counts the changes.
\<close>

section \<open>The life of one entry\<close>

text \<open>The abstract machine of one worktree: what an event makes of its entry.\<close>

definition lifecycle_types :: "(string \<times> worktree_state) list" where
  "lifecycle_types =
     [(''worktree.adopted'', Adopted), (''worktree.reserved'', Reserved),
      (''worktree.released'', Released), (''worktree.orphan_detected'', Orphan)]"

definition observed :: "worktree_state \<Rightarrow> string \<Rightarrow> js \<Rightarrow> worktree_entry option \<Rightarrow> worktree_entry" where
  "observed st i d old =
     \<lparr>wt_worktreeId = i, wt_path = (case extractString d ''path'' of None \<Rightarrow> i | Some p \<Rightarrow> p),
      wt_featureId = extractString d ''featureId'', wt_state = st,
      wt_ownerPid = (if st = Reserved then extractNumber d ''ownerPid'' else None),
      wt_ownerStartedAt = (if st = Reserved then extractString d ''ownerStartedAt'' else None),
      wt_launch = Option.bind old wt_launch\<rparr>"

definition launched :: "js \<Rightarrow> launch_in_flight" where
  "launched d = \<lparr>lf_holderPid = extractNumber d ''holderPid'', lf_holderStartedAt = extractString d ''holderStartedAt''\<rparr>"

definition event_subject :: "(string \<Rightarrow> string) \<Rightarrow> wf_event \<Rightarrow> string option" where
  "event_subject resolve e =
     (if we_type e = ''worktree.remove.executed'' then removed_id resolve (we_data e)
      else if we_type e \<in> set (map fst lifecycle_types @ [''launch.executing_started'', ''launch.executed''])
      then extractString (we_data e) ''worktreeId''
      else None)"

definition entry_step :: "string \<Rightarrow> wf_event \<Rightarrow> worktree_entry option \<Rightarrow> worktree_entry option" where
  "entry_step i e old =
     (case map_of lifecycle_types (we_type e) of
        Some st \<Rightarrow> Some (observed st i (we_data e) old)
      | None \<Rightarrow>
          if we_type e = ''worktree.remove.executed'' then None
          else if we_type e = ''launch.executing_started''
          then map_option (\<lambda>x. x\<lparr>wt_launch := Some (launched (we_data e))\<rparr>) old
          else map_option (\<lambda>x. x\<lparr>wt_launch := None\<rparr>) old)"

lemma map_of_filter_key: "map_of (filter (\<lambda>kv. fst kv \<noteq> i) xs) k = (if k = i then None else map_of xs k)"
  by (induction xs) auto

lemma bumped_simps [simp]:
  "wp_worktrees (bumped s) = wp_worktrees s" "wp_merges (bumped s) = wp_merges s"
  "wp_prunes (bumped s) = wp_prunes s" "wp_sequence (bumped s) = Suc (wp_sequence s)"
  by (simp_all add: bumped_def)

lemma lifecycle_entry:
  "map_of (wp_worktrees (upsertLifecycle st d s)) i =
   (if extractString d ''worktreeId'' = Some i then Some (observed st i d (map_of (wp_worktrees s) i))
    else map_of (wp_worktrees s) i)"
  by (auto simp: upsertLifecycle_def Let_def observed_def update_conv' split: option.split)

lemma removed_entry:
  "map_of (wp_worktrees (dropRemoved resolve d s)) i =
   (if removed_id resolve d = Some i then None else map_of (wp_worktrees s) i)"
  by (auto simp: dropRemoved_def map_of_filter_key split: option.split)

lemma marked_entry:
  "map_of (wp_worktrees (markLaunchInFlight d s)) i =
   (if extractString d ''worktreeId'' = Some i
    then map_option (\<lambda>x. x\<lparr>wt_launch := Some (launched d)\<rparr>) (map_of (wp_worktrees s) i)
    else map_of (wp_worktrees s) i)"
  by (auto simp: markLaunchInFlight_def Let_def launched_def update_conv' split: option.split bind_splits)

lemma cleared_entry:
  "map_of (wp_worktrees (clearLaunchInFlight d s)) i =
   (if extractString d ''worktreeId'' = Some i
    then map_option (\<lambda>x. x\<lparr>wt_launch := None\<rparr>) (map_of (wp_worktrees s) i)
    else map_of (wp_worktrees s) i)"
  by (auto simp: clearLaunchInFlight_def update_conv' split: option.split)

lemma claims_spare_entries:
  "wp_worktrees (upsertInFlightMerge d s) = wp_worktrees s" "wp_worktrees (clearInFlightMerge d s) = wp_worktrees s"
  "wp_worktrees (markInFlightPrune d s) = wp_worktrees s" "wp_worktrees (clearInFlightPrune d s) = wp_worktrees s"
  by (auto simp: upsertInFlightMerge_def clearInFlightMerge_def markInFlightPrune_def clearInFlightPrune_def Let_def
      split: option.split)

lemma apply_entry:
  "map_of (wp_worktrees (apply_worktrees resolve s e)) i =
   (if event_subject resolve e = Some i then entry_step i e (map_of (wp_worktrees s) i)
    else map_of (wp_worktrees s) i)"
proof -
  consider st where "(we_type e, st) \<in> set lifecycle_types" | "we_type e = ''worktree.remove.executed''"
    | "we_type e = ''launch.executing_started''" | "we_type e = ''launch.executed''"
    | "we_type e \<in> {''worktree.merge_requested'', ''worktree.merge_executed'', ''prune.executing_started'', ''prune.executed''}"
    | "map_of (worktree_handlers resolve) (we_type e) = None" "event_subject resolve e = None"
    by (fastforce simp: worktree_handlers_def lifecycle_types_def event_subject_def split: if_splits)
  then show ?thesis
  proof cases
    case (1 st)
    then have "map_of (worktree_handlers resolve) (we_type e) = Some (upsertLifecycle st)"
      "map_of lifecycle_types (we_type e) = Some st" "event_subject resolve e = extractString (we_data e) ''worktreeId''"
      by (auto simp: worktree_handlers_def lifecycle_types_def event_subject_def)
    then show ?thesis by (simp add: apply_worktrees_def entry_step_def lifecycle_entry)
  next
    case 5
    then show ?thesis
      by (auto simp: apply_worktrees_def worktree_handlers_def event_subject_def lifecycle_types_def claims_spare_entries)
  qed (simp_all add: apply_worktrees_def worktree_handlers_def event_subject_def entry_step_def lifecycle_types_def
      removed_entry marked_entry cleared_entry)
qed

lemma entries_fold:
  "map_of (wp_worktrees (foldl (apply_worktrees resolve) s es)) i =
   fold (entry_step i) (filter (\<lambda>e. event_subject resolve e = Some i) es) (map_of (wp_worktrees s) i)"
  by (induction es arbitrary: s) (simp_all add: apply_entry)

text \<open>
  The entry of a worktree is the run of a small machine over the events of that worktree alone, in
  their order: events of other worktrees, merges and prunes have no influence on it, and the projection
  shows no entry for a worktree whose last lifecycle event is its removal.
\<close>

theorem worktree_entries_are_independent:
  "map_of (wp_worktrees (fold_worktrees resolve es)) i =
   fold (entry_step i) (filter (\<lambda>e. event_subject resolve e = Some i) es) None"
  by (simp add: fold_worktrees_def entries_fold initialWorktreesProjection_def)

section \<open>Owners\<close>

definition entry_ok :: "string \<Rightarrow> worktree_entry \<Rightarrow> bool" where
  "entry_ok i w \<longleftrightarrow> wt_worktreeId w = i \<and>
     (wt_state w \<noteq> Reserved \<longrightarrow> wt_ownerPid w = None \<and> wt_ownerStartedAt w = None)"

lemma entry_step_ok: "pred_option (entry_ok i) old \<Longrightarrow> pred_option (entry_ok i) (entry_step i e old)"
  by (cases old) (auto simp: entry_step_def entry_ok_def observed_def split: option.split)

text \<open>
  The projection keeps its types: every entry stands under its own worktree identifier, and it names an
  owner process only while the worktree is reserved, whatever the events claim.
\<close>

theorem owners_only_while_reserved:
  "pred_option (entry_ok i) (map_of (wp_worktrees (fold_worktrees resolve es)) i)"
proof -
  have "pred_option (entry_ok i) old \<Longrightarrow> pred_option (entry_ok i) (fold (entry_step i) es old)" for es old
    by (induction es arbitrary: old) (simp_all add: entry_step_ok)
  then show ?thesis by (simp add: fold_worktrees_def entries_fold initialWorktreesProjection_def)
qed

section \<open>Claims on integration branches\<close>

definition merge_request :: "string \<Rightarrow> wf_event \<Rightarrow> merge_in_flight option" where
  "merge_request r e =
     (if we_type e = ''worktree.merge_requested'' \<and> extractString (we_data e) ''integrationRef'' = Some r
      then (case (extractString (we_data e) ''operationId'', extractString (we_data e) ''sourceBranch'') of
              (Some i, Some b) \<Rightarrow> Some
                \<lparr>mf_integrationRef = r, mf_operationId = i, mf_sourceBranch = b,
                 mf_holderPid = extractNumber (we_data e) ''holderPid'',
                 mf_holderStartedAt = extractString (we_data e) ''holderStartedAt'',
                 mf_worktreeId = extractString (we_data e) ''worktreeId''\<rparr>
            | _ \<Rightarrow> None)
      else None)"

definition releases :: "string \<Rightarrow> string \<Rightarrow> wf_event \<Rightarrow> bool" where
  "releases r i e \<longleftrightarrow> we_type e = ''worktree.merge_executed'' \<and>
     extractString (we_data e) ''integrationRef'' = Some r \<and> extractString (we_data e) ''operationId'' = Some i"

lemma other_handlers_spare_merges:
  "wp_merges (upsertLifecycle st d s) = wp_merges s" "wp_merges (dropRemoved resolve d s) = wp_merges s"
  "wp_merges (markLaunchInFlight d s) = wp_merges s" "wp_merges (clearLaunchInFlight d s) = wp_merges s"
  "wp_merges (markInFlightPrune d s) = wp_merges s" "wp_merges (clearInFlightPrune d s) = wp_merges s"
  by (auto simp: upsertLifecycle_def dropRemoved_def markLaunchInFlight_def clearLaunchInFlight_def
      markInFlightPrune_def clearInFlightPrune_def Let_def split: option.split)

lemma apply_merge_claim:
  "map_of (wp_merges (apply_worktrees resolve s e)) r =
   (case merge_request r e of
      Some c \<Rightarrow> Some c
    | None \<Rightarrow> (case map_of (wp_merges s) r of
        None \<Rightarrow> None | Some c \<Rightarrow> if releases r (mf_operationId c) e then None else Some c))"
proof -
  consider "we_type e = ''worktree.merge_requested''" | "we_type e = ''worktree.merge_executed''"
    | "we_type e \<noteq> ''worktree.merge_requested''" "we_type e \<noteq> ''worktree.merge_executed''" by blast
  then show ?thesis
  proof cases
    case 1
    then show ?thesis
      by (auto simp: apply_worktrees_def worktree_handlers_def upsertInFlightMerge_def merge_request_def releases_def
          Let_def update_conv' split: option.split)
  next
    case 2
    then show ?thesis
      by (auto simp: apply_worktrees_def worktree_handlers_def clearInFlightMerge_def merge_request_def releases_def
          map_of_filter_key split: option.split)
  next
    case 3
    then have "wp_merges (apply_worktrees resolve s e) = wp_merges s"
      by (auto simp: apply_worktrees_def worktree_handlers_def other_handlers_spare_merges split: option.split)
    then show ?thesis using 3 by (simp add: merge_request_def releases_def split: option.split)
  qed
qed

text \<open>
  A claim on an integration branch is in flight exactly when some merge request for that branch made it,
  no later request took the branch over, and no later release names the claim's own operation; a stale
  release of an earlier operation never clears it.
\<close>

theorem merge_claim_in_flight_iff:
  "map_of (wp_merges (fold_worktrees resolve es)) r = Some c \<longleftrightarrow>
   (\<exists>before e later. es = before @ e # later \<and> merge_request r e = Some c \<and>
      list_all (\<lambda>x. merge_request r x = None \<and> \<not> releases r (mf_operationId c) x) later)"
  (is "?claim es \<longleftrightarrow> ?made es")
proof (induction es rule: rev_induct)
  case Nil
  then show ?case by (simp add: fold_worktrees_def initialWorktreesProjection_def)
next
  case (snoc x es)
  have step: "?claim (es @ [x]) \<longleftrightarrow> merge_request r x = Some c \<or>
      merge_request r x = None \<and> ?claim es \<and> \<not> releases r (mf_operationId c) x"
    by (auto simp: fold_worktrees_def apply_merge_claim split: option.splits)
  have "?made (es @ [x]) \<longleftrightarrow> merge_request r x = Some c \<or>
      merge_request r x = None \<and> ?made es \<and> \<not> releases r (mf_operationId c) x" (is "?new \<longleftrightarrow> ?old")
  proof
    assume ?new
    then obtain before e later where w: "es @ [x] = before @ e # later" "merge_request r e = Some c"
      "list_all (\<lambda>x. merge_request r x = None \<and> \<not> releases r (mf_operationId c) x) later" by blast
    then show ?old by (cases later rule: rev_cases) auto
  next
    assume ?old
    then show ?new
    proof
      assume "merge_request r x = Some c"
      then show ?new by (intro exI [of _ es] exI [of _ x] exI [of _ "[]"]) simp
    next
      assume old: "merge_request r x = None \<and> ?made es \<and> \<not> releases r (mf_operationId c) x"
      then obtain before e later where w: "es = before @ e # later" "merge_request r e = Some c"
        "list_all (\<lambda>x. merge_request r x = None \<and> \<not> releases r (mf_operationId c) x) later" by blast
      then show ?new using old by (intro exI [of _ before] exI [of _ e] exI [of _ "later @ [x]"]) simp
    qed
  qed
  then show ?case using step snoc.IH by simp
qed

section \<open>The sequence\<close>

lemma handler_counts:
  "map_of (worktree_handlers resolve) t = Some h \<Longrightarrow> h d s = s \<or> wp_sequence (h d s) = Suc (wp_sequence s)"
  by (auto simp: worktree_handlers_def upsertLifecycle_def dropRemoved_def upsertInFlightMerge_def
      clearInFlightMerge_def markLaunchInFlight_def clearLaunchInFlight_def markInFlightPrune_def
      clearInFlightPrune_def Let_def bumped_def split: option.split if_splits)

lemma apply_counts:
  "apply_worktrees resolve s e = s \<or> wp_sequence (apply_worktrees resolve s e) = Suc (wp_sequence s)"
  using handler_counts [of resolve "we_type e" _ "we_data e" s]
  by (simp add: apply_worktrees_def split: option.split)

lemma sequence_grows: "wp_sequence s \<le> wp_sequence (foldl (apply_worktrees resolve) s es)"
proof (induction es arbitrary: s)
  case (Cons e es)
  have "wp_sequence s \<le> wp_sequence (apply_worktrees resolve s e)"
    using apply_counts [of resolve s e] by auto
  then show ?case using Cons [of "apply_worktrees resolve s e"] by simp
qed simp

text \<open>A fold that kept its sequence changed nothing, so a snapshot with the same sequence is current.\<close>

lemma same_sequence_same_worktrees:
  "wp_sequence (foldl (apply_worktrees resolve) s es) = wp_sequence s \<Longrightarrow>
   foldl (apply_worktrees resolve) s es = s"
proof (induction es arbitrary: s)
  case (Cons e es)
  from apply_counts [of resolve s e] show ?case
  proof
    assume "apply_worktrees resolve s e = s"
    then show ?thesis using Cons by simp
  next
    assume "wp_sequence (apply_worktrees resolve s e) = Suc (wp_sequence s)"
    then show ?thesis using Cons.prems sequence_grows [of "apply_worktrees resolve s e" resolve es] by simp
  qed
qed simp

text \<open>Removals that carry their worktree identifier make the fold independent of the file system.\<close>

lemma rebuild_needs_no_file_system:
  "list_all (\<lambda>e. we_type e = ''worktree.remove.executed'' \<longrightarrow> extractString (we_data e) ''worktreeId'' \<noteq> None) es \<Longrightarrow>
   fold_worktrees resolve es = fold_worktrees resolve' es"
proof (induction es rule: rev_induct)
  case (snoc e es)
  then have "apply_worktrees resolve s e = apply_worktrees resolve' s e" for s
    by (auto simp: apply_worktrees_def worktree_handlers_def dropRemoved_def removed_id_def split: option.split)
  then show ?case using snoc by (simp add: fold_worktrees_def)
qed (simp add: fold_worktrees_def)

end
