(* ===== verification/Shell_Effects.thy ===== *)
theory Shell_Effects
  imports Worktrees Cancel_Saga
begin

text \<open>
  The effects under a compensation: commands of \<open>git\<close> and \<open>gh\<close> with the classification of their failures
  (\<open>src/workflow/compensation.ts\<close>), the bounded retry on lock contention
  (\<open>src/verbs/worktree/git-retry.ts\<close>), the retry of a store append (\<open>src/workflow/state-retry.ts\<close>) and the
  appends and reads of the store. What a command does, whether a path exists and what other processes
  commit before each call of the store are arguments; the state of the world is of any type.
\<close>

section \<open>Failures\<close>

record exec_error =
  xe_message :: string
  xe_killed :: bool
  xe_signalled :: bool
  xe_stderr :: string

datatype comp_exn =
    ExecFailure exec_error
  | IndexLockContentionError string nat "int list"
  | SagaFailure saga_error
  | StoreBusyFailure
  | OtherError string

text \<open>\<open>text.includes(part)\<close>.\<close>

fun text_includes :: "string \<Rightarrow> string \<Rightarrow> bool" where
  "text_includes part [] = (part = [])"
| "text_includes part (c # cs) = (take (length part) (c # cs) = part \<or> text_includes part cs)"

definition operational_signs :: "string list" where
  "operational_signs =
     [''not a git repository'', ''could not read from remote repository'', ''authentication failed'',
      ''permission denied'']"

definition isOperationalFailure :: "exec_error \<Rightarrow> bool" where
  "isOperationalFailure e \<longleftrightarrow> xe_killed e \<or> xe_signalled e \<or>
     list_ex (\<lambda>sign. text_includes sign (js_lower (xe_stderr e))) operational_signs"

section \<open>The machine\<close>

record store_call =
  sc_busy :: "bool list"
  sc_stamps :: stamps
  sc_others :: "db \<Rightarrow> db"

record 'w comp_env =
  ce_exec :: "string \<Rightarrow> js list \<Rightarrow> 'w \<Rightarrow> (exec_error + string) \<times> 'w"
  ce_git :: "string list \<Rightarrow> js \<Rightarrow> 'w \<Rightarrow> (int \<times> string) \<times> 'w"
  ce_exists :: "js \<Rightarrow> 'w \<Rightarrow> bool"
  ce_resolve :: "string \<Rightarrow> string"
  ce_uuid :: "nat \<Rightarrow> string"
  ce_calls :: "nat \<Rightarrow> store_call"
  ce_saga :: saga_env
  ce_jitter :: "nat \<Rightarrow> rat"
  ce_storeMessage :: "comp_exn \<Rightarrow> string"
  ce_typeError :: string

record 'w machine =
  mc_world :: 'w
  mc_db :: db
  mc_calls :: nat

type_synonym ('w, 'a) comp = "'w machine \<Rightarrow> (comp_exn + 'a) \<times> 'w machine"

definition give :: "'a \<Rightarrow> ('w, 'a) comp" where
  "give x m = (Inr x, m)"

definition throw :: "comp_exn \<Rightarrow> ('w, 'a) comp" where
  "throw e m = (Inl e, m)"

definition andThen :: "('w, 'a) comp \<Rightarrow> ('a \<Rightarrow> ('w, 'b) comp) \<Rightarrow> ('w, 'b) comp" where
  "andThen f g m = (case f m of (Inl e, m') \<Rightarrow> (Inl e, m') | (Inr x, m') \<Rightarrow> g x m')"

definition rescue :: "('w, 'a) comp \<Rightarrow> (comp_exn \<Rightarrow> ('w, 'a) comp) \<Rightarrow> ('w, 'a) comp" where
  "rescue f h m = (case f m of (Inl e, m') \<Rightarrow> h e m' | (Inr x, m') \<Rightarrow> (Inr x, m'))"

definition discard_result :: "('w, 'a) comp \<Rightarrow> ('w, unit) comp" where
  "discard_result f = andThen f (\<lambda>_. give ())"

definition errorMessage :: "'w comp_env \<Rightarrow> comp_exn \<Rightarrow> string" where
  "errorMessage env e =
     (case e of
        ExecFailure x \<Rightarrow> xe_message x
      | IndexLockContentionError p n _ \<Rightarrow>
          ''git index lock contention unresolved after '' @ nat_str n @ '' attempt(s): '' @ p
      | OtherError s \<Rightarrow> s
      | _ \<Rightarrow> ce_storeMessage env e)"

section \<open>Commands\<close>

definition execFile :: "'w comp_env \<Rightarrow> string \<Rightarrow> js list \<Rightarrow> ('w, string) comp" where
  "execFile env cmd args m =
     (case ce_exec env cmd args (mc_world m) of
        (Inl e, w) \<Rightarrow> (Inl (ExecFailure e), m\<lparr>mc_world := w\<rparr>)
      | (Inr out, w) \<Rightarrow> (Inr out, m\<lparr>mc_world := w\<rparr>))"

definition runCommand :: "'w comp_env \<Rightarrow> string \<Rightarrow> js list \<Rightarrow> ('w, unit) comp" where
  "runCommand env cmd args = discard_result (execFile env cmd args)"

text \<open>Both existence helpers treat a failure that is not operational as absence.\<close>

definition unless_operational :: "'a \<Rightarrow> comp_exn \<Rightarrow> ('w, 'a) comp" where
  "unless_operational x e =
     (case e of ExecFailure err \<Rightarrow> if isOperationalFailure err then throw e else give x | _ \<Rightarrow> give x)"

definition runCommandCaptureStdout :: "'w comp_env \<Rightarrow> string \<Rightarrow> js list \<Rightarrow> ('w, string) comp" where
  "runCommandCaptureStdout env cmd args = rescue (execFile env cmd args) (unless_operational '''')"

definition localBranchExists :: "'w comp_env \<Rightarrow> js \<Rightarrow> ('w, bool) comp" where
  "localBranchExists env branch =
     rescue (andThen (runCommand env ''git'' [JStr ''rev-parse'', JStr ''--verify'', branch]) (\<lambda>_. give True))
       (unless_operational False)"

definition remoteBranchExists :: "'w comp_env \<Rightarrow> js \<Rightarrow> string \<Rightarrow> ('w, bool) comp" where
  "remoteBranchExists env branch remote =
     andThen (runCommandCaptureStdout env ''git'' [JStr ''ls-remote'', JStr ''--heads'', JStr remote, branch])
       (\<lambda>out. give (js_trim out \<noteq> ''''))"

text \<open>A line lists the worktree when the path is its first token.\<close>

definition lists_path :: "string \<Rightarrow> string \<Rightarrow> bool" where
  "lists_path p line \<longleftrightarrow>
     take (length p) line = p \<and>
     (case drop (length p) line of [] \<Rightarrow> True | c # _ \<Rightarrow> c = CHR '' '' \<or> c = CHR 0x09)"

definition worktreeIsRegistered :: "'w comp_env \<Rightarrow> string \<Rightarrow> ('w, bool) comp" where
  "worktreeIsRegistered env p =
     andThen (runCommandCaptureStdout env ''git'' [JStr ''worktree'', JStr ''list''])
       (\<lambda>out. give (list_ex (lists_path p) (split_on (CHR 0x0A) out)))"

definition worktreeHasUncommittedChanges :: "'w comp_env \<Rightarrow> js \<Rightarrow> ('w, bool) comp" where
  "worktreeHasUncommittedChanges env p m =
     (case ce_git env [''status'', ''--porcelain'', ''--untracked-files=all''] p (mc_world m) of
        ((status, out), w) \<Rightarrow> (Inr (status \<noteq> 0 \<or> js_trim out \<noteq> ''''), m\<lparr>mc_world := w\<rparr>))"

section \<open>Lock contention\<close>

definition lock_phrase :: string where
  "lock_phrase = ''unable to create '' @ [CHR 0x27]"

definition quoted_lock :: "string \<Rightarrow> string option" where
  "quoted_lock s =
     (let p = takeWhile (\<lambda>c. c \<noteq> CHR 0x27) s in
      if length p < length s \<and> 5 \<le> length p \<and> js_lower (drop (length p - 5) p) = ''.lock'' then Some p else None)"

text \<open>The first match of \<open>INDEX_LOCK_SIGNATURE\<close>.\<close>

fun find_lock :: "string \<Rightarrow> string option" where
  "find_lock [] = None"
| "find_lock (c # cs) =
     (case (if js_lower (take (length lock_phrase) (c # cs)) = lock_phrase
            then quoted_lock (drop (length lock_phrase) (c # cs)) else None) of
        Some p \<Rightarrow> Some p
      | None \<Rightarrow> find_lock cs)"

definition extractLockPath :: "'w comp_env \<Rightarrow> comp_exn \<Rightarrow> string option" where
  "extractLockPath env e = find_lock (errorMessage env e)"

record retry_options =
  ro_maxRetries :: nat
  ro_baseDelayMs :: rat
  ro_backoffFactor :: rat
  ro_jitterFraction :: rat

definition default_retry :: retry_options where
  "default_retry = \<lparr>ro_maxRetries = 3, ro_baseDelayMs = 200, ro_backoffFactor = 2, ro_jitterFraction = 1 / 4\<rparr>"

text \<open>\<open>Math.round\<close>: to the nearest integer, halves upwards.\<close>

definition js_round :: "rat \<Rightarrow> int" where
  "js_round x = floor (x + 1 / 2)"

definition computeBackoffDelayMs :: "retry_options \<Rightarrow> nat \<Rightarrow> rat \<Rightarrow> int" where
  "computeBackoffDelayMs opts tried jitter =
     max 0 (js_round (ro_baseDelayMs opts * ro_backoffFactor opts ^ tried * (1 + ro_jitterFraction opts * jitter)))"

text \<open>
  \<open>withIndexLockRetry\<close>: an error without a lock path passes through, and when the budget is spent the
  contention error names the path and the delays that were slept.
\<close>

fun index_lock_loop ::
    "'w comp_env \<Rightarrow> retry_options \<Rightarrow> ('w, 'a) comp \<Rightarrow> nat \<Rightarrow> nat \<Rightarrow> int list \<Rightarrow> ('w, 'a) comp" where
  "index_lock_loop env opts op remaining tried delays m =
     (case op m of
        (Inr x, m') \<Rightarrow> (Inr x, m')
      | (Inl e, m') \<Rightarrow>
          (case extractLockPath env e of
             None \<Rightarrow> (Inl e, m')
           | Some p \<Rightarrow>
               (case remaining of
                  0 \<Rightarrow> (Inl (IndexLockContentionError p (tried + 1) delays), m')
                | Suc k \<Rightarrow> index_lock_loop env opts op k (tried + 1)
                    (delays @ [computeBackoffDelayMs opts tried (ce_jitter env tried)]) m')))"

declare index_lock_loop.simps [simp del]

definition withIndexLockRetry :: "'w comp_env \<Rightarrow> retry_options \<Rightarrow> ('w, 'a) comp \<Rightarrow> ('w, 'a) comp" where
  "withIndexLockRetry env opts op = index_lock_loop env opts op (ro_maxRetries opts) 0 []"

text \<open>The variant for an executor that returns its failures: the last contended result is returned.\<close>

record git_result =
  gr_exitCode :: int
  gr_stderr :: "string option"
  gr_stdout :: "string option"

definition extractLockPathFromResult :: "git_result \<Rightarrow> string option" where
  "extractLockPathFromResult r =
     (if gr_exitCode r = 0 then None
      else find_lock (join_with [CHR 0x0A]
        ((case gr_stderr r of None \<Rightarrow> [] | Some s \<Rightarrow> [s]) @ (case gr_stdout r of None \<Rightarrow> [] | Some s \<Rightarrow> [s]))))"

fun index_lock_result_loop :: "('s \<Rightarrow> git_result \<times> 's) \<Rightarrow> nat \<Rightarrow> 's \<Rightarrow> git_result \<times> 's" where
  "index_lock_result_loop op remaining s =
     (case op s of (r, s') \<Rightarrow>
        (case extractLockPathFromResult r of
           None \<Rightarrow> (r, s')
         | Some _ \<Rightarrow> (case remaining of 0 \<Rightarrow> (r, s') | Suc k \<Rightarrow> index_lock_result_loop op k s')))"

declare index_lock_result_loop.simps [simp del]

definition withIndexLockRetryResult :: "retry_options \<Rightarrow> ('s \<Rightarrow> git_result \<times> 's) \<Rightarrow> 's \<Rightarrow> git_result \<times> 's" where
  "withIndexLockRetryResult opts op = index_lock_result_loop op (ro_maxRetries opts)"

definition burstStaggerDelayMs :: "rat \<Rightarrow> int \<Rightarrow> int \<Rightarrow> int" where
  "burstStaggerDelayMs jitter minMs maxMs =
     (let mid = (of_int minMs + of_int maxMs) / 2; halfBand = (of_int maxMs - of_int minMs) / 2
      in max minMs (min maxMs (js_round (mid + halfBand * jitter))))"

section \<open>The store\<close>

definition MAX_STATE_RETRIES :: nat where
  "MAX_STATE_RETRIES = 3"

fun state_retry :: "nat \<Rightarrow> ('w, 'a) comp \<Rightarrow> ('w, 'a) comp" where
  "state_retry 0 op m = (Inl (OtherError ''withStateRetry: unreachable''), m)"
| "state_retry (Suc k) op m =
     (case op m of
        (Inr x, m') \<Rightarrow> (Inr x, m')
      | (Inl e, m') \<Rightarrow> if e = StoreBusyFailure \<and> k \<noteq> 0 then state_retry k op m' else (Inl e, m'))"

definition withStateRetry :: "('w, 'a) comp \<Rightarrow> ('w, 'a) comp" where
  "withStateRetry = state_retry MAX_STATE_RETRIES"

definition next_call :: "'w comp_env \<Rightarrow> 'w machine \<Rightarrow> store_call" where
  "next_call env m = ce_calls env (mc_calls m)"

text \<open>\<open>eventStore.query(streamId)\<close>.\<close>

definition query_stream :: "'w comp_env \<Rightarrow> string \<Rightarrow> ('w, wf_event list) comp" where
  "query_stream env streamId m =
     (let d = sc_others (next_call env m) (mc_db m)
      in (Inr (rows_of d streamId), m\<lparr>mc_db := d, mc_calls := mc_calls m + 1\<rparr>))"

text \<open>\<open>eventStore.append\<close> of an event without an expected sequence: the base schema, then the keyed append.\<close>

definition store_append :: "'w comp_env \<Rightarrow> string \<Rightarrow> string \<Rightarrow> js \<Rightarrow> string \<Rightarrow> ('w, unit) comp" where
  "store_append env streamId t data key m =
     (let c = next_call env m; d = sc_others c (mc_db m); m1 = m\<lparr>mc_calls := mc_calls m + 1\<rparr> in
      if \<not> base_ok streamId key data then (Inl (OtherError ''ZodError''), m1)
      else (case append_keyed (sc_busy c) (sc_stamps c) streamId
                   [\<lparr>ei_type = t, ei_data = data, ei_timestamp = None, ei_operation = None,
                     ei_correlation = None, ei_causation = None\<rparr>] key None (mc_db m) d of
          (append_result.Failed StorageBusy, d') \<Rightarrow> (Inl StoreBusyFailure, m1\<lparr>mc_db := d'\<rparr>)
        | (append_result.Failed f, d') \<Rightarrow> (Inl (OtherError ''Append failed''), m1\<lparr>mc_db := d'\<rparr>)
        | (_, d') \<Rightarrow> (Inr (), m1\<lparr>mc_db := d'\<rparr>)))"

definition fenced_append :: "'w comp_env \<Rightarrow> fenced_params \<Rightarrow> ('w, unit) comp" where
  "fenced_append env q m =
     (let c = next_call env m; d = sc_others c (mc_db m); m1 = m\<lparr>mc_calls := mc_calls m + 1\<rparr> in
      case appendFencedCancelEvent (ce_saga env) (sc_busy c) (sc_stamps c) q (mc_db m) d of
        (Inl e, d') \<Rightarrow> (Inl (SagaFailure e), m1\<lparr>mc_db := d'\<rparr>)
      | (Inr _, d') \<Rightarrow> (Inr (), m1\<lparr>mc_db := d'\<rparr>))"

end
