(* ===== verification/Compensation.thy ===== *)
theory Compensation
  imports Shell_Effects Workflow_Events
begin

text \<open>
  The compensation of a cancelled workflow (\<open>src/workflow/compensation.ts\<close>): the four actions with their
  commands, the order of the actions, the legacy run with its checkpoint, and the run under the
  cancellation process manager, whose loop asks the folded saga for the next step of every action.
\<close>

section \<open>Results\<close>

datatype action_status = ExecutedAction | SkippedAction | FailedAction | DryRunAction

record action_result =
  ac_actionId :: string
  ac_status :: action_status
  ac_message :: string
  ac_skippedWorktrees :: "js list"

record comp_options =
  co_dryRun :: bool
  co_featureId :: "string option"
  co_checkpoint :: "string list"

definition plain_result :: "string \<Rightarrow> action_status \<Rightarrow> string \<Rightarrow> action_result" where
  "plain_result i st msg =
     \<lparr>ac_actionId = i, ac_status = st, ac_message = msg, ac_skippedWorktrees = []\<rparr>"

definition action_status_str :: "action_status \<Rightarrow> string" where
  "action_status_str st =
     (case st of ExecutedAction \<Rightarrow> ''executed'' | SkippedAction \<Rightarrow> ''skipped''
               | FailedAction \<Rightarrow> ''failed'' | DryRunAction \<Rightarrow> ''dry-run'')"

text \<open>\<open>catch (err) { return \{ status: 'failed', message: lead + message \} }\<close>.\<close>

definition or_failed ::
    "'w comp_env \<Rightarrow> string \<Rightarrow> string \<Rightarrow> ('w, action_result) comp \<Rightarrow> ('w, action_result) comp" where
  "or_failed env i lead f =
     rescue f (\<lambda>e. give (plain_result i FailedAction (lead @ '': '' @ errorMessage env e)))"

definition js_join :: "string \<Rightarrow> js list \<Rightarrow> string" where
  "js_join sep xs = join_with sep (map (\<lambda>x. if is_nullish x then '''' else js_string x) xs)"

text \<open>\<open>value.field\<close> where \<open>value\<close> can be \<open>undefined\<close> or \<open>null\<close>.\<close>

definition read_field :: "'w comp_env \<Rightarrow> js \<Rightarrow> string \<Rightarrow> ('w, js) comp" where
  "read_field env v k =
     (case dot_get v k of Inl _ \<Rightarrow> throw (OtherError (ce_typeError env)) | Inr x \<Rightarrow> give x)"

fun read_fields :: "'w comp_env \<Rightarrow> js list \<Rightarrow> string \<Rightarrow> ('w, js list) comp" where
  "read_fields env [] k = give []"
| "read_fields env (v # vs) k =
     andThen (read_field env v k) (\<lambda>x. andThen (read_fields env vs k) (\<lambda>xs. give (x # xs)))"

section \<open>Closing the pull request\<close>

text \<open>\<open>toUpperCase\<close>, on the ASCII letters.\<close>

definition js_upper :: "string \<Rightarrow> string" where
  "js_upper s = map (\<lambda>c. let n = of_char c :: nat in if 97 \<le> n \<and> n \<le> 122 then char_of (n - 32) else c) s"

definition pr_state :: "'w comp_env \<Rightarrow> js \<Rightarrow> ('w, string) comp" where
  "pr_state env prUrl =
     andThen (runCommandCaptureStdout env ''gh''
         [JStr ''pr'', JStr ''view'', prUrl, JStr ''--json'', JStr ''state'', JStr ''--jq'', JStr ''.state''])
       (\<lambda>out. give (js_upper (js_trim out)))"

definition pr_over :: "string \<Rightarrow> bool" where
  "pr_over st \<longleftrightarrow> st = ''CLOSED'' \<or> st = ''MERGED''"

definition closePr :: "'w comp_env \<Rightarrow> comp_options \<Rightarrow> fields \<Rightarrow> ('w, action_result) comp" where
  "closePr env opts state =
     (let i = ''synthesize:close-pr''; prUrl = opt_get (fget state ''synthesis'') ''prUrl'' in
      if \<not> js_truthy prUrl then give (plain_result i SkippedAction ''No PR to close'')
      else if co_dryRun opts then give (plain_result i DryRunAction (''Would close PR: '' @ js_string prUrl))
      else or_failed env i ''Failed to close PR''
        (andThen (pr_state env prUrl) (\<lambda>st.
           if pr_over st then give (plain_result i SkippedAction (''PR already closed: '' @ js_string prUrl))
           else andThen
             (rescue (runCommand env ''gh'' [JStr ''pr'', JStr ''close'', prUrl, JStr ''--comment'',
                        JStr ''Cancelled via compensation''])
                (\<lambda>e. andThen (pr_state env prUrl) (\<lambda>after. if pr_over after then give () else throw e)))
             (\<lambda>_. give (plain_result i ExecutedAction (''Closed PR: '' @ js_string prUrl))))))"

section \<open>Deleting branches\<close>

text \<open>
  A deletion that fails is rethrown only when the branch still exists; the value says whether the
  command itself succeeded.
\<close>

definition delete_local :: "'w comp_env \<Rightarrow> js \<Rightarrow> bool \<Rightarrow> ('w, bool) comp" where
  "delete_local env branch exists =
     (if exists
      then rescue (andThen (runCommand env ''git'' [JStr ''branch'', JStr ''-D'', branch]) (\<lambda>_. give True))
        (\<lambda>e. andThen (localBranchExists env branch) (\<lambda>still. if still then throw e else give False))
      else give False)"

definition delete_remote :: "'w comp_env \<Rightarrow> js \<Rightarrow> bool \<Rightarrow> ('w, bool) comp" where
  "delete_remote env branch exists =
     (if exists
      then rescue (andThen (runCommand env ''git''
                     [JStr ''push'', JStr ''origin'', JStr ''--delete'', branch]) (\<lambda>_. give True))
        (\<lambda>e. andThen (remoteBranchExists env branch ''origin'') (\<lambda>still. if still then throw e else give False))
      else give False)"

definition deleteIntegrationBranch :: "'w comp_env \<Rightarrow> comp_options \<Rightarrow> fields \<Rightarrow> ('w, action_result) comp" where
  "deleteIntegrationBranch env opts state =
     (let i = ''delegate:delete-integration-branch'';
          branch = opt_get (fget state ''synthesis'') ''integrationBranch'' in
      if \<not> js_truthy branch then give (plain_result i SkippedAction ''No integration branch to delete'')
      else if co_dryRun opts then give (plain_result i DryRunAction (''Would delete branch: '' @ js_string branch))
      else or_failed env i ''Failed to delete integration branch''
        (andThen (localBranchExists env branch) (\<lambda>here.
         andThen (remoteBranchExists env branch ''origin'') (\<lambda>there.
         andThen (delete_local env branch here) (\<lambda>_.
         andThen (delete_remote env branch there) (\<lambda>_.
           give (if here \<or> there
             then plain_result i ExecutedAction (''Deleted integration branch: '' @ js_string branch)
             else plain_result i SkippedAction (''Integration branch already absent: '' @ js_string branch))))))))"

section \<open>The audit pair\<close>

text \<open>The operation of a request on the stream without its outcome, the latest first.\<close>

definition orphaned_operation :: "string \<Rightarrow> string \<Rightarrow> string \<Rightarrow> js \<Rightarrow> wf_event list \<Rightarrow> js option" where
  "orphaned_operation requested executed field v es =
     (let done_ops = map (\<lambda>e. data_get e ''operationId'') (filter (\<lambda>e. we_type e = executed) es) in
      case find_last (\<lambda>e. data_get e ''operationId'' \<notin> set done_ops \<and> data_get e field = v)
             (filter (\<lambda>e. we_type e = requested) es) of
        None \<Rightarrow> None
      | Some e \<Rightarrow> if data_get e ''operationId'' = JUndef then None else Some (data_get e ''operationId''))"

definition findOrphanedWorktreeRemoveOnStream :: "'w comp_env \<Rightarrow> string \<Rightarrow> js \<Rightarrow> ('w, js option) comp" where
  "findOrphanedWorktreeRemoveOnStream env streamId p =
     andThen (query_stream env streamId) (\<lambda>requested. andThen (query_stream env streamId) (\<lambda>executed.
       give (orphaned_operation ''worktree.remove.requested'' ''worktree.remove.executed'' ''worktreePath'' p
         (filter (\<lambda>e. we_type e = ''worktree.remove.requested'') requested @
          filter (\<lambda>e. we_type e = ''worktree.remove.executed'') executed))))"

definition recoverWorktreeRemoveOperationId :: "'w comp_env \<Rightarrow> string \<Rightarrow> js \<Rightarrow> ('w, js option) comp" where
  "recoverWorktreeRemoveOperationId env featureId p =
     andThen (findOrphanedWorktreeRemoveOnStream env ''worktrees'' p) (\<lambda>r.
       case r of Some i \<Rightarrow> give (Some i) | None \<Rightarrow> findOrphanedWorktreeRemoveOnStream env featureId p)"

definition recoverBranchDeleteOperationId :: "'w comp_env \<Rightarrow> string \<Rightarrow> js \<Rightarrow> ('w, js option) comp" where
  "recoverBranchDeleteOperationId env featureId branch =
     andThen (query_stream env featureId) (\<lambda>requested. andThen (query_stream env featureId) (\<lambda>executed.
       give (orphaned_operation ''branch.delete.requested'' ''branch.delete.executed'' ''branch'' branch
         (filter (\<lambda>e. we_type e = ''branch.delete.requested'') requested @
          filter (\<lambda>e. we_type e = ''branch.delete.executed'') executed))))"

text \<open>\<open>recovered ?? randomUUID()\<close>.\<close>

definition or_new :: "'w comp_env \<Rightarrow> ('w, js option) comp \<Rightarrow> ('w, js) comp" where
  "or_new env f = andThen f (\<lambda>r m.
     (Inr (case r of Some i \<Rightarrow> if i = JNull then JStr (ce_uuid env (mc_calls m)) else i
                   | None \<Rightarrow> JStr (ce_uuid env (mc_calls m))), m))"

section \<open>Removing worktrees\<close>

definition loadWorktreesProjection :: "'w comp_env \<Rightarrow> ('w, worktrees_projection) comp" where
  "loadWorktreesProjection env =
     andThen (query_stream env ''worktrees'') (\<lambda>es. give (fold_worktrees (ce_resolve env) es))"

definition remove_data :: "js \<Rightarrow> string \<Rightarrow> string \<Rightarrow> js" where
  "remove_data operationId p worktreeId =
     JObj [(''operationId'', operationId), (''worktreePath'', JStr p), (''worktreeId'', JStr worktreeId)]"

definition git_remove :: "'w comp_env \<Rightarrow> string \<Rightarrow> ('w, bool) comp" where
  "git_remove env p =
     rescue (andThen (withIndexLockRetry env default_retry
                (runCommand env ''git'' [JStr ''worktree'', JStr ''remove'', JStr p, JStr ''--force''])) (\<lambda>_. give True))
       (\<lambda>e. andThen (worktreeIsRegistered env p) (\<lambda>still. if still then throw e else give False))"

definition unifyWorktreeRemove :: "'w comp_env \<Rightarrow> string \<Rightarrow> js \<Rightarrow> ('w, unit) comp" where
  "unifyWorktreeRemove env featureId path =
     (case path of
        JStr p \<Rightarrow>
          (let worktreeId = canonicalWorktreeId (ce_resolve env) p in
           andThen (loadWorktreesProjection env) (\<lambda>projection.
           andThen (if map_of (wp_worktrees projection) worktreeId = None
                    then withStateRetry (\<lambda>m. store_append env ''worktrees'' ''worktree.adopted''
                       (JObj [(''worktreeId'', JStr worktreeId), (''path'', JStr p), (''featureId'', JStr featureId),
                              (''ownerPid'', JNull), (''ownerStartedAt'', JNull),
                              (''operationId'', JStr (ce_uuid env (mc_calls m)))])
                       (''worktree.adopted:'' @ worktreeId) m)
                    else give ()) (\<lambda>_.
           andThen (or_new env (recoverWorktreeRemoveOperationId env featureId path)) (\<lambda>operationId.
           andThen (withStateRetry (store_append env ''worktrees'' ''worktree.remove.requested''
                     (remove_data operationId p worktreeId)
                     (''worktree.remove.requested:'' @ js_string operationId))) (\<lambda>_.
           andThen (worktreeIsRegistered env p) (\<lambda>registered.
           andThen (if registered then git_remove env p else give False) (\<lambda>removed.
             withStateRetry (store_append env ''worktrees'' ''worktree.remove.executed''
               (JObj [(''operationId'', operationId), (''worktreePath'', JStr p),
                      (''worktreeId'', JStr worktreeId), (''removed'', JBool removed)])
               (''worktree.remove.executed:'' @ js_string operationId)))))))))
      | _ \<Rightarrow> throw (OtherError (ce_typeError env)))"

text \<open>The removal of one worktree: \<open>None\<close> when it has no path, \<open>Some False\<close> when its work is preserved.\<close>

definition remove_worktree :: "'w comp_env \<Rightarrow> comp_options \<Rightarrow> js \<Rightarrow> ('w, bool option) comp" where
  "remove_worktree env opts path =
     (if \<not> js_truthy path then give None
      else andThen (\<lambda>m. if ce_exists env path (mc_world m) then worktreeHasUncommittedChanges env path m
                        else (Inr False, m)) (\<lambda>dirty.
        if dirty then give (Some False)
        else andThen (case co_featureId opts of
                 Some f \<Rightarrow> unifyWorktreeRemove env f path
               | None \<Rightarrow> rescue (runCommand env ''git''
                   [JStr ''worktree'', JStr ''remove'', path, JStr ''--force'']) (\<lambda>_. give ()))
               (\<lambda>_. give (Some True))))"

text \<open>
  The loop with its counters. A throw leaves the preserved worktrees of the iterations before it, which the
  failed result reports.
\<close>

fun remove_worktrees ::
    "'w comp_env \<Rightarrow> comp_options \<Rightarrow> js list \<Rightarrow> nat \<Rightarrow> js list \<Rightarrow> 'w machine \<Rightarrow>
     (comp_exn \<times> js list + nat \<times> js list) \<times> 'w machine" where
  "remove_worktrees env opts [] removed skipped m = (Inr (removed, skipped), m)"
| "remove_worktrees env opts (w # ws) removed skipped m =
     (case andThen (read_field env w ''path'') (\<lambda>p. andThen (remove_worktree env opts p) (\<lambda>r. give (p, r))) m of
        (Inl e, m') \<Rightarrow> (Inl (e, skipped), m')
      | (Inr (p, None), m') \<Rightarrow> remove_worktrees env opts ws removed skipped m'
      | (Inr (p, Some False), m') \<Rightarrow> remove_worktrees env opts ws removed (skipped @ [p]) m'
      | (Inr (p, Some True), m') \<Rightarrow> remove_worktrees env opts ws (removed + 1) skipped m')"

definition cleanup_message :: "nat \<Rightarrow> js list \<Rightarrow> string" where
  "cleanup_message removed skipped =
     ''Cleaned up '' @ nat_str removed @ '' worktree(s)'' @
     (if skipped = [] then ''''
      else ''; preserved '' @ nat_str (length skipped) @
        '' worktree(s) with uncommitted changes (dirty-worktree-preserved): '' @ js_join '', '' skipped)"

text \<open>\<open>Object.values(worktrees)\<close>; an array has its elements, a string its characters.\<close>

definition own_values :: "js \<Rightarrow> js list" where
  "own_values v = (case v of JObj fs \<Rightarrow> map snd fs | JArr xs \<Rightarrow> xs | JStr s \<Rightarrow> map (\<lambda>c. JStr [c]) s | _ \<Rightarrow> [])"

definition cleanupWorktrees :: "'w comp_env \<Rightarrow> comp_options \<Rightarrow> fields \<Rightarrow> ('w, action_result) comp" where
  "cleanupWorktrees env opts state =
     (let i = ''delegate:cleanup-worktrees''; worktrees = own_values (fget state ''worktrees'') in
      if worktrees = [] then give (plain_result i SkippedAction ''No worktrees to clean up'')
      else if co_dryRun opts then andThen (read_fields env worktrees ''branch'') (\<lambda>bs.
        give (plain_result i DryRunAction (''Would remove worktrees for branches: '' @ js_join '', '' bs)))
      else (\<lambda>m. case remove_worktrees env opts worktrees 0 [] m of
          (Inr (removed, skipped), m') \<Rightarrow>
            (Inr \<lparr>ac_actionId = i, ac_status = ExecutedAction, ac_message = cleanup_message removed skipped,
                  ac_skippedWorktrees = skipped\<rparr>, m')
        | (Inl (e, skipped), m') \<Rightarrow>
            (Inr \<lparr>ac_actionId = i, ac_status = FailedAction,
                  ac_message = ''Failed to clean up worktrees: '' @ errorMessage env e,
                  ac_skippedWorktrees = skipped\<rparr>, m')))"

section \<open>Deleting the task branches\<close>

definition delete_branch :: "'w comp_env \<Rightarrow> comp_options \<Rightarrow> js \<Rightarrow> ('w, unit) comp" where
  "delete_branch env opts branch =
     (case co_featureId opts of
        Some featureId \<Rightarrow>
          andThen (or_new env (recoverBranchDeleteOperationId env featureId branch)) (\<lambda>operationId.
          andThen (withStateRetry (store_append env featureId ''branch.delete.requested''
                     (JObj [(''operationId'', operationId), (''branch'', branch)])
                     (''branch.delete.requested:'' @ js_string operationId))) (\<lambda>_.
          andThen (localBranchExists env branch) (\<lambda>here.
          andThen (remoteBranchExists env branch ''origin'') (\<lambda>there.
          andThen (delete_local env branch here) (\<lambda>deletedLocally.
          andThen (delete_remote env branch there) (\<lambda>deletedRemote.
            withStateRetry (store_append env featureId ''branch.delete.executed''
              (JObj [(''operationId'', operationId), (''branch'', branch),
                     (''deletedLocally'', JBool deletedLocally), (''deletedRemote'', JBool deletedRemote)])
              (''branch.delete.executed:'' @ js_string operationId))))))))
      | None \<Rightarrow>
          andThen (rescue (runCommand env ''git'' [JStr ''branch'', JStr ''-D'', branch]) (\<lambda>_. give ())) (\<lambda>_.
            rescue (runCommand env ''git'' [JStr ''push'', JStr ''origin'', JStr ''--delete'', branch]) (\<lambda>_. give ())))"

fun delete_branches :: "'w comp_env \<Rightarrow> comp_options \<Rightarrow> js list \<Rightarrow> ('w, unit) comp" where
  "delete_branches env opts [] = give ()"
| "delete_branches env opts (b # bs) = andThen (delete_branch env opts b) (\<lambda>_. delete_branches env opts bs)"

text \<open>\<open>(tasks ?? []).map(...)\<close>; a value without \<open>map\<close> raises a \<open>TypeError\<close>.\<close>

definition task_elements :: "'w comp_env \<Rightarrow> js \<Rightarrow> ('w, js list) comp" where
  "task_elements env tasks =
     (case tasks of
        JArr xs \<Rightarrow> give xs
      | JUndef \<Rightarrow> give []
      | JNull \<Rightarrow> give []
      | _ \<Rightarrow> throw (OtherError (ce_typeError env)))"

definition deleteFeatureBranches :: "'w comp_env \<Rightarrow> comp_options \<Rightarrow> fields \<Rightarrow> ('w, action_result) comp" where
  "deleteFeatureBranches env opts state =
     (let i = ''delegate:delete-feature-branches'' in
      andThen (task_elements env (fget state ''tasks'')) (\<lambda>ts.
      andThen (read_fields env ts ''branch'') (\<lambda>all.
        let branches = filter js_truthy all in
        if branches = [] then give (plain_result i SkippedAction ''No feature branches to delete'')
        else if co_dryRun opts then give (plain_result i DryRunAction (''Would delete branches: '' @ js_join '', '' branches))
        else or_failed env i ''Failed to delete feature branches''
          (andThen (delete_branches env opts branches) (\<lambda>_.
             give (plain_result i ExecutedAction
               (''Deleted '' @ nat_str (length branches) @ '' feature branch(es)'')))))))"

section \<open>The actions and their order\<close>

datatype comp_action = ClosePr | DeleteIntegrationBranch | CleanupWorktrees | DeleteFeatureBranches

definition action_id :: "comp_action \<Rightarrow> string" where
  "action_id a =
     (case a of
        ClosePr \<Rightarrow> ''synthesize:close-pr''
      | DeleteIntegrationBranch \<Rightarrow> ''delegate:delete-integration-branch''
      | CleanupWorktrees \<Rightarrow> ''delegate:cleanup-worktrees''
      | DeleteFeatureBranches \<Rightarrow> ''delegate:delete-feature-branches'')"

definition action_phase :: "comp_action \<Rightarrow> string" where
  "action_phase a = (case a of ClosePr \<Rightarrow> ''synthesize'' | _ \<Rightarrow> ''delegate'')"

definition executeAction ::
    "'w comp_env \<Rightarrow> comp_options \<Rightarrow> fields \<Rightarrow> comp_action \<Rightarrow> ('w, action_result) comp" where
  "executeAction env opts state a =
     (case a of
        ClosePr \<Rightarrow> closePr env opts state
      | DeleteIntegrationBranch \<Rightarrow> deleteIntegrationBranch env opts state
      | CleanupWorktrees \<Rightarrow> cleanupWorktrees env opts state
      | DeleteFeatureBranches \<Rightarrow> deleteFeatureBranches env opts state)"

definition getCompensationActions :: "comp_action list" where
  "getCompensationActions = [ClosePr, DeleteIntegrationBranch, CleanupWorktrees, DeleteFeatureBranches]"

definition PHASE_ORDER :: "string list" where
  "PHASE_ORDER = [''plan'', ''delegate'', ''review'', ''synthesize'']"

fun up_to_phase :: "string \<Rightarrow> string list \<Rightarrow> string list" where
  "up_to_phase p [] = []"
| "up_to_phase p (q # qs) = (if q = p then [q] else q # up_to_phase p qs)"

definition getPhasesInReverseOrder :: "string \<Rightarrow> string list" where
  "getPhasesInReverseOrder currentPhase =
     (if currentPhase \<notin> set PHASE_ORDER then rev PHASE_ORDER else rev (up_to_phase currentPhase PHASE_ORDER))"

definition orderedCompensationActions :: "string \<Rightarrow> comp_action list" where
  "orderedCompensationActions currentPhase =
     concat (map (\<lambda>p. filter (\<lambda>a. action_phase a = p) getCompensationActions) (getPhasesInReverseOrder currentPhase))"

record compensation_result =
  cp_actions :: "action_result list"
  cp_events :: "log_event list"
  cp_success :: bool
  cp_errorCode :: "string option"
  cp_checkpoint :: "string list option"
  cp_completedActionIds :: "string list"
  cp_outcomeSequences :: "nat list"

section \<open>The legacy run\<close>

text \<open>One pass over the actions; a throw of an action ends it. The checkpoint keeps the order of its set.\<close>

fun legacy_loop ::
    "int option \<Rightarrow> string \<Rightarrow> (comp_action \<Rightarrow> ('w, action_result) comp) \<Rightarrow> comp_action list \<Rightarrow>
     log_event list \<Rightarrow> nat \<Rightarrow> string list \<Rightarrow>
     ('w, (comp_action \<times> action_result) list \<times> log_event list \<times> string list) comp" where
  "legacy_loop cap now execute [] events seqno completed = give ([], events, completed)"
| "legacy_loop cap now execute (a # as) events seqno completed =
     andThen (if action_id a \<in> set completed
              then give (plain_result (action_id a) SkippedAction ''Already completed (checkpoint)'')
              else execute a) (\<lambda>r.
       let completed' = (if action_id a \<notin> set completed \<and>
               (ac_status r = ExecutedAction \<or> ac_status r = SkippedAction)
             then completed @ [action_id a] else completed);
           out = log_append cap now events seqno ''compensation'' (''compensation:'' @ action_id a) None None
             (Some [(''actionId'', JStr (ac_actionId r)), (''status'', JStr (action_status_str (ac_status r))),
                    (''message'', JStr (ac_message r))])
       in andThen (legacy_loop cap now execute as (events @ [ao_event out]) (ao_sequence out) completed')
            (\<lambda>(rs, es, c). give ((a, r) # rs, es, c)))"

definition legacy_compensation ::
    "int option \<Rightarrow> string \<Rightarrow> (comp_action \<Rightarrow> ('w, action_result) comp) \<Rightarrow> string \<Rightarrow> log_event list \<Rightarrow> nat \<Rightarrow>
     comp_options \<Rightarrow> ('w, compensation_result) comp" where
  "legacy_compensation cap now execute currentPhase events seqno opts =
     andThen (legacy_loop cap now execute (orderedCompensationActions currentPhase) events seqno
                (dedup_from {} id (co_checkpoint opts)))
       (\<lambda>(rs, es, completed).
         let failed = list_ex (\<lambda>(a, r). ac_status r = FailedAction) rs in
         give \<lparr>cp_actions = map snd rs, cp_events = drop (length events) es, cp_success = \<not> failed,
               cp_errorCode = (if failed then Some ''COMPENSATION_PARTIAL'' else None),
               cp_checkpoint = (if failed then Some completed else None),
               cp_completedActionIds = [], cp_outcomeSequences = []\<rparr>)"

section \<open>The run under the process manager\<close>

record cancel_process =
  cn_cancelId :: string
  cn_phaseAttemptId :: string
  cn_writerEpoch :: jsnum
  cn_instanceId :: string
  cn_maxAttempts :: "nat option"

definition CANCEL_MAX_ATTEMPTS :: nat where
  "CANCEL_MAX_ATTEMPTS = 3"

definition process_data :: "cancel_process \<Rightarrow> string \<Rightarrow> comp_action \<Rightarrow> fields \<Rightarrow> js" where
  "process_data p featureId a fs =
     JObj ([(''eventVersion'', JStr ''1.0''), (''cancelId'', JStr (cn_cancelId p)), (''featureId'', JStr featureId),
            (''phaseAttemptId'', JStr (cn_phaseAttemptId p)), (''actionId'', JStr (action_id a))] @ fs)"

definition process_operation :: "cancel_process \<Rightarrow> string \<Rightarrow> string" where
  "process_operation p step = ''cancel-op:'' @ cn_cancelId p @ '':'' @ step"

definition process_key :: "saga_env \<Rightarrow> cancel_process \<Rightarrow> string \<Rightarrow> string \<Rightarrow> string" where
  "process_key env p featureId step =
     ''cancel:'' @ sv_sha env (featureId @ NUL @ cn_cancelId p @ NUL @ step)"

definition appendCancellationProcessEvent ::
    "'w comp_env \<Rightarrow> cancel_process \<Rightarrow> string \<Rightarrow> string \<Rightarrow> js \<Rightarrow> string \<Rightarrow> ('w, unit) comp" where
  "appendCancellationProcessEvent env p featureId t data step =
     fenced_append env
       \<lparr>fp_featureId = featureId, fp_cancelId = cn_cancelId p, fp_writerEpoch = cn_writerEpoch p, fp_type = t,
        fp_data = data, fp_idempotencyKey = process_key (ce_saga env) p featureId step,
        fp_operationId = process_operation p step\<rparr>"

definition attempt_suffix :: "comp_action \<Rightarrow> nat \<Rightarrow> string \<Rightarrow> string" where
  "attempt_suffix a n kind = ''compensation:'' @ action_id a @ '':attempt'' @ nat_str n @ '':'' @ kind"

definition now_of :: "'w comp_env \<Rightarrow> 'w machine \<Rightarrow> js" where
  "now_of env m = JStr (clock (sc_stamps (next_call env m)))"

definition reason_str :: "failure_reason \<Rightarrow> string" where
  "reason_str r = (case r of EffectFailed \<Rightarrow> ''effect-failed'' | MalformedResult \<Rightarrow> ''malformed-result'')"

definition record_failure ::
    "'w comp_env \<Rightarrow> cancel_process \<Rightarrow> string \<Rightarrow> comp_action \<Rightarrow> failure_reason \<Rightarrow> string \<Rightarrow> string \<Rightarrow> ('w, unit) comp" where
  "record_failure env p featureId a reason msg step m =
     appendCancellationProcessEvent env p featureId ''cancel.compensation-failed''
       (process_data p featureId a
         [(''reason'', JStr (reason_str reason)), (''message'', JStr msg), (''failedAt'', now_of env m)]) step m"

definition validActionResult :: "action_result \<Rightarrow> comp_action \<Rightarrow> bool" where
  "validActionResult r a \<longleftrightarrow>
     ac_actionId r = action_id a \<and> ac_status r \<noteq> DryRunAction \<and> ac_message r \<noteq> ''''"

definition runOneAttempt ::
    "'w comp_env \<Rightarrow> cancel_process \<Rightarrow> string \<Rightarrow> (comp_action \<Rightarrow> ('w, action_result) comp) \<Rightarrow> comp_action \<Rightarrow> nat \<Rightarrow>
     ('w, unit) comp" where
  "runOneAttempt env p featureId execute a n =
     andThen (\<lambda>m. appendCancellationProcessEvent env p featureId ''cancel.compensation-requested''
                (process_data p featureId a [(''requestedAt'', now_of env m)]) (attempt_suffix a n ''requested'') m) (\<lambda>_.
     andThen (rescue (execute a) (\<lambda>e. give (plain_result (action_id a) FailedAction (errorMessage env e)))) (\<lambda>raw.
       if \<not> validActionResult raw a then
         record_failure env p featureId a MalformedResult (''Malformed compensation result for '' @ action_id a)
           (attempt_suffix a n ''failed'')
       else if ac_status raw = FailedAction then
         record_failure env p featureId a EffectFailed (ac_message raw) (attempt_suffix a n ''failed'')
       else (\<lambda>m. appendCancellationProcessEvent env p featureId ''cancel.compensation-completed''
         (process_data p featureId a
           [(''status'', JStr (action_status_str (ac_status raw))), (''message'', JStr (ac_message raw)),
            (''completedAt'', now_of env m)]) (attempt_suffix a n ''completed'') m)))"

text \<open>A durable outcome of the action that its schema rejects.\<close>

definition malformed_outcome :: "saga_env \<Rightarrow> string \<Rightarrow> comp_action \<Rightarrow> wf_event \<Rightarrow> bool" where
  "malformed_outcome env cancelId a e \<longleftrightarrow>
     data_get e ''cancelId'' = JStr cancelId \<and> data_get e ''actionId'' = JStr (action_id a) \<and>
     (we_type e = ''cancel.compensation-completed'' \<and> \<not> CancelCompensationCompletedData (sv_datetime env) (we_data e) \<or>
      we_type e = ''cancel.compensation-failed'' \<and> \<not> CancelCompensationFailedData (sv_datetime env) (we_data e))"

definition retry_data :: "cancel_process \<Rightarrow> string \<Rightarrow> comp_action \<Rightarrow> nat \<Rightarrow> nat \<Rightarrow> failure_reason \<Rightarrow> string \<Rightarrow> js \<Rightarrow> js" where
  "retry_data p featureId a maxAttempts failed reason msg now =
     process_data p featureId a
       [(''epoch'', JNum (cn_writerEpoch p)), (''attempt'', JInt (int failed)),
        (''maxAttempts'', JInt (int maxAttempts)), (''reason'', JStr (reason_str reason)),
        (''message'', JStr msg), (''scheduledAt'', now)]"

definition manual_data :: "cancel_process \<Rightarrow> string \<Rightarrow> comp_action \<Rightarrow> nat \<Rightarrow> js \<Rightarrow> js" where
  "manual_data p featureId a attempts now =
     process_data p featureId a
       [(''epoch'', JNum (cn_writerEpoch p)), (''attempts'', JInt (int attempts)),
        (''reason'', JStr ''retries-exhausted''),
        (''message'', JStr (''Compensation '' @ action_id a @ '' exhausted '' @ nat_str attempts @ '' attempt(s)'')),
        (''requiredAt'', now)]"

text \<open>The body of the loop for one plan: a result ends the loop, \<open>None\<close> asks the saga again.\<close>

definition follow_plan ::
    "'w comp_env \<Rightarrow> cancel_process \<Rightarrow> string \<Rightarrow> (comp_action \<Rightarrow> ('w, action_result) comp) \<Rightarrow> nat \<Rightarrow> comp_action \<Rightarrow>
     compensation_plan \<Rightarrow> ('w, action_result option) comp" where
  "follow_plan env p featureId execute maxAttempts a plan =
     (case plan of
        SatisfiedPlan \<Rightarrow> give (Some (plain_result (action_id a) SkippedAction ''Already completed (event replay)''))
      | BlockedManualPlan \<Rightarrow>
          give (Some (plain_result (action_id a) FailedAction (''Manual intervention required for '' @ action_id a)))
      | EscalateManualPlan attempts \<Rightarrow>
          andThen (\<lambda>m. appendCancellationProcessEvent env p featureId ''cancel.manual-intervention-required''
                     (manual_data p featureId a attempts (now_of env m))
                     (''compensation:'' @ action_id a @ '':manual'') m) (\<lambda>_. give None)
      | RetryPlan failed n reason msg \<Rightarrow>
          andThen (\<lambda>m. appendCancellationProcessEvent env p featureId ''cancel.compensation-retry-scheduled''
                     (retry_data p featureId a maxAttempts failed reason msg (now_of env m))
                     (attempt_suffix a failed ''retry'') m) (\<lambda>_.
          andThen (runOneAttempt env p featureId execute a n) (\<lambda>_. give None))
      | ExecutePlan n \<Rightarrow> andThen (runOneAttempt env p featureId execute a n) (\<lambda>_. give None))"

definition decide_next ::
    "'w comp_env \<Rightarrow> cancel_process \<Rightarrow> string \<Rightarrow> nat \<Rightarrow> comp_action \<Rightarrow> ('w, compensation_plan) comp" where
  "decide_next env p featureId maxAttempts a =
     andThen (query_stream env featureId) (\<lambda>es.
       case decideCompensationAction (foldCancelSaga es (Some (cn_cancelId p))) (action_id a) maxAttempts of
         Inl e \<Rightarrow> throw (SagaFailure (SagaThrew e))
       | Inr plan \<Rightarrow> give plan)"

fun converge ::
    "'w comp_env \<Rightarrow> cancel_process \<Rightarrow> string \<Rightarrow> (comp_action \<Rightarrow> ('w, action_result) comp) \<Rightarrow> nat \<Rightarrow> comp_action \<Rightarrow>
     nat \<Rightarrow> ('w, action_result option) comp" where
  "converge env p featureId execute maxAttempts a 0 = give None"
| "converge env p featureId execute maxAttempts a (Suc guard) =
     andThen (decide_next env p featureId maxAttempts a) (\<lambda>plan.
     andThen (follow_plan env p featureId execute maxAttempts a plan) (\<lambda>r.
       case r of Some x \<Rightarrow> give (Some x) | None \<Rightarrow> converge env p featureId execute maxAttempts a guard))"

definition iteration_cap :: "nat \<Rightarrow> nat" where
  "iteration_cap maxAttempts = maxAttempts * 2 + 4"

definition manage_action ::
    "'w comp_env \<Rightarrow> cancel_process \<Rightarrow> string \<Rightarrow> (comp_action \<Rightarrow> ('w, action_result) comp) \<Rightarrow> nat \<Rightarrow> comp_action \<Rightarrow>
     ('w, action_result) comp" where
  "manage_action env p featureId execute maxAttempts a =
     andThen (query_stream env featureId) (\<lambda>prior.
       if list_ex (malformed_outcome (ce_saga env) (cn_cancelId p) a) prior then
         (let msg = ''Malformed durable compensation result for '' @ action_id a in
          andThen (record_failure env p featureId a MalformedResult msg
              (''compensation:'' @ action_id a @ '':malformed:failed''))
            (\<lambda>_. give (plain_result (action_id a) FailedAction msg)))
       else andThen (converge env p featureId execute maxAttempts a (iteration_cap maxAttempts)) (\<lambda>r.
         give (or_default r
           (plain_result (action_id a) FailedAction (''Compensation did not converge for '' @ action_id a)))))"

fun manage_actions ::
    "'w comp_env \<Rightarrow> cancel_process \<Rightarrow> string \<Rightarrow> (comp_action \<Rightarrow> ('w, action_result) comp) \<Rightarrow> nat \<Rightarrow> comp_action list \<Rightarrow>
     ('w, action_result list) comp" where
  "manage_actions env p featureId execute maxAttempts [] = give []"
| "manage_actions env p featureId execute maxAttempts (a # as) =
     andThen (manage_action env p featureId execute maxAttempts a) (\<lambda>r.
     andThen (manage_actions env p featureId execute maxAttempts as) (\<lambda>rs. give (r # rs)))"

definition durable_completion :: "saga_env \<Rightarrow> string \<Rightarrow> comp_action \<Rightarrow> wf_event \<Rightarrow> bool" where
  "durable_completion env cancelId a e \<longleftrightarrow>
     we_type e = ''cancel.compensation-completed'' \<and> CancelCompensationCompletedData (sv_datetime env) (we_data e) \<and>
     js_trim (text_or_none (readString e ''cancelId'')) = cancelId \<and>
     js_trim (text_or_none (readString e ''actionId'')) = action_id a"

definition executeProcessManagedCompensation ::
    "'w comp_env \<Rightarrow> cancel_process \<Rightarrow> string \<Rightarrow> (comp_action \<Rightarrow> ('w, action_result) comp) \<Rightarrow> string \<Rightarrow>
     ('w, compensation_result) comp" where
  "executeProcessManagedCompensation env p featureId execute currentPhase =
     (let actions = orderedCompensationActions currentPhase;
          maxAttempts = or_default (cn_maxAttempts p) CANCEL_MAX_ATTEMPTS in
      andThen (manage_actions env p featureId execute maxAttempts actions) (\<lambda>results.
      andThen (query_stream env featureId) (\<lambda>replay.
        let found = map (\<lambda>a. (a, find (durable_completion (ce_saga env) (cn_cancelId p) a) replay)) actions;
            failed = list_ex (\<lambda>(a, e). e = None) found \<or> list_ex (\<lambda>r. ac_status r = FailedAction) results
        in give \<lparr>cp_actions = results, cp_events = [], cp_success = \<not> failed,
             cp_errorCode = (if failed then Some ''COMPENSATION_PARTIAL'' else None), cp_checkpoint = None,
             cp_completedActionIds = map (\<lambda>(a, e). action_id a) (filter (\<lambda>(a, e). e \<noteq> None) found),
             cp_outcomeSequences = List.map_filter (\<lambda>(a, e). map_option we_sequence e) found\<rparr>)))"

section \<open>executeCompensation\<close>

text \<open>
  The options hold a store exactly when \<open>hasStore\<close>. The actions audit their commands when there is a store
  and a stream id that is not empty.
\<close>

definition action_options :: "bool \<Rightarrow> comp_options \<Rightarrow> comp_options" where
  "action_options hasStore opts =
     (if hasStore \<and> co_featureId opts \<noteq> Some '''' then opts else opts\<lparr>co_featureId := None\<rparr>)"

definition executeCompensation ::
    "int option \<Rightarrow> string \<Rightarrow> 'w comp_env \<Rightarrow> bool \<Rightarrow> cancel_process option \<Rightarrow> fields \<Rightarrow> string \<Rightarrow> log_event list \<Rightarrow> nat \<Rightarrow>
     comp_options \<Rightarrow> ('w, compensation_result) comp" where
  "executeCompensation cap now env hasStore process state currentPhase events seqno opts =
     (let execute = executeAction env (action_options hasStore opts) state in
      if hasStore \<and> co_featureId opts = None then
        throw (OtherError (''executeCompensation: options.eventStore was provided without '' @
          ''options.featureId '' @ em_dash @ '' two-event-split audit trail cannot land '' @
          ''without a stream ID. Either pass both, or omit both to use the '' @
          ''legacy non-event-sourced path.''))
      else (case (process, co_featureId opts) of
          (None, _) \<Rightarrow> legacy_compensation cap now execute currentPhase events seqno opts
        | (Some p, Some f) \<Rightarrow>
            if \<not> hasStore then
              throw (OtherError ''executeCompensation: cancelProcess requires eventStore and featureId'')
            else if co_dryRun opts then
              throw (OtherError ''executeCompensation: cancelProcess cannot run in dry-run mode'')
            else executeProcessManagedCompensation env p f execute currentPhase
        | (Some p, None) \<Rightarrow>
            throw (OtherError ''executeCompensation: cancelProcess requires eventStore and featureId'')))"

end
