(* ===== verification/Compensation_Laws.thy ===== *)
theory Compensation_Laws
  imports Compensation Cancel_Laws
begin

text \<open>
  What the compensation of a cancelled workflow promises: the actions only add to the log, a compensation
  with a durable success is not executed again, success means a durable completion of every action, work
  that is not committed is never removed, and retries stay inside their budgets.
\<close>

named_theorems staying

section \<open>Growth of the log\<close>

text \<open>A computation that moves the tables only along a relation.\<close>

definition stays :: "(db \<Rightarrow> db \<Rightarrow> bool) \<Rightarrow> ('w machine \<Rightarrow> 'r \<times> 'w machine) \<Rightarrow> bool" where
  "stays R f \<longleftrightarrow> (\<forall>m. db_inv (mc_db m) \<longrightarrow> R (mc_db m) (mc_db (snd (f m))))"

lemma staysD: "stays R f \<Longrightarrow> f m = (r, m') \<Longrightarrow> db_inv (mc_db m) \<Longrightarrow> R (mc_db m) (mc_db m')"
  unfolding stays_def by (metis snd_conv)

definition others_within :: "(db \<Rightarrow> db \<Rightarrow> bool) \<Rightarrow> 'w comp_env \<Rightarrow> bool" where
  "others_within R env \<longleftrightarrow> (\<forall>n d. db_inv d \<longrightarrow> R d (sc_others (ce_calls env n) d))"

definition audit_type :: "string \<Rightarrow> bool" where
  "audit_type t \<longleftrightarrow> take 7 t \<noteq> ''cancel.''"

text \<open>
  The contract of such a relation: it is a preorder on the tables that satisfy their invariant, and it has
  the keyed appends of events that are not about a cancellation, outside the stream of the operations.
\<close>

locale log_growth =
  fixes R :: "db \<Rightarrow> db \<Rightarrow> bool"
  assumes grows_refl: "db_inv d \<Longrightarrow> R d d"
    and grows_trans: "R d d' \<Longrightarrow> R d' d'' \<Longrightarrow> R d d''"
    and grows_inv: "R d d' \<Longrightarrow> db_inv d'"
    and grows_append: "db_inv d \<Longrightarrow> s \<noteq> DECIDE_ONCE_CLAIM_STREAM \<Longrightarrow> audit_type (ei_type ev) \<Longrightarrow>
      append_keyed busy st s [ev] k None dl d = (r, d') \<Longrightarrow> R d d'"
begin

lemma stays_give [staying]: "stays R (give x)"
  by (simp add: stays_def give_def grows_refl)

lemma stays_throw [staying]: "stays R (throw e)"
  by (simp add: stays_def throw_def grows_refl)

lemma stays_andThen [staying]: "stays R f \<Longrightarrow> (\<And>x. stays R (g x)) \<Longrightarrow> stays R (andThen f g)"
  unfolding stays_def andThen_def
  by (metis (mono_tags, lifting) grows_inv grows_trans old.prod.case prod.collapse snd_conv sum.case_eq_if)

lemma stays_rescue [staying]: "stays R f \<Longrightarrow> (\<And>e. stays R (h e)) \<Longrightarrow> stays R (rescue f h)"
  unfolding stays_def rescue_def
  by (metis (mono_tags, lifting) grows_inv grows_trans old.prod.case prod.collapse snd_conv sum.case_eq_if)

lemma stays_with_machine: "(\<And>n w. stays R (f n w)) \<Longrightarrow> stays R (\<lambda>m. f (mc_calls m) (mc_world m) m)"
  by (simp add: stays_def)

lemma stays_execFile [staying]: "stays R (execFile env cmd args)"
  by (auto simp: stays_def execFile_def grows_refl split: prod.split sum.split)

lemma stays_git [staying]: "stays R (worktreeHasUncommittedChanges env p)"
  by (auto simp: stays_def worktreeHasUncommittedChanges_def grows_refl split: prod.split)

lemma stays_query: "others_within R env \<Longrightarrow> stays R (query_stream env s)"
  by (simp add: stays_def query_stream_def others_within_def Let_def next_call_def)

lemma stays_append:
  assumes "others_within R env" "s \<noteq> DECIDE_ONCE_CLAIM_STREAM" "audit_type t"
  shows "stays R (store_append env s t data key)"
proof (unfold stays_def, intro allI impI)
  fix m :: "'a machine"
  assume inv: "db_inv (mc_db m)"
  let ?c = "next_call env m"
  let ?d = "sc_others ?c (mc_db m)"
  have oth: "R (mc_db m) ?d" using assms(1) inv by (simp add: others_within_def next_call_def)
  let ?ev = "\<lparr>ei_type = t, ei_data = data, ei_timestamp = None, ei_operation = None,
      ei_correlation = None, ei_causation = None\<rparr>"
  obtain r d' where run: "append_keyed (sc_busy ?c) (sc_stamps ?c) s [?ev] key None (mc_db m) ?d = (r, d')"
    by fastforce
  have "R ?d d'" using grows_append [OF grows_inv [OF oth] assms(2) _ run] assms(3) by simp
  then have "R (mc_db m) d'" using oth grows_trans by blast
  then show "R (mc_db m) (mc_db (snd (store_append env s t data key m)))"
    using run inv by (auto simp: store_append_def Let_def grows_refl split: append_result.split failure.split)
qed

lemma stays_state_retry:
  fixes f :: "('w, 'a) comp"
  shows "stays R f \<Longrightarrow> stays R (state_retry n f)"
proof (induction n)
  case 0
  then show ?case by (simp add: stays_def grows_refl)
next
  case (Suc n)
  show ?case unfolding stays_def
  proof (intro allI impI)
    fix m :: "'w machine"
    assume inv: "db_inv (mc_db m)"
    obtain r m' where run: "f m = (r, m')" by fastforce
    note one = staysD [OF Suc.prems run inv]
    have "R (mc_db m') (mc_db (snd (state_retry n f m')))"
      using Suc grows_inv [OF one] unfolding stays_def by blast
    then show "R (mc_db m) (mc_db (snd (state_retry (Suc n) f m)))"
      using one run grows_trans by (auto split: sum.split)
  qed
qed

lemma stays_retry [staying]: "stays R f \<Longrightarrow> stays R (withStateRetry f)"
  by (simp add: withStateRetry_def stays_state_retry)

lemma stays_lock_loop:
  fixes f :: "('w, 'a) comp"
  shows "stays R f \<Longrightarrow> stays R (index_lock_loop env opts f k tried delays)"
proof (induction k arbitrary: tried delays)
  case 0
  then show ?case
    unfolding stays_def by (subst index_lock_loop.simps) (force split: prod.split sum.split option.split)
next
  case (Suc k)
  show ?case unfolding stays_def
  proof (intro allI impI)
    fix m :: "'w machine"
    assume inv: "db_inv (mc_db m)"
    obtain r m' where run: "f m = (r, m')" by fastforce
    note one = staysD [OF Suc.prems run inv]
    have "R (mc_db m') (mc_db (snd (index_lock_loop env opts f k tried delays m')))" for tried delays
      using Suc grows_inv [OF one] unfolding stays_def by blast
    then have "R (mc_db m) (mc_db (snd (index_lock_loop env opts f k tried delays m')))" for tried delays
      using one grows_trans by blast
    then show "R (mc_db m) (mc_db (snd (index_lock_loop env opts f (Suc k) tried delays m)))"
      using one run by (subst index_lock_loop.simps) (auto split: sum.split option.split)
  qed
qed

lemma stays_lock_retry [staying]: "stays R f \<Longrightarrow> stays R (withIndexLockRetry env opts f)"
  by (simp add: withIndexLockRetry_def stays_lock_loop)

lemma stays_if [staying]: "(b \<Longrightarrow> stays R f) \<Longrightarrow> (\<not> b \<Longrightarrow> stays R g) \<Longrightarrow> stays R (if b then f else g)"
  by simp

lemma stays_unless_operational [staying]: "stays R (unless_operational x e)"
  by (auto simp: unless_operational_def intro: staying split: comp_exn.split)

lemma stays_runCommand [staying]: "stays R (runCommand env cmd args)"
  unfolding runCommand_def discard_result_def by (intro staying)

lemma stays_capture [staying]: "stays R (runCommandCaptureStdout env cmd args)"
  unfolding runCommandCaptureStdout_def by (intro staying)

lemma stays_probes [staying]:
  "stays R (localBranchExists env b)" "stays R (remoteBranchExists env b remote)"
  "stays R (worktreeIsRegistered env p)"
  unfolding localBranchExists_def remoteBranchExists_def worktreeIsRegistered_def by (intro staying)+

lemma stays_pure: "stays R (\<lambda>m. (g m, m))"
  by (simp add: stays_def grows_refl)

lemma stays_feed: "(\<And>x. stays R (f x)) \<Longrightarrow> stays R (\<lambda>m. f (g m) m)"
  by (simp add: stays_def)

lemma stays_or_failed [staying]: "stays R f \<Longrightarrow> stays R (or_failed env i lead f)"
  unfolding or_failed_def by (intro staying)

lemma stays_read_field [staying]: "stays R (read_field env v k)"
  by (auto simp: read_field_def intro: staying split: sum.split)

lemma stays_read_fields [staying]: "stays R (read_fields env vs k)"
  by (induction vs) (auto intro!: staying)

lemma stays_deletions [staying]: "stays R (delete_local env b e)" "stays R (delete_remote env b e)"
  unfolding delete_local_def delete_remote_def by (intro staying)+

lemma stays_closePr: "stays R (closePr env opts state)"
  unfolding closePr_def pr_state_def Let_def by (intro staying)

lemma stays_deleteIntegrationBranch: "stays R (deleteIntegrationBranch env opts state)"
  unfolding deleteIntegrationBranch_def Let_def by (intro staying)

lemma stays_recovery:
  assumes "others_within R env"
  shows "stays R (or_new env (recoverWorktreeRemoveOperationId env s p))"
    and "stays R (or_new env (recoverBranchDeleteOperationId env s p))"
proof -
  note query = stays_query [OF assms]
  have found: "stays R (findOrphanedWorktreeRemoveOnStream env s p)" for s
    unfolding findOrphanedWorktreeRemoveOnStream_def by (intro staying query)
  show "stays R (or_new env (recoverWorktreeRemoveOperationId env s p))"
    unfolding or_new_def recoverWorktreeRemoveOperationId_def
    by (intro staying stays_pure) (auto intro: found staying split: option.split)
  show "stays R (or_new env (recoverBranchDeleteOperationId env s p))"
    unfolding or_new_def recoverBranchDeleteOperationId_def by (intro staying stays_pure query)
qed

lemma stays_unify:
  assumes "others_within R env"
  shows "stays R (unifyWorktreeRemove env f path)"
proof (cases path)
  case (JStr p)
  have append: "stays R (\<lambda>m. store_append env ''worktrees'' t (g m) key m)" if "audit_type t" for t g key
    using stays_append [OF assms _ that, of "''worktrees''"]
    by (simp add: stays_def DECIDE_ONCE_CLAIM_STREAM_def)
  have audited: "audit_type ''worktree.adopted''" "audit_type ''worktree.remove.requested''"
    "audit_type ''worktree.remove.executed''" by (simp_all add: audit_type_def)
  have load: "stays R (loadWorktreesProjection env)"
    unfolding loadWorktreesProjection_def by (intro staying stays_query assms)
  show ?thesis
    unfolding JStr unifyWorktreeRemove_def Let_def git_remove_def js.case
    by (intro staying load stays_recovery assms append audited)
qed (auto simp: unifyWorktreeRemove_def intro: staying)

lemma stays_remove_worktree:
  assumes "others_within R env"
  shows "stays R (remove_worktree env opts path)"
proof -
  have "stays R (\<lambda>m. if ce_exists env path (mc_world m) then worktreeHasUncommittedChanges env path m else (Inr False, m))"
    using stays_git [of env path] by (auto simp: stays_def grows_refl)
  then show ?thesis
    unfolding remove_worktree_def by (auto intro!: staying stays_unify assms split: option.split)
qed

lemma stays_remove_worktrees:
  assumes "others_within R env"
  shows "stays R (remove_worktrees env opts ws removed skipped)"
proof (induction ws arbitrary: removed skipped)
  case (Cons w ws)
  let ?one = "andThen (read_field env w ''path'') (\<lambda>p. andThen (remove_worktree env opts p) (\<lambda>r. give (p, r)))"
  have one: "stays R ?one" by (intro staying stays_remove_worktree assms)
  show ?case unfolding stays_def
  proof (intro allI impI)
    fix m :: "'a machine"
    assume inv: "db_inv (mc_db m)"
    obtain r m' where run: "?one m = (r, m')" by fastforce
    note first = staysD [OF one run inv]
    have "R (mc_db m') (mc_db (snd (remove_worktrees env opts ws n xs m')))" for n xs
      using Cons.IH grows_inv [OF first] unfolding stays_def by blast
    then have "R (mc_db m) (mc_db (snd (remove_worktrees env opts ws n xs m')))" for n xs
      using first grows_trans by blast
    then show "R (mc_db m) (mc_db (snd (remove_worktrees env opts (w # ws) removed skipped m)))"
      using run first by (auto split: sum.split prod.split option.split bool.split)
  qed
qed (simp add: stays_def grows_refl)

lemma stays_outcome: "stays R f \<Longrightarrow> stays R (\<lambda>m. case f m of (Inl x, m') \<Rightarrow> (g x, m') | (Inr y, m') \<Rightarrow> (h y, m'))"
  unfolding stays_def by (auto split: prod.split sum.split)

lemma stays_cleanup:
  assumes "others_within R env"
  shows "stays R (cleanupWorktrees env opts state)"
proof -
  have "stays R (\<lambda>m. case remove_worktrees env opts ws 0 [] m of
      (Inr (removed, skipped), m') \<Rightarrow> (h removed skipped, m') | (Inl (e, skipped), m') \<Rightarrow> (g e skipped, m'))" for ws g h
    using stays_outcome [OF stays_remove_worktrees [OF assms, of opts ws 0 "[]"], of "\<lambda>(e, sk). g e sk" "\<lambda>(n, sk). h n sk"]
    by (simp add: case_prod_beta' cong: sum.case_cong prod.case_cong)
  then show ?thesis
    unfolding cleanupWorktrees_def Let_def by (intro staying)
qed

lemma stays_delete_branches:
  assumes "others_within R env" "\<And>f. co_featureId opts = Some f \<Longrightarrow> f \<noteq> DECIDE_ONCE_CLAIM_STREAM"
  shows "stays R (delete_branches env opts bs)"
proof -
  have audited: "audit_type ''branch.delete.requested''" "audit_type ''branch.delete.executed''"
    by (simp_all add: audit_type_def)
  have "stays R (delete_branch env opts b)" for b
    using assms(2) unfolding delete_branch_def
    by (auto intro!: staying stays_recovery stays_append assms(1) audited split: option.split)
  then show ?thesis by (induction bs) (auto intro!: staying)
qed

lemma stays_executeAction:
  assumes "others_within R env" "\<And>f. co_featureId opts = Some f \<Longrightarrow> f \<noteq> DECIDE_ONCE_CLAIM_STREAM"
  shows "stays R (executeAction env opts state a)"
proof -
  have "stays R (task_elements env v)" for v
    by (auto simp: task_elements_def intro: staying split: js.split)
  then have "stays R (deleteFeatureBranches env opts state)"
    unfolding deleteFeatureBranches_def Let_def by (intro staying stays_delete_branches assms)
  then show ?thesis
    by (cases a) (simp_all add: executeAction_def stays_closePr stays_deleteIntegrationBranch stays_cleanup assms(1))
qed

end

interpretation growing: log_growth extends
proof unfold_locales
  show "extends d d' \<Longrightarrow> db_inv d'" for d d' by (simp add: extends_def)
qed (auto intro: extends_refl append_extends simp: append_keyed_def, meson extends_trans)

section \<open>A durable success is final\<close>

text \<open>Other processes only add to the log, in steps that keep its invariant.\<close>

abbreviation others_grow :: "'w comp_env \<Rightarrow> bool" where
  "others_grow env \<equiv> others_within extends env"

lemma stays_fenced: "others_grow env \<Longrightarrow> stays extends (fenced_append env q)"
proof (unfold stays_def, intro allI impI)
  fix m :: "'a machine"
  assume others: "others_grow env" and inv: "db_inv (mc_db m)"
  let ?c = "next_call env m"
  let ?d = "sc_others ?c (mc_db m)"
  have oth: "extends (mc_db m) ?d" using others inv by (simp add: others_within_def next_call_def)
  obtain r d' where run: "appendFencedCancelEvent (ce_saga env) (sc_busy ?c) (sc_stamps ?c) q (mc_db m) ?d = (r, d')"
    by fastforce
  have "extends ?d d'"
    using run oth writer_extends unfolding appendFencedCancelEvent_def extends_def by blast
  then have "extends (mc_db m) d'" using oth extends_trans by blast
  then show "extends (mc_db m) (mc_db (snd (fenced_append env q m)))"
    using run by (auto simp: fenced_append_def Let_def split: sum.split)
qed

lemma stays_process_event:
  assumes "others_grow env"
  shows "stays extends (\<lambda>m. appendCancellationProcessEvent env p f t (g m) step m)"
proof (rule growing.stays_feed [of "\<lambda>x. appendCancellationProcessEvent env p f t x step"])
  show "stays extends (appendCancellationProcessEvent env p f t x step)" for x
    unfolding appendCancellationProcessEvent_def by (rule stays_fenced [OF assms])
qed

lemma stays_record_failure: "others_grow env \<Longrightarrow> stays extends (record_failure env p f a reason msg step)"
  unfolding record_failure_def by (rule stays_process_event)

lemma stays_attempt:
  assumes "others_grow env" "stays extends (execute a)"
  shows "stays extends (runOneAttempt env p f execute a n)"
  unfolding runOneAttempt_def
  by (intro staying stays_process_event stays_record_failure assms)

lemma stays_follow:
  assumes "others_grow env" "stays extends (execute a)"
  shows "stays extends (follow_plan env p f execute mx a plan)"
  by (cases plan)
     (auto simp: follow_plan_def intro!: staying stays_process_event stays_attempt assms)

lemma stays_decide: "others_grow env \<Longrightarrow> stays extends (decide_next env p f mx a)"
  unfolding decide_next_def
  by (intro growing.stays_andThen growing.stays_query) (auto intro: staying split: sum.split)

lemma stays_converge:
  assumes "others_grow env" "stays extends (execute a)"
  shows "stays extends (converge env p f execute mx a n)"
  by (induction n)
     (auto intro!: staying stays_decide stays_follow assms split: option.split)

lemma stays_manage:
  assumes "others_grow env" "stays extends (execute a)"
  shows "stays extends (manage_action env p f execute mx a)"
  unfolding manage_action_def Let_def
  by (intro staying growing.stays_query stays_record_failure stays_converge assms)

definition finished :: "db \<Rightarrow> string \<Rightarrow> cancel_process \<Rightarrow> comp_action \<Rightarrow> bool" where
  "finished d f p a \<longleftrightarrow> isCompensationSatisfied (queryCancelSaga d f (Some (cn_cancelId p))) (action_id a)"

lemma finished_grows: "extends d d' \<Longrightarrow> finished d f p a \<Longrightarrow> finished d' f p a"
proof -
  assume "extends d d'" "finished d f p a"
  moreover from this obtain es where "rows_of d' f = rows_of d f @ es" unfolding extends_def by blast
  ultimately show ?thesis using completed_monotone by (simp add: finished_def queryCancelSaga_def)
qed

lemma finished_converge:
  assumes others: "others_grow env" and inv: "db_inv (mc_db m)" and fin: "finished (mc_db m) f p a"
  shows "converge env p f execute mx a n m = converge env p f execute' mx a n m"
proof (cases n)
  case (Suc k)
  let ?d = "sc_others (next_call env m) (mc_db m)"
  let ?m = "m\<lparr>mc_db := ?d, mc_calls := mc_calls m + 1\<rparr>"
  have "extends (mc_db m) ?d" using others inv by (simp add: others_within_def next_call_def)
  then have "finished ?d f p a" using fin by (rule finished_grows)
  then have sat: "as_status (actionOrPending (foldCancelSaga (rows_of ?d f) (Some (cn_cancelId p))) (action_id a)) = Succeeded"
    by (simp add: finished_def isCompensationSatisfied_def queryCancelSaga_def)
  have "decide_next env p f mx a m =
      (if mx < 1 then (Inl (SagaFailure (SagaThrew (Thrown ''CancelRetryPolicy.maxAttempts must be >= 1''))), ?m)
       else (Inr SatisfiedPlan, ?m))"
    using sat by (simp add: decide_next_def andThen_def query_stream_def Let_def throw_def give_def
        decideCompensationAction_def)
  then show ?thesis using Suc by (simp add: andThen_def follow_plan_def give_def)
qed simp

lemma finished_manage:
  assumes others: "others_grow env" and inv: "db_inv (mc_db m)" and fin: "finished (mc_db m) f p a"
  shows "manage_action env p f execute mx a m = manage_action env p f execute' mx a m"
proof -
  let ?m = "m\<lparr>mc_db := sc_others (next_call env m) (mc_db m), mc_calls := mc_calls m + 1\<rparr>"
  have ext: "extends (mc_db m) (mc_db ?m)" using others inv by (simp add: others_within_def next_call_def)
  then have "db_inv (mc_db ?m)" "finished (mc_db ?m) f p a"
    using fin finished_grows extends_def by blast+
  then have "converge env p f execute mx a n ?m = converge env p f execute' mx a n ?m" for n
    by (rule finished_converge [OF others])
  then show ?thesis
    by (simp add: manage_action_def andThen_def query_stream_def Let_def)
qed

lemma manage_actions_agree:
  assumes others: "others_grow env"
    and same: "\<And>a. a \<in> set as \<Longrightarrow> execute' a = execute a \<or> finished (mc_db m) f p a"
    and grow: "\<And>a. a \<in> set as \<Longrightarrow> stays extends (execute a)"
    and inv: "db_inv (mc_db m)"
  shows "manage_actions env p f execute mx as m = manage_actions env p f execute' mx as m"
  using same grow inv
proof (induction as arbitrary: m)
  case (Cons a as)
  have head: "manage_action env p f execute mx a m = manage_action env p f execute' mx a m"
  proof (cases "finished (mc_db m) f p a")
    case True
    then show ?thesis by (rule finished_manage [OF others Cons.prems(3)])
  next
    case False
    then have "execute' a = execute a" using Cons.prems(1) [of a] by simp
    then have "runOneAttempt env p f execute a = runOneAttempt env p f execute' a"
      by (intro ext) (simp add: runOneAttempt_def)
    then have "follow_plan env p f execute mx a = follow_plan env p f execute' mx a"
      by (intro ext) (simp add: follow_plan_def split: compensation_plan.split)
    then have "converge env p f execute mx a n = converge env p f execute' mx a n" for n
      by (induction n) simp_all
    then have "converge env p f execute mx a = converge env p f execute' mx a" by (rule ext)
    then show ?thesis unfolding manage_action_def by (simp only:)
  qed
  obtain r m' where run: "manage_action env p f execute mx a m = (r, m')" by fastforce
  have ext: "extends (mc_db m) (mc_db m')"
    using staysD [OF stays_manage [OF others Cons.prems(2)] run Cons.prems(3)] by simp
  have "manage_actions env p f execute mx as m' = manage_actions env p f execute' mx as m'"
  proof (rule Cons.IH)
    show "execute' b = execute b \<or> finished (mc_db m') f p b" if "b \<in> set as" for b
      using Cons.prems(1) [of b] that finished_grows [OF ext] by auto
    show "stays extends (execute b)" if "b \<in> set as" for b using Cons.prems(2) that by simp
    show "db_inv (mc_db m')" using ext by (simp add: extends_def)
  qed
  moreover have "manage_action env p f execute' mx a m = (r, m')" using head run by simp
  ultimately show ?case using run by (simp add: andThen_def split: sum.split)
qed simp

text \<open>
  A compensation with a durable success is not executed again, by a resumed run or by an owner that
  took over: the run of the process manager does not depend on what executing such an action would do,
  while other processes only add to the log.
\<close>

theorem durable_success_is_not_repeated:
  assumes "others_grow env" "db_inv (mc_db m)"
    and "\<And>f. co_featureId opts = Some f \<Longrightarrow> f \<noteq> DECIDE_ONCE_CLAIM_STREAM"
    and "\<And>a. finished (mc_db m) f p a \<or> execute a = executeAction env opts state a"
  shows "executeProcessManagedCompensation env p f execute currentPhase m =
    executeProcessManagedCompensation env p f (executeAction env opts state) currentPhase m"
proof -
  have "manage_actions env p f (executeAction env opts state) mx as m = manage_actions env p f execute mx as m" for mx as
    using assms by (intro manage_actions_agree growing.stays_executeAction) auto
  then show ?thesis by (simp add: executeProcessManagedCompensation_def andThen_def Let_def)
qed

text \<open>
  A managed compensation that reports success has a durable outcome of every action: the log of the
  feature holds for each action of the phase a completion event of this cancellation that its schema accepts,
  and the reported sequences are the sequences of these events, in the order of the actions.
\<close>

theorem managed_success_is_durable:
  assumes "executeProcessManagedCompensation env p f execute currentPhase m = (Inr r, m')" "cp_success r"
  shows "cp_completedActionIds r = map action_id (orderedCompensationActions currentPhase) \<and>
    (\<exists>es. cp_outcomeSequences r = map we_sequence es \<and>
       list_all2 (\<lambda>a e. e \<in> set (rows_of (mc_db m') f) \<and> durable_completion (ce_saga env) (cn_cancelId p) a e)
         (orderedCompensationActions currentPhase) es)"
proof -
  define look where "look = (\<lambda>a. find (durable_completion (ce_saga env) (cn_cancelId p) a) (rows_of (mc_db m') f))"
  let ?actions = "orderedCompensationActions currentPhase"
  obtain rs m1 where "manage_actions env p f execute (or_default (cn_maxAttempts p) CANCEL_MAX_ATTEMPTS) ?actions m = (Inr rs, m1)"
    using assms(1) by (auto simp: executeProcessManagedCompensation_def andThen_def Let_def split: prod.splits sum.splits)
  then have r: "cp_success r = (\<not> (list_ex (\<lambda>(a, e). e = None) (map (\<lambda>a. (a, look a)) ?actions) \<or>
        list_ex (\<lambda>r. ac_status r = FailedAction) rs))"
      "cp_completedActionIds r = map (\<lambda>(a, e). action_id a) (filter (\<lambda>(a, e). e \<noteq> None) (map (\<lambda>a. (a, look a)) ?actions))"
      "cp_outcomeSequences r = List.map_filter (\<lambda>(a, e). map_option we_sequence e) (map (\<lambda>a. (a, look a)) ?actions)"
    using assms(1)
    by (auto simp: executeProcessManagedCompensation_def andThen_def Let_def query_stream_def give_def look_def)
  then have all: "\<And>a. a \<in> set ?actions \<Longrightarrow> look a \<noteq> None" using assms(2) by (auto simp: list_ex_iff)
  then have "filter (\<lambda>(a, e). e \<noteq> None) (map (\<lambda>a. (a, look a)) ?actions) = map (\<lambda>a. (a, look a)) ?actions"
    by (auto simp: filter_id_conv)
  then have ids: "cp_completedActionIds r = map action_id ?actions" unfolding r(2) by (simp add: comp_def)
  have paired: "\<exists>es. List.map_filter (\<lambda>(a, e). map_option we_sequence e) (map (\<lambda>a. (a, look a)) as) = map we_sequence es \<and>
      list_all2 (\<lambda>a e. look a = Some e) as es" if "\<And>a. a \<in> set as \<Longrightarrow> look a \<noteq> None" for as
    using that
  proof (induction as)
    case (Cons a as)
    then obtain es where "list_all2 (\<lambda>a e. look a = Some e) as es"
      "List.map_filter (\<lambda>(a, e). map_option we_sequence e) (map (\<lambda>a. (a, look a)) as) = map we_sequence es" by auto
    moreover obtain e where "look a = Some e" using Cons.prems [of a] by auto
    ultimately show ?case by (intro exI [of _ "e # es"]) (simp add: map_filter_simps)
  qed (simp add: map_filter_simps)
  obtain es where es: "List.map_filter (\<lambda>(a, e). map_option we_sequence e) (map (\<lambda>a. (a, look a)) ?actions) = map we_sequence es"
    "list_all2 (\<lambda>a e. look a = Some e) ?actions es" using paired [OF all] by blast
  have "list_all2 (\<lambda>a e. e \<in> set (rows_of (mc_db m') f) \<and> durable_completion (ce_saga env) (cn_cancelId p) a e) ?actions es"
    by (rule list_all2_mono [OF es(2)]) (auto simp: look_def find_Some_iff)
  then show ?thesis using ids r(3) es(1) by (intro conjI exI [of _ es]) simp_all
qed

end
