(* ===== verification/Spec2Isabelle.thy ===== *)
theory Spec2Isabelle
  imports Guard_Laws Policy_Laws Transition_Laws Machine_Runs Machine_Graphs Skip_Laws Event_Laws
    Append_Laws Backend_Laws Attempt_Laws Edge_Laws Admission_Laws Obligation_Laws Selection_Laws Attempt_Fold_Laws Command_Laws
    Mutation_Laws View_Laws View_Fold_Laws Task_Laws Cancel_Laws Worktree_Laws
    Compensation_Laws
begin

text \<open>
  The workflow core of Exarchos: hierarchical state machines whose transitions are guarded, recorded
  in an append-only event log and held to admission obligations.

  \<^bold>\<open>The program.\<close> A workflow is a state file and a stream of events. A caller asks the transition
  primitive (\<open>src/workflow/hsm-transition-guard.ts\<close>) for a phase. The primitive reads the obligations
  that earlier entries of the phase froze in the stream, runs the executor
  (\<open>src/workflow/state-machine.ts\<close>) over the machine of the workflow type
  (\<open>src/workflow/hsm-definitions.ts\<close>, or a registered custom type), whose guards
  (\<open>src/workflow/guards.ts\<close>) read the untyped state, and appends the events of the outcome through the
  atomic appender (\<open>src/events/atomic-appender.ts\<close>) to a storage backend
  (\<open>src/storage/sqlite-backend.ts\<close>, \<open>src/storage/memory-backend.ts\<close>). The state store hydrates the
  stream back into the log that the executor reads in the next round (\<open>src/workflow/state-store.ts\<close>,
  \<open>src/workflow/events.ts\<close>). The gates of a phase come from the verification policy
  (\<open>src/workflow/verification-policy.ts\<close> and its neighbours). The admission kernel
  (\<open>src/workflow/admission\<close>) resolves requirement sets, freezes them into records and evaluates them
  against evidence and waivers; its edge conditions are a closed language for conditional edges. A field of
  the state is changed by a dot-path (\<open>src/workflow/state-mutation.ts\<close>), recorded as a patch event. Readers
  never ask the state file: they fold the stream into a view (\<open>src/projections/views\<close>), through a cache
  with snapshots that is folded forward to the tail of the stream before it answers
  (\<open>src/projections/fold-at-tail.ts\<close>). A cancellation is a process of its own with an owner, whose epoch
  fences the writes of earlier owners (\<open>src/workflow/cancel-process-manager.ts\<close>),
  and its compensation actions run git and GitHub commands (\<open>src/workflow/compensation.ts\<close>).

  \<^bold>\<open>Values.\<close> \<open>Js_Value\<close> is the language: the values that JSON has, \<open>undefined\<close>, numbers as rationals
  with NaN, the infinities and a negative zero where the code can tell them apart, objects as
  association lists in key order, \<open>typeof\<close>, strict equality, truthiness, \<open>String\<close> and
  \<open>JSON.stringify\<close>. Strings are the bytes of their UTF-8 text. A function as a value inside the state has no
  counterpart. Properties inherited from a prototype are not values either; \<open>object_names\<close> lists the inherited
  names, so that a lookup that would find one is a branch of its own where the code makes such lookups with
  names from outside (dot-paths, task ids, snapshot names). Exceptions are the left summand of
  a result, so every throw is a branch. \<open>Prelude\<close> has the generic facts and the locale of joins.

  \<^bold>\<open>Components, in the order of the theories.\<close>
  \<^item> \<open>Plan_Revision\<close>, \<open>Guards\<close>, \<open>Guard_Table\<close>: the readers of the untyped state and every member of the
    guard table. A guard maps the fields of the state to a pass or a failure with its reason, the shape
    that it expects and the fix that it suggests.
  \<^item> \<open>Verification_Policy\<close>, \<open>Phase_Kind\<close>, \<open>Requirement_Context\<close>: the gate ladders, the plan depths, the
    review roster, the obligations of a phase kind and the joins of danger coordinates. The locales
    \<open>ranked_join\<close> and \<open>gate_ladder\<close> are interpreted on these tables.
  \<^item> \<open>Hsm_Definitions\<close>, \<open>Hsm_Registry\<close>, \<open>Hsm_Structure\<close>: the five built-in machines, the registry, the
    conversion of custom definitions, and the structural contract of a machine with its graph.
  \<^item> \<open>State_Machine\<close>: \<open>executeTransition\<close>, cut at its early returns: universal cancel and cleanup, the
    guard, the circuit breaker, the entry obligation, the events and the history.
  \<^item> \<open>Phase_Skip\<close>: the rerouting of a machine around skipped phases.
  \<^item> \<open>Workflow_Events\<close>, \<open>Event_Log\<close>: the log inside the state, the fix-cycle counters, the hydration,
    and the rows and filters of a stream query.
  \<^item> \<open>Memory_Backend\<close>, \<open>Sqlite_Store\<close>, \<open>Atomic_Appender\<close>: the two backends and the append primitive with
    idempotency keys, decisions and operations that are decided once. A database is a record of
    tables; a transaction is a function on it that returns the old database when it fails.
  \<^item> \<open>Transition_Guard\<close>: the whole guarded transition, from the floor to the last append.
  \<^item> \<open>Edge_Condition\<close>: parse, serialise, evaluate and select edge conditions.
  \<^item> \<open>Requirement_Strength\<close>, \<open>Admission_Types\<close>, \<open>Requirement_Freeze\<close>, \<open>Policy_Evaluation\<close>: requirement
    sets with their order and their join (the locale \<open>upper_join\<close>), the persisted records, the freeze
    and its reconciliation, waivers, and the two evaluators.
  \<^item> \<open>Evidence_Selection\<close>: the evidence that counts, from recorded facts: duplicates, supersession chains
    (link check, cycle search, fixpoint), convergence and contradictions.
  \<^item> \<open>Decision_Records\<close>, \<open>Phase_Attempt\<close>: the persisted decisions, and the fold that reconstructs every
    phase attempt from the admission facts of a stream.
  \<^item> \<open>Transition_Command\<close>: the admission chokepoint, which routes, resolves, freezes, evaluates and writes
    the decision and the lifecycle event in one transaction, and the cleanup command.
  \<^item> \<open>State_Mutation\<close>: the reserved fields, the parser of dot-paths, the merge of objects and \<open>applyDotPath\<close>,
    with the two loops over it, the updates of a request and the replay of a patch.
  \<^item> \<open>Workflow_View\<close>: every case of the fold of the workflow-state view. \<open>View_Fold\<close>: the materializer, that
    is the cache of folded views with its eviction, its snapshots in SQLite or in files and their JSON texts,
    the rehydration plan, and the fold against a pinned tail. \<open>Task_Projections\<close>: the ladder of task
    statuses, the pipeline view, the task store and the merge orchestrator.
  \<^item> \<open>Cancel_Events\<close>, \<open>Cancel_Saga\<close>: the schemas of the cancellation events, the fold of a saga, the
    acquisition of ownership, the fenced append, the decision on the next compensation and the readiness.
  \<^item> \<open>Worktrees\<close>, \<open>Shell_Effects\<close>, \<open>Compensation\<close>: the reducer of the governed worktrees; the commands that a
    compensation runs, the classification of their failures and the bounded retries around them; the four
    actions, their order, the legacy run with its checkpoint and the run under the process manager.

  \<^bold>\<open>What the law theories show.\<close> \<open>Guard_Laws\<close>: when the review guards pass, which guards exclude each
  other. \<open>Policy_Laws\<close>: danger never removes gates, unknown fails safe, gate sets survive their freeze.
  \<open>State_Machine_Laws\<close> and \<open>Transition_Laws\<close>: exactly when a transition succeeds, what it emits, that a
  refusal changes nothing, that fix cycles are bounded and entry obligations dominate the frozen ones.
  \<open>Machine_Runs\<close>, \<open>Machine_Graphs\<close>: runs through the store stay in the machine, no phase of a built-in
  type is a dead end, registry operations keep machines well formed. \<open>Skip_Laws\<close>: what one skip does.
  \<open>Event_Laws\<close>: type names and counts through the store. \<open>Append_Laws\<close>, \<open>Backend_Laws\<close>: gapless
  sequences, idempotent retries, optimistic concurrency, the agreement of the two backends.
  \<open>Attempt_Laws\<close>: what a guarded transition appends and that frozen obligations are owed again.
  \<open>Edge_Laws\<close>: compilation is sound and stable, evaluation is Kleene's logic, selection is the first
  edge that is not false. \<open>Admission_Laws\<close>, \<open>Obligation_Laws\<close>: an allow is earned, failures stay on
  record, the order of arrival is irrelevant, requirement sets form a join semilattice, resolution is
  monotone, a frozen set is never lowered. \<open>Selection_Laws\<close>: the passes over supersession chains accept
  exactly the well-founded ones, and no quorum is met over selected evidence. \<open>Canonical_Json\<close>: the
  texts under the digests identify their values. \<open>Attempt_Fold_Laws\<close>: no fact is lost, frozen sets only
  grow, a trusted decision belongs to the active set. \<open>Command_Laws\<close>: decision and phase commit
  together, a phase change is earned, what a retry returns. \<open>Mutation_Laws\<close>: a path write is local, reserved
  fields survive every update and every replay. \<open>View_Laws\<close>: the view refines the lifecycle of the events, the
  histories of the proof are the log. \<open>View_Fold_Laws\<close>: eviction ends, a cached read is the fold of the log
  when the views survive their JSON texts, and a stream where they do not. \<open>Task_Laws\<close>: a terminal status is
  final in the pipeline, task records do not influence each other, and what a second assignment does in each
  view. \<open>Cancel_Laws\<close>: the counts of the saga fold, a displaced owner writes nothing, epochs increase, a
  completed compensation is final, a readiness proof is backed by the log.
  \<open>Worktree_Laws\<close>: entries of different worktrees do not influence each other, an owner is shown only
  while a worktree is reserved, and when a claim on an integration branch is in flight.
  \<open>Compensation_Laws\<close>: actions only add to the log, a durable success is not executed again, a reported
  success is durable, work that is not committed stays, and retries stay inside their budgets.

  \<^bold>\<open>Parameters.\<close> Arguments stand for what is not in the repository or not deterministic: clocks and
  generated identifiers, SHA-256 (\<open>sha\<close>), \<open>Date.parse\<close>, the busy signal of SQLite, the collation of
  \<open>localeCompare\<close>, the validation of an event by its zod schema, the evaluation of a custom guard, and what
  the JSON text of a view of a generic projection reads back as (for the workflow view: \<open>json_fields\<close>).
  For the compensation: what a command does, which paths exist, how a path resolves, and what other
  processes commit between two calls of the store. The world that commands act on is of any type.

  \<^bold>\<open>Bounds.\<close> A walk to a root of the state tree takes as fuel the number of states, which is enough on
  a chain of parents without a repetition; the busy retry takes the number of attempts of the policy.
  The eviction loop of the view cache is a partial function that is proved to end. All other recursions are
  structural or have a termination proof. Numbers of the code that are counters are natural numbers, far
  below \<open>2 ^ 53\<close>; a number that comes from outside is bounded where the code bounds it
  (\<open>MAX_SAFE_INTEGER\<close>) and rounded where it is read into a double (the indices of dot-paths).

  \<^bold>\<open>Not modelled.\<close> The handlers that call the cancellation and the cleanup, the handlers of CLI and
  MCP verbs, views and projections other than the ones named, the zod schemas of events other than those
  of the cancellation, storage migrations and pragmas, the shadow observer (whose result cannot change an
  outcome), the installer, the contract compiler and the repository's own tooling. A dot-path write that
  leaves the values of the model, because it walks into an inherited property or sets a prototype, ends in
  \<open>OutsideModel\<close>, about which no theorem says anything.
\<close>

end
